(* ===== verification/Prelude.thy ===== *)
theory Prelude
  imports Main "HOL-Library.Word"
begin

text \<open>
  Shared vocabulary of the development: the fixed-width integer types of
  \<^verbatim>\<open>base/basictypes.h\<close>, the memory primitives (\<^verbatim>\<open>memcpy\<close> into and out of a byte
  array) that the containers and codecs use, and the generic facts on lists and words
  that their proofs share.  A byte array is a list of 8-bit words; \<^verbatim>\<open>size_t\<close> is 64 bits
  wide and always measures an object in memory, so sizes are natural numbers.
\<close>

unbundle bit_operations_syntax

section \<open>Integer types\<close>

type_synonym uint8 = "8 word"
type_synonym uint16 = "16 word"
type_synonym uint32 = "32 word"
type_synonym uint64 = "64 word"
type_synonym bytes = "uint8 list"

text \<open>The characters of a string as bytes.\<close>

definition string_bytes :: "string \<Rightarrow> bytes" where "string_bytes = map of_char"

named_theorems frame_simps \<open>fields that an operation leaves alone\<close>
named_theorems nowrap \<open>word operations read as natural numbers when they do not wrap\<close>

section \<open>Memory primitives\<close>

text \<open>\<open>mem_read buf pos n\<close> is what \<^verbatim>\<open>memcpy(dst, &buf[pos], n)\<close> reads;
  \<open>mem_write buf pos src\<close> is the array after \<^verbatim>\<open>memcpy(&buf[pos], src, len(src))\<close>.\<close>

definition mem_read :: "'a list \<Rightarrow> nat \<Rightarrow> nat \<Rightarrow> 'a list" where
  "mem_read buf pos n = take n (drop pos buf)"

definition mem_write :: "'a list \<Rightarrow> nat \<Rightarrow> 'a list \<Rightarrow> 'a list" where
  "mem_write buf pos src = take pos buf @ src @ drop (pos + length src) buf"

lemma length_mem_read [simp]: "length (mem_read buf pos n) = min n (length buf - pos)"
  by (simp add: mem_read_def)

lemma nth_mem_read:
  "i < n \<Longrightarrow> pos + i < length buf \<Longrightarrow> mem_read buf pos n ! i = buf ! (pos + i)"
  by (simp add: mem_read_def)

lemma mem_read_0 [simp]: "mem_read buf pos 0 = []"
  by (simp add: mem_read_def)

lemma length_mem_write [simp]:
  "pos + length src \<le> length buf \<Longrightarrow> length (mem_write buf pos src) = length buf"
  by (simp add: mem_write_def)

lemma nth_mem_write:
  assumes "pos + length src \<le> length buf" and "i < length buf"
  shows "mem_write buf pos src ! i =
    (if pos \<le> i \<and> i < pos + length src then src ! (i - pos) else buf ! i)"
  using assms by (auto simp: mem_write_def nth_append min_def)

lemma mem_write_Nil [simp]: "mem_write buf pos [] = buf"
  by (simp add: mem_write_def)

lemma take_mem_read [simp]: "take k (mem_read buf pos n) = mem_read buf pos (min n k)"
  by (simp add: mem_read_def min.commute)

lemma mem_read_mem_write_0 [simp]: "mem_read (mem_write buf 0 src) 0 (length src) = src"
  by (simp add: mem_read_def mem_write_def)

section \<open>Words as natural numbers\<close>

lemma unat_add_nowrap [nowrap]:
  fixes a b :: "'a :: len word"
  assumes "unat a + unat b < 2 ^ LENGTH('a)"
  shows "unat (a + b) = unat a + unat b"
  using assms by (simp add: unat_add_lem [symmetric])

lemma unat_sub_nowrap [nowrap]:
  fixes a b :: "'a :: len word"
  assumes "b \<le> a"
  shows "unat (a - b) = unat a - unat b"
  using assms by (rule unat_sub)

lemma unat_of_nat_small [nowrap]:
  "n < 2 ^ LENGTH('a :: len) \<Longrightarrow> unat (of_nat n :: 'a word) = n"
  by (simp add: unat_of_nat take_bit_nat_eq_self)

lemma word_lt_nat: "(a :: 'a :: len word) < b \<longleftrightarrow> unat a < unat b"
  by (rule word_less_nat_alt)

lemma word_le_nat: "(a :: 'a :: len word) \<le> b \<longleftrightarrow> unat a \<le> unat b"
  by (rule word_le_nat_alt)

lemma unat32_lt [simp]: "unat (x :: uint32) < 4294967296"
  using unsigned_less [of x, where ?'a = nat] by simp

lemma unat16_lt [simp]: "unat (x :: uint16) < 65536"
  using unsigned_less [of x, where ?'a = nat] by simp

lemma unat8_lt [simp]: "unat (x :: uint8) < 256"
  using unsigned_less [of x, where ?'a = nat] by simp

lemma sint32_eq: "sint (x :: uint32) = (if uint x < 2147483648 then uint x else uint x - 4294967296)"
proof -
  have "0 \<le> uint x" "uint x < 4294967296"
    using uint_lt2p [of x] by simp_all
  moreover have "sint x = (uint x + 2147483648) mod 4294967296 - 2147483648"
    using int_word_sint [of "uint x", where 'a = 32] by simp
  ultimately show ?thesis by (cases "uint x < 2147483648") (simp_all add: mod_pos_geq)
qed

lemma of_nat_unat_diff:
  fixes a b :: "'a :: len word"
  shows "of_nat (unat a) + b = a + b"
  by simp

section \<open>Lists\<close>

lemma sum_list_take_drop:
  "sum_list (take n xs) + sum_list (drop n xs) = (sum_list xs :: nat)"
  by (metis append_take_drop_id sum_list_append)

lemma list_eq_nthI:
  "length xs = length ys \<Longrightarrow> (\<And>i. i < length ys \<Longrightarrow> xs ! i = ys ! i) \<Longrightarrow> xs = ys"
  by (rule nth_equalityI) simp_all

end
