(* ===== verification/ByteOrder.thy ===== *)
theory ByteOrder
  imports Prelude
begin

text \<open>
  \<^verbatim>\<open>base/byteorder.h\<close>: reading and writing integers in big-endian and little-endian byte
  order.  A setter returns the bytes it stores, lowest address first; a getter takes the
  bytes at the address it is given.  \<^verbatim>\<open>HostToNetwork32\<close> and its kin reinterpret the memory
  of an integer; the hosts the library is built for (x86, ARM) are little-endian, which
  \<open>host_bytes16\<close> \dots \<open>host_word64\<close> fix, and \<^verbatim>\<open>IsHostBigEndian\<close> is false there.
\<close>

definition SetBE16 :: "uint16 \<Rightarrow> bytes" where
  "SetBE16 v = [ucast (drop_bit 8 v), ucast (drop_bit 0 v)]"

definition SetBE32 :: "uint32 \<Rightarrow> bytes" where
  "SetBE32 v = [ucast (drop_bit 24 v), ucast (drop_bit 16 v), ucast (drop_bit 8 v),
     ucast (drop_bit 0 v)]"

definition SetBE64 :: "uint64 \<Rightarrow> bytes" where
  "SetBE64 v = [ucast (drop_bit 56 v), ucast (drop_bit 48 v), ucast (drop_bit 40 v),
     ucast (drop_bit 32 v), ucast (drop_bit 24 v), ucast (drop_bit 16 v),
     ucast (drop_bit 8 v), ucast (drop_bit 0 v)]"

definition GetBE16 :: "bytes \<Rightarrow> uint16" where
  "GetBE16 m = push_bit 8 (ucast (m ! 0)) OR push_bit 0 (ucast (m ! 1))"

definition GetBE32 :: "bytes \<Rightarrow> uint32" where
  "GetBE32 m = push_bit 24 (ucast (m ! 0)) OR push_bit 16 (ucast (m ! 1))
     OR push_bit 8 (ucast (m ! 2)) OR push_bit 0 (ucast (m ! 3))"

definition GetBE64 :: "bytes \<Rightarrow> uint64" where
  "GetBE64 m = push_bit 56 (ucast (m ! 0)) OR push_bit 48 (ucast (m ! 1))
     OR push_bit 40 (ucast (m ! 2)) OR push_bit 32 (ucast (m ! 3))
     OR push_bit 24 (ucast (m ! 4)) OR push_bit 16 (ucast (m ! 5))
     OR push_bit 8 (ucast (m ! 6)) OR push_bit 0 (ucast (m ! 7))"

definition SetLE16 :: "uint16 \<Rightarrow> bytes" where
  "SetLE16 v = [ucast (drop_bit 0 v), ucast (drop_bit 8 v)]"

definition SetLE32 :: "uint32 \<Rightarrow> bytes" where
  "SetLE32 v = [ucast (drop_bit 0 v), ucast (drop_bit 8 v), ucast (drop_bit 16 v),
     ucast (drop_bit 24 v)]"

definition SetLE64 :: "uint64 \<Rightarrow> bytes" where
  "SetLE64 v = [ucast (drop_bit 0 v), ucast (drop_bit 8 v), ucast (drop_bit 16 v),
     ucast (drop_bit 24 v), ucast (drop_bit 32 v), ucast (drop_bit 40 v),
     ucast (drop_bit 48 v), ucast (drop_bit 56 v)]"

definition GetLE16 :: "bytes \<Rightarrow> uint16" where
  "GetLE16 m = push_bit 0 (ucast (m ! 0)) OR push_bit 8 (ucast (m ! 1))"

definition GetLE32 :: "bytes \<Rightarrow> uint32" where
  "GetLE32 m = push_bit 0 (ucast (m ! 0)) OR push_bit 8 (ucast (m ! 1))
     OR push_bit 16 (ucast (m ! 2)) OR push_bit 24 (ucast (m ! 3))"

definition GetLE64 :: "bytes \<Rightarrow> uint64" where
  "GetLE64 m = push_bit 0 (ucast (m ! 0)) OR push_bit 8 (ucast (m ! 1))
     OR push_bit 16 (ucast (m ! 2)) OR push_bit 24 (ucast (m ! 3))
     OR push_bit 32 (ucast (m ! 4)) OR push_bit 40 (ucast (m ! 5))
     OR push_bit 48 (ucast (m ! 6)) OR push_bit 56 (ucast (m ! 7))"

text \<open>The memory image of an integer variable on a little-endian host.\<close>

definition IsHostBigEndian :: bool where "IsHostBigEndian = False"

abbreviation host_bytes16 :: "uint16 \<Rightarrow> bytes" where "host_bytes16 \<equiv> SetLE16"
abbreviation host_bytes32 :: "uint32 \<Rightarrow> bytes" where "host_bytes32 \<equiv> SetLE32"
abbreviation host_bytes64 :: "uint64 \<Rightarrow> bytes" where "host_bytes64 \<equiv> SetLE64"
abbreviation host_word16 :: "bytes \<Rightarrow> uint16" where "host_word16 \<equiv> GetLE16"
abbreviation host_word32 :: "bytes \<Rightarrow> uint32" where "host_word32 \<equiv> GetLE32"
abbreviation host_word64 :: "bytes \<Rightarrow> uint64" where "host_word64 \<equiv> GetLE64"

definition HostToNetwork16 :: "uint16 \<Rightarrow> uint16" where
  "HostToNetwork16 n = host_word16 (SetBE16 n)"

definition HostToNetwork32 :: "uint32 \<Rightarrow> uint32" where
  "HostToNetwork32 n = host_word32 (SetBE32 n)"

definition HostToNetwork64 :: "uint64 \<Rightarrow> uint64" where
  "HostToNetwork64 n = host_word64 (SetBE64 n)"

definition NetworkToHost16 :: "uint16 \<Rightarrow> uint16" where
  "NetworkToHost16 n = GetBE16 (host_bytes16 n)"

definition NetworkToHost32 :: "uint32 \<Rightarrow> uint32" where
  "NetworkToHost32 n = GetBE32 (host_bytes32 n)"

definition NetworkToHost64 :: "uint64 \<Rightarrow> uint64" where
  "NetworkToHost64 n = GetBE64 (host_bytes64 n)"

section \<open>Bytes of a word, word of its bytes\<close>

text \<open>One bit argument proves every round trip: bit \<open>n\<close> of the word is bit \<open>n mod 8\<close> of
  byte \<open>n div 8\<close>, and a byte list of the right length is a tuple of bytes.\<close>

lemma length_Suc_nat [simp]:
  "length (SetBE16 v) = 2" "length (SetBE32 w) = 4" "length (SetBE64 x) = 8"
  "length (SetLE16 v) = 2" "length (SetLE32 w) = 4" "length (SetLE64 x) = 8"
  by (simp_all add: SetBE16_def SetBE32_def SetBE64_def SetLE16_def SetLE32_def SetLE64_def)

lemma bytewise16:
  fixes n :: nat
  assumes "\<And>j. j < 8 \<Longrightarrow> P j" "\<And>j. j < 8 \<Longrightarrow> P (8 + j)" and "n < 16"
  shows "P n"
proof (cases "n < 8")
  case False
  then have "P (8 + (n - 8))" using assms(3) by (intro assms(2)) simp
  with False show ?thesis by simp
qed (rule assms(1))

lemma bytewise32:
  fixes n :: nat
  assumes "\<And>j. j < 8 \<Longrightarrow> P j" "\<And>j. j < 8 \<Longrightarrow> P (8 + j)"
    "\<And>j. j < 8 \<Longrightarrow> P (16 + j)" "\<And>j. j < 8 \<Longrightarrow> P (24 + j)" and "n < 32"
  shows "P n"
proof (cases "n < 16")
  case False
  have "P (16 + (n - 16))"
    by (rule bytewise16 [where P = "\<lambda>k. P (16 + k)"])
       (use assms False in \<open>simp_all add: add.assoc [symmetric]\<close>)
  with False show ?thesis by simp
qed (use assms in \<open>blast intro: bytewise16\<close>)

lemma bytewise64:
  fixes n :: nat
  assumes "\<And>j. j < 8 \<Longrightarrow> P j" "\<And>j. j < 8 \<Longrightarrow> P (8 + j)"
    "\<And>j. j < 8 \<Longrightarrow> P (16 + j)" "\<And>j. j < 8 \<Longrightarrow> P (24 + j)"
    "\<And>j. j < 8 \<Longrightarrow> P (32 + j)" "\<And>j. j < 8 \<Longrightarrow> P (40 + j)"
    "\<And>j. j < 8 \<Longrightarrow> P (48 + j)" "\<And>j. j < 8 \<Longrightarrow> P (56 + j)" and "n < 64"
  shows "P n"
proof (cases "n < 32")
  case False
  have "P (32 + (n - 32))"
    by (rule bytewise32 [where P = "\<lambda>k. P (32 + k)"])
       (use assms False in \<open>simp_all add: add.assoc [symmetric]\<close>)
  with False show ?thesis by simp
qed (use assms in \<open>blast intro: bytewise32\<close>)

lemma GetBE16_SetBE16 [simp]: "GetBE16 (SetBE16 v @ r) = v"
  by (rule bit_word_eqI, rule bytewise16) (simp_all add: GetBE16_def SetBE16_def bit_simps)

lemma GetLE16_SetLE16 [simp]: "GetLE16 (SetLE16 v @ r) = v"
  by (rule bit_word_eqI, rule bytewise16) (simp_all add: GetLE16_def SetLE16_def bit_simps)

lemma GetBE32_SetBE32 [simp]: "GetBE32 (SetBE32 v @ r) = v"
  by (rule bit_word_eqI, rule bytewise32) (simp_all add: GetBE32_def SetBE32_def bit_simps)

lemma GetLE32_SetLE32 [simp]: "GetLE32 (SetLE32 v @ r) = v"
  by (rule bit_word_eqI, rule bytewise32) (simp_all add: GetLE32_def SetLE32_def bit_simps)

lemma GetBE64_SetBE64 [simp]: "GetBE64 (SetBE64 v @ r) = v"
  by (rule bit_word_eqI, rule bytewise64) (simp_all add: GetBE64_def SetBE64_def bit_simps)

lemma GetLE64_SetLE64 [simp]: "GetLE64 (SetLE64 v @ r) = v"
  by (rule bit_word_eqI, rule bytewise64) (simp_all add: GetLE64_def SetLE64_def bit_simps)

lemmas Get_Set_exact [simp] =
  GetBE16_SetBE16 [of _ "[]", simplified] GetLE16_SetLE16 [of _ "[]", simplified]
  GetBE32_SetBE32 [of _ "[]", simplified] GetLE32_SetLE32 [of _ "[]", simplified]
  GetBE64_SetBE64 [of _ "[]", simplified] GetLE64_SetLE64 [of _ "[]", simplified]

text \<open>The other direction: the bytes of the word read from a byte list are that list.\<close>

lemma bit_uint8_high [simp]: "8 \<le> n \<Longrightarrow> \<not> bit (b :: uint8) n"
  using bit_imp_le_length [of b n] by auto

lemma SetBE16_GetBE16: "SetBE16 (GetBE16 [a, b]) = [a, b]"
  by (simp add: GetBE16_def SetBE16_def) (auto simp: bit_eq_iff bit_simps)

lemma SetBE32_GetBE32: "SetBE32 (GetBE32 [a, b, c, d]) = [a, b, c, d]"
  by (simp add: GetBE32_def SetBE32_def) (auto simp: bit_eq_iff bit_simps)

lemma SetLE16_GetLE16: "SetLE16 (GetLE16 [a, b]) = [a, b]"
  by (simp add: GetLE16_def SetLE16_def) (auto simp: bit_eq_iff bit_simps)

lemma SetLE32_GetLE32: "SetLE32 (GetLE32 [a, b, c, d]) = [a, b, c, d]"
  by (simp add: GetLE32_def SetLE32_def) (auto simp: bit_eq_iff bit_simps)

section \<open>Network order on the host\<close>

lemma host_bytes_network [simp]:
  "host_bytes16 (HostToNetwork16 v) = SetBE16 v"
  "host_bytes32 (HostToNetwork32 w) = SetBE32 w"
  by (simp_all add: HostToNetwork16_def HostToNetwork32_def SetBE16_def SetBE32_def
      SetLE16_GetLE16 SetLE32_GetLE32)

lemma SetLE64_GetLE64: "SetLE64 (GetLE64 [a, b, c, d, e, f, g, h]) = [a, b, c, d, e, f, g, h]"
  by (simp add: GetLE64_def SetLE64_def) (auto simp: bit_eq_iff bit_simps)

lemma host_bytes_network64 [simp]: "host_bytes64 (HostToNetwork64 x) = SetBE64 x"
  by (simp add: HostToNetwork64_def SetBE64_def SetLE64_GetLE64)

lemma network_host_word [simp]:
  "NetworkToHost16 (host_word16 (SetBE16 v)) = v"
  "NetworkToHost32 (host_word32 (SetBE32 w)) = w"
  "NetworkToHost64 (host_word64 (SetBE64 x)) = x"
  using host_bytes_network host_bytes_network64
  by (simp_all add: NetworkToHost16_def NetworkToHost32_def NetworkToHost64_def
      HostToNetwork16_def HostToNetwork32_def HostToNetwork64_def)

lemma NetworkToHost_HostToNetwork [simp]:
  "NetworkToHost16 (HostToNetwork16 v) = v" "NetworkToHost32 (HostToNetwork32 w) = w"
  "NetworkToHost64 (HostToNetwork64 x) = x"
  by (simp_all add: HostToNetwork16_def HostToNetwork32_def HostToNetwork64_def)

lemma NetworkToHost32_bytes: "NetworkToHost32 (host_word32 [a, b, c, d]) = GetBE32 [a, b, c, d]"
  by (simp add: NetworkToHost32_def SetLE32_GetLE32)

end
