(* ===== verification/ByteBuffer.thy ===== *)
theory ByteBuffer
  imports ByteOrder
begin

text \<open>
  \<^verbatim>\<open>base/bytebuffer.cc\<close>: the growable buffer that packets are built in and parsed from.
  The record has the members of the class (\<^verbatim>\<open>bytes_\<close> is \<open>bb_bytes\<close>, and so on): an array of
  \<open>bb_size\<close> bytes of which those from \<open>bb_start\<close> to \<open>bb_end\<close> are the content.  Memory from
  \<^verbatim>\<open>new char[]\<close> is modelled as zeroes; no byte outside the content is ever read.  An
  operation that returns \<^verbatim>\<open>false\<close> is \<open>None\<close> and leaves the buffer as it was.

  The abstraction is the byte string \<open>bb_data\<close>: writing appends to it, reading removes a
  prefix, whatever the array does underneath.  \<open>byte_stream\<close> is that contract as a locale.
\<close>

datatype byte_order = ORDER_NETWORK | ORDER_HOST

record byte_buffer =
  bb_bytes :: bytes
  bb_size :: nat
  bb_start :: nat
  bb_end :: nat
  bb_version :: nat
  bb_order :: byte_order

type_synonym read_position = "nat \<times> nat"

definition DEFAULT_SIZE :: nat where "DEFAULT_SIZE = 4096"

definition new_bytes :: "nat \<Rightarrow> bytes" where
  "new_bytes n = replicate n 0"

definition bb_construct :: "bytes option \<Rightarrow> nat \<Rightarrow> byte_order \<Rightarrow> byte_buffer" where
  "bb_construct bytes len order =
     (case bytes of
        Some bs \<Rightarrow> \<lparr>bb_bytes = mem_write (new_bytes len) 0 (take len bs), bb_size = len,
                   bb_start = 0, bb_end = len, bb_version = 0, bb_order = order\<rparr>
      | None \<Rightarrow> \<lparr>bb_bytes = new_bytes len, bb_size = len,
                   bb_start = 0, bb_end = 0, bb_version = 0, bb_order = order\<rparr>)"

definition bb_new :: "byte_order \<Rightarrow> byte_buffer" where
  "bb_new order = bb_construct None DEFAULT_SIZE order"

definition bb_of_bytes :: "bytes \<Rightarrow> byte_buffer" where
  "bb_of_bytes bs = bb_construct (Some bs) (length bs) ORDER_NETWORK"

definition bb_length :: "byte_buffer \<Rightarrow> nat" where
  "bb_length b = bb_end b - bb_start b"

definition bb_capacity :: "byte_buffer \<Rightarrow> nat" where
  "bb_capacity b = bb_size b - bb_start b"

definition bb_data :: "byte_buffer \<Rightarrow> bytes" where
  "bb_data b = mem_read (bb_bytes b) (bb_start b) (bb_length b)"

section \<open>Reading\<close>

definition ReadBytes :: "byte_buffer \<Rightarrow> nat \<Rightarrow> (bytes \<times> byte_buffer) option" where
  "ReadBytes b len =
     (if len > bb_length b then None
      else Some (mem_read (bb_bytes b) (bb_start b) len, b\<lparr>bb_start := bb_start b + len\<rparr>))"

definition ReadString :: "byte_buffer \<Rightarrow> bytes \<Rightarrow> nat \<Rightarrow> (bytes \<times> byte_buffer) option" where
  "ReadString b val len =
     (if len > bb_length b then None
      else Some (val @ mem_read (bb_bytes b) (bb_start b) len, b\<lparr>bb_start := bb_start b + len\<rparr>))"

definition ReadUInt8 :: "byte_buffer \<Rightarrow> (uint8 \<times> byte_buffer) option" where
  "ReadUInt8 b = map_option (\<lambda>(m, b'). (m ! 0, b')) (ReadBytes b 1)"

definition ReadUInt16 :: "byte_buffer \<Rightarrow> (uint16 \<times> byte_buffer) option" where
  "ReadUInt16 b = (case ReadBytes b 2 of None \<Rightarrow> None
     | Some (m, b') \<Rightarrow> let v = host_word16 m in
         Some (if bb_order b = ORDER_NETWORK then NetworkToHost16 v else v, b'))"

definition ReadUInt24 :: "byte_buffer \<Rightarrow> (uint32 \<times> byte_buffer) option" where
  "ReadUInt24 b = (case ReadBytes b 3 of None \<Rightarrow> None
     | Some (m, b') \<Rightarrow>
         let into = (if bb_order b = ORDER_NETWORK \<or> IsHostBigEndian then 1 else 0);
             v = host_word32 (mem_write (SetLE32 0) into m) in
         Some (if bb_order b = ORDER_NETWORK then NetworkToHost32 v else v, b'))"

definition ReadUInt32 :: "byte_buffer \<Rightarrow> (uint32 \<times> byte_buffer) option" where
  "ReadUInt32 b = (case ReadBytes b 4 of None \<Rightarrow> None
     | Some (m, b') \<Rightarrow> let v = host_word32 m in
         Some (if bb_order b = ORDER_NETWORK then NetworkToHost32 v else v, b'))"

definition ReadUInt64 :: "byte_buffer \<Rightarrow> (uint64 \<times> byte_buffer) option" where
  "ReadUInt64 b = (case ReadBytes b 8 of None \<Rightarrow> None
     | Some (m, b') \<Rightarrow> let v = host_word64 m in
         Some (if bb_order b = ORDER_NETWORK then NetworkToHost64 v else v, b'))"

section \<open>Writing\<close>

definition bb_resize :: "byte_buffer \<Rightarrow> nat \<Rightarrow> byte_buffer" where
  "bb_resize b sz =
     (let len = min (bb_end b - bb_start b) sz;
          kept = mem_read (bb_bytes b) (bb_start b) len;
          b1 = (if sz \<le> bb_size b then b\<lparr>bb_bytes := mem_write (bb_bytes b) 0 kept\<rparr>
                else let sz' = max sz (3 * bb_size b div 2) in
                  b\<lparr>bb_size := sz', bb_bytes := mem_write (new_bytes sz') 0 kept\<rparr>)
      in b1\<lparr>bb_start := 0, bb_end := len, bb_version := bb_version b + 1\<rparr>)"

definition ReserveWriteBuffer :: "byte_buffer \<Rightarrow> nat \<Rightarrow> nat \<times> byte_buffer" where
  "ReserveWriteBuffer b len =
     (let b1 = (if bb_length b + len > bb_capacity b then bb_resize b (bb_length b + len) else b)
      in (bb_end b1, b1\<lparr>bb_end := bb_end b1 + len\<rparr>))"

definition WriteBytes :: "byte_buffer \<Rightarrow> bytes \<Rightarrow> byte_buffer" where
  "WriteBytes b val =
     (let (pos, b1) = ReserveWriteBuffer b (length val)
      in b1\<lparr>bb_bytes := mem_write (bb_bytes b1) pos val\<rparr>)"

definition WriteString :: "byte_buffer \<Rightarrow> bytes \<Rightarrow> byte_buffer" where
  "WriteString b val = WriteBytes b val"

definition WriteUInt8 :: "byte_buffer \<Rightarrow> uint8 \<Rightarrow> byte_buffer" where
  "WriteUInt8 b val = WriteBytes b [val]"

definition WriteUInt16 :: "byte_buffer \<Rightarrow> uint16 \<Rightarrow> byte_buffer" where
  "WriteUInt16 b val = WriteBytes b
     (host_bytes16 (if bb_order b = ORDER_NETWORK then HostToNetwork16 val else val))"

definition WriteUInt24 :: "byte_buffer \<Rightarrow> uint32 \<Rightarrow> byte_buffer" where
  "WriteUInt24 b val =
     (let v = (if bb_order b = ORDER_NETWORK then HostToNetwork32 val else val);
          start = (if bb_order b = ORDER_NETWORK \<or> IsHostBigEndian then 1 else 0)
      in WriteBytes b (mem_read (host_bytes32 v) start 3))"

definition WriteUInt32 :: "byte_buffer \<Rightarrow> uint32 \<Rightarrow> byte_buffer" where
  "WriteUInt32 b val = WriteBytes b
     (host_bytes32 (if bb_order b = ORDER_NETWORK then HostToNetwork32 val else val))"

definition WriteUInt64 :: "byte_buffer \<Rightarrow> uint64 \<Rightarrow> byte_buffer" where
  "WriteUInt64 b val = WriteBytes b
     (host_bytes64 (if bb_order b = ORDER_NETWORK then HostToNetwork64 val else val))"

section \<open>Positions\<close>

definition bb_consume :: "byte_buffer \<Rightarrow> nat \<Rightarrow> byte_buffer option" where
  "bb_consume b sz =
     (if sz > bb_length b then None else Some (b\<lparr>bb_start := bb_start b + sz\<rparr>))"

definition GetReadPosition :: "byte_buffer \<Rightarrow> read_position" where
  "GetReadPosition b = (bb_start b, bb_version b)"

definition SetReadPosition :: "byte_buffer \<Rightarrow> read_position \<Rightarrow> byte_buffer option" where
  "SetReadPosition b position =
     (if snd position \<noteq> bb_version b then None else Some (b\<lparr>bb_start := fst position\<rparr>))"

definition bb_clear :: "byte_buffer \<Rightarrow> byte_buffer" where
  "bb_clear b = b\<lparr>bb_bytes := replicate (bb_size b) 0, bb_start := 0, bb_end := 0,
     bb_version := bb_version b + 1\<rparr>"

section \<open>Invariant and content\<close>

definition bb_inv :: "byte_buffer \<Rightarrow> bool" where
  "bb_inv b \<longleftrightarrow> length (bb_bytes b) = bb_size b \<and> bb_start b \<le> bb_end b \<and> bb_end b \<le> bb_size b"

lemma length_bb_data: "bb_inv b \<Longrightarrow> length (bb_data b) = bb_length b"
  by (simp add: bb_inv_def bb_data_def bb_length_def min_absorb1 diff_le_mono)

lemma bb_construct_Some [simp]:
  "bb_inv (bb_construct (Some bs) (length bs) order)"
  "bb_data (bb_construct (Some bs) (length bs) order) = bs"
  by (simp_all add: bb_construct_def bb_inv_def bb_data_def bb_length_def new_bytes_def
      mem_read_def mem_write_def)

lemma bb_construct_None [simp]:
  "bb_inv (bb_construct None n order)" "bb_data (bb_construct None n order) = []"
  by (simp_all add: bb_construct_def bb_inv_def bb_data_def bb_length_def new_bytes_def)

lemma bb_resize_data:
  assumes "bb_inv b"
  shows "bb_inv (bb_resize b sz) \<and> bb_data (bb_resize b sz) = take sz (bb_data b)
    \<and> bb_order (bb_resize b sz) = bb_order b \<and> sz \<le> bb_size (bb_resize b sz)
    \<and> bb_start (bb_resize b sz) = 0"
proof -
  define len where "len = min (bb_end b - bb_start b) sz"
  define kept where "kept = mem_read (bb_bytes b) (bb_start b) len"
  have kept: "kept = take sz (bb_data b)"
    by (simp add: kept_def len_def bb_data_def bb_length_def)
  have len: "length kept = len" "len \<le> bb_size b" "len \<le> sz"
    using assms length_bb_data [OF assms]
    by (auto simp: kept len_def bb_length_def bb_inv_def)
  have "bb_data (bb_resize b sz) = kept"
    unfolding bb_resize_def Let_def len_def [symmetric] kept_def [symmetric]
    using mem_read_mem_write_0 [of _ kept] by (simp add: bb_data_def bb_length_def len(1))
  moreover have "bb_inv (bb_resize b sz)" "sz \<le> bb_size (bb_resize b sz)"
    unfolding bb_resize_def Let_def len_def [symmetric] kept_def [symmetric]
    using assms len by (simp_all add: bb_inv_def new_bytes_def le_max_iff_disj)
  ultimately show ?thesis by (simp add: kept) (simp add: bb_resize_def Let_def)
qed

lemma ReserveWriteBuffer_room:
  assumes "bb_inv b" and "ReserveWriteBuffer b n = (pos, b')"
  shows "length (bb_bytes b') = bb_size b' \<and> bb_start b' \<le> pos \<and> pos + n \<le> bb_size b'
    \<and> bb_end b' = pos + n \<and> bb_order b' = bb_order b
    \<and> mem_read (bb_bytes b') (bb_start b') (pos - bb_start b') = bb_data b"
proof (cases "bb_length b + n > bb_capacity b")
  case True
  let ?c = "bb_resize b (bb_length b + n)"
  have "bb_inv ?c" "bb_data ?c = bb_data b" "bb_start ?c = 0" "bb_order ?c = bb_order b"
    "bb_length b + n \<le> bb_size ?c"
    using bb_resize_data [OF assms(1), of "bb_length b + n"] length_bb_data [OF assms(1)] by auto
  moreover from this have "bb_end ?c = bb_length b"
    using length_bb_data [of ?c] length_bb_data [OF assms(1)] by (simp add: bb_length_def)
  ultimately show ?thesis
    using assms(2) True
    by (auto simp: ReserveWriteBuffer_def Let_def bb_inv_def bb_data_def bb_length_def)
next
  case False
  then show ?thesis
    using assms
    by (auto simp: ReserveWriteBuffer_def Let_def bb_inv_def bb_data_def bb_length_def
        bb_capacity_def)
qed

lemma WriteBytes_data:
  assumes "bb_inv b"
  shows "bb_inv (WriteBytes b v) \<and> bb_data (WriteBytes b v) = bb_data b @ v
    \<and> bb_order (WriteBytes b v) = bb_order b"
proof -
  obtain pos b' where r: "ReserveWriteBuffer b (length v) = (pos, b')" by force
  note room = ReserveWriteBuffer_room [OF assms r]
  have "mem_read (mem_write (bb_bytes b') pos v) (bb_start b') (pos + length v - bb_start b')
      = mem_read (bb_bytes b') (bb_start b') (pos - bb_start b') @ v"
    using room by (auto simp: mem_read_def mem_write_def take_drop)
  with r room show ?thesis
    by (simp add: WriteBytes_def bb_inv_def bb_data_def bb_length_def)
qed

lemmas WriteBytes_inv [simp] = WriteBytes_data [THEN conjunct1]
lemmas bb_data_WriteBytes [simp] = WriteBytes_data [THEN conjunct2, THEN conjunct1]
lemmas bb_order_WriteBytes [simp] = WriteBytes_data [THEN conjunct2, THEN conjunct2]

lemma ReadBytes_Some:
  assumes "bb_inv b" and "bb_data b = v @ r" and "length v = n"
  obtains b' where "ReadBytes b n = Some (v, b')" "bb_inv b'" "bb_data b' = r"
    "bb_order b' = bb_order b" "bb_version b' = bb_version b"
proof -
  have len: "n \<le> bb_length b" using length_bb_data [OF assms(1)] assms(2,3) by simp
  have "mem_read (bb_bytes b) (bb_start b) n = take n (bb_data b)"
    using len by (simp add: bb_data_def mem_read_def min_def)
  moreover have "bb_data (b\<lparr>bb_start := bb_start b + n\<rparr>) = drop n (bb_data b)"
    using len by (simp add: bb_data_def mem_read_def bb_length_def drop_take add.commute)
  ultimately show ?thesis
    by (intro that [of "b\<lparr>bb_start := bb_start b + n\<rparr>"])
       (use len assms in \<open>auto simp: ReadBytes_def bb_inv_def bb_length_def\<close>)
qed

lemma ReadBytes_None: "bb_inv b \<Longrightarrow> length (bb_data b) < n \<Longrightarrow> ReadBytes b n = None"
  by (simp add: ReadBytes_def length_bb_data)

section \<open>The byte-stream contract\<close>

text \<open>
  What the code that builds and parses packets relies on: writing appends, reading takes
  from the front, a short buffer refuses.  The lemmas of the locale lift this to whole
  sequences of operations, and \<^verbatim>\<open>ByteBuffer\<close> is an instance.
\<close>

datatype stream_op = Put bytes | Get nat

fun stream_run :: "('b \<Rightarrow> bytes \<Rightarrow> 'b) \<Rightarrow> ('b \<Rightarrow> nat \<Rightarrow> (bytes \<times> 'b) option)
    \<Rightarrow> stream_op list \<Rightarrow> 'b \<Rightarrow> bytes option list \<times> 'b" where
  "stream_run put get [] b = ([], b)"
| "stream_run put get (Put v # ops) b = stream_run put get ops (put b v)"
| "stream_run put get (Get n # ops) b = (case get b n of
       None \<Rightarrow> (let (out, b') = stream_run put get ops b in (None # out, b'))
     | Some (v, b1) \<Rightarrow> (let (out, b') = stream_run put get ops b1 in (Some v # out, b')))"

text \<open>The same operations on the abstract byte string.\<close>

definition string_get :: "bytes \<Rightarrow> nat \<Rightarrow> (bytes \<times> bytes) option" where
  "string_get d n = (if n \<le> length d then Some (take n d, drop n d) else None)"

locale byte_stream =
  fixes inv :: "'b \<Rightarrow> bool"
    and content :: "'b \<Rightarrow> bytes"
    and put :: "'b \<Rightarrow> bytes \<Rightarrow> 'b"
    and get :: "'b \<Rightarrow> nat \<Rightarrow> (bytes \<times> 'b) option"
  assumes inv_put: "inv b \<Longrightarrow> inv (put b v)"
    and content_put: "inv b \<Longrightarrow> content (put b v) = content b @ v"
    and get_enough: "inv b \<Longrightarrow> n \<le> length (content b) \<Longrightarrow>
      \<exists>b'. get b n = Some (take n (content b), b') \<and> inv b' \<and> content b' = drop n (content b)"
    and get_short: "inv b \<Longrightarrow> length (content b) < n \<Longrightarrow> get b n = None"
begin

lemma run_refines:
  assumes "inv b"
  shows "inv (snd (stream_run put get ops b))
    \<and> fst (stream_run put get ops b) = fst (stream_run (@) string_get ops (content b))
    \<and> content (snd (stream_run put get ops b)) = snd (stream_run (@) string_get ops (content b))"
  using assms
proof (induction ops arbitrary: b)
  case (Cons op ops)
  show ?case
  proof (cases op)
    case (Put v)
    with Cons show ?thesis by (simp add: inv_put content_put)
  next
    case (Get n)
    show ?thesis
    proof (cases "n \<le> length (content b)")
      case True
      with get_enough [OF Cons.prems] obtain b' where
        "get b n = Some (take n (content b), b')" "inv b'" "content b' = drop n (content b)"
        by blast
      with True Get Cons.IH [of b'] show ?thesis
        by (simp add: case_prod_beta Let_def string_get_def)
    next
      case False
      with get_short [OF Cons.prems, of n] Get Cons.IH [OF Cons.prems] show ?thesis
        by (simp add: case_prod_beta Let_def string_get_def)
    qed
  qed
qed simp

end

lemma ReadBytes_enough:
  assumes "bb_inv b" "n \<le> length (bb_data b)"
  shows "\<exists>b'. ReadBytes b n = Some (take n (bb_data b), b') \<and> bb_inv b'
    \<and> bb_data b' = drop n (bb_data b)"
  using assms ReadBytes_Some [OF assms(1), of "take n (bb_data b)" "drop n (bb_data b)" n]
  by force

interpretation bb: byte_stream bb_inv bb_data WriteBytes ReadBytes
  by unfold_locales (auto simp: ReadBytes_None intro: ReadBytes_enough)

text \<open>
  C34.  A \<^verbatim>\<open>ByteBuffer\<close> refines a byte string: after any sequence of \<^verbatim>\<open>WriteBytes\<close> and
  \<^verbatim>\<open>ReadBytes\<close> calls, whatever moves and reallocations of the array they caused, the reads
  returned (or refused) exactly what reads of the concatenated writes would.
\<close>

theorem byte_buffer_refines:
  assumes "bb_inv b"
  shows "bb_inv (snd (stream_run WriteBytes ReadBytes ops b))
    \<and> fst (stream_run WriteBytes ReadBytes ops b)
      = fst (stream_run (@) string_get ops (bb_data b))
    \<and> bb_data (snd (stream_run WriteBytes ReadBytes ops b))
      = snd (stream_run (@) string_get ops (bb_data b))"
  using assms by (rule bb.run_refines)

theorem byte_buffer_refines_witness:
  "fst (stream_run WriteBytes ReadBytes [Put [1, 2, 3], Get 2, Put [4], Get 3, Get 2] (bb_new ORDER_HOST))
     = [Some [1, 2], None, Some [3, 4]]"
  using byte_buffer_refines [of "bb_new ORDER_HOST"
      "[Put [1, 2, 3], Get 2, Put [4], Get 3, Get 2]"]
  by (simp add: bb_new_def string_get_def)

section \<open>Integers in network order\<close>

definition bb_net :: "byte_buffer \<Rightarrow> bool" where
  "bb_net b \<longleftrightarrow> bb_inv b \<and> bb_order b = ORDER_NETWORK"

text \<open>\<open>parses rd b v r\<close>: reading with \<open>rd\<close> yields \<open>v\<close> and leaves a buffer holding \<open>r\<close>.\<close>

definition parses :: "(byte_buffer \<Rightarrow> ('a \<times> byte_buffer) option) \<Rightarrow> byte_buffer \<Rightarrow> 'a \<Rightarrow> bytes \<Rightarrow> bool" where
  "parses rd b v r \<longleftrightarrow> (\<exists>b'. rd b = Some (v, b') \<and> bb_net b' \<and> bb_data b' = r)"

lemma parsesE:
  assumes "parses rd b v r"
  obtains b' where "rd b = Some (v, b')" "bb_net b'" "bb_data b' = r"
  using assms by (auto simp: parses_def)

lemma parses_ReadBytes:
  assumes "bb_net b" "bb_data b = v @ r" "length v = n"
  shows "parses (\<lambda>b. ReadBytes b n) b v r"
  using assms ReadBytes_Some [of b v r n] unfolding parses_def bb_net_def by metis

lemma parses_ReadUInt8: "bb_net b \<Longrightarrow> bb_data b = v # r \<Longrightarrow> parses ReadUInt8 b v r"
  using parses_ReadBytes [of b "[v]" r 1] by (auto simp: parses_def ReadUInt8_def)

lemma parses_ReadUInt16:
  "bb_net b \<Longrightarrow> bb_data b = SetBE16 v @ r \<Longrightarrow> parses ReadUInt16 b v r"
  using parses_ReadBytes [of b "SetBE16 v" r 2]
  by (auto simp: parses_def ReadUInt16_def bb_net_def)

lemma parses_ReadUInt32:
  "bb_net b \<Longrightarrow> bb_data b = SetBE32 v @ r \<Longrightarrow> parses ReadUInt32 b v r"
  using parses_ReadBytes [of b "SetBE32 v" r 4]
  by (auto simp: parses_def ReadUInt32_def bb_net_def)

lemma parses_ReadUInt64:
  "bb_net b \<Longrightarrow> bb_data b = SetBE64 v @ r \<Longrightarrow> parses ReadUInt64 b v r"
  using parses_ReadBytes [of b "SetBE64 v" r 8]
  by (auto simp: parses_def ReadUInt64_def bb_net_def)

lemma parses_ReadString:
  "bb_net b \<Longrightarrow> bb_data b = v @ r \<Longrightarrow> length v = n \<Longrightarrow> parses (\<lambda>b. ReadString b u n) b (u @ v) r"
  using parses_ReadBytes [of b v r n]
  by (auto simp: parses_def ReadString_def ReadBytes_def split: if_splits)

lemma bb_consume_ReadBytes: "bb_consume b n = map_option snd (ReadBytes b n)"
  by (simp add: bb_consume_def ReadBytes_def)

text \<open>What a write in network order appends.\<close>

lemma write_network [simp]:
  assumes "bb_net b"
  shows "bb_net (WriteBytes b v)" "bb_data (WriteBytes b v) = bb_data b @ v"
    "bb_net (WriteString b v)" "bb_data (WriteString b v) = bb_data b @ v"
    "bb_net (WriteUInt8 b x8)" "bb_data (WriteUInt8 b x8) = bb_data b @ [x8]"
    "bb_net (WriteUInt16 b x16)" "bb_data (WriteUInt16 b x16) = bb_data b @ SetBE16 x16"
    "bb_net (WriteUInt32 b x32)" "bb_data (WriteUInt32 b x32) = bb_data b @ SetBE32 x32"
    "bb_net (WriteUInt64 b x64)" "bb_data (WriteUInt64 b x64) = bb_data b @ SetBE64 x64"
  using assms
  by (simp_all add: bb_net_def WriteString_def WriteUInt8_def WriteUInt16_def WriteUInt32_def
      WriteUInt64_def)

lemma bb_net_new [simp]: "bb_net (bb_new ORDER_NETWORK)" "bb_data (bb_new order) = []"
  by (simp_all add: bb_net_def bb_new_def) (simp add: bb_construct_def)

lemma bb_net_of_bytes [simp]: "bb_net (bb_of_bytes bs)" "bb_data (bb_of_bytes bs) = bs"
  by (simp_all add: bb_net_def bb_of_bytes_def) (simp add: bb_construct_def)

section \<open>Read positions\<close>

text \<open>Operations that keep the version keep the array's content from the remembered
  position on, so restoring the position gives back what was read.\<close>

lemma SetReadPosition_restores:
  assumes "bb_inv b" and "ReadBytes b n = Some (v, b')"
  shows "SetReadPosition b' (GetReadPosition b) = Some b"
  using assms by (auto simp: ReadBytes_def SetReadPosition_def GetReadPosition_def split: if_splits)

lemma SetReadPosition_stale:
  "SetReadPosition (bb_resize b n) (GetReadPosition b) = None"
  "SetReadPosition (bb_clear b) (GetReadPosition b) = None"
  by (simp_all add: SetReadPosition_def GetReadPosition_def bb_resize_def bb_clear_def Let_def)

end
