(* ===== verification/IpAddress.thy ===== *)
theory IpAddress
  imports ByteOrder
begin

text \<open>
  \<^verbatim>\<open>base/ipaddress.cc\<close>: the address class over the union of \<^verbatim>\<open>in_addr\<close> and
  \<^verbatim>\<open>in6_addr\<close>, its order, classification, truncation to a prefix and mask length.  An address
  is its family and the sixteen bytes of the union, which the code reads as bytes, as the
  32-bit \<^verbatim>\<open>s_addr\<close>, or as four 32-bit words.  \<open>ip_bits\<close> is the specification: the bits
  of an address, most significant first.
\<close>

section \<open>Addresses\<close>

datatype ip_family = AF_UNSPEC | AF_INET | AF_INET6

record ip_address =
  ip_family :: ip_family
  ip_u :: bytes

text \<open>The constructors; \<^verbatim>\<open>in_addr\<close> is its \<^verbatim>\<open>s_addr\<close>, \<^verbatim>\<open>in6_addr\<close> its sixteen bytes.\<close>

definition IPAddress_unspec :: ip_address where
  "IPAddress_unspec = \<lparr>ip_family = AF_UNSPEC, ip_u = replicate 16 0\<rparr>"

definition IPAddress_v4 :: "uint32 \<Rightarrow> ip_address" where
  "IPAddress_v4 s_addr =
     \<lparr>ip_family = AF_INET, ip_u = mem_write (replicate 16 0) 0 (host_bytes32 s_addr)\<rparr>"

definition IPAddress_v6 :: "bytes \<Rightarrow> ip_address" where
  "IPAddress_v6 ip6 = \<lparr>ip_family = AF_INET6, ip_u = ip6\<rparr>"

definition IPAddress_host :: "uint32 \<Rightarrow> ip_address" where
  "IPAddress_host ip_in_host_byte_order = IPAddress_v4 (HostToNetwork32 ip_in_host_byte_order)"

definition ipv4_address :: "ip_address \<Rightarrow> uint32" where
  "ipv4_address ip = host_word32 (mem_read (ip_u ip) 0 4)"

definition ipv6_address :: "ip_address \<Rightarrow> bytes" where
  "ipv6_address ip = ip_u ip"

definition ip_inv :: "ip_address \<Rightarrow> bool" where
  "ip_inv ip \<longleftrightarrow> length (ip_u ip) = 16 \<and> (ip_family ip = AF_UNSPEC \<longrightarrow> ip = IPAddress_unspec)
     \<and> (ip_family ip = AF_INET \<longrightarrow> drop 4 (ip_u ip) = replicate 12 0)"

definition v4AddressAsHostOrderInteger :: "ip_address \<Rightarrow> uint32" where
  "v4AddressAsHostOrderInteger ip =
     (if ip_family ip = AF_INET then NetworkToHost32 (ipv4_address ip) else 0)"

definition ip_Size :: "ip_address \<Rightarrow> nat" where
  "ip_Size ip = (case ip_family ip of AF_INET \<Rightarrow> 4 | AF_INET6 \<Rightarrow> 16 | AF_UNSPEC \<Rightarrow> 0)"

section \<open>Comparison\<close>

definition ip_eq :: "ip_address \<Rightarrow> ip_address \<Rightarrow> bool" where
  "ip_eq ip other =
     (if ip_family ip \<noteq> ip_family other then False
      else if ip_family ip = AF_INET then take 4 (ip_u ip) = take 4 (ip_u other)
      else if ip_family ip = AF_INET6 then take 16 (ip_u ip) = take 16 (ip_u other)
      else ip_family ip = AF_UNSPEC)"

text \<open>\<^verbatim>\<open>memcmp(x, y, n) < 0\<close>: the first byte that differs is smaller.\<close>

fun memcmp_less :: "bytes \<Rightarrow> bytes \<Rightarrow> bool" where
  "memcmp_less (x # xs) (y # ys) = (if x = y then memcmp_less xs ys else x < y)"
| "memcmp_less _ _ = False"

definition ip_less :: "ip_address \<Rightarrow> ip_address \<Rightarrow> bool" where
  "ip_less ip other =
     (if ip_family ip \<noteq> ip_family other then
        (if ip_family ip = AF_UNSPEC then True
         else if ip_family ip = AF_INET \<and> ip_family other = AF_INET6 then True
         else False)
      else case ip_family ip of
        AF_INET \<Rightarrow> NetworkToHost32 (ipv4_address ip) < NetworkToHost32 (ipv4_address other)
      | AF_INET6 \<Rightarrow> memcmp_less (take 16 (ip_u ip)) (take 16 (ip_u other))
      | AF_UNSPEC \<Rightarrow> False)"

definition ip_greater :: "ip_address \<Rightarrow> ip_address \<Rightarrow> bool" where
  "ip_greater ip other \<longleftrightarrow> \<not> ip_eq ip other \<and> \<not> ip_less ip other"

section \<open>Classification\<close>

definition kULAPrefix :: bytes where "kULAPrefix = 0xfc # replicate 15 0"
definition kV4MappedPrefix :: bytes where "kV4MappedPrefix = replicate 10 0 @ [0xFF, 0xFF] @ replicate 4 0"
definition k6To4Prefix :: bytes where "k6To4Prefix = [0x20, 0x02] @ replicate 14 0"
definition kTeredoPrefix :: bytes where "kTeredoPrefix = [0x20, 0x01, 0x00, 0x00] @ replicate 12 0"
definition kV4CompatibilityPrefix :: bytes where "kV4CompatibilityPrefix = replicate 16 0"
definition k6BonePrefix :: bytes where "k6BonePrefix = [0x3f, 0xfe] @ replicate 14 0"

definition INADDR_ANY :: uint32 where "INADDR_ANY = 0"
definition INADDR_LOOPBACK :: uint32 where "INADDR_LOOPBACK = 0x7f000001"
definition in6addr_any :: bytes where "in6addr_any = replicate 16 0"
definition in6addr_loopback :: bytes where "in6addr_loopback = replicate 15 0 @ [1]"

definition IPIsHelper :: "ip_address \<Rightarrow> bytes \<Rightarrow> nat \<Rightarrow> bool" where
  "IPIsHelper ip tomatch length_bits \<longleftrightarrow>
     take (drop_bit 3 length_bits) (ipv6_address ip) = take (drop_bit 3 length_bits) tomatch"

definition IPIs6Bone :: "ip_address \<Rightarrow> bool" where "IPIs6Bone ip = IPIsHelper ip k6BonePrefix 16"
definition IPIs6To4 :: "ip_address \<Rightarrow> bool" where "IPIs6To4 ip = IPIsHelper ip k6To4Prefix 16"
definition IPIsTeredo :: "ip_address \<Rightarrow> bool" where "IPIsTeredo ip = IPIsHelper ip kTeredoPrefix 32"
definition IPIsV4Compatibility :: "ip_address \<Rightarrow> bool" where
  "IPIsV4Compatibility ip = IPIsHelper ip kV4CompatibilityPrefix 96"
definition IPIsV4Mapped :: "ip_address \<Rightarrow> bool" where
  "IPIsV4Mapped ip = IPIsHelper ip kV4MappedPrefix 96"

definition IPIsSiteLocal :: "ip_address \<Rightarrow> bool" where
  "IPIsSiteLocal ip \<longleftrightarrow> ipv6_address ip ! 0 = 0xFE \<and> ipv6_address ip ! 1 AND 0xC0 = 0xC0"

definition IPIsULA :: "ip_address \<Rightarrow> bool" where
  "IPIsULA ip \<longleftrightarrow> ipv6_address ip ! 0 AND 0xFE = 0xFC"

definition IPIsUnspec :: "ip_address \<Rightarrow> bool" where
  "IPIsUnspec ip \<longleftrightarrow> ip_family ip = AF_UNSPEC"

definition IPIsAny :: "ip_address \<Rightarrow> bool" where
  "IPIsAny ip = (case ip_family ip of
     AF_INET \<Rightarrow> ip_eq ip (IPAddress_host INADDR_ANY)
   | AF_INET6 \<Rightarrow> ip_eq ip (IPAddress_v6 in6addr_any)
   | AF_UNSPEC \<Rightarrow> False)"

definition IPIsLoopback :: "ip_address \<Rightarrow> bool" where
  "IPIsLoopback ip = (case ip_family ip of
     AF_INET \<Rightarrow> ip_eq ip (IPAddress_host INADDR_LOOPBACK)
   | AF_INET6 \<Rightarrow> ip_eq ip (IPAddress_v6 in6addr_loopback)
   | AF_UNSPEC \<Rightarrow> False)"

definition IsPrivateV4 :: "uint32 \<Rightarrow> bool" where
  "IsPrivateV4 ip \<longleftrightarrow> drop_bit 24 ip = 127 \<or> drop_bit 24 ip = 10
     \<or> drop_bit 20 ip = push_bit 4 172 OR 1
     \<or> drop_bit 16 ip = push_bit 8 192 OR 168
     \<or> drop_bit 16 ip = push_bit 8 169 OR 254"

definition IPIsPrivate :: "ip_address \<Rightarrow> bool" where
  "IPIsPrivate ip = (case ip_family ip of
     AF_INET \<Rightarrow> IsPrivateV4 (v4AddressAsHostOrderInteger ip)
   | AF_INET6 \<Rightarrow> (ipv6_address ip ! 0 = 0xFE \<and> ipv6_address ip ! 1 = 0x80) \<or> IPIsLoopback ip
   | AF_UNSPEC \<Rightarrow> False)"

definition ExtractMappedAddress :: "bytes \<Rightarrow> uint32" where
  "ExtractMappedAddress in6 = host_word32 (mem_read in6 12 4)"

definition Normalized :: "ip_address \<Rightarrow> ip_address" where
  "Normalized ip =
     (if ip_family ip \<noteq> AF_INET6 then ip
      else if \<not> IPIsV4Mapped ip then ip
      else IPAddress_v4 (ExtractMappedAddress (ip_u ip)))"

definition AsIPv6Address :: "ip_address \<Rightarrow> ip_address" where
  "AsIPv6Address ip =
     (if ip_family ip \<noteq> AF_INET then ip
      else IPAddress_v6 (mem_write kV4MappedPrefix 12 (host_bytes32 (ipv4_address ip))))"

text \<open>The words of an IPv6 address as the host reads them.\<close>

definition v6_as_ints :: "bytes \<Rightarrow> uint32 list" where
  "v6_as_ints a = map (\<lambda>i. host_word32 (mem_read a (4 * i) 4)) [0..<4]"

definition v6_of_ints :: "uint32 list \<Rightarrow> bytes" where
  "v6_of_ints ws = concat (map host_bytes32 ws)"

definition HashIP :: "ip_address \<Rightarrow> uint32" where
  "HashIP ip = (case ip_family ip of
     AF_INET \<Rightarrow> ipv4_address ip
   | AF_INET6 \<Rightarrow> (let w = v6_as_ints (ipv6_address ip) in w ! 0 XOR w ! 1 XOR w ! 2 XOR w ! 3)
   | AF_UNSPEC \<Rightarrow> 0)"

section \<open>Prefixes and masks\<close>

definition TruncateIP :: "ip_address \<Rightarrow> int \<Rightarrow> ip_address" where
  "TruncateIP ip len =
     (if len < 0 then IPAddress_unspec
      else if ip_family ip = AF_INET then
        if len > 31 then ip
        else if len = 0 then IPAddress_host INADDR_ANY
        else IPAddress_v4 (HostToNetwork32
               (NetworkToHost32 (ipv4_address ip) AND push_bit (nat (32 - len)) 0xFFFFFFFF))
      else if ip_family ip = AF_INET6 then
        if len > 127 then ip
        else if len = 0 then IPAddress_v6 in6addr_any
        else
          let position = nat (len div 32);
              inner_length = nat (32 - (len - int position * 32));
              inner_mask = ucast (push_bit inner_length (0xFFFFFFFF :: uint64));
              w = v6_as_ints (ipv6_address ip)
          in IPAddress_v6 (v6_of_ints (map (\<lambda>i.
               if i = position then HostToNetwork32 (NetworkToHost32 (w ! i) AND inner_mask)
               else if i > position then 0 else w ! i) [0..<4]))
      else IPAddress_unspec)"

text \<open>How many trailing zeros the bit-twiddling at the end of \<^verbatim>\<open>CountIPMaskBits\<close> counts.\<close>

definition count_zeroes :: "uint32 \<Rightarrow> nat" where
  "count_zeroes word_to_count =
     (let w = word_to_count AND - word_to_count
      in 32 - (if w \<noteq> 0 then 1 else 0)
            - (if w AND 0x0000FFFF \<noteq> 0 then 16 else 0)
            - (if w AND 0x00FF00FF \<noteq> 0 then 8 else 0)
            - (if w AND 0x0F0F0F0F \<noteq> 0 then 4 else 0)
            - (if w AND 0x33333333 \<noteq> 0 then 2 else 0)
            - (if w AND 0x55555555 \<noteq> 0 then 1 else 0))"

fun leading_full :: "uint32 list \<Rightarrow> nat" where
  "leading_full [] = 0"
| "leading_full (w # ws) = (if w \<noteq> 0xFFFFFFFF then 0 else Suc (leading_full ws))"

definition mask_word :: "ip_address \<Rightarrow> uint32 \<times> nat" where
  "mask_word m =
     (if ip_family m = AF_INET then (NetworkToHost32 (ipv4_address m), 0)
      else let w = v6_as_ints (ipv6_address m); i = leading_full w
           in (if i < 4 then NetworkToHost32 (w ! i) else 0, i * 32))"

definition CountIPMaskBits :: "ip_address \<Rightarrow> nat" where
  "CountIPMaskBits m =
     (if ip_family m = AF_UNSPEC then 0
      else case mask_word m of (word_to_count, bits) \<Rightarrow>
        if word_to_count = 0 then bits else bits + (32 - count_zeroes word_to_count))"

definition IPAddressPrecedence :: "ip_address \<Rightarrow> nat" where
  "IPAddressPrecedence ip =
     (if ip_family ip = AF_INET then 30
      else if ip_family ip = AF_INET6 then
        if IPIsLoopback ip then 60
        else if IPIsULA ip then 50
        else if IPIsV4Mapped ip then 30
        else if IPIs6To4 ip then 20
        else if IPIsTeredo ip then 10
        else if IPIsV4Compatibility ip \<or> IPIsSiteLocal ip \<or> IPIs6Bone ip then 1
        else 40
      else 0)"

section \<open>Facts on the representation\<close>

lemma ipv4_of_v4 [simp]: "ipv4_address (IPAddress_v4 a) = a" "ip_family (IPAddress_v4 a) = AF_INET"
  by (simp_all add: ipv4_address_def IPAddress_v4_def mem_read_def mem_write_def)

lemma ip_inv_constructors [simp]:
  "ip_inv IPAddress_unspec" "ip_inv (IPAddress_v4 a)" "ip_inv (IPAddress_host a)"
  "length b = 16 \<Longrightarrow> ip_inv (IPAddress_v6 b)"
  by (simp_all add: ip_inv_def IPAddress_unspec_def IPAddress_v4_def IPAddress_host_def
      IPAddress_v6_def mem_write_def)

lemma ipv6_of_v6 [simp]:
  "ipv6_address (IPAddress_v6 b) = b" "ip_u (IPAddress_v6 b) = b" "ip_family (IPAddress_v6 b) = AF_INET6"
  by (simp_all add: IPAddress_v6_def ipv6_address_def)

lemma length4: "length xs = 4 \<Longrightarrow> \<exists>a b c d. xs = [a, b, c, d]"
  by (auto simp: numeral_eq_Suc length_Suc_conv)

lemma IPAddress_v4_rebuild:
  assumes "ip_inv ip" and "ip_family ip = AF_INET"
  shows "IPAddress_v4 (ipv4_address ip) = ip"
proof -
  have l: "length (take 4 (ip_u ip)) = 4" using assms(1) by (simp add: ip_inv_def)
  have "ip_u ip = take 4 (ip_u ip) @ replicate 12 0"
    using assms by (metis append_take_drop_id ip_inv_def)
  moreover have "SetLE32 (GetLE32 (take 4 (ip_u ip))) = take 4 (ip_u ip)"
    using length4 [OF l] SetLE32_GetLE32 by metis
  ultimately have "ip_u (IPAddress_v4 (ipv4_address ip)) = ip_u ip"
    using assms(1) by (simp add: IPAddress_v4_def ipv4_address_def mem_read_def mem_write_def ip_inv_def)
  then show ?thesis using assms(2) by (simp add: IPAddress_v4_def)
qed

lemma ip_inv_length: "ip_inv ip \<Longrightarrow> length (ip_u ip) = 16"
  by (simp add: ip_inv_def)

lemma replicate_bytes:
  "replicate 10 x = [x, x, x, x, x, x, x, x, x, x]"
  "replicate 12 x = [x, x, x, x, x, x, x, x, x, x, x, x]"
  "replicate 15 x = [x, x, x, x, x, x, x, x, x, x, x, x, x, x, x]"
  by (simp_all add: numeral_eq_Suc)

lemma GetLE32_inj: "length x = 4 \<Longrightarrow> length y = 4 \<Longrightarrow> GetLE32 x = GetLE32 y \<longleftrightarrow> x = y"
  using SetLE32_GetLE32 length4 [of x] length4 [of y] by metis

lemma NetworkToHost32_inj: "NetworkToHost32 x = NetworkToHost32 y \<longleftrightarrow> x = y"
proof -
  obtain a b c d where b: "SetLE32 x = [a, b, c, d]" by (simp add: SetLE32_def)
  obtain a' b' c' d' where b': "SetLE32 y = [a', b', c', d']" by (simp add: SetLE32_def)
  have "SetBE32 (NetworkToHost32 x) = SetLE32 x" "SetBE32 (NetworkToHost32 y) = SetLE32 y"
    by (simp_all only: NetworkToHost32_def b b' SetBE32_GetBE32)
  then show ?thesis by (metis Get_Set_exact(4))
qed

lemma v4_eq:
  "ip_inv a \<Longrightarrow> ip_inv b \<Longrightarrow> take 4 (ip_u a) = take 4 (ip_u b) \<longleftrightarrow>
     NetworkToHost32 (ipv4_address a) = NetworkToHost32 (ipv4_address b)"
  by (simp add: NetworkToHost32_inj ipv4_address_def GetLE32_inj mem_read_def ip_inv_length)

section \<open>The order\<close>

lemma memcmp_irrefl: "\<not> memcmp_less x x"
  by (induction x) simp_all

lemma memcmp_trans: "memcmp_less x y \<Longrightarrow> memcmp_less y z \<Longrightarrow> memcmp_less x z"
proof (induction x y arbitrary: z rule: memcmp_less.induct)
  case (1 x xs y ys)
  then show ?case by (cases z) (auto split: if_splits)
qed simp_all

lemma memcmp_total: "length x = length y \<Longrightarrow> memcmp_less x y \<or> x = y \<or> memcmp_less y x"
  by (induction x y rule: memcmp_less.induct) auto

lemma ip_less_trans: "ip_less a b \<Longrightarrow> ip_less b c \<Longrightarrow> ip_less a c"
  by (auto simp: ip_less_def split: if_splits ip_family.splits intro: memcmp_trans)

lemma ip_less_irrefl: "\<not> ip_less a a"
  by (simp add: ip_less_def memcmp_irrefl split: ip_family.splits)

lemma ip_less_total:
  "ip_inv a \<Longrightarrow> ip_inv b \<Longrightarrow> \<not> ip_less a b \<Longrightarrow> \<not> ip_less b a \<Longrightarrow> ip_eq a b"
  using memcmp_total [of "ip_u a" "ip_u b"]
  by (cases "ip_family a"; cases "ip_family b")
     (auto simp: ip_less_def ip_eq_def v4_eq ip_inv_length)

lemma ip_eq_not_less: "ip_inv a \<Longrightarrow> ip_inv b \<Longrightarrow> ip_eq a b \<Longrightarrow> \<not> ip_less a b"
  by (auto simp: ip_less_def ip_eq_def v4_eq memcmp_irrefl split: if_splits ip_family.splits)

lemma ip_eq_sym: "ip_eq a b \<Longrightarrow> ip_eq b a"
  by (auto simp: ip_eq_def split: if_splits)

text \<open>
  The comparison operators of addresses form a strict total order over the equality
  operator: exactly one of \<^verbatim>\<open><\<close>, \<^verbatim>\<open>==\<close> and \<^verbatim>\<open>></\<close> holds of any two addresses, and \<^verbatim>\<open><\<close>
  is transitive, so addresses may key an ordered map.
\<close>

theorem ip_order:
  assumes "ip_inv a" "ip_inv b" "ip_less b c"
  shows "(ip_less a b \<longleftrightarrow> \<not> ip_eq a b \<and> \<not> ip_less b a) \<and> (ip_greater a b \<longleftrightarrow> ip_less b a)
    \<and> (ip_less a b \<longrightarrow> ip_less a c)"
proof (intro conjI iffI impI)
  show "ip_less a b" if "\<not> ip_eq a b \<and> \<not> ip_less b a"
    using that ip_less_total [OF assms(1,2)] by blast
  show "\<not> ip_eq a b" if "ip_less a b" using that ip_eq_not_less [OF assms(1,2)] by blast
  show "\<not> ip_less b a" if "ip_less a b" using that ip_less_trans ip_less_irrefl by blast
  show "ip_less b a" if "ip_greater a b"
    using that ip_less_total [OF assms(1,2)] by (auto simp: ip_greater_def)
  show "ip_greater a b" if "ip_less b a"
    using that ip_eq_not_less [OF assms(2,1)] ip_eq_sym ip_less_trans ip_less_irrefl
    unfolding ip_greater_def by blast
  show "ip_less a c" if "ip_less a b" using that assms(3) by (rule ip_less_trans)
qed

theorem ip_order_witness:
  "ip_greater (IPAddress_host 2) (IPAddress_host 1) \<longleftrightarrow> ip_less (IPAddress_host 1) (IPAddress_host 2)"
proof -
  have "ip_less (IPAddress_host 1) (IPAddress_v6 in6addr_any)"
    by (simp add: ip_less_def IPAddress_host_def IPAddress_v4_def IPAddress_v6_def)
  from ip_order [OF ip_inv_constructors(3) ip_inv_constructors(3) this, of 2] show ?thesis
    by blast
qed

section \<open>Prefixes, bit by bit\<close>

definition word_bits :: "uint32 \<Rightarrow> bool list" where
  "word_bits w = map (\<lambda>i. bit w (31 - i)) [0..<32]"

definition ip_bits :: "ip_address \<Rightarrow> bool list" where
  "ip_bits ip = (case ip_family ip of
     AF_INET \<Rightarrow> word_bits (NetworkToHost32 (ipv4_address ip))
   | AF_INET6 \<Rightarrow> concat (map (\<lambda>w. word_bits (NetworkToHost32 w)) (v6_as_ints (ip_u ip)))
   | AF_UNSPEC \<Rightarrow> [])"

text \<open>The first \<open>n\<close> bits and zeros for the rest.\<close>

definition keep_prefix :: "nat \<Rightarrow> bool list \<Rightarrow> bool list" where
  "keep_prefix n bs = take n bs @ replicate (length bs - n) False"

lemma length_word_bits [simp]: "length (word_bits w) = 32"
  by (simp add: word_bits_def)

lemma word_bits_0 [simp]: "word_bits 0 = replicate 32 False"
  by (rule nth_equalityI) (simp_all add: word_bits_def)

lemma nth_keep_prefix: "i < length bs \<Longrightarrow> keep_prefix n bs ! i = (i < n \<and> bs ! i)"
  by (auto simp: keep_prefix_def nth_append)

lemma length_keep_prefix [simp]: "length (keep_prefix n bs) = length bs"
  by (simp add: keep_prefix_def)

lemma keep_prefix_append:
  "keep_prefix n (xs @ ys) = keep_prefix n xs @ keep_prefix (n - length xs) ys"
  by (cases "n \<le> length xs") (simp_all add: keep_prefix_def replicate_add [symmetric])

lemma keep_prefix_all: "length bs \<le> n \<Longrightarrow> keep_prefix n bs = bs"
  by (simp add: keep_prefix_def)

lemma keep_prefix_0: "keep_prefix 0 bs = replicate (length bs) False"
  by (simp add: keep_prefix_def)

lemma ones32_bit: "bit (0xFFFFFFFF :: uint32) i \<longleftrightarrow> i < 32"
proof -
  have "(0xFFFFFFFF :: uint32) = mask 32" by (simp add: mask_eq_exp_minus_1)
  then show ?thesis by (simp only: bit_mask_iff) auto
qed

lemma ones64_bit: "bit (0xFFFFFFFF :: uint64) i \<longleftrightarrow> i < 32"
proof -
  have "(0xFFFFFFFF :: uint64) = mask 32" by (simp add: mask_eq_exp_minus_1)
  then show ?thesis by (simp only: bit_mask_iff) auto
qed

lemma word_bits_and_mask:
  assumes "\<And>i. i < 32 \<Longrightarrow> bit m i \<longleftrightarrow> 32 - n \<le> i" and "n \<le> 32"
  shows "word_bits (w AND m) = keep_prefix n (word_bits w)"
  by (rule nth_equalityI)
     (use assms in \<open>auto simp: nth_keep_prefix word_bits_def bit_and_iff\<close>)

lemma mask4_bit: "bit (push_bit k (0xFFFFFFFF :: uint32)) i \<longleftrightarrow> k \<le> i \<and> i < 32"
  by (simp only: bit_push_bit_iff ones32_bit) auto

lemma mask6_bit:
  "i < 32 \<Longrightarrow> bit (ucast (push_bit k (0xFFFFFFFF :: uint64)) :: uint32) i \<longleftrightarrow> k \<le> i"
  by (simp only: bit_ucast_iff bit_push_bit_iff ones64_bit) auto

lemma upt4: "[0..<4] = [0, 1, 2, 3 :: nat]"
  by (simp add: upt_rec)

lemma v6_as_of_ints: "v6_as_ints (v6_of_ints [a, b, c, d]) = [a, b, c, d]"
  by (simp add: v6_as_ints_def v6_of_ints_def upt4 mem_read_def)

lemma length_v6_as_ints [simp]: "length (v6_as_ints b) = 4"
  by (simp add: v6_as_ints_def)

lemma length_v6_of_ints: "length (v6_of_ints [a, b, c, d]) = 16"
  by (simp add: v6_of_ints_def)

lemma ip_bits_v4: "ip_bits (IPAddress_v4 (HostToNetwork32 w)) = word_bits w"
  by (simp add: ip_bits_def)

lemma ip_bits_v6: "ip_bits (IPAddress_v6 (v6_of_ints [a, b, c, d]))
    = word_bits (NetworkToHost32 a) @ word_bits (NetworkToHost32 b)
      @ word_bits (NetworkToHost32 c) @ word_bits (NetworkToHost32 d)"
  by (simp add: ip_bits_def v6_as_of_ints)

lemma NetworkToHost32_0 [simp]: "NetworkToHost32 0 = 0"
  by (simp add: NetworkToHost32_def SetLE32_def GetBE32_def)

lemma TruncateIP_v4:
  assumes "ip_family ip = AF_INET" and "n \<le> 31"
  shows "ip_bits (TruncateIP ip (int n)) = keep_prefix n (ip_bits ip)"
proof (cases "n = 0")
  case False
  let ?w = "NetworkToHost32 (ipv4_address ip)"
  have k: "nat (32 - int n) = 32 - n" using assms(2) by simp
  have "word_bits (?w AND push_bit (32 - n) 0xFFFFFFFF) = keep_prefix n (word_bits ?w)"
    using assms(2) by (intro word_bits_and_mask) (auto simp: mask4_bit)
  moreover have "ip_bits ip = word_bits ?w" using assms(1) by (simp add: ip_bits_def)
  ultimately show ?thesis using False assms by (simp add: TruncateIP_def k ip_bits_v4)
qed (use assms in \<open>simp add: TruncateIP_def ip_bits_def IPAddress_host_def INADDR_ANY_def keep_prefix_0\<close>)

lemma TruncateIP_v6_words:
  assumes fam: "ip_family ip = AF_INET6" and w: "v6_as_ints (ip_u ip) = [a, b, c, d]"
    and n: "n = 32 * p + r" "p < 4" "r < 32" "n \<noteq> 0"
  shows "ip_bits (TruncateIP ip (int n)) = keep_prefix n (ip_bits ip)"
proof -
  let ?m = "ucast (push_bit (32 - r) (0xFFFFFFFF :: uint64)) :: uint32"
  have pos: "nat (int n div 32) = p" using n by simp
  have inner: "nat (32 - (int n - int p * 32)) = 32 - r" using n by simp
  have m: "word_bits (x AND ?m) = keep_prefix r (word_bits x)" for x
    using n(3) by (intro word_bits_and_mask) (auto simp: mask6_bit)
  have t: "TruncateIP ip (int n) = IPAddress_v6 (v6_of_ints (map (\<lambda>i.
      if i = p then HostToNetwork32 (NetworkToHost32 ([a, b, c, d] ! i) AND ?m)
      else if i > p then 0 else [a, b, c, d] ! i) [0..<4]))"
    unfolding TruncateIP_def ipv6_address_def w Let_def pos inner using n fam by auto
  have bits: "ip_bits ip = word_bits (NetworkToHost32 a) @ word_bits (NetworkToHost32 b)
      @ word_bits (NetworkToHost32 c) @ word_bits (NetworkToHost32 d)"
    using fam w by (simp add: ip_bits_def)
  have z: "r - 32 = 0" "r - 64 = 0" "r - 96 = 0" using n(3) by simp_all
  consider "p = 0" | "p = 1" | "p = 2" | "p = 3" using n(2) by linarith
  then show ?thesis
    unfolding t by cases (simp_all add: z bits upt4 ip_bits_v6 m n(1) keep_prefix_append keep_prefix_all
        keep_prefix_0)
qed

lemma TruncateIP_v6:
  assumes "ip_family ip = AF_INET6" and "n \<le> 127"
  shows "ip_bits (TruncateIP ip (int n)) = keep_prefix n (ip_bits ip)"
proof (cases "n = 0")
  case True
  have any: "in6addr_any = v6_of_ints [0, 0, 0, 0]"
    by (simp add: in6addr_any_def v6_of_ints_def SetLE32_def numeral_eq_Suc)
  have "ip_bits (IPAddress_v6 in6addr_any) = replicate 128 False"
    unfolding any ip_bits_v6 by (simp add: replicate_add [symmetric])
  then have "ip_bits (TruncateIP ip (int n)) = replicate 128 False"
    using True assms by (simp add: TruncateIP_def)
  moreover have "length (ip_bits ip) = 128"
    using assms(1) by (simp add: ip_bits_def length_concat comp_def sum_list_triv)
  ultimately show ?thesis using True by (simp add: keep_prefix_0)
next
  case False
  obtain a b c d where "v6_as_ints (ip_u ip) = [a, b, c, d]"
    using length4 [OF length_v6_as_ints] by blast
  moreover have "n = 32 * (n div 32) + n mod 32" "n div 32 < 4" using assms(2) by auto
  ultimately show ?thesis
    using TruncateIP_v6_words [of ip a b c d n "n div 32" "n mod 32"] assms(1) False by simp
qed

text \<open>
  \<^verbatim>\<open>TruncateIP\<close> keeps the leading bits that its length says and clears the others, for
  addresses of both families and every non-negative length, at the word boundaries of IPv6
  addresses and beyond the size of the address included.
\<close>

theorem truncate_keeps_prefix:
  "ip_bits (TruncateIP ip (int n)) = keep_prefix n (ip_bits ip)"
proof (cases "ip_family ip")
  case AF_UNSPEC
  then show ?thesis
    by (simp add: TruncateIP_def ip_bits_def IPAddress_unspec_def keep_prefix_def)
next
  case AF_INET
  then show ?thesis
    by (cases "n \<le> 31") (simp_all add: TruncateIP_v4, simp add: TruncateIP_def ip_bits_def keep_prefix_all)
next
  case AF_INET6
  then show ?thesis
    by (cases "n \<le> 127") (simp_all add: TruncateIP_v6, simp add: TruncateIP_def ip_bits_def
        length_concat comp_def sum_list_triv keep_prefix_all)
qed

section \<open>Mask length\<close>

lemma odd_and_uminus:
  assumes "bit v 0"
  shows "(v :: uint32) AND - v = 1"
proof -
  have "NOT v + 1 = NOT v OR 1"
    by (rule disjunctive_add) (use assms in \<open>auto simp: bit_not_iff bit_1_iff\<close>)
  then have "- v = NOT v OR 1" by (simp add: minus_eq_not_plus_1)
  moreover have "v AND (NOT v OR 1) = 1"
    by (rule bit_eqI) (use assms in \<open>auto simp: bit_and_iff bit_or_iff bit_not_iff bit_1_iff\<close>)
  ultimately show ?thesis by simp
qed

text \<open>\<^verbatim>\<open>w & -w\<close> is the lowest set bit of \<open>w\<close>.\<close>

lemma and_uminus_lowest:
  assumes "bit (w :: uint32) i" and "\<And>j. j < i \<Longrightarrow> \<not> bit w j"
  shows "w AND - w = push_bit i 1"
proof -
  define v where "v = drop_bit i w"
  have low: "i \<le> j" if "bit w j" for j using assms(2) that by (meson not_le)
  have w: "w = push_bit i v"
  proof (rule bit_eqI)
    fix n assume "possible_bit TYPE(uint32) n"
    then show "bit w n \<longleftrightarrow> bit (push_bit i v) n"
      using low [of n] by (cases "i \<le> n") (auto simp: v_def bit_push_bit_iff bit_drop_bit_eq)
  qed
  have "- push_bit i v = push_bit i (- v)" by (simp add: push_bit_eq_mult)
  moreover have "bit v 0" using assms(1) by (simp add: v_def bit_drop_bit_eq)
  ultimately show ?thesis by (simp add: w push_bit_and [symmetric] odd_and_uminus)
qed

lemma count_zeroes_bits:
  "list_all (\<lambda>i. 32 - (if push_bit i (1 :: uint32) \<noteq> 0 then 1 else 0)
            - (if push_bit i (1 :: uint32) AND 0x0000FFFF \<noteq> 0 then 16 else 0)
            - (if push_bit i (1 :: uint32) AND 0x00FF00FF \<noteq> 0 then 8 else 0)
            - (if push_bit i (1 :: uint32) AND 0x0F0F0F0F \<noteq> 0 then 4 else 0)
            - (if push_bit i (1 :: uint32) AND 0x33333333 \<noteq> 0 then 2 else 0)
            - (if push_bit i (1 :: uint32) AND 0x55555555 \<noteq> 0 then 1 else 0) = i) [0..<32]"
  by (simp add: upt_rec)

lemma count_zeroes_lowest:
  assumes "bit w i" and "\<And>j. j < i \<Longrightarrow> \<not> bit w j"
  shows "count_zeroes w = i"
proof -
  have "i < 32" using assms(1) bit_imp_le_length [of w i] by simp
  then have "i \<in> set [0..<32]" by simp
  moreover have e: "w AND - w = push_bit i 1"
    by (rule and_uminus_lowest) (use assms in \<open>simp_all\<close>)
  ultimately show ?thesis
    using count_zeroes_bits unfolding count_zeroes_def Let_def list_all_iff e by blast
qed

definition mask_bits :: "nat \<Rightarrow> nat \<Rightarrow> bool list" where
  "mask_bits n k = replicate n True @ replicate k False"

lemma nth_mask_bits: "i < n + k \<Longrightarrow> mask_bits n k ! i = (i < n)"
  by (simp add: mask_bits_def nth_append)

lemma mask_bits_length [simp]: "length (mask_bits n k) = n + k"
  by (simp add: mask_bits_def)

lemma word_bits_nth: "j < 32 \<Longrightarrow> word_bits w ! (31 - j) = bit w j"
  using nth_upt [of 0 "31 - j" 32] by (simp add: word_bits_def)

lemma mask_word_bit:
  assumes "word_bits w = mask_bits n (32 - n)" and "n \<le> 32" and "j < 32"
  shows "bit w j \<longleftrightarrow> 32 - n \<le> j"
proof -
  have "bit w j = mask_bits n (32 - n) ! (31 - j)"
    using word_bits_nth [OF assms(3), of w] assms(1) by simp
  also have "\<dots> = (31 - j < n)" using assms(2,3) by (intro nth_mask_bits) simp
  finally show ?thesis using assms(2,3) by auto
qed

lemma mask_word_count:
  assumes "word_bits w = mask_bits n (32 - n)" and "n \<le> 32"
  shows "w = 0 \<longleftrightarrow> n = 0" and "0 < n \<Longrightarrow> 32 - count_zeroes w = n"
    and "w = 0xFFFFFFFF \<longleftrightarrow> n = 32"
proof -
  note b = mask_word_bit [OF assms]
  have out: "\<not> bit w j" if "32 \<le> j" for j using that bit_imp_le_length [of w j] by auto
  show "w = 0 \<longleftrightarrow> n = 0"
  proof
    assume "n = 0"
    with b out have "\<not> bit w j" for j by (cases "j < 32") auto
    then show "w = 0" by (intro bit_eqI) simp
  next
    assume "w = 0"
    then show "n = 0" using b [of 31] assms(2) by (cases "n = 0") auto
  qed
  show "32 - count_zeroes w = n" if "0 < n"
  proof -
    have "count_zeroes w = 32 - n"
      by (rule count_zeroes_lowest) (use b that assms(2) in \<open>auto\<close>)
    then show ?thesis using assms(2) by simp
  qed
  show "w = 0xFFFFFFFF \<longleftrightarrow> n = 32"
  proof
    assume "n = 32"
    with b out have "bit w j \<longleftrightarrow> j < 32" for j by (cases "j < 32") auto
    then show "w = 0xFFFFFFFF" by (intro bit_eqI) (simp only: ones32_bit)
  next
    assume "w = 0xFFFFFFFF"
    then have "bit w 0" by (simp only: ones32_bit)
    then show "n = 32" using b [of 0] assms(2) by simp
  qed
qed

lemma mask_bits_append:
  assumes "word_bits w @ bs = mask_bits n (32 + length bs - n)" and "n \<le> 32 + length bs"
  shows "word_bits w = mask_bits (min n 32) (32 - min n 32)"
    and "bs = mask_bits (n - 32) (length bs - (n - 32))"
proof -
  have "take 32 (mask_bits n (32 + length bs - n)) = mask_bits (min n 32) (32 - min n 32)"
    "drop 32 (mask_bits n (32 + length bs - n)) = mask_bits (n - 32) (length bs - (n - 32))"
    using assms(2) by (auto simp: mask_bits_def min_def)
  moreover have "take 32 (word_bits w @ bs) = word_bits w" "drop 32 (word_bits w @ bs) = bs"
    by simp_all
  ultimately show "word_bits w = mask_bits (min n 32) (32 - min n 32)"
    and "bs = mask_bits (n - 32) (length bs - (n - 32))" using assms(1) by metis+
qed

definition count_words :: "uint32 list \<Rightarrow> nat" where
  "count_words ws =
     (let i = leading_full ws; w = (if i < length ws then NetworkToHost32 (ws ! i) else 0)
      in if w = 0 then i * 32 else i * 32 + (32 - count_zeroes w))"

lemma NetworkToHost32_ones: "NetworkToHost32 x = 0xFFFFFFFF \<longleftrightarrow> x = 0xFFFFFFFF"
proof -
  have "NetworkToHost32 0xFFFFFFFF = 0xFFFFFFFF"
    by (simp add: NetworkToHost32_def SetLE32_def GetBE32_def)
  then show ?thesis using NetworkToHost32_inj by metis
qed

lemma count_words:
  "concat (map (\<lambda>w. word_bits (NetworkToHost32 w)) ws) = mask_bits n (32 * length ws - n) \<Longrightarrow>
    n \<le> 32 * length ws \<Longrightarrow> count_words ws = n"
proof (induction ws arbitrary: n)
  case Nil
  then show ?case by (simp add: count_words_def)
next
  case (Cons w ws)
  let ?w = "NetworkToHost32 w"
  let ?bs = "concat (map (\<lambda>w. word_bits (NetworkToHost32 w)) ws)"
  have len: "length ?bs = 32 * length ws" by (simp add: length_concat comp_def sum_list_triv)
  have b: "word_bits ?w @ ?bs = mask_bits n (32 + length ?bs - n)" using Cons.prems(1) len by simp
  have le: "n \<le> 32 + length ?bs" using Cons.prems(2) len by simp
  note split = mask_bits_append [OF b le]
  note count = mask_word_count [OF split(1)]
  have rest: "count_words ws = n - 32"
    using Cons.IH [of "n - 32"] split(2) le len by simp
  show ?case
  proof (cases "n < 32")
    case True
    then have "w \<noteq> 0xFFFFFFFF" using count(3) NetworkToHost32_ones by simp
    then show ?thesis using count(1,2) True by (cases "n = 0") (auto simp: count_words_def)
  next
    case False
    then have "w = 0xFFFFFFFF" using count(3) NetworkToHost32_ones by simp
    then show ?thesis using rest False by (simp add: count_words_def Let_def split: if_splits)
  qed
qed

lemma CountIPMaskBits_words:
  "ip_family m = AF_INET6 \<Longrightarrow> CountIPMaskBits m = count_words (v6_as_ints (ip_u m))"
  by (simp add: CountIPMaskBits_def mask_word_def count_words_def Let_def ipv6_address_def)

text \<open>
  \<^verbatim>\<open>CountIPMaskBits\<close> returns the length of a network mask: of an address of either family
  whose first \<open>n\<close> bits are set and whose other bits are clear it returns \<open>n\<close>.
\<close>

theorem mask_length:
  assumes "ip_bits m = mask_bits n k" and "ip_family m \<noteq> AF_UNSPEC"
  shows "CountIPMaskBits m = n"
proof (cases "ip_family m")
  case AF_INET
  let ?w = "NetworkToHost32 (ipv4_address m)"
  have w: "word_bits ?w = mask_bits n k" using AF_INET assms(1) by (simp add: ip_bits_def)
  then have "length (mask_bits n k) = 32" by (metis length_word_bits)
  then have k: "k = 32 - n" "n \<le> 32" by simp_all
  note count = mask_word_count [OF w [unfolded k(1)] k(2)]
  show ?thesis
    using count(1,2) AF_INET by (cases "n = 0") (auto simp: CountIPMaskBits_def mask_word_def)
next
  case AF_INET6
  then have b: "concat (map (\<lambda>w. word_bits (NetworkToHost32 w)) (v6_as_ints (ip_u m))) = mask_bits n k"
    using assms(1) by (simp add: ip_bits_def)
  then have "length (mask_bits n k) = 128"
    by (simp add: b [symmetric] length_concat comp_def sum_list_triv)
  then have "k = 32 * length (v6_as_ints (ip_u m)) - n" "n \<le> 32 * length (v6_as_ints (ip_u m))"
    by simp_all
  with b count_words show ?thesis using CountIPMaskBits_words [OF AF_INET6] by metis
qed (use assms in simp)

theorem mask_length_witness: "CountIPMaskBits (IPAddress_host 0xFFFFF000) = 20"
proof (rule mask_length)
  show "ip_bits (IPAddress_host 0xFFFFF000) = mask_bits 20 12"
    by (simp add: IPAddress_host_def ip_bits_v4 word_bits_def mask_bits_def upt_rec numeral_eq_Suc)
qed (simp add: IPAddress_host_def)

text \<open>
  The documentation of \<^verbatim>\<open>CountIPMaskBits\<close> says that bits after the first 0 are not counted.
  They are: the code subtracts the trailing zeros from the size of the word, so the mask
  255.0.255.0, with eight leading ones, gives 24.
\<close>

theorem noncontiguous_mask:
  "ip_bits (IPAddress_host 0xFF00FF00)
      = replicate 8 True @ replicate 8 False @ replicate 8 True @ replicate 8 False
    \<and> CountIPMaskBits (IPAddress_host 0xFF00FF00) = 24"
proof
  show bits: "ip_bits (IPAddress_host 0xFF00FF00)
      = replicate 8 True @ replicate 8 False @ replicate 8 True @ replicate 8 False"
    by (simp add: IPAddress_host_def ip_bits_v4 word_bits_def upt_rec numeral_eq_Suc)
  have "count_zeroes 0xFF00FF00 = 8"
  proof (rule count_zeroes_lowest)
    fix j :: nat assume "j < 8"
    then have "j \<in> set [0..<8]" by simp
    moreover have "list_all (\<lambda>j. \<not> bit (0xFF00FF00 :: uint32) j) [0..<8]" by (simp add: upt_rec)
    ultimately show "\<not> bit (0xFF00FF00 :: uint32) j" unfolding list_all_iff by blast
  qed simp
  then show "CountIPMaskBits (IPAddress_host 0xFF00FF00) = 24"
    by (simp add: CountIPMaskBits_def mask_word_def IPAddress_host_def)
qed

text \<open>
  \<^verbatim>\<open>socketaddress.h\<close> says that the loopback addresses of IPv4 are the range 127.0.0.0/8.
  \<^verbatim>\<open>IPIsLoopback\<close> accepts 127.0.0.1 alone.
\<close>

theorem loopback_is_one_address:
  "IPIsLoopback (IPAddress_host a) \<longleftrightarrow> a = 0x7f000001"
proof -
  have "IPIsLoopback (IPAddress_host a)
      \<longleftrightarrow> SetLE32 (HostToNetwork32 a) = SetLE32 (HostToNetwork32 0x7f000001)"
    by (simp add: IPIsLoopback_def ip_eq_def IPAddress_host_def INADDR_LOOPBACK_def IPAddress_v4_def
        mem_write_def)
  then show ?thesis by (metis Get_Set_exact(4) NetworkToHost_HostToNetwork(2))
qed

text \<open>
  Mapping an IPv4 address into IPv6 and normalising it gives the address back, and an
  address and its mapped form have the same precedence.
\<close>

theorem mapped_roundtrip:
  assumes "ip_inv ip" and "ip_family ip = AF_INET"
  shows "Normalized (AsIPv6Address ip) = ip \<and> ip_family (AsIPv6Address ip) = AF_INET6
    \<and> IPAddressPrecedence (AsIPv6Address ip) = IPAddressPrecedence ip"
proof -
  have u: "ip_u ip = take 4 (ip_u ip) @ replicate 12 0" and l: "length (ip_u ip) = 16"
    using assms by (metis append_take_drop_id ip_inv_def, simp add: ip_inv_length)
  obtain a b c d where t: "take 4 (ip_u ip) = [a, b, c, d]"
    using length4 [of "take 4 (ip_u ip)"] l by auto
  have m: "AsIPv6Address ip = IPAddress_v6 (replicate 10 0 @ [0xFF, 0xFF, a, b, c, d])"
    using assms(2) by (simp add: AsIPv6Address_def ipv4_address_def mem_read_def t SetLE32_GetLE32
        mem_write_def kV4MappedPrefix_def)
  have four: "drop_bit 3 96 = (12 :: nat)" by (simp add: drop_bit_eq_div)
  have "Normalized (AsIPv6Address ip) = IPAddress_v4 (GetLE32 [a, b, c, d])"
    by (simp add: m Normalized_def IPIsV4Mapped_def IPIsHelper_def kV4MappedPrefix_def four
        ExtractMappedAddress_def mem_read_def)
  also have "\<dots> = ip"
    using u t assms(2) by (simp add: IPAddress_v4_def SetLE32_GetLE32 mem_write_def)
  finally show ?thesis
    using assms(2)
    by (simp add: m IPAddressPrecedence_def IPIsLoopback_def ip_eq_def in6addr_loopback_def
        IPIsULA_def IPIsV4Mapped_def IPIsHelper_def kV4MappedPrefix_def four replicate_bytes)
qed

theorem mapped_roundtrip_witness:
  "Normalized (AsIPv6Address (IPAddress_host 0x01020304)) = IPAddress_host 0x01020304"
  using mapped_roundtrip [of "IPAddress_host 0x01020304"] by (simp add: IPAddress_host_def)

end
