(* ===== verification/SocketAddress.thy ===== *)
theory SocketAddress
  imports IpAddress
begin

text \<open>
  \<^verbatim>\<open>base/socketaddress.cc\<close>: host name, IP address and port.  Resolving a literal and printing
  an address are \<^verbatim>\<open>inet_pton\<close> and \<^verbatim>\<open>inet_ntop\<close> of the C library, parameters \<open>pton\<close> (of the
  family and the string) and \<open>ntop\<close>.  \<^verbatim>\<open>sockaddr_storage\<close> is the fields of the two
  address structures that the code reads through it.
\<close>

record socket_address =
  sa_hostname :: string
  sa_ip :: ip_address
  sa_port :: uint16
  sa_scope_id :: uint32
  sa_literal :: bool

type_synonym pton = "ip_family \<Rightarrow> string \<Rightarrow> ip_address option"
type_synonym ntop = "ip_address \<Rightarrow> string"

section \<open>Construction\<close>

definition SocketAddress_nil :: socket_address where
  "SocketAddress_nil = \<lparr>sa_hostname = [], sa_ip = IPAddress_unspec, sa_port = 0, sa_scope_id = 0,
     sa_literal = False\<rparr>"

definition IPFromString :: "pton \<Rightarrow> string \<Rightarrow> ip_address option" where
  "IPFromString pton str =
     (case pton AF_INET str of Some ip \<Rightarrow> Some ip | None \<Rightarrow> pton AF_INET6 str)"

definition sa_SetIP :: "ip_address \<Rightarrow> socket_address \<Rightarrow> socket_address" where
  "sa_SetIP ip a = a\<lparr>sa_hostname := [], sa_literal := False, sa_ip := ip, sa_scope_id := 0\<rparr>"

definition sa_SetIP_host :: "uint32 \<Rightarrow> socket_address \<Rightarrow> socket_address" where
  "sa_SetIP_host ip a =
     a\<lparr>sa_hostname := [], sa_literal := False, sa_ip := IPAddress_host ip, sa_scope_id := 0\<rparr>"

definition sa_SetIP_name :: "pton \<Rightarrow> string \<Rightarrow> socket_address \<Rightarrow> socket_address" where
  "sa_SetIP_name pton hostname a =
     a\<lparr>sa_hostname := hostname, sa_literal := (IPFromString pton hostname \<noteq> None),
       sa_ip := (case IPFromString pton hostname of Some ip \<Rightarrow> ip | None \<Rightarrow> IPAddress_unspec),
       sa_scope_id := 0\<rparr>"

definition SetResolvedIP :: "ip_address \<Rightarrow> socket_address \<Rightarrow> socket_address" where
  "SetResolvedIP ip a = a\<lparr>sa_ip := ip, sa_scope_id := 0\<rparr>"

definition sa_SetPort :: "uint16 \<Rightarrow> socket_address \<Rightarrow> socket_address" where
  "sa_SetPort port a = a\<lparr>sa_port := port\<rparr>"

definition SocketAddress_ip :: "ip_address \<Rightarrow> uint16 \<Rightarrow> socket_address" where
  "SocketAddress_ip ip port = sa_SetPort port (sa_SetIP ip SocketAddress_nil)"

definition SocketAddress_host :: "uint32 \<Rightarrow> uint16 \<Rightarrow> socket_address" where
  "SocketAddress_host ip port = sa_SetPort port (sa_SetIP_host ip SocketAddress_nil)"

definition SocketAddress_name :: "pton \<Rightarrow> string \<Rightarrow> uint16 \<Rightarrow> socket_address" where
  "SocketAddress_name pton hostname port = sa_SetPort port (sa_SetIP_name pton hostname SocketAddress_nil)"

definition EmptySocketAddressWithFamily :: "ip_family \<Rightarrow> socket_address" where
  "EmptySocketAddressWithFamily family = (case family of
     AF_INET \<Rightarrow> SocketAddress_ip (IPAddress_host INADDR_ANY) 0
   | AF_INET6 \<Rightarrow> SocketAddress_ip (IPAddress_v6 in6addr_any) 0
   | AF_UNSPEC \<Rightarrow> SocketAddress_nil)"

section \<open>Classification\<close>

definition sa_IsNil :: "socket_address \<Rightarrow> bool" where
  "sa_IsNil a \<longleftrightarrow> sa_hostname a = [] \<and> IPIsUnspec (sa_ip a) \<and> 0 = sa_port a"

definition sa_IsComplete :: "socket_address \<Rightarrow> bool" where
  "sa_IsComplete a \<longleftrightarrow> \<not> IPIsAny (sa_ip a) \<and> 0 \<noteq> sa_port a"

definition sa_IsAnyIP :: "socket_address \<Rightarrow> bool" where
  "sa_IsAnyIP a = IPIsAny (sa_ip a)"

definition sa_IsLoopbackIP :: "socket_address \<Rightarrow> bool" where
  "sa_IsLoopbackIP a \<longleftrightarrow> IPIsLoopback (sa_ip a)
     \<or> (IPIsAny (sa_ip a) \<and> sa_hostname a = ''localhost'')"

definition sa_IsPrivateIP :: "socket_address \<Rightarrow> bool" where
  "sa_IsPrivateIP a = IPIsPrivate (sa_ip a)"

definition sa_IsUnresolvedIP :: "socket_address \<Rightarrow> bool" where
  "sa_IsUnresolvedIP a \<longleftrightarrow> IPIsUnspec (sa_ip a) \<and> \<not> sa_literal a \<and> sa_hostname a \<noteq> []"

section \<open>Comparison\<close>

definition sa_EqualIPs :: "socket_address \<Rightarrow> socket_address \<Rightarrow> bool" where
  "sa_EqualIPs a b \<longleftrightarrow> ip_eq (sa_ip a) (sa_ip b) \<and> (\<not> IPIsAny (sa_ip a) \<or> sa_hostname a = sa_hostname b)"

definition sa_EqualPorts :: "socket_address \<Rightarrow> socket_address \<Rightarrow> bool" where
  "sa_EqualPorts a b \<longleftrightarrow> sa_port a = sa_port b"

definition sa_eq :: "socket_address \<Rightarrow> socket_address \<Rightarrow> bool" where
  "sa_eq a b \<longleftrightarrow> sa_EqualIPs a b \<and> sa_EqualPorts a b"

text \<open>\<^verbatim>\<open>std::string::operator<\<close> compares characters as unsigned bytes, a prefix first.\<close>

fun string_less :: "string \<Rightarrow> string \<Rightarrow> bool" where
  "string_less _ [] = False"
| "string_less [] (_ # _) = True"
| "string_less (x # xs) (y # ys) =
     (if x = y then string_less xs ys else (of_char x :: nat) < of_char y)"

definition sa_less :: "socket_address \<Rightarrow> socket_address \<Rightarrow> bool" where
  "sa_less a b =
     (if ip_less (sa_ip a) (sa_ip b) then True
      else if ip_less (sa_ip b) (sa_ip a) then False
      else if sa_IsAnyIP b \<and> string_less (sa_hostname a) (sa_hostname b) then True
      else if sa_IsAnyIP b \<and> string_less (sa_hostname b) (sa_hostname a) then False
      else sa_port a < sa_port b)"

definition sa_Hash :: "socket_address \<Rightarrow> uint64" where
  "sa_Hash a = ucast (HashIP (sa_ip a)) XOR scast ((ucast (sa_port a) :: uint32) OR push_bit 16 (ucast (sa_port a)))"

section \<open>Socket structures\<close>

record sockaddr_in =
  sin_family :: ip_family
  sin_port :: uint16
  sin_addr :: uint32

record sockaddr_storage =
  ss_family :: ip_family
  ss_port :: uint16
  ss_addr4 :: uint32
  ss_addr6 :: bytes
  ss_scope_id :: uint32

definition ToSockAddr :: "socket_address \<Rightarrow> sockaddr_in" where
  "ToSockAddr a =
     (if ip_family (sa_ip a) \<noteq> AF_INET then \<lparr>sin_family = AF_UNSPEC, sin_port = 0, sin_addr = 0\<rparr>
      else \<lparr>sin_family = AF_INET, sin_port = HostToNetwork16 (sa_port a),
             sin_addr = (if IPIsAny (sa_ip a) then INADDR_ANY else ipv4_address (sa_ip a))\<rparr>)"

definition FromSockAddr :: "sockaddr_in \<Rightarrow> socket_address \<Rightarrow> socket_address option" where
  "FromSockAddr saddr a =
     (if sin_family saddr \<noteq> AF_INET then None
      else Some ((sa_SetPort (NetworkToHost16 (sin_port saddr))
             (sa_SetIP_host (NetworkToHost32 (sin_addr saddr)) a))\<lparr>sa_literal := False\<rparr>))"

definition ToSockAddrStorageHelper :: "ip_address \<Rightarrow> uint16 \<Rightarrow> uint32 \<Rightarrow> sockaddr_storage \<times> nat" where
  "ToSockAddrStorageHelper ip port scope_id =
     (let zero = \<lparr>ss_family = ip_family ip, ss_port = 0, ss_addr4 = 0, ss_addr6 = replicate 16 0,
                   ss_scope_id = 0\<rparr>
      in case ip_family ip of
        AF_INET6 \<Rightarrow> (zero\<lparr>ss_addr6 := ipv6_address ip, ss_port := HostToNetwork16 port,
                       ss_scope_id := scope_id\<rparr>, 28)
      | AF_INET \<Rightarrow> (zero\<lparr>ss_addr4 := ipv4_address ip, ss_port := HostToNetwork16 port\<rparr>, 16)
      | AF_UNSPEC \<Rightarrow> (zero, 0))"

definition ToDualStackSockAddrStorage :: "socket_address \<Rightarrow> sockaddr_storage \<times> nat" where
  "ToDualStackSockAddrStorage a =
     ToSockAddrStorageHelper (AsIPv6Address (sa_ip a)) (sa_port a) (sa_scope_id a)"

definition ToSockAddrStorage :: "socket_address \<Rightarrow> sockaddr_storage \<times> nat" where
  "ToSockAddrStorage a = ToSockAddrStorageHelper (sa_ip a) (sa_port a) (sa_scope_id a)"

definition SocketAddressFromSockAddrStorage :: "sockaddr_storage \<Rightarrow> socket_address option" where
  "SocketAddressFromSockAddrStorage addr = (case ss_family addr of
     AF_INET \<Rightarrow> Some (SocketAddress_ip (IPAddress_v4 (ss_addr4 addr)) (NetworkToHost16 (ss_port addr)))
   | AF_INET6 \<Rightarrow> Some ((SocketAddress_ip (IPAddress_v6 (ss_addr6 addr))
                   (NetworkToHost16 (ss_port addr)))\<lparr>sa_scope_id := ss_scope_id addr\<rparr>)
   | AF_UNSPEC \<Rightarrow> None)"

section \<open>Text form\<close>

text \<open>Printing an unsigned integer in decimal, and \<^verbatim>\<open>strtoul(s, NULL, 10)\<close> on its result:
  white space, a sign and out-of-range values are part of \<^verbatim>\<open>strtoul\<close>.\<close>

function dec_string :: "nat \<Rightarrow> string" where
  "dec_string n = (if n < 10 then [char_of (48 + n)] else dec_string (n div 10) @ [char_of (48 + n mod 10)])"
  by pat_completeness auto
termination by (relation "measure id") auto

declare dec_string.simps [simp del]

definition is_digit :: "char \<Rightarrow> bool" where
  "is_digit c \<longleftrightarrow> 48 \<le> (of_char c :: nat) \<and> (of_char c :: nat) \<le> 57"

definition is_space :: "char \<Rightarrow> bool" where
  "is_space c \<longleftrightarrow> (of_char c :: nat) = 32 \<or> (9 \<le> (of_char c :: nat) \<and> (of_char c :: nat) \<le> 13)"

definition digits_value :: "string \<Rightarrow> nat" where
  "digits_value s = foldl (\<lambda>v c. v * 10 + (of_char c - 48)) 0 (takeWhile is_digit s)"

definition strtoul10 :: "string \<Rightarrow> uint64" where
  "strtoul10 s =
     (let t = dropWhile is_space s;
          neg = (t \<noteq> [] \<and> hd t = CHR ''-'');
          u = (if t \<noteq> [] \<and> (hd t = CHR ''-'' \<or> hd t = CHR ''+'') then tl t else t);
          v = digits_value u
      in if v \<ge> 2 ^ 64 then of_int (- 1) else if neg then - of_nat v else of_nat v)"

definition HostAsURIString :: "ntop \<Rightarrow> socket_address \<Rightarrow> string" where
  "HostAsURIString ntop a =
     (if \<not> sa_literal a \<and> sa_hostname a \<noteq> [] then sa_hostname a
      else if ip_family (sa_ip a) = AF_INET6 then ''['' @ ntop (sa_ip a) @ '']''
      else if ip_family (sa_ip a) = AF_INET then ntop (sa_ip a) else [])"

definition PortAsString :: "socket_address \<Rightarrow> string" where
  "PortAsString a = dec_string (unat (sa_port a))"

definition sa_ToString :: "ntop \<Rightarrow> socket_address \<Rightarrow> string" where
  "sa_ToString ntop a = HostAsURIString ntop a @ '':'' @ PortAsString a"

text \<open>\<^verbatim>\<open>str.find(c, from)\<close> and \<^verbatim>\<open>str.rfind(c)\<close>, \<open>None\<close> for \<^verbatim>\<open>npos\<close>.\<close>

fun str_find :: "char \<Rightarrow> string \<Rightarrow> nat option" where
  "str_find c [] = None"
| "str_find c (x # xs) = (if x = c then Some 0 else map_option Suc (str_find c xs))"

fun str_rfind :: "char \<Rightarrow> string \<Rightarrow> nat option" where
  "str_rfind c [] = None"
| "str_rfind c (x # xs) =
     (case str_rfind c xs of Some i \<Rightarrow> Some (Suc i) | None \<Rightarrow> if x = c then Some 0 else None)"

text \<open>The result and the address after the call; an empty string raises in \<^verbatim>\<open>str.at(0)\<close>:
  \<open>None\<close>.\<close>

definition sa_FromString :: "pton \<Rightarrow> string \<Rightarrow> socket_address \<Rightarrow> (bool \<times> socket_address) option" where
  "sa_FromString pton str a =
     (if str = [] then None
      else if str ! 0 = CHR ''['' then
        (case str_rfind (CHR '']'') str of
           None \<Rightarrow> Some (True, a)
         | Some closebracket \<Rightarrow>
             (case str_find (CHR '':'') (drop closebracket str) of
                None \<Rightarrow> Some (False, a)
              | Some off \<Rightarrow> let colon = closebracket + off in
                  if colon > closebracket then
                    Some (True, sa_SetIP_name pton (take (closebracket - 1) (drop 1 str))
                      (sa_SetPort (ucast (strtoul10 (drop (colon + 1) str))) a))
                  else Some (False, a)))
      else
        (case str_find (CHR '':'') str of
           None \<Rightarrow> Some (False, a)
         | Some pos \<Rightarrow>
             Some (True, sa_SetIP_name pton (take pos str)
               (sa_SetPort (ucast (strtoul10 (drop (pos + 1) str))) a))))"

definition IPToString :: "uint32 \<Rightarrow> string" where
  "IPToString ip =
     dec_string (unat (drop_bit 24 ip AND 0xff)) @ ''.'' @ dec_string (unat (drop_bit 16 ip AND 0xff))
     @ ''.'' @ dec_string (unat (drop_bit 8 ip AND 0xff)) @ ''.'' @ dec_string (unat (drop_bit 0 ip AND 0xff))"

definition StringToIP :: "pton \<Rightarrow> string \<Rightarrow> ip_address option" where
  "StringToIP pton hostname =
     (case pton AF_INET hostname of Some ip \<Rightarrow> Some ip | None \<Rightarrow> pton AF_INET6 hostname)"

definition StringToIP_host :: "pton \<Rightarrow> string \<Rightarrow> uint32" where
  "StringToIP_host pton hostname =
     (case pton AF_INET hostname of Some ip \<Rightarrow> NetworkToHost32 (ipv4_address ip) | None \<Rightarrow> 0)"

section \<open>Decimal text\<close>

lemma of_char_digit: "n < 10 \<Longrightarrow> (of_char (char_of (48 + n :: nat)) :: nat) = 48 + n"
  by (simp add: of_char_of take_bit_nat_eq_self)

lemma dec_string_digits: "list_all is_digit (dec_string n)"
proof (induction n rule: dec_string.induct)
  case (1 n)
  have d: "m < 10 \<Longrightarrow> is_digit (char_of (48 + m))" for m :: nat
    unfolding is_digit_def by (simp only: of_char_digit) simp
  show ?case
  proof (cases "n < 10")
    case True
    then show ?thesis by (simp add: dec_string.simps [of n] d)
  next
    case False
    then show ?thesis using "1.IH" d [of "n mod 10"] by (simp add: dec_string.simps [of n])
  qed
qed

lemma dec_string_value:
  "foldl (\<lambda>v c. v * 10 + ((of_char c :: nat) - 48)) 0 (dec_string n) = n"
proof (induction n rule: dec_string.induct)
  case (1 n)
  have d: "m < 10 \<Longrightarrow> (of_char (char_of (48 + m)) :: nat) - 48 = m" for m :: nat
    by (simp only: of_char_digit diff_add_inverse)
  show ?case
  proof (cases "n < 10")
    case True
    then show ?thesis using d [of n] by (simp add: dec_string.simps [of n])
  next
    case False
    then show ?thesis using "1.IH" d [of "n mod 10"] by (simp add: dec_string.simps [of n])
  qed
qed

lemma dec_string_nonempty [simp]: "dec_string n \<noteq> []"
  by (simp add: dec_string.simps [of n])

lemma digit_no_prefix: "is_digit c \<Longrightarrow> \<not> is_space c \<and> c \<noteq> CHR ''-'' \<and> c \<noteq> CHR ''+''"
  by (auto simp: is_digit_def is_space_def)

lemma strtoul_dec_string:
  assumes "n < 2 ^ 64"
  shows "strtoul10 (dec_string n) = of_nat n"
proof -
  have digits: "\<forall>c \<in> set (dec_string n). is_digit c"
    using dec_string_digits [of n] by (simp add: list_all_iff)
  obtain c cs where dn: "dec_string n = c # cs" by (cases "dec_string n") auto
  have "is_digit c" using digits dn by simp
  note c = digit_no_prefix [OF this]
  have "takeWhile is_digit (dec_string n) = dec_string n"
    using digits by (simp only: takeWhile_eq_all_conv)
  then have "digits_value (dec_string n) = n" by (simp only: digits_value_def dec_string_value)
  then show ?thesis using c assms by (simp add: strtoul10_def Let_def dn)
qed

lemma str_find_append: "c \<notin> set xs \<Longrightarrow> str_find c (xs @ c # ys) = Some (length xs)"
  by (induction xs) auto

lemma str_rfind_none: "c \<notin> set xs \<Longrightarrow> str_rfind c xs = None"
  by (induction xs) auto

lemma str_rfind_append: "c \<notin> set ys \<Longrightarrow> str_rfind c (xs @ c # ys) = Some (length xs)"
  by (induction xs) (simp_all add: str_rfind_none)

lemma digits_not: "\<not> is_digit c \<Longrightarrow> c \<notin> set (dec_string n)"
  using dec_string_digits [of n] by (auto simp: list_all_iff)

lemma port_text: "(ucast (strtoul10 (dec_string (unat (p :: uint16)))) :: uint16) = p"
proof -
  have "unat p < 2 ^ 64" using unat16_lt [of p] by (simp del: unat16_lt)
  moreover have "(ucast (ucast p :: uint64) :: uint16) = p" by (rule ucast_up_ucast_id) (simp add: is_up)
  ultimately show ?thesis by (simp add: strtoul_dec_string)
qed

text \<open>
  Printing an address and parsing the text gives the address back, as a literal: for every
  \<^verbatim>\<open>inet_ntop\<close> whose output \<^verbatim>\<open>inet_pton\<close> accepts and which uses no colon for IPv4 and no
  bracket for IPv6, for both families and every port.
\<close>

theorem text_roundtrip:
  assumes ip: "sa_hostname a = []" "ip_family (sa_ip a) \<noteq> AF_UNSPEC"
    and pton: "IPFromString pton (ntop (sa_ip a)) = Some (sa_ip a)"
    and v4: "ip_family (sa_ip a) = AF_INET \<Longrightarrow> CHR '':'' \<notin> set (ntop (sa_ip a))
      \<and> ntop (sa_ip a) \<noteq> [] \<and> hd (ntop (sa_ip a)) \<noteq> CHR ''[''"
  shows "sa_FromString pton (sa_ToString ntop a) b = Some (True,
    \<lparr>sa_hostname = ntop (sa_ip a), sa_ip = sa_ip a, sa_port = sa_port a, sa_scope_id = 0,
     sa_literal = True\<rparr>)"
proof (cases "ip_family (sa_ip a)")
  case AF_INET
  let ?s = "ntop (sa_ip a)"
  have t: "sa_ToString ntop a = ?s @ CHR '':'' # dec_string (unat (sa_port a))"
    using AF_INET ip by (simp add: sa_ToString_def HostAsURIString_def PortAsString_def)
  have "(?s @ CHR '':'' # dec_string (unat (sa_port a))) ! 0 \<noteq> CHR ''[''"
    using v4 [OF AF_INET] by (cases ?s) simp_all
  then show ?thesis
    using v4 [OF AF_INET] pton
    by (simp add: t sa_FromString_def str_find_append sa_SetIP_name_def sa_SetPort_def port_text)
next
  case AF_INET6
  let ?s = "ntop (sa_ip a)"
  let ?p = "dec_string (unat (sa_port a))"
  have t: "sa_ToString ntop a = CHR ''['' # ?s @ CHR '']'' # CHR '':'' # ?p"
    using AF_INET6 ip by (simp add: sa_ToString_def HostAsURIString_def PortAsString_def)
  have "CHR '']'' \<notin> set (CHR '':'' # ?p)" using digits_not by (simp add: is_digit_def)
  from str_rfind_append [OF this, of "CHR ''['' # ?s"]
  have r: "str_rfind (CHR '']'') (sa_ToString ntop a) = Some (Suc (length ?s))" by (simp add: t)
  have d: "drop (Suc (length ?s)) (sa_ToString ntop a) = CHR '']'' # CHR '':'' # ?p" by (simp add: t)
  have "sa_ToString ntop a \<noteq> []" "sa_ToString ntop a ! 0 = CHR ''[''"
    "take (length ?s) (drop 1 (sa_ToString ntop a)) = ?s"
    "drop (Suc (length ?s) + Suc 0 + 1) (sa_ToString ntop a) = ?p" by (simp_all add: t)
  then show ?thesis
    using pton r by (simp add: sa_FromString_def d sa_SetIP_name_def sa_SetPort_def port_text)
qed (use ip in simp)

definition sample_pton :: "ip_family \<Rightarrow> string \<Rightarrow> ip_address option" where
  "sample_pton f s = (if f = AF_INET6 \<and> s = ''::1'' then Some (IPAddress_v6 in6addr_loopback)
     else if f = AF_INET \<and> s = ''127.0.0.1'' then Some (IPAddress_host INADDR_LOOPBACK) else None)"

definition sample_ntop :: "ip_address \<Rightarrow> string" where
  "sample_ntop ip = (if ip_family ip = AF_INET6 then ''::1'' else ''127.0.0.1'')"

theorem text_roundtrip_witness:
  "sa_FromString sample_pton (sa_ToString sample_ntop (SocketAddress_ip (IPAddress_v6 in6addr_loopback) 3478))
     SocketAddress_nil
   = Some (True, \<lparr>sa_hostname = ''::1'', sa_ip = IPAddress_v6 in6addr_loopback, sa_port = 3478,
       sa_scope_id = 0, sa_literal = True\<rparr>)"
  using text_roundtrip [of "SocketAddress_ip (IPAddress_v6 in6addr_loopback) 3478" sample_pton
      sample_ntop SocketAddress_nil]
  by (simp add: SocketAddress_ip_def sa_SetPort_def sa_SetIP_def SocketAddress_nil_def
      IPFromString_def sample_pton_def sample_ntop_def)

text \<open>An opening bracket that is never closed: \<^verbatim>\<open>FromString\<close> reports success and has set nothing.\<close>

theorem unclosed_bracket_accepted:
  "sa_FromString pton ''[::1'' a = Some (True, a)"
  by (simp add: sa_FromString_def)

section \<open>Socket structures and order\<close>

text \<open>
  An address written to a \<^verbatim>\<open>sockaddr_storage\<close> and read back has the same IP address and port,
  and for IPv6 the same scope; only the host name is lost.  Through the dual-stack form an
  IPv4 address comes back mapped into IPv6.
\<close>

theorem sockaddr_roundtrip:
  assumes "ip_inv (sa_ip a)" and "ip_family (sa_ip a) \<noteq> AF_UNSPEC"
  shows "SocketAddressFromSockAddrStorage (fst (ToSockAddrStorage a))
      = Some \<lparr>sa_hostname = [], sa_ip = sa_ip a, sa_port = sa_port a,
          sa_scope_id = (if ip_family (sa_ip a) = AF_INET6 then sa_scope_id a else 0),
          sa_literal = False\<rparr>
    \<and> map_option (\<lambda>b. Normalized (sa_ip b)) (SocketAddressFromSockAddrStorage
        (fst (ToDualStackSockAddrStorage a))) = Some (Normalized (sa_ip a))"
proof (cases "ip_family (sa_ip a)")
  case AF_INET
  have "IPAddress_v4 (ipv4_address (sa_ip a)) = sa_ip a"
    by (rule IPAddress_v4_rebuild [OF assms(1) AF_INET])
  moreover have n: "Normalized (sa_ip a) = sa_ip a" using AF_INET by (simp add: Normalized_def)
  ultimately show ?thesis
    using mapped_roundtrip [OF assms(1) AF_INET] AF_INET
    by (simp add: ToSockAddrStorage_def ToDualStackSockAddrStorage_def ToSockAddrStorageHelper_def
        SocketAddressFromSockAddrStorage_def SocketAddress_ip_def SocketAddress_nil_def
        sa_SetIP_def sa_SetPort_def Let_def AsIPv6Address_def)
next
  case AF_INET6
  then have "IPAddress_v6 (ipv6_address (sa_ip a)) = sa_ip a"
    by (simp add: IPAddress_v6_def ipv6_address_def)
  moreover have "AsIPv6Address (sa_ip a) = sa_ip a" using AF_INET6 by (simp add: AsIPv6Address_def)
  ultimately show ?thesis
    using AF_INET6
    by (simp add: ToSockAddrStorage_def ToDualStackSockAddrStorage_def ToSockAddrStorageHelper_def
        SocketAddressFromSockAddrStorage_def SocketAddress_ip_def SocketAddress_nil_def
        sa_SetIP_def sa_SetPort_def Let_def)
qed (use assms in simp)

theorem sockaddr_roundtrip_witness:
  "SocketAddressFromSockAddrStorage (fst (ToSockAddrStorage (SocketAddress_host 0x01020304 80)))
     = Some (SocketAddress_host 0x01020304 80)"
  using sockaddr_roundtrip [of "SocketAddress_host 0x01020304 80"]
  by (simp add: SocketAddress_host_def sa_SetPort_def sa_SetIP_host_def SocketAddress_nil_def
      IPAddress_host_def)

lemma string_less_irrefl: "\<not> string_less x x"
  by (induction x) simp_all

lemma string_less_trans: "string_less x y \<Longrightarrow> string_less y z \<Longrightarrow> string_less x z"
proof (induction x y arbitrary: z rule: string_less.induct)
  case (2 c cs z)
  then show ?case by (cases z) (auto split: if_splits)
next
  case (3 x xs y ys z)
  then show ?case by (cases z) (auto split: if_splits)
qed simp

lemma string_less_total: "string_less x y \<or> x = y \<or> string_less y x"
proof (induction x y rule: string_less.induct)
  case (1 x)
  then show ?case by (cases x) simp_all
next
  case (3 x xs y ys)
  have "x \<noteq> y \<Longrightarrow> (of_char x :: nat) < of_char y \<or> (of_char y :: nat) < of_char x"
    by (metis linorder_neqE_nat of_char_eq_iff)
  then show ?case using 3 by auto
qed simp

lemma ip_eq_any: "ip_eq a b \<Longrightarrow> IPIsAny a = IPIsAny b"
  by (auto simp: IPIsAny_def ip_eq_def split: ip_family.splits if_splits)

lemma ip_less_irrefl' [simp]: "\<not> ip_less a a"
  by (rule ip_less_irrefl)

lemma ip_eq_trans_less: "ip_inv a \<Longrightarrow> ip_inv b \<Longrightarrow> ip_inv c \<Longrightarrow> ip_eq a b \<Longrightarrow> ip_less b c \<Longrightarrow> ip_less a c"
  by (auto simp: ip_eq_def ip_less_def v4_eq ip_inv_length split: if_splits ip_family.splits)

lemma sa_less_iff:
  assumes "ip_inv (sa_ip a)" "ip_inv (sa_ip b)"
  shows "sa_less a b \<longleftrightarrow> ip_less (sa_ip a) (sa_ip b)
    \<or> (ip_eq (sa_ip a) (sa_ip b)
       \<and> ((IPIsAny (sa_ip b) \<and> string_less (sa_hostname a) (sa_hostname b))
          \<or> ((\<not> IPIsAny (sa_ip b) \<or> sa_hostname a = sa_hostname b) \<and> sa_port a < sa_port b)))"
  using assms ip_less_total [OF assms] ip_eq_not_less [OF assms]
    ip_eq_not_less [OF assms(2,1)] ip_eq_sym [of "sa_ip a" "sa_ip b"]
    string_less_total [of "sa_hostname a" "sa_hostname b"] string_less_irrefl
    string_less_trans [of "sa_hostname a" "sa_hostname b" "sa_hostname a"]
    ip_less_trans [of "sa_ip a" "sa_ip b" "sa_ip a"]
  by (auto simp: sa_less_def sa_IsAnyIP_def)

lemma ip_eq_trans: "ip_eq a b \<Longrightarrow> ip_eq b c \<Longrightarrow> ip_eq a c"
  by (auto simp: ip_eq_def split: if_splits)

lemma sa_eq_refl [simp]: "sa_eq a a"
  by (cases "ip_family (sa_ip a)") (simp_all add: sa_eq_def sa_EqualIPs_def sa_EqualPorts_def ip_eq_def)

lemma sa_eq_sym: "sa_eq a b \<Longrightarrow> sa_eq b a"
  using ip_eq_any [of "sa_ip a" "sa_ip b"] by (auto simp: sa_eq_def sa_EqualIPs_def sa_EqualPorts_def intro: ip_eq_sym)

lemma sa_eq_trans: "sa_eq a b \<Longrightarrow> sa_eq b c \<Longrightarrow> sa_eq a c"
  using ip_eq_any [of "sa_ip a" "sa_ip b"] by (auto simp: sa_eq_def sa_EqualIPs_def sa_EqualPorts_def intro: ip_eq_trans)

lemma sa_order:
  assumes "ip_inv (sa_ip a)" "ip_inv (sa_ip b)"
  shows "(sa_eq a b \<longleftrightarrow> \<not> sa_less a b \<and> \<not> sa_less b a) \<and> \<not> (sa_less a b \<and> sa_less b a)"
  using ip_less_total [OF assms] ip_eq_not_less [OF assms]
    ip_eq_not_less [OF assms(2,1)] ip_eq_sym [of "sa_ip a" "sa_ip b"] ip_eq_sym [of "sa_ip b" "sa_ip a"]
    string_less_total [of "sa_hostname a" "sa_hostname b"] string_less_irrefl
    string_less_trans [of "sa_hostname a" "sa_hostname b" "sa_hostname a"]
    ip_eq_any [of "sa_ip a" "sa_ip b"]  ip_less_trans [of "sa_ip a" "sa_ip b" "sa_ip a"]
  unfolding sa_less_iff [OF assms] sa_less_iff [OF assms(2,1)] sa_eq_def sa_EqualIPs_def
    sa_EqualPorts_def
  by (metis ip_less_irrefl less_asym less_linear)

text \<open>
  C37.  Exactly one of \<open>a < b\<close>, \<open>a == b\<close> and \<open>b < a\<close> holds of two socket addresses, unresolved
  and wildcard addresses, whose host names count, included: the equality and the order that
  maps of addresses use agree.
\<close>

theorem socket_address_order:
  assumes "ip_inv (sa_ip a)" "ip_inv (sa_ip b)"
  shows "(sa_eq a b \<longleftrightarrow> \<not> sa_less a b \<and> \<not> sa_less b a) \<and> \<not> (sa_less a b \<and> sa_less b a)"
  by (rule sa_order [OF assms])

theorem socket_address_order_witness:
  "sa_less (SocketAddress_host 1 80) (SocketAddress_host 1 81)
    \<and> \<not> sa_less (SocketAddress_host 1 81) (SocketAddress_host 1 80)"
proof -
  have inv: "ip_inv (sa_ip (SocketAddress_host 1 p))" for p
    by (simp add: SocketAddress_host_def sa_SetPort_def sa_SetIP_host_def)
  have "sa_less (SocketAddress_host 1 80) (SocketAddress_host 1 81)"
    by (simp add: sa_less_def SocketAddress_host_def sa_SetPort_def sa_SetIP_host_def sa_IsAnyIP_def
        IPIsAny_def ip_eq_def IPAddress_host_def IPAddress_v4_def INADDR_ANY_def mem_write_def
        HostToNetwork32_def SetBE32_def GetLE32_def SetLE32_def)
  with socket_address_order [OF inv inv, of 80 81] show ?thesis by blast
qed

text \<open>
  Two unresolved addresses with different host names and the same port are equal: an
  unresolved address has the unspecified IP address, which \<^verbatim>\<open>EqualIPs\<close> does not count among
  those whose host names it compares.
\<close>

theorem unresolved_hosts_equal:
  assumes "IPFromString pton x = None" and "IPFromString pton y = None"
  shows "sa_eq (SocketAddress_name pton x p) (SocketAddress_name pton y p)"
  using assms
  by (simp add: sa_eq_def sa_EqualIPs_def sa_EqualPorts_def SocketAddress_name_def sa_SetPort_def
      sa_SetIP_name_def ip_eq_def IPAddress_unspec_def IPIsAny_def)

theorem unresolved_hosts_equal_witness:
  "sa_eq (SocketAddress_name sample_pton ''a.com'' 80) (SocketAddress_name sample_pton ''b.org'' 80)"
  by (rule unresolved_hosts_equal) (simp_all add: IPFromString_def sample_pton_def)

end
