(* ===== verification/StunTypes.thy ===== *)
theory StunTypes
  imports ByteBuffer SocketAddress
begin

text \<open>
  \<^verbatim>\<open>p2p/base/stun.h\<close> and the attribute classes of \<^verbatim>\<open>stun.cc\<close>: message and attribute types,
  the four message classes, the attributes with their \<^verbatim>\<open>Read\<close>, \<^verbatim>\<open>Write\<close> and setters.  An
  attribute is its type, the length it declares and its body; an attribute in a message is
  owned by it, so the operations of an XOR address take the transaction id of the owner
  (\<open>None\<close> for an attribute that is in no message).  Strings are byte strings.
\<close>

section \<open>Error codes\<close>

definition STUN_ERROR_BAD_REQUEST :: nat where "STUN_ERROR_BAD_REQUEST = 400"
definition STUN_ERROR_UNAUTHORIZED :: nat where "STUN_ERROR_UNAUTHORIZED = 401"
definition STUN_ERROR_ALLOCATION_MISMATCH :: nat where "STUN_ERROR_ALLOCATION_MISMATCH = 437"
definition STUN_ERROR_STALE_NONCE :: nat where "STUN_ERROR_STALE_NONCE = 438"
definition STUN_ERROR_WRONG_CREDENTIALS :: nat where "STUN_ERROR_WRONG_CREDENTIALS = 441"
definition STUN_ERROR_UNSUPPORTED_PROTOCOL :: nat where "STUN_ERROR_UNSUPPORTED_PROTOCOL = 442"
definition STUN_ERROR_SERVER_ERROR :: nat where "STUN_ERROR_SERVER_ERROR = 500"
definition STUN_ERROR_UNKNOWN_ATTRIBUTE :: nat where "STUN_ERROR_UNKNOWN_ATTRIBUTE = 420"
definition STUN_ERROR_STALE_CREDENTIALS :: nat where "STUN_ERROR_STALE_CREDENTIALS = 430"
definition STUN_ERROR_GLOBAL_FAILURE :: nat where "STUN_ERROR_GLOBAL_FAILURE = 600"
definition STUN_ERROR_ROLE_CONFLICT :: nat where "STUN_ERROR_ROLE_CONFLICT = 487"

definition STUN_ERROR_REASON_BAD_REQUEST :: bytes where
  "STUN_ERROR_REASON_BAD_REQUEST = string_bytes ''Bad Request''"
definition STUN_ERROR_REASON_UNAUTHORIZED :: bytes where
  "STUN_ERROR_REASON_UNAUTHORIZED = string_bytes ''Unauthorized''"
definition STUN_ERROR_REASON_ALLOCATION_MISMATCH :: bytes where
  "STUN_ERROR_REASON_ALLOCATION_MISMATCH = string_bytes ''Allocation Mismatch''"
definition STUN_ERROR_REASON_STALE_NONCE :: bytes where
  "STUN_ERROR_REASON_STALE_NONCE = string_bytes ''Stale Nonce''"
definition STUN_ERROR_REASON_WRONG_CREDENTIALS :: bytes where
  "STUN_ERROR_REASON_WRONG_CREDENTIALS = string_bytes ''Wrong Credentials''"
definition STUN_ERROR_REASON_UNSUPPORTED_PROTOCOL :: bytes where
  "STUN_ERROR_REASON_UNSUPPORTED_PROTOCOL = string_bytes ''Unsupported Protocol''"
definition STUN_ERROR_REASON_STALE_CREDENTIALS :: bytes where
  "STUN_ERROR_REASON_STALE_CREDENTIALS = string_bytes ''Stale Credentials''"
definition STUN_ERROR_REASON_ROLE_CONFLICT :: bytes where
  "STUN_ERROR_REASON_ROLE_CONFLICT = string_bytes ''Role Conflict''"

section \<open>Types\<close>

definition STUN_BINDING_REQUEST :: uint16 where "STUN_BINDING_REQUEST = 0x0001"
definition STUN_BINDING_INDICATION :: uint16 where "STUN_BINDING_INDICATION = 0x0010"
definition STUN_BINDING_RESPONSE :: uint16 where "STUN_BINDING_RESPONSE = 0x0101"
definition STUN_BINDING_ERROR_RESPONSE :: uint16 where "STUN_BINDING_ERROR_RESPONSE = 0x0111"

definition STUN_ATTR_MAPPED_ADDRESS :: uint16 where "STUN_ATTR_MAPPED_ADDRESS = 0x0001"
definition STUN_ATTR_USERNAME :: uint16 where "STUN_ATTR_USERNAME = 0x0006"
definition STUN_ATTR_MESSAGE_INTEGRITY :: uint16 where "STUN_ATTR_MESSAGE_INTEGRITY = 0x0008"
definition STUN_ATTR_ERROR_CODE :: uint16 where "STUN_ATTR_ERROR_CODE = 0x0009"
definition STUN_ATTR_UNKNOWN_ATTRIBUTES :: uint16 where "STUN_ATTR_UNKNOWN_ATTRIBUTES = 0x000a"
definition STUN_ATTR_REALM :: uint16 where "STUN_ATTR_REALM = 0x0014"
definition STUN_ATTR_NONCE :: uint16 where "STUN_ATTR_NONCE = 0x0015"
definition STUN_ATTR_XOR_MAPPED_ADDRESS :: uint16 where "STUN_ATTR_XOR_MAPPED_ADDRESS = 0x0020"
definition STUN_ATTR_SOFTWARE :: uint16 where "STUN_ATTR_SOFTWARE = 0x8022"
definition STUN_ATTR_ALTERNATE_SERVER :: uint16 where "STUN_ATTR_ALTERNATE_SERVER = 0x8023"
definition STUN_ATTR_FINGERPRINT :: uint16 where "STUN_ATTR_FINGERPRINT = 0x8028"
definition STUN_ATTR_RETRANSMIT_COUNT :: uint16 where "STUN_ATTR_RETRANSMIT_COUNT = 0xFF00"

definition STUN_ATTR_LIFETIME :: uint16 where "STUN_ATTR_LIFETIME = 0x000d"
definition STUN_ATTR_MAGIC_COOKIE :: uint16 where "STUN_ATTR_MAGIC_COOKIE = 0x000f"
definition STUN_ATTR_BANDWIDTH :: uint16 where "STUN_ATTR_BANDWIDTH = 0x0010"
definition STUN_ATTR_DESTINATION_ADDRESS :: uint16 where "STUN_ATTR_DESTINATION_ADDRESS = 0x0011"
definition STUN_ATTR_SOURCE_ADDRESS2 :: uint16 where "STUN_ATTR_SOURCE_ADDRESS2 = 0x0012"
definition STUN_ATTR_DATA :: uint16 where "STUN_ATTR_DATA = 0x0013"
definition STUN_ATTR_OPTIONS :: uint16 where "STUN_ATTR_OPTIONS = 0x8001"

definition STUN_ATTR_CHANNEL_NUMBER :: uint16 where "STUN_ATTR_CHANNEL_NUMBER = 0x000C"
definition STUN_ATTR_TURN_LIFETIME :: uint16 where "STUN_ATTR_TURN_LIFETIME = 0x000d"
definition STUN_ATTR_XOR_PEER_ADDRESS :: uint16 where "STUN_ATTR_XOR_PEER_ADDRESS = 0x0012"
definition STUN_ATTR_XOR_RELAYED_ADDRESS :: uint16 where "STUN_ATTR_XOR_RELAYED_ADDRESS = 0x0016"
definition STUN_ATTR_EVEN_PORT :: uint16 where "STUN_ATTR_EVEN_PORT = 0x0018"
definition STUN_ATTR_REQUESTED_TRANSPORT :: uint16 where "STUN_ATTR_REQUESTED_TRANSPORT = 0x0019"
definition STUN_ATTR_DONT_FRAGMENT :: uint16 where "STUN_ATTR_DONT_FRAGMENT = 0x001A"
definition STUN_ATTR_RESERVATION_TOKEN :: uint16 where "STUN_ATTR_RESERVATION_TOKEN = 0x0022"

definition STUN_ATTR_PRIORITY :: uint16 where "STUN_ATTR_PRIORITY = 0x0024"
definition STUN_ATTR_USE_CANDIDATE :: uint16 where "STUN_ATTR_USE_CANDIDATE = 0x0025"
definition STUN_ATTR_ICE_CONTROLLED :: uint16 where "STUN_ATTR_ICE_CONTROLLED = 0x8029"
definition STUN_ATTR_ICE_CONTROLLING :: uint16 where "STUN_ATTR_ICE_CONTROLLING = 0x802A"

datatype stun_value_type = STUN_VALUE_UNKNOWN | STUN_VALUE_ADDRESS | STUN_VALUE_XOR_ADDRESS
  | STUN_VALUE_UINT32 | STUN_VALUE_UINT64 | STUN_VALUE_BYTE_STRING | STUN_VALUE_ERROR_CODE
  | STUN_VALUE_UINT16_LIST

datatype stun_address_family = STUN_ADDRESS_UNDEF | STUN_ADDRESS_IPV4 | STUN_ADDRESS_IPV6

text \<open>The classes: plain STUN, \<^verbatim>\<open>GTURN\<close>, TURN and ICE messages.\<close>

datatype stun_kind = StunMessage | RelayMessage | TurnMessage | IceMessage

definition kStunTypeMask :: int where "kStunTypeMask = 0x0110"
definition kStunAttributeHeaderSize :: nat where "kStunAttributeHeaderSize = 4"
definition kStunHeaderSize :: nat where "kStunHeaderSize = 20"
definition kStunTransactionIdOffset :: nat where "kStunTransactionIdOffset = 8"
definition kStunTransactionIdLength :: nat where "kStunTransactionIdLength = 12"
definition kStunMagicCookie :: uint32 where "kStunMagicCookie = 0x2112A442"
definition kStunMagicCookieLength :: nat where "kStunMagicCookieLength = 4"
definition kStunLegacyTransactionIdLength :: nat where "kStunLegacyTransactionIdLength = 16"
definition kStunMessageIntegritySize :: nat where "kStunMessageIntegritySize = 20"

section \<open>The type of the value of each attribute\<close>

definition StunMessage_value_type :: "uint16 \<Rightarrow> stun_value_type" where
  "StunMessage_value_type t =
     (if t = STUN_ATTR_MAPPED_ADDRESS then STUN_VALUE_ADDRESS
      else if t = STUN_ATTR_USERNAME then STUN_VALUE_BYTE_STRING
      else if t = STUN_ATTR_MESSAGE_INTEGRITY then STUN_VALUE_BYTE_STRING
      else if t = STUN_ATTR_ERROR_CODE then STUN_VALUE_ERROR_CODE
      else if t = STUN_ATTR_UNKNOWN_ATTRIBUTES then STUN_VALUE_UINT16_LIST
      else if t = STUN_ATTR_REALM then STUN_VALUE_BYTE_STRING
      else if t = STUN_ATTR_NONCE then STUN_VALUE_BYTE_STRING
      else if t = STUN_ATTR_XOR_MAPPED_ADDRESS then STUN_VALUE_XOR_ADDRESS
      else if t = STUN_ATTR_SOFTWARE then STUN_VALUE_BYTE_STRING
      else if t = STUN_ATTR_ALTERNATE_SERVER then STUN_VALUE_BYTE_STRING
      else if t = STUN_ATTR_FINGERPRINT then STUN_VALUE_UINT32
      else if t = STUN_ATTR_RETRANSMIT_COUNT then STUN_VALUE_UINT32
      else STUN_VALUE_UNKNOWN)"

definition RelayMessage_value_type :: "uint16 \<Rightarrow> stun_value_type" where
  "RelayMessage_value_type t =
     (if t = STUN_ATTR_LIFETIME then STUN_VALUE_UINT32
      else if t = STUN_ATTR_MAGIC_COOKIE then STUN_VALUE_BYTE_STRING
      else if t = STUN_ATTR_BANDWIDTH then STUN_VALUE_UINT32
      else if t = STUN_ATTR_DESTINATION_ADDRESS then STUN_VALUE_ADDRESS
      else if t = STUN_ATTR_SOURCE_ADDRESS2 then STUN_VALUE_ADDRESS
      else if t = STUN_ATTR_DATA then STUN_VALUE_BYTE_STRING
      else if t = STUN_ATTR_OPTIONS then STUN_VALUE_UINT32
      else StunMessage_value_type t)"

definition TurnMessage_value_type :: "uint16 \<Rightarrow> stun_value_type" where
  "TurnMessage_value_type t =
     (if t = STUN_ATTR_CHANNEL_NUMBER then STUN_VALUE_UINT32
      else if t = STUN_ATTR_TURN_LIFETIME then STUN_VALUE_UINT32
      else if t = STUN_ATTR_XOR_PEER_ADDRESS then STUN_VALUE_XOR_ADDRESS
      else if t = STUN_ATTR_DATA then STUN_VALUE_BYTE_STRING
      else if t = STUN_ATTR_XOR_RELAYED_ADDRESS then STUN_VALUE_XOR_ADDRESS
      else if t = STUN_ATTR_EVEN_PORT then STUN_VALUE_BYTE_STRING
      else if t = STUN_ATTR_REQUESTED_TRANSPORT then STUN_VALUE_UINT32
      else if t = STUN_ATTR_DONT_FRAGMENT then STUN_VALUE_BYTE_STRING
      else if t = STUN_ATTR_RESERVATION_TOKEN then STUN_VALUE_BYTE_STRING
      else StunMessage_value_type t)"

definition IceMessage_value_type :: "uint16 \<Rightarrow> stun_value_type" where
  "IceMessage_value_type t =
     (if t = STUN_ATTR_PRIORITY then STUN_VALUE_UINT32
      else if t = STUN_ATTR_USE_CANDIDATE then STUN_VALUE_BYTE_STRING
      else if t = STUN_ATTR_ICE_CONTROLLED then STUN_VALUE_UINT64
      else if t = STUN_ATTR_ICE_CONTROLLING then STUN_VALUE_UINT64
      else StunMessage_value_type t)"

fun GetAttributeValueType :: "stun_kind \<Rightarrow> uint16 \<Rightarrow> stun_value_type" where
  "GetAttributeValueType StunMessage = StunMessage_value_type"
| "GetAttributeValueType RelayMessage = RelayMessage_value_type"
| "GetAttributeValueType TurnMessage = TurnMessage_value_type"
| "GetAttributeValueType IceMessage = IceMessage_value_type"

section \<open>Attributes\<close>

datatype stun_body =
    StunAddress socket_address
  | StunXorAddress socket_address
  | StunUInt32 uint32
  | StunUInt64 uint64
  | StunByteString bytes
  | StunErrorCode uint8 uint8 bytes
  | StunUInt16List "uint16 list"

record stun_attr =
  at_type :: uint16
  at_length :: uint16
  at_body :: stun_body

fun body_value_type :: "stun_body \<Rightarrow> stun_value_type" where
  "body_value_type (StunAddress _) = STUN_VALUE_ADDRESS"
| "body_value_type (StunXorAddress _) = STUN_VALUE_XOR_ADDRESS"
| "body_value_type (StunUInt32 _) = STUN_VALUE_UINT32"
| "body_value_type (StunUInt64 _) = STUN_VALUE_UINT64"
| "body_value_type (StunByteString _) = STUN_VALUE_BYTE_STRING"
| "body_value_type (StunErrorCode _ _ _) = STUN_VALUE_ERROR_CODE"
| "body_value_type (StunUInt16List _) = STUN_VALUE_UINT16_LIST"

text \<open>\<^verbatim>\<open>StunAttribute::Create\<close>: the attributes of a fixed size ignore the length.\<close>

definition StunAttribute_Create :: "stun_value_type \<Rightarrow> uint16 \<Rightarrow> uint16 \<Rightarrow> stun_attr option" where
  "StunAttribute_Create value_type type len = (case value_type of
     STUN_VALUE_ADDRESS \<Rightarrow> Some \<lparr>at_type = type, at_length = len, at_body = StunAddress SocketAddress_nil\<rparr>
   | STUN_VALUE_XOR_ADDRESS \<Rightarrow>
       Some \<lparr>at_type = type, at_length = len, at_body = StunXorAddress SocketAddress_nil\<rparr>
   | STUN_VALUE_UINT32 \<Rightarrow> Some \<lparr>at_type = type, at_length = 4, at_body = StunUInt32 0\<rparr>
   | STUN_VALUE_UINT64 \<Rightarrow> Some \<lparr>at_type = type, at_length = 8, at_body = StunUInt64 0\<rparr>
   | STUN_VALUE_BYTE_STRING \<Rightarrow> Some \<lparr>at_type = type, at_length = len, at_body = StunByteString []\<rparr>
   | STUN_VALUE_ERROR_CODE \<Rightarrow> Some \<lparr>at_type = type, at_length = len, at_body = StunErrorCode 0 0 []\<rparr>
   | STUN_VALUE_UINT16_LIST \<Rightarrow> Some \<lparr>at_type = type, at_length = len, at_body = StunUInt16List []\<rparr>
   | STUN_VALUE_UNKNOWN \<Rightarrow> None)"

definition stun_padding :: "stun_attr \<Rightarrow> nat" where
  "stun_padding a = (if unat (at_length a) mod 4 > 0 then 4 - unat (at_length a) mod 4 else 0)"

text \<open>\<^verbatim>\<open>ConsumePadding\<close> ignores a refusal of the buffer.\<close>

definition ConsumePadding :: "stun_attr \<Rightarrow> byte_buffer \<Rightarrow> byte_buffer" where
  "ConsumePadding a b =
     (if unat (at_length a) mod 4 > 0 then
        (case bb_consume b (4 - unat (at_length a) mod 4) of Some b' \<Rightarrow> b' | None \<Rightarrow> b)
      else b)"

definition WritePadding :: "stun_attr \<Rightarrow> byte_buffer \<Rightarrow> byte_buffer" where
  "WritePadding a b =
     (if unat (at_length a) mod 4 > 0 then WriteBytes b (replicate (4 - unat (at_length a) mod 4) 0)
      else b)"

section \<open>Addresses\<close>

definition address_family :: "socket_address \<Rightarrow> stun_address_family" where
  "address_family addr = (case ip_family (sa_ip addr) of
     AF_INET \<Rightarrow> STUN_ADDRESS_IPV4 | AF_INET6 \<Rightarrow> STUN_ADDRESS_IPV6 | AF_UNSPEC \<Rightarrow> STUN_ADDRESS_UNDEF)"

definition EnsureAddressLength :: "socket_address \<Rightarrow> uint16" where
  "EnsureAddressLength addr = (case address_family addr of
     STUN_ADDRESS_IPV4 \<Rightarrow> 8 | STUN_ADDRESS_IPV6 \<Rightarrow> 20 | STUN_ADDRESS_UNDEF \<Rightarrow> 0)"

fun attr_address :: "stun_body \<Rightarrow> socket_address" where
  "attr_address (StunAddress addr) = addr"
| "attr_address (StunXorAddress addr) = addr"
| "attr_address _ = SocketAddress_nil"

fun with_address :: "stun_body \<Rightarrow> socket_address \<Rightarrow> stun_body" where
  "with_address (StunXorAddress _) addr = StunXorAddress addr"
| "with_address _ addr = StunAddress addr"

definition attr_SetAddress :: "socket_address \<Rightarrow> stun_attr \<Rightarrow> stun_attr" where
  "attr_SetAddress addr a =
     a\<lparr>at_body := with_address (at_body a) addr, at_length := EnsureAddressLength addr\<rparr>"

definition attr_SetIP :: "ip_address \<Rightarrow> stun_attr \<Rightarrow> stun_attr" where
  "attr_SetIP ip a = attr_SetAddress (sa_SetIP ip (attr_address (at_body a))) a"

definition attr_SetPort :: "uint16 \<Rightarrow> stun_attr \<Rightarrow> stun_attr" where
  "attr_SetPort port a =
     a\<lparr>at_body := with_address (at_body a) (sa_SetPort port (attr_address (at_body a)))\<rparr>"

definition StunAddressAttribute_Read :: "stun_attr \<Rightarrow> byte_buffer \<Rightarrow> (stun_attr \<times> byte_buffer) option" where
  "StunAddressAttribute_Read a b =
     (case ReadUInt8 b of None \<Rightarrow> None | Some (dummy, b1) \<Rightarrow>
      case ReadUInt8 b1 of None \<Rightarrow> None | Some (stun_family, b2) \<Rightarrow>
      case ReadUInt16 b2 of None \<Rightarrow> None | Some (port, b3) \<Rightarrow>
        if stun_family = 1 then
          if at_length a \<noteq> 8 then None
          else (case ReadBytes b3 4 of None \<Rightarrow> None | Some (v4addr, b4) \<Rightarrow>
            Some (attr_SetAddress (SocketAddress_ip (IPAddress_v4 (host_word32 v4addr)) port) a, b4))
        else if stun_family = 2 then
          if at_length a \<noteq> 20 then None
          else (case ReadBytes b3 16 of None \<Rightarrow> None | Some (v6addr, b4) \<Rightarrow>
            Some (attr_SetAddress (SocketAddress_ip (IPAddress_v6 v6addr) port) a, b4))
        else None)"

fun family_byte :: "stun_address_family \<Rightarrow> uint8" where
  "family_byte STUN_ADDRESS_UNDEF = 0"
| "family_byte STUN_ADDRESS_IPV4 = 1"
| "family_byte STUN_ADDRESS_IPV6 = 2"

definition write_ip :: "ip_address \<Rightarrow> byte_buffer \<Rightarrow> byte_buffer" where
  "write_ip ip b = (case ip_family ip of
     AF_INET \<Rightarrow> WriteBytes b (host_bytes32 (ipv4_address ip))
   | AF_INET6 \<Rightarrow> WriteBytes b (ipv6_address ip)
   | AF_UNSPEC \<Rightarrow> b)"

definition StunAddressAttribute_Write :: "socket_address \<Rightarrow> byte_buffer \<Rightarrow> byte_buffer option" where
  "StunAddressAttribute_Write addr b =
     (if address_family addr = STUN_ADDRESS_UNDEF then None
      else Some (write_ip (sa_ip addr)
        (WriteUInt16 (WriteUInt8 (WriteUInt8 b 0) (family_byte (address_family addr))) (sa_port addr))))"

text \<open>\<^verbatim>\<open>GetXoredIP\<close>: the unspecified address without an owner and for an IPv6 address under a
  legacy transaction id.\<close>

definition GetXoredIP :: "bytes option \<Rightarrow> ip_address \<Rightarrow> ip_address" where
  "GetXoredIP owner ip = (case owner of None \<Rightarrow> IPAddress_unspec | Some transaction_id \<Rightarrow>
     (case ip_family ip of
        AF_INET \<Rightarrow> IPAddress_v4 (ipv4_address ip XOR HostToNetwork32 kStunMagicCookie)
      | AF_INET6 \<Rightarrow>
          if length transaction_id = kStunTransactionIdLength then
            (let w = v6_as_ints (ipv6_address ip);
                 t = map (\<lambda>i. host_word32 (mem_read transaction_id (4 * i) 4)) [0..<3]
             in IPAddress_v6 (v6_of_ints
                  [w ! 0 XOR HostToNetwork32 kStunMagicCookie, w ! 1 XOR t ! 0, w ! 2 XOR t ! 1,
                   w ! 3 XOR t ! 2]))
          else IPAddress_unspec
      | AF_UNSPEC \<Rightarrow> IPAddress_unspec))"

definition xored_port :: "uint16 \<Rightarrow> uint16" where
  "xored_port port = port XOR ucast (drop_bit 16 kStunMagicCookie)"

definition StunXorAddressAttribute_Read ::
    "bytes option \<Rightarrow> stun_attr \<Rightarrow> byte_buffer \<Rightarrow> (stun_attr \<times> byte_buffer) option" where
  "StunXorAddressAttribute_Read owner a b =
     (case StunAddressAttribute_Read a b of None \<Rightarrow> None | Some (a1, b1) \<Rightarrow>
        let addr = attr_address (at_body a1)
        in Some (attr_SetAddress
             (SocketAddress_ip (GetXoredIP owner (sa_ip addr)) (xored_port (sa_port addr))) a1, b1))"

definition StunXorAddressAttribute_Write ::
    "bytes option \<Rightarrow> socket_address \<Rightarrow> byte_buffer \<Rightarrow> byte_buffer option" where
  "StunXorAddressAttribute_Write owner addr b =
     (if address_family addr = STUN_ADDRESS_UNDEF then None
      else
        let xored_ip = GetXoredIP owner (sa_ip addr)
        in if ip_family xored_ip = AF_UNSPEC then None
           else Some (write_ip xored_ip
             (WriteUInt16 (WriteUInt8 (WriteUInt8 b 0) (family_byte (address_family addr)))
               (xored_port (sa_port addr)))))"

end
