(* ===== verification/BlockHash.thy ===== *)
theory BlockHash
  imports ByteOrder
begin

text \<open>
  What \<^verbatim>\<open>base/sha1.cc\<close> and \<^verbatim>\<open>base/md5.cc\<close> share: a state folded over 64-byte blocks by a
  compression function, a 64-byte buffer holding the incomplete block, and a 64-bit count of
  message bits kept in two 32-bit words.  \<open>buffered\<close> says that a state and a buffer
  represent a message; it is kept by both branches of the update functions.
\<close>

section \<open>Folding blocks\<close>

text \<open>The block loop: the state after the full blocks, and what is left.\<close>

function hash_blocks :: "('s \<Rightarrow> bytes \<Rightarrow> 's) \<Rightarrow> 's \<Rightarrow> bytes \<Rightarrow> 's \<times> bytes" where
  "hash_blocks f st data =
     (if 63 < length data then hash_blocks f (f st (take 64 data)) (drop 64 data) else (st, data))"
  by pat_completeness auto
termination by (relation "measure (\<lambda>(f, s, d). length d)") auto

declare hash_blocks.simps [simp del]

lemma hash_blocks_full:
  "63 < length data \<Longrightarrow> hash_blocks f st data = hash_blocks f (f st (take 64 data)) (drop 64 data)"
  by (simp add: hash_blocks.simps [of f st data])

lemma hash_blocks_short: "length data < 64 \<Longrightarrow> hash_blocks f st data = (st, data)"
  by (simp add: hash_blocks.simps [of f st data])

lemma hash_blocks_append:
  "hash_blocks f st a = (s, r) \<Longrightarrow> hash_blocks f st (a @ b) = hash_blocks f s (r @ b)"
proof (induction f st a rule: hash_blocks.induct)
  case (1 f st a)
  show ?case
  proof (cases "63 < length a")
    case True
    with "1.prems" have "hash_blocks f (f st (take 64 a)) (drop 64 a) = (s, r)"
      by (simp add: hash_blocks_full)
    with "1.IH" True show ?thesis by (simp add: hash_blocks_full [of "a @ b"])
  next
    case False
    then show ?thesis using "1.prems" by (simp add: hash_blocks_short)
  qed
qed

lemma hash_blocks_rest: "hash_blocks f st a = (s, r) \<Longrightarrow> length r = length a mod 64"
proof (induction f st a rule: hash_blocks.induct)
  case (1 f st a)
  show ?case
  proof (cases "63 < length a")
    case True
    then have "length r = (length a - 64) mod 64" using "1.IH" "1.prems" by (simp add: hash_blocks_full)
    then show ?thesis using True by (simp add: le_mod_geq)
  next
    case False
    then show ?thesis using "1.prems" by (simp add: hash_blocks_short)
  qed
qed

lemma hash_blocks_block: "length b = 64 \<Longrightarrow> hash_blocks f st b = (f st b, [])"
  by (simp add: hash_blocks_full hash_blocks_short)

section \<open>A state and a buffer that represent a message\<close>

definition buffered :: "('s \<Rightarrow> bytes \<Rightarrow> 's) \<Rightarrow> 's \<Rightarrow> bytes \<Rightarrow> 's \<Rightarrow> bytes \<Rightarrow> bool" where
  "buffered f s0 m st buf \<longleftrightarrow>
     length buf = 64 \<and> hash_blocks f s0 m = (st, take (length m mod 64) buf)"

lemma buffered_Nil: "length buf = 64 \<Longrightarrow> buffered f s0 [] s0 buf"
  by (simp add: buffered_def hash_blocks_short)

lemma mem_write_front:
  assumes "length src \<le> length buf"
  shows "take (length src) (mem_write buf 0 src) = src" "length (mem_write buf 0 src) = length buf"
  using assms by (simp_all add: mem_write_def)

lemma buffered_keep:
  assumes r: "buffered f s0 m st buf" and short: "length m mod 64 + length data < 64"
  shows "buffered f s0 (m @ data) st (mem_write buf (length m mod 64) data)"
proof -
  let ?i = "length m mod 64"
  have buf: "length buf = 64" and m: "hash_blocks f s0 m = (st, take ?i buf)"
    using r by (simp_all add: buffered_def)
  have "length (m @ data) mod 64 = ?i + length data"
    using mod_add_left_eq [of "length m" 64 "length data"] short by simp
  moreover have "hash_blocks f st (take ?i buf @ data) = (st, take ?i buf @ data)"
    using buf short by (simp add: hash_blocks_short)
  ultimately show ?thesis
    using hash_blocks_append [OF m, of data] buf short
    by (simp add: buffered_def mem_write_def min_absorb2)
qed

lemma fill_block:
  assumes "length buf = 64" and "i < 64" and "63 < i + length data"
  shows "mem_write buf i (take (64 - i) data) = take i buf @ take (64 - i) data"
    and "length (mem_write buf i (take (64 - i) data)) = 64"
  using assms by (simp_all add: mem_write_def min_absorb2)

lemma buffered_fill:
  assumes r: "buffered f s0 m st buf" and full: "63 < length m mod 64 + length data"
    and rest: "hash_blocks f (f st (mem_write buf (length m mod 64) (take (64 - length m mod 64) data)))
                 (drop (64 - length m mod 64) data) = (st', rest)"
    and buf': "length buf' = 64"
  shows "buffered f s0 (m @ data) st' (mem_write buf' 0 rest)"
proof -
  let ?i = "length m mod 64"
  have buf: "length buf = 64" and m: "hash_blocks f s0 m = (st, take ?i buf)"
    using r by (simp_all add: buffered_def)
  have lt: "?i < 64" by simp
  let ?b = "mem_write buf ?i (take (64 - ?i) data)"
  have "take 64 (take ?i buf @ data) = ?b" "drop 64 (take ?i buf @ data) = drop (64 - ?i) data"
    unfolding fill_block(1) [OF buf lt full] using buf lt by (simp_all add: min_absorb2)
  moreover have "63 < length (take ?i buf @ data)" using buf full lt by (simp add: min_absorb2)
  ultimately have "hash_blocks f st (take ?i buf @ data) = (st', rest)"
    using rest by (simp only: hash_blocks_full)
  then have whole: "hash_blocks f s0 (m @ data) = (st', rest)"
    using hash_blocks_append [OF m, of data] by simp
  have len: "length rest = length (m @ data) mod 64" by (rule hash_blocks_rest [OF whole])
  then have "length rest < 64" by simp
  then have "length rest \<le> length buf'" using buf' by simp
  note front = mem_write_front [OF this, unfolded len buf']
  show ?thesis unfolding buffered_def front using whole by simp
qed

section \<open>The bit count\<close>

definition bit_count :: "uint32 \<Rightarrow> uint32 \<Rightarrow> nat" where
  "bit_count lo hi = unat lo + 2 ^ 32 * unat hi"

lemma bit_count_0 [simp]: "bit_count 0 0 = 0"
  by (simp add: bit_count_def)

lemma add_bits_carry:
  fixes c b :: uint32
  shows "unat (c + b) + 2 ^ 32 * (if c + b < b then 1 else 0) = unat c + unat b"
  using unat32_lt [of c] unat32_lt [of b]
  by (auto simp: unat_plus_if_size word_size word_less_nat_alt simp del: unat32_lt)

lemma mult_high_mod: "2 ^ 32 * (x mod 2 ^ 32) = (2 ^ 32 * x) mod (2 ^ 64 :: nat)"
proof -
  have "(2 ^ 64 :: nat) = 2 ^ 32 * 2 ^ 32" by (simp add: power_add [symmetric])
  then show ?thesis by (simp only: mult_mod_right)
qed

lemma two_words_lt: "a < 2 ^ 32 \<Longrightarrow> b < 2 ^ 32 \<Longrightarrow> a + 2 ^ 32 * b < (2 ^ 64 :: nat)"
  by simp

lemma count_arith:
  fixes c0 c0' b c1 h n k :: nat
  assumes "c0' + 2 ^ 32 * k = c0 + b" "8 * n = b + 2 ^ 32 * h"
  shows "c0' + 2 ^ 32 * (c1 + k + h) = c0 + 2 ^ 32 * c1 + 8 * n"
  using assms by (simp add: algebra_simps)

lemma bits_split: "8 * n = unat (of_nat (n * 8) :: uint32) + 2 ^ 32 * (n div 2 ^ 29)"
proof -
  have "unat (of_nat (n * 8) :: uint32) = n * 8 mod 2 ^ 32" by (simp only: unat_of_nat take_bit_eq_mod) simp
  moreover have "n * 8 div 2 ^ 32 = n div 2 ^ 29" using div_mult2_eq [of "n * 8" 8 "2 ^ 29"] by simp
  ultimately show ?thesis by (metis div_mult_mod_eq mult.commute add.commute)
qed

text \<open>Adding \<open>n\<close> bytes: the low word wraps, its carry and the high bits go to the high word.\<close>

lemma bit_count_add:
  fixes lo hi lo' hi' bits :: uint32
  assumes bits: "bits = of_nat (n * 8)" and lo': "lo' = lo + bits"
    and hi': "hi' = hi + of_nat (if lo' < bits then 1 else 0) + of_nat (n div 2 ^ 29)"
  shows "bit_count lo' hi' = (bit_count lo hi + 8 * n) mod 2 ^ 64"
proof -
  let ?k = "if lo' < bits then 1 else 0 :: nat"
  have "unat hi' = (unat hi + ?k + n div 2 ^ 29) mod 2 ^ 32"
    unfolding hi' by (simp add: unat_word_ariths unat_of_nat take_bit_eq_mod mod_simps)
  then have high: "2 ^ 32 * unat hi' = 2 ^ 32 * (unat hi + ?k + n div 2 ^ 29) mod 2 ^ 64"
    by (simp only: mult_high_mod)
  have "unat lo' + 2 ^ 32 * (unat hi + ?k + n div 2 ^ 29) = bit_count lo hi + 8 * n"
    unfolding bit_count_def using count_arith [OF add_bits_carry bits_split] bits lo' by simp
  moreover have "unat lo' + 2 ^ 32 * unat hi' < 2 ^ 64"
    by (rule two_words_lt) (use unat32_lt in simp)+
  then have "bit_count lo' hi' = (unat lo' + 2 ^ 32 * unat hi') mod 2 ^ 64"
    by (simp only: bit_count_def mod_less)
  then have "bit_count lo' hi' = (unat lo' + 2 ^ 32 * (unat hi + ?k + n div 2 ^ 29)) mod 2 ^ 64"
    by (simp only: high mod_add_right_eq)
  ultimately show ?thesis by simp
qed

lemma bit_count_words:
  assumes "bit_count lo hi = b mod 2 ^ 64"
  shows "lo = of_nat b" and "hi = of_nat (b div 2 ^ 32)"
proof -
  have c: "bit_count lo hi = b mod (2 ^ 32 * 2 ^ 32)" using assms by simp
  have l: "unat lo = bit_count lo hi mod 2 ^ 32" and h: "unat hi = bit_count lo hi div 2 ^ 32"
    using unat32_lt [of lo] by (simp_all add: bit_count_def)
  have "unat lo = b mod 2 ^ 32" by (simp only: l c) (simp add: mod_mod_cancel)
  then show "lo = of_nat b" by (simp add: word_unat_eq_iff unat_of_nat take_bit_eq_mod)
  have "unat hi = b div 2 ^ 32 mod 2 ^ 32" by (simp only: h c) (simp only: mod_mult2_eq, simp)
  then show "hi = of_nat (b div 2 ^ 32)"
    by (simp add: word_unat_eq_iff unat_of_nat take_bit_eq_mod)
qed

text \<open>The position in the block, read from the low word.\<close>

lemma unat_take_drop: "unat (take_bit n (drop_bit m (c :: uint32))) = unat c div 2 ^ m mod 2 ^ n"
  by (simp only: unsigned_take_bit_eq unat_drop_bit_eq) (simp add: take_bit_eq_mod drop_bit_eq_div)

lemma index_mod: "unat (drop_bit 3 (c :: uint32) AND 63) = unat c div 8 mod 64"
proof -
  have "drop_bit 3 c AND 63 = take_bit 6 (drop_bit 3 c)"
    by (simp add: take_bit_eq_mask mask_eq_exp_minus_1)
  then show ?thesis using unat_take_drop [of 6 3 c] by simp
qed

lemma bit_count_index:
  assumes "bit_count lo hi = 8 * n mod 2 ^ 64"
  shows "unat lo div 8 mod 64 = n mod 64" and "unat (drop_bit 3 lo AND 63) = n mod 64"
proof -
  have "unat lo = 8 * n mod (8 * 2 ^ 29)"
    using bit_count_words(1) [OF assms]
    by (simp add: word_unat_eq_iff unat_of_nat take_bit_eq_mod del: of_nat_mult)
  then have "unat lo div 8 mod 64 = 8 * n mod (8 * 2 ^ 29) div 8 mod 64" by simp
  also have "\<dots> = n mod 2 ^ 29 mod 64" by (simp only: mod_mult_mult1) simp
  also have "\<dots> = n mod 64" by (simp add: mod_mod_cancel)
  finally show "unat lo div 8 mod 64 = n mod 64" .
  then show "unat (drop_bit 3 lo AND 63) = n mod 64" by (simp add: index_mod)
qed

section \<open>The padding\<close>

text \<open>How many zero bytes bring \<open>q\<close> bytes to 56 modulo 64.\<close>

definition pad_left :: "nat \<Rightarrow> nat" where
  "pad_left q = (120 - q mod 64) mod 64"

lemma pad_left_cases: "pad_left n = (if n mod 64 \<le> 56 then 56 - n mod 64 else 120 - n mod 64)"
  by (auto simp: pad_left_def le_mod_geq)

lemma pad_left_next: "q mod 64 \<noteq> 56 \<Longrightarrow> pad_left q = Suc (pad_left (q + 1))"
proof -
  define r where "r = q mod 64"
  assume "q mod 64 \<noteq> 56"
  then have "r \<noteq> 56" by (simp add: r_def)
  moreover have "r < 64" by (simp add: r_def)
  moreover have "(q + 1) mod 64 = (if r = 63 then 0 else r + 1)" by (simp add: mod_Suc r_def)
  ultimately show ?thesis
    unfolding pad_left_cases [of q] pad_left_cases [of "q + 1"] r_def [symmetric] by auto
qed

lemma pad_left_56: "q mod 64 = 56 \<Longrightarrow> pad_left q = 0"
  by (simp add: pad_left_def)

definition md_padding :: "bytes \<Rightarrow> nat \<Rightarrow> bytes" where
  "md_padding bits n = 0x80 # replicate (pad_left (n + 1)) 0 @ bits"

end
