(* ===== verification/Md5.thy ===== *)
theory Md5
  imports BlockHash
begin

text \<open>
  \<^verbatim>\<open>base/md5.cc\<close>: the MD5 context and its streaming interface on a little-endian host, where
  \<^verbatim>\<open>ByteReverse\<close> does nothing.  The block buffer \<^verbatim>\<open>in\<close>, which the code reads as words and
  writes as bytes, is its 64 bytes.  \<open>md5_digest\<close> is the hash of a whole message.
\<close>

section \<open>The compression function\<close>

type_synonym md5_work = "uint32 \<times> uint32 \<times> uint32 \<times> uint32"

definition F1 :: "uint32 \<Rightarrow> uint32 \<Rightarrow> uint32 \<Rightarrow> uint32" where
  "F1 x y z = z XOR (x AND (y XOR z))"

definition F2 :: "uint32 \<Rightarrow> uint32 \<Rightarrow> uint32 \<Rightarrow> uint32" where
  "F2 x y z = F1 z x y"

definition F3 :: "uint32 \<Rightarrow> uint32 \<Rightarrow> uint32 \<Rightarrow> uint32" where
  "F3 x y z = x XOR y XOR z"

definition F4 :: "uint32 \<Rightarrow> uint32 \<Rightarrow> uint32 \<Rightarrow> uint32" where
  "F4 x y z = y XOR (x OR NOT z)"

text \<open>One step; the result has the working variables rotated for the next one.\<close>

definition MD5STEP :: "(uint32 \<Rightarrow> uint32 \<Rightarrow> uint32 \<Rightarrow> uint32) \<Rightarrow> md5_work \<Rightarrow> uint32 \<Rightarrow> nat \<Rightarrow> md5_work" where
  "MD5STEP f v data s =
     (case v of (w, x, y, z) \<Rightarrow>
        let w1 = w + (f x y z + data)
        in (z, (push_bit s w1 OR drop_bit (32 - s) w1) + x, x, y))"

text \<open>The unrolled steps: the input word, the constant and the rotation of each.\<close>

definition md5_steps :: "(nat \<times> uint32 \<times> nat) list" where
  "md5_steps =
    [(0, 0xd76aa478, 7), (1, 0xe8c7b756, 12), (2, 0x242070db, 17), (3, 0xc1bdceee, 22),
     (4, 0xf57c0faf, 7), (5, 0x4787c62a, 12), (6, 0xa8304613, 17), (7, 0xfd469501, 22),
     (8, 0x698098d8, 7), (9, 0x8b44f7af, 12), (10, 0xffff5bb1, 17), (11, 0x895cd7be, 22),
     (12, 0x6b901122, 7), (13, 0xfd987193, 12), (14, 0xa679438e, 17), (15, 0x49b40821, 22),
     (1, 0xf61e2562, 5), (6, 0xc040b340, 9), (11, 0x265e5a51, 14), (0, 0xe9b6c7aa, 20),
     (5, 0xd62f105d, 5), (10, 0x02441453, 9), (15, 0xd8a1e681, 14), (4, 0xe7d3fbc8, 20),
     (9, 0x21e1cde6, 5), (14, 0xc33707d6, 9), (3, 0xf4d50d87, 14), (8, 0x455a14ed, 20),
     (13, 0xa9e3e905, 5), (2, 0xfcefa3f8, 9), (7, 0x676f02d9, 14), (12, 0x8d2a4c8a, 20),
     (5, 0xfffa3942, 4), (8, 0x8771f681, 11), (11, 0x6d9d6122, 16), (14, 0xfde5380c, 23),
     (1, 0xa4beea44, 4), (4, 0x4bdecfa9, 11), (7, 0xf6bb4b60, 16), (10, 0xbebfbc70, 23),
     (13, 0x289b7ec6, 4), (0, 0xeaa127fa, 11), (3, 0xd4ef3085, 16), (6, 0x04881d05, 23),
     (9, 0xd9d4d039, 4), (12, 0xe6db99e5, 11), (15, 0x1fa27cf8, 16), (2, 0xc4ac5665, 23),
     (0, 0xf4292244, 6), (7, 0x432aff97, 10), (14, 0xab9423a7, 15), (5, 0xfc93a039, 21),
     (12, 0x655b59c3, 6), (3, 0x8f0ccc92, 10), (10, 0xffeff47d, 15), (1, 0x85845dd1, 21),
     (8, 0x6fa87e4f, 6), (15, 0xfe2ce6e0, 10), (6, 0xa3014314, 15), (13, 0x4e0811a1, 21),
     (4, 0xf7537e82, 6), (11, 0xbd3af235, 10), (2, 0x2ad7d2bb, 15), (9, 0xeb86d391, 21)]"

definition md5_step :: "uint32 list \<Rightarrow> md5_work \<Rightarrow> nat \<Rightarrow> md5_work" where
  "md5_step inp v n =
     (case md5_steps ! n of (i, c, s) \<Rightarrow>
        MD5STEP (if n < 16 then F1 else if n < 32 then F2 else if n < 48 then F3 else F4)
          v (inp ! i + c) s)"

definition in_words :: "bytes \<Rightarrow> uint32 list" where
  "in_words inp = map (\<lambda>i. host_word32 (mem_read inp (4 * i) 4)) [0..<16]"

definition MD5Transform :: "uint32 list \<Rightarrow> bytes \<Rightarrow> uint32 list" where
  "MD5Transform buf inp =
     (case foldl (md5_step (in_words inp)) (buf ! 0, buf ! 1, buf ! 2, buf ! 3) [0..<64] of
        (a, b, c, d) \<Rightarrow> [buf ! 0 + a, buf ! 1 + b, buf ! 2 + c, buf ! 3 + d])"

section \<open>The context\<close>

record md5_ctx =
  m5_buf :: "uint32 list"
  m5_bits0 :: uint32
  m5_bits1 :: uint32
  m5_in :: bytes

definition md5_init_state :: "uint32 list" where
  "md5_init_state = [0x67452301, 0xefcdab89, 0x98badcfe, 0x10325476]"

definition MD5Init :: "bytes \<Rightarrow> md5_ctx" where
  "MD5Init inp = \<lparr>m5_buf = md5_init_state, m5_bits0 = 0, m5_bits1 = 0, m5_in = inp\<rparr>"

text \<open>The loop over 64-byte chunks and the copy of what remains: the new \<^verbatim>\<open>buf\<close> and \<^verbatim>\<open>in\<close>.\<close>

function md5_chunks :: "uint32 list \<Rightarrow> bytes \<Rightarrow> bytes \<Rightarrow> uint32 list \<times> bytes" where
  "md5_chunks buf inp data =
     (if 64 \<le> length data
      then md5_chunks (MD5Transform buf (mem_write inp 0 (take 64 data)))
             (mem_write inp 0 (take 64 data)) (drop 64 data)
      else (buf, mem_write inp 0 data))"
  by pat_completeness auto
termination by (relation "measure (\<lambda>(b, i, d). length d)") auto

declare md5_chunks.simps [simp del]

definition MD5Update :: "md5_ctx \<Rightarrow> bytes \<Rightarrow> md5_ctx" where
  "MD5Update ctx data =
     (let len = length data;
          t = m5_bits0 ctx;
          bits0 = t + of_nat (len * 8);
          bits1 = (if bits0 < t then m5_bits1 ctx + 1 else m5_bits1 ctx) + of_nat (len div 2 ^ 29);
          k = unat (drop_bit 3 t AND 0x3f);
          ctx1 = ctx\<lparr>m5_bits0 := bits0, m5_bits1 := bits1\<rparr>
      in if k \<noteq> 0 then
           if len < 64 - k then ctx1\<lparr>m5_in := mem_write (m5_in ctx) k data\<rparr>
           else
             (let inp = mem_write (m5_in ctx) k (take (64 - k) data);
                  (buf', inp') = md5_chunks (MD5Transform (m5_buf ctx) inp) inp (drop (64 - k) data)
              in ctx1\<lparr>m5_buf := buf', m5_in := inp'\<rparr>)
         else
           (let (buf', inp') = md5_chunks (m5_buf ctx) (m5_in ctx) data
            in ctx1\<lparr>m5_buf := buf', m5_in := inp'\<rparr>))"

text \<open>The state and the block that the last transformation of \<^verbatim>\<open>MD5Final\<close> gets.\<close>

definition md5_last :: "md5_ctx \<Rightarrow> uint32 list \<times> bytes" where
  "md5_last ctx =
     (let n = unat (drop_bit 3 (m5_bits0 ctx) AND 0x3F);
          inp = mem_write (m5_in ctx) n [0x80];
          count = 64 - 1 - n;
          (buf, inp1) =
            (if count < 8
             then (MD5Transform (m5_buf ctx) (mem_write inp (n + 1) (replicate count 0)),
                   mem_write (mem_write inp (n + 1) (replicate count 0)) 0 (replicate 56 0))
             else (m5_buf ctx, mem_write inp (n + 1) (replicate (count - 8) 0)))
      in (buf, mem_write (mem_write inp1 56 (host_bytes32 (m5_bits0 ctx)))
                 60 (host_bytes32 (m5_bits1 ctx))))"

definition md5_output :: "uint32 list \<Rightarrow> bytes" where
  "md5_output buf = mem_read (concat (map host_bytes32 buf)) 0 16"

definition MD5Final :: "md5_ctx \<Rightarrow> bytes" where
  "MD5Final ctx = (case md5_last ctx of (buf, inp) \<Rightarrow> md5_output (MD5Transform buf inp))"

section \<open>The hash of a message\<close>

definition md5_length :: "nat \<Rightarrow> bytes" where
  "md5_length n = SetLE32 (of_nat (8 * n)) @ SetLE32 (of_nat (8 * n div 2 ^ 32))"

definition md5_digest :: "bytes \<Rightarrow> bytes" where
  "md5_digest m = md5_output (fst (hash_blocks MD5Transform md5_init_state
     (m @ md_padding (md5_length (length m)) (length m))))"

definition md5_rep :: "md5_ctx \<Rightarrow> bytes \<Rightarrow> bool" where
  "md5_rep ctx m \<longleftrightarrow> bit_count (m5_bits0 ctx) (m5_bits1 ctx) = 8 * length m mod 2 ^ 64
     \<and> buffered MD5Transform md5_init_state m (m5_buf ctx) (m5_in ctx)"

lemma md5_chunks_blocks:
  assumes "length inp = 64"
  shows "\<exists>inp'. length inp' = 64 \<and> md5_chunks buf inp data
    = (case hash_blocks MD5Transform buf data of (st, rest) \<Rightarrow> (st, mem_write inp' 0 rest))"
  using assms
proof (induction buf inp data rule: md5_chunks.induct)
  case (1 buf inp data)
  show ?case
  proof (cases "64 \<le> length data")
    case True
    have w: "mem_write inp 0 (take 64 data) = take 64 data"
      using True "1.prems" by (simp add: mem_write_def)
    have "length (mem_write inp 0 (take 64 data)) = 64" using True by (simp add: w)
    from "1.IH" [OF True this] True show ?thesis
      by (simp add: md5_chunks.simps [of buf inp data] hash_blocks_full w)
  next
    case False
    then show ?thesis
      using "1.prems" by (auto simp: md5_chunks.simps [of buf inp data] hash_blocks_short)
  qed
qed

lemma md5_rep_index: "md5_rep ctx m \<Longrightarrow> unat (drop_bit 3 (m5_bits0 ctx) AND 63) = length m mod 64"
  unfolding md5_rep_def by (rule bit_count_index(2)) (erule conjunct1)

lemma carry_either: "(c :: uint32) + b < c \<longleftrightarrow> c + b < b"
  using unat32_lt [of c] unat32_lt [of b]
  by (auto simp: word_less_nat_alt unat_plus_if_size word_size simp del: unat32_lt)

lemma md5_update_count:
  "bit_count (m5_bits0 (MD5Update ctx data)) (m5_bits1 (MD5Update ctx data))
     = (bit_count (m5_bits0 ctx) (m5_bits1 ctx) + 8 * length data) mod 2 ^ 64"
  by (rule bit_count_add [OF refl]) (simp_all add: MD5Update_def Let_def case_prod_beta carry_either [of "m5_bits0 ctx"])

lemma md5_update_rep:
  assumes r: "md5_rep ctx m"
  shows "md5_rep (MD5Update ctx data) (m @ data)"
proof -
  let ?i = "length m mod 64"
  note idx = md5_rep_index [OF r]
  have b: "buffered MD5Transform md5_init_state m (m5_buf ctx) (m5_in ctx)"
    using r by (simp add: md5_rep_def)
  then have len: "length (m5_in ctx) = 64" by (simp add: buffered_def)
  have "buffered MD5Transform md5_init_state (m @ data)
      (m5_buf (MD5Update ctx data)) (m5_in (MD5Update ctx data))"
  proof (cases "?i = 0")
    case True
    obtain st rest where h: "hash_blocks MD5Transform (m5_buf ctx) data = (st, rest)"
      by (metis surj_pair)
    from md5_chunks_blocks [OF len, of "m5_buf ctx" data] h obtain inp'
      where i: "length inp' = 64"
        and c: "md5_chunks (m5_buf ctx) (m5_in ctx) data = (st, mem_write inp' 0 rest)" by auto
    from b True have "hash_blocks MD5Transform md5_init_state m = (m5_buf ctx, [])"
      by (simp add: buffered_def)
    from hash_blocks_append [OF this, of data] h
    have w: "hash_blocks MD5Transform md5_init_state (m @ data) = (st, rest)" by simp
    have l: "length rest = length (m @ data) mod 64" by (rule hash_blocks_rest [OF w])
    then have "length rest < 64" by simp
    then have "length rest \<le> length inp'" using i by simp
    note front = mem_write_front [OF this, unfolded l i]
    have u: "m5_buf (MD5Update ctx data) = st" "m5_in (MD5Update ctx data) = mem_write inp' 0 rest"
      using c idx True by (simp_all add: MD5Update_def Let_def)
    show ?thesis unfolding buffered_def u front using w by simp
  next
    case i: False
    show ?thesis
    proof (cases "length data < 64 - ?i")
      case True
      with buffered_keep [OF b, of data] idx i show ?thesis by (simp add: MD5Update_def Let_def)
    next
      case False
      then have full: "63 < ?i + length data" by simp
      let ?b = "mem_write (m5_in ctx) ?i (take (64 - ?i) data)"
      have lb: "length ?b = 64" by (rule fill_block(2) [OF len _ full]) simp
      obtain st rest where h: "hash_blocks MD5Transform (MD5Transform (m5_buf ctx) ?b)
          (drop (64 - ?i) data) = (st, rest)" by (metis surj_pair)
      from md5_chunks_blocks [OF lb, of "MD5Transform (m5_buf ctx) ?b" "drop (64 - ?i) data"] h
      obtain inp' where i': "length inp' = 64"
        and c: "md5_chunks (MD5Transform (m5_buf ctx) ?b) ?b (drop (64 - ?i) data)
          = (st, mem_write inp' 0 rest)" by auto
      have u: "m5_buf (MD5Update ctx data) = st" "m5_in (MD5Update ctx data) = mem_write inp' 0 rest"
        using c idx i False by (simp_all add: MD5Update_def Let_def)
      show ?thesis unfolding u by (rule buffered_fill [OF b full h i'])
    qed
  qed
  moreover have "bit_count (m5_bits0 (MD5Update ctx data)) (m5_bits1 (MD5Update ctx data))
      = 8 * length (m @ data) mod 2 ^ 64"
    using r md5_update_count [of ctx data] by (simp add: md5_rep_def mod_simps algebra_simps)
  ultimately show ?thesis by (simp add: md5_rep_def)
qed

lemma md5_init_rep: "length inp = 64 \<Longrightarrow> md5_rep (MD5Init inp) []"
  by (simp add: md5_rep_def MD5Init_def buffered_Nil)

lemma md5_updates_rep: "md5_rep ctx m \<Longrightarrow> md5_rep (foldl MD5Update ctx pieces) (m @ concat pieces)"
proof (induction pieces arbitrary: ctx m)
  case (Cons p ps)
  from Cons.IH [OF md5_update_rep [OF Cons.prems, of p]] show ?case by simp
qed simp

text \<open>The last block of \<^verbatim>\<open>MD5Final\<close>: the message, the byte 0x80, zeros to 56 modulo 64, the length.\<close>

lemma md5_last_rep:
  assumes r: "md5_rep ctx m"
  shows "hash_blocks MD5Transform md5_init_state (m @ md_padding (md5_length (length m)) (length m))
    = (case md5_last ctx of (buf, inp) \<Rightarrow> (MD5Transform buf inp, []))"
proof -
  let ?n = "length m mod 64"
  let ?r = "take ?n (m5_in ctx)"
  let ?len = "md5_length (length m)"
  note idx = md5_rep_index [OF r]
  have lt: "?n < 64" by simp
  have len: "length (m5_in ctx) = 64"
    and m: "hash_blocks MD5Transform md5_init_state m = (m5_buf ctx, ?r)"
    using r by (simp_all add: md5_rep_def buffered_def)
  have bits: "md5_length (length m) = SetLE32 (m5_bits0 ctx) @ SetLE32 (m5_bits1 ctx)"
    using r unfolding md5_rep_def md5_length_def by (metis bit_count_words)
  have pad: "pad_left (length m + 1) = (if ?n \<le> 55 then 55 - ?n else 119 - ?n)"
    using lt by (auto simp: pad_left_cases mod_Suc)
  have whole: "hash_blocks MD5Transform md5_init_state (m @ md_padding ?len (length m))
      = hash_blocks MD5Transform (m5_buf ctx) (?r @ md_padding ?len (length m))"
    by (rule hash_blocks_append [OF m])
  show ?thesis
  proof (cases "?n \<le> 55")
    case True
    have c: "\<not> 63 - ?n < 8" "56 - ?n = Suc (55 - ?n)" using True by auto
    have "md5_last ctx = (m5_buf ctx, ?r @ md_padding ?len (length m))"
      using len lt True pad
      by (simp add: c md5_last_def Let_def idx md_padding_def mem_write_def bits min_absorb2)
    then show ?thesis unfolding whole using len lt True pad
      by (simp add: hash_blocks_block md_padding_def bits min_absorb2)
  next
    case False
    define b1 where "b1 = ?r @ 0x80 # replicate (63 - ?n) 0"
    define b2 where "b2 = replicate 56 0 @ ?len"
    have c: "63 - ?n < 8" using False by simp
    have "md5_last ctx = (MD5Transform (m5_buf ctx) b1, b2)"
      using len lt False
      by (simp add: c md5_last_def Let_def idx mem_write_def b1_def b2_def bits min_absorb2)
    moreover have "length b1 = 64" "length b2 = 64"
      using len lt False by (simp_all add: b1_def b2_def bits min_absorb2)
    moreover have "119 - ?n = (63 - ?n) + 56" using lt by simp
    then have "replicate (119 - ?n) 0 = replicate (63 - ?n) 0 @ replicate 56 (0 :: uint8)"
      by (simp only: replicate_add)
    then have "?r @ md_padding ?len (length m) = b1 @ b2"
      using False pad by (simp add: md_padding_def b1_def b2_def)
    ultimately show ?thesis
      unfolding whole by (simp add: hash_blocks_full hash_blocks_short)
  qed
qed

lemma md5_final_rep: "md5_rep ctx m \<Longrightarrow> MD5Final ctx = md5_digest m"
  by (simp add: MD5Final_def md5_digest_def md5_last_rep case_prod_beta)

lemma length_MD5Transform [simp]: "length (MD5Transform buf inp) = 4"
  by (simp add: MD5Transform_def case_prod_beta)

lemma length_md5_output [simp]: "length buf = 4 \<Longrightarrow> length (md5_output buf) = 16"
  by (simp add: md5_output_def length_concat comp_def sum_list_triv)

lemma length_md5_digest [simp]: "length (md5_digest m) = 16"
proof -
  obtain b i where "md5_last (MD5Update (MD5Init (replicate 64 0)) m) = (b, i)" by (metis surj_pair)
  with md5_last_rep [OF md5_update_rep [OF md5_init_rep, of "replicate 64 0" m]]
  show ?thesis by (simp add: md5_digest_def)
qed

text \<open>
  Hashing in pieces: whatever the pieces a message is fed to \<^verbatim>\<open>MD5Update\<close> in, and whatever
  the block buffer held before, \<^verbatim>\<open>MD5Final\<close> returns the hash of the whole message: its
  blocks and the padding with the 64-bit length folded through the compression function.
\<close>

theorem md5_streaming:
  assumes "length inp = 64"
  shows "MD5Final (foldl MD5Update (MD5Init inp) pieces) = md5_digest (concat pieces)"
  using md5_final_rep [OF md5_updates_rep [OF md5_init_rep [OF assms], of pieces]] by simp

theorem md5_streaming_witness:
  "MD5Final (foldl MD5Update (MD5Init (replicate 64 1)) [[97], [98, 99]]) = md5_digest [97, 98, 99]"
  using md5_streaming [of "replicate 64 1" "[[97], [98, 99]]"] by simp

end
