(* ===== verification/Sha1.thy ===== *)
theory Sha1
  imports BlockHash
begin

text \<open>
  \<^verbatim>\<open>base/sha1.cc\<close>: the SHA-1 context and its streaming interface.  \<open>sha1_digest\<close> is the hash of
  a whole message: its blocks and its padding folded through the compression function.  The
  context that \<^verbatim>\<open>SHA1Update\<close> maintains represents the message fed so far (\<open>sha1_rep\<close>),
  however it was cut into pieces, so \<^verbatim>\<open>SHA1Final\<close> returns the hash of the whole.
\<close>

section \<open>The compression function\<close>

type_synonym sha1_work = "uint32 \<times> uint32 \<times> uint32 \<times> uint32 \<times> uint32"

definition sha1_rol :: "uint32 \<Rightarrow> nat \<Rightarrow> uint32" where
  "sha1_rol val bits = push_bit bits val OR drop_bit (32 - bits) val"

definition blk0 :: "uint32 list \<Rightarrow> nat \<Rightarrow> uint32" where
  "blk0 block i = (sha1_rol (block ! i) 24 AND 0xFF00FF00) OR (sha1_rol (block ! i) 8 AND 0x00FF00FF)"

definition blk :: "uint32 list \<Rightarrow> nat \<Rightarrow> uint32" where
  "blk block i = sha1_rol (block ! ((i + 13) mod 16) XOR block ! ((i + 8) mod 16)
     XOR block ! ((i + 2) mod 16) XOR block ! (i mod 16)) 1"

text \<open>Round \<open>i\<close>: the macros \<^verbatim>\<open>R0\<close> to \<^verbatim>\<open>R4\<close>, the working variables rotated for the next call.\<close>

definition sha1_round :: "uint32 list \<times> sha1_work \<Rightarrow> nat \<Rightarrow> uint32 list \<times> sha1_work" where
  "sha1_round s i =
     (case s of (block, v, w, x, y, z) \<Rightarrow>
        let b = (if i < 16 then blk0 block i else blk block i);
            f = (if i < 20 then ((w AND (x XOR y)) XOR y) + b + 0x5A827999
                 else if i < 40 then (w XOR x XOR y) + b + 0x6ED9EBA1
                 else if i < 60 then (((w OR x) AND y) OR (w AND x)) + b + 0x8F1BBCDC
                 else (w XOR x XOR y) + b + 0xCA62C1D6)
        in (block[i mod 16 := b], z + f + sha1_rol v 5, v, sha1_rol w 30, x, y))"

definition block_words :: "bytes \<Rightarrow> uint32 list" where
  "block_words buffer = map (\<lambda>i. host_word32 (mem_read buffer (4 * i) 4)) [0..<16]"

definition SHA1Transform :: "uint32 list \<Rightarrow> bytes \<Rightarrow> uint32 list" where
  "SHA1Transform state buffer =
     (case foldl sha1_round (block_words buffer, state ! 0, state ! 1, state ! 2, state ! 3, state ! 4)
             [0..<80] of
        (block, a, b, c, d, e) \<Rightarrow>
          [state ! 0 + a, state ! 1 + b, state ! 2 + c, state ! 3 + d, state ! 4 + e])"

section \<open>The context\<close>

record sha1_ctx =
  sc_state :: "uint32 list"
  sc_count0 :: uint32
  sc_count1 :: uint32
  sc_buffer :: bytes

definition sha1_init_state :: "uint32 list" where
  "sha1_init_state = [0x67452301, 0xEFCDAB89, 0x98BADCFE, 0x10325476, 0xC3D2E1F0]"

text \<open>The buffer of a fresh context is whatever memory held: \<open>buffer\<close>.\<close>

definition SHA1Init :: "bytes \<Rightarrow> sha1_ctx" where
  "SHA1Init buffer =
     \<lparr>sc_state = sha1_init_state, sc_count0 = 0, sc_count1 = 0, sc_buffer = buffer\<rparr>"

definition sha1_index :: "sha1_ctx \<Rightarrow> nat" where
  "sha1_index ctx = unat (drop_bit 3 (sc_count0 ctx) AND 63)"

text \<open>The loop over the whole blocks of the input is \<open>hash_blocks SHA1Transform\<close>.\<close>

definition SHA1Update :: "sha1_ctx \<Rightarrow> bytes \<Rightarrow> sha1_ctx" where
  "SHA1Update ctx data =
     (let input_len = length data;
          index = sha1_index ctx;
          bits = of_nat (input_len * 8);
          count0 = sc_count0 ctx + bits;
          count1 = (if count0 < bits then sc_count1 ctx + 1 else sc_count1 ctx)
                   + of_nat (input_len div 2 ^ 29)
      in if index + input_len > 63 then
           (let i = 64 - index;
                buffer = mem_write (sc_buffer ctx) index (take i data);
                (state, rest) = hash_blocks SHA1Transform (SHA1Transform (sc_state ctx) buffer) (drop i data)
            in ctx\<lparr>sc_count0 := count0, sc_count1 := count1, sc_state := state,
                   sc_buffer := mem_write buffer 0 rest\<rparr>)
         else ctx\<lparr>sc_count0 := count0, sc_count1 := count1,
                  sc_buffer := mem_write (sc_buffer ctx) index data\<rparr>)"

text \<open>Padding with zeros up to 56 bytes of the last block.\<close>

lemma word_504: "(504 :: uint32) = push_bit 3 (mask 6)"
  by (simp add: mask_eq_exp_minus_1 push_bit_eq_mult)

lemma and_504: "(c :: uint32) AND 504 = push_bit 3 (take_bit 6 (drop_bit 3 c))"
proof (rule bit_eqI)
  fix i
  have "bit (c AND push_bit 3 (mask 6)) i \<longleftrightarrow> bit (push_bit 3 (take_bit 6 (drop_bit 3 c))) i"
    using bit_imp_le_length [of c i]
    by (auto simp: bit_and_iff bit_push_bit_iff bit_mask_iff bit_take_bit_iff bit_drop_bit_eq)
  then show "bit (c AND 504) i \<longleftrightarrow> bit (push_bit 3 (take_bit 6 (drop_bit 3 c))) i"
    by (simp only: word_504)
qed

lemma pad_condition: "(c :: uint32) AND 504 \<noteq> 448 \<longleftrightarrow> unat c div 8 mod 64 \<noteq> 56"
proof -
  let ?q = "take_bit 6 (drop_bit 3 c)"
  have q: "unat ?q = unat c div 8 mod 64" using unat_take_drop [of 6 3 c] by simp
  then have "unat ?q * 8 < 2 ^ 32" by simp
  then have "unat (?q * 8) = unat ?q * 8" by (simp add: unat_mult_lem [THEN iffD1])
  moreover have "c AND 504 = ?q * 8" by (simp only: and_504 push_bit_eq_mult) simp
  moreover have "(?q * 8 = 448) = (unat (?q * 8) = unat (448 :: uint32))"
    by (simp only: word_unat_eq_iff)
  ultimately show ?thesis using q by auto
qed

lemma next_index: "unat ((c :: uint32) + 8) div 8 mod 64 = (unat c div 8 + 1) mod 64"
proof -
  have "unat (c + 8) = (unat c + 8) mod (8 * 2 ^ 29)" by (simp add: unat_word_ariths)
  also have "\<dots> div 8 mod 64 = (unat c + 8) div 8 mod 2 ^ 29 mod 64"
    by (simp only: mod_mult2_eq) simp
  also have "\<dots> = (unat c + 8) div 8 mod 64" by (simp add: mod_mod_cancel)
  also have "(unat c + 8) div 8 = unat c div 8 + 1" by simp
  finally show ?thesis .
qed

lemma update_count0: "sc_count0 (SHA1Update ctx data) = sc_count0 ctx + of_nat (length data * 8)"
  by (simp add: SHA1Update_def Let_def case_prod_beta)

function sha1_pad :: "sha1_ctx \<Rightarrow> sha1_ctx" where
  "sha1_pad ctx =
     (if sc_count0 ctx AND 504 \<noteq> 448 then sha1_pad (SHA1Update ctx [0]) else ctx)"
  by pat_completeness auto
termination
proof (relation "measure (\<lambda>ctx. pad_left (unat (sc_count0 ctx) div 8))", goal_cases)
  case (2 ctx)
  then have q: "unat (sc_count0 ctx) div 8 mod 64 \<noteq> 56" by (simp only: pad_condition) simp
  have "pad_left (unat (sc_count0 (SHA1Update ctx [0])) div 8) = pad_left (unat (sc_count0 ctx) div 8 + 1)"
    using next_index [of "sc_count0 ctx"] by (simp add: pad_left_def update_count0)
  then show ?case using pad_left_next [OF q] by simp
qed simp

declare sha1_pad.simps [simp del]

definition sha1_finalcount :: "sha1_ctx \<Rightarrow> bytes" where
  "sha1_finalcount ctx =
     map (\<lambda>i. ucast (drop_bit ((3 - i mod 4) * 8)
                      (if i \<ge> 4 then sc_count0 ctx else sc_count1 ctx) AND 255)) [0..<8]"

definition sha1_output :: "uint32 list \<Rightarrow> bytes" where
  "sha1_output state =
     map (\<lambda>i. ucast (drop_bit ((3 - i mod 4) * 8) (state ! (i div 4)) AND 255)) [0..<20]"

definition SHA1Final :: "sha1_ctx \<Rightarrow> bytes" where
  "SHA1Final ctx =
     (let finalcount = sha1_finalcount ctx;
          ctx1 = sha1_pad (SHA1Update ctx [0x80])
      in sha1_output (sc_state (SHA1Update ctx1 finalcount)))"

section \<open>The hash of a message\<close>

definition sha1_length :: "nat \<Rightarrow> bytes" where
  "sha1_length n = SetBE32 (of_nat (8 * n div 2 ^ 32)) @ SetBE32 (of_nat (8 * n))"

definition sha1_digest :: "bytes \<Rightarrow> bytes" where
  "sha1_digest m = sha1_output (fst (hash_blocks SHA1Transform sha1_init_state
     (m @ md_padding (sha1_length (length m)) (length m))))"

section \<open>The context represents the message\<close>

definition sha1_rep :: "sha1_ctx \<Rightarrow> bytes \<Rightarrow> bool" where
  "sha1_rep ctx m \<longleftrightarrow> bit_count (sc_count0 ctx) (sc_count1 ctx) = 8 * length m mod 2 ^ 64
     \<and> buffered SHA1Transform sha1_init_state m (sc_state ctx) (sc_buffer ctx)"

lemma rep_index: "sha1_rep ctx m \<Longrightarrow> sha1_index ctx = length m mod 64"
  unfolding sha1_rep_def sha1_index_def by (rule bit_count_index(2)) (erule conjunct1)

lemma update_count:
  "bit_count (sc_count0 (SHA1Update ctx data)) (sc_count1 (SHA1Update ctx data))
     = (bit_count (sc_count0 ctx) (sc_count1 ctx) + 8 * length data) mod 2 ^ 64"
  by (rule bit_count_add [OF refl]) (simp_all add: SHA1Update_def Let_def case_prod_beta)

lemma update_rep:
  assumes r: "sha1_rep ctx m"
  shows "sha1_rep (SHA1Update ctx data) (m @ data)"
proof -
  let ?i = "length m mod 64"
  have idx: "sha1_index ctx = ?i" by (rule rep_index [OF r])
  have b: "buffered SHA1Transform sha1_init_state m (sc_state ctx) (sc_buffer ctx)"
    using r by (simp add: sha1_rep_def)
  have "buffered SHA1Transform sha1_init_state (m @ data)
      (sc_state (SHA1Update ctx data)) (sc_buffer (SHA1Update ctx data))"
  proof (cases "?i + length data > 63")
    case True
    have "length (sc_buffer ctx) = 64" using b by (simp add: buffered_def)
    from fill_block(2) [OF this _ True] buffered_fill [OF b True] True idx show ?thesis
      by (simp add: SHA1Update_def Let_def case_prod_beta)
  next
    case False
    with buffered_keep [OF b, of data] idx show ?thesis by (simp add: SHA1Update_def Let_def)
  qed
  moreover have "bit_count (sc_count0 (SHA1Update ctx data)) (sc_count1 (SHA1Update ctx data))
      = 8 * length (m @ data) mod 2 ^ 64"
    using r update_count [of ctx data] by (simp add: sha1_rep_def mod_simps algebra_simps)
  ultimately show ?thesis by (simp add: sha1_rep_def)
qed

section \<open>The digest\<close>

lemma init_rep: "length buffer = 64 \<Longrightarrow> sha1_rep (SHA1Init buffer) []"
  by (simp add: sha1_rep_def SHA1Init_def buffered_Nil)

lemma rep_count0: "sha1_rep ctx m \<Longrightarrow> unat (sc_count0 ctx) div 8 mod 64 = length m mod 64"
  unfolding sha1_rep_def by (rule bit_count_index(1)) (erule conjunct1)

lemma pad_rep: "sha1_rep ctx m \<Longrightarrow> sha1_rep (sha1_pad ctx) (m @ replicate (pad_left (length m)) 0)"
proof (induction ctx arbitrary: m rule: sha1_pad.induct)
  case (1 ctx)
  note r = rep_count0 [OF "1.prems"]
  show ?case
  proof (cases "sc_count0 ctx AND 504 \<noteq> 448")
    case True
    then have "length m mod 64 \<noteq> 56" using r pad_condition by simp
    from pad_left_next [OF this]
    have "replicate (pad_left (length m)) 0 = [0 :: uint8] @ replicate (pad_left (length (m @ [0 :: uint8]))) 0"
      by simp
    moreover have "sha1_rep (sha1_pad (SHA1Update ctx [0]))
        ((m @ [0]) @ replicate (pad_left (length (m @ [0 :: uint8]))) 0)"
      by (rule "1.IH" [OF True update_rep [OF "1.prems"]])
    moreover have "sha1_pad ctx = sha1_pad (SHA1Update ctx [0])"
      using True by (simp add: sha1_pad.simps [of ctx])
    ultimately show ?thesis by simp
  next
    case False
    then have "length m mod 64 = 56" using r pad_condition by simp
    moreover have "sha1_pad ctx = ctx" using False by (simp add: sha1_pad.simps [of ctx])
    ultimately show ?thesis using "1.prems" by (simp add: pad_left_56)
  qed
qed

lemma ucast_and_255: "(ucast ((x :: uint32) AND 255) :: uint8) = ucast x"
proof (rule bit_eqI)
  fix i assume "possible_bit TYPE(uint8) i"
  then have "i < 8" by simp
  moreover have "bit (x AND mask 8) i \<longleftrightarrow> bit x i \<and> i < 8"
    by (auto simp: bit_and_iff bit_mask_iff dest: bit_imp_le_length)
  moreover have "(255 :: uint32) = mask 8" by (simp add: mask_eq_exp_minus_1)
  ultimately show "bit (ucast (x AND 255) :: uint8) i \<longleftrightarrow> bit (ucast x :: uint8) i"
    by (simp only: bit_ucast_iff) auto
qed

lemma finalcount_bytes: "sha1_finalcount ctx = SetBE32 (sc_count1 ctx) @ SetBE32 (sc_count0 ctx)"
proof -
  have "[0..<8] = [0, 1, 2, 3, 4, 5, 6, 7 :: nat]" by (simp add: upt_rec)
  then show ?thesis by (simp add: sha1_finalcount_def SetBE32_def ucast_and_255)
qed

lemma finalcount_length:
  assumes "sha1_rep ctx m"
  shows "sha1_finalcount ctx = sha1_length (length m)"
  using assms unfolding sha1_rep_def finalcount_bytes sha1_length_def
  by (metis bit_count_words)

lemma final_rep:
  assumes "sha1_rep ctx m"
  shows "SHA1Final ctx = sha1_digest m"
proof -
  let ?m1 = "(m @ [0x80]) @ replicate (pad_left (length (m @ [0x80 :: uint8]))) 0"
  let ?c = "SHA1Update (sha1_pad (SHA1Update ctx [0x80])) (sha1_finalcount ctx)"
  have "sha1_rep (sha1_pad (SHA1Update ctx [0x80])) ?m1"
    by (rule pad_rep [OF update_rep [OF assms]])
  from update_rep [OF this, of "sha1_finalcount ctx"]
  have "fst (hash_blocks SHA1Transform sha1_init_state (?m1 @ sha1_finalcount ctx)) = sc_state ?c"
    by (simp only: sha1_rep_def buffered_def fst_conv)
  moreover have "?m1 @ sha1_finalcount ctx = m @ md_padding (sha1_length (length m)) (length m)"
    by (simp add: md_padding_def finalcount_length [OF assms])
  ultimately show ?thesis by (simp add: SHA1Final_def Let_def sha1_digest_def)
qed

lemma updates_rep: "sha1_rep ctx m \<Longrightarrow> sha1_rep (foldl SHA1Update ctx pieces) (m @ concat pieces)"
proof (induction pieces arbitrary: ctx m)
  case (Cons p ps)
  from Cons.IH [OF update_rep [OF Cons.prems, of p]] show ?case by simp
qed simp

lemma length_sha1_digest [simp]: "length (sha1_digest m) = 20"
  by (simp add: sha1_digest_def sha1_output_def)

text \<open>
  C36.  Hashing in pieces: whatever the pieces a message is fed to \<^verbatim>\<open>SHA1Update\<close> in, and whatever
  the buffer of the context held before, \<^verbatim>\<open>SHA1Final\<close> returns the hash of the whole message,
  its blocks and the padding with the 64-bit length folded through the compression function.
\<close>

theorem sha1_streaming:
  assumes "length buffer = 64"
  shows "SHA1Final (foldl SHA1Update (SHA1Init buffer) pieces) = sha1_digest (concat pieces)"
  using final_rep [OF updates_rep [OF init_rep [OF assms], of pieces]] by simp

theorem sha1_streaming_witness:
  "SHA1Final (foldl SHA1Update (SHA1Init (replicate 64 1)) [[97], [98, 99]]) = sha1_digest [97, 98, 99]"
  using sha1_streaming [of "replicate 64 1" "[[97], [98, 99]]"] by simp

end
