(* ===== verification/Digest.thy ===== *)
theory Digest
  imports Md5 Sha1
begin

text \<open>
  \<^verbatim>\<open>base/messagedigest.cc\<close> with the two digests of the library, \<^verbatim>\<open>md5digest.h\<close> and
  \<^verbatim>\<open>sha1digest.h\<close>: digests by name and the HMAC over any of them.  The virtual class
  \<^verbatim>\<open>MessageDigest\<close> is the record of its operations over the state of an object; \<open>Finish\<close>
  returns the bytes it writes (none when the output is too small) and the object it leaves.
  The locale \<open>digest_class\<close> states what an implementation promises, and the two digests are
  shown to keep it; \<open>hmac\<close> is the formula of RFC 2104 over a hash function.
\<close>

section \<open>The digest objects\<close>

record 'c message_digest =
  md_Size :: nat
  md_Update :: "'c \<Rightarrow> bytes \<Rightarrow> 'c"
  md_Finish :: "'c \<Rightarrow> nat \<Rightarrow> bytes \<times> 'c"

definition Sha1Digest_Finish :: "sha1_ctx \<Rightarrow> nat \<Rightarrow> bytes \<times> sha1_ctx" where
  "Sha1Digest_Finish ctx len =
     (if len < 20 then ([], ctx) else (SHA1Final ctx, SHA1Init (replicate 64 0)))"

definition Sha1Digest :: "sha1_ctx message_digest" where
  "Sha1Digest = \<lparr>md_Size = 20, md_Update = SHA1Update, md_Finish = Sha1Digest_Finish\<rparr>"

definition Md5Digest_Finish :: "md5_ctx \<Rightarrow> nat \<Rightarrow> bytes \<times> md5_ctx" where
  "Md5Digest_Finish ctx len =
     (if len < 16 then ([], ctx) else (MD5Final ctx, MD5Init (replicate 64 0)))"

definition Md5Digest :: "md5_ctx message_digest" where
  "Md5Digest = \<lparr>md_Size = 16, md_Update = MD5Update, md_Finish = Md5Digest_Finish\<rparr>"

section \<open>Digest and HMAC over an object\<close>

definition kBlockSize :: nat where "kBlockSize = 64"

definition ComputeDigest_obj :: "'c message_digest \<Rightarrow> 'c \<Rightarrow> bytes \<Rightarrow> nat \<Rightarrow> bytes \<times> 'c" where
  "ComputeDigest_obj d c input out_len = md_Finish d (md_Update d c input) out_len"

text \<open>The key in a block-sized buffer: hashed when it is longer than a block, then zeros.\<close>

definition hmac_key :: "'c message_digest \<Rightarrow> 'c \<Rightarrow> bytes \<Rightarrow> bytes \<times> 'c" where
  "hmac_key d c key =
     (if length key > kBlockSize then
        (let (k, c') = ComputeDigest_obj d c key kBlockSize
         in (k @ replicate (kBlockSize - md_Size d) 0, c'))
      else (key @ replicate (kBlockSize - length key) 0, c))"

definition ComputeHmac_obj :: "'c message_digest \<Rightarrow> 'c \<Rightarrow> bytes \<Rightarrow> bytes \<Rightarrow> nat \<Rightarrow> bytes \<times> 'c" where
  "ComputeHmac_obj d c key input out_len =
     (if md_Size d > 32 then ([], c)
      else
        let (new_key, c0) = hmac_key d c key;
            o_pad = map (\<lambda>k. 0x5c XOR k) new_key;
            i_pad = map (\<lambda>k. 0x36 XOR k) new_key;
            (inner, c1) = md_Finish d (md_Update d (md_Update d c0 i_pad) input) (md_Size d)
        in md_Finish d (md_Update d (md_Update d c1 o_pad) inner) out_len)"

section \<open>By name\<close>

text \<open>\<^verbatim>\<open>MessageDigestFactory::Create\<close> without OpenSSL knows the two digests.  \<open>mem\<close> is the memory
  of the new object, whose block buffer the constructor leaves as it is.\<close>

definition DIGEST_MD5 :: string where "DIGEST_MD5 = ''md5''"
definition DIGEST_SHA_1 :: string where "DIGEST_SHA_1 = ''sha-1''"

definition ComputeDigest :: "bytes \<Rightarrow> string \<Rightarrow> bytes \<Rightarrow> nat \<Rightarrow> bytes" where
  "ComputeDigest mem alg input out_len =
     (if alg = DIGEST_MD5 then fst (ComputeDigest_obj Md5Digest (MD5Init mem) input out_len)
      else if alg = DIGEST_SHA_1 then fst (ComputeDigest_obj Sha1Digest (SHA1Init mem) input out_len)
      else [])"

definition ComputeHmac :: "bytes \<Rightarrow> string \<Rightarrow> bytes \<Rightarrow> bytes \<Rightarrow> nat \<Rightarrow> bytes" where
  "ComputeHmac mem alg key input out_len =
     (if alg = DIGEST_MD5 then fst (ComputeHmac_obj Md5Digest (MD5Init mem) key input out_len)
      else if alg = DIGEST_SHA_1 then fst (ComputeHmac_obj Sha1Digest (SHA1Init mem) key input out_len)
      else [])"

section \<open>What a digest object promises\<close>

definition hmac_block :: "(bytes \<Rightarrow> bytes) \<Rightarrow> bytes \<Rightarrow> bytes" where
  "hmac_block hash key =
     (let k = (if length key > 64 then hash key else key) in k @ replicate (64 - length k) 0)"

definition hmac :: "(bytes \<Rightarrow> bytes) \<Rightarrow> bytes \<Rightarrow> bytes \<Rightarrow> bytes" where
  "hmac hash key input =
     hash (map (\<lambda>k. 0x5c XOR k) (hmac_block hash key)
           @ hash (map (\<lambda>k. 0x36 XOR k) (hmac_block hash key) @ input))"

text \<open>An object represents the bytes fed since it was made or last finished; finishing it
  returns their hash and leaves an object that represents no bytes.\<close>

locale digest_class =
  fixes d :: "'c message_digest" and hash :: "bytes \<Rightarrow> bytes" and rep :: "'c \<Rightarrow> bytes \<Rightarrow> bool"
  assumes hash_size: "length (hash m) = md_Size d"
    and update: "rep c m \<Longrightarrow> rep (md_Update d c x) (m @ x)"
    and finish: "rep c m \<Longrightarrow> md_Size d \<le> n \<Longrightarrow> fst (md_Finish d c n) = hash m"
    and finish_reset: "rep c m \<Longrightarrow> md_Size d \<le> n \<Longrightarrow> rep (snd (md_Finish d c n)) []"
    and finish_small: "n < md_Size d \<Longrightarrow> md_Finish d c n = ([], c)"
begin

lemma update_fresh: "rep c [] \<Longrightarrow> rep (md_Update d c x) x"
  using update [of c "[]" x] by simp

lemma digest: "rep c [] \<Longrightarrow>
    fst (ComputeDigest_obj d c input n) = (if n < md_Size d then [] else hash input)"
  by (simp add: ComputeDigest_obj_def finish_small finish [OF update_fresh])

lemma digest_reset: "rep c [] \<Longrightarrow> md_Size d \<le> n \<Longrightarrow> rep (snd (ComputeDigest_obj d c input n)) []"
  by (simp add: ComputeDigest_obj_def finish_reset [OF update_fresh])

lemma key_block:
  assumes "rep c []" and "md_Size d \<le> 32"
  shows "fst (hmac_key d c key) = hmac_block hash key" and "rep (snd (hmac_key d c key)) []"
  using assms digest [of c key 64] digest_reset [of c 64 key]
  by (auto simp: hmac_key_def hmac_block_def kBlockSize_def Let_def case_prod_beta hash_size)

lemma hmac:
  assumes "rep c []" and "md_Size d \<le> 32"
  shows "fst (ComputeHmac_obj d c key input n) = (if n < md_Size d then [] else hmac hash key input)"
proof -
  let ?k = "hmac_block hash key"
  let ?i = "map (\<lambda>k. 0x36 XOR k) ?k" and ?o = "map (\<lambda>k. 0x5c XOR k) ?k"
  obtain c0 where k: "hmac_key d c key = (?k, c0)" and c0: "rep c0 []"
    using key_block [OF assms, of key] by (metis prod.collapse)
  let ?f = "md_Finish d (md_Update d (md_Update d c0 ?i) input) (md_Size d)"
  have r: "rep (md_Update d (md_Update d c0 ?i) input) (?i @ input)"
    by (rule update [OF update_fresh [OF c0]])
  have f: "fst ?f = hash (?i @ input)" by (rule finish [OF r]) simp
  have "rep (snd ?f) []" by (rule finish_reset [OF r]) simp
  from update [OF update_fresh [OF this]]
  have "rep (md_Update d (md_Update d (snd ?f) ?o) (fst ?f)) (?o @ hash (?i @ input))"
    by (simp add: f)
  from finish [OF this, of n] show ?thesis
    using assms(2) by (simp add: ComputeHmac_obj_def k case_prod_beta Let_def hmac_def finish_small)
qed

end

lemma sha1_init_rep0: "sha1_rep (SHA1Init (replicate 64 0)) []"
  by (rule init_rep) simp

lemma md5_init_rep0: "md5_rep (MD5Init (replicate 64 0)) []"
  by (rule md5_init_rep) simp

interpretation sha1_class: digest_class Sha1Digest sha1_digest sha1_rep
  by unfold_locales
     (auto simp: Sha1Digest_def Sha1Digest_Finish_def final_rep sha1_init_rep0 intro: update_rep)

interpretation md5_class: digest_class Md5Digest md5_digest md5_rep
  by unfold_locales
     (auto simp: Md5Digest_def Md5Digest_Finish_def md5_final_rep md5_init_rep0 intro: md5_update_rep)

lemma digest_sizes [simp]: "md_Size Sha1Digest = 20" "md_Size Md5Digest = 16"
  by (simp_all add: Sha1Digest_def Md5Digest_def)

lemma digest_names [simp]: "DIGEST_MD5 \<noteq> DIGEST_SHA_1" "DIGEST_SHA_1 \<noteq> DIGEST_MD5"
  by (simp_all add: DIGEST_MD5_def DIGEST_SHA_1_def)

lemma hmac_sha1:
  "length mem = 64 \<Longrightarrow> ComputeHmac mem DIGEST_SHA_1 key input n
     = (if n < 20 then [] else hmac sha1_digest key input)"
  using sha1_class.hmac [OF init_rep] by (simp add: ComputeHmac_def)

lemma hmac_md5:
  "length mem = 64 \<Longrightarrow> ComputeHmac mem DIGEST_MD5 key input n
     = (if n < 16 then [] else hmac md5_digest key input)"
  using md5_class.hmac [OF md5_init_rep] by (simp add: ComputeHmac_def)

lemma digest_md5:
  "length mem = 64 \<Longrightarrow> ComputeDigest mem DIGEST_MD5 input n
     = (if n < 16 then [] else md5_digest input)"
  using md5_class.digest [OF md5_init_rep] by (simp add: ComputeDigest_def)

lemma length_hmac [simp]:
  "length (hmac sha1_digest key input) = 20" "length (hmac md5_digest key input) = 16"
  by (simp_all add: hmac_def)

text \<open>
  C35.  \<^verbatim>\<open>ComputeHmac\<close> is the HMAC of RFC 2104 over the hash of the whole input, for each of the
  library's digests, whatever the memory of the new digest object held; keys longer than a
  block are hashed first, on the same object.  Nothing is written when the output is too small.
\<close>

theorem hmac_is_rfc2104:
  assumes "length mem = 64"
  shows "ComputeHmac mem alg key input n =
    (if alg = DIGEST_SHA_1 \<and> 20 \<le> n then hmac sha1_digest key input
     else if alg = DIGEST_MD5 \<and> 16 \<le> n then hmac md5_digest key input
     else [])"
proof (cases "alg = DIGEST_SHA_1 \<or> alg = DIGEST_MD5")
  case True
  then show ?thesis using assms by (auto simp: hmac_sha1 hmac_md5)
qed (simp add: ComputeHmac_def)

theorem hmac_is_rfc2104_witness:
  "ComputeHmac (replicate 64 1) DIGEST_MD5 [1, 2] [3] 16 = hmac md5_digest [1, 2] [3]"
  using hmac_is_rfc2104 [of "replicate 64 1" DIGEST_MD5 "[1, 2]" "[3]" 16] by simp

end
