(* ===== verification/Crc32.thy ===== *)
theory Crc32
  imports Prelude
begin

text \<open>
  \<^verbatim>\<open>base/crc32.cc\<close>: the table of \<^verbatim>\<open>EnsureCrc32TableInited\<close> and the byte loop of
  \<^verbatim>\<open>UpdateCrc32\<close>.  The table-driven loop computes the bit-serial CRC (\<open>crc_bits\<close>), and a
  message may be fed in pieces.
\<close>

definition kCrc32Polynomial :: uint32 where "kCrc32Polynomial = 0xEDB88320"

definition crc_shift :: "uint32 \<Rightarrow> uint32" where
  "crc_shift c = (if c AND 1 \<noteq> 0 then kCrc32Polynomial XOR drop_bit 1 c else drop_bit 1 c)"

definition crc_table_entry :: "nat \<Rightarrow> uint32" where
  "crc_table_entry i = (crc_shift ^^ 8) (of_nat i)"

definition kCrc32Table :: "uint32 list" where
  "kCrc32Table = map crc_table_entry [0..<256]"

definition crc_step :: "uint32 \<Rightarrow> uint8 \<Rightarrow> uint32" where
  "crc_step c u = kCrc32Table ! unat ((c XOR ucast u) AND 0xFF) XOR drop_bit 8 c"

definition UpdateCrc32 :: "uint32 \<Rightarrow> bytes \<Rightarrow> uint32" where
  "UpdateCrc32 start buf = foldl crc_step (start XOR 0xFFFFFFFF) buf XOR 0xFFFFFFFF"

definition ComputeCrc32 :: "bytes \<Rightarrow> uint32" where
  "ComputeCrc32 buf = UpdateCrc32 0 buf"

text \<open>The bit-serial CRC: add a byte to the register, then shift eight times.\<close>

definition crc_bits :: "bytes \<Rightarrow> uint32" where
  "crc_bits buf = foldl (\<lambda>c u. (crc_shift ^^ 8) (c XOR ucast u)) 0xFFFFFFFF buf XOR 0xFFFFFFFF"

lemma crc_shift_bit0: "crc_shift c = (if bit c 0 then kCrc32Polynomial XOR drop_bit 1 c else drop_bit 1 c)"
  by (simp add: crc_shift_def bit_0 and_one_eq odd_iff_mod_2_eq_one)

lemma crc_shift_xor: "crc_shift (a XOR b) = crc_shift a XOR crc_shift b"
  by (auto simp: crc_shift_bit0 bit_xor_iff drop_bit_xor ac_simps)

lemma crc_shift_funpow_xor: "(crc_shift ^^ n) (a XOR b) = (crc_shift ^^ n) a XOR (crc_shift ^^ n) b"
  by (induction n arbitrary: a b) (simp_all add: crc_shift_xor)

lemma crc_shift_low_clear:
  "(\<forall>i<n. \<not> bit y i) \<Longrightarrow> (crc_shift ^^ n) y = drop_bit n y"
proof (induction n arbitrary: y)
  case (Suc n)
  then have "crc_shift y = drop_bit 1 y" by (simp add: crc_shift_bit0)
  moreover have "\<forall>i<n. \<not> bit (drop_bit 1 y) i" using Suc.prems by (simp add: bit_simps)
  ultimately show ?case
    using Suc.IH [of "drop_bit 1 y"] by (simp add: funpow_swap1 drop_bit_drop_bit)
qed simp

lemma low_high_split:
  fixes x :: uint32
  assumes "\<And>i. bit m i \<longleftrightarrow> i < n"
  shows "x = (x AND m) XOR (x AND NOT m)" "\<forall>i<n. \<not> bit (x AND NOT m) i"
    "drop_bit n (x AND NOT m) = drop_bit n x"
proof -
  show "x = (x AND m) XOR (x AND NOT m)" by (rule bit_eqI) (auto simp: bit_simps assms)
  show "\<forall>i<n. \<not> bit (x AND NOT m) i" by (auto simp: bit_simps assms)
  show "drop_bit n (x AND NOT m) = drop_bit n x"
  proof (rule bit_eqI)
    fix k
    have "bit x (n + k) \<Longrightarrow> n + k < 32" using bit_imp_le_length [of x "n + k"] by simp
    then show "bit (drop_bit n (x AND NOT m)) k \<longleftrightarrow> bit (drop_bit n x) k"
      by (auto simp: bit_simps assms)
  qed
qed

lemma bit_255: "bit (0xFF :: uint32) i \<longleftrightarrow> i < 8"
  using bit_mask_iff [of 8 i, where 'a = uint32] by (auto simp: mask_eq_exp_minus_1)

lemma crc_step_bits: "crc_step c u = (crc_shift ^^ 8) (c XOR ucast u)"
proof -
  let ?x = "c XOR ucast u"
  let ?lo = "?x AND 0xFF" and ?hi = "?x AND NOT 0xFF"
  note sp = low_high_split [OF bit_255, of ?x]
  have "\<not> bit u i" if "8 \<le> i" for i using that bit_imp_le_length [of u i] by auto
  then have "drop_bit 8 ?x = drop_bit 8 c"
    by (intro bit_eqI) (auto simp: bit_simps)
  then have hi: "(crc_shift ^^ 8) ?hi = drop_bit 8 c"
    using crc_shift_low_clear [OF sp(2)] sp(3) by (simp only:)
  have "unat ?lo < 256"
    using word_and_le1 [of ?x "0xFF"] by (simp add: word_le_nat_alt)
  then have "kCrc32Table ! unat ?lo = (crc_shift ^^ 8) ?lo"
    by (simp add: kCrc32Table_def crc_table_entry_def)
  then have "crc_step c u = (crc_shift ^^ 8) ?lo XOR (crc_shift ^^ 8) ?hi"
    by (simp only: crc_step_def hi)
  also have "\<dots> = (crc_shift ^^ 8) ?x" by (subst (3) sp(1)) (simp only: crc_shift_funpow_xor)
  finally show ?thesis .
qed

lemma crc_compute_bits: "ComputeCrc32 buf = crc_bits buf"
  by (simp add: ComputeCrc32_def UpdateCrc32_def crc_bits_def crc_step_bits [abs_def])

lemma crc_pieces: "UpdateCrc32 (UpdateCrc32 start a) b = UpdateCrc32 start (a @ b)"
  by (simp add: UpdateCrc32_def xor.assoc)

text \<open>
  The table-driven \<^verbatim>\<open>ComputeCrc32\<close> is the bit-serial CRC-32, and feeding a message in
  pieces through \<^verbatim>\<open>UpdateCrc32\<close> gives the checksum of the whole.
\<close>

theorem crc32_table_is_bitserial:
  "ComputeCrc32 buf = crc_bits buf \<and> UpdateCrc32 (ComputeCrc32 a) b = ComputeCrc32 (a @ b)"
  by (simp add: crc_compute_bits [symmetric]) (simp add: ComputeCrc32_def crc_pieces)

end
