(* ===== verification/Stun.thy ===== *)
theory Stun
  imports StunTypes Digest Crc32
begin

text \<open>
  \<^verbatim>\<open>p2p/base/stun.cc\<close>: the remaining attribute classes, \<^verbatim>\<open>StunMessage\<close> with its parser and
  writer, and the checks of MESSAGE-INTEGRITY and FINGERPRINT.  A failed \<^verbatim>\<open>Read\<close> or
  \<^verbatim>\<open>Write\<close> is \<open>None\<close>: every caller then drops the message or the buffer.  The attribute
  objects that \<^verbatim>\<open>GetAddress\<close> and its kin return are values here.
\<close>

section \<open>Integers, strings, error codes and lists\<close>

definition UInt32_GetBit :: "uint32 \<Rightarrow> nat \<Rightarrow> bool" where
  "UInt32_GetBit bits index \<longleftrightarrow> drop_bit index bits AND 0x1 \<noteq> 0"

definition UInt32_SetBit :: "uint32 \<Rightarrow> nat \<Rightarrow> bool \<Rightarrow> uint32" where
  "UInt32_SetBit bits index value =
     (bits AND NOT (push_bit index 1)) OR (if value then push_bit index 1 else 0)"

definition attr_UInt32 :: "uint16 \<Rightarrow> uint32 \<Rightarrow> stun_attr" where
  "attr_UInt32 type value = \<lparr>at_type = type, at_length = 4, at_body = StunUInt32 value\<rparr>"

definition attr_UInt64 :: "uint16 \<Rightarrow> uint64 \<Rightarrow> stun_attr" where
  "attr_UInt64 type value = \<lparr>at_type = type, at_length = 8, at_body = StunUInt64 value\<rparr>"

definition attr_Address :: "uint16 \<Rightarrow> socket_address \<Rightarrow> stun_attr" where
  "attr_Address type addr =
     attr_SetAddress addr \<lparr>at_type = type, at_length = 0, at_body = StunAddress SocketAddress_nil\<rparr>"

definition attr_XorAddress :: "uint16 \<Rightarrow> socket_address \<Rightarrow> stun_attr" where
  "attr_XorAddress type addr =
     attr_SetAddress addr \<lparr>at_type = type, at_length = 0, at_body = StunXorAddress SocketAddress_nil\<rparr>"

text \<open>\<^verbatim>\<open>CopyBytes\<close> keeps all the bytes; \<^verbatim>\<open>SetLength\<close> keeps 16 bits of their number.\<close>

definition CopyBytes :: "bytes \<Rightarrow> stun_attr \<Rightarrow> stun_attr" where
  "CopyBytes bytes a = a\<lparr>at_body := StunByteString bytes, at_length := of_nat (length bytes)\<rparr>"

definition attr_ByteString :: "uint16 \<Rightarrow> bytes \<Rightarrow> stun_attr" where
  "attr_ByteString type bytes =
     CopyBytes bytes \<lparr>at_type = type, at_length = 0, at_body = StunByteString []\<rparr>"

definition ByteString_GetByte :: "bytes \<Rightarrow> nat \<Rightarrow> uint8" where
  "ByteString_GetByte bytes index = bytes ! index"

definition ByteString_SetByte :: "bytes \<Rightarrow> nat \<Rightarrow> uint8 \<Rightarrow> bytes" where
  "ByteString_SetByte bytes index value = bytes[index := value]"

definition ErrorCode_code :: "uint8 \<Rightarrow> uint8 \<Rightarrow> int" where
  "ErrorCode_code eclass number = uint eclass * 100 + uint number"

text \<open>C division of a code, which is not negative.\<close>

definition ErrorCode_SetCode :: "nat \<Rightarrow> uint8 \<times> uint8" where
  "ErrorCode_SetCode code = (of_nat (code div 100), of_nat (code mod 100))"

definition attr_ErrorCode :: "uint16 \<Rightarrow> nat \<Rightarrow> bytes \<Rightarrow> stun_attr" where
  "attr_ErrorCode type code reason =
     \<lparr>at_type = type, at_length = 4 + of_nat (length reason),
      at_body = StunErrorCode (fst (ErrorCode_SetCode code)) (snd (ErrorCode_SetCode code)) reason\<rparr>"

definition attr_CreateErrorCode :: stun_attr where
  "attr_CreateErrorCode = \<lparr>at_type = STUN_ATTR_ERROR_CODE, at_length = 4, at_body = StunErrorCode 0 0 []\<rparr>"

definition attr_CreateUnknownAttributes :: stun_attr where
  "attr_CreateUnknownAttributes =
     \<lparr>at_type = STUN_ATTR_UNKNOWN_ATTRIBUTES, at_length = 0, at_body = StunUInt16List []\<rparr>"

definition UInt16List_AddType :: "uint16 \<Rightarrow> stun_attr \<Rightarrow> stun_attr" where
  "UInt16List_AddType value a = (case at_body a of
     StunUInt16List types \<Rightarrow>
       a\<lparr>at_body := StunUInt16List (types @ [value]), at_length := of_nat (length (types @ [value]) * 2)\<rparr>
   | _ \<Rightarrow> a)"

fun read_types :: "nat \<Rightarrow> byte_buffer \<Rightarrow> (uint16 list \<times> byte_buffer) option" where
  "read_types 0 b = Some ([], b)"
| "read_types (Suc n) b =
     (case ReadUInt16 b of None \<Rightarrow> None | Some (t, b1) \<Rightarrow>
      case read_types n b1 of None \<Rightarrow> None | Some (ts, b2) \<Rightarrow> Some (t # ts, b2))"

definition StunUInt32Attribute_Read :: "stun_attr \<Rightarrow> byte_buffer \<Rightarrow> (stun_attr \<times> byte_buffer) option" where
  "StunUInt32Attribute_Read a b =
     (if at_length a \<noteq> 4 then None
      else case ReadUInt32 b of None \<Rightarrow> None
        | Some (bits, b1) \<Rightarrow> Some (a\<lparr>at_body := StunUInt32 bits\<rparr>, b1))"

definition StunUInt64Attribute_Read :: "stun_attr \<Rightarrow> byte_buffer \<Rightarrow> (stun_attr \<times> byte_buffer) option" where
  "StunUInt64Attribute_Read a b =
     (if at_length a \<noteq> 8 then None
      else case ReadUInt64 b of None \<Rightarrow> None
        | Some (bits, b1) \<Rightarrow> Some (a\<lparr>at_body := StunUInt64 bits\<rparr>, b1))"

definition StunByteStringAttribute_Read ::
    "stun_attr \<Rightarrow> byte_buffer \<Rightarrow> (stun_attr \<times> byte_buffer) option" where
  "StunByteStringAttribute_Read a b =
     (case ReadBytes b (unat (at_length a)) of None \<Rightarrow> None
      | Some (v, b1) \<Rightarrow> Some (a\<lparr>at_body := StunByteString v\<rparr>, ConsumePadding a b1))"

definition StunErrorCodeAttribute_Read ::
    "stun_attr \<Rightarrow> byte_buffer \<Rightarrow> (stun_attr \<times> byte_buffer) option" where
  "StunErrorCodeAttribute_Read a b =
     (if at_length a < 4 then None
      else case ReadUInt32 b of None \<Rightarrow> None
        | Some (val, b1) \<Rightarrow>
            (case ReadString b1 [] (unat (at_length a) - 4) of None \<Rightarrow> None
             | Some (reason, b2) \<Rightarrow>
                 Some (a\<lparr>at_body := StunErrorCode (ucast (drop_bit 8 val AND 0x7)) (ucast (val AND 0xff)) reason\<rparr>,
                   ConsumePadding a b2)))"

definition StunUInt16ListAttribute_Read ::
    "stun_attr \<Rightarrow> byte_buffer \<Rightarrow> (stun_attr \<times> byte_buffer) option" where
  "StunUInt16ListAttribute_Read a b =
     (if unat (at_length a) mod 2 \<noteq> 0 then None
      else case read_types (unat (at_length a) div 2) b of None \<Rightarrow> None
        | Some (types, b1) \<Rightarrow> Some (a\<lparr>at_body := StunUInt16List types\<rparr>, ConsumePadding a b1))"

text \<open>The virtual calls.\<close>

definition attr_Read :: "bytes option \<Rightarrow> stun_attr \<Rightarrow> byte_buffer \<Rightarrow> (stun_attr \<times> byte_buffer) option" where
  "attr_Read owner a b = (case at_body a of
     StunAddress _ \<Rightarrow> StunAddressAttribute_Read a b
   | StunXorAddress _ \<Rightarrow> StunXorAddressAttribute_Read owner a b
   | StunUInt32 _ \<Rightarrow> StunUInt32Attribute_Read a b
   | StunUInt64 _ \<Rightarrow> StunUInt64Attribute_Read a b
   | StunByteString _ \<Rightarrow> StunByteStringAttribute_Read a b
   | StunErrorCode _ _ _ \<Rightarrow> StunErrorCodeAttribute_Read a b
   | StunUInt16List _ \<Rightarrow> StunUInt16ListAttribute_Read a b)"

definition attr_Write :: "bytes option \<Rightarrow> stun_attr \<Rightarrow> byte_buffer \<Rightarrow> byte_buffer option" where
  "attr_Write owner a b = (case at_body a of
     StunAddress addr \<Rightarrow> StunAddressAttribute_Write addr b
   | StunXorAddress addr \<Rightarrow> StunXorAddressAttribute_Write owner addr b
   | StunUInt32 bits \<Rightarrow> Some (WriteUInt32 b bits)
   | StunUInt64 bits \<Rightarrow> Some (WriteUInt64 b bits)
   | StunByteString v \<Rightarrow> Some (WritePadding a (WriteBytes b (take (unat (at_length a)) v)))
   | StunErrorCode eclass number reason \<Rightarrow>
       Some (WritePadding a (WriteString (WriteUInt32 b (push_bit 8 (ucast eclass) OR ucast number)) reason))
   | StunUInt16List types \<Rightarrow> Some (WritePadding a (foldl WriteUInt16 b types)))"

section \<open>Messages\<close>

record stun_message =
  sm_kind :: stun_kind
  sm_type :: uint16
  sm_length :: uint16
  sm_tid :: bytes
  sm_attrs :: "stun_attr list"

definition EMPTY_TRANSACTION_ID :: bytes where "EMPTY_TRANSACTION_ID = replicate 16 48"

definition StunMessage_new :: "stun_kind \<Rightarrow> stun_message" where
  "StunMessage_new kind = \<lparr>sm_kind = kind, sm_type = 0, sm_length = 0, sm_tid = EMPTY_TRANSACTION_ID,
     sm_attrs = []\<rparr>"

definition IsLegacy :: "stun_message \<Rightarrow> bool" where
  "IsLegacy m \<longleftrightarrow> length (sm_tid m) = kStunLegacyTransactionIdLength"

definition IsValidTransactionId :: "bytes \<Rightarrow> bool" where
  "IsValidTransactionId tid \<longleftrightarrow>
     length tid = kStunTransactionIdLength \<or> length tid = kStunLegacyTransactionIdLength"

definition SetTransactionID :: "bytes \<Rightarrow> stun_message \<Rightarrow> bool \<times> stun_message" where
  "SetTransactionID str m =
     (if \<not> IsValidTransactionId str then (False, m) else (True, m\<lparr>sm_tid := str\<rparr>))"

definition SetType :: "int \<Rightarrow> stun_message \<Rightarrow> stun_message" where
  "SetType type m = m\<lparr>sm_type := word_of_int type\<rparr>"

definition padded_length :: "nat \<Rightarrow> nat" where
  "padded_length n = (if n mod 4 \<noteq> 0 then n + (4 - n mod 4) else n)"

definition AddAttribute :: "stun_attr \<Rightarrow> stun_message \<Rightarrow> bool \<times> stun_message" where
  "AddAttribute a m =
     (if body_value_type (at_body a) \<noteq> GetAttributeValueType (sm_kind m) (at_type a) then (False, m)
      else (True, m\<lparr>sm_attrs := sm_attrs m @ [a],
              sm_length := sm_length m + of_nat (padded_length (unat (at_length a)) + 4)\<rparr>))"

definition GetAttribute :: "stun_message \<Rightarrow> uint16 \<Rightarrow> stun_attr option" where
  "GetAttribute m type = List.find (\<lambda>a. at_type a = type) (sm_attrs m)"

text \<open>\<^verbatim>\<open>GetString\<close> and the values of the attributes with numbers.\<close>

definition attr_string :: "stun_attr \<Rightarrow> bytes" where
  "attr_string a = (case at_body a of StunByteString v \<Rightarrow> take (unat (at_length a)) v | _ \<Rightarrow> [])"

definition attr_value :: "stun_attr \<Rightarrow> uint32" where
  "attr_value a = (case at_body a of StunUInt32 v \<Rightarrow> v | _ \<Rightarrow> 0)"

definition attr_value64 :: "stun_attr \<Rightarrow> uint64" where
  "attr_value64 a = (case at_body a of StunUInt64 v \<Rightarrow> v | _ \<Rightarrow> 0)"

definition GetAddress :: "stun_message \<Rightarrow> uint16 \<Rightarrow> stun_attr option" where
  "GetAddress m type =
     (if type = STUN_ATTR_MAPPED_ADDRESS then
        (case GetAttribute m STUN_ATTR_MAPPED_ADDRESS of
           None \<Rightarrow> GetAttribute m STUN_ATTR_XOR_MAPPED_ADDRESS | Some a \<Rightarrow> Some a)
      else GetAttribute m type)"

definition GetErrorCode :: "stun_message \<Rightarrow> stun_attr option" where
  "GetErrorCode m = GetAttribute m STUN_ATTR_ERROR_CODE"

definition GetUnknownAttributes :: "stun_message \<Rightarrow> stun_attr option" where
  "GetUnknownAttributes m = GetAttribute m STUN_ATTR_UNKNOWN_ATTRIBUTES"

section \<open>Parsing\<close>

text \<open>How much the reads of an attribute leave in the buffer.\<close>

lemma ReadBytes_len: "ReadBytes b n = Some (v, b') \<Longrightarrow> bb_length b' + n = bb_length b"
  by (auto simp: ReadBytes_def bb_length_def split: if_splits)

lemma read_uint_len:
  "ReadUInt8 b = Some (x8, b') \<Longrightarrow> bb_length b' + 1 = bb_length b"
  "ReadUInt16 b = Some (x16, b') \<Longrightarrow> bb_length b' + 2 = bb_length b"
  "ReadUInt32 b = Some (x32, b') \<Longrightarrow> bb_length b' + 4 = bb_length b"
  "ReadUInt64 b = Some (x64, b') \<Longrightarrow> bb_length b' + 8 = bb_length b"
  by (auto simp: ReadUInt8_def ReadUInt16_def ReadUInt32_def ReadUInt64_def Let_def
      dest: ReadBytes_len split: option.splits)

lemma ReadString_len: "ReadString b u n = Some (v, b') \<Longrightarrow> bb_length b' + n = bb_length b"
  by (auto simp: ReadString_def bb_length_def split: if_splits)

lemma consume_len: "bb_consume b n = Some b' \<Longrightarrow> bb_length b' + n = bb_length b"
  by (auto simp: bb_consume_def bb_length_def split: if_splits)

lemma ConsumePadding_len: "bb_length (ConsumePadding a b) \<le> bb_length b"
  using consume_len [of b] by (force simp: ConsumePadding_def split: option.splits)

lemma read_types_len: "read_types n b = Some (ts, b') \<Longrightarrow> bb_length b' \<le> bb_length b"
proof (induction n arbitrary: b ts b')
  case (Suc n)
  then obtain t b1 ts1 where "ReadUInt16 b = Some (t, b1)" "read_types n b1 = Some (ts1, b')"
    by (auto split: option.splits)
  with Suc.IH [of b1 ts1 b'] read_uint_len(2) [of b t b1] show ?case by simp
qed simp

lemma address_read_len: "StunAddressAttribute_Read a b = Some (a', b') \<Longrightarrow> bb_length b' \<le> bb_length b"
  by (auto simp: StunAddressAttribute_Read_def split: option.splits if_splits
      dest!: read_uint_len ReadBytes_len)

lemma attr_Read_len: "attr_Read owner a b = Some (a', b') \<Longrightarrow> bb_length b' \<le> bb_length b"
  by (cases "at_body a")
     (auto simp: attr_Read_def StunXorAddressAttribute_Read_def StunUInt32Attribute_Read_def
        StunUInt64Attribute_Read_def StunByteStringAttribute_Read_def StunErrorCodeAttribute_Read_def
        StunUInt16ListAttribute_Read_def Let_def split: option.splits if_splits
      dest!: read_uint_len ReadBytes_len ReadString_len address_read_len read_types_len
      intro!: order_trans [OF ConsumePadding_len])

text \<open>The loop over the attributes: unknown types are skipped, the padding of their length
  computed in 16 bits.\<close>

definition skip_length :: "uint16 \<Rightarrow> uint16" where
  "skip_length n = (if unat n mod 4 \<noteq> 0 then n + of_nat (4 - unat n mod 4) else n)"

function read_attrs :: "stun_kind \<Rightarrow> bytes \<Rightarrow> nat \<Rightarrow> byte_buffer \<Rightarrow> stun_attr list
    \<Rightarrow> (stun_attr list \<times> byte_buffer) option" where
  "read_attrs kind tid rest b attrs =
     (if bb_length b > rest then
        (case ReadUInt16 b of None \<Rightarrow> None | Some (attr_type, b1) \<Rightarrow>
         case ReadUInt16 b1 of None \<Rightarrow> None | Some (attr_length, b2) \<Rightarrow>
           (case StunAttribute_Create (GetAttributeValueType kind attr_type) attr_type attr_length of
              None \<Rightarrow> (case bb_consume b2 (unat (skip_length attr_length)) of
                  None \<Rightarrow> None | Some b3 \<Rightarrow> read_attrs kind tid rest b3 attrs)
            | Some a \<Rightarrow> (case attr_Read (Some tid) a b2 of
                  None \<Rightarrow> None | Some (a', b3) \<Rightarrow> read_attrs kind tid rest b3 (attrs @ [a']))))
      else Some (attrs, b))"
  by pat_completeness auto
termination
  by (relation "measure (\<lambda>(kind, tid, rest, b, attrs). bb_length b)")
     (auto dest!: read_uint_len attr_Read_len consume_len)

declare read_attrs.simps [simp del]

definition StunMessage_Read :: "stun_message \<Rightarrow> byte_buffer \<Rightarrow> (stun_message \<times> byte_buffer) option" where
  "StunMessage_Read m b =
     (case ReadUInt16 b of None \<Rightarrow> None | Some (type, b1) \<Rightarrow>
      if type AND 0x8000 \<noteq> 0 then None
      else
      case ReadUInt16 b1 of None \<Rightarrow> None | Some (len, b2) \<Rightarrow>
      case ReadString b2 [] kStunMagicCookieLength of None \<Rightarrow> None | Some (magic_cookie, b3) \<Rightarrow>
      case ReadString b3 [] kStunTransactionIdLength of None \<Rightarrow> None | Some (transaction_id, b4) \<Rightarrow>
        let tid = (if NetworkToHost32 (host_word32 magic_cookie) \<noteq> kStunMagicCookie
                   then magic_cookie @ transaction_id else transaction_id)
        in if unat len \<noteq> bb_length b4 then None
           else (case read_attrs (sm_kind m) tid (bb_length b4 - unat len) b4 [] of None \<Rightarrow> None
             | Some (attrs, b5) \<Rightarrow>
                 Some (m\<lparr>sm_type := type, sm_length := len, sm_tid := tid, sm_attrs := attrs\<rparr>, b5)))"

section \<open>Writing\<close>

fun write_attrs :: "bytes \<Rightarrow> stun_attr list \<Rightarrow> byte_buffer \<Rightarrow> byte_buffer option" where
  "write_attrs tid [] b = Some b"
| "write_attrs tid (a # as) b =
     (case attr_Write (Some tid) a (WriteUInt16 (WriteUInt16 b (at_type a)) (at_length a)) of
        None \<Rightarrow> None | Some b1 \<Rightarrow> write_attrs tid as b1)"

definition StunMessage_Write :: "stun_message \<Rightarrow> byte_buffer \<Rightarrow> byte_buffer option" where
  "StunMessage_Write m b =
     (let b1 = WriteUInt16 (WriteUInt16 b (sm_type m)) (sm_length m);
          b2 = (if \<not> IsLegacy m then WriteUInt32 b1 kStunMagicCookie else b1)
      in write_attrs (sm_tid m) (sm_attrs m) (WriteString b2 (sm_tid m)))"

text \<open>The buffer after a \<^verbatim>\<open>Write\<close> into a new one whose result is ignored: an attribute that cannot be written leaves
  its type and its length.\<close>

fun written_attrs :: "bytes \<Rightarrow> stun_attr list \<Rightarrow> byte_buffer \<Rightarrow> byte_buffer" where
  "written_attrs tid [] b = b"
| "written_attrs tid (a # as) b =
     (let b1 = WriteUInt16 (WriteUInt16 b (at_type a)) (at_length a)
      in case attr_Write (Some tid) a b1 of None \<Rightarrow> b1 | Some b2 \<Rightarrow> written_attrs tid as b2)"

definition written_message :: "stun_message \<Rightarrow> byte_buffer" where
  "written_message m =
     (let b1 = WriteUInt16 (WriteUInt16 (bb_new ORDER_NETWORK) (sm_type m)) (sm_length m);
          b2 = (if \<not> IsLegacy m then WriteUInt32 b1 kStunMagicCookie else b1)
      in written_attrs (sm_tid m) (sm_attrs m) (WriteString b2 (sm_tid m)))"

end
