(* ===== verification/StunCodec.thy ===== *)
theory StunCodec
  imports Stun
begin

text \<open>
  What \<^verbatim>\<open>StunMessage::Write\<close> puts on the wire and that \<^verbatim>\<open>Read\<close> takes it back.
  \<open>message_bytes\<close> is the encoding; \<open>wf_message\<close> is what building a message with
  \<^verbatim>\<open>AddAttribute\<close> from complete attributes establishes: the declared lengths are those of
  the bodies and the message length is that of the attributes.
\<close>

section \<open>The encoding\<close>

definition ip_bytes :: "ip_address \<Rightarrow> bytes" where
  "ip_bytes ip = (case ip_family ip of
     AF_INET \<Rightarrow> SetLE32 (ipv4_address ip) | AF_INET6 \<Rightarrow> ip_u ip | AF_UNSPEC \<Rightarrow> [])"

definition padding_bytes :: "nat \<Rightarrow> bytes" where
  "padding_bytes n = replicate (padded_length n - n) 0"

definition address_bytes :: "stun_address_family \<Rightarrow> uint16 \<Rightarrow> ip_address \<Rightarrow> bytes" where
  "address_bytes fam port ip = [0, family_byte fam] @ SetBE16 port @ ip_bytes ip"

definition body_bytes :: "bytes \<Rightarrow> stun_attr \<Rightarrow> bytes" where
  "body_bytes tid a = (case at_body a of
     StunAddress addr \<Rightarrow> address_bytes (address_family addr) (sa_port addr) (sa_ip addr)
   | StunXorAddress addr \<Rightarrow> address_bytes (address_family addr) (xored_port (sa_port addr))
       (GetXoredIP (Some tid) (sa_ip addr))
   | StunUInt32 v \<Rightarrow> SetBE32 v
   | StunUInt64 v \<Rightarrow> SetBE64 v
   | StunByteString v \<Rightarrow> v @ padding_bytes (unat (at_length a))
   | StunErrorCode c n r \<Rightarrow> SetBE32 (push_bit 8 (ucast c) OR ucast n) @ r @ padding_bytes (unat (at_length a))
   | StunUInt16List ts \<Rightarrow> concat (map SetBE16 ts) @ padding_bytes (unat (at_length a)))"

definition attr_bytes :: "bytes \<Rightarrow> stun_attr \<Rightarrow> bytes" where
  "attr_bytes tid a = SetBE16 (at_type a) @ SetBE16 (at_length a) @ body_bytes tid a"

definition header_bytes :: "stun_message \<Rightarrow> bytes" where
  "header_bytes m = SetBE16 (sm_type m) @ SetBE16 (sm_length m)
     @ (if IsLegacy m then [] else SetBE32 kStunMagicCookie) @ sm_tid m"

definition message_bytes :: "stun_message \<Rightarrow> bytes" where
  "message_bytes m = header_bytes m @ concat (map (attr_bytes (sm_tid m)) (sm_attrs m))"

section \<open>Well-formed attributes and messages\<close>

definition wf_address :: "socket_address \<Rightarrow> bool" where
  "wf_address addr \<longleftrightarrow> ip_inv (sa_ip addr) \<and> ip_family (sa_ip addr) \<noteq> AF_UNSPEC
     \<and> addr = SocketAddress_ip (sa_ip addr) (sa_port addr)"

definition wf_attr :: "stun_kind \<Rightarrow> bytes \<Rightarrow> stun_attr \<Rightarrow> bool" where
  "wf_attr kind tid a \<longleftrightarrow> body_value_type (at_body a) = GetAttributeValueType kind (at_type a)
     \<and> (case at_body a of
          StunAddress addr \<Rightarrow> wf_address addr \<and> at_length a = EnsureAddressLength addr
        | StunXorAddress addr \<Rightarrow> wf_address addr \<and> at_length a = EnsureAddressLength addr
            \<and> (ip_family (sa_ip addr) = AF_INET6 \<longrightarrow> length tid = 12)
        | StunUInt32 v \<Rightarrow> at_length a = 4
        | StunUInt64 v \<Rightarrow> at_length a = 8
        | StunByteString v \<Rightarrow> unat (at_length a) = length v
        | StunErrorCode c n r \<Rightarrow> unat (at_length a) = 4 + length r \<and> c < 8
        | StunUInt16List ts \<Rightarrow> unat (at_length a) = 2 * length ts)"

definition attr_size :: "stun_attr \<Rightarrow> nat" where
  "attr_size a = padded_length (unat (at_length a)) + 4"

definition wf_message :: "stun_message \<Rightarrow> bool" where
  "wf_message m \<longleftrightarrow> sm_type m AND 0x8000 = 0 \<and> IsValidTransactionId (sm_tid m)
     \<and> (IsLegacy m \<longrightarrow> take 4 (sm_tid m) \<noteq> SetBE32 kStunMagicCookie)
     \<and> list_all (wf_attr (sm_kind m) (sm_tid m)) (sm_attrs m)
     \<and> unat (sm_length m) = sum_list (map attr_size (sm_attrs m))"

lemma wf_address_cases:
  assumes "wf_address addr"
  obtains (v4) w p where "addr = SocketAddress_ip (IPAddress_v4 w) p"
  | (v6) b p where "addr = SocketAddress_ip (IPAddress_v6 b) p" "length b = 16"
proof (cases "ip_family (sa_ip addr)")
  case AF_INET
  with assms v4 IPAddress_v4_rebuild show ?thesis by (metis wf_address_def)
next
  case AF_INET6
  then have "sa_ip addr = IPAddress_v6 (ip_u (sa_ip addr))" by (simp add: IPAddress_v6_def)
  with assms v6 show ?thesis by (metis wf_address_def ip_inv_def)
qed (use assms in \<open>simp add: wf_address_def\<close>)

lemma SocketAddress_ip_fields [simp]:
  "sa_ip (SocketAddress_ip ip p) = ip" "sa_port (SocketAddress_ip ip p) = p"
  by (simp_all add: SocketAddress_ip_def sa_SetIP_def sa_SetPort_def)

lemma address_family_ip [simp]:
  "address_family (SocketAddress_ip (IPAddress_v4 w) p) = STUN_ADDRESS_IPV4"
  "address_family (SocketAddress_ip (IPAddress_v6 b) p) = STUN_ADDRESS_IPV6"
  by (simp_all add: address_family_def)

lemma EnsureAddressLength_ip [simp]:
  "EnsureAddressLength (SocketAddress_ip (IPAddress_v4 w) p) = 8"
  "EnsureAddressLength (SocketAddress_ip (IPAddress_v6 b) p) = 20"
  by (simp_all add: EnsureAddressLength_def)

lemma ip_bytes_simps [simp]:
  "ip_bytes (IPAddress_v4 w) = SetLE32 w" "ip_bytes (IPAddress_v6 b) = b"
  by (simp_all add: ip_bytes_def)

section \<open>The XOR of addresses is its own inverse\<close>

lemma xored_port_twice [simp]: "xored_port (xored_port p) = p"
  by (simp add: xored_port_def xor.assoc)

lemma GetXoredIP_v4: "GetXoredIP (Some tid) (IPAddress_v4 w) = IPAddress_v4 (w XOR HostToNetwork32 kStunMagicCookie)"
  by (simp add: GetXoredIP_def)

lemma length16_words:
  assumes "length b = 16"
  shows "v6_of_ints (v6_as_ints b) = b"
proof -
  have four: "length (mem_read b (4 * i) 4) = 4" if "i < 4" for i using assms that by simp
  have "SetLE32 (GetLE32 (mem_read b (4 * i) 4)) = mem_read b (4 * i) 4" if "i < 4" for i
    using length4 [OF four [OF that]] SetLE32_GetLE32 by metis
  from this [of 0] this [of 1] this [of 2] this [of 3]
  have "v6_of_ints (v6_as_ints b) = take 4 b @ take 4 (drop 4 b) @ take 4 (drop 8 b) @ take 4 (drop 12 b)"
    by (simp add: v6_of_ints_def v6_as_ints_def upt4 mem_read_def)
  also have "\<dots> = b"
    using assms append_take_drop_id [of 4 b] append_take_drop_id [of 4 "drop 4 b"]
      append_take_drop_id [of 4 "drop 8 b"] by simp
  finally show ?thesis .
qed

lemma GetXoredIP_v6:
  assumes "length tid = 12"
  shows "\<exists>k0 k1 k2 k3. \<forall>w0 w1 w2 w3.
    GetXoredIP (Some tid) (IPAddress_v6 (v6_of_ints [w0, w1, w2, w3]))
      = IPAddress_v6 (v6_of_ints [w0 XOR k0, w1 XOR k1, w2 XOR k2, w3 XOR k3])"
  using assms
  by (auto simp: GetXoredIP_def kStunTransactionIdLength_def v6_as_of_ints Let_def)

lemma v6_words_exist: "length b = 16 \<Longrightarrow> \<exists>w0 w1 w2 w3. b = v6_of_ints [w0, w1, w2, w3]"
  using length16_words length4 [OF length_v6_as_ints] by metis

lemma GetXoredIP_v6_bytes:
  assumes "length tid = 12" and "length b = 16"
  shows "\<exists>c. length c = 16 \<and> GetXoredIP (Some tid) (IPAddress_v6 b) = IPAddress_v6 c
    \<and> GetXoredIP (Some tid) (IPAddress_v6 c) = IPAddress_v6 b"
proof -
  obtain k0 k1 k2 k3 where k: "\<forall>w0 w1 w2 w3.
    GetXoredIP (Some tid) (IPAddress_v6 (v6_of_ints [w0, w1, w2, w3]))
      = IPAddress_v6 (v6_of_ints [w0 XOR k0, w1 XOR k1, w2 XOR k2, w3 XOR k3])"
    using GetXoredIP_v6 [OF assms(1)] by blast
  obtain w0 w1 w2 w3 where b: "b = v6_of_ints [w0, w1, w2, w3]"
    using v6_words_exist [OF assms(2)] by blast
  let ?c = "v6_of_ints [w0 XOR k0, w1 XOR k1, w2 XOR k2, w3 XOR k3]"
  have "length ?c = 16" by (rule length_v6_of_ints)
  moreover have "GetXoredIP (Some tid) (IPAddress_v6 b) = IPAddress_v6 ?c" using k b by blast
  moreover have "GetXoredIP (Some tid) (IPAddress_v6 ?c) = IPAddress_v6 b"
    by (simp add: k [rule_format] b xor.assoc)
  ultimately show ?thesis by blast
qed

section \<open>Writing\<close>

text \<open>\<open>emits b b' v\<close>: \<open>b'\<close> is \<open>b\<close> with the bytes \<open>v\<close> appended.\<close>

definition emits :: "byte_buffer \<Rightarrow> byte_buffer option \<Rightarrow> bytes \<Rightarrow> bool" where
  "emits b r v \<longleftrightarrow> (\<exists>b'. r = Some b' \<and> bb_net b' \<and> bb_data b' = bb_data b @ v)"

lemma emitsI: "bb_net b' \<Longrightarrow> bb_data b' = bb_data b @ v \<Longrightarrow> emits b (Some b') v"
  by (simp add: emits_def)

lemma WritePadding_bytes:
  "bb_net b \<Longrightarrow> bb_net (WritePadding a b)
    \<and> bb_data (WritePadding a b) = bb_data b @ padding_bytes (unat (at_length a))"
  by (simp add: WritePadding_def padding_bytes_def padded_length_def)

lemmas WritePadding_simps [simp] =
  WritePadding_bytes [THEN conjunct1] WritePadding_bytes [THEN conjunct2]

lemma write_types [simp]:
  "bb_net b \<Longrightarrow> bb_net (foldl WriteUInt16 b ts)"
  "bb_net b \<Longrightarrow> bb_data (foldl WriteUInt16 b ts) = bb_data b @ concat (map SetBE16 ts)"
  by (induction ts arbitrary: b) simp_all

lemma write_ip_bytes [simp]:
  "bb_net b \<Longrightarrow> bb_net (write_ip ip b)" "bb_net b \<Longrightarrow> bb_data (write_ip ip b) = bb_data b @ ip_bytes ip"
  by (simp_all add: write_ip_def ip_bytes_def ipv6_address_def split: ip_family.split)

lemma wf_address_families:
  assumes "wf_address addr"
  shows "address_family addr \<noteq> STUN_ADDRESS_UNDEF"
    and "(ip_family (sa_ip addr) = AF_INET6 \<longrightarrow> length tid = 12) \<Longrightarrow>
           ip_family (GetXoredIP (Some tid) (sa_ip addr)) \<noteq> AF_UNSPEC"
  using assms GetXoredIP_v6_bytes [of tid]
  by (cases addr rule: wf_address_cases; force simp: GetXoredIP_v4)+

lemma attr_Write_emits:
  assumes "wf_attr kind tid a" and "bb_net b"
  shows "emits b (attr_Write (Some tid) a b) (body_bytes tid a)"
  using assms wf_address_families
  by (cases "at_body a")
     (auto simp: wf_attr_def attr_Write_def body_bytes_def address_bytes_def
        StunAddressAttribute_Write_def StunXorAddressAttribute_Write_def Let_def intro!: emitsI)

lemma write_attrs_emits:
  "list_all (wf_attr kind tid) as \<Longrightarrow> bb_net b \<Longrightarrow>
    emits b (write_attrs tid as b) (concat (map (attr_bytes tid) as))"
proof (induction as arbitrary: b)
  case (Cons a as)
  let ?b = "WriteUInt16 (WriteUInt16 b (at_type a)) (at_length a)"
  have "emits ?b (attr_Write (Some tid) a ?b) (body_bytes tid a)"
    using Cons.prems by (intro attr_Write_emits) auto
  then obtain b1 where b1: "attr_Write (Some tid) a ?b = Some b1" "bb_net b1"
    "bb_data b1 = bb_data ?b @ body_bytes tid a" by (auto simp: emits_def)
  from Cons.IH [of b1] Cons.prems(1) b1(2)
  have "emits b1 (write_attrs tid as b1) (concat (map (attr_bytes tid) as))" by simp
  then show ?case using b1 Cons.prems(2) by (auto simp: emits_def attr_bytes_def [of tid a])
qed (simp add: emits_def)

lemma StunMessage_Write_emits:
  assumes "wf_message m" and "bb_net b"
  shows "emits b (StunMessage_Write m b) (message_bytes m)"
proof -
  let ?b1 = "WriteUInt16 (WriteUInt16 b (sm_type m)) (sm_length m)"
  let ?b3 = "WriteString (if \<not> IsLegacy m then WriteUInt32 ?b1 kStunMagicCookie else ?b1) (sm_tid m)"
  have b3: "bb_net ?b3" "bb_data ?b3 = bb_data b @ header_bytes m"
    using assms(2) by (simp_all add: header_bytes_def)
  have "list_all (wf_attr (sm_kind m) (sm_tid m)) (sm_attrs m)"
    using assms(1) by (simp add: wf_message_def)
  from write_attrs_emits [OF this b3(1)] b3(2) show ?thesis
    by (auto simp: StunMessage_Write_def emits_def message_bytes_def Let_def)
qed

section \<open>Reading\<close>

lemma parses_intro: "rd b = Some (v, b') \<Longrightarrow> bb_net b' \<Longrightarrow> bb_data b' = r \<Longrightarrow> parses rd b v r"
  by (auto simp: parses_def)

lemma length_padding_bytes [simp]: "length (padding_bytes n) = padded_length n - n"
  by (simp add: padding_bytes_def)

lemma ConsumePadding_bytes:
  assumes "bb_net b" and "bb_data b = padding_bytes (unat (at_length a)) @ r"
  shows "bb_net (ConsumePadding a b) \<and> bb_data (ConsumePadding a b) = r"
proof (cases "unat (at_length a) mod 4 > 0")
  case True
  let ?n = "4 - unat (at_length a) mod 4"
  have "length (padding_bytes (unat (at_length a))) = ?n" using True by (simp add: padded_length_def)
  from parses_ReadBytes [OF assms this] obtain b' where
    "ReadBytes b ?n = Some (padding_bytes (unat (at_length a)), b')" "bb_net b'" "bb_data b' = r"
    by (auto elim: parsesE)
  then show ?thesis using True by (simp add: ConsumePadding_def bb_consume_ReadBytes)
next
  case False
  then show ?thesis using assms by (simp add: ConsumePadding_def padding_bytes_def padded_length_def)
qed

text \<open>The address part, common to the two address attributes.\<close>

lemma address_Read_parses:
  assumes b: "bb_net b" "bb_data b = address_bytes fam port ip @ r"
    and ip: "(fam = STUN_ADDRESS_IPV4 \<and> ip = IPAddress_v4 w \<and> at_length a = 8)
      \<or> (fam = STUN_ADDRESS_IPV6 \<and> ip = IPAddress_v6 c \<and> length c = 16 \<and> at_length a = 20)"
  shows "parses (StunAddressAttribute_Read a) b (attr_SetAddress (SocketAddress_ip ip port) a) r"
proof -
  have d: "bb_data b = 0 # family_byte fam # SetBE16 port @ ip_bytes ip @ r"
    using b(2) by (simp add: address_bytes_def)
  obtain b1 where b1: "ReadUInt8 b = Some (0, b1)" "bb_net b1"
    "bb_data b1 = family_byte fam # SetBE16 port @ ip_bytes ip @ r"
    using parses_ReadUInt8 [OF b(1) d] by (rule parsesE)
  obtain b2 where b2: "ReadUInt8 b1 = Some (family_byte fam, b2)" "bb_net b2"
    "bb_data b2 = SetBE16 port @ ip_bytes ip @ r"
    using parses_ReadUInt8 [OF b1(2,3)] by (rule parsesE)
  obtain b3 where b3: "ReadUInt16 b2 = Some (port, b3)" "bb_net b3" "bb_data b3 = ip_bytes ip @ r"
    using parses_ReadUInt16 [OF b2(2,3)] by (rule parsesE)
  from ip show ?thesis
  proof
    assume v4: "fam = STUN_ADDRESS_IPV4 \<and> ip = IPAddress_v4 w \<and> at_length a = 8"
    then have "length (ip_bytes ip) = 4" by simp
    from parses_ReadBytes [OF b3(2,3) this] obtain b4 where
      "ReadBytes b3 4 = Some (ip_bytes ip, b4)" "bb_net b4" "bb_data b4 = r" by (auto elim: parsesE)
    then show ?thesis
      using b1(1) b2(1) b3(1) v4 by (intro parses_intro) (simp_all add: StunAddressAttribute_Read_def)
  next
    assume v6: "fam = STUN_ADDRESS_IPV6 \<and> ip = IPAddress_v6 c \<and> length c = 16 \<and> at_length a = 20"
    then have "length (ip_bytes ip) = 16" by simp
    from parses_ReadBytes [OF b3(2,3) this] obtain b4 where
      "ReadBytes b3 16 = Some (ip_bytes ip, b4)" "bb_net b4" "bb_data b4 = r" by (auto elim: parsesE)
    then show ?thesis
      using b1(1) b2(1) b3(1) v6 by (intro parses_intro) (simp_all add: StunAddressAttribute_Read_def)
  qed
qed

text \<open>The attribute object that \<^verbatim>\<open>CreateAttribute\<close> makes for an attribute on the wire.\<close>

definition blank :: "stun_attr \<Rightarrow> stun_attr" where
  "blank a = a\<lparr>at_body := (case at_body a of
     StunAddress _ \<Rightarrow> StunAddress SocketAddress_nil
   | StunXorAddress _ \<Rightarrow> StunXorAddress SocketAddress_nil
   | StunUInt32 _ \<Rightarrow> StunUInt32 0 | StunUInt64 _ \<Rightarrow> StunUInt64 0
   | StunByteString _ \<Rightarrow> StunByteString [] | StunErrorCode _ _ _ \<Rightarrow> StunErrorCode 0 0 []
   | StunUInt16List _ \<Rightarrow> StunUInt16List [])\<rparr>"

lemma Create_blank:
  "wf_attr kind tid a \<Longrightarrow>
    StunAttribute_Create (GetAttributeValueType kind (at_type a)) (at_type a) (at_length a) = Some (blank a)"
  by (cases a; cases "at_body a")
     (auto simp: wf_attr_def StunAttribute_Create_def blank_def dest!: sym [of _ "GetAttributeValueType kind _"])

lemma blank_length [simp]: "at_length (blank a) = at_length a" "at_type (blank a) = at_type a"
  by (simp_all add: blank_def)

lemma read_types_parses:
  "bb_net b \<Longrightarrow> bb_data b = concat (map SetBE16 ts) @ r \<Longrightarrow> parses (read_types (length ts)) b ts r"
proof (induction ts arbitrary: b)
  case (Cons t ts)
  from Cons.prems(2) have "bb_data b = SetBE16 t @ (concat (map SetBE16 ts) @ r)" by simp
  from parses_ReadUInt16 [OF Cons.prems(1) this] obtain b1 where b1: "ReadUInt16 b = Some (t, b1)"
    "bb_net b1" "bb_data b1 = concat (map SetBE16 ts) @ r" by (rule parsesE)
  from Cons.IH [OF b1(2,3)] b1(1) show ?case by (auto simp: parses_def)
qed (simp add: parses_def)

lemma error_word:
  fixes c n :: uint8
  assumes "c < 8"
  defines "val \<equiv> push_bit 8 (ucast c) OR ucast n :: uint32"
  shows "ucast (drop_bit 8 val AND 7) = c" and "ucast (val AND 255) = n"
proof -
  have m: "(7 :: uint32) = mask 3" "(255 :: uint32) = mask 8" by (simp_all add: mask_eq_exp_minus_1)
  have "unat c < 8" using assms(1) by (simp add: word_less_nat_alt)
  then have "unat (take_bit 3 c) = unat c" by (simp only: unsigned_take_bit_eq) (simp add: take_bit_eq_mod)
  then have "take_bit 3 c = c" by (simp only: word_unat_eq_iff)
  then have c: "bit c i \<Longrightarrow> i < 3" for i by (metis bit_take_bit_iff)
  show "ucast (drop_bit 8 val AND 7) = c"
    by (rule bit_word_eqI)
       (use c in \<open>auto simp only: m val_def bit_simps; auto simp: bit_simps\<close>)
  show "ucast (val AND 255) = n"
    by (rule bit_word_eqI) (auto simp only: m val_def bit_simps; auto simp: bit_simps)
qed

lemma attr_Read_parses:
  assumes wf: "wf_attr kind tid a" and b: "bb_net b" "bb_data b = body_bytes tid a @ r"
  shows "parses (attr_Read (Some tid) (blank a)) b a r"
proof (cases "at_body a")
  case (StunAddress addr)
  then have wa: "wf_address addr" and len: "at_length a = EnsureAddressLength addr"
    using wf by (simp_all add: wf_attr_def)
  have d: "bb_data b = address_bytes (address_family addr) (sa_port addr) (sa_ip addr) @ r"
    using b(2) StunAddress by (simp add: body_bytes_def)
  have "parses (StunAddressAttribute_Read (blank a)) b
      (attr_SetAddress (SocketAddress_ip (sa_ip addr) (sa_port addr)) (blank a)) r"
    using address_Read_parses [OF b(1) d, of _ "blank a"] len
    by (cases rule: wf_address_cases [OF wa]) auto
  moreover have "attr_SetAddress (SocketAddress_ip (sa_ip addr) (sa_port addr)) (blank a) = a"
    using wa len StunAddress by (cases a) (simp add: attr_SetAddress_def blank_def wf_address_def)
  ultimately show ?thesis using StunAddress by (simp add: parses_def attr_Read_def blank_def)
next
  case (StunXorAddress addr)
  let ?x = "GetXoredIP (Some tid) (sa_ip addr)"
  from StunXorAddress have wa: "wf_address addr" and len: "at_length a = EnsureAddressLength addr"
    and v6: "ip_family (sa_ip addr) = AF_INET6 \<longrightarrow> length tid = 12"
    using wf by (simp_all add: wf_attr_def)
  have d: "bb_data b = address_bytes (address_family addr) (xored_port (sa_port addr)) ?x @ r"
    using b(2) StunXorAddress by (simp add: body_bytes_def)
  have rd: "parses (StunAddressAttribute_Read (blank a)) b
      (attr_SetAddress (SocketAddress_ip ?x (xored_port (sa_port addr))) (blank a)) r
    \<and> GetXoredIP (Some tid) ?x = sa_ip addr"
    using wa
  proof (cases rule: wf_address_cases)
    case (v4 w p)
    then show ?thesis
      using address_Read_parses [OF b(1) d, of "w XOR HostToNetwork32 kStunMagicCookie" "blank a"] len
      by (simp add: GetXoredIP_v4 xor.assoc)
  next
    case (v6 c p)
    with GetXoredIP_v6_bytes [of tid c] StunXorAddress wf obtain c' where
      "length c' = 16" "?x = IPAddress_v6 c'" "GetXoredIP (Some tid) (IPAddress_v6 c') = IPAddress_v6 c"
      by (auto simp: wf_attr_def)
    then show ?thesis using address_Read_parses [OF b(1) d, of _ "blank a" c'] len v6 by simp
  qed
  moreover have "attr_SetAddress (SocketAddress_ip (sa_ip addr) (sa_port addr))
      (attr_SetAddress (SocketAddress_ip ?x q) (blank a)) = a" for q
    using wa len StunXorAddress by (cases a) (simp add: attr_SetAddress_def blank_def wf_address_def)
  ultimately show ?thesis using StunXorAddress
    by (auto simp: parses_def attr_Read_def blank_def StunXorAddressAttribute_Read_def Let_def
        attr_SetAddress_def)
next
  case (StunUInt32 v)
  from parses_ReadUInt32 [OF b(1), of v r] b(2) StunUInt32 obtain b1 where
    "ReadUInt32 b = Some (v, b1)" "bb_net b1" "bb_data b1 = r"
    by (auto simp: body_bytes_def elim: parsesE)
  then show ?thesis using StunUInt32 wf
    by (cases a) (auto simp: parses_def attr_Read_def blank_def StunUInt32Attribute_Read_def wf_attr_def)
next
  case (StunUInt64 v)
  from parses_ReadUInt64 [OF b(1), of v r] b(2) StunUInt64 obtain b1 where
    "ReadUInt64 b = Some (v, b1)" "bb_net b1" "bb_data b1 = r"
    by (auto simp: body_bytes_def elim: parsesE)
  then show ?thesis using StunUInt64 wf
    by (cases a) (auto simp: parses_def attr_Read_def blank_def StunUInt64Attribute_Read_def wf_attr_def)
next
  case (StunByteString v)
  from StunByteString have "bb_data b = v @ (padding_bytes (unat (at_length a)) @ r)"
    and len: "length v = unat (at_length a)" using b(2) wf by (simp_all add: body_bytes_def wf_attr_def)
  from parses_ReadBytes [OF b(1) this] obtain b1 where
    "ReadBytes b (unat (at_length a)) = Some (v, b1)" "bb_net b1"
    "bb_data b1 = padding_bytes (unat (at_length a)) @ r" by (auto elim: parsesE)
  then show ?thesis using StunByteString ConsumePadding_bytes [of b1 "blank a" r]
    by (simp add: parses_def attr_Read_def blank_def StunByteStringAttribute_Read_def)
next
  case (StunErrorCode c n v)
  let ?val = "push_bit 8 (ucast c) OR ucast n :: uint32"
  from StunErrorCode have d: "bb_data b = SetBE32 ?val @ (v @ padding_bytes (unat (at_length a)) @ r)"
    and len: "unat (at_length a) = 4 + length v" and c: "c < 8"
    using b(2) wf by (simp_all add: body_bytes_def wf_attr_def)
  from parses_ReadUInt32 [OF b(1) d] obtain b1 where b1: "ReadUInt32 b = Some (?val, b1)" "bb_net b1"
    "bb_data b1 = v @ (padding_bytes (unat (at_length a)) @ r)" by (auto elim: parsesE)
  have "length v = unat (at_length a) - 4" using len by simp
  from parses_ReadString [OF b1(2,3) this, of "[]"] obtain b2 where
    "ReadString b1 [] (unat (at_length a) - 4) = Some (v, b2)" "bb_net b2"
    "bb_data b2 = padding_bytes (unat (at_length a)) @ r" by (auto elim: parsesE)
  moreover have "\<not> at_length a < 4" using len by (simp add: word_less_nat_alt)
  ultimately show ?thesis using StunErrorCode b1(1) ConsumePadding_bytes [of b2 "blank a" r]
    by (simp add: parses_def attr_Read_def blank_def StunErrorCodeAttribute_Read_def error_word [OF c]
        del: drop_bit_or)
next
  case (StunUInt16List ts)
  from StunUInt16List have d: "bb_data b = concat (map SetBE16 ts) @ (padding_bytes (unat (at_length a)) @ r)"
    and len: "unat (at_length a) = 2 * length ts" using b(2) wf by (simp_all add: body_bytes_def wf_attr_def)
  from read_types_parses [OF b(1) d] obtain b1 where
    "read_types (length ts) b = Some (ts, b1)" "bb_net b1"
    "bb_data b1 = padding_bytes (unat (at_length a)) @ r" by (auto elim: parsesE)
  then show ?thesis using StunUInt16List len ConsumePadding_bytes [of b1 "blank a" r]
    by (simp add: parses_def attr_Read_def blank_def StunUInt16ListAttribute_Read_def)
qed

lemma padded_length_pos: "n \<le> padded_length n"
  unfolding padded_length_def by (rule order_trans [of _ "n + (if n mod 4 \<noteq> 0 then 4 - n mod 4 else 0)"]) simp_all

lemma length_types [simp]: "length (concat (map SetBE16 ts)) = 2 * length ts"
  by (induction ts) simp_all

lemma length_body_bytes:
  assumes "wf_attr kind tid a"
  shows "length (body_bytes tid a) = padded_length (unat (at_length a))"
proof -
  have addr: "wf_address addr \<Longrightarrow> length (address_bytes (address_family addr) p (sa_ip addr))
      = padded_length (unat (EnsureAddressLength addr))" for addr p
    by (erule wf_address_cases) (simp_all add: address_bytes_def padded_length_def)
  have xor: "wf_address addr \<Longrightarrow> (ip_family (sa_ip addr) = AF_INET6 \<longrightarrow> length tid = 12) \<Longrightarrow>
      length (address_bytes (address_family addr) p (GetXoredIP (Some tid) (sa_ip addr)))
      = padded_length (unat (EnsureAddressLength addr))" for addr p
  proof (erule wf_address_cases)
    fix b q
    assume "ip_family (sa_ip addr) = AF_INET6 \<longrightarrow> length tid = 12"
      "addr = SocketAddress_ip (IPAddress_v6 b) q" "length b = 16"
    with GetXoredIP_v6_bytes [of tid b] show ?thesis
      by (auto simp: address_bytes_def padded_length_def)
  qed (simp add: address_bytes_def padded_length_def GetXoredIP_v4)
  show ?thesis
    using assms padded_length_pos [of "unat (at_length a)"]
    by (cases "at_body a")
       (auto simp: body_bytes_def wf_attr_def addr xor padded_length_def)
qed

lemma read_attrs_parses:
  "list_all (wf_attr kind tid) as \<Longrightarrow> bb_net b \<Longrightarrow> bb_data b = concat (map (attr_bytes tid) as) \<Longrightarrow>
    parses (\<lambda>b. read_attrs kind tid 0 b attrs) b (attrs @ as) []"
proof (induction as arbitrary: b attrs)
  case Nil
  then have "bb_length b = 0" using length_bb_data [of b] by (simp add: bb_net_def)
  then show ?case using Nil by (simp add: parses_def read_attrs.simps [of kind tid 0 b])
next
  case (Cons a as)
  let ?r = "concat (map (attr_bytes tid) as)"
  have wf: "wf_attr kind tid a" using Cons.prems(1) by simp
  have d: "bb_data b = SetBE16 (at_type a) @ (SetBE16 (at_length a) @ (body_bytes tid a @ ?r))"
    using Cons.prems(3) by (simp add: attr_bytes_def [of tid a])
  from parses_ReadUInt16 [OF Cons.prems(2) d] obtain b1 where b1:
    "ReadUInt16 b = Some (at_type a, b1)" "bb_net b1"
    "bb_data b1 = SetBE16 (at_length a) @ (body_bytes tid a @ ?r)" by (rule parsesE)
  from parses_ReadUInt16 [OF b1(2,3)] obtain b2 where b2:
    "ReadUInt16 b1 = Some (at_length a, b2)" "bb_net b2" "bb_data b2 = body_bytes tid a @ ?r"
    by (rule parsesE)
  from attr_Read_parses [OF wf b2(2,3)] obtain b3 where b3:
    "attr_Read (Some tid) (blank a) b2 = Some (a, b3)" "bb_net b3" "bb_data b3 = ?r"
    by (rule parsesE)
  have "0 < bb_length b" using length_bb_data [of b] Cons.prems(2) d by (simp add: bb_net_def)
  then have "read_attrs kind tid 0 b attrs = read_attrs kind tid 0 b3 (attrs @ [a])"
    using b1(1) b2(1) b3(1) by (simp add: read_attrs.simps [of kind tid 0 b] Create_blank [OF wf])
  with Cons.IH [of b3 "attrs @ [a]"] Cons.prems(1) b3 show ?case by (simp add: parses_def)
qed

lemma cookie_read: "NetworkToHost32 (host_word32 (SetBE32 kStunMagicCookie)) = kStunMagicCookie"
  by simp

lemma cookie_only:
  assumes "length x = 4" and "NetworkToHost32 (host_word32 x) = kStunMagicCookie"
  shows "x = SetBE32 kStunMagicCookie"
proof -
  obtain a b c d where x: "x = [a, b, c, d]" using length4 [OF assms(1)] by blast
  have "GetBE32 [a, b, c, d] = kStunMagicCookie" using assms(2) by (simp add: x NetworkToHost32_bytes)
  then show ?thesis using SetBE32_GetBE32 [of a b c d] by (simp add: x)
qed

lemma length_attrs:
  "list_all (wf_attr kind tid) as \<Longrightarrow>
    length (concat (map (attr_bytes tid) as)) = sum_list (map attr_size as)"
  by (induction as) (auto simp: attr_bytes_def attr_size_def dest!: length_body_bytes)

lemma StunMessage_Read_parses:
  assumes wf: "wf_message m" and b: "bb_net b" "bb_data b = message_bytes m"
    and m0: "sm_kind m0 = sm_kind m"
  shows "parses (StunMessage_Read m0) b m []"
proof -
  let ?as = "concat (map (attr_bytes (sm_tid m)) (sm_attrs m))"
  let ?id = "(if IsLegacy m then [] else SetBE32 kStunMagicCookie) @ sm_tid m"
  have valid: "length (sm_tid m) = 12 \<or> length (sm_tid m) = 16"
    using wf by (simp add: wf_message_def IsValidTransactionId_def kStunTransactionIdLength_def
        kStunLegacyTransactionIdLength_def)
  have legacy: "IsLegacy m \<longleftrightarrow> length (sm_tid m) = 16"
    by (simp add: IsLegacy_def kStunLegacyTransactionIdLength_def)
  have id: "length ?id = 16" using valid legacy by auto
  have d: "bb_data b = SetBE16 (sm_type m) @ (SetBE16 (sm_length m) @ (?id @ ?as))"
    using b(2) by (simp add: message_bytes_def header_bytes_def)
  from parses_ReadUInt16 [OF b(1) d] obtain b1 where b1: "ReadUInt16 b = Some (sm_type m, b1)"
    "bb_net b1" "bb_data b1 = SetBE16 (sm_length m) @ (?id @ ?as)" by (rule parsesE)
  from parses_ReadUInt16 [OF b1(2,3)] obtain b2 where b2: "ReadUInt16 b1 = Some (sm_length m, b2)"
    "bb_net b2" "bb_data b2 = ?id @ ?as" by (rule parsesE)
  have "bb_data b2 = take 4 ?id @ (drop 4 ?id @ ?as)" using b2(3)
    by (metis append_assoc append_take_drop_id)
  moreover have l4: "length (take 4 ?id) = 4" and l12: "length (drop 4 ?id) = 12"
    using id by (simp_all only: length_take length_drop)
  ultimately obtain b3 where b3: "ReadString b2 [] 4 = Some (take 4 ?id, b3)" "bb_net b3"
    "bb_data b3 = drop 4 ?id @ ?as"
    using parses_ReadString [OF b2(2) _ l4, of _ "[]", unfolded append_Nil] by (metis parsesE)
  obtain b4 where b4: "ReadString b3 [] 12 = Some (drop 4 ?id, b4)" "bb_net b4" "bb_data b4 = ?as"
    using parses_ReadString [OF b3(2,3) l12, of "[]", unfolded append_Nil] by (rule parsesE)
  have tid: "(if NetworkToHost32 (host_word32 (take 4 ?id)) \<noteq> kStunMagicCookie
       then take 4 ?id @ drop 4 ?id else drop 4 ?id) = sm_tid m"
  proof (cases "IsLegacy m")
    case True
    then have "take 4 (sm_tid m) \<noteq> SetBE32 kStunMagicCookie" "length (take 4 (sm_tid m)) = 4"
      using wf legacy by (simp_all add: wf_message_def)
    then have "NetworkToHost32 (host_word32 (take 4 (sm_tid m))) \<noteq> kStunMagicCookie"
      using cookie_only by blast
    then show ?thesis using True by simp
  qed simp
  have attrs: "list_all (wf_attr (sm_kind m) (sm_tid m)) (sm_attrs m)"
    using wf by (simp add: wf_message_def)
  have len: "unat (sm_length m) = length ?as"
    using wf length_attrs [OF attrs] by (simp add: wf_message_def)
  have lb4: "bb_length b4 = length ?as" using length_bb_data [of b4] b4 by (simp add: bb_net_def)
  from read_attrs_parses [OF attrs b4(2,3), of "[]"] obtain b5 where b5:
    "read_attrs (sm_kind m) (sm_tid m) 0 b4 [] = Some (sm_attrs m, b5)" "bb_net b5" "bb_data b5 = []"
    by (auto elim: parsesE)
  have "sm_type m AND 0x8000 = 0" using wf by (simp add: wf_message_def)
  moreover define x where "x = take 4 ?id"
  moreover define y where "y = drop 4 ?id"
  ultimately have "StunMessage_Read m0 b = Some (m0\<lparr>sm_type := sm_type m, sm_length := sm_length m,
      sm_tid := sm_tid m, sm_attrs := sm_attrs m\<rparr>, b5)"
    using b1(1) b2(1) b3(1) [folded x_def] b4(1) [folded y_def] b5(1) tid [folded x_def y_def] len lb4 m0
    by (simp only: StunMessage_Read_def Let_def option.case prod.case kStunMagicCookieLength_def
        kStunTransactionIdLength_def if_False simp_thms diff_self_eq_0)
  then show ?thesis using b5 m0 by (cases m; cases m0) (simp add: parses_def)
qed

section \<open>Building messages\<close>

lemma wf_new: "wf_message (StunMessage_new kind)"
proof -
  have "hd (SetBE32 kStunMagicCookie) = 0x21" by (simp add: SetBE32_def kStunMagicCookie_def)
  moreover have "hd (replicate 4 (48 :: uint8)) = 48" by (simp add: hd_replicate)
  moreover have "(33 :: uint8) \<noteq> 48" by simp
  ultimately have "replicate 4 48 \<noteq> SetBE32 kStunMagicCookie" by metis
  then show ?thesis
    by (simp add: wf_message_def StunMessage_new_def IsValidTransactionId_def EMPTY_TRANSACTION_ID_def
        kStunTransactionIdLength_def kStunLegacyTransactionIdLength_def IsLegacy_def)
qed

lemma wf_AddAttribute:
  assumes m: "wf_message m" and a: "wf_attr (sm_kind m) (sm_tid m) a"
    and room: "unat (sm_length m) + attr_size a < 65536"
  shows "\<exists>m'. AddAttribute a m = (True, m') \<and> wf_message m' \<and> sm_attrs m' = sm_attrs m @ [a]
    \<and> unat (sm_length m') = unat (sm_length m) + attr_size a
    \<and> sm_type m' = sm_type m \<and> sm_tid m' = sm_tid m \<and> sm_kind m' = sm_kind m"
proof -
  have "unat (of_nat (attr_size a) :: uint16) = attr_size a"
    using room by (simp add: unat_of_nat_small)
  then have "unat (sm_length m + of_nat (attr_size a)) = unat (sm_length m) + attr_size a"
    using room by (simp add: unat_add_nowrap)
  then show ?thesis
    using m a by (simp add: AddAttribute_def wf_attr_def wf_message_def IsLegacy_def attr_size_def)
qed

text \<open>
  C27.  The wire format round trip: a message built from complete attributes is written without
  failure, and parsing the bytes into a fresh message of the same class gives the message
  back, attribute for attribute in their order, XOR addresses of both families, strings
  with their padding, RFC 3489 messages without the magic cookie included.
\<close>

theorem stun_roundtrip:
  assumes "wf_message m"
  shows "\<exists>b b'. StunMessage_Write m (bb_new ORDER_NETWORK) = Some b \<and> bb_data b = message_bytes m
    \<and> StunMessage_Read (StunMessage_new (sm_kind m)) b = Some (m, b') \<and> bb_data b' = []"
proof -
  from StunMessage_Write_emits [OF assms bb_net_new(1)] obtain b where b:
    "StunMessage_Write m (bb_new ORDER_NETWORK) = Some b" "bb_net b" "bb_data b = message_bytes m"
    by (auto simp: emits_def)
  from StunMessage_Read_parses [OF assms b(2,3), of "StunMessage_new (sm_kind m)"] b show ?thesis
    by (auto simp: parses_def StunMessage_new_def)
qed

definition sample_tid :: bytes where "sample_tid = [1, 2, 3, 4, 5, 6, 7, 8, 9, 10, 11, 12]"

definition sample_message :: stun_message where
  "sample_message = \<lparr>sm_kind = IceMessage, sm_type = STUN_BINDING_RESPONSE, sm_length = 56,
     sm_tid = sample_tid,
     sm_attrs =
       [\<lparr>at_type = STUN_ATTR_USERNAME, at_length = 5, at_body = StunByteString [97, 98, 58, 99, 100]\<rparr>,
        \<lparr>at_type = STUN_ATTR_XOR_MAPPED_ADDRESS, at_length = 20,
         at_body = StunXorAddress (SocketAddress_ip (IPAddress_v6 in6addr_loopback) 3478)\<rparr>,
        \<lparr>at_type = STUN_ATTR_ERROR_CODE, at_length = 6, at_body = StunErrorCode 4 20 [110, 111]\<rparr>,
        \<lparr>at_type = STUN_ATTR_PRIORITY, at_length = 4, at_body = StunUInt32 7\<rparr>]\<rparr>"

lemma wf_sample: "wf_message sample_message"
  by (simp add: wf_message_def sample_message_def sample_tid_def STUN_BINDING_RESPONSE_def
      IsValidTransactionId_def kStunTransactionIdLength_def IsLegacy_def
      kStunLegacyTransactionIdLength_def wf_attr_def IceMessage_value_type_def
      StunMessage_value_type_def STUN_ATTR_USERNAME_def STUN_ATTR_XOR_MAPPED_ADDRESS_def
      STUN_ATTR_ERROR_CODE_def STUN_ATTR_PRIORITY_def STUN_ATTR_USE_CANDIDATE_def
      STUN_ATTR_ICE_CONTROLLED_def STUN_ATTR_ICE_CONTROLLING_def STUN_ATTR_MAPPED_ADDRESS_def
      STUN_ATTR_MESSAGE_INTEGRITY_def STUN_ATTR_UNKNOWN_ATTRIBUTES_def STUN_ATTR_REALM_def
      STUN_ATTR_NONCE_def wf_address_def in6addr_loopback_def attr_size_def padded_length_def)

theorem stun_roundtrip_witness:
  "\<exists>b b'. StunMessage_Write sample_message (bb_new ORDER_NETWORK) = Some b
    \<and> StunMessage_Read (StunMessage_new IceMessage) b = Some (sample_message, b')"
  using stun_roundtrip [OF wf_sample] by (auto simp: sample_message_def)

section \<open>What the parser accepts\<close>

lemma Read_keeps_type:
  "attr_Read owner a b = Some (a', b') \<Longrightarrow> at_type a' = at_type a
    \<and> body_value_type (at_body a') = body_value_type (at_body a)"
  by (cases "at_body a")
     (auto simp: attr_Read_def StunAddressAttribute_Read_def StunXorAddressAttribute_Read_def
        StunUInt32Attribute_Read_def StunUInt64Attribute_Read_def StunByteStringAttribute_Read_def
        StunErrorCodeAttribute_Read_def StunUInt16ListAttribute_Read_def attr_SetAddress_def Let_def
      split: option.splits if_splits)

lemma Create_type:
  "StunAttribute_Create (GetAttributeValueType kind t) t n = Some a \<Longrightarrow>
    at_type a = t \<and> body_value_type (at_body a) = GetAttributeValueType kind t"
  by (auto simp: StunAttribute_Create_def split: stun_value_type.splits)

lemma read_attrs_sound:
  "read_attrs kind tid rest b attrs = Some (attrs', b') \<Longrightarrow>
    \<forall>a \<in> set attrs. body_value_type (at_body a) = GetAttributeValueType kind (at_type a) \<Longrightarrow>
    bb_length b' \<le> rest \<and> (\<forall>a \<in> set attrs'. body_value_type (at_body a) = GetAttributeValueType kind (at_type a))"
proof (induction kind tid rest b attrs rule: read_attrs.induct)
  case (1 kind tid rest b attrs)
  show ?case
  proof (cases "bb_length b > rest")
    case True
    with "1.prems"(1) obtain t b1 n b2 where h: "ReadUInt16 b = Some (t, b1)" "ReadUInt16 b1 = Some (n, b2)"
      by (auto simp: read_attrs.simps [of kind tid rest b] split: option.splits)
    show ?thesis
    proof (cases "StunAttribute_Create (GetAttributeValueType kind t) t n")
      case None
      with True h "1.prems"(1) obtain b3 where "bb_consume b2 (unat (skip_length n)) = Some b3"
        "read_attrs kind tid rest b3 attrs = Some (attrs', b')"
        by (auto simp: read_attrs.simps [of kind tid rest b] split: option.splits)
      with "1.IH"(1) [OF True h(1) _ h(2) _ None] "1.prems"(2) show ?thesis by simp
    next
      case (Some a)
      with True h "1.prems"(1) obtain a' b3 where a': "attr_Read (Some tid) a b2 = Some (a', b3)"
        "read_attrs kind tid rest b3 (attrs @ [a']) = Some (attrs', b')"
        by (auto simp: read_attrs.simps [of kind tid rest b] split: option.splits)
      have "body_value_type (at_body a') = GetAttributeValueType kind (at_type a')"
        using Read_keeps_type [OF a'(1)] Create_type [OF Some] by simp
      with "1.IH"(2) [OF True h(1) _ h(2) _ Some a'(1)] a'(2) "1.prems"(2) show ?thesis by auto
    qed
  next
    case False
    with "1.prems" show ?thesis by (simp add: read_attrs.simps [of kind tid rest b])
  qed
qed

lemma ReadUInt16_inv: "bb_inv b \<Longrightarrow> ReadUInt16 b = Some (x, b') \<Longrightarrow> bb_inv b'"
  by (auto simp: ReadUInt16_def ReadBytes_def bb_inv_def bb_length_def Let_def split: if_splits)

lemma ReadString_inv:
  "bb_inv b \<Longrightarrow> ReadString b [] n = Some (v, b') \<Longrightarrow> length v = n \<and> bb_inv b'"
  by (auto simp: ReadString_def bb_inv_def bb_length_def split: if_splits)

text \<open>
  C28.  What \<^verbatim>\<open>Read\<close> accepts: a packet with the two top bits of an RTP packet clear (the first
  at least), whose length field is the number of bytes after the header; it is consumed whole,
  the transaction id has one of the two valid lengths, and every attribute kept has the
  type of value that its message class prescribes.  Of attributes of other types none is kept.
\<close>

theorem stun_read_sound:
  assumes "bb_inv b" and rd: "StunMessage_Read m b = Some (m', b')"
  shows "sm_type m' AND 0x8000 = 0 \<and> bb_length b = unat (sm_length m') + 20 \<and> bb_length b' = 0
    \<and> IsValidTransactionId (sm_tid m') \<and> sm_kind m' = sm_kind m
    \<and> (\<forall>a \<in> set (sm_attrs m'). body_value_type (at_body a) = GetAttributeValueType (sm_kind m) (at_type a))"
proof -
  from rd obtain t b1 n b2 cookie b3 tid b4 attrs where
    r: "ReadUInt16 b = Some (t, b1)" "t AND 0x8000 = 0" "ReadUInt16 b1 = Some (n, b2)"
      "ReadString b2 [] 4 = Some (cookie, b3)" "ReadString b3 [] 12 = Some (tid, b4)"
    and n: "unat n = bb_length b4"
    and at: "read_attrs (sm_kind m) (if NetworkToHost32 (host_word32 cookie) \<noteq> kStunMagicCookie
        then cookie @ tid else tid) 0 b4 [] = Some (attrs, b')"
    and m': "m' = m\<lparr>sm_type := t, sm_length := n, sm_tid := (if NetworkToHost32 (host_word32 cookie) \<noteq> kStunMagicCookie
        then cookie @ tid else tid), sm_attrs := attrs\<rparr>"
    unfolding StunMessage_Read_def kStunMagicCookieLength_def kStunTransactionIdLength_def Let_def
    by (simp split: option.splits prod.splits if_split_asm)
  have len: "bb_length b = bb_length b4 + 20"
    using read_uint_len(2) [OF r(1)] read_uint_len(2) [OF r(3)] ReadString_len [OF r(4)]
      ReadString_len [OF r(5)] by simp
  have "length cookie = 4" "length tid = 12"
    using ReadUInt16_inv [OF assms(1) r(1)] ReadUInt16_inv ReadString_inv r(3,4,5) by metis+
  then have "IsValidTransactionId (sm_tid m')"
    by (simp add: m' IsValidTransactionId_def kStunTransactionIdLength_def
        kStunLegacyTransactionIdLength_def)
  moreover note read_attrs_sound [OF at]
  ultimately show ?thesis using r(2) n len by (simp add: m')
qed

theorem stun_read_sound_witness:
  "\<exists>b m' b'. StunMessage_Read (StunMessage_new IceMessage) b = Some (m', b')
    \<and> bb_length b = unat (sm_length m') + 20 \<and> sm_attrs m' = sm_attrs sample_message"
proof -
  from StunMessage_Write_emits [OF wf_sample bb_net_new(1)] obtain b where b: "bb_net b"
    "bb_data b = message_bytes sample_message" by (auto simp: emits_def)
  from StunMessage_Read_parses [OF wf_sample b, of "StunMessage_new IceMessage"] obtain b' where
    r: "StunMessage_Read (StunMessage_new IceMessage) b = Some (sample_message, b')"
    by (auto simp: parses_def StunMessage_new_def sample_message_def)
  have "bb_inv b" using b(1) by (simp add: bb_net_def)
  from stun_read_sound [OF this r] r show ?thesis by blast
qed

text \<open>
  The attributes of a fixed size ignore the length they declare: \<^verbatim>\<open>CreateAttribute\<close> makes a
  32-bit attribute of length 4 whatever the packet says, so the check of the length in its
  \<^verbatim>\<open>Read\<close> passes, four bytes are read, and the rest of what the attribute declared is parsed
  as the next attributes.
\<close>

theorem declared_length_ignored:
  assumes "GetAttributeValueType kind t = STUN_VALUE_UINT32" and "bb_net b"
    and "bb_data b = SetBE16 t @ SetBE16 n @ SetBE32 v @ r"
  shows "\<exists>b'. read_attrs kind tid 0 b [] = read_attrs kind tid 0 b' [attr_UInt32 t v] \<and> bb_data b' = r"
proof -
  obtain b1 where b1: "ReadUInt16 b = Some (t, b1)" "bb_net b1" "bb_data b1 = SetBE16 n @ (SetBE32 v @ r)"
    using parses_ReadUInt16 [OF assms(2,3)] by (rule parsesE)
  obtain b2 where b2: "ReadUInt16 b1 = Some (n, b2)" "bb_net b2" "bb_data b2 = SetBE32 v @ r"
    using parses_ReadUInt16 [OF b1(2,3)] by (rule parsesE)
  obtain b3 where b3: "ReadUInt32 b2 = Some (v, b3)" "bb_data b3 = r"
    using parses_ReadUInt32 [OF b2(2,3)] by (rule parsesE)
  have "0 < bb_length b" using length_bb_data [of b] assms(2,3) by (simp add: bb_net_def)
  then show ?thesis
    using b1(1) b2(1) b3 assms(1)
    by (intro exI [of _ b3]) (simp add: read_attrs.simps [of kind tid 0 b] StunAttribute_Create_def
        attr_Read_def StunUInt32Attribute_Read_def attr_UInt32_def)
qed

theorem declared_length_ignored_witness:
  "\<exists>b'. read_attrs IceMessage [] 0 (bb_of_bytes (SetBE16 0x0024 @ SetBE16 8 @ SetBE32 1 @ SetBE32 2)) []
      = read_attrs IceMessage [] 0 b' [attr_UInt32 0x0024 1] \<and> bb_data b' = SetBE32 2"
  by (rule declared_length_ignored)
     (simp_all add: IceMessage_value_type_def STUN_ATTR_PRIORITY_def)

end
