(* ===== verification/StunAuth.thy ===== *)
theory StunAuth
  imports StunCodec
begin

text \<open>
  MESSAGE-INTEGRITY and FINGERPRINT of \<^verbatim>\<open>stun.cc\<close>, the message type predicates and the
  credential hash.  A check works on the bytes of a packet; where the code reads outside them
  the model gives \<open>None\<close>.  \<open>mem\<close> is the memory that a new digest object gets.
\<close>

section \<open>Message types\<close>

definition IsStunRequestType :: "int \<Rightarrow> bool" where
  "IsStunRequestType msg_type \<longleftrightarrow> msg_type AND kStunTypeMask = 0x000"

definition IsStunIndicationType :: "int \<Rightarrow> bool" where
  "IsStunIndicationType msg_type \<longleftrightarrow> msg_type AND kStunTypeMask = 0x010"

definition IsStunSuccessResponseType :: "int \<Rightarrow> bool" where
  "IsStunSuccessResponseType msg_type \<longleftrightarrow> msg_type AND kStunTypeMask = 0x100"

definition IsStunErrorResponseType :: "int \<Rightarrow> bool" where
  "IsStunErrorResponseType msg_type \<longleftrightarrow> msg_type AND kStunTypeMask = 0x110"

definition GetStunSuccessResponseType :: "int \<Rightarrow> int" where
  "GetStunSuccessResponseType req_type = (if IsStunRequestType req_type then req_type OR 0x100 else - 1)"

definition GetStunErrorResponseType :: "int \<Rightarrow> int" where
  "GetStunErrorResponseType req_type = (if IsStunRequestType req_type then req_type OR 0x110 else - 1)"

definition ComputeStunCredentialHash :: "bytes \<Rightarrow> bytes \<Rightarrow> bytes \<Rightarrow> bytes \<Rightarrow> bytes option" where
  "ComputeStunCredentialHash mem username realm password =
     (let digest = ComputeDigest mem DIGEST_MD5 (username @ [58] @ realm @ [58] @ password) 64
      in if length digest = 0 then None else Some digest)"

section \<open>MESSAGE-INTEGRITY\<close>

datatype mi_search = MI_found nat | MI_missing | MI_bad | MI_outside

text \<open>The loop over the attribute headers.\<close>

function find_integrity :: "bytes \<Rightarrow> nat \<Rightarrow> mi_search" where
  "find_integrity data current_pos =
     (if current_pos < length data then
        if current_pos + 4 > length data then MI_outside
        else
          let attr_type = GetBE16 (drop current_pos data);
              attr_length = unat (GetBE16 (drop (current_pos + 2) data))
          in if attr_type = STUN_ATTR_MESSAGE_INTEGRITY then
               if attr_length \<noteq> kStunMessageIntegritySize \<or> current_pos + attr_length > length data
               then MI_bad else MI_found current_pos
             else find_integrity data (current_pos + 4 + attr_length
                    + (if attr_length mod 4 \<noteq> 0 then 4 - attr_length mod 4 else 0))
      else MI_missing)"
  by pat_completeness auto
termination by (relation "measure (\<lambda>(data, pos). length data - pos)") auto

declare find_integrity.simps [simp del]

definition ValidateMessageIntegrity :: "bytes \<Rightarrow> bytes \<Rightarrow> bytes \<Rightarrow> bool option" where
  "ValidateMessageIntegrity mem data password =
     (let size = length data in
      if size mod 4 \<noteq> 0 then Some False
      else if size < 4 then None
      else
        let msg_length = unat (GetBE16 (drop 2 data))
        in if size \<noteq> msg_length + kStunHeaderSize then Some False
           else case find_integrity data kStunHeaderSize of
               MI_outside \<Rightarrow> None
             | MI_bad \<Rightarrow> Some False
             | MI_missing \<Rightarrow> Some False
             | MI_found mi_pos \<Rightarrow>
                 (let end_pos = mi_pos + kStunAttributeHeaderSize + kStunMessageIntegritySize;
                      temp_data =
                        (if size > end_pos
                         then let extra_offset = size - end_pos;
                                  new_adjusted_len = size - extra_offset - kStunHeaderSize
                              in mem_write (take mi_pos data) 2 (SetBE16 (of_nat new_adjusted_len))
                         else take mi_pos data);
                      hmac = ComputeHmac mem DIGEST_SHA_1 password temp_data kStunMessageIntegritySize
                  in if length hmac \<noteq> kStunMessageIntegritySize then Some False
                     else if end_pos > size then None
                     else Some (mem_read data (mi_pos + kStunAttributeHeaderSize)
                                  kStunMessageIntegritySize = hmac)))"

definition set_last :: "stun_attr \<Rightarrow> stun_message \<Rightarrow> stun_message" where
  "set_last a m = m\<lparr>sm_attrs := butlast (sm_attrs m) @ [a]\<rparr>"

definition AddMessageIntegrity :: "bytes \<Rightarrow> bytes \<Rightarrow> stun_message \<Rightarrow> bool \<times> stun_message" where
  "AddMessageIntegrity mem key m =
     (let a = attr_ByteString STUN_ATTR_MESSAGE_INTEGRITY (replicate kStunMessageIntegritySize 48);
          m1 = snd (AddAttribute a m)
      in case StunMessage_Write m1 (bb_new ORDER_NETWORK) of
           None \<Rightarrow> (False, m1)
         | Some buf \<Rightarrow>
             (let msg_len_for_hmac = bb_length buf - kStunAttributeHeaderSize - unat (at_length a);
                  hmac = ComputeHmac mem DIGEST_SHA_1 key (take msg_len_for_hmac (bb_data buf))
                           kStunMessageIntegritySize
              in if length hmac \<noteq> kStunMessageIntegritySize then (False, m1)
                 else (True, set_last (CopyBytes hmac a) m1)))"

section \<open>FINGERPRINT\<close>

definition STUN_FINGERPRINT_XOR_VALUE :: uint32 where "STUN_FINGERPRINT_XOR_VALUE = 0x5354554E"

definition ValidateFingerprint :: "bytes \<Rightarrow> bool" where
  "ValidateFingerprint data =
     (let size = length data;
          fingerprint_attr_size = kStunAttributeHeaderSize + 4;
          magic_cookie = drop (kStunTransactionIdOffset - kStunMagicCookieLength) data;
          fingerprint_attr_data = drop (size - fingerprint_attr_size) data
      in if size mod 4 \<noteq> 0 \<or> size < kStunHeaderSize + fingerprint_attr_size then False
         else if GetBE32 magic_cookie \<noteq> kStunMagicCookie then False
         else if GetBE16 fingerprint_attr_data \<noteq> STUN_ATTR_FINGERPRINT
               \<or> GetBE16 (drop 2 fingerprint_attr_data) \<noteq> 4 then False
         else
           let fingerprint = GetBE32 (drop kStunAttributeHeaderSize fingerprint_attr_data)
           in fingerprint XOR STUN_FINGERPRINT_XOR_VALUE
                = ComputeCrc32 (take (size - fingerprint_attr_size) data))"

definition AddFingerprint :: "stun_message \<Rightarrow> bool \<times> stun_message" where
  "AddFingerprint m =
     (let a = attr_UInt32 STUN_ATTR_FINGERPRINT 0;
          m1 = snd (AddAttribute a m)
      in case StunMessage_Write m1 (bb_new ORDER_NETWORK) of
           None \<Rightarrow> (False, m1)
         | Some buf \<Rightarrow>
             (let msg_len_for_crc32 = bb_length buf - kStunAttributeHeaderSize - unat (at_length a);
                  c = ComputeCrc32 (take msg_len_for_crc32 (bb_data buf))
              in (True, set_last (a\<lparr>at_body := StunUInt32 (c XOR STUN_FINGERPRINT_XOR_VALUE)\<rparr>) m1)))"

section \<open>The bytes of a message\<close>

lemma length_header:
  "IsValidTransactionId (sm_tid m) \<Longrightarrow> length (header_bytes m) = 20"
  by (auto simp: header_bytes_def IsValidTransactionId_def IsLegacy_def kStunTransactionIdLength_def
      kStunLegacyTransactionIdLength_def)

lemma wf_sizes:
  assumes "wf_message m"
  shows "length (concat (map (attr_bytes (sm_tid m)) (sm_attrs m))) = unat (sm_length m)"
    and "length (header_bytes m) = 20" and "length (message_bytes m) = unat (sm_length m) + 20"
proof -
  show "length (concat (map (attr_bytes (sm_tid m)) (sm_attrs m))) = unat (sm_length m)"
    using assms length_attrs [of "sm_kind m" "sm_tid m" "sm_attrs m"] by (simp add: wf_message_def)
  moreover show "length (header_bytes m) = 20"
    using assms by (intro length_header) (simp add: wf_message_def)
  ultimately show "length (message_bytes m) = unat (sm_length m) + 20"
    by (simp add: message_bytes_def)
qed

lemma padded_length_mod4 [simp]: "padded_length n mod 4 = 0"
proof (cases "n mod 4 = 0")
  case False
  have "n + (4 - n mod 4) = n div 4 * 4 + 4" using div_mult_mod_eq [of n 4] mod_less_divisor [of 4 n] by linarith
  then show ?thesis using False by (simp add: padded_length_def)
qed (simp add: padded_length_def)

lemma attrs_dvd4: "4 dvd sum_list (map attr_size as)"
proof (induction as)
  case (Cons a as)
  have "4 dvd padded_length (unat (at_length a))" by (rule mod_0_imp_dvd) simp
  then have "4 dvd attr_size a" by (simp add: attr_size_def)
  then show ?case using Cons by (simp add: dvd_add)
qed simp

lemma message_dvd4:
  assumes "wf_message m"
  shows "4 dvd length (message_bytes m)"
proof -
  have "4 dvd unat (sm_length m) + 20"
    using assms attrs_dvd4 [of "sm_attrs m"] by (intro dvd_add) (simp_all add: wf_message_def)
  then show ?thesis by (simp only: wf_sizes(3) [OF assms])
qed

lemma message_mod4: "wf_message m \<Longrightarrow> length (message_bytes m) mod 4 = 0"
  using message_dvd4 by auto

text \<open>The bytes before the last attribute.\<close>

definition front_bytes :: "stun_message \<Rightarrow> bytes" where
  "front_bytes m = header_bytes m @ concat (map (attr_bytes (sm_tid m)) (butlast (sm_attrs m)))"

lemma message_front:
  "sm_attrs m = as @ [a] \<Longrightarrow> message_bytes m = front_bytes m @ attr_bytes (sm_tid m) a"
  by (simp add: message_bytes_def front_bytes_def)

lemma header_set_last [simp]: "header_bytes (set_last a m) = header_bytes m"
  by (simp add: header_bytes_def set_last_def IsLegacy_def)

lemma message_set_last:
  "sm_attrs m = as @ [b] \<Longrightarrow> message_bytes (set_last a m) = front_bytes m @ attr_bytes (sm_tid m) a"
  by (simp add: message_bytes_def front_bytes_def) (simp add: set_last_def)

lemma write_message:
  assumes "wf_message m"
  obtains buf where "StunMessage_Write m (bb_new ORDER_NETWORK) = Some buf"
    "bb_data buf = message_bytes m" "bb_length buf = length (message_bytes m)"
proof -
  from StunMessage_Write_emits [OF assms bb_net_new(1)] obtain b where b:
    "StunMessage_Write m (bb_new ORDER_NETWORK) = Some b" "bb_net b" "bb_data b = message_bytes m"
    by (auto simp: emits_def)
  then have "bb_length b = length (message_bytes m)"
    using length_bb_data [of b] by (simp add: bb_net_def)
  with b that show ?thesis by blast
qed

lemma fingerprint_value_type [simp]: "GetAttributeValueType k STUN_ATTR_FINGERPRINT = STUN_VALUE_UINT32"
  by (cases k) (simp_all add: StunMessage_value_type_def RelayMessage_value_type_def
      TurnMessage_value_type_def IceMessage_value_type_def STUN_ATTR_FINGERPRINT_def
      STUN_ATTR_MAPPED_ADDRESS_def STUN_ATTR_USERNAME_def STUN_ATTR_MESSAGE_INTEGRITY_def
      STUN_ATTR_ERROR_CODE_def STUN_ATTR_UNKNOWN_ATTRIBUTES_def STUN_ATTR_REALM_def
      STUN_ATTR_NONCE_def STUN_ATTR_XOR_MAPPED_ADDRESS_def STUN_ATTR_SOFTWARE_def
      STUN_ATTR_ALTERNATE_SERVER_def STUN_ATTR_LIFETIME_def STUN_ATTR_MAGIC_COOKIE_def
      STUN_ATTR_BANDWIDTH_def STUN_ATTR_DESTINATION_ADDRESS_def STUN_ATTR_SOURCE_ADDRESS2_def
      STUN_ATTR_DATA_def STUN_ATTR_OPTIONS_def STUN_ATTR_CHANNEL_NUMBER_def
      STUN_ATTR_TURN_LIFETIME_def STUN_ATTR_XOR_PEER_ADDRESS_def STUN_ATTR_XOR_RELAYED_ADDRESS_def
      STUN_ATTR_EVEN_PORT_def STUN_ATTR_REQUESTED_TRANSPORT_def STUN_ATTR_DONT_FRAGMENT_def
      STUN_ATTR_RESERVATION_TOKEN_def STUN_ATTR_PRIORITY_def STUN_ATTR_USE_CANDIDATE_def
      STUN_ATTR_ICE_CONTROLLED_def STUN_ATTR_ICE_CONTROLLING_def)

lemma integrity_value_type [simp]:
  "GetAttributeValueType k STUN_ATTR_MESSAGE_INTEGRITY = STUN_VALUE_BYTE_STRING"
  by (cases k) (simp_all add: StunMessage_value_type_def RelayMessage_value_type_def
      TurnMessage_value_type_def IceMessage_value_type_def
      STUN_ATTR_MAPPED_ADDRESS_def STUN_ATTR_USERNAME_def STUN_ATTR_MESSAGE_INTEGRITY_def
      STUN_ATTR_LIFETIME_def STUN_ATTR_MAGIC_COOKIE_def STUN_ATTR_BANDWIDTH_def
      STUN_ATTR_DESTINATION_ADDRESS_def STUN_ATTR_SOURCE_ADDRESS2_def
      STUN_ATTR_DATA_def STUN_ATTR_OPTIONS_def STUN_ATTR_CHANNEL_NUMBER_def
      STUN_ATTR_TURN_LIFETIME_def STUN_ATTR_XOR_PEER_ADDRESS_def STUN_ATTR_XOR_RELAYED_ADDRESS_def
      STUN_ATTR_EVEN_PORT_def STUN_ATTR_REQUESTED_TRANSPORT_def STUN_ATTR_DONT_FRAGMENT_def
      STUN_ATTR_RESERVATION_TOKEN_def STUN_ATTR_PRIORITY_def STUN_ATTR_USE_CANDIDATE_def
      STUN_ATTR_ICE_CONTROLLED_def STUN_ATTR_ICE_CONTROLLING_def)

section \<open>What is added is accepted\<close>

lemma wf_set_last:
  assumes "wf_message m" and "sm_attrs m = as @ [b]" and "wf_attr (sm_kind m) (sm_tid m) a"
    and "at_length a = at_length b"
  shows "wf_message (set_last a m)"
  using assms by (simp add: wf_message_def set_last_def IsLegacy_def attr_size_def)

lemma wf_fingerprint: "wf_attr kind tid (attr_UInt32 STUN_ATTR_FINGERPRINT v)"
  by (simp add: wf_attr_def attr_UInt32_def)

text \<open>
  A message that \<^verbatim>\<open>AddFingerprint\<close> completes passes \<^verbatim>\<open>ValidateFingerprint\<close> on the wire, and
  stays well formed: the checksum covers the bytes before the attribute with the message
  length that already counts it.
\<close>

lemma AddFingerprint_completes:
  assumes wf: "wf_message m" and new: "\<not> IsLegacy m" and room: "unat (sm_length m) + 8 < 65536"
  shows "\<exists>c n. AddFingerprint m
      = (True, m\<lparr>sm_length := n, sm_attrs := sm_attrs m @ [attr_UInt32 STUN_ATTR_FINGERPRINT c]\<rparr>)
    \<and> wf_message (m\<lparr>sm_length := n, sm_attrs := sm_attrs m @ [attr_UInt32 STUN_ATTR_FINGERPRINT c]\<rparr>)
    \<and> ValidateFingerprint
        (message_bytes (m\<lparr>sm_length := n, sm_attrs := sm_attrs m @ [attr_UInt32 STUN_ATTR_FINGERPRINT c]\<rparr>))"
proof -
  let ?a = "attr_UInt32 STUN_ATTR_FINGERPRINT 0"
  have size: "attr_size ?a = 8" by (simp add: attr_size_def attr_UInt32_def padded_length_def)
  from wf_AddAttribute [OF wf wf_fingerprint, of 0] room size obtain m1 where
    m1: "AddAttribute ?a m = (True, m1)" "wf_message m1" "sm_attrs m1 = sm_attrs m @ [?a]"
      "sm_tid m1 = sm_tid m" "sm_type m1 = sm_type m" "sm_kind m1 = sm_kind m" by auto
  obtain buf where buf: "StunMessage_Write m1 (bb_new ORDER_NETWORK) = Some buf"
    "bb_data buf = message_bytes m1" "bb_length buf = length (message_bytes m1)"
    by (rule write_message [OF m1(2)])
  let ?f = "front_bytes m1"
  have abytes: "attr_bytes tid (attr_UInt32 STUN_ATTR_FINGERPRINT v)
      = SetBE16 STUN_ATTR_FINGERPRINT @ SetBE16 4 @ SetBE32 v" for tid v
    by (simp add: attr_bytes_def body_bytes_def attr_UInt32_def)
  have msg: "message_bytes m1 = ?f @ attr_bytes (sm_tid m1) ?a" by (rule message_front [OF m1(3)])
  have len: "length (message_bytes m1) = length ?f + 8" by (simp add: msg abytes)
  define c where "c = ComputeCrc32 ?f XOR STUN_FINGERPRINT_XOR_VALUE"
  let ?m = "set_last (attr_UInt32 STUN_ATTR_FINGERPRINT c) m1"
  have "AddFingerprint m = (True, ?m)"
    using m1(1) buf(1) len
    by (simp add: AddFingerprint_def Let_def buf(2,3) kStunAttributeHeaderSize_def c_def)
       (simp add: msg attr_UInt32_def)
  have wf': "wf_message ?m"
    by (rule wf_set_last [OF m1(2,3) wf_fingerprint]) (simp add: attr_UInt32_def)
  have d: "message_bytes ?m = ?f @ SetBE16 STUN_ATTR_FINGERPRINT @ SetBE16 4 @ SetBE32 c"
    by (simp only: message_set_last [OF m1(3)] abytes)
  have "\<not> IsLegacy m1" using new m1(4) by (simp add: IsLegacy_def)
  then have cookie: "GetBE32 (drop 4 (message_bytes ?m)) = kStunMagicCookie"
    by (simp add: d front_bytes_def header_bytes_def)
  define D where "D = message_bytes ?m"
  have D: "D = ?f @ SetBE16 STUN_ATTR_FINGERPRINT @ SetBE16 4 @ SetBE32 c" by (simp only: D_def d)
  have "20 \<le> length ?f" using wf_sizes(2) [OF m1(2)] by (simp add: front_bytes_def)
  moreover have "c XOR STUN_FINGERPRINT_XOR_VALUE = ComputeCrc32 ?f" by (simp add: c_def xor.assoc)
  moreover have "length D mod 4 = 0" unfolding D_def by (rule message_mod4 [OF wf'])
  ultimately have "ValidateFingerprint D"
    using cookie [folded D_def]
    by (simp add: ValidateFingerprint_def Let_def kStunTransactionIdOffset_def
        kStunMagicCookieLength_def kStunHeaderSize_def kStunAttributeHeaderSize_def)
       (simp add: D)
  moreover have "?m = m\<lparr>sm_length := sm_length m1, sm_attrs := sm_attrs m @ [attr_UInt32 STUN_ATTR_FINGERPRINT c]\<rparr>"
    using m1 by (cases m; cases m1) (simp add: set_last_def)
  ultimately show ?thesis using \<open>AddFingerprint m = (True, ?m)\<close> wf' unfolding D_def by metis
qed

theorem fingerprint_accepted:
  assumes wf: "wf_message m" and new: "\<not> IsLegacy m" and room: "unat (sm_length m) + 8 < 65536"
  shows "\<exists>m'. AddFingerprint m = (True, m') \<and> wf_message m' \<and> ValidateFingerprint (message_bytes m')"
  using AddFingerprint_completes [OF assms] by blast

theorem fingerprint_accepted_witness:
  "\<exists>m'. AddFingerprint sample_message = (True, m') \<and> ValidateFingerprint (message_bytes m')"
  using fingerprint_accepted [OF wf_sample]
  by (auto simp: IsLegacy_def sample_message_def sample_tid_def kStunLegacyTransactionIdLength_def)

lemma pad_sum: "q + n + (if n mod 4 \<noteq> 0 then 4 - n mod 4 else 0) = q + padded_length n"
  by (simp add: padded_length_def)

lemma find_at:
  assumes "pos + 4 \<le> length data" and t: "GetBE16 (drop pos data) = t"
    and l: "GetBE16 (drop (pos + 2) data) = l"
  shows "find_integrity data pos =
    (if t = STUN_ATTR_MESSAGE_INTEGRITY then
       if unat l \<noteq> 20 \<or> pos + unat l > length data then MI_bad else MI_found pos
     else find_integrity data (pos + 4 + padded_length (unat l)))"
proof -
  have "pos < length data" "\<not> pos + 4 > length data" using assms(1) by auto
  then show ?thesis
    unfolding find_integrity.simps [of data pos] Let_def t l pad_sum kStunMessageIntegritySize_def
    by simp
qed

lemma find_step:
  assumes wf: "wf_attr kind tid a" and other: "at_type a \<noteq> STUN_ATTR_MESSAGE_INTEGRITY"
    and d: "data = p @ attr_bytes tid a @ r"
  shows "find_integrity data (length p) = find_integrity data (length (p @ attr_bytes tid a))"
proof -
  have len: "length (attr_bytes tid a) = 4 + padded_length (unat (at_length a))"
    by (simp add: attr_bytes_def length_body_bytes [OF wf])
  have "length p + 4 \<le> length data" by (simp add: d len)
  moreover have "GetBE16 (drop (length p) data) = at_type a"
    "GetBE16 (drop (length p + 2) data) = at_length a" by (simp_all add: d attr_bytes_def)
  moreover have "length (p @ attr_bytes tid a) = length p + 4 + padded_length (unat (at_length a))"
    by (simp add: len)
  ultimately show ?thesis using other find_at [of "length p" data] by (simp only: if_False)
qed

lemma find_skip:
  "list_all (wf_attr kind tid) as \<Longrightarrow> \<forall>a \<in> set as. at_type a \<noteq> STUN_ATTR_MESSAGE_INTEGRITY \<Longrightarrow>
    data = p @ concat (map (attr_bytes tid) as) @ r \<Longrightarrow>
    find_integrity data (length p) = find_integrity data (length (p @ concat (map (attr_bytes tid) as)))"
proof (induction as arbitrary: p)
  case (Cons a as)
  then have d: "data = p @ attr_bytes tid a @ (concat (map (attr_bytes tid) as) @ r)" by simp
  have "find_integrity data (length p) = find_integrity data (length (p @ attr_bytes tid a))"
    by (rule find_step [OF _ _ d, of kind]) (use Cons.prems in simp_all)
  also have "\<dots> = find_integrity data (length ((p @ attr_bytes tid a) @ concat (map (attr_bytes tid) as)))"
    by (rule Cons.IH) (use Cons.prems in simp_all)
  finally show ?case by simp
qed simp

lemma find_here:
  assumes d: "data = p @ SetBE16 STUN_ATTR_MESSAGE_INTEGRITY @ SetBE16 20 @ h @ r" and "length h = 20"
  shows "find_integrity data (length p) = MI_found (length p)"
  using find_at [of "length p" data STUN_ATTR_MESSAGE_INTEGRITY 20] assms(2) by (simp add: d)

text \<open>The header with another message length.\<close>

lemma header_with_length:
  "header_bytes (m\<lparr>sm_length := n\<rparr>) = mem_write (header_bytes m) 2 (SetBE16 n)"
  by (simp add: header_bytes_def IsLegacy_def mem_write_def)

lemma header_write_front:
  assumes "length (header_bytes m) = 20"
  shows "mem_write (header_bytes m @ x) 2 (SetBE16 n) = mem_write (header_bytes m) 2 (SetBE16 n) @ x"
  using assms by (simp add: mem_write_def)

lemma header_length_field: "GetBE16 (drop 2 (header_bytes m @ x)) = sm_length m"
  by (simp add: header_bytes_def)

lemma message_length_field: "GetBE16 (drop 2 (message_bytes m)) = sm_length m"
  unfolding message_bytes_def by (rule header_length_field)

definition integrity_attr :: "bytes \<Rightarrow> stun_attr" where
  "integrity_attr h = CopyBytes h (attr_ByteString STUN_ATTR_MESSAGE_INTEGRITY (replicate kStunMessageIntegritySize 48))"

lemma integrity_attr:
  assumes "length h = 20"
  shows "at_length (integrity_attr h) = 20" "at_type (integrity_attr h) = STUN_ATTR_MESSAGE_INTEGRITY"
    "wf_attr kind tid (integrity_attr h)" "attr_size (integrity_attr h) = 24"
    "attr_bytes tid (integrity_attr h) = SetBE16 STUN_ATTR_MESSAGE_INTEGRITY @ SetBE16 20 @ h"
  using assms
  by (simp_all add: integrity_attr_def CopyBytes_def attr_ByteString_def wf_attr_def attr_size_def
      padded_length_def attr_bytes_def body_bytes_def padding_bytes_def)

lemma dummy_integrity:
  "attr_ByteString STUN_ATTR_MESSAGE_INTEGRITY (replicate kStunMessageIntegritySize 48)
    = integrity_attr (replicate 20 48)"
  by (simp add: integrity_attr_def attr_ByteString_def CopyBytes_def kStunMessageIntegritySize_def)

lemma validate_found:
  assumes "length mem = 64" and "length D mod 4 = 0" and "4 \<le> length D"
    and "length D = unat (GetBE16 (drop 2 D)) + 20" and "find_integrity D 20 = MI_found pos"
    and "pos + 24 \<le> length D"
    and "mem_read D (pos + 4) 20 = hmac sha1_digest key
      (if length D > pos + 24
       then mem_write (take pos D) 2 (SetBE16 (of_nat (length D - (length D - (pos + 24)) - 20)))
       else take pos D)"
  shows "ValidateMessageIntegrity mem D key = Some True"
proof -
  have k: "pos + 4 + 20 = pos + 24" by simp
  have c: "\<not> length D < 4" "\<not> pos + 24 > length D" "(length D mod 4 \<noteq> 0) = False"
    using assms(2,3,6) by simp_all
  have l: "(length D \<noteq> unat (GetBE16 (drop 2 D)) + 20) = False" using assms(4) by blast
  show ?thesis
    unfolding ValidateMessageIntegrity_def Let_def kStunHeaderSize_def kStunAttributeHeaderSize_def
      kStunMessageIntegritySize_def k hmac_sha1 [OF assms(1)] assms(5) mi_search.case c(3) l
    by (simp only: c(1,2) if_False less_irrefl length_hmac not_True_eq_False simp_thms assms(7))
qed

text \<open>A message that carries the right integrity attribute, whatever follows it.\<close>

lemma integrity_validates:
  assumes wf: "wf_message m" and mem: "length mem = 64"
    and attrs: "sm_attrs m = before @ integrity_attr h # after"
    and other: "\<forall>a \<in> set before. at_type a \<noteq> STUN_ATTR_MESSAGE_INTEGRITY"
    and n: "n = of_nat (sum_list (map attr_size before) + 24)"
    and h: "h = hmac sha1_digest key (header_bytes (m\<lparr>sm_length := n\<rparr>)
        @ concat (map (attr_bytes (sm_tid m)) before))"
  shows "ValidateMessageIntegrity mem (message_bytes m) key = Some True"
proof -
  let ?before = "concat (map (attr_bytes (sm_tid m)) before)"
  let ?after = "concat (map (attr_bytes (sm_tid m)) after)"
  define p where "p = header_bytes m @ ?before"
  define D where "D = message_bytes m"
  have lh: "length h = 20" by (simp add: h)
  note ia = integrity_attr [OF lh]
  have D: "D = p @ SetBE16 STUN_ATTR_MESSAGE_INTEGRITY @ SetBE16 20 @ h @ ?after"
    by (simp add: D_def p_def message_bytes_def attrs ia(5))
  have wfa: "list_all (wf_attr (sm_kind m) (sm_tid m)) before"
    and valid: "IsValidTransactionId (sm_tid m)" using wf attrs by (simp_all add: wf_message_def)
  have sz: "length D = unat (sm_length m) + 20" unfolding D_def by (rule wf_sizes(3) [OF wf])
  have lb: "length ?before = sum_list (map attr_size before)" by (rule length_attrs [OF wfa])
  have hd20: "length (header_bytes m) = 20" by (rule wf_sizes(2) [OF wf])
  then have lp: "length p = 20 + sum_list (map attr_size before)" by (simp add: p_def lb)
  have lD: "length D = length p + 24 + length ?after" by (simp add: D lh)
  have field: "GetBE16 (drop 2 D) = sm_length m"
    unfolding D_def by (rule message_length_field)
  have "find_integrity D 20 = find_integrity D (length p)"
    using find_skip [OF wfa other, of D "header_bytes m"] D hd20 by (simp add: p_def)
  also have "\<dots> = MI_found (length p)" by (rule find_here [OF D lh])
  finally have found: "find_integrity D 20 = MI_found (length p)" .
  have tk: "take (length p) D = p" by (simp add: D)
  have signed: "mem_write p 2 (SetBE16 n) = header_bytes (m\<lparr>sm_length := n\<rparr>) @ ?before"
    by (simp only: p_def header_write_front [OF hd20] header_with_length)
  have at: "mem_read D (length p + 4) 20 = h" using lh by (simp add: D mem_read_def)
  have mod: "length D mod 4 = 0" unfolding D_def by (rule message_mod4 [OF wf])
  have temp: "(if length D > length p + 24 then mem_write p 2 (SetBE16 (of_nat (length D - (length D - (length p + 24)) - 20)))
      else p) = header_bytes (m\<lparr>sm_length := n\<rparr>) @ ?before"
  proof (cases "length D > length p + 24")
    case True
    then have "length D - (length D - (length p + 24)) - 20 = sum_list (map attr_size before) + 24"
      using lp by simp
    then have "of_nat (length D - (length D - (length p + 24)) - 20) = n" by (simp only: n)
    then show ?thesis using True signed by (simp only: if_True)
  next
    case False
    then have e: "unat (sm_length m) = sum_list (map attr_size before) + 24" using lD sz lp by simp
    have "sm_length m = of_nat (unat (sm_length m))" by simp
    then have "sm_length m = n" by (simp only: e n)
    then have "header_bytes (m\<lparr>sm_length := n\<rparr>) = header_bytes m"
      by (simp add: header_bytes_def IsLegacy_def)
    then show ?thesis using False by (simp add: p_def)
  qed
  have "ValidateMessageIntegrity mem D key = Some True"
  proof (rule validate_found [OF mem mod _ _ found])
    show "length D = unat (GetBE16 (drop 2 D)) + 20" using sz by (simp only: field)
    show "4 \<le> length D" "length p + 24 \<le> length D" using lD by simp_all
    show "mem_read D (length p + 4) 20 = hmac sha1_digest key
        (if length D > length p + 24
         then mem_write (take (length p) D) 2 (SetBE16 (of_nat (length D - (length D - (length p + 24)) - 20)))
         else take (length p) D)"
      by (simp only: tk temp at h [symmetric])
  qed
  then show ?thesis by (simp add: D_def)
qed

text \<open>Signing a message.\<close>

lemma AddMessageIntegrity_signs:
  assumes wf: "wf_message m" and mem: "length mem = 64" and room: "unat (sm_length m) + 24 < 65536"
    and none: "\<forall>a \<in> set (sm_attrs m). at_type a \<noteq> STUN_ATTR_MESSAGE_INTEGRITY"
  shows "\<exists>m' h. AddMessageIntegrity mem key m = (True, m') \<and> wf_message m'
    \<and> sm_attrs m' = sm_attrs m @ [integrity_attr h] \<and> length h = 20
    \<and> sm_type m' = sm_type m \<and> sm_tid m' = sm_tid m \<and> sm_kind m' = sm_kind m
    \<and> unat (sm_length m') = unat (sm_length m) + 24
    \<and> ValidateMessageIntegrity mem (message_bytes m') key = Some True
    \<and> (\<forall>after n. wf_message (m'\<lparr>sm_length := n, sm_attrs := sm_attrs m' @ after\<rparr>) \<longrightarrow>
        ValidateMessageIntegrity mem
          (message_bytes (m'\<lparr>sm_length := n, sm_attrs := sm_attrs m' @ after\<rparr>)) key = Some True)"
proof -
  let ?a = "integrity_attr (replicate 20 48)"
  have l20: "length (replicate 20 (48 :: uint8)) = 20" by simp
  from wf_AddAttribute [OF wf integrity_attr(3) [OF l20]] room integrity_attr(4) [OF l20]
  obtain m1 where m1: "AddAttribute ?a m = (True, m1)" "wf_message m1"
    "sm_attrs m1 = sm_attrs m @ [?a]" "unat (sm_length m1) = unat (sm_length m) + 24"
    "sm_type m1 = sm_type m" "sm_tid m1 = sm_tid m" "sm_kind m1 = sm_kind m" by auto
  obtain buf where buf: "StunMessage_Write m1 (bb_new ORDER_NETWORK) = Some buf"
    "bb_data buf = message_bytes m1" "bb_length buf = length (message_bytes m1)"
    by (rule write_message [OF m1(2)])
  let ?f = "front_bytes m1"
  define h where "h = hmac sha1_digest key ?f"
  have h20: "length h = 20" by (simp add: h_def)
  have msg: "message_bytes m1 = ?f @ attr_bytes (sm_tid m1) ?a" by (rule message_front [OF m1(3)])
  have len: "length (message_bytes m1) = length ?f + 24"
    by (simp add: msg integrity_attr(5) [OF l20])
  let ?m = "set_last (integrity_attr h) m1"
  have copy: "CopyBytes h ?a = integrity_attr h"
    by (simp add: integrity_attr_def CopyBytes_def attr_ByteString_def)
  have "take (length ?f) (message_bytes m1) = ?f" by (simp add: msg)
  then have add: "AddMessageIntegrity mem key m = (True, ?m)"
    using m1(1) buf(1) h20
    unfolding AddMessageIntegrity_def dummy_integrity Let_def
    by (simp add: buf(2,3) len kStunAttributeHeaderSize_def kStunMessageIntegritySize_def
        integrity_attr(1) [OF l20] hmac_sha1 [OF mem] h_def [symmetric] copy)
  have wf': "wf_message ?m"
    by (rule wf_set_last [OF m1(2,3) integrity_attr(3) [OF h20]])
       (simp add: integrity_attr(1) [OF h20] integrity_attr(1) [OF l20])
  have sum: "sum_list (map attr_size (sm_attrs m)) + 24 = unat (sm_length m1)"
    using wf m1(4) by (simp add: wf_message_def)
  have n: "sm_length m1 = of_nat (sum_list (map attr_size (sm_attrs m)) + 24)" by (simp only: sum) simp
  have front: "header_bytes (m''\<lparr>sm_length := sm_length m1\<rparr>) @ concat (map (attr_bytes (sm_tid m'')) (sm_attrs m)) = ?f"
    if "sm_type m'' = sm_type m1" "sm_tid m'' = sm_tid m1" for m''
    using that by (simp add: front_bytes_def m1(3) header_bytes_def IsLegacy_def)
  have valid: "ValidateMessageIntegrity mem (message_bytes m'') key = Some True"
    if "wf_message m''" "sm_attrs m'' = sm_attrs m @ integrity_attr h # after"
      "sm_type m'' = sm_type m1" "sm_tid m'' = sm_tid m1" for m'' after
    by (rule integrity_validates [OF that(1) mem that(2) none n])
       (simp only: front [OF that(3,4)] h_def)
  have last: "sm_attrs ?m = sm_attrs m @ [integrity_attr h]" by (simp add: set_last_def m1(3))
  have "ValidateMessageIntegrity mem (message_bytes ?m) key = Some True"
    by (rule valid [OF wf', of "[]"]) (simp_all add: set_last_def m1(3))
  moreover have "ValidateMessageIntegrity mem
      (message_bytes (?m\<lparr>sm_length := n, sm_attrs := sm_attrs ?m @ after\<rparr>)) key = Some True"
    if "wf_message (?m\<lparr>sm_length := n, sm_attrs := sm_attrs ?m @ after\<rparr>)" for after n
    by (rule valid [OF that, of after]) (simp_all add: set_last_def m1(3))
  moreover have "sm_type ?m = sm_type m" "sm_tid ?m = sm_tid m" "sm_kind ?m = sm_kind m"
    "unat (sm_length ?m) = unat (sm_length m) + 24" using m1 by (simp_all add: set_last_def)
  ultimately show ?thesis using add wf' last h20 by blast
qed

text \<open>
  C29.  A message that \<^verbatim>\<open>AddMessageIntegrity\<close> signs passes \<^verbatim>\<open>ValidateMessageIntegrity\<close> under the
  same key, and still passes after more attributes are added behind the integrity attribute
  (a FINGERPRINT in practice): the receiver recomputes the HMAC over the bytes before the
  attribute with the message length that ends with it.
\<close>

theorem integrity_accepted:
  assumes wf: "wf_message m" and mem: "length mem = 64" and room: "unat (sm_length m) + 24 < 65536"
    and none: "\<forall>a \<in> set (sm_attrs m). at_type a \<noteq> STUN_ATTR_MESSAGE_INTEGRITY"
  shows "\<exists>m'. AddMessageIntegrity mem key m = (True, m') \<and> wf_message m'
    \<and> ValidateMessageIntegrity mem (message_bytes m') key = Some True
    \<and> (\<forall>after n. wf_message (m'\<lparr>sm_length := n, sm_attrs := sm_attrs m' @ after\<rparr>) \<longrightarrow>
        ValidateMessageIntegrity mem
          (message_bytes (m'\<lparr>sm_length := n, sm_attrs := sm_attrs m' @ after\<rparr>)) key = Some True)"
  using AddMessageIntegrity_signs [OF assms, of key] by blast

theorem integrity_accepted_witness:
  "\<exists>m'. AddMessageIntegrity (replicate 64 7) [112, 119] sample_message = (True, m')
    \<and> ValidateMessageIntegrity (replicate 64 7) (message_bytes m') [112, 119] = Some True"
proof -
  have "unat (sm_length sample_message) + 24 < 65536" by (simp add: sample_message_def)
  moreover have "\<forall>a \<in> set (sm_attrs sample_message). at_type a \<noteq> STUN_ATTR_MESSAGE_INTEGRITY"
    by (simp add: sample_message_def STUN_ATTR_USERNAME_def STUN_ATTR_XOR_MAPPED_ADDRESS_def
        STUN_ATTR_ERROR_CODE_def STUN_ATTR_PRIORITY_def STUN_ATTR_MESSAGE_INTEGRITY_def)
  ultimately show ?thesis using integrity_accepted [OF wf_sample, of "replicate 64 7" "[112, 119]"] by auto
qed

section \<open>Types, credentials and a read outside the packet\<close>

lemma type_mask: "kStunTypeMask = 0x100 OR 0x010"
  by (simp add: kStunTypeMask_def)

text \<open>
  A request type has a success and an error response type that are classified as such, and
  the four classes exclude each other; of a type that is not a request no response type is made.
\<close>

theorem response_types:
  "(IsStunRequestType t \<longrightarrow> IsStunSuccessResponseType (GetStunSuccessResponseType t)
      \<and> IsStunErrorResponseType (GetStunErrorResponseType t))
   \<and> (\<not> IsStunRequestType t \<longrightarrow> GetStunSuccessResponseType t = - 1 \<and> GetStunErrorResponseType t = - 1)
   \<and> length (filter id [IsStunRequestType t, IsStunIndicationType t, IsStunSuccessResponseType t,
        IsStunErrorResponseType t]) = 1"
proof -
  have b: "bit (272 :: int) i \<longleftrightarrow> i = 4 \<or> i = 8" for i
  proof -
    have "(272 :: int) = push_bit 4 1 OR push_bit 8 1" by simp
    then show ?thesis by (simp only: bit_or_iff bit_push_bit_iff bit_1_iff) auto
  qed
  have bits: "t AND 272 = (if bit t 4 then push_bit 4 1 else 0) OR (if bit t 8 then push_bit 8 1 else 0)"
    by (rule bit_eqI) (auto simp: bit_and_iff b bit_or_iff bit_push_bit_iff bit_1_iff
        simp del: push_bit_of_1)
  have resp: "t AND 272 = 0 \<Longrightarrow> (t OR 256) AND 272 = 256" "t AND 272 = 0 \<Longrightarrow> (t OR 272) AND 272 = 272"
    by (simp_all add: bit.conj_disj_distrib2)
  show ?thesis
    by (cases "bit t 4"; cases "bit t 8")
       (simp_all add: IsStunRequestType_def IsStunIndicationType_def IsStunSuccessResponseType_def
          IsStunErrorResponseType_def GetStunSuccessResponseType_def GetStunErrorResponseType_def
          kStunTypeMask_def resp bits)
qed

theorem response_types_witness:
  "IsStunRequestType 0x0001 \<and> GetStunSuccessResponseType 0x0001 = 0x0101
    \<and> IsStunErrorResponseType (GetStunErrorResponseType 0x0001)"
  using response_types [of 1] by (simp add: IsStunRequestType_def kStunTypeMask_def
      GetStunSuccessResponseType_def)

text \<open>
  The long-term credential is the MD5 of user name, realm and password, joined by colons.
\<close>

lemma credential_hash:
  "length mem = 64 \<Longrightarrow> ComputeStunCredentialHash mem u r p = Some (md5_digest (u @ [58] @ r @ [58] @ p))"
  by (simp add: ComputeStunCredentialHash_def digest_md5 Let_def)
     (metis length_md5_digest list.size(3) zero_neq_numeral)

text \<open>
  The size check of \<^verbatim>\<open>ValidateMessageIntegrity\<close> forgets the attribute header: a packet that
  ends four bytes before its integrity attribute does passes it, and the comparison of the
  HMAC then reads four bytes behind the packet.
\<close>

theorem integrity_reads_outside:
  assumes "length mem = 64"
  shows "ValidateMessageIntegrity mem
    ([0, 1, 0, 20] @ replicate 16 0 @ [0, 8, 0, 20] @ replicate 16 0) password = None"
proof -
  let ?d = "[0, 1, 0, 20] @ replicate 16 0 @ [0, 8, 0, 20] @ replicate 16 (0 :: uint8)"
  have "drop 20 ?d = [0, 8, 0, 20] @ replicate 16 0" "drop 22 ?d = [0, 20] @ replicate 16 0"
    "drop 2 ?d = [0, 20] @ replicate 16 0 @ [0, 8, 0, 20] @ replicate 16 0" by simp_all
  then have t: "GetBE16 (drop 20 ?d) = STUN_ATTR_MESSAGE_INTEGRITY" "GetBE16 (drop (20 + 2) ?d) = 20"
    and n: "GetBE16 (drop 2 ?d) = 20"
    by (simp_all add: GetBE16_def STUN_ATTR_MESSAGE_INTEGRITY_def)
  have "find_integrity ?d 20 = MI_found 20" using find_at [OF _ t] by simp
  then show ?thesis
    unfolding ValidateMessageIntegrity_def Let_def kStunHeaderSize_def kStunAttributeHeaderSize_def
      kStunMessageIntegritySize_def n hmac_sha1 [OF assms]
    by simp
qed

theorem integrity_reads_outside_witness:
  "ValidateMessageIntegrity (replicate 64 0)
    ([0, 1, 0, 20] @ replicate 16 0 @ [0, 8, 0, 20] @ replicate 16 0) [112] = None"
  by (rule integrity_reads_outside) simp

end
