(* ===== verification/StunBuild.thy ===== *)
theory StunBuild
  imports StunAuth
begin

text \<open>
  Messages as senders build them and receivers read them: attributes with their sizes, a list of attributes
  added one after the other, and the message read back from its bytes.
\<close>

section \<open>Building\<close>

lemma written_attrs_complete: "write_attrs tid as b = Some b' \<Longrightarrow> written_attrs tid as b = b'"
  by (induction as arbitrary: b) (auto simp: Let_def split: option.splits)

lemma written_message_bytes: "wf_message m \<Longrightarrow> bb_data (written_message m) = message_bytes m"
  by (rule write_message [of m])
     (auto simp: written_message_def StunMessage_Write_def Let_def dest!: written_attrs_complete)

lemma wf_string:
  assumes "length v < 65536" and "GetAttributeValueType kind t = STUN_VALUE_BYTE_STRING"
  shows "wf_attr kind tid (attr_ByteString t v)" "attr_size (attr_ByteString t v) = padded_length (length v) + 4"
    "at_type (attr_ByteString t v) = t" "attr_string (attr_ByteString t v) = v"
  using assms
  by (simp_all add: wf_attr_def attr_ByteString_def CopyBytes_def attr_size_def attr_string_def unat_of_nat_small)

lemma wf_uint32:
  assumes "GetAttributeValueType kind t = STUN_VALUE_UINT32"
  shows "wf_attr kind tid (attr_UInt32 t v)" "attr_size (attr_UInt32 t v) = 8" "at_type (attr_UInt32 t v) = t"
    "attr_value (attr_UInt32 t v) = v"
  using assms by (simp_all add: wf_attr_def attr_UInt32_def attr_size_def padded_length_def attr_value_def)

lemma wf_xor_address:
  assumes "GetAttributeValueType kind t = STUN_VALUE_XOR_ADDRESS" and "wf_address addr" and "length tid = 12"
  shows "wf_attr kind tid (attr_XorAddress t addr)" "attr_size (attr_XorAddress t addr) \<le> 24"
    "at_type (attr_XorAddress t addr) = t" "attr_address (at_body (attr_XorAddress t addr)) = addr"
  using assms
  by (simp_all add: wf_attr_def attr_XorAddress_def attr_SetAddress_def attr_size_def padded_length_def
      EnsureAddressLength_def split: stun_address_family.split)

lemma wf_v4_address [simp]: "wf_address (SocketAddress_ip (IPAddress_v4 w) p)"
  by (simp add: wf_address_def ip_inv_def IPAddress_v4_def mem_write_def SetLE32_def numeral_eq_Suc)

lemma add_attributes:
  assumes "wf_message m" and "\<forall>a \<in> set as. wf_attr (sm_kind m) (sm_tid m) a"
    and "unat (sm_length m) + sum_list (map attr_size as) < 65536"
  shows "wf_message (fold (\<lambda>a m. snd (AddAttribute a m)) as m)
    \<and> sm_attrs (fold (\<lambda>a m. snd (AddAttribute a m)) as m) = sm_attrs m @ as
    \<and> unat (sm_length (fold (\<lambda>a m. snd (AddAttribute a m)) as m)) = unat (sm_length m) + sum_list (map attr_size as)
    \<and> sm_type (fold (\<lambda>a m. snd (AddAttribute a m)) as m) = sm_type m
    \<and> sm_tid (fold (\<lambda>a m. snd (AddAttribute a m)) as m) = sm_tid m
    \<and> sm_kind (fold (\<lambda>a m. snd (AddAttribute a m)) as m) = sm_kind m"
  using assms
proof (induction as arbitrary: m)
  case (Cons a as)
  then obtain m1 where m1: "AddAttribute a m = (True, m1)" "wf_message m1" "sm_attrs m1 = sm_attrs m @ [a]"
    "unat (sm_length m1) = unat (sm_length m) + attr_size a"
    "sm_type m1 = sm_type m" "sm_tid m1 = sm_tid m" "sm_kind m1 = sm_kind m"
    using wf_AddAttribute [of m a] by auto
  from Cons.IH [OF m1(2)] Cons.prems m1 show ?case by (simp add: algebra_simps)
qed simp

lemma find_append: "List.find P (xs @ ys) = (case List.find P xs of None \<Rightarrow> List.find P ys | Some x \<Rightarrow> Some x)"
  by (induction xs) auto

lemma read_message:
  assumes "wf_message m"
  shows "\<exists>b. StunMessage_Read (StunMessage_new (sm_kind m)) (bb_of_bytes (message_bytes m)) = Some (m, b) \<and> bb_length b = 0"
proof -
  from StunMessage_Read_parses [OF assms bb_net_of_bytes(1) bb_net_of_bytes(2), of "StunMessage_new (sm_kind m)"]
  obtain b where b: "StunMessage_Read (StunMessage_new (sm_kind m)) (bb_of_bytes (message_bytes m)) = Some (m, b)"
    "bb_net b" "bb_data b = []"
    by (auto simp: parses_def StunMessage_new_def)
  then have "bb_length b = 0" using length_bb_data [of b] by (simp add: bb_net_def)
  with b show ?thesis by blast
qed

text \<open>A message with integrity and fingerprint: what ICE sends.\<close>

lemma protected_message:
  assumes wf: "wf_message m" and mem: "length mem = 64" and new: "\<not> IsLegacy m"
    and room: "unat (sm_length m) + 32 < 65536"
    and none: "\<forall>a \<in> set (sm_attrs m). at_type a \<noteq> STUN_ATTR_MESSAGE_INTEGRITY"
  shows "\<exists>m' h c. snd (AddFingerprint (snd (AddMessageIntegrity mem key m))) = m' \<and> wf_message m'
    \<and> sm_attrs m' = sm_attrs m @ [integrity_attr h, attr_UInt32 STUN_ATTR_FINGERPRINT c] \<and> length h = 20
    \<and> sm_type m' = sm_type m \<and> sm_tid m' = sm_tid m \<and> sm_kind m' = sm_kind m
    \<and> ValidateFingerprint (message_bytes m') \<and> ValidateMessageIntegrity mem (message_bytes m') key = Some True"
proof -
  from AddMessageIntegrity_signs [OF wf mem _ none, of key] room obtain m1 h where
    m1: "AddMessageIntegrity mem key m = (True, m1)" "wf_message m1" "sm_attrs m1 = sm_attrs m @ [integrity_attr h]"
      "length h = 20" "sm_type m1 = sm_type m" "sm_tid m1 = sm_tid m" "sm_kind m1 = sm_kind m"
      "unat (sm_length m1) = unat (sm_length m) + 24"
    and valid: "\<And>after n. wf_message (m1\<lparr>sm_length := n, sm_attrs := sm_attrs m1 @ after\<rparr>) \<Longrightarrow>
        ValidateMessageIntegrity mem (message_bytes (m1\<lparr>sm_length := n, sm_attrs := sm_attrs m1 @ after\<rparr>)) key = Some True"
    by auto
  have "\<not> IsLegacy m1" "unat (sm_length m1) + 8 < 65536" using new m1(6,8) room by (simp_all add: IsLegacy_def)
  from AddFingerprint_completes [OF m1(2) this] obtain c n where
    f: "AddFingerprint m1 = (True, m1\<lparr>sm_length := n, sm_attrs := sm_attrs m1 @ [attr_UInt32 STUN_ATTR_FINGERPRINT c]\<rparr>)"
      "wf_message (m1\<lparr>sm_length := n, sm_attrs := sm_attrs m1 @ [attr_UInt32 STUN_ATTR_FINGERPRINT c]\<rparr>)"
      "ValidateFingerprint
        (message_bytes (m1\<lparr>sm_length := n, sm_attrs := sm_attrs m1 @ [attr_UInt32 STUN_ATTR_FINGERPRINT c]\<rparr>))"
    by blast
  show ?thesis
    by (rule exI [of _ "m1\<lparr>sm_length := n, sm_attrs := sm_attrs m1 @ [attr_UInt32 STUN_ATTR_FINGERPRINT c]\<rparr>"],
        rule exI [of _ h], rule exI [of _ c])
       (use m1 f valid [OF f(2)] in simp)
qed

end
