(* ===== verification/TimeUtils.thy ===== *)
theory TimeUtils
  imports Prelude
begin

text \<open>
  \<^verbatim>\<open>base/timeutils.cc\<close> and \<^verbatim>\<open>base/timeutils.h\<close>: 32-bit millisecond time stamps that wrap
  around every 49.7 days.  The comparisons are modelled in both forms the source has: the
  compiled one (\<^verbatim>\<open>EFFICIENT_IMPLEMENTATION\<close>) and the reference one in the \<^verbatim>\<open>#else\<close>
  branches (names ending in \<open>_ref\<close>).  The clock itself, \<^verbatim>\<open>clock_gettime\<close>, is an
  argument.  An \<^verbatim>\<open>int32\<close> result is the signed value (\<open>sint\<close>) of the 32-bit word.
\<close>

definition LAST :: uint32 where "LAST = 0xFFFFFFFF"
definition HALF :: uint32 where "HALF = 0x80000000"

definition kNumNanosecsPerSec :: uint64 where "kNumNanosecsPerSec = 1000000000"
definition kNumNanosecsPerMicrosec :: uint64 where "kNumNanosecsPerMicrosec = 1000"
definition kNumNanosecsPerMillisec :: uint64 where "kNumNanosecsPerMillisec = 1000000"

text \<open>The POSIX branch of \<^verbatim>\<open>TimeNanos\<close>, over the two fields of the \<^verbatim>\<open>timespec\<close>.\<close>

definition TimeNanos :: "uint64 \<Rightarrow> uint64 \<Rightarrow> uint64" where
  "TimeNanos tv_sec tv_nsec = kNumNanosecsPerSec * tv_sec + tv_nsec"

definition TimeUs :: "uint64 \<Rightarrow> uint64 \<Rightarrow> uint64" where
  "TimeUs tv_sec tv_nsec = TimeNanos tv_sec tv_nsec div kNumNanosecsPerMicrosec"

definition TimeMs :: "uint64 \<Rightarrow> uint64 \<Rightarrow> uint64" where
  "TimeMs tv_sec tv_nsec = TimeNanos tv_sec tv_nsec div kNumNanosecsPerMillisec"

definition Time :: "uint64 \<Rightarrow> uint64 \<Rightarrow> uint32" where
  "Time tv_sec tv_nsec = ucast (TimeNanos tv_sec tv_nsec div kNumNanosecsPerMillisec)"

text \<open>\<^verbatim>\<open>TimeAfter\<close> asserts its argument first: \<open>None\<close> is a failed \<^verbatim>\<open>ASSERT\<close>.\<close>

definition TimeAfter :: "uint32 \<Rightarrow> int \<Rightarrow> uint32 option" where
  "TimeAfter now elapsed =
     (if \<not> (0 \<le> elapsed) then None
      else if \<not> ((word_of_int elapsed :: uint32) < HALF) then None
      else Some (now + word_of_int elapsed))"

definition TimeIsBetween :: "uint32 \<Rightarrow> uint32 \<Rightarrow> uint32 \<Rightarrow> bool" where
  "TimeIsBetween earlier middle later =
     (if earlier \<le> later then earlier \<le> middle \<and> middle \<le> later
      else \<not> (later < middle \<and> middle < earlier))"

definition TimeIsLaterOrEqual :: "uint32 \<Rightarrow> uint32 \<Rightarrow> bool" where
  "TimeIsLaterOrEqual earlier later =
     (let diff = sint (later - earlier) in 0 \<le> diff \<and> (word_of_int diff :: uint32) < HALF)"

definition TimeIsLaterOrEqual_ref :: "uint32 \<Rightarrow> uint32 \<Rightarrow> bool" where
  "TimeIsLaterOrEqual_ref earlier later = TimeIsBetween earlier later (earlier + HALF)"

definition TimeIsLater :: "uint32 \<Rightarrow> uint32 \<Rightarrow> bool" where
  "TimeIsLater earlier later =
     (let diff = sint (later - earlier) in 0 < diff \<and> (word_of_int diff :: uint32) < HALF)"

definition TimeIsLater_ref :: "uint32 \<Rightarrow> uint32 \<Rightarrow> bool" where
  "TimeIsLater_ref earlier later = (\<not> TimeIsBetween later earlier (later + HALF))"

definition TimeDiff :: "uint32 \<Rightarrow> uint32 \<Rightarrow> int" where
  "TimeDiff later earlier = sint (later - earlier)"

text \<open>The reference \<^verbatim>\<open>TimeDiff\<close> computes in \<^verbatim>\<open>long\<close> and returns the value as an
  \<^verbatim>\<open>int32\<close>: the final conversion is \<open>signed_take_bit 31\<close>.\<close>

definition TimeDiff_ref :: "uint32 \<Rightarrow> uint32 \<Rightarrow> int" where
  "TimeDiff_ref later earlier = signed_take_bit 31
     (if TimeIsBetween earlier later (earlier + HALF)
      then (if earlier \<le> later then uint (later - earlier)
            else uint (later + (LAST - earlier) + 1))
      else (if later \<le> earlier then - uint (earlier - later)
            else - uint (earlier + (LAST - later) + 1)))"

definition TimeMax :: "uint32 \<Rightarrow> uint32 \<Rightarrow> uint32" where
  "TimeMax ts1 ts2 = (if TimeIsLaterOrEqual ts1 ts2 then ts2 else ts1)"

definition TimeMin :: "uint32 \<Rightarrow> uint32 \<Rightarrow> uint32" where
  "TimeMin ts1 ts2 = (if TimeIsLaterOrEqual ts1 ts2 then ts1 else ts2)"

definition TimeSince :: "uint32 \<Rightarrow> uint32 \<Rightarrow> int" where
  "TimeSince now earlier = TimeDiff now earlier"

definition TimeUntil :: "uint32 \<Rightarrow> uint32 \<Rightarrow> int" where
  "TimeUntil now later = TimeDiff later now"

section \<open>The comparisons as modular distances\<close>

lemma sint32_nonneg_iff: "0 \<le> sint (x :: uint32) \<longleftrightarrow> x < HALF"
  using uint_lt2p [of x] by (auto simp: HALF_def sint32_eq word_less_def)

lemma TimeIsBetween_distance:
  "TimeIsBetween earlier middle later \<longleftrightarrow> middle - earlier \<le> later - earlier"
  unfolding TimeIsBetween_def by uint_arith

lemma TimeIsLaterOrEqual_distance: "TimeIsLaterOrEqual earlier later \<longleftrightarrow> later - earlier < HALF"
  by (simp add: TimeIsLaterOrEqual_def Let_def sint32_nonneg_iff)

lemma TimeIsLater_distance:
  "TimeIsLater earlier later \<longleftrightarrow> later \<noteq> earlier \<and> later - earlier < HALF"
proof -
  have "sint (later - earlier) = 0 \<longleftrightarrow> later - earlier = 0"
    by (rule signed_eq_0_iff)
  then have "0 < sint (later - earlier) \<longleftrightarrow> later - earlier \<noteq> 0 \<and> later - earlier < HALF"
    using sint32_nonneg_iff [of "later - earlier"] by (auto simp: order_less_le)
  then show ?thesis by (auto simp: TimeIsLater_def Let_def)
qed

lemma TimeDiff_range: "- 2147483648 \<le> TimeDiff later earlier \<and> TimeDiff later earlier < 2147483648"
  using sint_ge [of "later - earlier"] sint_lt [of "later - earlier"]
  by (simp add: TimeDiff_def)

lemma TimeDiff_add:
  assumes "- 2147483648 \<le> d" "d < 2147483648"
  shows "TimeDiff (t + word_of_int d) t = d"
  using assms by (simp add: TimeDiff_def int_word_sint mod_pos_pos_trivial)

text \<open>The four branches of the reference \<^verbatim>\<open>TimeDiff\<close> all denote the same distance modulo
  \<open>2 ^ 32\<close>, which the conversion to \<^verbatim>\<open>int32\<close> then reads as a signed value.\<close>

lemma sint_as_signed_take_bit:
  assumes "(word_of_int k :: uint32) = x"
  shows "sint x = signed_take_bit 31 k"
  using sint_sbintrunc' [of k, where 'a = 32] assms by simp

lemma TimeDiff_reference: "TimeDiff later earlier = TimeDiff_ref later earlier"
  unfolding TimeDiff_def TimeDiff_ref_def
  by (rule sint_as_signed_take_bit) (simp add: LAST_def)

text \<open>
  The compiled comparisons agree with the reference ones of the \<^verbatim>\<open>#else\<close> branches,
  except that \<^verbatim>\<open>TimeIsLaterOrEqual\<close> rejects the one distance of exactly \<^verbatim>\<open>HALF\<close> that its
  reference form accepts.
\<close>

theorem time_comparisons_efficient:
  "(TimeIsLaterOrEqual earlier later \<longleftrightarrow>
      TimeIsLaterOrEqual_ref earlier later \<and> later - earlier \<noteq> HALF)
   \<and> (TimeIsLater earlier later \<longleftrightarrow> TimeIsLater_ref earlier later)
   \<and> TimeDiff later earlier = TimeDiff_ref later earlier"
proof (intro conjI)
  show "TimeIsLaterOrEqual earlier later \<longleftrightarrow>
      TimeIsLaterOrEqual_ref earlier later \<and> later - earlier \<noteq> HALF"
    by (auto simp: TimeIsLaterOrEqual_distance TimeIsLaterOrEqual_ref_def
        TimeIsBetween_distance less_le)
  show "TimeIsLater earlier later \<longleftrightarrow> TimeIsLater_ref earlier later"
    unfolding TimeIsLater_distance TimeIsLater_ref_def TimeIsBetween_distance HALF_def
    by (uint_arith, auto)
  show "TimeDiff later earlier = TimeDiff_ref later earlier"
    by (rule TimeDiff_reference)
qed

end
