(* ===== verification/StunRequest.thy ===== *)
theory StunRequest
  imports StunAuth TimeUtils "HOL-Library.AList"
begin

text \<open>
  \<^verbatim>\<open>p2p/base/stunrequest.cc\<close>: requests that are sent until they are answered or have been sent often
  enough, and the manager that finds the request of a response.  A request is known by its
  transaction id, under which the manager keeps it; the thread's queue is the list of posted messages with their due times.
  The virtual methods of a request are a parameter (\<^verbatim>\<open>Prepare\<close>) and entries of the log (the
  callbacks); \<^verbatim>\<open>GetNextDelay\<close> is the one of the class.  A failed assertion is \<open>None\<close>.
\<close>

section \<open>State\<close>

definition MAX_SENDS :: nat where "MAX_SENDS = 9"
definition DELAY_UNIT :: nat where "DELAY_UNIT = 100"
definition DELAY_MAX_FACTOR :: nat where "DELAY_MAX_FACTOR = 16"

record stun_request =
  rq_count :: nat
  rq_timeout :: bool
  rq_managed :: bool
  rq_msg :: stun_message
  rq_tstamp :: uint32

datatype request_log =
    Packet_sent nat bytes bytes
  | Response_received bytes stun_message
  | Error_response_received bytes stun_message
  | Timed_out nat bytes

record request_manager =
  rm_requests :: "(bytes \<times> stun_request) list"
  rm_messages :: "(nat \<times> bytes) list"
  rm_log :: "request_log list"

definition StunRequestManager :: request_manager where
  "StunRequestManager = \<lparr>rm_requests = [], rm_messages = [], rm_log = []\<rparr>"

definition StunRequest_new :: "stun_message \<Rightarrow> bytes \<Rightarrow> stun_request" where
  "StunRequest_new msg random = \<lparr>rq_count = 0, rq_timeout = False, rq_managed = False,
     rq_msg = snd (SetTransactionID random msg), rq_tstamp = 0\<rparr>"

definition rq_id :: "stun_request \<Rightarrow> bytes" where
  "rq_id r = sm_tid (rq_msg r)"

definition rq_type :: "stun_request \<Rightarrow> int" where
  "rq_type r = uint (sm_type (rq_msg r))"

definition rq_Elapsed :: "uint32 \<Rightarrow> stun_request \<Rightarrow> uint32" where
  "rq_Elapsed now r = word_of_int (TimeSince now (rq_tstamp r))"

definition rq_Construct :: "(stun_message \<Rightarrow> stun_message) \<Rightarrow> stun_request \<Rightarrow> stun_request option" where
  "rq_Construct prepare r =
     (if sm_type (rq_msg r) = 0 then
        (let m = prepare (rq_msg r) in if sm_type m = 0 then None else Some (r\<lparr>rq_msg := m\<rparr>))
      else Some r)"

definition GetNextDelay :: "stun_request \<Rightarrow> nat \<times> stun_request" where
  "GetNextDelay r =
     (DELAY_UNIT * min (2 ^ rq_count r) DELAY_MAX_FACTOR,
      r\<lparr>rq_count := rq_count r + 1, rq_timeout := (if rq_count r + 1 = MAX_SENDS then True else rq_timeout r)\<rparr>)"

section \<open>The manager\<close>

definition rm_insert :: "stun_request \<Rightarrow> request_manager \<Rightarrow> request_manager" where
  "rm_insert r s = s\<lparr>rm_requests := AList.update (rq_id r) r (rm_requests s)\<rparr>"

definition rm_Post :: "nat \<Rightarrow> bytes \<Rightarrow> request_manager \<Rightarrow> request_manager" where
  "rm_Post due tid s = s\<lparr>rm_messages := rm_messages s @ [(due, tid)]\<rparr>"

definition rm_SendDelayed ::
    "(stun_message \<Rightarrow> stun_message) \<Rightarrow> nat \<Rightarrow> nat \<Rightarrow> stun_request \<Rightarrow> request_manager \<Rightarrow> request_manager option" where
  "rm_SendDelayed prepare now delay r s =
     (if rq_managed r then None
      else if map_of (rm_requests s) (rq_id r) \<noteq> None then None
      else case rq_Construct prepare (r\<lparr>rq_managed := True\<rparr>) of
          None \<Rightarrow> None
        | Some r1 \<Rightarrow> Some (rm_Post (now + delay) (rq_id r1) (rm_insert r1 s)))"

definition rm_Send ::
    "(stun_message \<Rightarrow> stun_message) \<Rightarrow> nat \<Rightarrow> stun_request \<Rightarrow> request_manager \<Rightarrow> request_manager option" where
  "rm_Send prepare now r s = rm_SendDelayed prepare now 0 r s"

definition rm_Remove :: "bytes \<Rightarrow> request_manager \<Rightarrow> request_manager" where
  "rm_Remove tid s =
     (if map_of (rm_requests s) tid \<noteq> None
      then s\<lparr>rm_requests := AList.delete tid (rm_requests s),
             rm_messages := filter (\<lambda>m. snd m \<noteq> tid) (rm_messages s)\<rparr>
      else s)"

text \<open>The destructor removes the request from its manager and its messages from the thread.\<close>

definition rq_delete :: "bytes \<Rightarrow> request_manager \<Rightarrow> request_manager" where
  "rq_delete tid s = (let s1 = rm_Remove tid s
     in s1\<lparr>rm_messages := filter (\<lambda>m. snd m \<noteq> tid) (rm_messages s1)\<rparr>)"

definition rm_Clear :: "request_manager \<Rightarrow> request_manager" where
  "rm_Clear s = fold rq_delete (map fst (rm_requests s)) s"

text \<open>The destructor of the manager takes each request out of the map before deleting it.\<close>

definition rm_delete :: "request_manager \<Rightarrow> request_manager" where
  "rm_delete s =
     fold (\<lambda>tid s. rq_delete tid (s\<lparr>rm_requests := AList.delete tid (rm_requests s)\<rparr>)) (map fst (rm_requests s)) s"

definition rm_note :: "request_log \<Rightarrow> request_manager \<Rightarrow> request_manager" where
  "rm_note e s = s\<lparr>rm_log := rm_log s @ [e]\<rparr>"

definition rm_CheckResponse :: "stun_message \<Rightarrow> request_manager \<Rightarrow> bool \<times> request_manager" where
  "rm_CheckResponse msg s =
     (case map_of (rm_requests s) (sm_tid msg) of
        None \<Rightarrow> (False, s)
      | Some r \<Rightarrow>
          if uint (sm_type msg) = GetStunSuccessResponseType (rq_type r)
          then (True, rq_delete (sm_tid msg) (rm_note (Response_received (sm_tid msg) msg) s))
          else if uint (sm_type msg) = GetStunErrorResponseType (rq_type r)
          then (True, rq_delete (sm_tid msg) (rm_note (Error_response_received (sm_tid msg) msg) s))
          else (False, s))"

definition rm_CheckResponse_bytes :: "bytes \<Rightarrow> request_manager \<Rightarrow> bool \<times> request_manager" where
  "rm_CheckResponse_bytes data s =
     (if length data < 20 then (False, s)
      else case map_of (rm_requests s) (mem_read data kStunTransactionIdOffset kStunTransactionIdLength) of
          None \<Rightarrow> (False, s)
        | Some r \<Rightarrow>
            (case StunMessage_Read (StunMessage_new (sm_kind (rq_msg r))) (bb_of_bytes data) of
               None \<Rightarrow> (False, s)
             | Some (response, buf) \<Rightarrow> rm_CheckResponse response s))"

text \<open>\<^verbatim>\<open>OnMessage\<close> of the request \<open>r\<close>, whose class gives the delay; the result of \<^verbatim>\<open>Write\<close> is ignored.\<close>

definition rq_Fire ::
    "(stun_request \<Rightarrow> nat \<times> stun_request) \<Rightarrow> nat \<Rightarrow> bytes \<Rightarrow> stun_request \<Rightarrow> request_manager \<Rightarrow> request_manager" where
  "rq_Fire next_delay now tid r s =
     (if rq_timeout r then rq_delete tid (rm_note (Timed_out now tid) s)
      else
        let (delay, r1) = next_delay (r\<lparr>rq_tstamp := of_nat now\<rparr>)
        in rm_Post (now + delay) tid
             (rm_insert r1 (rm_note (Packet_sent now tid (bb_data (written_message (rq_msg r)))) s)))"

definition rq_OnMessage :: "nat \<Rightarrow> bytes \<Rightarrow> stun_request \<Rightarrow> request_manager \<Rightarrow> request_manager" where
  "rq_OnMessage = rq_Fire GetNextDelay"

text \<open>The thread delivers the message at position \<open>i\<close> of the queue at its due time or later.\<close>

definition rm_Deliver ::
    "(stun_request \<Rightarrow> nat \<times> stun_request) \<Rightarrow> nat \<Rightarrow> nat \<Rightarrow> request_manager \<Rightarrow> request_manager option" where
  "rm_Deliver next_delay now i s =
     (if i < length (rm_messages s) \<and> fst (rm_messages s ! i) \<le> now then
        (let tid = snd (rm_messages s ! i);
             s1 = s\<lparr>rm_messages := take i (rm_messages s) @ drop (Suc i) (rm_messages s)\<rparr>
         in case map_of (rm_requests s) tid of None \<Rightarrow> None | Some r \<Rightarrow> Some (rq_Fire next_delay now tid r s1))
      else Some s)"

section \<open>Histories\<close>

datatype request_event =
    Send_request nat stun_request
  | Deliver_message nat
  | Receive_packet bytes
  | Remove_request bytes
  | Clear_requests

fun rm_step :: "(stun_message \<Rightarrow> stun_message) \<Rightarrow> nat \<times> request_event \<Rightarrow> request_manager \<Rightarrow> request_manager option" where
  "rm_step prepare (now, Send_request delay r) s = rm_SendDelayed prepare now delay r s"
| "rm_step prepare (now, Deliver_message i) s = rm_Deliver GetNextDelay now i s"
| "rm_step prepare (now, Receive_packet data) s = Some (snd (rm_CheckResponse_bytes data s))"
| "rm_step prepare (now, Remove_request tid) s = Some (rm_Remove tid s)"
| "rm_step prepare (now, Clear_requests) s = Some (rm_Clear s)"

fun rm_run :: "(stun_message \<Rightarrow> stun_message) \<Rightarrow> (nat \<times> request_event) list \<Rightarrow> request_manager \<Rightarrow> request_manager option" where
  "rm_run prepare [] s = Some s"
| "rm_run prepare (e # es) s = (case rm_step prepare e s of None \<Rightarrow> None | Some s1 \<Rightarrow> rm_run prepare es s1)"

section \<open>Every request comes to an end\<close>

fun log_tid :: "request_log \<Rightarrow> bytes" where
  "log_tid (Packet_sent _ tid _) = tid"
| "log_tid (Response_received tid _) = tid"
| "log_tid (Error_response_received tid _) = tid"
| "log_tid (Timed_out _ tid) = tid"

fun is_packet :: "request_log \<Rightarrow> bool" where
  "is_packet (Packet_sent _ _ _) = True"
| "is_packet _ = False"

fun is_timeout :: "request_log \<Rightarrow> bool" where
  "is_timeout (Timed_out _ _) = True"
| "is_timeout _ = False"

definition request_history :: "bytes \<Rightarrow> request_manager \<Rightarrow> request_log list" where
  "request_history tid s = filter (\<lambda>e. log_tid e = tid) (rm_log s)"

definition request_queue :: "bytes \<Rightarrow> request_manager \<Rightarrow> (nat \<times> bytes) list" where
  "request_queue tid s = filter (\<lambda>m. snd m = tid) (rm_messages s)"

text \<open>The log of a request that is no longer outstanding: packets, then at most one outcome.\<close>

definition ended :: "request_log list \<Rightarrow> bool" where
  "ended h \<longleftrightarrow> (\<exists>packets outcome. h = packets @ outcome \<and> list_all is_packet packets \<and> length packets \<le> 9
     \<and> (outcome = [] \<or> (\<exists>e. outcome = [e] \<and> \<not> is_packet e \<and> (is_timeout e \<longrightarrow> length packets = 9))))"

fun request_ok :: "bytes \<Rightarrow> stun_request option \<Rightarrow> request_log list \<Rightarrow> (nat \<times> bytes) list \<Rightarrow> bool" where
  "request_ok tid (Some r) h q \<longleftrightarrow> rq_id r = tid \<and> list_all is_packet h \<and> length h = rq_count r
     \<and> rq_count r \<le> 9 \<and> (rq_timeout r \<longleftrightarrow> rq_count r = 9) \<and> length q = 1"
| "request_ok tid None h q \<longleftrightarrow> ended h \<and> q = []"

definition manager_inv :: "bytes set \<Rightarrow> request_manager \<Rightarrow> bool" where
  "manager_inv seen s \<longleftrightarrow>
     (\<forall>tid. request_ok tid (map_of (rm_requests s) tid) (request_history tid s) (request_queue tid s)
       \<and> (tid \<notin> seen \<longrightarrow> map_of (rm_requests s) tid = None \<and> request_history tid s = []))"

lemma manager_effects [simp]:
  "map_of (rm_requests (rm_insert r s)) = (map_of (rm_requests s))(rq_id r \<mapsto> r)"
  "request_history tid (rm_insert r s) = request_history tid s"
  "request_queue tid (rm_insert r s) = request_queue tid s"
  "rm_requests (rm_Post due tid' s) = rm_requests s"
  "request_history tid (rm_Post due tid' s) = request_history tid s"
  "request_queue tid (rm_Post due tid' s) = request_queue tid s @ (if tid' = tid then [(due, tid')] else [])"
  "rm_requests (rm_note e s) = rm_requests s"
  "request_history tid (rm_note e s) = request_history tid s @ (if log_tid e = tid then [e] else [])"
  "request_queue tid (rm_note e s) = request_queue tid s"
  "map_of (rm_requests (rq_delete tid' s)) = (map_of (rm_requests s))(tid' := None)"
  "request_history tid (rq_delete tid' s) = request_history tid s"
  "request_queue tid (rq_delete tid' s) = (if tid' = tid then [] else request_queue tid s)"
  by (auto simp: rm_insert_def update_conv' request_history_def request_queue_def rm_Post_def rm_note_def
      rq_delete_def rm_Remove_def delete_conv' Let_def fun_eq_iff filter_empty_conv intro!: filter_cong)

lemma ended_packets: "list_all is_packet h \<Longrightarrow> length h \<le> 9 \<Longrightarrow> ended h"
  unfolding ended_def by (intro exI [of _ h] exI [of _ "[]"]) simp

lemma ended_outcome:
  "list_all is_packet h \<Longrightarrow> length h \<le> 9 \<Longrightarrow> \<not> is_packet e \<Longrightarrow> (is_timeout e \<Longrightarrow> length h = 9) \<Longrightarrow> ended (h @ [e])"
  unfolding ended_def by (intro exI [of _ h] exI [of _ "[e]"]) simp

text \<open>An operation that only touches one request keeps the invariant if it keeps it for that request.\<close>

lemma manager_inv_step:
  assumes inv: "manager_inv seen s"
    and "request_ok tid (map_of (rm_requests s') tid) (request_history tid s') (request_queue tid s')"
    and "\<And>tid'. tid' \<noteq> tid \<Longrightarrow> map_of (rm_requests s') tid' = map_of (rm_requests s) tid'
      \<and> request_history tid' s' = request_history tid' s \<and> request_queue tid' s' = request_queue tid' s"
    and "tid \<in> seen'" and "seen \<subseteq> seen'"
  shows "manager_inv seen' s'"
  unfolding manager_inv_def
proof
  fix t
  show "request_ok t (map_of (rm_requests s') t) (request_history t s') (request_queue t s')
      \<and> (t \<notin> seen' \<longrightarrow> map_of (rm_requests s') t = None \<and> request_history t s' = [])"
    using assms by (cases "t = tid") (auto simp: manager_inv_def)
qed

lemma manager_inv_known: "manager_inv seen s \<Longrightarrow> map_of (rm_requests s) tid = Some r \<Longrightarrow> tid \<in> seen"
  by (auto simp: manager_inv_def)

lemma manager_inv_Some:
  "manager_inv seen s \<Longrightarrow> map_of (rm_requests s) tid = Some r \<Longrightarrow>
    request_ok tid (Some r) (request_history tid s) (request_queue tid s)"
  unfolding manager_inv_def by metis

lemma manager_inv_None:
  "manager_inv seen s \<Longrightarrow> map_of (rm_requests s) tid = None \<Longrightarrow> ended (request_history tid s) \<and> request_queue tid s = []"
  unfolding manager_inv_def by (metis request_ok.simps(2))

lemma rq_delete_inv:
  assumes inv: "manager_inv seen s"
  shows "manager_inv seen (rq_delete tid s)"
proof (cases "map_of (rm_requests s) tid")
  case None
  then have same: "map_of (rm_requests (rq_delete tid s)) = map_of (rm_requests s)"
    "\<And>t. request_queue t (rq_delete tid s) = request_queue t s"
    using manager_inv_None [OF inv None] by (auto simp: fun_upd_idem)
  show ?thesis using inv unfolding manager_inv_def same manager_effects(11) .
next
  case (Some r)
  note ok = manager_inv_Some [OF inv Some]
  show ?thesis
    by (rule manager_inv_step [OF inv, of tid]) (use ok manager_inv_known [OF inv Some] in \<open>auto intro: ended_packets\<close>)
qed

lemma outcome_inv:
  assumes inv: "manager_inv seen s" and r: "map_of (rm_requests s) tid = Some r"
    and e: "log_tid e = tid" "\<not> is_packet e" "is_timeout e \<Longrightarrow> rq_timeout r"
  shows "manager_inv seen (rq_delete tid (rm_note e s))"
  by (rule manager_inv_step [OF inv, of tid])
     (use manager_inv_Some [OF inv r] manager_inv_known [OF inv r] e in \<open>auto intro!: ended_outcome\<close>)

lemma CheckResponse_inv:
  "manager_inv seen s \<Longrightarrow> manager_inv seen (snd (rm_CheckResponse msg s))"
  by (auto simp: rm_CheckResponse_def intro!: outcome_inv split: option.split)

lemma CheckResponse_bytes_inv:
  "manager_inv seen s \<Longrightarrow> manager_inv seen (snd (rm_CheckResponse_bytes data s))"
  by (auto simp: rm_CheckResponse_bytes_def intro: CheckResponse_inv split: option.split)

lemma Remove_delete: "manager_inv seen s \<Longrightarrow> rm_Remove tid s = rq_delete tid s"
proof (cases "map_of (rm_requests s) tid")
  case None
  moreover assume "manager_inv seen s"
  ultimately have "request_queue tid s = []" using manager_inv_None by blast
  then have "filter (\<lambda>m. snd m \<noteq> tid) (rm_messages s) = rm_messages s"
    by (auto simp: request_queue_def filter_empty_conv filter_id_conv)
  with None show ?thesis by (simp add: rq_delete_def rm_Remove_def)
qed (simp add: rq_delete_def rm_Remove_def)

lemma Clear_inv: "manager_inv seen s \<Longrightarrow> manager_inv seen (rm_Clear s)"
proof -
  have "manager_inv seen s \<Longrightarrow> manager_inv seen (fold rq_delete tids s)" for tids
    by (induction tids arbitrary: s) (simp_all add: rq_delete_inv)
  then show "manager_inv seen s \<Longrightarrow> manager_inv seen (rm_Clear s)" by (simp add: rm_Clear_def)
qed

definition new_request :: "stun_request \<Rightarrow> bool" where
  "new_request r \<longleftrightarrow> rq_count r = 0 \<and> \<not> rq_timeout r \<and> \<not> rq_managed r"

lemma SendDelayed_inv:
  assumes inv: "manager_inv seen s" and send: "rm_SendDelayed prepare now delay r s = Some s'"
    and new: "new_request r" "rq_id r \<notin> seen" and keeps: "\<And>m. sm_tid (prepare m) = sm_tid m"
  shows "manager_inv (insert (rq_id r) seen) s'"
proof -
  from send obtain r1 where r1: "rq_Construct prepare (r\<lparr>rq_managed := True\<rparr>) = Some r1"
    and s': "s' = rm_Post (now + delay) (rq_id r1) (rm_insert r1 s)"
    by (auto simp: rm_SendDelayed_def split: if_splits option.splits)
  have id: "rq_id r1 = rq_id r" "rq_count r1 = 0" "\<not> rq_timeout r1"
    using r1 new(1) keeps by (auto simp: rq_Construct_def rq_id_def new_request_def Let_def split: if_splits)
  have "map_of (rm_requests s) (rq_id r) = None" "request_history (rq_id r) s = []"
    using inv new(2) by (auto simp: manager_inv_def)
  moreover from this have "request_queue (rq_id r) s = []"
    using manager_inv_None [OF inv] by blast
  ultimately show ?thesis
    by (intro manager_inv_step [OF inv, of "rq_id r"]) (auto simp: s' id)
qed

lemma OnMessage_inv:
  assumes inv: "manager_inv seen s" and r: "map_of (rm_requests s) tid = Some r"
    and s1: "rm_requests s1 = rm_requests s" "rm_log s1 = rm_log s" "request_queue tid s1 = []"
      "\<And>tid'. tid' \<noteq> tid \<Longrightarrow> request_queue tid' s1 = request_queue tid' s"
  shows "manager_inv seen (rq_OnMessage now tid r s1)"
proof -
  note ok = manager_inv_Some [OF inv r]
  have h: "request_history t s1 = request_history t s" for t by (simp add: request_history_def s1)
  have "tid \<in> seen" by (rule manager_inv_known [OF inv r])
  then show ?thesis
    by (intro manager_inv_step [OF inv, of tid])
       (use ok s1(4) in \<open>auto simp: rq_OnMessage_def rq_Fire_def Let_def GetNextDelay_def rq_id_def h s1 MAX_SENDS_def
          intro!: ended_outcome\<close>)
qed

lemma take_drop_filter:
  assumes "i < length xs" and "length (filter P xs) = 1" and "P (xs ! i)"
  shows "filter P (take i xs @ drop (Suc i) xs) = []"
proof -
  have "xs = take i xs @ xs ! i # drop (Suc i) xs" using assms(1) by (rule id_take_nth_drop)
  with assms(2) have "length (filter P (take i xs @ xs ! i # drop (Suc i) xs)) = 1" by simp
  with assms(3) show ?thesis by simp
qed

lemma take_drop_other:
  assumes "i < length xs" and "\<not> P (xs ! i)"
  shows "filter P (take i xs @ drop (Suc i) xs) = filter P xs"
  by (subst (3) id_take_nth_drop [OF assms(1)]) (simp add: assms(2))

fun sent_ids :: "(nat \<times> request_event) list \<Rightarrow> bytes list" where
  "sent_ids [] = []"
| "sent_ids ((now, Send_request delay r) # es) = rq_id r # sent_ids es"
| "sent_ids (e # es) = sent_ids es"

definition fresh_requests :: "(nat \<times> request_event) list \<Rightarrow> bool" where
  "fresh_requests es \<longleftrightarrow> distinct (sent_ids es) \<and> (\<forall>now delay r. (now, Send_request delay r) \<in> set es \<longrightarrow> new_request r)"

lemma rm_step_inv:
  assumes inv: "manager_inv seen s" and step: "rm_step prepare e s = Some s'"
    and keeps: "\<And>m. sm_tid (prepare m) = sm_tid m"
    and fresh: "\<And>now delay r. e = (now, Send_request delay r) \<Longrightarrow> new_request r \<and> rq_id r \<notin> seen"
  shows "manager_inv (set (sent_ids [e]) \<union> seen) s'"
proof (cases e)
  case (Pair now ev)
  show ?thesis
  proof (cases ev)
    case (Send_request delay r)
    then show ?thesis using SendDelayed_inv [OF inv _ _ _ keeps, of now delay r s'] step fresh Pair by simp
  next
    case (Deliver_message i)
    show ?thesis
    proof (cases "i < length (rm_messages s) \<and> fst (rm_messages s ! i) \<le> now")
      case True
      define tid where "tid = snd (rm_messages s ! i)"
      define s1 where "s1 = s\<lparr>rm_messages := take i (rm_messages s) @ drop (Suc i) (rm_messages s)\<rparr>"
      from True step obtain r where r: "map_of (rm_requests s) tid = Some r" and s': "s' = rq_OnMessage now tid r s1"
        by (auto simp: Pair Deliver_message rm_Deliver_def rq_OnMessage_def tid_def s1_def Let_def split: option.splits)
      have i: "i < length (rm_messages s)" using True by simp
      have one: "length (filter (\<lambda>m. snd m = tid) (rm_messages s)) = 1"
        using manager_inv_Some [OF inv r] by (simp only: request_ok.simps request_queue_def)
      have s1: "rm_messages s1 = take i (rm_messages s) @ drop (Suc i) (rm_messages s)" by (simp add: s1_def)
      have "request_queue tid s1 = []"
        unfolding request_queue_def s1 by (rule take_drop_filter [OF i one]) (simp add: tid_def)
      moreover have "request_queue tid' s1 = request_queue tid' s" if "tid' \<noteq> tid" for tid'
        unfolding request_queue_def s1 by (rule take_drop_other [OF i]) (use that tid_def in simp)
      ultimately have "manager_inv seen s'"
        unfolding s' by (intro OnMessage_inv [OF inv r]) (simp_all add: s1_def)
      then show ?thesis by (simp add: Pair Deliver_message)
    next
      case False
      have "s' = s" using step unfolding Pair Deliver_message rm_step.simps rm_Deliver_def if_not_P [OF False] by simp
      then show ?thesis using inv by (simp add: Pair Deliver_message)
    qed
  next
    case (Receive_packet data)
    then show ?thesis using step inv CheckResponse_bytes_inv Pair by auto
  next
    case (Remove_request tid)
    then show ?thesis using step inv Remove_delete [OF inv] rq_delete_inv [OF inv] Pair by auto
  next
    case Clear_requests
    then show ?thesis using step inv Clear_inv Pair by auto
  qed
qed

lemma sent_ids_Cons: "sent_ids (e # es) = sent_ids [e] @ sent_ids es"
proof (cases e)
  case (Pair now ev)
  then show ?thesis by (cases ev) simp_all
qed

lemma rm_run_inv:
  assumes "rm_run prepare es s = Some s'" and "manager_inv seen s" and "\<And>m. sm_tid (prepare m) = sm_tid m"
    and "fresh_requests es" and "set (sent_ids es) \<inter> seen = {}"
  shows "\<exists>seen'. manager_inv seen' s'"
  using assms
proof (induction es arbitrary: s seen)
  case (Cons e es)
  from Cons.prems(1) obtain s1 where s1: "rm_step prepare e s = Some s1" "rm_run prepare es s1 = Some s'"
    by (auto split: option.splits)
  have fresh: "new_request r \<and> rq_id r \<notin> seen" if "e = (now, Send_request delay r)" for now delay r
    using Cons.prems(4,5) that by (force simp: fresh_requests_def)
  have "manager_inv (set (sent_ids [e]) \<union> seen) s1"
    by (rule rm_step_inv [OF Cons.prems(2) s1(1) Cons.prems(3) fresh])
  moreover have "fresh_requests es" "set (sent_ids es) \<inter> (set (sent_ids [e]) \<union> seen) = {}"
    using Cons.prems(4,5) by (auto simp: fresh_requests_def sent_ids_Cons [of e es])
  ultimately show ?case using Cons.IH [OF s1(2) _ Cons.prems(3)] by blast
qed auto

text \<open>
  C14.  However late the timers fire, whatever packets arrive and whenever requests are removed: a request is
  sent at most nine times and has at most one outcome, after which it is forgotten and nothing of it is
  sent any more; it times out only when it has been sent nine times.
\<close>

theorem requests_end:
  assumes "rm_run prepare es StunRequestManager = Some s" and "\<And>m. sm_tid (prepare m) = sm_tid m"
    and "fresh_requests es"
  shows "\<exists>packets outcome. request_history tid s = packets @ outcome \<and> list_all is_packet packets
    \<and> length packets \<le> 9
    \<and> (outcome = [] \<or> (\<exists>e. outcome = [e] \<and> \<not> is_packet e \<and> (is_timeout e \<longrightarrow> length packets = 9)
        \<and> map_of (rm_requests s) tid = None \<and> request_queue tid s = []))"
proof -
  have "manager_inv {} StunRequestManager"
    by (simp add: manager_inv_def StunRequestManager_def request_history_def request_queue_def ended_packets)
  from rm_run_inv [OF assms(1) this assms(2,3)] obtain seen where inv: "manager_inv seen s" by auto
  show ?thesis
  proof (cases "map_of (rm_requests s) tid")
    case None
    from manager_inv_None [OF inv None] None show ?thesis unfolding ended_def by blast
  next
    case (Some r)
    from manager_inv_Some [OF inv Some] show ?thesis
      by (intro exI [of _ "request_history tid s"] exI [of _ "[]"]) simp
  qed
qed

section \<open>The schedule\<close>

text \<open>The messages of the thread delivered exactly when they are due, \<open>n\<close> at most.\<close>

fun rm_fire :: "nat \<Rightarrow> request_manager \<Rightarrow> request_manager option" where
  "rm_fire 0 s = Some s"
| "rm_fire (Suc n) s = (case rm_messages s of
     [] \<Rightarrow> Some s
   | (t, _) # _ \<Rightarrow> (case rm_step (\<lambda>m. m) (t, Deliver_message 0) s of None \<Rightarrow> None | Some s1 \<Rightarrow> rm_fire n s1))"

lemma fire_step:
  assumes "rm_requests s = [(tid, r)]" and "rm_messages s = [(t, tid)]" and "rq_id r = tid" and "\<not> rq_timeout r"
  shows "rm_fire (Suc n) s = rm_fire n
    \<lparr>rm_requests = [(tid, r\<lparr>rq_tstamp := of_nat t, rq_count := rq_count r + 1, rq_timeout := (rq_count r + 1 = 9)\<rparr>)],
     rm_messages = [(t + 100 * min (2 ^ rq_count r) 16, tid)],
     rm_log = rm_log s @ [Packet_sent t tid (bb_data (written_message (rq_msg r)))]\<rparr>"
  using assms
  by (cases s) (simp add: rm_Deliver_def rq_Fire_def GetNextDelay_def rm_Post_def rm_insert_def rm_note_def rq_id_def MAX_SENDS_def
      DELAY_UNIT_def DELAY_MAX_FACTOR_def)

lemma fire_last:
  assumes "rm_requests s = [(tid, r)]" and "rm_messages s = [(t, tid)]" and "rq_timeout r"
  shows "rm_fire (Suc n) s = rm_fire n \<lparr>rm_requests = [], rm_messages = [], rm_log = rm_log s @ [Timed_out t tid]\<rparr>"
  using assms by (cases s) (simp add: rm_Deliver_def rq_Fire_def rq_delete_def rm_Remove_def rm_note_def)

text \<open>
  C15.  A request that is never answered ends: with timers on time it is sent at the nine times of the
  table, at first twice as long after the last time each time and then every 1.6 seconds, times out 9.5 seconds after the
  first packet, and leaves nothing behind in the manager or the queue.
\<close>

theorem unanswered_request_times_out:
  assumes "new_request r" and "sm_type (rq_msg r) \<noteq> 0"
  shows "\<exists>s. rm_SendDelayed (\<lambda>m. m) now delay r StunRequestManager = Some s
    \<and> rm_fire 10 s = Some \<lparr>rm_requests = [], rm_messages = [],
        rm_log = map (\<lambda>x. Packet_sent (now + delay + x) (rq_id r) (bb_data (written_message (rq_msg r))))
            [0, 100, 300, 700, 1500, 3100, 4700, 6300, 7900]
          @ [Timed_out (now + delay + 9500) (rq_id r)]\<rparr>"
proof -
  define s where "s = rm_Post (now + delay) (rq_id r) (rm_insert (r\<lparr>rq_managed := True\<rparr>) StunRequestManager)"
  have send: "rm_SendDelayed (\<lambda>m. m) now delay r StunRequestManager = Some s"
    using assms by (simp add: rm_SendDelayed_def new_request_def StunRequestManager_def rq_Construct_def s_def rq_id_def)
  have s: "rm_requests s = [(rq_id r, r\<lparr>rq_managed := True\<rparr>)]" "rm_messages s = [(now + delay, rq_id r)]" "rm_log s = []"
    by (simp_all add: s_def rm_Post_def rm_insert_def StunRequestManager_def rq_id_def)
  have ten: "(10 :: nat) = Suc (Suc (Suc (Suc (Suc (Suc (Suc (Suc (Suc (Suc 0)))))))))" by simp
  have "rm_fire 10 s = Some \<lparr>rm_requests = [], rm_messages = [],
        rm_log = map (\<lambda>x. Packet_sent (now + delay + x) (rq_id r) (bb_data (written_message (rq_msg r))))
            [0, 100, 300, 700, 1500, 3100, 4700, 6300, 7900]
          @ [Timed_out (now + delay + 9500) (rq_id r)]\<rparr>"
    unfolding ten using assms(1) s
    by (simp add: fire_step fire_last new_request_def rq_id_def del: rm_fire.simps(2))
  with send show ?thesis by blast
qed

definition sample_request :: stun_request where
  "sample_request = StunRequest_new ((StunMessage_new StunMessage)\<lparr>sm_type := STUN_BINDING_REQUEST\<rparr>) sample_tid"

lemma sample_request: "new_request sample_request" "sm_type (rq_msg sample_request) = 1" "rq_id sample_request = sample_tid"
  by (simp_all add: sample_request_def StunRequest_new_def new_request_def SetTransactionID_def IsValidTransactionId_def
      sample_tid_def kStunTransactionIdLength_def STUN_BINDING_REQUEST_def rq_id_def)

theorem unanswered_request_times_out_witness:
  "\<exists>s s'. rm_SendDelayed (\<lambda>m. m) 5 0 sample_request StunRequestManager = Some s
    \<and> rm_fire 10 s = Some s' \<and> rm_requests s' = [] \<and> last (rm_log s') = Timed_out 9505 sample_tid"
  using unanswered_request_times_out [OF sample_request(1), of 5 0] by (auto simp: sample_request)

theorem requests_end_witness:
  "\<exists>s. rm_run (\<lambda>m. m) [(5, Send_request 0 sample_request), (6, Deliver_message 0)] StunRequestManager = Some s
    \<and> (\<exists>packets outcome. request_history sample_tid s = packets @ outcome \<and> length packets \<le> 9)"
proof -
  let ?es = "[(5, Send_request 0 sample_request), (6, Deliver_message 0)]"
  have "rm_run (\<lambda>m. m) ?es StunRequestManager \<noteq> None"
    using sample_request
    by (simp add: rm_SendDelayed_def rm_Deliver_def rq_Fire_def new_request_def StunRequestManager_def rq_Construct_def rm_Post_def rm_insert_def
        rq_id_def)
  then obtain s where s: "rm_run (\<lambda>m. m) ?es StunRequestManager = Some s" by blast
  have "fresh_requests ?es" using sample_request by (simp add: fresh_requests_def)
  from requests_end [OF s _ this, of sample_tid] s show ?thesis by blast
qed

end
