(* ===== verification/HexCode.thy ===== *)
theory HexCode
  imports Digest
begin

text \<open>
  The hexadecimal routines of \<^verbatim>\<open>base/stringencode.cc\<close> and the forms of \<^verbatim>\<open>ComputeDigest\<close> and
  \<^verbatim>\<open>ComputeHmac\<close> over strings of \<^verbatim>\<open>messagedigest.cc\<close>, whose results they print.  A routine that fills
  a buffer returns the characters it wrote before the terminating zero; the decoder returns its
  count and the bytes it wrote, which are not none when it fails half way.
\<close>

section \<open>Digits\<close>

definition HEX :: bytes where
  "HEX = [48, 49, 50, 51, 52, 53, 54, 55, 56, 57, 97, 98, 99, 100, 101, 102]"

definition hex_encode_digit :: "uint8 \<Rightarrow> uint8" where
  "hex_encode_digit val = (if val < 16 then HEX ! unat val else 33)"

definition hex_decode_digit :: "uint8 \<Rightarrow> uint8 option" where
  "hex_decode_digit ch =
     (if 48 \<le> ch \<and> ch \<le> 57 then Some (ch - 48)
      else if 65 \<le> ch \<and> ch \<le> 90 then Some (ch - 65 + 10)
      else if 97 \<le> ch \<and> ch \<le> 122 then Some (ch - 97 + 10)
      else None)"

section \<open>Strings\<close>

text \<open>The loop over the source; a delimiter of zero is none.\<close>

fun hex_encode_loop :: "uint8 \<Rightarrow> bytes \<Rightarrow> bytes" where
  "hex_encode_loop delimiter [] = []"
| "hex_encode_loop delimiter (ch # rest) =
     [hex_encode_digit (drop_bit 4 ch AND 0xF), hex_encode_digit (ch AND 0xF)]
     @ (if delimiter \<noteq> 0 \<and> rest \<noteq> [] then [delimiter] else [])
     @ hex_encode_loop delimiter rest"

definition hex_encode_buffer :: "nat \<Rightarrow> bytes \<Rightarrow> uint8 \<Rightarrow> bytes" where
  "hex_encode_buffer buflen source delimiter =
     (let needed = (if delimiter \<noteq> 0 then length source * 3 else length source * 2 + 1)
      in if buflen = 0 then []
         else if buflen < needed then []
         else hex_encode_loop delimiter source)"

definition hex_encode_with_delimiter :: "bytes \<Rightarrow> uint8 \<Rightarrow> bytes" where
  "hex_encode_with_delimiter source delimiter = hex_encode_buffer (length source * 3) source delimiter"

definition hex_encode :: "bytes \<Rightarrow> bytes" where
  "hex_encode source = hex_encode_with_delimiter source 0"

fun hex_decode_loop :: "uint8 \<Rightarrow> bytes \<Rightarrow> bytes \<Rightarrow> nat \<times> bytes" where
  "hex_decode_loop delimiter [] out = (length out, out)"
| "hex_decode_loop delimiter [_] out = (0, out)"
| "hex_decode_loop delimiter (c1 # c2 # rest) out =
     (case (hex_decode_digit c1, hex_decode_digit c2) of
        (Some h1, Some h2) \<Rightarrow>
          (let out' = out @ [push_bit 4 h1 OR h2]
           in if delimiter \<noteq> 0 \<and> length rest > 1 then
                (case rest of
                   c # rest' \<Rightarrow> if c \<noteq> delimiter then (0, out') else hex_decode_loop delimiter rest' out'
                 | [] \<Rightarrow> (length out', out'))
              else hex_decode_loop delimiter rest out')
      | _ \<Rightarrow> (0, out))"

definition hex_decode_with_delimiter :: "nat \<Rightarrow> bytes \<Rightarrow> uint8 \<Rightarrow> nat \<times> bytes" where
  "hex_decode_with_delimiter buflen source delimiter =
     (let needed = (if delimiter \<noteq> 0 then (length source + 1) div 3 else length source div 2)
      in if buflen = 0 then (0, [])
         else if buflen < needed then (0, [])
         else hex_decode_loop delimiter source [])"

definition hex_decode :: "nat \<Rightarrow> bytes \<Rightarrow> nat \<times> bytes" where
  "hex_decode buflen source = hex_decode_with_delimiter buflen source 0"

section \<open>Digests of strings\<close>

text \<open>\<open>mem\<close> is the memory of the new digest object.  The output array has the size of the digest, so
  all of it is written.\<close>

definition ComputeDigest_string :: "bytes \<Rightarrow> string \<Rightarrow> bytes \<Rightarrow> bytes option" where
  "ComputeDigest_string mem alg input =
     (if alg = DIGEST_MD5 then Some (hex_encode (ComputeDigest mem alg input (md_Size Md5Digest)))
      else if alg = DIGEST_SHA_1 then Some (hex_encode (ComputeDigest mem alg input (md_Size Sha1Digest)))
      else None)"

definition ComputeHmac_string :: "bytes \<Rightarrow> string \<Rightarrow> bytes \<Rightarrow> bytes \<Rightarrow> bytes option" where
  "ComputeHmac_string mem alg key input =
     (if alg = DIGEST_MD5 then Some (hex_encode (ComputeHmac mem alg key input (md_Size Md5Digest)))
      else if alg = DIGEST_SHA_1 then Some (hex_encode (ComputeHmac mem alg key input (md_Size Sha1Digest)))
      else None)"

text \<open>The forms that return the string leave it empty for an unknown algorithm.\<close>

definition ComputeDigest_text :: "bytes \<Rightarrow> string \<Rightarrow> bytes \<Rightarrow> bytes" where
  "ComputeDigest_text mem alg input = (case ComputeDigest_string mem alg input of Some s \<Rightarrow> s | None \<Rightarrow> [])"

definition ComputeHmac_text :: "bytes \<Rightarrow> string \<Rightarrow> bytes \<Rightarrow> bytes \<Rightarrow> bytes" where
  "ComputeHmac_text mem alg key input = (case ComputeHmac_string mem alg key input of Some s \<Rightarrow> s | None \<Rightarrow> [])"

section \<open>Round trip\<close>

lemma decode_encode_digit:
  assumes "v < 16"
  shows "hex_decode_digit (hex_encode_digit v) = Some v"
proof -
  have "v = of_nat (unat v)" by simp
  moreover have "unat v \<in> set [0..<16]" using assms by (simp add: word_lt_nat)
  moreover have "\<forall>n \<in> set [0..<16]. hex_decode_digit (hex_encode_digit (of_nat n)) = Some (of_nat n)"
    by code_simp
  ultimately show ?thesis by metis
qed

lemma nibbles:
  "drop_bit 4 ch AND 0xF < (16 :: uint8)" "ch AND 0xF < (16 :: uint8)"
  "push_bit 4 (drop_bit 4 ch AND 0xF) OR (ch AND 0xF) = (ch :: uint8)"
proof -
  have m: "(0xF :: uint8) = mask 4" by (simp add: mask_eq_exp_minus_1)
  show "drop_bit 4 ch AND 0xF < (16 :: uint8)" "ch AND 0xF < (16 :: uint8)"
    using and_mask_less' [of 4 "drop_bit 4 ch"] and_mask_less' [of 4 ch] unfolding m by simp_all
  show "push_bit 4 (drop_bit 4 ch AND 0xF) OR (ch AND 0xF) = ch"
    unfolding m by (rule bit_word_eqI) (auto simp: bit_simps)
qed

lemma nibbles_joined: "push_bit 4 (drop_bit 4 ch) AND 240 OR ch AND 15 = (ch :: uint8)"
  using nibbles(3) [of ch] by simp

lemma length_hex_loop:
  "length (hex_encode_loop d bs) = (if d = 0 then 2 * length bs else 3 * length bs - 1)"
  by (induction bs) (auto simp: Suc_diff_le)

lemma length_hex_encode [simp]: "length (hex_encode bs) = 2 * length bs"
  by (cases bs) (simp_all add: hex_encode_def hex_encode_with_delimiter_def hex_encode_buffer_def
      length_hex_loop)

lemma hex_decode_loop_encode:
  "hex_decode_loop d (hex_encode_loop d bs) out = (length out + length bs, out @ bs)"
proof (induction bs arbitrary: out)
  case (Cons ch rest)
  show ?case
  proof (cases rest)
    case Nil
    then show ?thesis by (simp add: decode_encode_digit nibbles nibbles_joined)
  next
    case (Cons c r)
    then have "rest \<noteq> []" "0 < length (hex_encode_loop d rest)" by simp_all
    then show ?thesis using Cons.IH [of "out @ [ch]"]
      by (cases "d = 0") (simp_all add: decode_encode_digit nibbles nibbles_joined Let_def)
  qed
qed simp

text \<open>
  Decoding an encoded byte string gives it back, with every delimiter (a hexadecimal digit too) and
  without one, whenever the buffers are large enough for the routines to accept them.
\<close>

theorem hex_roundtrip:
  assumes "length bs \<le> n" and "0 < n"
  shows "hex_decode_with_delimiter n (hex_encode_with_delimiter bs d) d = (length bs, bs)"
proof (cases "bs = []")
  case False
  then have e: "hex_encode_with_delimiter bs d = hex_encode_loop d bs"
    by (cases bs) (auto simp: hex_encode_with_delimiter_def hex_encode_buffer_def Let_def)
  show ?thesis using assms False
    by (simp add: e hex_decode_with_delimiter_def length_hex_loop hex_decode_loop_encode)
qed (use assms in \<open>simp add: hex_encode_with_delimiter_def hex_encode_buffer_def hex_decode_with_delimiter_def\<close>)

theorem hex_roundtrip_witness:
  "hex_decode_with_delimiter 3 (hex_encode_with_delimiter [0, 171, 255] 58) 58 = (3, [0, 171, 255])"
  using hex_roundtrip [of "[0, 171, 255]" 3 58] by simp

text \<open>The decoder takes all letters for digits: \<^verbatim>\<open>zz\<close> is the byte of 35 in both halves.\<close>

theorem hex_decode_beyond_f: "hex_decode 1 [122, 122] = (1, [0x33])"
  by (simp add: hex_decode_def hex_decode_with_delimiter_def hex_decode_digit_def)

end
