(* ===== verification/StringEncode.thy ===== *)
theory StringEncode
  imports HexCode
begin

text \<open>
  The rest of \<^verbatim>\<open>base/stringencode.cc\<close>: escaping and encoding of characters, URLs, UTF-8, HTML and
  XML text, and the splitting of strings.  A routine that fills a buffer returns the characters before the
  terminating zero that it writes behind them; \<open>None\<close> says that this zero is outside the buffer.  A string of illegal
  characters ends with a zero, which \<^verbatim>\<open>strchr\<close> finds too.
\<close>

section \<open>Escaping and encoding with any escape character\<close>

definition strchr :: "bytes \<Rightarrow> uint8 \<Rightarrow> bool" where
  "strchr s ch \<longleftrightarrow> ch \<in> set s \<or> ch = 0"

fun escape_loop :: "nat \<Rightarrow> bytes \<Rightarrow> uint8 \<Rightarrow> bytes \<Rightarrow> bytes \<Rightarrow> bytes" where
  "escape_loop buflen illegal esc [] out = out"
| "escape_loop buflen illegal esc (ch # src) out =
     (if \<not> length out + 1 < buflen then out
      else if ch = esc \<or> strchr illegal ch then
        (if length out + 2 \<ge> buflen then out else escape_loop buflen illegal esc src (out @ [esc, ch]))
      else escape_loop buflen illegal esc src (out @ [ch]))"

definition escape :: "nat \<Rightarrow> bytes \<Rightarrow> bytes \<Rightarrow> uint8 \<Rightarrow> bytes" where
  "escape buflen source illegal esc = (if buflen = 0 then [] else escape_loop buflen illegal esc source [])"

fun unescape_loop :: "nat \<Rightarrow> uint8 \<Rightarrow> bytes \<Rightarrow> bytes \<Rightarrow> bytes" where
  "unescape_loop buflen esc [] out = out"
| "unescape_loop buflen esc [ch] out = (if \<not> length out + 1 < buflen then out else out @ [ch])"
| "unescape_loop buflen esc (ch # ch2 # src) out =
     (if \<not> length out + 1 < buflen then out
      else if ch = esc then unescape_loop buflen esc src (out @ [ch2])
      else unescape_loop buflen esc (ch2 # src) (out @ [ch]))"

definition unescape :: "nat \<Rightarrow> bytes \<Rightarrow> uint8 \<Rightarrow> bytes" where
  "unescape buflen source esc = (if buflen = 0 then [] else unescape_loop buflen esc source [])"

definition hex_pair :: "uint8 \<Rightarrow> bytes" where
  "hex_pair ch = [hex_encode_digit (drop_bit 4 ch AND 0xF), hex_encode_digit (ch AND 0xF)]"

fun encode_chars_loop :: "nat \<Rightarrow> bytes \<Rightarrow> uint8 \<Rightarrow> bytes \<Rightarrow> bytes \<Rightarrow> bytes" where
  "encode_chars_loop buflen illegal esc [] out = out"
| "encode_chars_loop buflen illegal esc (ch # src) out =
     (if \<not> length out + 1 < buflen then out
      else if ch \<noteq> esc \<and> \<not> strchr illegal ch then encode_chars_loop buflen illegal esc src (out @ [ch])
      else if length out + 3 \<ge> buflen then out
      else encode_chars_loop buflen illegal esc src (out @ esc # hex_pair ch))"

definition encode_chars :: "nat \<Rightarrow> bytes \<Rightarrow> bytes \<Rightarrow> uint8 \<Rightarrow> bytes" where
  "encode_chars buflen source illegal esc = (if buflen = 0 then [] else encode_chars_loop buflen illegal esc source [])"

text \<open>Two hexadecimal digits behind an escape character.\<close>

fun hex_escape :: "bytes \<Rightarrow> uint8 option" where
  "hex_escape (c1 # c2 # _) =
     (case (hex_decode_digit c1, hex_decode_digit c2) of
        (Some h1, Some h2) \<Rightarrow> Some (push_bit 4 h1 OR h2) | _ \<Rightarrow> None)"
| "hex_escape _ = None"

function decode_chars_loop :: "nat \<Rightarrow> uint8 \<Rightarrow> bytes \<Rightarrow> bytes \<Rightarrow> bytes" where
  "decode_chars_loop buflen esc [] out = out"
| "decode_chars_loop buflen esc (ch # src) out =
     (if \<not> length out + 1 < buflen then out
      else case (if ch = esc then hex_escape src else None) of
          Some v \<Rightarrow> decode_chars_loop buflen esc (drop 2 src) (out @ [v])
        | None \<Rightarrow> decode_chars_loop buflen esc src (out @ [ch]))"
  by pat_completeness auto
termination by (relation "measure (\<lambda>(buflen, esc, src, out). length src)") auto

definition decode_chars :: "nat \<Rightarrow> bytes \<Rightarrow> uint8 \<Rightarrow> bytes" where
  "decode_chars buflen source esc = (if buflen = 0 then [] else decode_chars_loop buflen esc source [])"

section \<open>URLs\<close>

definition URL_UNSAFE :: uint8 where "URL_UNSAFE = 0x1"
definition XML_UNSAFE :: uint8 where "XML_UNSAFE = 0x2"
definition HTML_UNSAFE :: uint8 where "HTML_UNSAFE = 0x2"

definition ASCII_CLASS :: bytes where
  "ASCII_CLASS =
     [1,1,1,1,1,1,1,1,1,1,1,1,1,1,1,1,1,1,1,1,1,1,1,1,1,1,1,1,1,1,1,1,
      1,0,3,1,1,1,3,2,0,0,0,1,1,0,0,1,0,0,0,0,0,0,0,0,0,0,1,1,3,1,3,1,
      1,0,0,0,0,0,0,0,0,0,0,0,0,0,0,0,0,0,0,0,0,0,0,0,0,0,0,1,1,1,1,0,
      1,0,0,0,0,0,0,0,0,0,0,0,0,0,0,0,0,0,0,0,0,0,0,0,0,0,0,1,1,1,0,1]"

definition in_class :: "uint8 \<Rightarrow> uint8 \<Rightarrow> bool" where
  "in_class ch c \<longleftrightarrow> ch < 128 \<and> ASCII_CLASS ! unat ch AND c \<noteq> 0"

fun url_encode_loop :: "nat \<Rightarrow> bytes \<Rightarrow> bytes \<Rightarrow> bytes" where
  "url_encode_loop buflen [] out = out"
| "url_encode_loop buflen (ch # src) out =
     (if \<not> length out + 1 < buflen then out
      else if in_class ch URL_UNSAFE then
        (if length out + 3 \<ge> buflen then out else url_encode_loop buflen src (out @ 37 # hex_pair ch))
      else url_encode_loop buflen src (out @ [ch]))"

definition url_encode :: "nat \<Rightarrow> bytes \<Rightarrow> bytes" where
  "url_encode buflen source = (if buflen = 0 then [] else url_encode_loop buflen source [])"

function url_decode_loop :: "nat \<Rightarrow> bytes \<Rightarrow> bytes \<Rightarrow> bytes" where
  "url_decode_loop buflen [] out = out"
| "url_decode_loop buflen (ch # src) out =
     (if \<not> length out + 1 < buflen then out
      else if ch = 43 then url_decode_loop buflen src (out @ [32])
      else case (if ch = 37 then hex_escape src else None) of
          Some v \<Rightarrow> url_decode_loop buflen (drop 2 src) (out @ [v])
        | None \<Rightarrow> url_decode_loop buflen src (out @ [ch]))"
  by pat_completeness auto
termination by (relation "measure (\<lambda>(buflen, src, out). length src)") auto

definition url_decode :: "nat \<Rightarrow> bytes \<Rightarrow> bytes" where
  "url_decode buflen source = (if buflen = 0 then [] else url_decode_loop buflen source [])"

text \<open>\<^verbatim>\<open>transform\<close> with a bound, and \<^verbatim>\<open>s_transform\<close> with the size the routine asks for when it has no buffer.\<close>

definition transform :: "nat \<Rightarrow> bytes \<Rightarrow> (nat \<Rightarrow> bytes \<Rightarrow> bytes) \<Rightarrow> bytes" where
  "transform maxlen source t = t (maxlen + 1) source"

definition s_transform :: "(nat \<Rightarrow> nat) \<Rightarrow> (nat \<Rightarrow> bytes \<Rightarrow> bytes) \<Rightarrow> bytes \<Rightarrow> bytes" where
  "s_transform needed t source = t (needed (length source)) source"

definition s_url_encode :: "bytes \<Rightarrow> bytes" where
  "s_url_encode = s_transform (\<lambda>srclen. srclen * 3 + 1) url_encode"

definition s_url_decode :: "bytes \<Rightarrow> bytes" where
  "s_url_decode = s_transform (\<lambda>srclen. srclen + 1) url_decode"

section \<open>UTF-8\<close>

text \<open>The value and the length; the length of an invalid sequence is zero.\<close>

definition utf8_decode :: "bytes \<Rightarrow> (uint64 \<times> nat) option" where
  "utf8_decode s =
     (if s ! 0 AND 0x80 = 0 then Some (ucast (s ! 0), 1)
      else if length s < 2 \<or> s ! 1 AND 0xC0 \<noteq> 0x80 then None
      else
        let value16 = (ucast (s ! 1 AND 0x3F) :: uint64)
        in if s ! 0 AND 0xE0 = 0xC0 then Some (push_bit 6 (ucast (s ! 0 AND 0x1F)) OR value16, 2)
           else if length s < 3 \<or> s ! 2 AND 0xC0 \<noteq> 0x80 then None
           else
             let value16 = push_bit 6 value16 OR ucast (s ! 2 AND 0x3F)
             in if s ! 0 AND 0xF0 = 0xE0 then Some (push_bit 12 (ucast (s ! 0 AND 0x0F)) OR value16, 3)
                else if length s < 4 \<or> s ! 3 AND 0xC0 \<noteq> 0x80 then None
                else
                  let value16 = push_bit 6 value16 OR ucast (s ! 3 AND 0x3F)
                  in if s ! 0 AND 0xF8 = 0xF0 then Some (push_bit 18 (ucast (s ! 0 AND 0x07)) OR value16, 4)
                     else None)"

text \<open>The bytes written; none for a value that is too large or does not fit.\<close>

definition utf8_encode :: "nat \<Rightarrow> uint64 \<Rightarrow> bytes" where
  "utf8_encode buflen value =
     (if value \<le> 0x7F \<and> buflen \<ge> 1 then [ucast value]
      else if value \<le> 0x7FF \<and> buflen \<ge> 2 then
        [0xC0 OR ucast (drop_bit 6 value), 0x80 OR ucast (value AND 0x3F)]
      else if value \<le> 0xFFFF \<and> buflen \<ge> 3 then
        [0xE0 OR ucast (drop_bit 12 value), 0x80 OR ucast (drop_bit 6 value AND 0x3F), 0x80 OR ucast (value AND 0x3F)]
      else if value \<le> 0x1FFFFF \<and> buflen \<ge> 4 then
        [0xF0 OR ucast (drop_bit 18 value), 0x80 OR ucast (drop_bit 12 value AND 0x3F),
         0x80 OR ucast (drop_bit 6 value AND 0x3F), 0x80 OR ucast (value AND 0x3F)]
      else [])"

section \<open>HTML and XML\<close>

definition lt_seq :: bytes where "lt_seq = [38, 108, 116, 59]"
definition gt_seq :: bytes where "gt_seq = [38, 103, 116, 59]"
definition apos_seq :: bytes where "apos_seq = [38, 97, 112, 111, 115, 59]"
definition quot_seq :: bytes where "quot_seq = [38, 113, 117, 111, 116, 59]"
definition amp_seq :: bytes where "amp_seq = [38, 97, 109, 112, 59]"

definition html_seq :: "uint8 \<Rightarrow> bytes" where
  "html_seq ch = (if ch = 60 then lt_seq else if ch = 62 then gt_seq
     else if ch = 39 then [38, 35, 51, 57, 59] else if ch = 34 then quot_seq else amp_seq)"

definition xml_seq :: "uint8 \<Rightarrow> bytes" where
  "xml_seq ch = (if ch = 60 then lt_seq else if ch = 62 then gt_seq
     else if ch = 39 then apos_seq else if ch = 34 then quot_seq else amp_seq)"

text \<open>\<^verbatim>\<open>sprintf\<close> of a decimal number.\<close>

function decimal :: "nat \<Rightarrow> bytes" where
  "decimal n = (if n < 10 then [of_nat (48 + n)] else decimal (n div 10) @ [of_nat (48 + n mod 10)])"
  by pat_completeness auto
termination by (relation "measure id") auto

declare decimal.simps [simp del]

definition number_seq :: "uint64 \<Rightarrow> bytes" where
  "number_seq val = [38, 35] @ decimal (unat val) @ [59]"

function html_encode_loop :: "nat \<Rightarrow> bytes \<Rightarrow> bytes \<Rightarrow> bytes" where
  "html_encode_loop buflen [] out = out"
| "html_encode_loop buflen (ch # src) out =
     (if \<not> length out + 1 < buflen then out
      else if ch < 128 then
        (if in_class ch HTML_UNSAFE then
           (if length out + length (html_seq ch) \<ge> buflen then out
            else html_encode_loop buflen src (out @ html_seq ch))
         else html_encode_loop buflen src (out @ [ch]))
      else
        let (val, vallen) = (case utf8_decode (ch # src) of Some r \<Rightarrow> r | None \<Rightarrow> (ucast ch, 1))
        in if length out + length (number_seq val) \<ge> buflen then out
           else html_encode_loop buflen (drop (vallen - 1) src) (out @ number_seq val))"
  by pat_completeness auto
termination by (relation "measure (\<lambda>(buflen, src, out). length src)") auto

definition html_encode :: "nat \<Rightarrow> bytes \<Rightarrow> bytes" where
  "html_encode buflen source = (if buflen = 0 then [] else html_encode_loop buflen source [])"

fun xml_encode_loop :: "nat \<Rightarrow> bytes \<Rightarrow> bytes \<Rightarrow> bytes" where
  "xml_encode_loop buflen [] out = out"
| "xml_encode_loop buflen (ch # src) out =
     (if \<not> length out + 1 < buflen then out
      else if in_class ch XML_UNSAFE then
        (if length out + length (xml_seq ch) \<ge> buflen then out
         else xml_encode_loop buflen src (out @ xml_seq ch))
      else xml_encode_loop buflen src (out @ [ch]))"

definition xml_encode :: "nat \<Rightarrow> bytes \<Rightarrow> bytes" where
  "xml_encode buflen source = (if buflen = 0 then [] else xml_encode_loop buflen source [])"

text \<open>\<^verbatim>\<open>strtoul\<close>: white space, a sign, for base 16 a prefix in front of a digit, then digits; the value,
  negated modulo \<open>2 ^ 64\<close> by a minus sign, is the largest one when it does not fit.  Without a digit nothing is used.\<close>

definition c_space :: "uint8 \<Rightarrow> bool" where
  "c_space ch \<longleftrightarrow> ch = 32 \<or> 9 \<le> ch \<and> ch \<le> 13"

definition c_digit :: "nat \<Rightarrow> uint8 \<Rightarrow> nat option" where
  "c_digit int_base ch =
     (let v = (if 48 \<le> ch \<and> ch \<le> 57 then unat ch - 48
               else if 65 \<le> ch \<and> ch \<le> 90 then unat ch - 65 + 10
               else if 97 \<le> ch \<and> ch \<le> 122 then unat ch - 97 + 10 else 36)
      in if v < int_base then Some v else None)"

definition is_c_digit :: "nat \<Rightarrow> uint8 \<Rightarrow> bool" where
  "is_c_digit int_base ch \<longleftrightarrow> c_digit int_base ch \<noteq> None"

definition c_value :: "nat \<Rightarrow> bytes \<Rightarrow> nat" where
  "c_value int_base ds = foldl (\<lambda>v ch. v * int_base + the (c_digit int_base ch)) 0 ds"

definition strtoul :: "nat \<Rightarrow> bytes \<Rightarrow> uint64 \<times> bytes" where
  "strtoul int_base s =
     (let s1 = dropWhile c_space s;
          neg = (s1 \<noteq> [] \<and> hd s1 = 45);
          s2 = (if s1 \<noteq> [] \<and> (hd s1 = 45 \<or> hd s1 = 43) then tl s1 else s1);
          s3 = (if int_base = 16 \<and> length s2 > 2 \<and> s2 ! 0 = 48 \<and> (s2 ! 1 = 120 \<or> s2 ! 1 = 88)
                  \<and> is_c_digit 16 (s2 ! 2) then drop 2 s2 else s2);
          ds = takeWhile (is_c_digit int_base) s3;
          v = c_value int_base ds
      in if ds = [] then (0, s)
         else (if v \<ge> 2 ^ 64 then - 1 else if neg then - of_nat v else of_nat v, drop (length ds) s3))"

text \<open>The number behind \<^verbatim>\<open>&#\<close> and the text behind its semicolon.  \<^verbatim>\<open>strtoul\<close> may read past the end of the
  text; wherever it stops there, the end is not inside the text and the escape is not accepted.\<close>

definition xml_number :: "bytes \<Rightarrow> (uint64 \<times> bytes) option" where
  "xml_number s =
     (let (val, rest) = (if s \<noteq> [] \<and> hd s = 120 then strtoul 16 (tl s) else strtoul 10 s)
      in case rest of c # r \<Rightarrow> (if c = 59 then Some (val, r) else None) | [] \<Rightarrow> None)"

lemma length_dropWhile_tl: "length (dropWhile P s) \<le> length s"
  by (simp add: length_dropWhile_le)

lemma strtoul_rest: "strtoul b s = (v, r) \<Longrightarrow> length r \<le> length s"
proof -
  have "length (dropWhile c_space s) \<le> length s" by (rule length_dropWhile_le)
  then show "strtoul b s = (v, r) \<Longrightarrow> length r \<le> length s"
    by (auto simp: strtoul_def Let_def split: if_splits)
qed

lemma xml_number_rest: "xml_number s = Some (v, r) \<Longrightarrow> length r < length s"
  by (cases s) (auto simp: xml_number_def split: if_splits prod.splits list.splits dest!: strtoul_rest)

function xml_decode_loop :: "nat \<Rightarrow> bytes \<Rightarrow> bytes \<Rightarrow> bytes" where
  "xml_decode_loop buflen [] out = out"
| "xml_decode_loop buflen (ch # src) out =
     (if \<not> length out + 1 < buflen then out
      else if ch \<noteq> 38 then xml_decode_loop buflen src (out @ [ch])
      else if take 3 src = tl lt_seq then xml_decode_loop buflen (drop 3 src) (out @ [60])
      else if take 3 src = tl gt_seq then xml_decode_loop buflen (drop 3 src) (out @ [62])
      else if take 5 src = tl apos_seq then xml_decode_loop buflen (drop 5 src) (out @ [39])
      else if take 5 src = tl quot_seq then xml_decode_loop buflen (drop 5 src) (out @ [34])
      else if take 4 src = tl amp_seq then xml_decode_loop buflen (drop 4 src) (out @ [38])
      else if src \<noteq> [] \<and> hd src = 35 then
        (case xml_number (tl src) of
           None \<Rightarrow> out
         | Some (val, rest) \<Rightarrow>
             let e = utf8_encode (buflen - length out) val
             in if e = [] then out else xml_decode_loop buflen rest (out @ e))
      else out)"
  by pat_completeness auto
termination
  by (relation "measure (\<lambda>(buflen, src, out). length src)")
     (auto dest!: xml_number_rest)

text \<open>The terminating zero goes to the position behind the text.\<close>

definition xml_decode :: "nat \<Rightarrow> bytes \<Rightarrow> bytes option" where
  "xml_decode buflen source =
     (if buflen = 0 then Some []
      else let out = xml_decode_loop buflen source [] in if length out < buflen then Some out else None)"

definition html_decode :: "nat \<Rightarrow> bytes \<Rightarrow> bytes option" where
  "html_decode = xml_decode"

section \<open>Fields\<close>

text \<open>The loop over the characters; \<open>cur\<close> is the text since \<open>last\<close>.\<close>

fun tokenize_loop :: "uint8 \<Rightarrow> bytes \<Rightarrow> bytes \<Rightarrow> bytes list" where
  "tokenize_loop delimiter [] cur = (if cur \<noteq> [] then [cur] else [])"
| "tokenize_loop delimiter (c # src) cur =
     (if c = delimiter then (if cur \<noteq> [] then [cur] else []) @ tokenize_loop delimiter src []
      else tokenize_loop delimiter src (cur @ [c]))"

definition tokenize :: "bytes \<Rightarrow> uint8 \<Rightarrow> bytes list" where
  "tokenize source delimiter = tokenize_loop delimiter source []"

definition tokenize_append :: "bytes \<Rightarrow> uint8 \<Rightarrow> bytes list \<Rightarrow> bytes list" where
  "tokenize_append source delimiter fs = fs @ tokenize source delimiter"

fun find_char :: "uint8 \<Rightarrow> bytes \<Rightarrow> nat option" where
  "find_char c [] = None"
| "find_char c (x # xs) = (if x = c then Some 0 else map_option Suc (find_char c xs))"

text \<open>The part before the start mark is cut one character short of it.\<close>

function tokenize_marks_loop :: "uint8 \<Rightarrow> uint8 \<Rightarrow> uint8 \<Rightarrow> bytes \<Rightarrow> bytes list \<Rightarrow> bytes list" where
  "tokenize_marks_loop delimiter start_mark end_mark remain fs =
     (case find_char start_mark remain of
        None \<Rightarrow> tokenize_append remain delimiter fs
      | Some start_pos \<Rightarrow>
          (case find_char end_mark (drop (Suc start_pos) remain) of
             None \<Rightarrow> tokenize_append remain delimiter fs
           | Some n \<Rightarrow>
               (let pre_mark = (if start_pos > 0 then take (start_pos - 1) remain else []);
                    marked = take n (drop (Suc start_pos) remain)
                in tokenize_marks_loop delimiter start_mark end_mark (drop (Suc (Suc start_pos + n)) remain)
                     (tokenize_append pre_mark delimiter fs @ [marked]))))"
  by pat_completeness auto
termination
proof (relation "measure (\<lambda>(d, a, b, remain, fs). length remain)", goal_cases)
  case (2 d a b remain fs i)
  then have "remain \<noteq> []" by auto
  then show ?case by (simp add: diff_less)
qed simp

declare tokenize_marks_loop.simps [simp del]

definition tokenize_marks :: "bytes \<Rightarrow> uint8 \<Rightarrow> uint8 \<Rightarrow> uint8 \<Rightarrow> bytes list" where
  "tokenize_marks source delimiter start_mark end_mark =
     tokenize_marks_loop delimiter start_mark end_mark source []"

fun split_loop :: "uint8 \<Rightarrow> bytes \<Rightarrow> bytes \<Rightarrow> bytes list" where
  "split_loop delimiter [] cur = [cur]"
| "split_loop delimiter (c # src) cur =
     (if c = delimiter then cur # split_loop delimiter src [] else split_loop delimiter src (cur @ [c]))"

definition split_fields :: "bytes \<Rightarrow> uint8 \<Rightarrow> bytes list" where
  "split_fields source delimiter = split_loop delimiter source []"

text \<open>A character is signed: those from 128 on count as less than 32.\<close>

definition make_char_safe_for_filename :: "uint8 \<Rightarrow> uint8" where
  "make_char_safe_for_filename c =
     (if sint c < 32 then 95
      else if c \<in> set [60, 62, 58, 34, 47, 92, 124, 42, 63] then 95
      else c)"

end
