(* ===== verification/Base64.thy ===== *)
theory Base64
  imports Prelude
begin

text \<open>
  \<^verbatim>\<open>base/base64.cc\<close>: the encoder and the decoder with its parse, padding and termination
  flags.  Text is a list of bytes, as the code indexes its tables by unsigned characters.
  \<open>DecodeFromArray\<close> is \<open>None\<close> when one of its assertions on the flags fails; otherwise it
  gives the code's result, the decoded bytes and the position where decoding stopped.
\<close>

section \<open>The tables\<close>

definition kPad :: uint8 where "kPad = 61"

abbreviation pd :: uint8 where "pd \<equiv> 0xFD"
abbreviation sp :: uint8 where "sp \<equiv> 0xFE"
abbreviation il :: uint8 where "il \<equiv> 0xFF"

text \<open>A-Z, a-z, 0-9, + and /.\<close>

definition Base64Table :: bytes where
  "Base64Table = map of_nat ([65..<91] @ [97..<123] @ [48..<58] @ [43, 47])"

definition DecodeTable :: bytes where
  "DecodeTable = [
    il, il, il, il, il, il, il, il, il, sp,
    sp, sp, sp, sp, il, il, il, il, il, il,
    il, il, il, il, il, il, il, il, il, il,
    il, il, sp, il, il, il, il, il, il, il,
    il, il, il, 62, il, il, il, 63, 52, 53,
    54, 55, 56, 57, 58, 59, 60, 61, il, il,
    il, pd, il, il, il, 0, 1, 2, 3, 4,
    5, 6, 7, 8, 9, 10, 11, 12, 13, 14,
    15, 16, 17, 18, 19, 20, 21, 22, 23, 24,
    25, il, il, il, il, il, il, 26, 27, 28,
    29, 30, 31, 32, 33, 34, 35, 36, 37, 38,
    39, 40, 41, 42, 43, 44, 45, 46, 47, 48,
    49, 50, 51, il, il, il, il, il, il, il,
    il, il, il, il, il, il, il, il, il, il,
    il, il, il, il, il, il, il, il, il, il,
    il, il, il, il, il, il, il, il, il, il,
    il, il, il, il, il, il, il, il, il, il,
    il, il, il, il, il, il, il, il, il, il,
    il, il, il, il, il, il, il, il, il, il,
    il, il, il, il, il, il, il, il, il, il,
    il, il, il, il, il, il, il, il, il, il,
    il, il, il, il, il, il, il, il, il, il,
    il, il, il, il, il, il, il, il, il, il,
    il, il, il, il, il, il, il, il, il, il,
    il, il, il, il, il, il, il, il, il, il,
    il, il, il, il, il, il]"

section \<open>Characters\<close>

definition IsBase64Char :: "uint8 \<Rightarrow> bool" where
  "IsBase64Char ch \<longleftrightarrow> (65 \<le> ch \<and> ch \<le> 90) \<or> (97 \<le> ch \<and> ch \<le> 122) \<or> (48 \<le> ch \<and> ch \<le> 57)
     \<or> ch = 43 \<or> ch = 47"

text \<open>\<open>None\<close> is the result false.  Of the zero character, which \<^verbatim>\<open>strchr\<close> finds at the end of
  the table, the code reads the successor behind the table; the model gives \<open>None\<close> there.\<close>

definition GetNextBase64Char :: "uint8 \<Rightarrow> uint8 option" where
  "GetNextBase64Char ch =
     (let p = length (takeWhile (\<lambda>c. c \<noteq> ch) Base64Table)
      in if p \<ge> length Base64Table then None
         else Some (if p + 1 < length Base64Table then Base64Table ! (p + 1) else Base64Table ! 0))"

definition IsBase64Encoded :: "bytes \<Rightarrow> bool" where
  "IsBase64Encoded str \<longleftrightarrow> list_all IsBase64Char str"

section \<open>Encoding\<close>

text \<open>The loop from position \<open>i\<close>; each round writes four characters.\<close>

function encode_loop :: "bytes \<Rightarrow> nat \<Rightarrow> bytes" where
  "encode_loop data i =
     (if i < length data then
        let c0 = drop_bit 2 (data ! i) AND 0x3f;
            c1 = (push_bit 4 (data ! i) AND 0x3f)
                 OR (if i + 1 < length data then drop_bit 4 (data ! (i + 1)) AND 0x0f else 0);
            c2 = (push_bit 2 (data ! (i + 1)) AND 0x3f)
                 OR (if i + 2 < length data then drop_bit 6 (data ! (i + 2)) AND 0x03 else 0);
            c3 = data ! (i + 2) AND 0x3f
        in [Base64Table ! unat c0, Base64Table ! unat c1,
            if i + 1 < length data then Base64Table ! unat c2 else kPad,
            if i + 2 < length data then Base64Table ! unat c3 else kPad]
           @ encode_loop data (i + 3)
      else [])"
  by pat_completeness auto
termination by (relation "measure (\<lambda>(data, i). length data - i)") auto

declare encode_loop.simps [simp del]

definition EncodeFromArray :: "bytes \<Rightarrow> bytes" where
  "EncodeFromArray data = encode_loop data 0"

section \<open>Decoding\<close>

definition DO_PARSE_STRICT :: int where "DO_PARSE_STRICT = 1"
definition DO_PARSE_WHITE :: int where "DO_PARSE_WHITE = 2"
definition DO_PARSE_ANY :: int where "DO_PARSE_ANY = 3"
definition DO_PARSE_MASK :: int where "DO_PARSE_MASK = 3"
definition DO_PAD_YES :: int where "DO_PAD_YES = 4"
definition DO_PAD_ANY :: int where "DO_PAD_ANY = 8"
definition DO_PAD_NO :: int where "DO_PAD_NO = 12"
definition DO_PAD_MASK :: int where "DO_PAD_MASK = 12"
definition DO_TERM_BUFFER :: int where "DO_TERM_BUFFER = 16"
definition DO_TERM_CHAR :: int where "DO_TERM_CHAR = 32"
definition DO_TERM_ANY :: int where "DO_TERM_ANY = 48"
definition DO_TERM_MASK :: int where "DO_TERM_MASK = 48"
definition DO_STRICT :: int where "DO_STRICT = DO_PARSE_STRICT OR DO_PAD_YES OR DO_TERM_BUFFER"
definition DO_LAX :: int where "DO_LAX = DO_PARSE_ANY OR DO_PAD_ANY OR DO_TERM_CHAR"

text \<open>
  One character \<open>c\<close>, decoded, at position \<open>dpos\<close>, in the loop of \<^verbatim>\<open>GetNextQuantum\<close>: \<open>None\<close> for
  \<^verbatim>\<open>break\<close>, otherwise the new \<^verbatim>\<open>pad_len\<close>, \<^verbatim>\<open>pad_start\<close> and the first \<open>byte_len\<close> entries of
  \<^verbatim>\<open>qbuf\<close>; what lies behind them is overwritten by zeros after the loop.
\<close>

definition quantum_step :: "int \<Rightarrow> bool \<Rightarrow> uint8 \<Rightarrow> nat \<Rightarrow> nat \<times> nat \<times> bytes
    \<Rightarrow> (nat \<times> nat \<times> bytes) option" where
  "quantum_step parse_flags illegal_pads c dpos s =
     (case s of (pad_len, pad_start, q) \<Rightarrow>
        if c = il \<or> (illegal_pads \<and> c = pd) then
          (if parse_flags \<noteq> DO_PARSE_ANY then None else Some s)
        else if c = sp then (if parse_flags = DO_PARSE_STRICT then None else Some s)
        else if c = pd then
          (if length q < 2 then if parse_flags \<noteq> DO_PARSE_ANY then None else Some s
           else if length q + pad_len \<ge> 4 then if parse_flags \<noteq> DO_PARSE_ANY then None else Some s
           else Some (pad_len + 1, if pad_len + 1 = 1 then dpos else pad_start, q))
        else if pad_len > 0 \<and> parse_flags \<noteq> DO_PARSE_ANY then None
        else Some (0, pad_start, q @ [c]))"

function quantum_loop :: "int \<Rightarrow> bool \<Rightarrow> bytes \<Rightarrow> nat \<Rightarrow> nat \<times> nat \<times> bytes
    \<Rightarrow> nat \<times> nat \<times> nat \<times> bytes" where
  "quantum_loop parse_flags illegal_pads data dpos s =
     (if length (snd (snd s)) < 4 \<and> dpos < length data then
        (case quantum_step parse_flags illegal_pads (DecodeTable ! unat (data ! dpos)) dpos s of
           None \<Rightarrow> (dpos, s)
         | Some s' \<Rightarrow> quantum_loop parse_flags illegal_pads data (dpos + 1) s')
      else (dpos, s))"
  by pat_completeness auto
termination by (relation "measure (\<lambda>(_, _, data, dpos, _). length data - dpos)") auto

declare quantum_loop.simps [simp del]

text \<open>The number of characters, the buffer, whether it was padded, and the new position.\<close>

definition GetNextQuantum :: "int \<Rightarrow> bool \<Rightarrow> bytes \<Rightarrow> nat \<Rightarrow> nat \<times> bytes \<times> bool \<times> nat" where
  "GetNextQuantum parse_flags illegal_pads data dpos =
     (let (dpos', pad_len, pad_start, q) = quantum_loop parse_flags illegal_pads data dpos (0, 0, []);
          byte_len = length q;
          qbuf = q @ replicate (4 - byte_len) 0
      in if 4 = byte_len + pad_len then (byte_len, qbuf, True, dpos')
         else (byte_len, qbuf, False, if pad_len \<noteq> 0 then pad_start else dpos'))"

lemma quantum_step_progress:
  "quantum_step pf ip c dpos (pl, ps, q) = Some (pl', ps', q') \<Longrightarrow> length q < 4 \<Longrightarrow>
    (length q' = length q \<or> length q' = Suc (length q)) \<and> (length q' = 4 \<longrightarrow> pl' = 0)"
  by (auto simp: quantum_step_def split: if_splits)

lemma quantum_loop_progress:
  assumes "quantum_loop pf ip data dpos (pl, ps, q) = (dpos', pl', ps', q')"
    and "length q \<le> 4" and "length q = 4 \<longrightarrow> pl = 0"
  shows "dpos + length q' \<le> dpos' + length q \<and> length q' \<le> 4 \<and> (length q' = 4 \<longrightarrow> pl' = 0)"
  using assms
proof (induction "length data - dpos" arbitrary: dpos pl ps q)
  case 0
  then show ?case by (subst (asm) quantum_loop.simps) (auto split: if_splits)
next
  case (Suc n)
  show ?case
  proof (cases "quantum_step pf ip (DecodeTable ! unat (data ! dpos)) dpos (pl, ps, q)")
    case None
    then show ?thesis using Suc.prems by (subst (asm) quantum_loop.simps) (auto split: if_splits)
  next
    case (Some s)
    obtain pl1 ps1 q1 where s: "s = (pl1, ps1, q1)" by (cases s)
    show ?thesis
    proof (cases "length q < 4")
      case True
      have l: "quantum_loop pf ip data (Suc dpos) (pl1, ps1, q1) = (dpos', pl', ps', q')"
        using Suc.prems(1) Suc.hyps(2) True Some s
        by (subst (asm) quantum_loop.simps) (auto split: if_splits)
      have n: "n = length data - Suc dpos" using Suc.hyps(2) by simp
      have q1: "length q1 = length q \<or> length q1 = Suc (length q)" "length q1 = 4 \<longrightarrow> pl1 = 0"
        using quantum_step_progress [OF Some [unfolded s] True] by simp_all
      have "length q1 \<le> 4" using q1(1) True by linarith
      then show ?thesis using Suc.hyps(1) [OF n l _ q1(2)] q1(1) by linarith
    next
      case False
      then show ?thesis using Suc.prems by (subst (asm) quantum_loop.simps) auto
    qed
  qed
qed

lemma GetNextQuantum_progress:
  assumes "GetNextQuantum pf ip data dpos = (qlen, qbuf, padded, dpos')" "\<not> qlen < 4"
  shows "dpos < dpos'"
proof -
  obtain d pl ps q where l: "quantum_loop pf ip data dpos (0, 0, []) = (d, pl, ps, q)"
    by (metis surj_pair)
  from quantum_loop_progress [OF l] have "dpos + length q \<le> d" "length q \<le> 4"
    "length q = 4 \<longrightarrow> pl = 0" by simp_all
  then show ?thesis using assms l
    by (auto simp: GetNextQuantum_def Let_def split: if_splits)
qed

text \<open>The decoder's loop, with the output so far.\<close>

function decode_loop :: "int \<Rightarrow> int \<Rightarrow> int \<Rightarrow> bytes \<Rightarrow> nat \<Rightarrow> bytes \<Rightarrow> bool \<times> bytes \<times> nat" where
  "decode_loop parse_flags pad_flags term_flags data dpos result =
     (if dpos < length data then
        (case GetNextQuantum parse_flags (DO_PAD_NO = pad_flags) data dpos of
           (qlen, qbuf, padded, dpos') \<Rightarrow>
             let c1 = push_bit 2 (qbuf ! 0) OR (drop_bit 4 (qbuf ! 1) AND 0x3);
                 c2 = (push_bit 4 (qbuf ! 1) AND 0xf0) OR (drop_bit 2 (qbuf ! 2) AND 0xf);
                 c3 = (push_bit 6 (qbuf ! 2) AND 0xc0) OR qbuf ! 3;
                 out = take (qlen - 1) [c1, c2, c3];
                 c = (if qlen < 2 then c1 else if qlen < 3 then c2 else if qlen < 4 then c3 else 0)
             in if qlen < 4
                then (\<not> (DO_TERM_ANY \<noteq> term_flags \<and> 0 \<noteq> c) \<and> \<not> (DO_PAD_YES = pad_flags \<and> \<not> padded),
                      result @ out, dpos')
                else decode_loop parse_flags pad_flags term_flags data dpos' (result @ out))
      else (True, result, dpos))"
  by pat_completeness auto
termination
  by (relation "measure (\<lambda>(_, _, _, data, dpos, _). length data - dpos)")
    (auto dest!: GetNextQuantum_progress [OF sym])

declare decode_loop.simps [simp del]

definition DecodeFromArray :: "bytes \<Rightarrow> int \<Rightarrow> (bool \<times> bytes \<times> nat) option" where
  "DecodeFromArray data flags =
     (let parse_flags = flags AND DO_PARSE_MASK;
          pad_flags = flags AND DO_PAD_MASK;
          term_flags = flags AND DO_TERM_MASK
      in if \<not> flags \<le> (DO_PARSE_MASK OR DO_PAD_MASK OR DO_TERM_MASK) \<or> parse_flags = 0
            \<or> pad_flags = 0 \<or> term_flags = 0 then None
         else case decode_loop parse_flags pad_flags term_flags data 0 [] of
           (success, result, dpos) \<Rightarrow>
             Some (success \<and> \<not> (DO_TERM_BUFFER = term_flags \<and> dpos \<noteq> length data), result, dpos))"

section \<open>The tables are inverse\<close>

abbreviation dec :: "uint8 \<Rightarrow> uint8" where "dec c \<equiv> DecodeTable ! unat c"
abbreviation enc :: "uint8 \<Rightarrow> uint8" where "enc v \<equiv> Base64Table ! unat v"

lemma decode_entries:
  "list_all (\<lambda>(n, v). v < 64 \<and> Base64Table ! unat v = of_nat n \<or> v = sp \<or> v = il \<or> v = pd \<and> n = 61)
     (zip [0..<256] DecodeTable)"
  by code_simp

lemma encode_entries: "map (\<lambda>c. DecodeTable ! unat c) Base64Table = map of_nat [0..<64]"
  by code_simp

lemma length_tables [simp]: "length DecodeTable = 256" "length Base64Table = 64"
  by (simp_all add: DecodeTable_def Base64Table_def)

lemma dec_cases: "dec c < 64 \<and> enc (dec c) = c \<or> dec c = sp \<or> dec c = il \<or> dec c = pd \<and> c = kPad"
proof -
  have "(unat c, dec c) \<in> set (zip [0..<256] DecodeTable)"
    by (auto simp: in_set_zip intro!: exI [of _ "unat c"])
  with decode_entries have "dec c < 64 \<and> enc (dec c) = of_nat (unat c) \<or> dec c = sp \<or> dec c = il
      \<or> dec c = pd \<and> unat c = 61"
    unfolding list_all_iff by blast
  moreover have "c = kPad" if "unat c = 61"
  proof -
    have "c = of_nat (unat c)" by simp
    with that show ?thesis by (simp add: kPad_def del: of_nat_unat)
  qed
  ultimately show ?thesis by auto
qed

lemma dec_enc: "v < 64 \<Longrightarrow> dec (enc v) = v"
proof -
  assume "v < 64"
  then have v: "unat v < 64" by (simp add: word_less_nat_alt)
  from encode_entries have "map (\<lambda>c. DecodeTable ! unat c) Base64Table ! unat v = map of_nat [0..<64] ! unat v"
    by simp
  with v show ?thesis by simp
qed

lemma dec_kPad [simp]: "dec kPad = pd"
  by code_simp

lemma dec_sextet:
  assumes "dec c < 64"
  shows "dec c \<noteq> il" "dec c \<noteq> sp" "dec c \<noteq> pd"
  using assms by (auto simp del: One_nat_def)

section \<open>The encoder as chunks\<close>

lemma encode_loop_append: "encode_loop (xs @ ys) (length xs + i) = encode_loop ys i"
proof (induction "length ys - i" arbitrary: i rule: less_induct)
  case less
  have n: "i + k < length ys \<Longrightarrow> (xs @ ys) ! (length xs + i + k) = ys ! (i + k)" for k
    by (simp add: nth_append)
  show ?case
  proof (cases "i < length ys")
    case True
    then have "encode_loop (xs @ ys) (length xs + (i + 3)) = encode_loop ys (i + 3)"
      by (intro less) linarith
    then show ?thesis using True n [of 0] n [of 1] n [of 2]
      by (subst (1 2) encode_loop.simps) (simp add: Let_def add.assoc)
  next
    case False
    then show ?thesis by (subst (1 2) encode_loop.simps) simp
  qed
qed

text \<open>The four characters of a full group, and what they decode to.\<close>

definition sextets :: "uint8 \<Rightarrow> uint8 \<Rightarrow> uint8 \<Rightarrow> uint8 list" where
  "sextets a b c = [drop_bit 2 a AND 0x3f, (push_bit 4 a AND 0x3f) OR (drop_bit 4 b AND 0x0f),
     (push_bit 2 b AND 0x3f) OR (drop_bit 6 c AND 0x03), c AND 0x3f]"

lemma Encode_Nil: "EncodeFromArray [] = []"
  by (simp add: EncodeFromArray_def encode_loop.simps)

lemma Encode_1: "EncodeFromArray [a] = map (\<lambda>v. enc v) (take 2 (sextets a 0 0)) @ [kPad, kPad]"
  by (simp add: EncodeFromArray_def encode_loop.simps sextets_def)

lemma Encode_2: "EncodeFromArray [a, b] = map (\<lambda>v. enc v) (take 3 (sextets a b 0)) @ [kPad]"
  by (simp add: EncodeFromArray_def encode_loop.simps sextets_def numeral_2_eq_2 numeral_3_eq_3)

lemma Encode_3:
  "EncodeFromArray (a # b # c # r) = map (\<lambda>v. enc v) (sextets a b c) @ EncodeFromArray r"
  using encode_loop_append [of "[a, b, c]" r 0]
  by (simp add: EncodeFromArray_def encode_loop.simps [of "a # b # c # r"] sextets_def
      numeral_2_eq_2 numeral_3_eq_3)

lemmas Encode_simps = Encode_Nil Encode_1 Encode_2 Encode_3

lemma bytes_cases3:
  obtains "bs = []" | a where "bs = [a]" | a b where "bs = [a, b]" | a b c r where "bs = a # b # c # r"
  by (cases bs rule: remdups_adj.cases; cases "tl (tl bs)") auto

lemma Encode_induct [case_names Nil One Two Group]:
  assumes "P []" "\<And>a. P [a]" "\<And>a b. P [a, b]" "\<And>a b c r. P r \<Longrightarrow> P (a # b # c # r)"
  shows "P bs"
proof (induction "length bs" arbitrary: bs rule: less_induct)
  case less
  show ?case by (cases bs rule: bytes_cases3) (use assms less in auto)
qed

lemma length_Encode: "length (EncodeFromArray bs) = (length bs + 2) div 3 * 4"
proof (induction bs rule: Encode_induct)
  case (Group a b c r)
  have "(length (a # b # c # r) + 2) div 3 = Suc ((length r + 2) div 3)"
    using div_add_self2 [of 3 "length r + 2"] by (simp add: add.commute)
  with Group show ?case by (simp add: Encode_simps sextets_def)
qed (simp_all add: Encode_simps sextets_def)

section \<open>Groups of bits\<close>

text \<open>The three bytes of a group, as the decoder computes them.\<close>

definition octets :: "uint8 list \<Rightarrow> uint8 list" where
  "octets q = [push_bit 2 (q ! 0) OR (drop_bit 4 (q ! 1) AND 0x3),
     (push_bit 4 (q ! 1) AND 0xf0) OR (drop_bit 2 (q ! 2) AND 0xf),
     (push_bit 6 (q ! 2) AND 0xc0) OR q ! 3]"

lemma masks8:
  "(0x3f :: uint8) = mask 6" "(0x0f :: uint8) = mask 4" "(0x03 :: uint8) = mask 2"
  "(0xf0 :: uint8) = push_bit 4 (mask 4)" "(0xc0 :: uint8) = push_bit 6 (mask 2)"
  by (simp_all add: mask_eq_exp_minus_1 push_bit_eq_mult)

lemma byte_eq_iff:
  "a = b \<longleftrightarrow> (bit a 0 \<longleftrightarrow> bit b 0) \<and> (bit a 1 \<longleftrightarrow> bit b 1) \<and> (bit a 2 \<longleftrightarrow> bit b 2) \<and> (bit a 3 \<longleftrightarrow> bit b 3)
     \<and> (bit a 4 \<longleftrightarrow> bit b 4) \<and> (bit a 5 \<longleftrightarrow> bit b 5) \<and> (bit a 6 \<longleftrightarrow> bit b 6) \<and> (bit a 7 \<longleftrightarrow> bit b 7)"
  for a b :: uint8
proof -
  have "a = b \<longleftrightarrow> (\<forall>n < 8. bit a n \<longleftrightarrow> bit b n)" by (auto simp: bit_eq_iff possible_bit_word)
  then show ?thesis by (simp add: numeral_eq_Suc All_less_Suc del: bit_0) blast
qed

lemmas byte_bits = byte_eq_iff bit_or_iff bit_and_iff bit_mask_iff bit_push_bit_iff bit_drop_bit_eq
  possible_bit_word

lemma sextet_iff: "v < 64 \<longleftrightarrow> \<not> bit v 6 \<and> \<not> bit v 7" for v :: uint8
proof -
  have "v < 64 \<longleftrightarrow> v AND mask 6 = v"
    using less_mask_eq [of v 6] and_mask_less' [of 6 v] by auto
  then show ?thesis by (simp add: byte_bits del: bit_0)
qed

lemma sextets_small: "\<forall>v \<in> set (sextets a b c). v < 64"
  unfolding sextets_def masks8 sextet_iff by (simp add: byte_bits del: bit_0)

lemma octets_sextets: "octets (sextets a b c) = [a, b, c]"
  unfolding sextets_def octets_def masks8 by (simp add: byte_bits del: bit_0)

lemma sextets_octets:
  assumes "p < 64" "q < 64" "r < 64" "s < 64"
  shows "(case octets [p, q, r, s] of [a, b, c] \<Rightarrow> sextets a b c) = [p, q, r, s]"
  using assms unfolding sextets_def octets_def masks8 sextet_iff
  by (simp add: byte_bits del: bit_0) 

section \<open>One quantum\<close>

lemma drop_Cons_nth: "drop i xs = y # ys \<Longrightarrow> i < length xs \<and> xs ! i = y \<and> drop (Suc i) xs = ys"
  by (metis Cons_nth_drop_Suc drop_all list.discI list.inject linorder_not_le)

lemma quantum_sextet:
  assumes "length q < 4" "drop dpos data = enc v # s" "v < 64"
  shows "quantum_loop pf ip data dpos (0, ps, q) = quantum_loop pf ip data (Suc dpos) (0, ps, q @ [v])"
  using assms drop_Cons_nth [OF assms(2)] dec_sextet [of "enc v"]
  by (subst quantum_loop.simps) (simp add: quantum_step_def dec_enc)

lemma quantum_pad:
  assumes "2 \<le> length q" "length q + pl < 4" "drop dpos data = kPad # s"
  shows "quantum_loop pf False data dpos (pl, ps, q)
    = quantum_loop pf False data (Suc dpos) (Suc pl, if pl = 0 then dpos else ps, q)"
  using assms drop_Cons_nth [OF assms(3)]
  by (subst quantum_loop.simps) (simp add: quantum_step_def)

lemma quantum_stop:
  assumes "length q = 4 \<or> length data \<le> dpos"
  shows "quantum_loop pf ip data dpos (pl, ps, q) = (dpos, pl, ps, q)"
  using assms by (subst quantum_loop.simps) auto

lemma quantum_full:
  assumes "drop dpos data = map (\<lambda>v. enc v) [p, q, r, s] @ t" "p < 64" "q < 64" "r < 64" "s < 64"
  shows "GetNextQuantum pf ip data dpos = (4, [p, q, r, s], True, dpos + 4)"
proof -
  have d: "drop dpos data = enc p # enc q # enc r # enc s # t" using assms(1) by simp
  have d2: "drop (Suc dpos) data = enc q # enc r # enc s # t" using drop_Cons_nth [OF d] by simp
  have d3: "drop (Suc (Suc dpos)) data = enc r # enc s # t" using drop_Cons_nth [OF d2] by simp
  have d4: "drop (Suc (Suc (Suc dpos))) data = enc s # t" using drop_Cons_nth [OF d3] by simp
  show ?thesis
    using assms(2-5)
    by (simp add: GetNextQuantum_def quantum_sextet [OF _ d] quantum_sextet [OF _ d2]
        quantum_sextet [OF _ d3] quantum_sextet [OF _ d4] quantum_stop)
qed

lemma quantum_two:
  assumes "drop dpos data = [enc p, enc q, kPad, kPad]" "p < 64" "q < 64"
  shows "GetNextQuantum pf False data dpos = (2, [p, q, 0, 0], True, dpos + 4)"
proof -
  note d = assms(1)
  have d2: "drop (Suc dpos) data = [enc q, kPad, kPad]" using drop_Cons_nth [OF d] by simp
  have d3: "drop (Suc (Suc dpos)) data = [kPad, kPad]" using drop_Cons_nth [OF d2] by simp
  have d4: "drop (Suc (Suc (Suc dpos))) data = [kPad]" using drop_Cons_nth [OF d3] by simp
  have "length data = dpos + 4" using arg_cong [OF d, of length] by simp
  then show ?thesis
    using assms(2-3)
    by (simp add: GetNextQuantum_def quantum_sextet [OF _ d] quantum_sextet [OF _ d2]
        quantum_pad [OF _ _ d3] quantum_pad [OF _ _ d4] quantum_stop numeral_2_eq_2)
qed

lemma quantum_three:
  assumes "drop dpos data = [enc p, enc q, enc r, kPad]" "p < 64" "q < 64" "r < 64"
  shows "GetNextQuantum pf False data dpos = (3, [p, q, r, 0], True, dpos + 4)"
proof -
  note d = assms(1)
  have d2: "drop (Suc dpos) data = [enc q, enc r, kPad]" using drop_Cons_nth [OF d] by simp
  have d3: "drop (Suc (Suc dpos)) data = [enc r, kPad]" using drop_Cons_nth [OF d2] by simp
  have d4: "drop (Suc (Suc (Suc dpos))) data = [kPad]" using drop_Cons_nth [OF d3] by simp
  have "length data = dpos + 4" using arg_cong [OF d, of length] by simp
  then show ?thesis
    using assms(2-4)
    by (simp add: GetNextQuantum_def quantum_sextet [OF _ d] quantum_sextet [OF _ d2]
        quantum_sextet [OF _ d3] quantum_pad [OF _ _ d4] quantum_stop)
qed

section \<open>Decoding what was encoded\<close>

lemma decode_group:
  assumes "dpos < length data" "GetNextQuantum pf (DO_PAD_NO = pad) data dpos = (qlen, sextets a b c, True, dpos')"
    and "2 \<le> qlen" "qlen \<le> 4" "qlen < 4 \<longrightarrow> c = 0" "qlen < 3 \<longrightarrow> b = 0"
  shows "decode_loop pf pad tf data dpos res =
    (if qlen < 4 then (True, res @ take (qlen - 1) [a, b, c], dpos')
     else decode_loop pf pad tf data dpos' (res @ [a, b, c]))"
proof -
  have u: "octets (sextets a b c) = [a, b, c]" by (rule octets_sextets)
  have "qlen = 2 \<or> qlen = 3 \<or> qlen = 4" using assms(3,4) by auto
  with assms show ?thesis
    using u unfolding octets_def
    by (subst decode_loop.simps) (auto simp: Let_def numeral_2_eq_2)
qed

lemma decode_encoded:
  assumes "drop dpos data = EncodeFromArray bs" "dpos \<le> length data"
    and "pad = DO_PAD_NO \<longrightarrow> 3 dvd length bs"
  shows "decode_loop pf pad tf data dpos res = (True, res @ bs, length data)"
  using assms
proof (induction bs arbitrary: dpos res rule: Encode_induct)
  case Nil
  then show ?case by (subst decode_loop.simps) (simp add: Encode_Nil)
next
  case (One a)
  have d: "drop dpos data = [enc (sextets a 0 0 ! 0), enc (sextets a 0 0 ! 1), kPad, kPad]"
    and n: "pad \<noteq> DO_PAD_NO"
    using One by (auto simp: Encode_1 sextets_def numeral_2_eq_2)
  have "GetNextQuantum pf (DO_PAD_NO = pad) data dpos = (2, sextets a 0 0, True, dpos + 4)"
    using quantum_two [OF d] sextets_small [of a 0 0] n by (simp add: sextets_def)
  moreover have "length data = dpos + 4" using arg_cong [OF d, of length] One.prems(2) by simp
  ultimately show ?case using decode_group [of dpos data pf pad 2 a 0 0 "dpos + 4"] by simp
next
  case (Two a b)
  have d: "drop dpos data = [enc (sextets a b 0 ! 0), enc (sextets a b 0 ! 1), enc (sextets a b 0 ! 2), kPad]"
    using Two by (simp add: Encode_2 sextets_def numeral_2_eq_2 numeral_3_eq_3)
  have "\<not> (3 :: nat) dvd Suc (Suc 0)" by presburger
  with Two have n: "pad \<noteq> DO_PAD_NO" by auto
  have "GetNextQuantum pf (DO_PAD_NO = pad) data dpos = (3, sextets a b 0, True, dpos + 4)"
    using quantum_three [OF d] sextets_small [of a b 0] n by (simp add: sextets_def)
  moreover have "length data = dpos + 4" using arg_cong [OF d, of length] Two.prems(2) by simp
  ultimately show ?case using decode_group [of dpos data pf pad 3 a b 0 "dpos + 4"] by simp
next
  case (Group a b c r)
  have d: "drop dpos data = map (\<lambda>v. enc v) (sextets a b c) @ EncodeFromArray r"
    using Group.prems by (simp add: Encode_3)
  have g: "sextets a b c = [sextets a b c ! 0, sextets a b c ! 1, sextets a b c ! 2, sextets a b c ! 3]"
    by (simp add: sextets_def)
  have "GetNextQuantum pf (DO_PAD_NO = pad) data dpos = (4, sextets a b c, True, dpos + 4)"
    using quantum_full [of dpos data "sextets a b c ! 0" "sextets a b c ! 1" "sextets a b c ! 2"
        "sextets a b c ! 3" "EncodeFromArray r"] d sextets_small [of a b c]
    by (simp add: sextets_def)
  moreover have l: "length data \<ge> dpos + 4"
    using arg_cong [OF d, of length] Group.prems(2) by (simp add: sextets_def)
  moreover have "decode_loop pf pad tf data (dpos + 4) (res @ [a, b, c]) = (True, (res @ [a, b, c]) @ r, length data)"
  proof (rule Group.IH)
    show "drop (dpos + 4) data = EncodeFromArray r"
      using arg_cong [OF d, of "drop 4"] by (simp add: sextets_def add.commute)
    show "pad = DO_PAD_NO \<longrightarrow> 3 dvd length r" using Group.prems(3) dvd_add_triv_right_iff [of 3 "length r"] by (simp add: numeral_3_eq_3)
  qed (use l in simp)
  ultimately show ?case using decode_group [of dpos data pf pad 4 a b c "dpos + 4"] by simp
qed

section \<open>What the strict decoder accepts\<close>

text \<open>In strict mode the loop consumes characters of the table, then padding.\<close>

lemma strict_step:
  assumes "quantum_step DO_PARSE_STRICT False (dec c) dpos (pl, ps, q) = Some (pl', ps', q')"
  shows "(dec c < 64 \<and> enc (dec c) = c \<and> pl = 0 \<and> pl' = 0 \<and> q' = q @ [dec c])
    \<or> (c = kPad \<and> pl' = Suc pl \<and> q' = q \<and> 2 \<le> length q \<and> length q + pl < 4)"
  using assms dec_cases [of c]
  by (auto simp: quantum_step_def DO_PARSE_STRICT_def DO_PARSE_ANY_def split: if_splits)

lemma strict_quantum:
  assumes "quantum_loop DO_PARSE_STRICT False data dpos (pl, ps, q) = (dpos', pl', ps', q')"
    and "dpos \<le> length data" "length q + pl \<le> 4" "\<forall>v \<in> set q. v < 64"
  shows "\<exists>vs n. q' = q @ vs \<and> pl' = pl + n \<and> dpos' = dpos + length vs + n \<and> dpos' \<le> length data
    \<and> drop dpos data = map (\<lambda>v. enc v) vs @ replicate n kPad @ drop dpos' data
    \<and> (\<forall>v \<in> set q'. v < 64) \<and> (pl > 0 \<longrightarrow> vs = []) \<and> length q' + pl' \<le> 4 \<and> (n > 0 \<longrightarrow> 2 \<le> length q')"
  using assms
proof (induction "length data - dpos" arbitrary: dpos pl ps q)
  case 0
  then show ?case by (subst (asm) quantum_loop.simps) (auto split: if_splits)
next
  case (Suc m)
  let ?step = "quantum_step DO_PARSE_STRICT False (dec (data ! dpos)) dpos (pl, ps, q)"
  have d: "drop dpos data = data ! dpos # drop (Suc dpos) data"
    using Suc.hyps(2) by (simp add: Cons_nth_drop_Suc)
  show ?case
  proof (cases "length q < 4 \<and> ?step \<noteq> None")
    case False
    then have "(dpos', pl', ps', q') = (dpos, pl, ps, q)"
      using Suc.prems(1) by (subst (asm) quantum_loop.simps) (auto split: if_splits option.splits)
    then show ?thesis using Suc.prems by auto
  next
    case True
    then obtain pl1 ps1 q1 where s: "?step = Some (pl1, ps1, q1)" and q: "length q < 4" by auto
    have l: "quantum_loop DO_PARSE_STRICT False data (Suc dpos) (pl1, ps1, q1) = (dpos', pl', ps', q')"
      using Suc.prems(1) Suc.hyps(2) q s by (subst (asm) quantum_loop.simps) (auto split: if_splits)
    have m: "m = length data - Suc dpos" "Suc dpos \<le> length data" using Suc.hyps(2) by simp_all
    from strict_step [OF s] show ?thesis
    proof (elim disjE conjE)
      assume v: "dec (data ! dpos) < 64" "enc (dec (data ! dpos)) = data ! dpos" "pl = 0" "pl1 = 0"
        and q1: "q1 = q @ [dec (data ! dpos)]"
      have "length q1 + pl1 \<le> 4" "\<forall>v \<in> set q1. v < 64" using v q1 q Suc.prems(4) by auto
      from Suc.hyps(1) [OF m(1) l m(2) this] obtain vs n where
        h: "q' = q1 @ vs" "pl' = n" "dpos' = Suc dpos + length vs + n" "dpos' \<le> length data"
        "\<forall>v \<in> set q'. v < 64" "length q' + pl' \<le> 4" "n > 0 \<longrightarrow> 2 \<le> length q'"
        and t: "drop (Suc dpos) data = map (\<lambda>v. enc v) vs @ replicate n kPad @ drop dpos' data"
        using v by auto
      have "drop dpos data = map (\<lambda>v. enc v) (dec (data ! dpos) # vs) @ replicate n kPad @ drop dpos' data"
        by (subst d, subst t) (simp add: v)
      then show ?thesis using q1 v(3) h
        by (intro exI [of _ "dec (data ! dpos) # vs"] exI [of _ n]) simp
    next
      assume c: "data ! dpos = kPad" "pl1 = Suc pl" "q1 = q" "2 \<le> length q" "length q + pl < 4"
      have "length q1 + pl1 \<le> 4" "\<forall>v \<in> set q1. v < 64" using c Suc.prems(4) by auto
      from Suc.hyps(1) [OF m(1) l m(2) this] obtain vs n where
        h0: "q' = q1 @ vs" "pl' = pl1 + n" "dpos' = Suc dpos + length vs + n" "dpos' \<le> length data"
        "\<forall>v \<in> set q'. v < 64" "length q' + pl' \<le> 4" "pl1 > 0 \<longrightarrow> vs = []"
        and t0: "drop (Suc dpos) data = map (\<lambda>v. enc v) vs @ replicate n kPad @ drop dpos' data"
        by blast
      have "vs = []" using h0(7) c(2) by simp
      with h0 t0 have h: "q' = q1" "pl' = pl1 + n" "dpos' = Suc dpos + n" "dpos' \<le> length data"
        "\<forall>v \<in> set q'. v < 64" "length q' + pl' \<le> 4"
        and t: "drop (Suc dpos) data = replicate n kPad @ drop dpos' data"
        by simp_all
      have "drop dpos data = replicate (Suc n) kPad @ drop dpos' data"
        by (subst d, subst t) (simp add: c(1))
      moreover have "q' = q @ []" "pl' = pl + Suc n" "dpos' = dpos + length [] + Suc n"
        "length q' + pl' \<le> 4" "2 \<le> length q'"
        using c(2-4) h(1-3,6) by simp_all
      ultimately show ?thesis using h(4,5)
        by (intro exI [of _ "[]"] exI [of _ "Suc n"]) (simp only: list.map append_Nil simp_thms)
    qed
  qed
qed

lemma octets_simp: "octets [p, q, r, s] = [push_bit 2 p OR (drop_bit 4 q AND 0x3),
    (push_bit 4 q AND 0xf0) OR (drop_bit 2 r AND 0xf), (push_bit 6 r AND 0xc0) OR s]"
  by (simp add: octets_def)

lemma strict_decode_step:
  assumes "decode_loop DO_PARSE_STRICT DO_PAD_YES DO_TERM_BUFFER data dpos res = (True, out, length data)"
    and "dpos < length data"
  obtains (full) a b c where "drop dpos data = map (\<lambda>v. enc v) (sextets a b c) @ drop (dpos + 4) data"
      "decode_loop DO_PARSE_STRICT DO_PAD_YES DO_TERM_BUFFER data (dpos + 4) (res @ [a, b, c])
        = (True, out, length data)" "dpos + 4 \<le> length data"
    | (two) a where "drop dpos data = map (\<lambda>v. enc v) (take 2 (sextets a 0 0)) @ [kPad, kPad]"
      "out = res @ [a]"
    | (three) a b where "drop dpos data = map (\<lambda>v. enc v) (take 3 (sextets a b 0)) @ [kPad]"
      "out = res @ [a, b]"
proof -
  obtain d n ps q where l: "quantum_loop DO_PARSE_STRICT False data dpos (0, 0, []) = (d, n, ps, q)"
    by (metis surj_pair)
  from strict_quantum [OF l] assms(2)
  have dl: "d = dpos + length q + n" "d \<le> length data" "length q + n \<le> 4" "n > 0 \<longrightarrow> 2 \<le> length q"
    and q64: "\<forall>v \<in> set q. v < 64"
    and dr: "drop dpos data = map (\<lambda>v. enc v) q @ replicate n kPad @ drop d data"
    by auto
  have np: "(DO_PAD_NO = DO_PAD_YES) = False" by (simp add: DO_PAD_NO_def DO_PAD_YES_def)
  note eq = assms(1) [unfolded decode_loop.simps [of _ _ _ data dpos] np GetNextQuantum_def l]
  show thesis
  proof (cases "length q = 4")
    case True
    then obtain p1 p2 p3 p4 where q: "q = [p1, p2, p3, p4]"
      by (auto simp: length_Suc_conv numeral_eq_Suc)
    obtain a b c where u: "octets q = [a, b, c]" by (simp add: q octets_def)
    have g: "sextets a b c = q" using sextets_octets [of p1 p2 p3 p4] q64 u by (simp add: q)
    have n: "n = 0" using dl(3) True by simp
    have d4: "d = dpos + 4" using dl(1) True n by simp
    show thesis
    proof (rule full [of a b c])
      show "drop dpos data = map (\<lambda>v. enc v) (sextets a b c) @ drop (dpos + 4) data"
        using dr n unfolding d4 g by simp
      show "decode_loop DO_PARSE_STRICT DO_PAD_YES DO_TERM_BUFFER data (dpos + 4) (res @ [a, b, c])
          = (True, out, length data)"
        using eq assms(2) u unfolding n d4 by (simp add: q octets_simp)
    qed (use dl(2) d4 in simp)
  next
    case False
    have ok: "length q + n = 4" "d = length data"
      using eq assms(2) False dl
      by (auto simp: Let_def split: if_splits)
    then have "length q = 2 \<and> n = 2 \<or> length q = 3 \<and> n = 1" using dl(4) False by linarith
    then show thesis
    proof (elim disjE conjE)
      assume n: "length q = 2" "n = 2"
      then obtain p1 p2 where q: "q = [p1, p2]" by (auto simp: length_Suc_conv numeral_eq_Suc)
      obtain a b c where u: "octets [p1, p2, 0, 0] = [a, b, c]" by (simp add: octets_def)
      have g: "sextets a b c = [p1, p2, 0, 0]"
        using sextets_octets [of p1 p2 0 0] q64 u by (simp add: q)
      have "b = 0" "c = 0" "out = res @ [a]"
        using eq assms(2) n u ok
        by (simp_all add: q octets_simp DO_TERM_ANY_def DO_TERM_BUFFER_def numeral_2_eq_2 split: if_splits)
      then show thesis using two [of a] dr g n ok by (simp add: q numeral_2_eq_2)
    next
      assume n: "length q = 3" "n = 1"
      then obtain p1 p2 p3 where q: "q = [p1, p2, p3]" by (auto simp: length_Suc_conv numeral_eq_Suc)
      obtain a b c where u: "octets [p1, p2, p3, 0] = [a, b, c]" by (simp add: octets_def)
      have g: "sextets a b c = [p1, p2, p3, 0]"
        using sextets_octets [of p1 p2 p3 0] q64 u by (simp add: q)
      have "c = 0" "out = res @ [a, b]"
        using eq assms(2) n u ok
        by (simp_all add: q octets_simp DO_TERM_ANY_def DO_TERM_BUFFER_def numeral_2_eq_2 split: if_splits)
      then show thesis using three [of a b] dr g n ok by (simp add: q numeral_3_eq_3)
    qed
  qed
qed

lemma strict_decode_loop:
  assumes "decode_loop DO_PARSE_STRICT DO_PAD_YES DO_TERM_BUFFER data dpos res = (True, out, length data)"
    and "dpos \<le> length data"
  shows "\<exists>bs. out = res @ bs \<and> drop dpos data = EncodeFromArray bs"
  using assms
proof (induction "length data - dpos" arbitrary: dpos res rule: less_induct)
  case less
  show ?case
  proof (cases "dpos < length data")
    case False
    then show ?thesis using less.prems
      by (subst (asm) decode_loop.simps) (auto intro!: exI [of _ "[]"] simp: Encode_Nil)
  next
    case True
    from less.prems(1) True show ?thesis
    proof (cases rule: strict_decode_step)
      case (full a b c)
      have "length data - (dpos + 4) < length data - dpos" using True by linarith
      from less.hyps [OF this full(2,3)] obtain bs where
        "out = (res @ [a, b, c]) @ bs" "drop (dpos + 4) data = EncodeFromArray bs" by auto
      then show ?thesis using full(1) by (intro exI [of _ "a # b # c # bs"]) (simp add: Encode_3)
    next
      case (two a)
      then show ?thesis by (intro exI [of _ "[a]"]) (simp add: Encode_1)
    next
      case (three a b)
      then show ?thesis by (intro exI [of _ "[a, b]"]) (simp add: Encode_2)
    qed
  qed
qed

section \<open>Properties\<close>

lemma DO_STRICT_flags:
  "DO_STRICT AND DO_PARSE_MASK = DO_PARSE_STRICT" "DO_STRICT AND DO_PAD_MASK = DO_PAD_YES"
  "DO_STRICT AND DO_TERM_MASK = DO_TERM_BUFFER"
  "DO_STRICT \<le> (DO_PARSE_MASK OR DO_PAD_MASK OR DO_TERM_MASK)"
  by code_simp+

text \<open>
  C30.  Decoding what was encoded gives the data back and uses the whole text, whatever valid
  combination of parse, padding and termination flags the decoder is given, as long as
  padding is not disallowed for data that needs it.
\<close>

theorem base64_roundtrip:
  assumes "flags \<le> (DO_PARSE_MASK OR DO_PAD_MASK OR DO_TERM_MASK)"
    and "flags AND DO_PARSE_MASK \<noteq> 0" "flags AND DO_PAD_MASK \<noteq> 0" "flags AND DO_TERM_MASK \<noteq> 0"
    and "flags AND DO_PAD_MASK = DO_PAD_NO \<longrightarrow> 3 dvd length bs"
  shows "DecodeFromArray (EncodeFromArray bs) flags = Some (True, bs, length (EncodeFromArray bs))"
  using assms decode_encoded [of 0 "EncodeFromArray bs" bs "flags AND DO_PAD_MASK"
      "flags AND DO_PARSE_MASK" "flags AND DO_TERM_MASK" "[]"]
  by (simp add: DecodeFromArray_def Let_def)

theorem base64_roundtrip_witness:
  "DecodeFromArray (EncodeFromArray [1, 2, 3, 255]) DO_LAX
    = Some (True, [1, 2, 3, 255], length (EncodeFromArray [1, 2, 3, 255]))"
  by (rule base64_roundtrip) code_simp+

text \<open>
  C9.  The strict decoder accepts exactly the texts that the encoder produces: no other text, no
  unused bits, missing or extra padding, white space or trailing characters, so every byte
  string has one strict encoding.
\<close>

theorem strict_decode_iff_encoded:
  "(\<exists>n. DecodeFromArray s DO_STRICT = Some (True, bs, n)) \<longleftrightarrow> s = EncodeFromArray bs"
proof
  assume "s = EncodeFromArray bs"
  moreover have "decode_loop DO_PARSE_STRICT DO_PAD_YES DO_TERM_BUFFER (EncodeFromArray bs) 0 []
      = (True, bs, length (EncodeFromArray bs))"
    using decode_encoded [of 0 "EncodeFromArray bs" bs DO_PAD_YES DO_PARSE_STRICT DO_TERM_BUFFER "[]"]
    by (simp add: DO_PAD_YES_def DO_PAD_NO_def)
  ultimately show "\<exists>n. DecodeFromArray s DO_STRICT = Some (True, bs, n)"
    by (simp add: DecodeFromArray_def Let_def DO_STRICT_flags)
      (simp add: DO_PARSE_STRICT_def DO_PAD_YES_def DO_TERM_BUFFER_def)
next
  assume "\<exists>n. DecodeFromArray s DO_STRICT = Some (True, bs, n)"
  then have "decode_loop DO_PARSE_STRICT DO_PAD_YES DO_TERM_BUFFER s 0 [] = (True, bs, length s)"
    by (auto simp: DecodeFromArray_def Let_def DO_STRICT_flags split: if_splits prod.splits)
  then show "s = EncodeFromArray bs" using strict_decode_loop [of s 0 "[]" bs] by simp
qed

end
