(* ===== verification/RateTracker.thy ===== *)
theory RateTracker
  imports TimeUtils "HOL-Library.Signed_Division"
begin

text \<open>
  \<^verbatim>\<open>base/ratetracker.cc\<close>: units counted and their rate over whole seconds.  A signed
  multiplication that leaves the range of \<^verbatim>\<open>int\<close> is undefined and gives \<open>None\<close>.
\<close>

record rate_tracker =
  rt_total_units :: uint64
  rt_units_second :: uint64
  rt_last_time :: uint32
  rt_last_calc :: uint64

definition RateTracker_new :: rate_tracker where
  "RateTracker_new = \<lparr>rt_total_units = 0, rt_units_second = 0, rt_last_time = - 1, rt_last_calc = 0\<rparr>"

definition rt_Update :: "uint64 \<Rightarrow> rate_tracker \<Rightarrow> rate_tracker" where
  "rt_Update units r = r\<lparr>rt_total_units := rt_total_units r + units\<rparr>"

definition fits_int :: "int \<Rightarrow> bool" where
  "fits_int v \<longleftrightarrow> - 0x80000000 \<le> v \<and> v < 0x80000000"

text \<open>The snapshot at \<open>delta\<close> milliseconds after the reference point, a second or more.\<close>

definition rt_snapshot :: "uint32 \<Rightarrow> int \<Rightarrow> rate_tracker \<Rightarrow> rate_tracker option" where
  "rt_snapshot current_time delta r =
     (let fraction_time = delta mod 1000;
          seconds = delta div 1000;
          units = rt_total_units r - rt_last_calc r;
          product = sint (ucast units :: 32 word) * fraction_time;
          fraction_units = word_of_int (product sdiv delta)
      in if fits_int product then
           Some (r\<lparr>rt_units_second := (units - fraction_units) div word_of_int seconds,
                   rt_last_time := current_time - word_of_int fraction_time,
                   rt_last_calc := rt_total_units r - fraction_units\<rparr>)
         else None)"

text \<open>\<^verbatim>\<open>units_second\<close>: the tracker afterwards, whose \<open>rt_units_second\<close> is the result.\<close>

definition units_second :: "uint32 \<Rightarrow> rate_tracker \<Rightarrow> rate_tracker option" where
  "units_second current_time r =
     (if rt_last_time r \<noteq> - 1 then
        (let delta = TimeDiff current_time (rt_last_time r)
         in case (if delta \<ge> 1000 then rt_snapshot current_time delta r else Some r) of
              None \<Rightarrow> None
            | Some r1 \<Rightarrow> Some (if rt_last_time r1 = - 1
                then r1\<lparr>rt_last_time := current_time, rt_last_calc := rt_total_units r1\<rparr> else r1))
      else Some (r\<lparr>rt_last_time := current_time, rt_last_calc := rt_total_units r\<rparr>))"

section \<open>The rate\<close>

text \<open>
  A snapshot \<open>s\<close> seconds and \<open>f\<close> milliseconds after the reference point, with few enough units
  since, splits them in proportion: the share of the whole seconds gives the rate and the rest stays to
  be counted from a reference point exactly \<open>s\<close> seconds later.  With \<open>2 ^ 31\<close> or more units times
  milliseconds the multiplication overflows.
\<close>

lemma rate_snapshot:
  assumes s: "0 < s" "s * 1000 + f < 2 ^ 31" "f < 1000"
    and u: "rt_total_units r - rt_last_calc r = of_nat u" "u < 2 ^ 31"
  shows "rt_snapshot now (int (s * 1000 + f)) r
    = (if u * f < 2 ^ 31 then
         Some (r\<lparr>rt_units_second := of_nat ((u - u * f div (s * 1000 + f)) div s), rt_last_time := now - of_nat f,
                 rt_last_calc := rt_total_units r - of_nat (u * f div (s * 1000 + f))\<rparr>)
       else None)"
proof -
  let ?d = "s * 1000 + f" let ?q = "u * f div (s * 1000 + f)"
  have dm: "int ?d mod 1000 = int f" "int ?d div 1000 = int s" using s by (simp_all add: zmod_int)
  have n: "sint (ucast (of_nat u :: uint64) :: 32 word) = int u"
  proof -
    have "ucast (of_nat u :: uint64) = (of_nat u :: 32 word)"
      using u(2) by (simp add: word_unat_eq_iff unsigned_ucast_eq unsigned_of_nat take_bit_eq_mod)
    moreover have "sint (of_nat u :: 32 word) = int u"
      using u(2) by (simp add: signed_of_nat signed_take_bit_int_eq_self)
    ultimately show ?thesis by simp
  qed
  have q: "?q \<le> u"
  proof -
    have "u * f \<le> u * ?d" by (intro mult_le_mono2) simp
    then have "?q \<le> u * ?d div ?d" by (rule div_le_mono)
    then show ?thesis using s(1) by simp
  qed
  have sd: "int u * int f sdiv int ?d = int ?q"
    using s(1) by (cases "u = 0 \<or> f = 0") (auto simp: signed_divide_int_def zdiv_int sgn_mult)
  have w: "(of_nat u - of_nat ?q :: uint64) div of_nat s = of_nat ((u - ?q) div s)"
  proof -
    have "(of_nat u - of_nat ?q :: uint64) = of_nat (u - ?q)" using q by (simp add: of_nat_diff)
    moreover have "unat (of_nat (u - ?q) :: uint64) = u - ?q" "unat (of_nat s :: uint64) = s"
      "unat (of_nat ((u - ?q) div s) :: uint64) = (u - ?q) div s"
      using u(2) s(2) le_less_trans[OF div_le_dividend [of "u - ?q" s]] by (simp_all add: unat_of_nat_small)
    ultimately show ?thesis by (simp add: word_unat_eq_iff unat_div_distrib)
  qed
  have fits: "fits_int (int u * int f) \<longleftrightarrow> u * f < 2 ^ 31"
  proof -
    have "int u * int f < 2147483648 \<longleftrightarrow> u * f < 2147483648"
      by (simp flip: of_nat_mult)
    moreover have "- 2147483648 \<le> int u * int f" by (rule order.trans [of _ 0]) simp_all
    ultimately show ?thesis unfolding fits_int_def by simp
  qed
  show ?thesis
    unfolding rt_snapshot_def Let_def dm u(1) n sd fits by (simp add: w)
qed

text \<open>Three megabytes in one second and 999 ms overflow.\<close>

lemma rate_overflow:
  "units_second 3000 (rt_Update 3000000 (RateTracker_new\<lparr>rt_last_time := 1001\<rparr>)) = None"
  by (simp add: units_second_def rt_snapshot_def rt_Update_def RateTracker_new_def TimeDiff_def fits_int_def Let_def)

end
