(* ===== verification/IcePort.thy ===== *)
theory IcePort
  imports StunBuild StunRequest StringEncode Base64 RateTracker "HOL-Library.Monad_Syntax"
begin

text \<open>
  \<^verbatim>\<open>p2p/base/candidate.h\<close> and the port of \<^verbatim>\<open>p2p/base/port.cc\<close>: candidates, the checks of incoming STUN
  messages, binding responses, role conflicts and the lifetime of a port.  A connection of the
  port is a record of its list, which stands for the map from remote addresses; what its own
  operations do is in \<open>IceConnection\<close>.  The signals a port raises and the packets it
  sends are appended to \<open>pt_out\<close>.  \<open>None\<close> is a failed assertion or undefined behaviour.
\<close>

section \<open>Candidates\<close>

record candidate =
  cd_id :: bytes
  cd_component :: int
  cd_protocol :: bytes
  cd_address :: socket_address
  cd_priority :: uint32
  cd_username :: bytes
  cd_password :: bytes
  cd_type :: bytes
  cd_network_name :: bytes
  cd_generation :: uint32
  cd_foundation :: bytes
  cd_related_address :: socket_address

definition Candidate_new :: candidate where
  "Candidate_new = \<lparr>cd_id = [], cd_component = 0, cd_protocol = [], cd_address = SocketAddress_nil, cd_priority = 0,
     cd_username = [], cd_password = [], cd_type = [], cd_network_name = [], cd_generation = 0, cd_foundation = [],
     cd_related_address = SocketAddress_nil\<rparr>"

definition cd_IsEquivalent :: "candidate \<Rightarrow> candidate \<Rightarrow> bool" where
  "cd_IsEquivalent a c \<longleftrightarrow> cd_id a = cd_id c \<and> cd_component a = cd_component c \<and> cd_protocol a = cd_protocol c
     \<and> sa_eq (cd_address a) (cd_address c) \<and> cd_username a = cd_username c \<and> cd_password a = cd_password c
     \<and> cd_type a = cd_type c \<and> cd_generation a = cd_generation c \<and> cd_foundation a = cd_foundation c
     \<and> sa_eq (cd_related_address a) (cd_related_address c)"

definition cd_GetPriority :: "candidate \<Rightarrow> uint32 \<Rightarrow> uint32" where
  "cd_GetPriority c type_preference =
     push_bit 24 type_preference OR push_bit 8 (of_nat (IPAddressPrecedence (sa_ip (cd_address c))))
       OR word_of_int (256 - cd_component c)"

section \<open>Constants and types\<close>

definition ICE_TYPE_PREFERENCE_RELAY :: uint32 where "ICE_TYPE_PREFERENCE_RELAY = 0"
definition ICE_TYPE_PREFERENCE_HOST_TCP :: uint32 where "ICE_TYPE_PREFERENCE_HOST_TCP = 90"
definition ICE_TYPE_PREFERENCE_SRFLX :: uint32 where "ICE_TYPE_PREFERENCE_SRFLX = 100"
definition ICE_TYPE_PREFERENCE_PRFLX :: uint32 where "ICE_TYPE_PREFERENCE_PRFLX = 110"
definition ICE_TYPE_PREFERENCE_HOST :: uint32 where "ICE_TYPE_PREFERENCE_HOST = 126"
definition ICE_CANDIDATE_COMPONENT_RTP :: int where "ICE_CANDIDATE_COMPONENT_RTP = 1"
definition ICE_CANDIDATE_COMPONENT_RTCP :: int where "ICE_CANDIDATE_COMPONENT_RTCP = 2"
definition ICE_CANDIDATE_COMPONENT_DEFAULT :: int where "ICE_CANDIDATE_COMPONENT_DEFAULT = 1"
definition kPortTimeoutDelay :: nat where "kPortTimeoutDelay = 30 * 1000"

datatype ice_protocol = ICEPROTO_GOOGLE | ICEPROTO_HYBRID | ICEPROTO_RFC5245
datatype transport_role = ROLE_CONTROLLING | ROLE_CONTROLLED | ROLE_UNKNOWN
datatype protocol_type = PROTO_UDP | PROTO_TCP | PROTO_SSLTCP
datatype port_lifetime = LT_PRESTART | LT_PRETIMEOUT | LT_POSTTIMEOUT

definition PROTO_NAMES :: "bytes list" where
  "PROTO_NAMES = [string_bytes ''udp'', string_bytes ''tcp'', string_bytes ''ssltcp'']"

fun ProtoToString :: "protocol_type \<Rightarrow> bytes" where
  "ProtoToString PROTO_UDP = PROTO_NAMES ! 0"
| "ProtoToString PROTO_TCP = PROTO_NAMES ! 1"
| "ProtoToString PROTO_SSLTCP = PROTO_NAMES ! 2"

text \<open>Letters compare without case.\<close>

definition lower :: "bytes \<Rightarrow> bytes" where
  "lower = map (\<lambda>c. if 65 \<le> c \<and> c \<le> 90 then c + 32 else c)"

definition StringToProto :: "bytes \<Rightarrow> protocol_type option" where
  "StringToProto value = List.find (\<lambda>p. lower (ProtoToString p) = lower value) [PROTO_UDP, PROTO_TCP, PROTO_SSLTCP]"

section \<open>Connections and ports\<close>

datatype connection_state = STATE_WAITING | STATE_INPROGRESS | STATE_SUCCEEDED | STATE_FAILED
datatype read_state = STATE_READ_INIT | STATE_READABLE | STATE_READ_TIMEOUT
datatype write_state = STATE_WRITABLE | STATE_WRITE_UNRELIABLE | STATE_WRITE_INIT | STATE_WRITE_TIMEOUT

datatype connection_signal = State_change | Use_candidate | Data_received bytes

text \<open>\<open>cx_deletes\<close> counts the posted \<^verbatim>\<open>MSG_DELETE\<close>; \<open>cx_signals\<close> are the signals raised.\<close>

record ice_connection =
  cx_local_index :: nat
  cx_remote :: candidate
  cx_read :: read_state
  cx_write :: write_state
  cx_connected :: bool
  cx_pruned :: bool
  cx_requests :: request_manager
  cx_rtt :: uint32
  cx_last_ping_sent :: uint32
  cx_last_ping_received :: uint32
  cx_last_data_received :: uint32
  cx_last_ping_response_received :: uint32
  cx_pings :: "uint32 list"
  cx_recv_rate :: rate_tracker
  cx_send_rate :: rate_tracker
  cx_reported :: bool
  cx_nominated :: bool
  cx_state :: connection_state
  cx_error :: int
  cx_deletes :: nat
  cx_signals :: "connection_signal list"

datatype port_output =
    Port_sent bytes socket_address bool
  | Unknown_address socket_address protocol_type stun_message bytes
  | Role_conflict
  | Port_packet bytes socket_address
  | Candidate_ready candidate
  | Address_ready
  | Connection_created socket_address
  | Port_destroyed

record ice_port =
  pt_type :: bytes
  pt_type_preference :: uint32
  pt_send_retransmit_count :: bool
  pt_network_name :: bytes
  pt_ip :: ip_address
  pt_min_port :: int
  pt_max_port :: int
  pt_component :: int
  pt_generation :: uint32
  pt_related_address :: socket_address
  pt_ufrag :: bytes
  pt_password :: bytes
  pt_candidates :: "candidate list"
  pt_connections :: "ice_connection list"
  pt_lifetime :: port_lifetime
  pt_port_packets :: bool
  pt_protocol :: ice_protocol
  pt_role :: transport_role
  pt_tiebreaker :: uint64
  pt_shared_socket :: bool
  pt_timers :: "nat list"
  pt_destroyed :: bool
  pt_out :: "port_output list"

text \<open>The environment of an operation: the clock, a random string, and the result of the virtual \<^verbatim>\<open>SendTo\<close>
  with its error.\<close>

record port_input =
  pi_now :: nat
  pi_random :: bytes
  pi_sent :: int
  pi_error :: int

definition pt_note :: "port_output \<Rightarrow> ice_port \<Rightarrow> ice_port" where
  "pt_note e p = p\<lparr>pt_out := pt_out p @ [e]\<rparr>"

definition pt_SendTo :: "bytes \<Rightarrow> socket_address \<Rightarrow> bool \<Rightarrow> ice_port \<Rightarrow> ice_port" where
  "pt_SendTo data addr payload p = pt_note (Port_sent data addr payload) p"

section \<open>Construction\<close>

text \<open>\<^verbatim>\<open>Construct\<close> with the two random strings it may need.\<close>

definition pt_Construct :: "bytes \<Rightarrow> bytes \<Rightarrow> ice_port \<Rightarrow> ice_port option" where
  "pt_Construct random_ufrag random_pwd p =
     (if pt_ufrag p = [] then
        (if pt_password p \<noteq> [] then None else Some (p\<lparr>pt_ufrag := random_ufrag, pt_password := random_pwd\<rparr>))
      else Some p)"

definition Port_shared :: "bytes \<Rightarrow> ip_address \<Rightarrow> bytes \<Rightarrow> bytes \<Rightarrow> ice_port" where
  "Port_shared network_name ip username_fragment password =
     \<lparr>pt_type = [], pt_type_preference = 0, pt_send_retransmit_count = False, pt_network_name = network_name, pt_ip = ip,
      pt_min_port = 0, pt_max_port = 0, pt_component = ICE_CANDIDATE_COMPONENT_DEFAULT, pt_generation = 0,
      pt_related_address = SocketAddress_nil, pt_ufrag = username_fragment, pt_password = password, pt_candidates = [],
      pt_connections = [], pt_lifetime = LT_PRESTART, pt_port_packets = False, pt_protocol = ICEPROTO_GOOGLE,
      pt_role = ROLE_UNKNOWN, pt_tiebreaker = 0, pt_shared_socket = True, pt_timers = [], pt_destroyed = False, pt_out = []\<rparr>"

definition Port_own :: "bytes \<Rightarrow> uint32 \<Rightarrow> bytes \<Rightarrow> ip_address \<Rightarrow> int \<Rightarrow> int \<Rightarrow> bytes \<Rightarrow> bytes \<Rightarrow> ice_port" where
  "Port_own type preference network_name ip min_port max_port username_fragment password =
     (Port_shared network_name ip username_fragment password)
       \<lparr>pt_type := type, pt_type_preference := preference, pt_min_port := min_port, pt_max_port := max_port,
        pt_shared_socket := False\<rparr>"

definition Port_new :: "bytes \<Rightarrow> ip_address \<Rightarrow> bytes \<Rightarrow> bytes \<Rightarrow> bytes \<Rightarrow> bytes \<Rightarrow> ice_port option" where
  "Port_new network_name ip username_fragment password random_ufrag random_pwd =
     pt_Construct random_ufrag random_pwd (Port_shared network_name ip username_fragment password)"

definition pt_SetIceProtocolType :: "ice_protocol \<Rightarrow> ice_port \<Rightarrow> ice_port" where
  "pt_SetIceProtocolType protocol p = p\<lparr>pt_protocol := protocol\<rparr>"

definition pt_SetRole :: "transport_role \<Rightarrow> ice_port \<Rightarrow> ice_port" where
  "pt_SetRole role p = p\<lparr>pt_role := role\<rparr>"

definition pt_SetTiebreaker :: "uint64 \<Rightarrow> ice_port \<Rightarrow> ice_port" where
  "pt_SetTiebreaker tiebreaker p = p\<lparr>pt_tiebreaker := tiebreaker\<rparr>"

section \<open>User names\<close>

definition GetRtcpUfragFromRtpUfrag :: "bytes \<Rightarrow> bytes option" where
  "GetRtcpUfragFromRtpUfrag rtp_ufrag =
     (if rtp_ufrag = [] then None
      else case GetNextBase64Char (last rtp_ufrag) of
          None \<Rightarrow> None
        | Some new_last_char \<Rightarrow> Some (butlast rtp_ufrag @ [new_last_char]))"

definition username_fragment :: "ice_port \<Rightarrow> bytes option" where
  "username_fragment p =
     (if pt_protocol p = ICEPROTO_GOOGLE \<and> pt_component p = ICE_CANDIDATE_COMPONENT_RTCP
      then GetRtcpUfragFromRtpUfrag (pt_ufrag p) else Some (pt_ufrag p))"

text \<open>The two fragments, empty for a protocol that is neither, or no value when the user name is bad.\<close>

definition ParseStunUsername :: "stun_message \<Rightarrow> ice_port \<Rightarrow> (bytes \<times> bytes) option option" where
  "ParseStunUsername msg p =
     (case GetAttribute msg STUN_ATTR_USERNAME of
        None \<Rightarrow> Some None
      | Some username_attr \<Rightarrow>
          let username = attr_string username_attr in
          case pt_protocol p of
            ICEPROTO_RFC5245 \<Rightarrow>
              Some (case find_char 58 username of
                 None \<Rightarrow> None
               | Some colon_pos \<Rightarrow> Some (take colon_pos username, drop (colon_pos + 1) username))
          | ICEPROTO_GOOGLE \<Rightarrow>
              do {
                frag \<leftarrow> username_fragment p;
                Some (if length username < length frag then None
                      else Some (take (length frag) username, drop (length frag) username))
              }
          | ICEPROTO_HYBRID \<Rightarrow> Some (Some ([], [])))"

definition CreateStunUsername :: "bytes \<Rightarrow> ice_port \<Rightarrow> bytes option" where
  "CreateStunUsername remote_username p =
     do {
       frag \<leftarrow> username_fragment p;
       Some (remote_username @ (if pt_protocol p = ICEPROTO_RFC5245 then [58] else []) @ frag)
     }"

section \<open>The states of a connection\<close>

definition cx_note :: "connection_signal \<Rightarrow> ice_connection \<Rightarrow> ice_connection" where
  "cx_note e c = c\<lparr>cx_signals := cx_signals c @ [e]\<rparr>"

definition cx_CheckTimeout :: "ice_connection \<Rightarrow> ice_connection" where
  "cx_CheckTimeout c =
     (if (cx_read c = STATE_READ_TIMEOUT \<or> cx_read c = STATE_READ_INIT) \<and> cx_write c = STATE_WRITE_TIMEOUT
      then c\<lparr>cx_deletes := cx_deletes c + 1\<rparr> else c)"

definition set_read_state :: "read_state \<Rightarrow> ice_connection \<Rightarrow> ice_connection" where
  "set_read_state value c =
     (if value \<noteq> cx_read c then cx_CheckTimeout (cx_note State_change (c\<lparr>cx_read := value\<rparr>)) else c)"

definition set_write_state :: "write_state \<Rightarrow> ice_connection \<Rightarrow> ice_connection" where
  "set_write_state value c =
     (if value \<noteq> cx_write c then cx_CheckTimeout (cx_note State_change (c\<lparr>cx_write := value\<rparr>)) else c)"

definition ReceivedPing :: "nat \<Rightarrow> ice_connection \<Rightarrow> ice_connection" where
  "ReceivedPing now c = set_read_state STATE_READABLE (c\<lparr>cx_last_ping_received := of_nat now\<rparr>)"

text \<open>The map of connections.\<close>

definition GetConnection :: "socket_address \<Rightarrow> ice_port \<Rightarrow> ice_connection option" where
  "GetConnection remote_addr p = List.find (\<lambda>c. sa_eq (cd_address (cx_remote c)) remote_addr) (pt_connections p)"

definition pt_update :: "socket_address \<Rightarrow> (ice_connection \<Rightarrow> ice_connection) \<Rightarrow> ice_port \<Rightarrow> ice_port" where
  "pt_update addr f p =
     p\<lparr>pt_connections := map (\<lambda>c. if sa_eq (cd_address (cx_remote c)) addr then f c else c) (pt_connections p)\<rparr>"

text \<open>A second connection to an address would take the place of the first in the map and leave that one to
  itself; those who create connections look for one first.\<close>

definition AddConnection :: "ice_connection \<Rightarrow> ice_port \<Rightarrow> ice_port option" where
  "AddConnection conn p =
     (if GetConnection (cd_address (cx_remote conn)) p \<noteq> None then None
      else Some (pt_note (Connection_created (cd_address (cx_remote conn)))
                  (p\<lparr>pt_connections := pt_connections p @ [conn]\<rparr>)))"

section \<open>Candidates of the port\<close>

definition ComputeFoundation :: "ntop \<Rightarrow> bytes \<Rightarrow> bytes \<Rightarrow> socket_address \<Rightarrow> bytes" where
  "ComputeFoundation ntop type protocol base_address =
     decimal (unat (ComputeCrc32 (type @ string_bytes (ntop (sa_ip base_address)) @ protocol)))"

definition pt_AddAddress ::
    "ntop \<Rightarrow> port_input \<Rightarrow> socket_address \<Rightarrow> socket_address \<Rightarrow> bytes \<Rightarrow> bytes \<Rightarrow> uint32 \<Rightarrow> bool \<Rightarrow> ice_port \<Rightarrow> ice_port option" where
  "pt_AddAddress ntop inp address base_address protocol type type_preference final p =
     do {
       frag \<leftarrow> username_fragment p;
       let c = Candidate_new\<lparr>cd_id := pi_random inp, cd_component := pt_component p, cd_type := type,
                 cd_protocol := protocol, cd_address := address\<rparr>;
       let c = c\<lparr>cd_priority := cd_GetPriority c type_preference, cd_username := frag, cd_password := pt_password p,
                 cd_network_name := pt_network_name p, cd_generation := pt_generation p,
                 cd_related_address := pt_related_address p,
                 cd_foundation := ComputeFoundation ntop type protocol base_address\<rparr>;
       let p1 = pt_note (Candidate_ready c) (p\<lparr>pt_candidates := pt_candidates p @ [c]\<rparr>);
       Some (if final then pt_note Address_ready p1 else p1)
     }"

definition IsCompatibleAddress :: "socket_address \<Rightarrow> ice_port \<Rightarrow> bool" where
  "IsCompatibleAddress addr p =
     (if ip_family (sa_ip addr) \<noteq> ip_family (pt_ip p) then False
      else if ip_family (pt_ip p) = AF_INET6 \<and> IPIsPrivate (pt_ip p) \<noteq> IPIsPrivate (sa_ip addr) then False
      else True)"

section \<open>Responses\<close>

text \<open>The error attribute with the code as the protocol writes it.\<close>

definition binding_error_attr :: "ice_protocol \<Rightarrow> nat \<Rightarrow> bytes \<Rightarrow> stun_attr" where
  "binding_error_attr protocol error_code reason =
     (let (class, number) = (case protocol of
            ICEPROTO_RFC5245 \<Rightarrow> ErrorCode_SetCode error_code
          | ICEPROTO_GOOGLE \<Rightarrow> (of_nat (error_code div 256), of_nat (error_code mod 256))
          | ICEPROTO_HYBRID \<Rightarrow> (0, 0))
      in attr_CreateErrorCode\<lparr>at_length := 4 + of_nat (length reason), at_body := StunErrorCode class number reason\<rparr>)"

definition SendBindingErrorResponse ::
    "bytes \<Rightarrow> stun_message \<Rightarrow> socket_address \<Rightarrow> nat \<Rightarrow> bytes \<Rightarrow> ice_port \<Rightarrow> ice_port option" where
  "SendBindingErrorResponse mem request addr error_code reason p =
     (if sm_type request \<noteq> STUN_BINDING_REQUEST then None
      else
        let r0 = snd (SetTransactionID (sm_tid request)
                   (SetType (uint STUN_BINDING_ERROR_RESPONSE) (StunMessage_new StunMessage)));
            r1 = snd (AddAttribute (binding_error_attr (pt_protocol p) error_code reason) r0);
            r2 = (case pt_protocol p of
                    ICEPROTO_RFC5245 \<Rightarrow>
                      snd (AddFingerprint
                        (if error_code \<noteq> STUN_ERROR_BAD_REQUEST \<and> error_code \<noteq> STUN_ERROR_UNAUTHORIZED
                         then snd (AddMessageIntegrity mem (pt_password p) r1) else r1))
                  | ICEPROTO_GOOGLE \<Rightarrow>
                      (case GetAttribute request STUN_ATTR_USERNAME of
                         Some username_attr \<Rightarrow>
                           snd (AddAttribute (attr_ByteString STUN_ATTR_USERNAME (attr_string username_attr)) r1)
                       | None \<Rightarrow> r1)
                  | ICEPROTO_HYBRID \<Rightarrow> r1)
        in Some (pt_SendTo (bb_data (written_message r2)) addr False p))"

text \<open>The response to an authenticated request.\<close>

definition binding_response :: "bytes \<Rightarrow> stun_message \<Rightarrow> bytes \<Rightarrow> socket_address \<Rightarrow> ice_port \<Rightarrow> stun_message" where
  "binding_response mem request username addr p =
     (let r0 = snd (SetTransactionID (sm_tid request)
                 (SetType (uint STUN_BINDING_RESPONSE) (StunMessage_new StunMessage)));
          r1 = (case GetAttribute request STUN_ATTR_RETRANSMIT_COUNT of
                  Some retransmit_attr \<Rightarrow>
                    snd (AddAttribute (attr_UInt32 STUN_ATTR_RETRANSMIT_COUNT (attr_value retransmit_attr)) r0)
                | None \<Rightarrow> r0)
      in case pt_protocol p of
           ICEPROTO_RFC5245 \<Rightarrow>
             snd (AddFingerprint (snd (AddMessageIntegrity mem (pt_password p)
               (snd (AddAttribute (attr_XorAddress STUN_ATTR_XOR_MAPPED_ADDRESS addr) r1)))))
         | ICEPROTO_GOOGLE \<Rightarrow>
             snd (AddAttribute (attr_ByteString STUN_ATTR_USERNAME username)
               (snd (AddAttribute (attr_Address STUN_ATTR_MAPPED_ADDRESS addr) r1)))
         | ICEPROTO_HYBRID \<Rightarrow> r1)"

definition SendBindingResponse ::
    "bytes \<Rightarrow> port_input \<Rightarrow> stun_message \<Rightarrow> socket_address \<Rightarrow> ice_port \<Rightarrow> ice_port option" where
  "SendBindingResponse mem inp request addr p =
     (if sm_type request \<noteq> STUN_BINDING_REQUEST then None
      else do {
        username_attr \<leftarrow> GetAttribute request STUN_ATTR_USERNAME;
        let response = binding_response mem request (attr_string username_attr) addr p;
        let p1 = pt_SendTo (bb_data (written_message response)) addr False p;
        if GetConnection addr p1 = None then None
        else Some (pt_update addr (ReceivedPing (pi_now inp)) p1)
      })"

section \<open>Incoming messages\<close>

text \<open>What \<^verbatim>\<open>GetStunMessage\<close> finds: no STUN message, one it has dealt with, or one for its caller
  with the remote fragment of the user name.\<close>

datatype stun_check = Not_stun | Handled | Checked stun_message bytes

definition check_binding_request ::
    "bytes \<Rightarrow> bytes \<Rightarrow> socket_address \<Rightarrow> stun_message \<Rightarrow> ice_port \<Rightarrow> (stun_check \<times> ice_port) option" where
  "check_binding_request mem data addr msg p =
     (let unauthorized = do {
            p1 \<leftarrow> SendBindingErrorResponse mem msg addr STUN_ERROR_UNAUTHORIZED STUN_ERROR_REASON_UNAUTHORIZED p;
            Some (Handled, p1)
          }
      in if GetAttribute msg STUN_ATTR_USERNAME = None
            \<or> pt_protocol p = ICEPROTO_RFC5245 \<and> GetAttribute msg STUN_ATTR_MESSAGE_INTEGRITY = None
         then do {
           p1 \<leftarrow> SendBindingErrorResponse mem msg addr STUN_ERROR_BAD_REQUEST STUN_ERROR_REASON_BAD_REQUEST p;
           Some (Handled, p1)
         }
         else do {
           parsed \<leftarrow> ParseStunUsername msg p;
           frag \<leftarrow> username_fragment p;
           case parsed of
             None \<Rightarrow> unauthorized
           | Some (local_ufrag, remote_ufrag) \<Rightarrow>
               if local_ufrag \<noteq> frag then unauthorized
               else do {
                 ok \<leftarrow> (if pt_protocol p = ICEPROTO_RFC5245 then ValidateMessageIntegrity mem data (pt_password p)
                        else Some True);
                 if \<not> ok then unauthorized else Some (Checked msg remote_ufrag, p)
               }
         })"

definition GetStunMessage ::
    "bytes \<Rightarrow> bytes \<Rightarrow> socket_address \<Rightarrow> ice_port \<Rightarrow> (stun_check \<times> ice_port) option" where
  "GetStunMessage mem data addr p =
     (if pt_protocol p = ICEPROTO_RFC5245 \<and> \<not> ValidateFingerprint data then Some (Not_stun, p)
      else case StunMessage_Read (StunMessage_new IceMessage) (bb_of_bytes data) of
          None \<Rightarrow> Some (Not_stun, p)
        | Some (msg, buf) \<Rightarrow>
            if bb_length buf > 0 then Some (Not_stun, p)
            else if sm_type msg = STUN_BINDING_REQUEST then check_binding_request mem data addr msg p
            else if sm_type msg = STUN_BINDING_RESPONSE then Some (Checked msg [], p)
            else if sm_type msg = STUN_BINDING_ERROR_RESPONSE then
              Some (if GetErrorCode msg = None then Handled else Checked msg [], p)
            else if sm_type msg = STUN_BINDING_INDICATION then Some (Checked msg [], p)
            else Some (Handled, p))"

section \<open>Role conflicts\<close>

text \<open>The role a message claims, and its tie breaker.\<close>

definition remote_role :: "stun_message \<Rightarrow> (transport_role \<times> uint64) option" where
  "remote_role msg =
     (case GetAttribute msg STUN_ATTR_ICE_CONTROLLED of
        Some a \<Rightarrow> Some (ROLE_CONTROLLED, attr_value64 a)
      | None \<Rightarrow> map_option (\<lambda>a. (ROLE_CONTROLLING, attr_value64 a)) (GetAttribute msg STUN_ATTR_ICE_CONTROLLING))"

definition MaybeIceRoleConflict ::
    "bytes \<Rightarrow> socket_address \<Rightarrow> stun_message \<Rightarrow> bytes \<Rightarrow> ice_port \<Rightarrow> (bool \<times> ice_port) option" where
  "MaybeIceRoleConflict mem addr msg remote_ufrag p =
     do {
       frag \<leftarrow> username_fragment p;
       let refuse = do {
         p1 \<leftarrow> SendBindingErrorResponse mem msg addr STUN_ERROR_ROLE_CONFLICT STUN_ERROR_REASON_ROLE_CONFLICT p;
         Some (False, p1)
       };
       if (case GetAttribute msg STUN_ATTR_ICE_CONTROLLING of
             Some a \<Rightarrow> frag = remote_ufrag \<and> attr_value64 a = pt_tiebreaker p | None \<Rightarrow> False)
       then Some (True, p)
       else case (pt_role p, remote_role msg) of
           (ROLE_CONTROLLING, Some (ROLE_CONTROLLING, remote_tiebreaker)) \<Rightarrow>
             if remote_tiebreaker \<ge> pt_tiebreaker p then Some (True, pt_note Role_conflict p) else refuse
         | (ROLE_CONTROLLED, Some (ROLE_CONTROLLED, remote_tiebreaker)) \<Rightarrow>
             if remote_tiebreaker < pt_tiebreaker p then Some (True, pt_note Role_conflict p) else refuse
         | (ROLE_UNKNOWN, _) \<Rightarrow> None
         | _ \<Rightarrow> Some (True, p)
     }"

section \<open>Packets from unknown addresses, and the lifetime\<close>

definition pt_OnReadPacket ::
    "bytes \<Rightarrow> bytes \<Rightarrow> socket_address \<Rightarrow> protocol_type \<Rightarrow> ice_port \<Rightarrow> ice_port option" where
  "pt_OnReadPacket mem data addr proto p =
     (if pt_port_packets p then Some (pt_note (Port_packet data addr) p)
      else do {
        (check, p1) \<leftarrow> GetStunMessage mem data addr p;
        case check of
          Checked msg remote_username \<Rightarrow>
            if sm_type msg = STUN_BINDING_REQUEST then do {
              (ok, p2) \<leftarrow> (if pt_protocol p1 = ICEPROTO_RFC5245 then MaybeIceRoleConflict mem addr msg remote_username p1
                         else Some (True, p1));
              Some (if ok then pt_note (Unknown_address addr proto msg remote_username) p2 else p2)
            }
            else Some p1
        | _ \<Rightarrow> Some p1
      })"

definition pt_EnablePortPackets :: "ice_port \<Rightarrow> ice_port" where
  "pt_EnablePortPackets p = p\<lparr>pt_port_packets := True\<rparr>"

definition pt_Start :: "nat \<Rightarrow> ice_port \<Rightarrow> ice_port" where
  "pt_Start now p =
     (if pt_lifetime p = LT_PRESTART
      then p\<lparr>pt_lifetime := LT_PRETIMEOUT, pt_timers := pt_timers p @ [now + kPortTimeoutDelay]\<rparr> else p)"

definition pt_Destroy :: "ice_port \<Rightarrow> ice_port option" where
  "pt_Destroy p =
     (if pt_connections p \<noteq> [] then None
      else Some (pt_note Port_destroyed (p\<lparr>pt_destroyed := True, pt_timers := []\<rparr>)))"

definition pt_CheckTimeout :: "ice_port \<Rightarrow> ice_port option" where
  "pt_CheckTimeout p = (if pt_lifetime p = LT_POSTTIMEOUT \<and> pt_connections p = [] then pt_Destroy p else Some p)"

definition pt_OnMessage :: "ice_port \<Rightarrow> ice_port option" where
  "pt_OnMessage p =
     (if pt_lifetime p \<noteq> LT_PRETIMEOUT then None else pt_CheckTimeout (p\<lparr>pt_lifetime := LT_POSTTIMEOUT\<rparr>))"

definition OnConnectionDestroyed :: "socket_address \<Rightarrow> ice_port \<Rightarrow> ice_port option" where
  "OnConnectionDestroyed addr p =
     (if GetConnection addr p = None then None
      else pt_CheckTimeout
        (p\<lparr>pt_connections := filter (\<lambda>c. \<not> sa_eq (cd_address (cx_remote c)) addr) (pt_connections p)\<rparr>))"

end
