(* ===== verification/IceConnection.thy ===== *)
theory IceConnection
  imports IcePort
begin

text \<open>
  The connections of \<^verbatim>\<open>p2p/base/port.cc\<close>: pings, their answers, the packets that arrive, the time-outs and
  the end of a connection.  A connection is the entry of its port for a remote address.  Its
  pings are requests of \<open>StunRequest\<close> whose class is sent once and ends after five seconds.
\<close>

section \<open>Constants\<close>

definition CONNECTION_READ_TIMEOUT :: uint32 where "CONNECTION_READ_TIMEOUT = 30 * 1000"
definition CONNECTION_WRITE_TIMEOUT :: uint32 where "CONNECTION_WRITE_TIMEOUT = 15 * 1000"
definition CONNECTION_WRITE_CONNECT_TIMEOUT :: uint32 where "CONNECTION_WRITE_CONNECT_TIMEOUT = 5 * 1000"
definition CONNECTION_WRITE_CONNECT_FAILURES :: nat where "CONNECTION_WRITE_CONNECT_FAILURES = 5"
definition CONNECTION_RESPONSE_TIMEOUT :: nat where "CONNECTION_RESPONSE_TIMEOUT = 5 * 1000"
definition MINIMUM_RTT :: uint32 where "MINIMUM_RTT = 100"
definition MAXIMUM_RTT :: uint32 where "MAXIMUM_RTT = 3000"
definition DEFAULT_RTT :: uint32 where "DEFAULT_RTT = MAXIMUM_RTT"
definition RTT_RATIO :: uint32 where "RTT_RATIO = 3"
definition EWOULDBLOCK :: int where "EWOULDBLOCK = 11"
definition SOCKET_ERROR :: int where "SOCKET_ERROR = - 1"

definition TooManyFailures :: "uint32 list \<Rightarrow> nat \<Rightarrow> uint32 \<Rightarrow> uint32 \<Rightarrow> bool" where
  "TooManyFailures pings_since_last_response maximum_failures rtt_estimate now \<longleftrightarrow>
     \<not> length pings_since_last_response < maximum_failures
     \<and> pings_since_last_response ! (maximum_failures - 1) + rtt_estimate < now"

definition TooLongWithoutResponse :: "uint32 list \<Rightarrow> uint32 \<Rightarrow> uint32 \<Rightarrow> bool" where
  "TooLongWithoutResponse pings_since_last_response maximum_time now \<longleftrightarrow>
     pings_since_last_response \<noteq> [] \<and> pings_since_last_response ! 0 + maximum_time < now"

definition ConservativeRTTEstimate :: "uint32 \<Rightarrow> uint32" where
  "ConservativeRTTEstimate rtt = max MINIMUM_RTT (min MAXIMUM_RTT (2 * rtt))"

section \<open>Construction\<close>

definition Connection_new :: "nat \<Rightarrow> candidate \<Rightarrow> ice_connection" where
  "Connection_new index remote_candidate =
     \<lparr>cx_local_index = index, cx_remote = remote_candidate, cx_read = STATE_READ_INIT, cx_write = STATE_WRITE_INIT,
      cx_connected = True, cx_pruned = False, cx_requests = StunRequestManager, cx_rtt = DEFAULT_RTT,
      cx_last_ping_sent = 0, cx_last_ping_received = 0, cx_last_data_received = 0,
      cx_last_ping_response_received = 0, cx_pings = [], cx_recv_rate = RateTracker_new,
      cx_send_rate = RateTracker_new, cx_reported = False, cx_nominated = False, cx_state = STATE_WAITING,
      cx_error = 0, cx_deletes = 0, cx_signals = []\<rparr>"

text \<open>\<^verbatim>\<open>CreateConnection\<close> of a UDP port on its own socket.\<close>

definition CreateConnection :: "candidate \<Rightarrow> ice_port \<Rightarrow> ice_port option" where
  "CreateConnection address p =
     (if cd_protocol address \<noteq> string_bytes ''udp'' then Some p
      else if \<not> IsCompatibleAddress (cd_address address) p then Some p
      else if pt_shared_socket p \<and> (pt_candidates p = [] \<or> cd_type (hd (pt_candidates p)) \<noteq> string_bytes ''local'') then None
      else AddConnection (Connection_new 0 address) p)"

definition set_state :: "connection_state \<Rightarrow> ice_connection \<Rightarrow> ice_connection" where
  "set_state state c = c\<lparr>cx_state := state\<rparr>"

definition set_connected :: "bool \<Rightarrow> ice_connection \<Rightarrow> ice_connection" where
  "set_connected value c = c\<lparr>cx_connected := value\<rparr>"

definition cx_local_candidate :: "ice_port \<Rightarrow> ice_connection \<Rightarrow> candidate option" where
  "cx_local_candidate p c =
     (if cx_local_index c < length (pt_candidates p) then Some (pt_candidates p ! cx_local_index c) else None)"

text \<open>The pair priority; the terms of the last sum have 32 bits.\<close>

definition pair_priority :: "uint32 \<Rightarrow> uint32 \<Rightarrow> uint64" where
  "pair_priority g d = push_bit 32 (ucast (min g d)) + ucast (2 * max g d + (if g > d then 1 else 0))"

definition cx_priority :: "ice_port \<Rightarrow> ice_connection \<Rightarrow> uint64 option" where
  "cx_priority p c =
     (if pt_role p = ROLE_UNKNOWN then Some 0
      else do {
        local \<leftarrow> cx_local_candidate p c;
        Some (if pt_role p = ROLE_CONTROLLING then pair_priority (cd_priority local) (cd_priority (cx_remote c))
              else pair_priority (cd_priority (cx_remote c)) (cd_priority local))
      })"

section \<open>Pings\<close>

text \<open>\<^verbatim>\<open>Prepare\<close> of a ping: the attributes that depend on the role, then the rest.\<close>

definition role_attrs :: "ice_port \<Rightarrow> stun_attr list" where
  "role_attrs p =
     (if pt_role p = ROLE_CONTROLLING
      then [attr_UInt64 STUN_ATTR_ICE_CONTROLLING (pt_tiebreaker p), attr_ByteString STUN_ATTR_USE_CANDIDATE []]
      else [attr_UInt64 STUN_ATTR_ICE_CONTROLLED (pt_tiebreaker p)])"

definition prflx_priority :: "candidate \<Rightarrow> uint32" where
  "prflx_priority local = push_bit 24 ICE_TYPE_PREFERENCE_PRFLX OR (cd_priority local AND 0x00FFFFFF)"

definition ping_attrs :: "bytes \<Rightarrow> candidate \<Rightarrow> ice_port \<Rightarrow> ice_connection \<Rightarrow> stun_attr list" where
  "ping_attrs username local p c =
     [attr_ByteString STUN_ATTR_USERNAME username]
     @ (if pt_send_retransmit_count p
        then [attr_UInt32 STUN_ATTR_RETRANSMIT_COUNT (of_nat (length (cx_pings c)) - 1)] else [])
     @ (if pt_protocol p = ICEPROTO_RFC5245
        then role_attrs p @ [attr_UInt32 STUN_ATTR_PRIORITY (prflx_priority local)] else [])"

definition ping_Prepare ::
    "bytes \<Rightarrow> bytes \<Rightarrow> candidate \<Rightarrow> ice_port \<Rightarrow> ice_connection \<Rightarrow> stun_message \<Rightarrow> stun_message" where
  "ping_Prepare mem username local p c request =
     (let r1 = fold (\<lambda>a m. snd (AddAttribute a m)) (ping_attrs username local p c)
                 (SetType (uint STUN_BINDING_REQUEST) request)
      in if pt_protocol p = ICEPROTO_RFC5245
         then snd (AddFingerprint (snd (AddMessageIntegrity mem (cd_password (cx_remote c)) r1))) else r1)"

definition ping_GetNextDelay :: "stun_request \<Rightarrow> nat \<times> stun_request" where
  "ping_GetNextDelay r = (CONNECTION_RESPONSE_TIMEOUT, r\<lparr>rq_timeout := True\<rparr>)"

text \<open>\<^verbatim>\<open>Ping\<close>: the request is sent when the thread delivers its message.\<close>

definition cx_Ping :: "bytes \<Rightarrow> port_input \<Rightarrow> uint32 \<Rightarrow> ice_port \<Rightarrow> ice_connection \<Rightarrow> ice_connection option" where
  "cx_Ping mem inp now p c =
     (if \<not> cx_connected c then None
      else
        let c1 = c\<lparr>cx_last_ping_sent := now, cx_pings := cx_pings c @ [now]\<rparr>;
            request = StunRequest_new (StunMessage_new IceMessage) (pi_random inp)
        in do {
          username \<leftarrow> CreateStunUsername (cd_username (cx_remote c)) p;
          local \<leftarrow> (if pt_protocol p \<noteq> ICEPROTO_RFC5245 then Some Candidate_new
                   else if pt_role p = ROLE_UNKNOWN then None else cx_local_candidate p c);
          requests \<leftarrow> rm_Send (ping_Prepare mem username local p c1) (pi_now inp) request (cx_requests c1);
          Some (c1\<lparr>cx_requests := requests, cx_state := STATE_INPROGRESS\<rparr>)
        })"

text \<open>A message of the thread for a ping: it is sent, or it has timed out, which is only logged.\<close>

definition new_packets :: "request_manager \<Rightarrow> request_manager \<Rightarrow> bytes list" where
  "new_packets old new =
     concat (map (\<lambda>e. case e of Packet_sent now tid data \<Rightarrow> [data] | _ \<Rightarrow> []) (drop (length (rm_log old)) (rm_log new)))"

definition cx_DeliverRequest :: "port_input \<Rightarrow> socket_address \<Rightarrow> nat \<Rightarrow> ice_port \<Rightarrow> ice_port option" where
  "cx_DeliverRequest inp addr i p =
     do {
       c \<leftarrow> GetConnection addr p;
       requests \<leftarrow> rm_Deliver ping_GetNextDelay (pi_now inp) i (cx_requests c);
       Some (fold (\<lambda>data. pt_SendTo data (cd_address (cx_remote c)) False) (new_packets (cx_requests c) requests)
               (pt_update addr (\<lambda>c. c\<lparr>cx_requests := requests\<rparr>) p))
     }"

section \<open>Answers to pings\<close>

definition OnConnectionRequestResponse :: "nat \<Rightarrow> uint32 \<Rightarrow> ice_connection \<Rightarrow> ice_connection" where
  "OnConnectionRequestResponse now rtt c =
     (let c1 = set_state STATE_SUCCEEDED (set_write_state STATE_WRITABLE c)
      in c1\<lparr>cx_pings := [], cx_last_ping_response_received := of_nat now,
             cx_rtt := (RTT_RATIO * cx_rtt c1 + rtt) div (RTT_RATIO + 1)\<rparr>)"

definition binding_error_code :: "ice_protocol \<Rightarrow> stun_message \<Rightarrow> int" where
  "binding_error_code protocol response =
     (case GetErrorCode response of
        None \<Rightarrow> int STUN_ERROR_GLOBAL_FAILURE
      | Some a \<Rightarrow> (case at_body a of
            StunErrorCode class number reason \<Rightarrow>
              if protocol = ICEPROTO_GOOGLE then uint class * 256 + uint number else ErrorCode_code class number
          | _ \<Rightarrow> int STUN_ERROR_GLOBAL_FAILURE))"

text \<open>Returns whether the port signals a role conflict.\<close>

definition HandleRoleConflictFromPeer :: "transport_role \<Rightarrow> ice_connection \<Rightarrow> ice_connection" where
  "HandleRoleConflictFromPeer role c = (if role = ROLE_CONTROLLING then c\<lparr>cx_nominated := False\<rparr> else c)"

definition OnConnectionRequestErrorResponse ::
    "ice_port \<Rightarrow> stun_message \<Rightarrow> ice_connection \<Rightarrow> bool \<times> ice_connection" where
  "OnConnectionRequestErrorResponse p response c =
     (let error_code = binding_error_code (pt_protocol p) response
      in if error_code = int STUN_ERROR_UNKNOWN_ATTRIBUTE \<or> error_code = int STUN_ERROR_SERVER_ERROR
            \<or> error_code = int STUN_ERROR_UNAUTHORIZED then (False, c)
         else if error_code = int STUN_ERROR_STALE_CREDENTIALS then (False, c)
         else if error_code = int STUN_ERROR_ROLE_CONFLICT then (True, HandleRoleConflictFromPeer (pt_role p) c)
         else (False, set_write_state STATE_WRITE_TIMEOUT (set_state STATE_FAILED c)))"

text \<open>\<^verbatim>\<open>CheckResponse\<close> with the callbacks of the ping it finds, which come before the request is deleted.\<close>

definition cx_CheckResponse :: "port_input \<Rightarrow> stun_message \<Rightarrow> ice_port \<Rightarrow> ice_connection \<Rightarrow> bool \<times> ice_connection" where
  "cx_CheckResponse inp msg p c =
     (case map_of (rm_requests (cx_requests c)) (sm_tid msg) of
        None \<Rightarrow> (False, c)
      | Some r \<Rightarrow>
          (let (found, requests) = rm_CheckResponse msg (cx_requests c);
               (conflict, c1) =
                 (if \<not> found then (False, c)
                  else if uint (sm_type msg) = GetStunSuccessResponseType (rq_type r)
                  then (False, OnConnectionRequestResponse (pi_now inp) (rq_Elapsed (of_nat (pi_now inp)) r) c)
                  else OnConnectionRequestErrorResponse p msg c)
           in (conflict, c1\<lparr>cx_requests := requests\<rparr>)))"

section \<open>Packets\<close>

definition cx_restart :: "ice_connection \<Rightarrow> ice_connection" where
  "cx_restart c =
     (if \<not> cx_pruned c \<and> cx_write c = STATE_WRITE_TIMEOUT then set_write_state STATE_WRITE_INIT c else c)"

definition cx_data :: "nat \<Rightarrow> bytes \<Rightarrow> ice_connection \<Rightarrow> ice_connection" where
  "cx_data now data c =
     (if cx_read c = STATE_READABLE
      then cx_restart (cx_note (Data_received data)
             (c\<lparr>cx_last_data_received := of_nat now, cx_recv_rate := rt_Update (of_nat (length data)) (cx_recv_rate c)\<rparr>))
      else c)"

text \<open>A request whose user name is that of the remote candidate.\<close>

definition cx_binding_request ::
    "bytes \<Rightarrow> port_input \<Rightarrow> stun_message \<Rightarrow> bytes \<Rightarrow> socket_address \<Rightarrow> ice_port \<Rightarrow> ice_port option" where
  "cx_binding_request mem inp msg remote_ufrag addr p =
     do {
       (ok, p1) \<leftarrow> (if pt_protocol p = ICEPROTO_RFC5245 then MaybeIceRoleConflict mem addr msg remote_ufrag p
                   else Some (True, p));
       if \<not> ok then Some p1
       else do {
         p2 \<leftarrow> SendBindingResponse mem inp msg addr p1;
         let p3 = pt_update addr cx_restart p2;
         Some (if pt_protocol p = ICEPROTO_RFC5245 \<and> pt_role p = ROLE_CONTROLLED
                  \<and> GetAttribute msg STUN_ATTR_USE_CANDIDATE \<noteq> None
               then pt_update addr (cx_note Use_candidate) p3 else p3)
       }
     }"

definition cx_checked_message ::
    "bytes \<Rightarrow> port_input \<Rightarrow> bytes \<Rightarrow> stun_message \<Rightarrow> bytes \<Rightarrow> ice_connection \<Rightarrow> ice_port \<Rightarrow> ice_port option" where
  "cx_checked_message mem inp data msg remote_ufrag c p =
     (let addr = cd_address (cx_remote c) in
      if sm_type msg = STUN_BINDING_REQUEST then
        (if remote_ufrag = cd_username (cx_remote c) then cx_binding_request mem inp msg remote_ufrag addr p
         else SendBindingErrorResponse mem msg addr STUN_ERROR_UNAUTHORIZED STUN_ERROR_REASON_UNAUTHORIZED p)
      else if sm_type msg = STUN_BINDING_RESPONSE \<or> sm_type msg = STUN_BINDING_ERROR_RESPONSE then
        do {
          ok \<leftarrow> (if pt_protocol p = ICEPROTO_GOOGLE then Some True
                 else ValidateMessageIntegrity mem data (cd_password (cx_remote c)));
          Some (if ok then
                  let (conflict, c1) = cx_CheckResponse inp msg p c; p1 = pt_update addr (\<lambda>_. c1) p
                  in if conflict then pt_note Role_conflict p1 else p1
                else p)
        }
      else if sm_type msg = STUN_BINDING_INDICATION then
        Some (if pt_protocol p = ICEPROTO_RFC5245 \<and> cx_read c = STATE_READABLE
              then pt_update addr (ReceivedPing (pi_now inp)) p else p)
      else None)"

definition cx_OnReadPacket ::
    "bytes \<Rightarrow> port_input \<Rightarrow> bytes \<Rightarrow> ice_connection \<Rightarrow> ice_port \<Rightarrow> ice_port option" where
  "cx_OnReadPacket mem inp data c p =
     do {
       (check, p1) \<leftarrow> GetStunMessage mem data (cd_address (cx_remote c)) p;
       case check of
         Not_stun \<Rightarrow> Some (pt_update (cd_address (cx_remote c)) (cx_data (pi_now inp) data) p1)
       | Handled \<Rightarrow> Some p1
       | Checked msg remote_ufrag \<Rightarrow> cx_checked_message mem inp data msg remote_ufrag c p1
     }"

text \<open>The packet of an address: to its connection, or else to the port.\<close>

definition HandlePacket :: "bytes \<Rightarrow> port_input \<Rightarrow> bytes \<Rightarrow> socket_address \<Rightarrow> ice_port \<Rightarrow> ice_port option" where
  "HandlePacket mem inp data remote_addr p =
     (case GetConnection remote_addr p of
        Some c \<Rightarrow> cx_OnReadPacket mem inp data c p
      | None \<Rightarrow> pt_OnReadPacket mem data remote_addr PROTO_UDP p)"

section \<open>Time-outs and the end\<close>

definition cx_Prune :: "ice_connection \<Rightarrow> ice_connection" where
  "cx_Prune c =
     (if \<not> cx_pruned c
      then set_write_state STATE_WRITE_TIMEOUT (c\<lparr>cx_pruned := True, cx_requests := rm_Clear (cx_requests c)\<rparr>) else c)"

definition cx_Destroy :: "ice_connection \<Rightarrow> ice_connection" where
  "cx_Destroy c = set_write_state STATE_WRITE_TIMEOUT (set_read_state STATE_READ_TIMEOUT c)"

definition update_read_state :: "uint32 \<Rightarrow> ice_connection \<Rightarrow> ice_connection" where
  "update_read_state now c =
     (if cx_read c = STATE_READABLE \<and> cx_last_ping_received c + CONNECTION_READ_TIMEOUT \<le> now
         \<and> cx_last_data_received c + CONNECTION_READ_TIMEOUT \<le> now
      then set_read_state STATE_READ_TIMEOUT c else c)"

definition update_unreliable :: "uint32 \<Rightarrow> uint32 \<Rightarrow> ice_connection \<Rightarrow> ice_connection" where
  "update_unreliable rtt now c =
     (if cx_write c = STATE_WRITABLE
         \<and> TooManyFailures (cx_pings c) CONNECTION_WRITE_CONNECT_FAILURES rtt now
         \<and> TooLongWithoutResponse (cx_pings c) CONNECTION_WRITE_CONNECT_TIMEOUT now
      then set_write_state STATE_WRITE_UNRELIABLE c else c)"

definition update_write_timeout :: "uint32 \<Rightarrow> ice_connection \<Rightarrow> ice_connection" where
  "update_write_timeout now c =
     (if (cx_write c = STATE_WRITE_UNRELIABLE \<or> cx_write c = STATE_WRITE_INIT)
         \<and> TooLongWithoutResponse (cx_pings c) CONNECTION_WRITE_TIMEOUT now
      then set_write_state STATE_WRITE_TIMEOUT c else c)"

definition cx_UpdateState :: "uint32 \<Rightarrow> ice_connection \<Rightarrow> ice_connection" where
  "cx_UpdateState now c =
     (let rtt = ConservativeRTTEstimate (cx_rtt c)
      in update_write_timeout now (update_unreliable rtt now (update_read_state now c)))"

text \<open>\<^verbatim>\<open>OnMessage\<close> of a connection.\<close>

definition cx_OnMessage :: "socket_address \<Rightarrow> ice_port \<Rightarrow> ice_port option" where
  "cx_OnMessage addr p = OnConnectionDestroyed addr p"

definition pt_delete :: "ice_port \<Rightarrow> ice_port" where
  "pt_delete p = p\<lparr>pt_connections := [], pt_timers := [], pt_destroyed := True\<rparr>"

text \<open>\<^verbatim>\<open>ProxyConnection::Send\<close>: the result and what is sent.\<close>

definition cx_Send :: "port_input \<Rightarrow> bytes \<Rightarrow> socket_address \<Rightarrow> ice_port \<Rightarrow> (int \<times> ice_port) option" where
  "cx_Send inp data addr p =
     do {
       c \<leftarrow> GetConnection addr p;
       if cx_write c = STATE_WRITE_INIT \<or> cx_write c = STATE_WRITE_TIMEOUT
       then Some (SOCKET_ERROR, pt_update addr (\<lambda>c. c\<lparr>cx_error := EWOULDBLOCK\<rparr>) p)
       else
         let p1 = pt_SendTo data (cd_address (cx_remote c)) True p; sent = pi_sent inp
         in if sent = 0 then None
            else Some (sent, pt_update addr (\<lambda>c. if sent < 0 then c\<lparr>cx_error := pi_error inp\<rparr>
                 else c\<lparr>cx_send_rate := rt_Update (of_int sent) (cx_send_rate c)\<rparr>) p1)
     }"

section \<open>Histories\<close>

text \<open>
  The events of a port: a packet, the posted messages, and the calls of the channel that owns it.
  \<open>Accept_unknown\<close> is its answer to the signal at position \<open>n\<close> of \<open>pt_out\<close>: a connection to the candidate it
  has chosen for the address, which is readable, and the response.
\<close>

datatype port_event =
    Packet bytes socket_address
  | Accept_unknown nat candidate
  | Create_connection candidate
  | Ping socket_address
  | Request_message nat socket_address
  | Update_state socket_address
  | Prune_connection socket_address
  | Destroy_connection socket_address
  | Delete_message socket_address
  | Send_data bytes socket_address
  | Set_role transport_role
  | Set_tiebreaker uint64
  | Start_port
  | Port_message nat

definition accept_unknown :: "bytes \<Rightarrow> port_input \<Rightarrow> nat \<Rightarrow> candidate \<Rightarrow> ice_port \<Rightarrow> ice_port option" where
  "accept_unknown mem inp n candidate p =
     (if n < length (pt_out p) then
        (case pt_out p ! n of
           Unknown_address addr proto msg remote_username \<Rightarrow>
             if cd_address candidate \<noteq> addr \<or> cd_username candidate \<noteq> remote_username \<or> GetConnection addr p \<noteq> None
             then Some p
             else do {
               p1 \<leftarrow> CreateConnection candidate p;
               if GetConnection addr p1 = None then Some p1
               else SendBindingResponse mem inp msg addr (pt_update addr (ReceivedPing (pi_now inp)) p1)
             }
         | _ \<Rightarrow> Some p)
      else Some p)"

fun port_event_step :: "bytes \<Rightarrow> port_input \<Rightarrow> port_event \<Rightarrow> ice_port \<Rightarrow> ice_port option" where
  "port_event_step mem inp (Packet data addr) p = HandlePacket mem inp data addr p"
| "port_event_step mem inp (Accept_unknown n candidate) p = accept_unknown mem inp n candidate p"
| "port_event_step mem inp (Create_connection candidate) p =
     (if GetConnection (cd_address candidate) p \<noteq> None then Some p else CreateConnection candidate p)"
| "port_event_step mem inp (Ping addr) p =
     (case GetConnection addr p of
        None \<Rightarrow> Some p
      | Some c \<Rightarrow> do {
          c1 \<leftarrow> cx_Ping mem inp (of_nat (pi_now inp)) p c;
          Some (pt_update addr (\<lambda>_. c1) p)
        })"
| "port_event_step mem inp (Request_message i addr) p =
     (if GetConnection addr p = None then Some p else cx_DeliverRequest inp addr i p)"
| "port_event_step mem inp (Update_state addr) p = Some (pt_update addr (cx_UpdateState (of_nat (pi_now inp))) p)"
| "port_event_step mem inp (Prune_connection addr) p = Some (pt_update addr cx_Prune p)"
| "port_event_step mem inp (Destroy_connection addr) p = Some (pt_update addr cx_Destroy p)"
| "port_event_step mem inp (Delete_message addr) p =
     (case GetConnection addr p of
        None \<Rightarrow> Some p | Some c \<Rightarrow> if cx_deletes c = 0 then Some p else cx_OnMessage addr p)"
| "port_event_step mem inp (Send_data data addr) p =
     (if GetConnection addr p = None then Some p else map_option snd (cx_Send inp data addr p))"
| "port_event_step mem inp (Set_role role) p = Some (pt_SetRole role p)"
| "port_event_step mem inp (Set_tiebreaker tiebreaker) p = Some (pt_SetTiebreaker tiebreaker p)"
| "port_event_step mem inp Start_port p = Some (pt_Start (pi_now inp) p)"
| "port_event_step mem inp (Port_message i) p =
     (if i < length (pt_timers p) \<and> pt_timers p ! i \<le> pi_now inp
      then pt_OnMessage (p\<lparr>pt_timers := take i (pt_timers p) @ drop (Suc i) (pt_timers p)\<rparr>) else Some p)"

text \<open>Nothing reaches a port that has deleted itself.\<close>

definition port_step :: "bytes \<Rightarrow> port_input \<times> port_event \<Rightarrow> ice_port \<Rightarrow> ice_port option" where
  "port_step mem e p = (if pt_destroyed p then Some p else port_event_step mem (fst e) (snd e) p)"

fun port_run :: "bytes \<Rightarrow> (port_input \<times> port_event) list \<Rightarrow> ice_port \<Rightarrow> ice_port option" where
  "port_run mem [] p = Some p"
| "port_run mem (e # es) p = (case port_step mem e p of None \<Rightarrow> None | Some p1 \<Rightarrow> port_run mem es p1)"

end
