(* ===== verification/IceChannel.thy ===== *)
theory IceChannel
  imports IceConnection
begin

text \<open>
  \<^verbatim>\<open>p2p/base/p2ptransportchannel.cc\<close>: the channel that owns ports, makes connections for remote candidates,
  sorts them, sends over the best one, prunes the others and keeps pinging.  \<open>tc_store\<close> holds every port
  the channel has been given; \<open>tc_ports\<close> and the references of \<open>tc_connections\<close> point into it: a connection is the
  number of its port with the address of its candidate.  A port runs as in \<open>IceConnection\<close>, and \<open>tc_collect\<close> hands
  what it signals to the handlers of the channel.  Ports are UDP ports on their own sockets, a network is
  its name.  \<open>None\<close> is a failed assertion or the use of an object that is gone.
\<close>

section \<open>State\<close>

definition PING_PACKET_SIZE :: nat where "PING_PACKET_SIZE = 60 * 8"
definition WRITABLE_DELAY :: nat where "WRITABLE_DELAY = 1000 * PING_PACKET_SIZE div 1000"
definition UNWRITABLE_DELAY :: nat where "UNWRITABLE_DELAY = 1000 * PING_PACKET_SIZE div 10000"
definition MAX_CURRENT_WRITABLE_DELAY :: uint32 where "MAX_CURRENT_WRITABLE_DELAY = 900"
definition kMinImprovement :: nat where "kMinImprovement = 10"
definition LOCAL_PORT_TYPE :: bytes where "LOCAL_PORT_TYPE = string_bytes ''local''"
definition STUN_PORT_TYPE :: bytes where "STUN_PORT_TYPE = string_bytes ''stun''"
definition RELAY_PORT_TYPE :: bytes where "RELAY_PORT_TYPE = string_bytes ''relay''"
definition EINVAL :: int where "EINVAL = 22"

type_synonym connection_ref = "nat \<times> socket_address"

datatype channel_message = MSG_SORT | MSG_PING

datatype socket_option = OPT_DONTFRAGMENT | OPT_RCVBUF | OPT_SNDBUF | OPT_NODELAY | OPT_IPV6_V6ONLY

datatype channel_output =
    Request_signaling
  | Route_change candidate
  | Readable_state bool
  | Writable_state bool
  | Channel_data bytes
  | Channel_conflict
  | Stop_all_ports nat
  | Set_port_option nat socket_option int
  | Local_candidate candidate
  | Allocation_done
  | From_port nat port_output

record transport_channel =
  tc_component :: int
  tc_incoming_only :: bool
  tc_waiting :: bool
  tc_error :: int
  tc_sessions :: "bool list"
  tc_store :: "ice_port list"
  tc_ports :: "nat list"
  tc_connections :: "connection_ref list"
  tc_best :: "connection_ref option"
  tc_remote :: "(candidate \<times> nat option) list"
  tc_sort_dirty :: bool
  tc_was_writable :: bool
  tc_was_timed_out :: bool
  tc_options :: "(socket_option \<times> int) list"
  tc_ufrag :: bytes
  tc_pwd :: bytes
  tc_protocol :: ice_protocol
  tc_role :: transport_role
  tc_tiebreaker :: uint64
  tc_readable :: bool
  tc_writable :: bool
  tc_queue :: "(nat \<times> channel_message) list"
  tc_out :: "channel_output list"

definition P2PTransportChannel :: "int \<Rightarrow> transport_channel" where
  "P2PTransportChannel component =
     \<lparr>tc_component = component, tc_incoming_only = False, tc_waiting = False, tc_error = 0, tc_sessions = [],
      tc_store = [], tc_ports = [], tc_connections = [], tc_best = None, tc_remote = [], tc_sort_dirty = False,
      tc_was_writable = False, tc_was_timed_out = True,
      tc_options = [], tc_ufrag = [], tc_pwd = [], tc_protocol = ICEPROTO_GOOGLE,
      tc_role = ROLE_UNKNOWN, tc_tiebreaker = 0, tc_readable = False, tc_writable = False, tc_queue = [], tc_out = []\<rparr>"

definition tc_note :: "channel_output \<Rightarrow> transport_channel \<Rightarrow> transport_channel" where
  "tc_note e ch = ch\<lparr>tc_out := tc_out ch @ [e]\<rparr>"

definition tc_post :: "nat \<Rightarrow> channel_message \<Rightarrow> transport_channel \<Rightarrow> transport_channel" where
  "tc_post due m ch = ch\<lparr>tc_queue := tc_queue ch @ [(due, m)]\<rparr>"

definition tc_set_readable :: "bool \<Rightarrow> transport_channel \<Rightarrow> transport_channel" where
  "tc_set_readable b ch = (if tc_readable ch \<noteq> b then tc_note (Readable_state b) (ch\<lparr>tc_readable := b\<rparr>) else ch)"

definition tc_set_writable :: "bool \<Rightarrow> transport_channel \<Rightarrow> transport_channel" where
  "tc_set_writable b ch = (if tc_writable ch \<noteq> b then tc_note (Writable_state b) (ch\<lparr>tc_writable := b\<rparr>) else ch)"

definition tc_get :: "connection_ref \<Rightarrow> transport_channel \<Rightarrow> ice_connection option" where
  "tc_get r ch = (if fst r < length (tc_store ch) then GetConnection (snd r) (tc_store ch ! fst r) else None)"

definition tc_network :: "connection_ref \<Rightarrow> transport_channel \<Rightarrow> bytes" where
  "tc_network r ch = pt_network_name (tc_store ch ! fst r)"

definition tc_set_port :: "nat \<Rightarrow> ice_port \<Rightarrow> transport_channel \<Rightarrow> transport_channel" where
  "tc_set_port i p ch = ch\<lparr>tc_store := (tc_store ch)[i := p]\<rparr>"

section \<open>The best connection\<close>

definition tc_Allocate :: "transport_channel \<Rightarrow> transport_channel" where
  "tc_Allocate ch = tc_note Request_signaling (ch\<lparr>tc_waiting := True\<rparr>)"

definition RequestSort :: "nat \<Rightarrow> transport_channel \<Rightarrow> transport_channel" where
  "RequestSort now ch = (if \<not> tc_sort_dirty ch then (tc_post now MSG_SORT ch)\<lparr>tc_sort_dirty := True\<rparr> else ch)"

definition tc_nominate :: "connection_ref \<Rightarrow> transport_channel \<Rightarrow> transport_channel" where
  "tc_nominate r ch =
     tc_set_port (fst r) (pt_update (snd r) (\<lambda>c. c\<lparr>cx_nominated := True\<rparr>) (tc_store ch ! fst r)) ch"

definition NominateBestConnection :: "transport_channel \<Rightarrow> transport_channel" where
  "NominateBestConnection ch =
     (case tc_best ch of
        None \<Rightarrow> ch
      | Some r \<Rightarrow>
          if pt_protocol (tc_store ch ! fst r) = ICEPROTO_RFC5245 \<and> tc_role ch = ROLE_CONTROLLING then tc_nominate r ch
          else ch)"

definition SwitchBestConnectionTo :: "connection_ref option \<Rightarrow> transport_channel \<Rightarrow> transport_channel option" where
  "SwitchBestConnectionTo conn ch =
     (let ch1 = ch\<lparr>tc_best := conn\<rparr>
      in case conn of
           None \<Rightarrow> Some ch1
         | Some r \<Rightarrow> do {
             c \<leftarrow> tc_get r ch1;
             Some (NominateBestConnection (tc_note (Route_change (cx_remote c)) ch1))
           })"

definition OnUseCandidate :: "connection_ref \<Rightarrow> transport_channel \<Rightarrow> transport_channel option" where
  "OnUseCandidate r ch =
     (if tc_role ch \<noteq> ROLE_CONTROLLED then None
      else do {
        c \<leftarrow> tc_get r ch;
        if cx_state c = STATE_SUCCEEDED then SwitchBestConnectionTo (Some r) (tc_nominate r ch) else Some ch
      })"

section \<open>Signals of the ports\<close>

definition tc_OnReadPacket :: "connection_ref \<Rightarrow> bytes \<Rightarrow> transport_channel \<Rightarrow> transport_channel" where
  "tc_OnReadPacket r data ch = (if r \<notin> set (tc_connections ch) then ch else tc_note (Channel_data data) ch)"

fun tc_handle :: "nat \<Rightarrow> connection_ref \<times> connection_signal \<Rightarrow> transport_channel \<Rightarrow> transport_channel option" where
  "tc_handle now (r, State_change) ch = Some (RequestSort now ch)"
| "tc_handle now (r, Use_candidate) ch = OnUseCandidate r ch"
| "tc_handle now (r, Data_received data) ch = Some (tc_OnReadPacket r data ch)"

fun fold_option :: "('a \<Rightarrow> 's \<Rightarrow> 's option) \<Rightarrow> 'a list \<Rightarrow> 's \<Rightarrow> 's option" where
  "fold_option f [] s = Some s"
| "fold_option f (x # xs) s = do { s1 \<leftarrow> f x s; fold_option f xs s1 }"

definition port_signals :: "nat \<Rightarrow> ice_port \<Rightarrow> (connection_ref \<times> connection_signal) list" where
  "port_signals i p =
     concat (map (\<lambda>c. map (Pair (i, cd_address (cx_remote c))) (cx_signals c)) (pt_connections p))"

definition without_signals :: "ice_port \<Rightarrow> ice_port" where
  "without_signals p = p\<lparr>pt_connections := map (\<lambda>c. c\<lparr>cx_signals := []\<rparr>) (pt_connections p), pt_out := []\<rparr>"

text \<open>The port \<open>i\<close> has become \<open>p\<close>: its log moves to the channel and its signals are handled.\<close>

definition tc_collect :: "nat \<Rightarrow> nat \<Rightarrow> ice_port \<Rightarrow> transport_channel \<Rightarrow> transport_channel option" where
  "tc_collect now i p ch =
     fold_option (tc_handle now) (port_signals i p)
       (tc_set_port i (without_signals p) (ch\<lparr>tc_out := tc_out ch @ map (From_port i) (pt_out p)\<rparr>))"

definition tc_update ::
    "nat \<Rightarrow> (ice_connection \<Rightarrow> ice_connection) \<Rightarrow> connection_ref \<Rightarrow> transport_channel \<Rightarrow> transport_channel option" where
  "tc_update now f r ch =
     (if tc_get r ch = None then None else tc_collect now (fst r) (pt_update (snd r) f (tc_store ch ! fst r)) ch)"

section \<open>Sorting\<close>

text \<open>What the comparisons read: write state, priority, generation, round trip time.\<close>

type_synonym connection_key = "nat \<times> uint64 \<times> uint32 \<times> uint32"

fun write_rank :: "write_state \<Rightarrow> nat" where
  "write_rank STATE_WRITABLE = 0"
| "write_rank STATE_WRITE_UNRELIABLE = 1"
| "write_rank STATE_WRITE_INIT = 2"
| "write_rank STATE_WRITE_TIMEOUT = 3"

definition connection_key :: "transport_channel \<Rightarrow> connection_ref \<Rightarrow> connection_key option" where
  "connection_key ch r =
     do {
       c \<leftarrow> tc_get r ch;
       priority \<leftarrow> cx_priority (tc_store ch ! fst r) c;
       Some (write_rank (cx_write c), priority, cd_generation (cx_remote c) + pt_generation (tc_store ch ! fst r), cx_rtt c)
     }"

fun CompareConnectionCandidates :: "connection_key \<Rightarrow> connection_key \<Rightarrow> int" where
  "CompareConnectionCandidates (wa, pa, ga, ra) (wb, pb, gb, rb) =
     (if pa > pb then 1 else if pa < pb then - 1 else sint (ga - gb))"

definition CompareConnections :: "connection_key \<Rightarrow> connection_key \<Rightarrow> int" where
  "CompareConnections a b =
     (if fst a < fst b then 1 else if fst a > fst b then - 1 else CompareConnectionCandidates a b)"

definition key_rtt :: "connection_key \<Rightarrow> uint32" where
  "key_rtt k = snd (snd (snd k))"

definition ConnectionCompare :: "connection_key \<Rightarrow> connection_key \<Rightarrow> bool" where
  "ConnectionCompare a b =
     (let cmp = CompareConnections a b
      in if cmp > 0 then True else if cmp < 0 then False else key_rtt a < key_rtt b)"

definition ShouldSwitch_keys :: "connection_key \<Rightarrow> connection_key \<Rightarrow> bool" where
  "ShouldSwitch_keys a b =
     (let prefs_cmp = CompareConnections a b
      in if prefs_cmp < 0 then True else if prefs_cmp > 0 then False
         else unat (key_rtt b) \<le> unat (key_rtt a) + kMinImprovement)"

definition ShouldSwitch :: "transport_channel \<Rightarrow> connection_ref option \<Rightarrow> connection_ref option \<Rightarrow> bool option" where
  "ShouldSwitch ch a_conn b_conn =
     (if a_conn = b_conn then Some False
      else case (a_conn, b_conn) of
          (Some a, Some b) \<Rightarrow> do {
            ka \<leftarrow> connection_key ch a;
            kb \<leftarrow> connection_key ch b;
            Some (ShouldSwitch_keys ka kb)
          }
        | _ \<Rightarrow> Some True)"

text \<open>A stable sort: an element goes in front of those that are not before it.\<close>

fun stable_insert :: "('k \<Rightarrow> 'k \<Rightarrow> bool) \<Rightarrow> 'k \<Rightarrow> 'k list \<Rightarrow> 'k list" where
  "stable_insert precedes x [] = [x]"
| "stable_insert precedes x (y # ys) = (if precedes y x then y # stable_insert precedes x ys else x # y # ys)"

definition stable_sort :: "('k \<Rightarrow> 'k \<Rightarrow> bool) \<Rightarrow> 'k list \<Rightarrow> 'k list" where
  "stable_sort precedes xs = foldr (stable_insert precedes) xs []"

definition UpdateConnectionStates :: "nat \<Rightarrow> transport_channel \<Rightarrow> transport_channel option" where
  "UpdateConnectionStates now ch = fold_option (tc_update now (cx_UpdateState (of_nat now))) (tc_connections ch) ch"

definition sort_connections :: "transport_channel \<Rightarrow> connection_ref list option" where
  "sort_connections ch =
     (if \<exists>a \<in> set (tc_connections ch). \<exists>b \<in> set (tc_connections ch).
           pt_protocol (tc_store ch ! fst a) \<noteq> pt_protocol (tc_store ch ! fst b) then None
      else do {
        keys \<leftarrow> those (map (connection_key ch) (tc_connections ch));
        Some (map snd (stable_sort (\<lambda>a b. ConnectionCompare (fst a) (fst b)) (zip keys (tc_connections ch))))
      })"

section \<open>Pruning and the state of the channel\<close>

definition GetBestConnectionOnNetwork :: "bytes \<Rightarrow> transport_channel \<Rightarrow> connection_ref option" where
  "GetBestConnectionOnNetwork network ch =
     (case tc_best ch of
        Some r \<Rightarrow> if tc_network r ch = network then Some r
                  else List.find (\<lambda>r. tc_network r ch = network) (tc_connections ch)
      | None \<Rightarrow> List.find (\<lambda>r. tc_network r ch = network) (tc_connections ch))"

definition prune_connection ::
    "nat \<Rightarrow> bytes \<Rightarrow> connection_ref \<Rightarrow> connection_ref \<Rightarrow> transport_channel \<Rightarrow> transport_channel option" where
  "prune_connection now network primier r ch =
     (if r \<noteq> primier \<and> tc_network r ch = network then
        do {
          kp \<leftarrow> connection_key ch primier;
          kr \<leftarrow> connection_key ch r;
          if CompareConnectionCandidates kp kr \<ge> 0 then tc_update now cx_Prune r ch else Some ch
        }
      else Some ch)"

definition prune_network :: "nat \<Rightarrow> bytes \<Rightarrow> transport_channel \<Rightarrow> transport_channel option" where
  "prune_network now network ch =
     (case GetBestConnectionOnNetwork network ch of
        None \<Rightarrow> Some ch
      | Some primier \<Rightarrow> do {
          c \<leftarrow> tc_get primier ch;
          if cx_write c \<noteq> STATE_WRITABLE then Some ch
          else fold_option (prune_connection now network primier) (tc_connections ch) ch
        })"

definition HandleWritable :: "transport_channel \<Rightarrow> transport_channel" where
  "HandleWritable ch =
     (let ch1 = (if \<not> tc_writable ch
                 then ch\<lparr>tc_out := tc_out ch @ map Stop_all_ports (filter (\<lambda>i. tc_sessions ch ! i) [0..<length (tc_sessions ch)]),
                         tc_sessions := map (\<lambda>_. False) (tc_sessions ch)\<rparr>
                 else ch)
      in tc_set_writable True (ch1\<lparr>tc_was_writable := True, tc_was_timed_out := False\<rparr>))"

definition HandleNotWritable :: "transport_channel \<Rightarrow> transport_channel" where
  "HandleNotWritable ch =
     (let ch1 = (if tc_was_writable ch then tc_Allocate (ch\<lparr>tc_was_writable := False\<rparr>) else ch)
      in tc_set_writable False (ch1\<lparr>tc_was_timed_out := False\<rparr>))"

definition HandleAllTimedOut :: "transport_channel \<Rightarrow> transport_channel" where
  "HandleAllTimedOut ch =
     (let ch1 = (if \<not> tc_was_timed_out ch then tc_Allocate ch else ch)
      in tc_set_writable False (ch1\<lparr>tc_was_timed_out := True, tc_was_writable := False\<rparr>))"

definition tc_states :: "transport_channel \<Rightarrow> ice_connection list option" where
  "tc_states ch = those (map (\<lambda>r. tc_get r ch) (tc_connections ch))"

definition UpdateChannelState :: "transport_channel \<Rightarrow> transport_channel option" where
  "UpdateChannelState ch =
     do {
       writable \<leftarrow> (case tc_best ch of
                      None \<Rightarrow> Some False
                    | Some r \<Rightarrow> map_option (\<lambda>c. cx_write c = STATE_WRITABLE) (tc_get r ch));
       cs \<leftarrow> tc_states ch;
       if writable \<noteq> tc_writable ch then None
       else Some (tc_set_readable (\<exists>c \<in> set cs. cx_read c = STATE_READABLE) ch)
     }"

definition handle_states :: "ice_connection list \<Rightarrow> transport_channel \<Rightarrow> transport_channel" where
  "handle_states cs ch =
     (if \<exists>c \<in> set cs. cx_write c = STATE_WRITABLE then HandleWritable ch
      else if \<exists>c \<in> set cs. cx_write c = STATE_WRITE_UNRELIABLE \<or> cx_write c = STATE_WRITE_INIT then HandleNotWritable ch
      else HandleAllTimedOut ch)"

definition SortConnections :: "nat \<Rightarrow> transport_channel \<Rightarrow> transport_channel option" where
  "SortConnections now ch =
     do {
       ch1 \<leftarrow> map_option (tc_sort_dirty_update (\<lambda>_. False)) (UpdateConnectionStates now ch);
       let networks = remdups (map (\<lambda>r. tc_network r ch1) (tc_connections ch1));
       sorted \<leftarrow> sort_connections ch1;
       let ch2 = ch1\<lparr>tc_connections := sorted\<rparr>;
       let top = (case sorted of [] \<Rightarrow> None | r # rs \<Rightarrow> Some r);
       switch \<leftarrow> ShouldSwitch ch2 (tc_best ch2) top;
       ch3 \<leftarrow> (if switch then SwitchBestConnectionTo top ch2 else Some ch2);
       ch4 \<leftarrow> fold_option (prune_network now) networks ch3;
       cs \<leftarrow> tc_states ch4;
       UpdateChannelState (handle_states cs ch4)
     }"

section \<open>Creating connections\<close>

text \<open>A port that deleted itself is gone; an operation on it has no value.\<close>

definition tc_port :: "nat \<Rightarrow> transport_channel \<Rightarrow> ice_port option" where
  "tc_port i ch =
     (if i < length (tc_store ch) \<and> \<not> pt_destroyed (tc_store ch ! i) then Some (tc_store ch ! i) else None)"

text \<open>Whether there is a connection now: the result of \<^verbatim>\<open>CreateConnection\<close>.\<close>

definition tc_CreateConnection ::
    "nat \<Rightarrow> nat \<Rightarrow> candidate \<Rightarrow> nat option \<Rightarrow> bool \<Rightarrow> transport_channel \<Rightarrow> (bool \<times> transport_channel) option" where
  "tc_CreateConnection now i remote_candidate origin_port readable ch =
     do {
       p \<leftarrow> tc_port i ch;
       let addr = cd_address remote_candidate;
       (created, r, ch1) \<leftarrow>
         (case GetConnection addr p of
            Some c \<Rightarrow> Some (cd_IsEquivalent remote_candidate (cx_remote c), (i, cd_address (cx_remote c)), ch)
          | None \<Rightarrow>
              if origin_port = None \<and> tc_incoming_only ch then Some (False, (i, addr), ch)
              else do {
                p1 \<leftarrow> CreateConnection remote_candidate p;
                if GetConnection addr p1 = None then Some (False, (i, addr), ch)
                else do {
                  ch1 \<leftarrow> tc_collect now i p1 (ch\<lparr>tc_connections := tc_connections ch @ [(i, addr)]\<rparr>);
                  Some (True, (i, addr), ch1)
                }
              });
       ch2 \<leftarrow> (if created \<and> readable then tc_update now (ReceivedPing now) r ch1 else Some ch1);
       Some (created, ch2)
     }"

definition RememberRemoteCandidate :: "candidate \<Rightarrow> nat option \<Rightarrow> transport_channel \<Rightarrow> transport_channel" where
  "RememberRemoteCandidate remote_candidate origin_port ch =
     (let remaining = filter (\<lambda>(c, origin). \<not> cd_generation c < cd_generation remote_candidate) (tc_remote ch)
      in ch\<lparr>tc_remote := (if \<exists>(c, origin) \<in> set remaining. cd_IsEquivalent c remote_candidate then remaining
                          else remaining @ [(remote_candidate, origin_port)])\<rparr>)"

text \<open>The loop over the ports; it notes whether the origin port has a connection.\<close>

definition create_on ::
    "nat \<Rightarrow> candidate \<Rightarrow> nat option \<Rightarrow> bool \<Rightarrow> nat \<Rightarrow> bool \<times> transport_channel \<Rightarrow> (bool \<times> transport_channel) option" where
  "create_on now remote_candidate origin_port readable i s =
     do {
       (made, ch1) \<leftarrow> tc_CreateConnection now i remote_candidate origin_port readable (snd s);
       Some (fst s \<or> made \<and> Some i = origin_port, ch1)
     }"

definition CreateConnections ::
    "nat \<Rightarrow> candidate \<Rightarrow> nat option \<Rightarrow> bool \<Rightarrow> transport_channel \<Rightarrow> (bool \<times> transport_channel) option" where
  "CreateConnections now remote_candidate origin_port readable ch =
     (let others = (case origin_port of None \<Rightarrow> [] | Some o_port \<Rightarrow> if o_port \<in> set (tc_ports ch) then [] else [o_port])
      in do {
        (created, ch1) \<leftarrow> fold_option (create_on now remote_candidate origin_port readable)
                             (rev (tc_ports ch) @ others) (False, ch);
        Some (created, RememberRemoteCandidate remote_candidate origin_port ch1)
      })"

section \<open>The handlers of the owner\<close>

definition tc_SetRole :: "transport_role \<Rightarrow> transport_channel \<Rightarrow> transport_channel" where
  "tc_SetRole role ch =
     fold (\<lambda>i ch. tc_set_port i (pt_SetRole role (tc_store ch ! i)) ch) (tc_ports ch) (ch\<lparr>tc_role := role\<rparr>)"

definition tc_SetTiebreaker :: "uint64 \<Rightarrow> transport_channel \<Rightarrow> transport_channel" where
  "tc_SetTiebreaker tiebreaker ch = (if tc_ports ch \<noteq> [] then ch else ch\<lparr>tc_tiebreaker := tiebreaker\<rparr>)"

definition tc_SetIceProtocolType :: "ice_protocol \<Rightarrow> transport_channel \<Rightarrow> transport_channel" where
  "tc_SetIceProtocolType type ch =
     fold (\<lambda>i ch. tc_set_port i (pt_SetIceProtocolType type (tc_store ch ! i)) ch) (tc_ports ch) (ch\<lparr>tc_protocol := type\<rparr>)"

definition tc_SetIceUfrag :: "bytes \<Rightarrow> transport_channel \<Rightarrow> transport_channel" where
  "tc_SetIceUfrag ice_ufrag ch = ch\<lparr>tc_ufrag := ice_ufrag\<rparr>"

definition tc_SetIcePwd :: "bytes \<Rightarrow> transport_channel \<Rightarrow> transport_channel" where
  "tc_SetIcePwd ice_pwd ch = ch\<lparr>tc_pwd := ice_pwd\<rparr>"

definition tc_Connect :: "nat \<Rightarrow> transport_channel \<Rightarrow> transport_channel option" where
  "tc_Connect now ch =
     (if tc_ufrag ch = [] \<or> tc_pwd ch = [] then None else Some (tc_post now MSG_PING (tc_Allocate ch)))"

text \<open>The sessions delete their ports; \<open>connect_requested\<close> is the state of the transport.\<close>

definition tc_Reset :: "nat \<Rightarrow> bool \<Rightarrow> transport_channel \<Rightarrow> transport_channel" where
  "tc_Reset now connect_requested ch =
     (let ch1 = ch\<lparr>tc_sessions := [], tc_store := map pt_delete (tc_store ch), tc_ports := [], tc_connections := [],
                   tc_best := None, tc_remote := []\<rparr>;
          ch2 = (tc_set_writable False (tc_set_readable False ch1))
                  \<lparr>tc_waiting := False, tc_sort_dirty := False, tc_was_writable := False, tc_was_timed_out := True\<rparr>;
          ch3 = (if connect_requested then tc_Allocate ch2 else ch2)
      in tc_post now MSG_PING (ch3\<lparr>tc_queue := []\<rparr>))"

definition AddAllocatorSession :: "transport_channel \<Rightarrow> transport_channel" where
  "AddAllocatorSession ch = ch\<lparr>tc_sessions := tc_sessions ch @ [True], tc_ports := []\<rparr>"

definition OnSignalingReady :: "transport_channel \<Rightarrow> transport_channel" where
  "OnSignalingReady ch = (if tc_waiting ch then AddAllocatorSession (ch\<lparr>tc_waiting := False\<rparr>) else ch)"

text \<open>A port sets an option on its socket.\<close>

definition option_order :: "socket_option list" where
  "option_order = [OPT_DONTFRAGMENT, OPT_RCVBUF, OPT_SNDBUF, OPT_NODELAY, OPT_IPV6_V6ONLY]"

definition tc_SetOption :: "socket_option \<Rightarrow> int \<Rightarrow> transport_channel \<Rightarrow> transport_channel" where
  "tc_SetOption opt value ch =
     (if map_of (tc_options ch) opt = Some value then ch
      else ch\<lparr>tc_options := AList.update opt value (tc_options ch),
              tc_out := tc_out ch @ map (\<lambda>i. Set_port_option i opt value) (tc_ports ch)\<rparr>)"

definition set_options :: "nat \<Rightarrow> transport_channel \<Rightarrow> channel_output list" where
  "set_options i ch =
     concat (map (\<lambda>opt. case map_of (tc_options ch) opt of None \<Rightarrow> [] | Some value \<Rightarrow> [Set_port_option i opt value]) option_order)"

text \<open>A new port; every known candidate gets a connection from it.\<close>

definition OnPortReady :: "nat \<Rightarrow> ice_port \<Rightarrow> transport_channel \<Rightarrow> transport_channel option" where
  "OnPortReady now port ch =
     (let i = length (tc_store ch);
          port1 = pt_SetTiebreaker (tc_tiebreaker ch) (pt_SetRole (tc_role ch) (pt_SetIceProtocolType (tc_protocol ch) port));
          ch1 = ch\<lparr>tc_store := tc_store ch @ [port1], tc_ports := tc_ports ch @ [i], tc_out := tc_out ch @ set_options i ch\<rparr>
      in do {
        ch2 \<leftarrow> fold_option (\<lambda>(c, origin) ch. map_option snd (tc_CreateConnection now i c origin False ch)) (tc_remote ch1) ch1;
        SortConnections now ch2
      })"

definition OnCandidatesReady :: "candidate list \<Rightarrow> transport_channel \<Rightarrow> transport_channel" where
  "OnCandidatesReady candidates ch = ch\<lparr>tc_out := tc_out ch @ map Local_candidate candidates\<rparr>"

definition OnCandidatesAllocationDone :: "transport_channel \<Rightarrow> transport_channel" where
  "OnCandidatesAllocationDone ch = tc_note Allocation_done ch"

definition OnCandidate :: "nat \<Rightarrow> candidate \<Rightarrow> transport_channel \<Rightarrow> transport_channel option" where
  "OnCandidate now candidate ch =
     do {
       (created, ch1) \<leftarrow> CreateConnections now candidate None False ch;
       SortConnections now ch1
     }"

text \<open>The candidate for an unknown address: a known one with its user name, or a new one.\<close>

definition remote_for ::
    "bytes \<Rightarrow> socket_address \<Rightarrow> protocol_type \<Rightarrow> bytes \<Rightarrow> ice_port \<Rightarrow> transport_channel \<Rightarrow> candidate option" where
  "remote_for random address proto remote_username p ch =
     (let remote = map fst (tc_remote ch);
          ufrag_per_port = (\<exists>c \<in> set remote. cd_username c \<noteq> cd_username (hd remote));
          same_user = filter (\<lambda>c. cd_username c = remote_username) remote
      in if same_user = [] then None
         else Some (case List.find (\<lambda>c. ufrag_per_port \<or> sa_eq (cd_address c) address \<and> cd_protocol c = ProtoToString proto)
                           same_user of
             Some c \<Rightarrow> if ufrag_per_port then c\<lparr>cd_address := address\<rparr> else c
           | None \<Rightarrow>
               (let type = (if pt_type p = RELAY_PORT_TYPE \<or> pt_shared_socket p then STUN_PORT_TYPE else pt_type p);
                    c = \<lparr>cd_id = random, cd_component = tc_component ch, cd_protocol = ProtoToString proto,
                         cd_address = address, cd_priority = 0, cd_username = remote_username,
                         cd_password = cd_password (last same_user), cd_type = type, cd_network_name = pt_network_name p,
                         cd_generation = 0, cd_foundation = decimal (unat (ComputeCrc32 random)),
                         cd_related_address = SocketAddress_nil\<rparr>
                in c\<lparr>cd_priority := cd_GetPriority c ICE_TYPE_PREFERENCE_SRFLX\<rparr>)))"

definition OnUnknownAddress ::
    "bytes \<Rightarrow> port_input \<Rightarrow> nat \<Rightarrow> socket_address \<Rightarrow> protocol_type \<Rightarrow> stun_message \<Rightarrow> bytes \<Rightarrow> bool
      \<Rightarrow> transport_channel \<Rightarrow> transport_channel option" where
  "OnUnknownAddress mem inp i address proto stun_msg remote_username port_muxed ch =
     do {
       p \<leftarrow> tc_port i ch;
       case remote_for (pi_random inp) address proto remote_username p ch of
         None \<Rightarrow>
           if port_muxed then Some ch
           else do {
             p1 \<leftarrow> SendBindingErrorResponse mem stun_msg address STUN_ERROR_STALE_CREDENTIALS
                     STUN_ERROR_REASON_STALE_CREDENTIALS p;
             tc_collect (pi_now inp) i p1 ch
           }
       | Some new_remote_candidate \<Rightarrow> do {
           (created, ch1) \<leftarrow> CreateConnections (pi_now inp) new_remote_candidate (Some i) True ch;
           if created then do {
             p1 \<leftarrow> tc_port i ch1;
             p2 \<leftarrow> SendBindingResponse mem inp stun_msg address p1;
             ch2 \<leftarrow> tc_collect (pi_now inp) i p2 ch1;
             SortConnections (pi_now inp) ch2
           }
           else None
         }
     }"

section \<open>Pings\<close>

definition IsPingable :: "transport_channel \<Rightarrow> ice_connection \<Rightarrow> bool" where
  "IsPingable ch c =
     (if \<not> cx_connected c then False
      else if tc_writable ch then cx_write c \<noteq> STATE_WRITE_TIMEOUT
      else cx_write c \<noteq> STATE_WRITE_TIMEOUT \<or> cx_read c \<noteq> STATE_READ_TIMEOUT)"

definition older ::
    "transport_channel \<Rightarrow> connection_ref \<times> ice_connection \<Rightarrow> connection_ref option \<times> uint32 \<Rightarrow> connection_ref option \<times> uint32" where
  "older ch rc acc =
     (if IsPingable ch (snd rc) \<and> cx_last_ping_sent (snd rc) < snd acc
      then (Some (fst rc), cx_last_ping_sent (snd rc)) else acc)"

definition FindNextPingableConnection :: "uint32 \<Rightarrow> transport_channel \<Rightarrow> connection_ref option option" where
  "FindNextPingableConnection now ch =
     do {
       cs \<leftarrow> tc_states ch;
       urgent \<leftarrow> (case tc_best ch of
                    None \<Rightarrow> Some False
                  | Some r \<Rightarrow> map_option (\<lambda>c. cx_write c = STATE_WRITABLE
                                \<and> cx_last_ping_sent c + MAX_CURRENT_WRITABLE_DELAY \<le> now) (tc_get r ch));
       Some (if urgent then tc_best ch
             else fst (fold (older ch) (zip (tc_connections ch) cs) (None, 0xFFFFFFFF)))
     }"

definition NumPingableConnections :: "transport_channel \<Rightarrow> nat option" where
  "NumPingableConnections ch = map_option (\<lambda>cs. length (filter (IsPingable ch) cs)) (tc_states ch)"

definition tc_Ping :: "bytes \<Rightarrow> port_input \<Rightarrow> connection_ref \<Rightarrow> transport_channel \<Rightarrow> transport_channel option" where
  "tc_Ping mem inp r ch =
     do {
       p \<leftarrow> tc_port (fst r) ch;
       c \<leftarrow> tc_get r ch;
       c1 \<leftarrow> cx_Ping mem inp (of_nat (pi_now inp)) p c;
       tc_update (pi_now inp) (\<lambda>_. c1) r ch
     }"

definition OnPing :: "bytes \<Rightarrow> port_input \<Rightarrow> transport_channel \<Rightarrow> transport_channel option" where
  "OnPing mem inp ch =
     do {
       ch1 \<leftarrow> UpdateConnectionStates (pi_now inp) ch;
       conn \<leftarrow> FindNextPingableConnection (of_nat (pi_now inp)) ch1;
       ch2 \<leftarrow> (case conn of None \<Rightarrow> Some ch1 | Some r \<Rightarrow> tc_Ping mem inp r ch1);
       let delay = (if tc_writable ch2 then WRITABLE_DELAY else UNWRITABLE_DELAY);
       Some (tc_post (pi_now inp + delay) MSG_PING ch2)
     }"

definition tc_OnMessage :: "bytes \<Rightarrow> port_input \<Rightarrow> channel_message \<Rightarrow> transport_channel \<Rightarrow> transport_channel option" where
  "tc_OnMessage mem inp m ch = (case m of MSG_SORT \<Rightarrow> SortConnections (pi_now inp) ch | MSG_PING \<Rightarrow> OnPing mem inp ch)"

section \<open>Data, and the end of connections and ports\<close>

definition tc_SendPacket :: "port_input \<Rightarrow> bytes \<Rightarrow> int \<Rightarrow> transport_channel \<Rightarrow> (int \<times> transport_channel) option" where
  "tc_SendPacket inp data flags ch =
     (if flags \<noteq> 0 then Some (- 1, ch\<lparr>tc_error := EINVAL\<rparr>)
      else case tc_best ch of
          None \<Rightarrow> Some (- 1, ch\<lparr>tc_error := EWOULDBLOCK\<rparr>)
        | Some r \<Rightarrow> do {
            p \<leftarrow> tc_port (fst r) ch;
            (sent, p1) \<leftarrow> cx_Send inp data (snd r) p;
            ch1 \<leftarrow> tc_collect (pi_now inp) (fst r) p1 ch;
            c \<leftarrow> tc_get r ch1;
            Some (sent, if sent \<le> 0 then ch1\<lparr>tc_error := cx_error c\<rparr> else ch1)
          })"

definition tc_OnConnectionDestroyed :: "nat \<Rightarrow> connection_ref \<Rightarrow> transport_channel \<Rightarrow> transport_channel option" where
  "tc_OnConnectionDestroyed now r ch =
     (if r \<notin> set (tc_connections ch) then None
      else
        let ch1 = ch\<lparr>tc_connections := remove1 r (tc_connections ch)\<rparr>
        in if tc_best ch1 = Some r
           then map_option (RequestSort now) (SwitchBestConnectionTo None ch1) else Some ch1)"

definition OnPortDestroyed :: "nat \<Rightarrow> transport_channel \<Rightarrow> transport_channel" where
  "OnPortDestroyed i ch = ch\<lparr>tc_ports := remove1 i (tc_ports ch)\<rparr>"

section \<open>Statistics\<close>

record connection_info =
  ci_best_connection :: bool
  ci_writable :: bool
  ci_readable :: bool
  ci_timeout :: bool
  ci_new_connection :: bool
  ci_rtt :: uint32
  ci_sent_total_bytes :: uint64
  ci_sent_bytes_second :: uint64
  ci_recv_total_bytes :: uint64
  ci_recv_bytes_second :: uint64
  ci_local_candidate :: candidate
  ci_remote_candidate :: candidate
  ci_key :: connection_ref

text \<open>The report on a connection, and the connection after it; reading a rate moves its reference point.\<close>

definition cx_stats ::
    "uint32 \<Rightarrow> connection_ref option \<Rightarrow> connection_ref \<Rightarrow> ice_port \<Rightarrow> ice_connection
      \<Rightarrow> (connection_info \<times> ice_connection) option" where
  "cx_stats now best r p c =
     do {
       sent \<leftarrow> units_second now (cx_send_rate c);
       recv \<leftarrow> units_second now (cx_recv_rate c);
       local \<leftarrow> cx_local_candidate p c;
       Some (\<lparr>ci_best_connection = (best = Some r), ci_writable = (cx_write c = STATE_WRITABLE),
              ci_readable = (cx_read c = STATE_READABLE), ci_timeout = (cx_write c = STATE_WRITE_TIMEOUT),
              ci_new_connection = (\<not> cx_reported c), ci_rtt = cx_rtt c,
              ci_sent_total_bytes = rt_total_units sent, ci_sent_bytes_second = rt_units_second sent,
              ci_recv_total_bytes = rt_total_units recv, ci_recv_bytes_second = rt_units_second recv,
              ci_local_candidate = local, ci_remote_candidate = cx_remote c, ci_key = r\<rparr>,
             c\<lparr>cx_send_rate := sent, cx_recv_rate := recv, cx_reported := True\<rparr>)
     }"

definition stats_of ::
    "nat \<Rightarrow> connection_ref \<Rightarrow> connection_info list \<times> transport_channel \<Rightarrow> (connection_info list \<times> transport_channel) option" where
  "stats_of now r s =
     do {
       p \<leftarrow> tc_port (fst r) (snd s);
       c \<leftarrow> tc_get r (snd s);
       (info, c1) \<leftarrow> cx_stats (of_nat now) (tc_best (snd s)) r p c;
       ch1 \<leftarrow> tc_update now (\<lambda>_. c1) r (snd s);
       Some (fst s @ [info], ch1)
     }"

definition tc_GetStats :: "nat \<Rightarrow> transport_channel \<Rightarrow> (connection_info list \<times> transport_channel) option" where
  "tc_GetStats now ch = fold_option (stats_of now) (tc_connections ch) ([], ch)"

section \<open>Histories\<close>

fun tc_port_output :: "bytes \<Rightarrow> port_input \<Rightarrow> nat \<Rightarrow> port_output \<Rightarrow> transport_channel \<Rightarrow> transport_channel option" where
  "tc_port_output mem inp i (Unknown_address addr proto msg u) ch = OnUnknownAddress mem inp i addr proto msg u False ch"
| "tc_port_output mem inp i Role_conflict ch = Some (tc_note Channel_conflict ch)"
| "tc_port_output mem inp i Port_destroyed ch = Some (OnPortDestroyed i ch)"
| "tc_port_output mem inp i _ ch = Some ch"

text \<open>The events that reach a port by itself: packets and its messages.\<close>

fun thread_event :: "port_event \<Rightarrow> bool" where
  "thread_event (Packet data addr) = True"
| "thread_event (Request_message i addr) = True"
| "thread_event Start_port = True"
| "thread_event (Port_message i) = True"
| "thread_event _ = False"

definition tc_port_event :: "bytes \<Rightarrow> port_input \<Rightarrow> nat \<Rightarrow> port_event \<Rightarrow> transport_channel \<Rightarrow> transport_channel option" where
  "tc_port_event mem inp i e ch =
     (case tc_port i ch of
        None \<Rightarrow> Some ch
      | Some p \<Rightarrow> do {
          p1 \<leftarrow> port_event_step mem inp e p;
          ch1 \<leftarrow> tc_collect (pi_now inp) i p1 ch;
          fold_option (tc_port_output mem inp i) (pt_out p1) ch1
        })"

text \<open>\<^verbatim>\<open>MSG_DELETE\<close> of a connection: first its port drops it, and perhaps itself, then the channel.\<close>

definition tc_delete :: "bytes \<Rightarrow> port_input \<Rightarrow> connection_ref \<Rightarrow> transport_channel \<Rightarrow> transport_channel option" where
  "tc_delete mem inp r ch =
     (case tc_port (fst r) ch of
        None \<Rightarrow> Some ch
      | Some p \<Rightarrow>
          (case GetConnection (snd r) p of
             None \<Rightarrow> Some ch
           | Some c \<Rightarrow>
               if cx_deletes c = 0 then Some ch
               else do {
                 p1 \<leftarrow> cx_OnMessage (snd r) p;
                 ch1 \<leftarrow> tc_collect (pi_now inp) (fst r) p1 ch;
                 ch2 \<leftarrow> fold_option (tc_port_output mem inp (fst r)) (pt_out p1) ch1;
                 tc_OnConnectionDestroyed (pi_now inp) (fst r, cd_address (cx_remote c)) ch2
               }))"

datatype channel_event =
    Port_ready ice_port
  | Remote_candidate candidate
  | Port_event nat port_event
  | Delete_connection connection_ref
  | Queue_message nat
  | Send_packet bytes int
  | Change_role transport_role
  | Change_tiebreaker uint64
  | Change_protocol ice_protocol
  | Change_credentials bytes bytes
  | Connect_channel
  | Signaling_ready
  | Reset_channel bool
  | Set_option socket_option int
  | Local_candidates "candidate list"
  | Candidates_done
  | Get_stats

text \<open>A port is handed over when it has an address.\<close>

definition fresh_port :: "ice_port \<Rightarrow> bool" where
  "fresh_port p \<longleftrightarrow> pt_connections p = [] \<and> pt_candidates p \<noteq> [] \<and> pt_out p = [] \<and> \<not> pt_destroyed p"

fun channel_step :: "bytes \<Rightarrow> port_input \<times> channel_event \<Rightarrow> transport_channel \<Rightarrow> transport_channel option" where
  "channel_step mem (inp, Port_ready p) ch = (if fresh_port p then OnPortReady (pi_now inp) p ch else Some ch)"
| "channel_step mem (inp, Remote_candidate c) ch = OnCandidate (pi_now inp) c ch"
| "channel_step mem (inp, Port_event i e) ch = (if thread_event e then tc_port_event mem inp i e ch else Some ch)"
| "channel_step mem (inp, Delete_connection r) ch = tc_delete mem inp r ch"
| "channel_step mem (inp, Queue_message i) ch =
     (if i < length (tc_queue ch) \<and> fst (tc_queue ch ! i) \<le> pi_now inp
      then tc_OnMessage mem inp (snd (tc_queue ch ! i)) (ch\<lparr>tc_queue := take i (tc_queue ch) @ drop (Suc i) (tc_queue ch)\<rparr>)
      else Some ch)"
| "channel_step mem (inp, Send_packet data flags) ch = map_option snd (tc_SendPacket inp data flags ch)"
| "channel_step mem (inp, Change_role role) ch = Some (tc_SetRole role ch)"
| "channel_step mem (inp, Change_tiebreaker t) ch = Some (tc_SetTiebreaker t ch)"
| "channel_step mem (inp, Change_protocol t) ch = Some (tc_SetIceProtocolType t ch)"
| "channel_step mem (inp, Change_credentials u w) ch = Some (tc_SetIcePwd w (tc_SetIceUfrag u ch))"
| "channel_step mem (inp, Connect_channel) ch = tc_Connect (pi_now inp) ch"
| "channel_step mem (inp, Signaling_ready) ch = Some (OnSignalingReady ch)"
| "channel_step mem (inp, Reset_channel requested) ch = Some (tc_Reset (pi_now inp) requested ch)"
| "channel_step mem (inp, Set_option opt value) ch = Some (tc_SetOption opt value ch)"
| "channel_step mem (inp, Local_candidates cs) ch = Some (OnCandidatesReady cs ch)"
| "channel_step mem (inp, Candidates_done) ch = Some (OnCandidatesAllocationDone ch)"
| "channel_step mem (inp, Get_stats) ch = map_option snd (tc_GetStats (pi_now inp) ch)"

fun channel_run :: "bytes \<Rightarrow> (port_input \<times> channel_event) list \<Rightarrow> transport_channel \<Rightarrow> transport_channel option" where
  "channel_run mem [] ch = Some ch"
| "channel_run mem (e # es) ch = do { ch1 \<leftarrow> channel_step mem e ch; channel_run mem es ch1 }"

end
