(* ===== verification/IceCheck.thy ===== *)
theory IceCheck
  imports IceConnection
begin

text \<open>
  A connectivity check between two ports of standard ICE: the ping of one, sent when its thread comes to it,
  makes the connection of the other readable, and the answer makes its own writable.
\<close>

section \<open>Protected messages\<close>

lemma ice_value_types [simp]:
  "IceMessage_value_type STUN_ATTR_USERNAME = STUN_VALUE_BYTE_STRING"
  "IceMessage_value_type STUN_ATTR_USE_CANDIDATE = STUN_VALUE_BYTE_STRING"
  "IceMessage_value_type STUN_ATTR_RETRANSMIT_COUNT = STUN_VALUE_UINT32"
  "IceMessage_value_type STUN_ATTR_PRIORITY = STUN_VALUE_UINT32"
  "IceMessage_value_type STUN_ATTR_ICE_CONTROLLED = STUN_VALUE_UINT64"
  "IceMessage_value_type STUN_ATTR_ICE_CONTROLLING = STUN_VALUE_UINT64"
  "StunMessage_value_type STUN_ATTR_RETRANSMIT_COUNT = STUN_VALUE_UINT32"
  "StunMessage_value_type STUN_ATTR_XOR_MAPPED_ADDRESS = STUN_VALUE_XOR_ADDRESS"
  "StunMessage_value_type STUN_ATTR_ERROR_CODE = STUN_VALUE_ERROR_CODE"
  by code_simp+

definition ice_attr_types :: "uint16 list" where
  "ice_attr_types = [STUN_ATTR_PRIORITY, STUN_ATTR_USE_CANDIDATE, STUN_ATTR_ICE_CONTROLLED, STUN_ATTR_ICE_CONTROLLING]"

lemma ice_type_neq [simp]:
  "STUN_ATTR_XOR_MAPPED_ADDRESS \<notin> set ice_attr_types" "STUN_ATTR_RETRANSMIT_COUNT \<notin> set ice_attr_types"
  "STUN_ATTR_ERROR_CODE \<notin> set ice_attr_types" "STUN_ATTR_MESSAGE_INTEGRITY \<notin> set ice_attr_types"
  "STUN_ATTR_FINGERPRINT \<notin> set ice_attr_types"
  by code_simp+

text \<open>A message of the base kind is read back as the ICE message with the same bytes.\<close>

lemma wf_as_ice:
  assumes "wf_message m" and "sm_kind m = IceMessage \<or> sm_kind m = StunMessage
      \<and> (\<forall>a \<in> set (sm_attrs m). at_type a \<notin> set ice_attr_types)"
  shows "wf_message (m\<lparr>sm_kind := IceMessage\<rparr>)"
proof -
  have "wf_attr IceMessage tid a" if "wf_attr StunMessage tid a" "at_type a \<notin> set ice_attr_types" for tid a
    using that by (simp add: wf_attr_def IceMessage_value_type_def ice_attr_types_def)
  then show ?thesis
    using assms by (auto simp: wf_message_def IsLegacy_def list_all_iff)
qed

lemma message_bytes_kind [simp]: "message_bytes (m\<lparr>sm_kind := k\<rparr>) = message_bytes m"
  by (simp add: message_bytes_def header_bytes_def IsLegacy_def)

abbreviation protect :: "bytes \<Rightarrow> bytes \<Rightarrow> stun_message \<Rightarrow> stun_message" where
  "protect mem key m \<equiv> snd (AddFingerprint (snd (AddMessageIntegrity mem key m)))"

lemma protect_read:
  assumes wf: "wf_message m" and mem: "length mem = 64" and tid: "length (sm_tid m) = 12"
    and room: "unat (sm_length m) + 32 < 65536"
    and none: "\<forall>a \<in> set (sm_attrs m). at_type a \<noteq> STUN_ATTR_MESSAGE_INTEGRITY"
    and kind: "sm_kind m = IceMessage \<or> sm_kind m = StunMessage \<and> (\<forall>a \<in> set (sm_attrs m). at_type a \<notin> set ice_attr_types)"
  shows "\<exists>data msg b h c. bb_data (written_message (protect mem key m)) = data
    \<and> StunMessage_Read (StunMessage_new IceMessage) (bb_of_bytes data) = Some (msg, b) \<and> bb_length b = 0
    \<and> sm_attrs msg = sm_attrs m @ [integrity_attr h, attr_UInt32 STUN_ATTR_FINGERPRINT c] \<and> length h = 20
    \<and> sm_type msg = sm_type m \<and> sm_tid msg = sm_tid m
    \<and> ValidateFingerprint data \<and> ValidateMessageIntegrity mem data key = Some True"
proof -
  have "\<not> IsLegacy m" using tid by (simp add: IsLegacy_def kStunLegacyTransactionIdLength_def)
  from protected_message [OF wf mem this room none, of key] obtain m' h c where
    m': "protect mem key m = m'" "wf_message m'" "length h = 20"
      "sm_attrs m' = sm_attrs m @ [integrity_attr h, attr_UInt32 STUN_ATTR_FINGERPRINT c]"
      "sm_type m' = sm_type m" "sm_tid m' = sm_tid m" "sm_kind m' = sm_kind m"
      "ValidateFingerprint (message_bytes m')" "ValidateMessageIntegrity mem (message_bytes m') key = Some True"
    by blast
  have "wf_message (m'\<lparr>sm_kind := IceMessage\<rparr>)"
    by (rule wf_as_ice [OF m'(2)])
       (use kind m'(3,4,7) in \<open>auto simp: integrity_attr(2) attr_UInt32_def\<close>)
  from read_message [OF this] obtain b where
    "StunMessage_Read (StunMessage_new IceMessage) (bb_of_bytes (message_bytes m')) = Some (m'\<lparr>sm_kind := IceMessage\<rparr>, b)"
    "bb_length b = 0" by auto
  with m' written_message_bytes [OF m'(2)] show ?thesis
    by (intro exI [of _ "message_bytes m'"] exI [of _ "m'\<lparr>sm_kind := IceMessage\<rparr>"] exI [of _ b] exI [of _ h]
        exI [of _ c]) simp
qed

section \<open>The ping\<close>

lemma wf_uint64:
  assumes "GetAttributeValueType kind t = STUN_VALUE_UINT64"
  shows "wf_attr kind tid (attr_UInt64 t v)" "attr_size (attr_UInt64 t v) = 12"
  using assms by (simp_all add: wf_attr_def attr_UInt64_def attr_size_def padded_length_def)

lemma attr_types [simp]:
  "at_type (attr_UInt64 t v) = t" "at_type (attr_UInt32 t w) = t" "at_type (attr_ByteString t s) = t"
  "at_type (attr_XorAddress t a) = t" "attr_value64 (attr_UInt64 t v) = v"
  by (simp_all add: attr_UInt64_def attr_UInt32_def attr_ByteString_def CopyBytes_def attr_XorAddress_def
      attr_SetAddress_def attr_value64_def)

lemma ice_attr_neq [simp]:
  "STUN_ATTR_USERNAME \<noteq> STUN_ATTR_MESSAGE_INTEGRITY" "STUN_ATTR_RETRANSMIT_COUNT \<noteq> STUN_ATTR_MESSAGE_INTEGRITY"
  "STUN_ATTR_PRIORITY \<noteq> STUN_ATTR_MESSAGE_INTEGRITY" "STUN_ATTR_ICE_CONTROLLING \<noteq> STUN_ATTR_MESSAGE_INTEGRITY"
  "STUN_ATTR_ICE_CONTROLLED \<noteq> STUN_ATTR_MESSAGE_INTEGRITY" "STUN_ATTR_USE_CANDIDATE \<noteq> STUN_ATTR_MESSAGE_INTEGRITY"
  "STUN_ATTR_XOR_MAPPED_ADDRESS \<noteq> STUN_ATTR_MESSAGE_INTEGRITY" "STUN_ATTR_ERROR_CODE \<noteq> STUN_ATTR_MESSAGE_INTEGRITY"
  "STUN_ATTR_USERNAME \<noteq> STUN_ATTR_ICE_CONTROLLING" "STUN_ATTR_RETRANSMIT_COUNT \<noteq> STUN_ATTR_ICE_CONTROLLING"
  "STUN_ATTR_PRIORITY \<noteq> STUN_ATTR_ICE_CONTROLLING" "STUN_ATTR_ICE_CONTROLLED \<noteq> STUN_ATTR_ICE_CONTROLLING"
  "STUN_ATTR_USE_CANDIDATE \<noteq> STUN_ATTR_ICE_CONTROLLING" "STUN_ATTR_MESSAGE_INTEGRITY \<noteq> STUN_ATTR_ICE_CONTROLLING"
  "STUN_ATTR_FINGERPRINT \<noteq> STUN_ATTR_ICE_CONTROLLING"
  "STUN_ATTR_USERNAME \<noteq> STUN_ATTR_ICE_CONTROLLED" "STUN_ATTR_RETRANSMIT_COUNT \<noteq> STUN_ATTR_ICE_CONTROLLED"
  "STUN_ATTR_PRIORITY \<noteq> STUN_ATTR_ICE_CONTROLLED" "STUN_ATTR_ICE_CONTROLLING \<noteq> STUN_ATTR_ICE_CONTROLLED"
  "STUN_ATTR_USE_CANDIDATE \<noteq> STUN_ATTR_ICE_CONTROLLED" "STUN_ATTR_MESSAGE_INTEGRITY \<noteq> STUN_ATTR_ICE_CONTROLLED"
  "STUN_ATTR_FINGERPRINT \<noteq> STUN_ATTR_ICE_CONTROLLED"
  "STUN_ATTR_USERNAME \<noteq> STUN_ATTR_USE_CANDIDATE" "STUN_ATTR_RETRANSMIT_COUNT \<noteq> STUN_ATTR_USE_CANDIDATE"
  "STUN_ATTR_PRIORITY \<noteq> STUN_ATTR_USE_CANDIDATE" "STUN_ATTR_ICE_CONTROLLING \<noteq> STUN_ATTR_USE_CANDIDATE"
  "STUN_ATTR_ICE_CONTROLLED \<noteq> STUN_ATTR_USE_CANDIDATE" "STUN_ATTR_MESSAGE_INTEGRITY \<noteq> STUN_ATTR_USE_CANDIDATE"
  "STUN_ATTR_FINGERPRINT \<noteq> STUN_ATTR_USE_CANDIDATE"
  by code_simp+

lemma ice_type_facts [simp]:
  "STUN_BINDING_REQUEST AND 0x8000 = 0" "STUN_BINDING_RESPONSE AND 0x8000 = 0" "STUN_BINDING_ERROR_RESPONSE AND 0x8000 = 0"
  "STUN_BINDING_RESPONSE \<noteq> STUN_BINDING_REQUEST" "STUN_BINDING_ERROR_RESPONSE \<noteq> STUN_BINDING_REQUEST"
  "STUN_BINDING_REQUEST \<noteq> STUN_BINDING_RESPONSE" "STUN_BINDING_REQUEST \<noteq> STUN_BINDING_ERROR_RESPONSE"
  "STUN_BINDING_ERROR_RESPONSE \<noteq> STUN_BINDING_RESPONSE" "STUN_BINDING_REQUEST \<noteq> 0"
  by code_simp+

text \<open>What the receiver of a ping reads.\<close>

definition reads_ping :: "bytes \<Rightarrow> bytes \<Rightarrow> bytes \<Rightarrow> bytes \<Rightarrow> transport_role \<times> uint64 \<Rightarrow> bytes \<Rightarrow> stun_message \<Rightarrow> bool" where
  "reads_ping mem key username tid role data msg \<longleftrightarrow>
     ValidateFingerprint data \<and> ValidateMessageIntegrity mem data key = Some True
     \<and> (\<exists>b. StunMessage_Read (StunMessage_new IceMessage) (bb_of_bytes data) = Some (msg, b) \<and> bb_length b = 0)
     \<and> sm_type msg = STUN_BINDING_REQUEST \<and> sm_tid msg = tid
     \<and> (\<exists>a. GetAttribute msg STUN_ATTR_USERNAME = Some a \<and> attr_string a = username)
     \<and> GetAttribute msg STUN_ATTR_MESSAGE_INTEGRITY \<noteq> None \<and> remote_role msg = Some role
     \<and> (\<forall>x. GetAttribute msg STUN_ATTR_ICE_CONTROLLING = Some x \<longrightarrow> attr_value64 x = snd role)
     \<and> (GetAttribute msg STUN_ATTR_USE_CANDIDATE \<noteq> None \<longleftrightarrow> fst role = ROLE_CONTROLLING)"

lemma ping_attrs_facts:
  assumes "length username < 1000" and "pt_protocol p = ICEPROTO_RFC5245"
  shows "\<forall>a \<in> set (ping_attrs username local p c). wf_attr IceMessage tid a"
    and "\<forall>a \<in> set (ping_attrs username local p c). at_type a \<noteq> STUN_ATTR_MESSAGE_INTEGRITY"
    and "sum_list (map attr_size (ping_attrs username local p c)) < 1100"
proof -
  have u: "wf_attr IceMessage tid (attr_ByteString STUN_ATTR_USERNAME username)"
    "attr_size (attr_ByteString STUN_ATTR_USERNAME username) = padded_length (length username) + 4"
    and c: "wf_attr IceMessage tid (attr_ByteString STUN_ATTR_USE_CANDIDATE [])"
    "attr_size (attr_ByteString STUN_ATTR_USE_CANDIDATE []) = 4"
    using wf_string [of username IceMessage STUN_ATTR_USERNAME] wf_string [of "[]" IceMessage STUN_ATTR_USE_CANDIDATE] assms(1)
    by (simp_all add: padded_length_def [of 0])
  have pad: "padded_length (length username) \<le> length username + 3" unfolding padded_length_def by (simp, presburger)
  show "\<forall>a \<in> set (ping_attrs username local p c). wf_attr IceMessage tid a"
    using u(1) c(1) by (auto simp: ping_attrs_def role_attrs_def wf_uint32(1) wf_uint64(1))
  show "\<forall>a \<in> set (ping_attrs username local p c). at_type a \<noteq> STUN_ATTR_MESSAGE_INTEGRITY"
    by (auto simp: ping_attrs_def role_attrs_def)
  show "sum_list (map attr_size (ping_attrs username local p c)) < 1100"
    using u(2) c(2) pad assms wf_uint64(2) [of IceMessage STUN_ATTR_ICE_CONTROLLING "pt_tiebreaker p"]
      wf_uint64(2) [of IceMessage STUN_ATTR_ICE_CONTROLLED "pt_tiebreaker p"]
      wf_uint32(2) [of IceMessage STUN_ATTR_PRIORITY "prflx_priority local"]
      wf_uint32(2) [of IceMessage STUN_ATTR_RETRANSMIT_COUNT "of_nat (length (cx_pings c)) - 1"]
    by (simp add: ping_attrs_def role_attrs_def)
qed

definition role_claim :: "ice_port \<Rightarrow> transport_role \<times> uint64" where
  "role_claim p = (if pt_role p = ROLE_CONTROLLING then ROLE_CONTROLLING else ROLE_CONTROLLED, pt_tiebreaker p)"

lemma ping_reads:
  assumes mem: "length mem = 64" and proto: "pt_protocol p = ICEPROTO_RFC5245" and tid: "length tid = 12"
    and size: "length username < 1000"
  shows "\<exists>msg. reads_ping mem (cd_password (cx_remote c)) username tid (role_claim p)
    (bb_data (written_message (ping_Prepare mem username local p c (rq_msg (StunRequest_new (StunMessage_new IceMessage) tid))))) msg"
proof -
  let ?m0 = "SetType (uint STUN_BINDING_REQUEST) (rq_msg (StunRequest_new (StunMessage_new IceMessage) tid))"
  let ?as = "ping_attrs username local p c"
  let ?r1 = "fold (\<lambda>a m. snd (AddAttribute a m)) ?as ?m0"
  have valid: "IsValidTransactionId tid" using tid by (simp add: IsValidTransactionId_def kStunTransactionIdLength_def)
  have m0: "wf_message ?m0" "sm_kind ?m0 = IceMessage" "sm_tid ?m0 = tid" "sm_type ?m0 = STUN_BINDING_REQUEST"
    "sm_attrs ?m0 = []" "sm_length ?m0 = 0"
    using valid tid
    by (simp_all add: wf_message_def StunRequest_new_def SetType_def SetTransactionID_def StunMessage_new_def IsLegacy_def
        kStunLegacyTransactionIdLength_def)
  note facts = ping_attrs_facts [OF size proto, of local c]
  have r1: "wf_message ?r1" "sm_attrs ?r1 = ?as" "unat (sm_length ?r1) = sum_list (map attr_size ?as)"
    "sm_type ?r1 = STUN_BINDING_REQUEST" "sm_tid ?r1 = tid" "sm_kind ?r1 = IceMessage"
    using add_attributes [OF m0(1), of ?as] facts m0 by simp_all
  have "length (sm_tid ?r1) = 12" "unat (sm_length ?r1) + 32 < 65536"
    "\<forall>a \<in> set (sm_attrs ?r1). at_type a \<noteq> STUN_ATTR_MESSAGE_INTEGRITY"
    using r1 facts tid by auto
  from protect_read [OF r1(1) mem this, of "cd_password (cx_remote c)"] r1 obtain data msg b h f where
    d: "bb_data (written_message (protect mem (cd_password (cx_remote c)) ?r1)) = data"
      "StunMessage_Read (StunMessage_new IceMessage) (bb_of_bytes data) = Some (msg, b)" "bb_length b = 0"
      "sm_attrs msg = ?as @ [integrity_attr h, attr_UInt32 STUN_ATTR_FINGERPRINT f]" "length h = 20"
      "sm_type msg = STUN_BINDING_REQUEST" "sm_tid msg = tid"
      "ValidateFingerprint data" "ValidateMessageIntegrity mem data (cd_password (cx_remote c)) = Some True"
    by auto
  have "attr_string (attr_ByteString STUN_ATTR_USERNAME username) = username"
    using wf_string(4) [of username] size by (simp add: attr_string_def attr_ByteString_def CopyBytes_def unat_of_nat_small)
  with d have "reads_ping mem (cd_password (cx_remote c)) username tid (role_claim p) data msg"
    by (auto simp: reads_ping_def GetAttribute_def ping_attrs_def role_attrs_def remote_role_def role_claim_def proto
        integrity_attr(2) find_append)
  with d(1) show ?thesis by (auto simp: ping_Prepare_def Let_def proto)
qed

section \<open>The answer\<close>

definition reads_reply :: "bytes \<Rightarrow> bytes \<Rightarrow> uint16 \<Rightarrow> stun_attr list \<Rightarrow> bytes \<Rightarrow> bytes \<Rightarrow> stun_message \<Rightarrow> bool" where
  "reads_reply mem key type as tid data msg \<longleftrightarrow>
     ValidateFingerprint data \<and> ValidateMessageIntegrity mem data key = Some True
     \<and> (\<exists>b. StunMessage_Read (StunMessage_new IceMessage) (bb_of_bytes data) = Some (msg, b) \<and> bb_length b = 0)
     \<and> sm_type msg = type \<and> sm_tid msg = tid \<and> (\<exists>rest. sm_attrs msg = as @ rest)"

abbreviation reply_header :: "bytes \<Rightarrow> uint16 \<Rightarrow> stun_message" where
  "reply_header tid t \<equiv> snd (SetTransactionID tid (SetType (uint t) (StunMessage_new StunMessage)))"

lemma reply_header:
  assumes "length tid = 12" and "t AND 0x8000 = 0"
  shows "wf_message (reply_header tid t)" "sm_type (reply_header tid t) = t" "sm_tid (reply_header tid t) = tid"
    "sm_kind (reply_header tid t) = StunMessage" "sm_attrs (reply_header tid t) = []" "sm_length (reply_header tid t) = 0"
  using assms
  by (simp_all add: wf_message_def SetType_def SetTransactionID_def StunMessage_new_def IsLegacy_def
      kStunLegacyTransactionIdLength_def IsValidTransactionId_def kStunTransactionIdLength_def)

text \<open>Any reply with integrity and fingerprint.\<close>

lemma reply_reads:
  assumes mem: "length mem = 64" and tid: "length tid = 12" and t: "t AND 0x8000 = 0"
    and wf: "\<forall>a \<in> set as. wf_attr StunMessage tid a" and size: "sum_list (map attr_size as) < 1000"
    and types: "\<forall>a \<in> set as. at_type a \<noteq> STUN_ATTR_MESSAGE_INTEGRITY \<and> at_type a \<notin> set ice_attr_types"
  shows "\<exists>m. reads_reply mem key t as tid
    (bb_data (written_message (protect mem key (fold (\<lambda>a m. snd (AddAttribute a m)) as (reply_header tid t))))) m"
proof -
  let ?r1 = "fold (\<lambda>a m. snd (AddAttribute a m)) as (reply_header tid t)"
  note m0 = reply_header [OF tid t]
  have r1: "wf_message ?r1" "sm_attrs ?r1 = as" "unat (sm_length ?r1) = sum_list (map attr_size as)"
    "sm_type ?r1 = t" "sm_tid ?r1 = tid" "sm_kind ?r1 = StunMessage"
    using add_attributes [OF m0(1), of as] wf size m0 by auto
  have "length (sm_tid ?r1) = 12" "unat (sm_length ?r1) + 32 < 65536"
    "\<forall>a \<in> set (sm_attrs ?r1). at_type a \<noteq> STUN_ATTR_MESSAGE_INTEGRITY"
    "sm_kind ?r1 = IceMessage \<or> sm_kind ?r1 = StunMessage \<and> (\<forall>a \<in> set (sm_attrs ?r1). at_type a \<notin> set ice_attr_types)"
    using r1 size types tid by auto
  from protect_read [OF r1(1) mem this, of key] r1 show ?thesis unfolding reads_reply_def by auto
qed

abbreviation response_attrs :: "stun_message \<Rightarrow> socket_address \<Rightarrow> stun_attr list" where
  "response_attrs msg addr \<equiv> (case GetAttribute msg STUN_ATTR_RETRANSMIT_COUNT of
      Some a \<Rightarrow> [attr_UInt32 STUN_ATTR_RETRANSMIT_COUNT (attr_value a)] | None \<Rightarrow> [])
    @ [attr_XorAddress STUN_ATTR_XOR_MAPPED_ADDRESS addr]"

lemma response_reads:
  assumes mem: "length mem = 64" and proto: "pt_protocol p = ICEPROTO_RFC5245" and tid: "length (sm_tid msg) = 12"
    and addr: "wf_address addr"
  shows "\<exists>m. reads_reply mem (pt_password p) STUN_BINDING_RESPONSE (response_attrs msg addr) (sm_tid msg)
    (bb_data (written_message (binding_response mem msg un addr p))) m"
proof -
  let ?ra = "case GetAttribute msg STUN_ATTR_RETRANSMIT_COUNT of
      Some a \<Rightarrow> [attr_UInt32 STUN_ATTR_RETRANSMIT_COUNT (attr_value a)] | None \<Rightarrow> []"
  have x: "wf_attr StunMessage (sm_tid msg) (attr_XorAddress STUN_ATTR_XOR_MAPPED_ADDRESS addr)"
    "attr_size (attr_XorAddress STUN_ATTR_XOR_MAPPED_ADDRESS addr) \<le> 24"
    using wf_xor_address [of StunMessage STUN_ATTR_XOR_MAPPED_ADDRESS addr "sm_tid msg"] addr tid by simp_all
  have ra: "\<forall>a \<in> set ?ra. wf_attr StunMessage (sm_tid msg) a" "sum_list (map attr_size ?ra) \<le> 8"
    by (auto simp: wf_uint32(1) wf_uint32(2) [of StunMessage] split: option.split)
  have "binding_response mem msg un addr p = protect mem (pt_password p)
      (fold (\<lambda>a m. snd (AddAttribute a m)) (response_attrs msg addr) (reply_header (sm_tid msg) STUN_BINDING_RESPONSE))"
    by (simp add: binding_response_def Let_def proto split: option.split)
  then show ?thesis
    using reply_reads [OF mem tid, of STUN_BINDING_RESPONSE "response_attrs msg addr" "pt_password p"] x ra
    by (auto split: option.splits)
qed

section \<open>What the two sides do\<close>

lemma find_char_first: "c \<notin> set s \<Longrightarrow> find_char c (s @ c # t) = Some (length s)"
  by (induction s) auto

lemma GetStunMessage_ping:
  assumes r: "reads_ping mem (pt_password p) (pt_ufrag p @ 58 # u) tid role data msg"
    and proto: "pt_protocol p = ICEPROTO_RFC5245" and colon: "58 \<notin> set (pt_ufrag p)"
  shows "GetStunMessage mem data addr p = Some (Checked msg u, p)"
proof -
  from r obtain a i where a: "GetAttribute msg STUN_ATTR_USERNAME = Some a" "attr_string a = pt_ufrag p @ 58 # u"
    "GetAttribute msg STUN_ATTR_MESSAGE_INTEGRITY = Some i"
    by (auto simp: reads_ping_def)
  have parse: "ParseStunUsername msg p = Some (Some (pt_ufrag p, u))"
    by (simp add: ParseStunUsername_def a proto find_char_first [OF colon])
  have "check_binding_request mem data addr msg p = Some (Checked msg u, p)"
    using r by (simp add: check_binding_request_def a parse proto username_fragment_def reads_ping_def)
  with r show ?thesis by (auto simp: GetStunMessage_def reads_ping_def)
qed

lemma GetConnection_update:
  assumes "GetConnection addr p = Some c" and "\<And>c. cx_remote (f c) = cx_remote c"
  shows "GetConnection addr (pt_update addr f p) = Some (f c)"
proof -
  have "List.find (\<lambda>c. sa_eq (cd_address (cx_remote c)) addr)
        (map (\<lambda>c. if sa_eq (cd_address (cx_remote c)) addr then f c else c) cs)
      = map_option f (List.find (\<lambda>c. sa_eq (cd_address (cx_remote c)) addr) cs)" for cs
    by (induction cs) (auto simp: assms(2))
  with assms(1) show ?thesis by (simp add: GetConnection_def pt_update_def)
qed

lemma GetConnection_put:
  assumes "GetConnection addr p = Some c" and "sa_eq (cd_address (cx_remote c1)) addr"
  shows "GetConnection addr (pt_update addr (\<lambda>_. c1) p) = Some c1"
proof -
  have "List.find (\<lambda>c. sa_eq (cd_address (cx_remote c)) addr) cs \<noteq> None \<Longrightarrow>
      List.find (\<lambda>c. sa_eq (cd_address (cx_remote c)) addr)
        (map (\<lambda>c. if sa_eq (cd_address (cx_remote c)) addr then c1 else c) cs) = Some c1" for cs
    by (induction cs) (auto simp: assms(2) split: if_splits)
  with assms(1) show ?thesis by (simp add: GetConnection_def pt_update_def)
qed

lemma GetConnection_note [simp]:
  "GetConnection addr (pt_note e p) = GetConnection addr p" "GetConnection addr (pt_SendTo d a b p) = GetConnection addr p"
  by (simp_all add: GetConnection_def pt_note_def pt_SendTo_def)

lemma update_fields [simp]:
  "pt_out (pt_update addr f p) = pt_out p" "pt_out (pt_note e p) = pt_out p @ [e]"
  "pt_out (pt_SendTo d a b p) = pt_out p @ [Port_sent d a b]"
  "pt_protocol (pt_update addr f p) = pt_protocol p" "pt_destroyed (pt_update addr f p) = pt_destroyed p"
  "pt_destroyed (pt_note e p) = pt_destroyed p" "pt_destroyed (pt_SendTo d a b p) = pt_destroyed p"
  "pt_protocol (pt_note e p) = pt_protocol p" "pt_protocol (pt_SendTo d a b p) = pt_protocol p"
  by (simp_all add: pt_update_def pt_note_def pt_SendTo_def)

lemma ping_Prepare_keeps:
  "sm_type (ping_Prepare mem username local p c r) = STUN_BINDING_REQUEST"
  "sm_tid (ping_Prepare mem username local p c r) = sm_tid r"
proof -
  have a: "sm_type (snd (AddAttribute a m)) = sm_type m \<and> sm_tid (snd (AddAttribute a m)) = sm_tid m" for a m
    by (simp add: AddAttribute_def)
  have "sm_type (fold (\<lambda>a m. snd (AddAttribute a m)) as m) = sm_type m
      \<and> sm_tid (fold (\<lambda>a m. snd (AddAttribute a m)) as m) = sm_tid m" for as m
    by (induction as arbitrary: m) (simp_all add: a)
  moreover have "sm_type (snd (AddMessageIntegrity mem key m)) = sm_type m
      \<and> sm_tid (snd (AddMessageIntegrity mem key m)) = sm_tid m" for key m
    by (simp add: AddMessageIntegrity_def Let_def a set_last_def split: option.split)
  moreover have "sm_type (snd (AddFingerprint m)) = sm_type m \<and> sm_tid (snd (AddFingerprint m)) = sm_tid m" for m
    by (simp add: AddFingerprint_def Let_def a set_last_def split: option.split)
  ultimately show "sm_type (ping_Prepare mem username local p c r) = STUN_BINDING_REQUEST"
    "sm_tid (ping_Prepare mem username local p c r) = sm_tid r"
    by (simp_all add: ping_Prepare_def Let_def SetType_def)
qed

text \<open>The manager with one ping, before and after the thread has sent it.\<close>

definition one_request :: "stun_request \<Rightarrow> nat \<Rightarrow> request_log list \<Rightarrow> request_manager" where
  "one_request r due log = \<lparr>rm_requests = [(rq_id r, r)], rm_messages = [(due, rq_id r)], rm_log = log\<rparr>"

definition ping_request :: "stun_message \<Rightarrow> bool \<Rightarrow> uint32 \<Rightarrow> stun_request" where
  "ping_request m timeout tstamp =
     \<lparr>rq_count = 0, rq_timeout = timeout, rq_managed = True, rq_msg = m, rq_tstamp = tstamp\<rparr>"

lemma ping_sent_first:
  assumes tid: "length tid = 12" and "\<And>m. sm_type (prepare m) = STUN_BINDING_REQUEST" and "\<And>m. sm_tid (prepare m) = sm_tid m"
  shows "rm_Send prepare now (StunRequest_new (StunMessage_new IceMessage) tid) StunRequestManager
    = Some (one_request (ping_request (prepare (rq_msg (StunRequest_new (StunMessage_new IceMessage) tid))) False 0) now [])"
    and "rq_id (ping_request (prepare (rq_msg (StunRequest_new (StunMessage_new IceMessage) tid))) b t) = tid"
proof -
  have v: "IsValidTransactionId tid" using tid by (simp add: IsValidTransactionId_def kStunTransactionIdLength_def)
  show i: "rq_id (ping_request (prepare (rq_msg (StunRequest_new (StunMessage_new IceMessage) tid))) b t) = tid" for b t
    by (simp add: rq_id_def ping_request_def assms(3) StunRequest_new_def SetTransactionID_def v)
  show "rm_Send prepare now (StunRequest_new (StunMessage_new IceMessage) tid) StunRequestManager
    = Some (one_request (ping_request (prepare (rq_msg (StunRequest_new (StunMessage_new IceMessage) tid))) False 0) now [])"
    using assms(2,3) v
    by (simp add: rm_Send_def rm_SendDelayed_def StunRequestManager_def StunRequest_new_def rq_Construct_def SetTransactionID_def
        StunMessage_new_def Let_def rm_Post_def rm_insert_def rq_id_def one_request_def ping_request_def)
qed

lemma ping_delivered:
  assumes "due \<le> now" and "rq_id (ping_request m False 0) = tid"
  shows "rm_Deliver ping_GetNextDelay now 0 (one_request (ping_request m False 0) due [])
    = Some (one_request (ping_request m True (of_nat now)) (now + CONNECTION_RESPONSE_TIMEOUT)
        [Packet_sent now tid (bb_data (written_message m))])"
  using assms
  by (simp add: rm_Deliver_def one_request_def rq_Fire_def ping_GetNextDelay_def ping_request_def rm_Post_def rm_insert_def
      rm_note_def rq_id_def)

text \<open>A connection that can be pinged, and what its request will be.\<close>

definition ping_bytes :: "bytes \<Rightarrow> bytes \<Rightarrow> ice_port \<Rightarrow> ice_connection \<Rightarrow> uint32 \<Rightarrow> stun_message" where
  "ping_bytes mem tid p c now = ping_Prepare mem (cd_username (cx_remote c) @ 58 # pt_ufrag p) (the (cx_local_candidate p c)) p
     (c\<lparr>cx_last_ping_sent := now, cx_pings := cx_pings c @ [now]\<rparr>) (rq_msg (StunRequest_new (StunMessage_new IceMessage) tid))"

lemma Ping_step:
  assumes "length (pi_random inp) = 12" and "pt_protocol p = ICEPROTO_RFC5245" and "pt_role p \<noteq> ROLE_UNKNOWN"
    and "cx_connected c" and "cx_requests c = StunRequestManager" and "cx_local_candidate p c \<noteq> None"
  shows "cx_Ping mem inp now p c = Some (c\<lparr>cx_last_ping_sent := now, cx_pings := cx_pings c @ [now],
    cx_requests := one_request (ping_request (ping_bytes mem (pi_random inp) p c now) False 0) (pi_now inp) [],
    cx_state := STATE_INPROGRESS\<rparr>)"
proof -
  obtain local where l: "cx_local_candidate p c = Some local" using assms(6) by blast
  have cl: "cx_local_candidate p (c\<lparr>cx_last_ping_sent := now, cx_pings := ps\<rparr>) = cx_local_candidate p c" for ps
    by (simp add: cx_local_candidate_def)
  show ?thesis
    using ping_sent_first(1) [OF assms(1), of "ping_Prepare mem (cd_username (cx_remote c) @ 58 # pt_ufrag p) local p
        (c\<lparr>cx_last_ping_sent := now, cx_pings := cx_pings c @ [now]\<rparr>)", OF ping_Prepare_keeps] assms(2-5) l
    by (simp add: cx_Ping_def Let_def CreateStunUsername_def username_fragment_def ping_bytes_def cl)
qed

lemma ping_bytes_id: "length tid = 12 \<Longrightarrow> rq_id (ping_request (ping_bytes mem tid p c now) b t) = tid"
  by (simp add: rq_id_def ping_request_def ping_bytes_def ping_Prepare_keeps StunRequest_new_def SetTransactionID_def
      IsValidTransactionId_def kStunTransactionIdLength_def)

lemma Request_message_step:
  assumes c: "GetConnection addr p = Some c" and tid: "rq_id (ping_request m False 0) = tid" and due: "due \<le> pi_now inp"
    and r: "cx_requests c = one_request (ping_request m False 0) due []"
  shows "cx_DeliverRequest inp addr 0 p = Some (pt_SendTo (bb_data (written_message m)) (cd_address (cx_remote c)) False
    (pt_update addr (\<lambda>c. c\<lparr>cx_requests := one_request (ping_request m True (of_nat (pi_now inp)))
       (pi_now inp + CONNECTION_RESPONSE_TIMEOUT) [Packet_sent (pi_now inp) tid (bb_data (written_message m))]\<rparr>) p))"
  using ping_delivered [OF due, of m tid] tid c r
  by (simp add: cx_DeliverRequest_def new_packets_def) (simp add: one_request_def)

lemma answer_found:
  assumes r: "cx_requests c = one_request (ping_request m b t) due log"
    and tid: "rq_id (ping_request m b t) = sm_tid msg" and type: "sm_type m = STUN_BINDING_REQUEST"
    and ans: "sm_type msg = STUN_BINDING_RESPONSE"
  shows "\<exists>c1 rtt requests. cx_CheckResponse inp msg p c = (False, c1)
    \<and> c1 = (OnConnectionRequestResponse (pi_now inp) rtt c)\<lparr>cx_requests := requests\<rparr> \<and> rm_requests requests = []"
proof -
  have t: "uint STUN_BINDING_RESPONSE = GetStunSuccessResponseType (uint STUN_BINDING_REQUEST)" by code_simp
  have f: "map_of (rm_requests (cx_requests c)) (sm_tid msg) = Some (ping_request m b t)"
    by (simp add: r one_request_def tid [symmetric])
  have ty: "rq_type (ping_request m b t) = uint STUN_BINDING_REQUEST"
    by (simp add: rq_type_def ping_request_def type)
  have d: "rm_requests (rq_delete (sm_tid msg) (rm_note e (cx_requests c))) = []" for e
    by (simp add: r one_request_def tid rq_delete_def rm_Remove_def rm_note_def Let_def)
  show ?thesis
    using d by (auto simp: cx_CheckResponse_def f rm_CheckResponse_def ty t ans)
qed

lemma no_conflict:
  assumes "remote_role msg = Some role" and "pt_role p \<noteq> ROLE_UNKNOWN" and "fst role \<noteq> pt_role p"
    and "fst role \<noteq> ROLE_UNKNOWN" and "pt_protocol p = ICEPROTO_RFC5245"
  shows "MaybeIceRoleConflict mem addr msg u p = Some (True, p)"
  using assms
  by (cases role; cases "fst role"; cases "pt_role p") (auto simp: MaybeIceRoleConflict_def username_fragment_def Let_def)

lemma check_received:
  assumes r: "reads_ping mem (pt_password B) (pt_ufrag B @ 58 # u) tid role data msg"
    and mem: "length mem = 64" and tid: "length tid = 12" and proto: "pt_protocol B = ICEPROTO_RFC5245"
    and colon: "58 \<notin> set (pt_ufrag B)" and live: "\<not> pt_destroyed B"
    and c: "GetConnection a B = Some c" "cd_address (cx_remote c) = a" "cd_username (cx_remote c) = u" and a: "wf_address a"
    and pass: "MaybeIceRoleConflict mem a msg u B = Some (True, B\<lparr>pt_out := pt_out B @ es\<rparr>)"
  shows "\<exists>B2 answer m c2. port_run mem [(inp, Packet data a)] B = Some B2 \<and> pt_out B2 = pt_out B @ es @ [Port_sent answer a False]
    \<and> (\<exists>as. reads_reply mem (pt_password B) STUN_BINDING_RESPONSE as tid answer m)
    \<and> GetConnection a B2 = Some c2 \<and> cx_read c2 = STATE_READABLE \<and> cx_last_ping_received c2 = of_nat (pi_now inp)
    \<and> (pt_role B = ROLE_CONTROLLED \<and> fst role = ROLE_CONTROLLING \<longrightarrow> Use_candidate \<in> set (cx_signals c2))"
proof -
  from r obtain un where m: "sm_type msg = STUN_BINDING_REQUEST" "sm_tid msg = tid"
    "GetAttribute msg STUN_ATTR_USERNAME = Some un" "remote_role msg = Some role"
    "GetAttribute msg STUN_ATTR_USE_CANDIDATE \<noteq> None \<longleftrightarrow> fst role = ROLE_CONTROLLING"
    by (auto simp: reads_ping_def)
  let ?B0 = "B\<lparr>pt_out := pt_out B @ es\<rparr>"
  let ?answer = "bb_data (written_message (binding_response mem msg (attr_string un) a B))"
  let ?B1 = "pt_update a cx_restart (pt_update a (ReceivedPing (pi_now inp)) (pt_SendTo ?answer a False ?B0))"
  let ?c1 = "cx_restart (ReceivedPing (pi_now inp) c)"
  from response_reads [OF mem proto _ a, of msg "attr_string un"] m(2) tid obtain ma where
    "reads_reply mem (pt_password B) STUN_BINDING_RESPONSE (response_attrs msg a) tid ?answer ma" by auto
  then have ans: "\<exists>as. reads_reply mem (pt_password B) STUN_BINDING_RESPONSE as tid ?answer ma" by blast
  have keep: "cx_remote (ReceivedPing now c) = cx_remote c" "cx_remote (cx_restart c) = cx_remote c"
    "cx_remote (cx_note e c) = cx_remote c" for now c e
    by (simp_all add: ReceivedPing_def cx_restart_def set_read_state_def set_write_state_def cx_CheckTimeout_def cx_note_def)
  have c0: "GetConnection a ?B0 = Some c" using c(1) by (simp add: GetConnection_def)
  have c1: "GetConnection a ?B1 = Some ?c1"
    by (intro GetConnection_update) (simp_all add: c0 keep)
  have st: "cx_read ?c1 = STATE_READABLE" "cx_last_ping_received ?c1 = of_nat (pi_now inp)"
    by (simp_all add: cx_restart_def ReceivedPing_def set_read_state_def set_write_state_def cx_CheckTimeout_def cx_note_def)
  let ?nominate = "pt_role B = ROLE_CONTROLLED \<and> fst role = ROLE_CONTROLLING"
  let ?B2 = "if ?nominate then pt_update a (cx_note Use_candidate) ?B1 else ?B1"
  have "binding_response mem msg (attr_string un) a ?B0 = binding_response mem msg (attr_string un) a B"
    by (simp add: binding_response_def proto Let_def)
  then have "SendBindingResponse mem inp msg a ?B0 = Some (pt_update a (ReceivedPing (pi_now inp)) (pt_SendTo ?answer a False ?B0))"
    by (simp add: SendBindingResponse_def m c0)
  then have "HandlePacket mem inp data a B = Some ?B2"
    using m c
    by (simp add: HandlePacket_def cx_OnReadPacket_def cx_checked_message_def cx_binding_request_def
        GetStunMessage_ping [OF r proto colon] pass proto Let_def)
  then have run: "port_run mem [(inp, Packet data a)] B = Some ?B2" by (simp add: port_step_def live)
  have c2: "GetConnection a ?B2 = Some (if ?nominate then cx_note Use_candidate ?c1 else ?c1)"
    using c1 GetConnection_update [OF c1, of "cx_note Use_candidate"] keep by simp
  show ?thesis
    by (rule exI [of _ ?B2], rule exI [of _ ?answer], rule exI [of _ ma], rule exI, intro conjI, rule run, simp, rule ans, rule c2)
       (use st in \<open>simp_all add: cx_note_def\<close>)
qed

lemma ping_sent:
  assumes tid: "length (pi_random i1) = 12" and proto: "pt_protocol A = ICEPROTO_RFC5245" and role: "pt_role A \<noteq> ROLE_UNKNOWN"
    and c: "GetConnection b A = Some c" "cd_address (cx_remote c) = b" and live: "\<not> pt_destroyed A"
    and ready: "cx_connected c" "cx_requests c = StunRequestManager" "cx_local_candidate A c \<noteq> None"
    and now: "pi_now i1 \<le> pi_now i2"
  shows "\<exists>A2 c2 m t due log. port_run mem [(i1, Ping b), (i2, Request_message 0 b)] A = Some A2
    \<and> pt_out A2 = pt_out A @ [Port_sent (bb_data (written_message m)) b False]
    \<and> m = ping_bytes mem (pi_random i1) A c (of_nat (pi_now i1))
    \<and> GetConnection b A2 = Some c2 \<and> cx_remote c2 = cx_remote c \<and> cx_requests c2 = one_request (ping_request m True t) due log
    \<and> pt_protocol A2 = ICEPROTO_RFC5245 \<and> \<not> pt_destroyed A2"
proof -
  define m where "m = ping_bytes mem (pi_random i1) A c (of_nat (pi_now i1))"
  define c1 where "c1 = c\<lparr>cx_last_ping_sent := of_nat (pi_now i1), cx_pings := cx_pings c @ [of_nat (pi_now i1)],
    cx_requests := one_request (ping_request m False 0) (pi_now i1) [], cx_state := STATE_INPROGRESS\<rparr>"
  have ping: "cx_Ping mem i1 (of_nat (pi_now i1)) A c = Some c1"
    unfolding c1_def m_def by (rule Ping_step [OF tid proto role ready])
  let ?A1 = "pt_update b (\<lambda>_. c1) A"
  have c1: "GetConnection b ?A1 = Some c1" by (rule GetConnection_put [OF c(1)]) (simp add: c1_def c(2))
  have id: "rq_id (ping_request m False 0) = pi_random i1" unfolding m_def by (rule ping_bytes_id [OF tid])
  have r1: "cx_requests c1 = one_request (ping_request m False 0) (pi_now i1) []" "cx_remote c1 = cx_remote c"
    by (simp_all add: c1_def)
  define f where "f = (\<lambda>c :: ice_connection. c\<lparr>cx_requests := one_request (ping_request m True (of_nat (pi_now i2)))
      (pi_now i2 + CONNECTION_RESPONSE_TIMEOUT) [Packet_sent (pi_now i2) (pi_random i1) (bb_data (written_message m))]\<rparr>)"
  let ?A2 = "pt_SendTo (bb_data (written_message m)) b False (pt_update b f ?A1)"
  have del: "cx_DeliverRequest i2 b 0 ?A1 = Some ?A2"
    using Request_message_step [OF c1 id now r1(1)] r1(2) c(2) by (simp add: f_def)
  have "port_run mem [(i1, Ping b), (i2, Request_message 0 b)] A = Some ?A2"
    using c(1) ping c1 del live by (simp add: port_step_def)
  moreover have "GetConnection b ?A2 = Some (f c1)" by (simp add: GetConnection_update [OF c1] f_def)
  ultimately show ?thesis
    using r1(2) proto live
    by (intro exI [of _ ?A2] exI [of _ "f c1"] exI [of _ m] exI [of _ "of_nat (pi_now i2)"]
        exI [of _ "pi_now i2 + CONNECTION_RESPONSE_TIMEOUT"]
        exI [of _ "[Packet_sent (pi_now i2) (pi_random i1) (bb_data (written_message m))]"])
       (auto simp: m_def f_def)
qed

lemma answer_received:
  assumes r: "reads_reply mem (cd_password (cx_remote c)) STUN_BINDING_RESPONSE as tid data msg" and c: "GetConnection b A = Some c"
      "cd_address (cx_remote c) = b" and proto: "pt_protocol A = ICEPROTO_RFC5245" and live: "\<not> pt_destroyed A"
    and q: "cx_requests c = one_request (ping_request m True t) due log" "rq_id (ping_request m True t) = tid"
      "sm_type m = STUN_BINDING_REQUEST"
  shows "\<exists>A3 c3. port_run mem [(inp, Packet data b)] A = Some A3 \<and> pt_out A3 = pt_out A \<and> GetConnection b A3 = Some c3
    \<and> cx_write c3 = STATE_WRITABLE \<and> cx_state c3 = STATE_SUCCEEDED \<and> cx_pings c3 = [] \<and> rm_requests (cx_requests c3) = []"
proof -
  from r have m: "sm_type msg = STUN_BINDING_RESPONSE" "sm_tid msg = tid" by (simp_all add: reads_reply_def)
  from answer_found [OF q(1) _ q(3) m(1), of inp A] q(2) m(2) obtain c1 rtt requests where
    c1: "cx_CheckResponse inp msg A c = (False, c1)" "rm_requests requests = []"
      "c1 = (OnConnectionRequestResponse (pi_now inp) rtt c)\<lparr>cx_requests := requests\<rparr>" by auto
  have g: "GetStunMessage mem data b A = Some (Checked msg [], A)"
    using r by (auto simp: GetStunMessage_def reads_reply_def)
  have "HandlePacket mem inp data b A = Some (pt_update b (\<lambda>_. c1) A)"
    using c m r by (simp add: HandlePacket_def cx_OnReadPacket_def g cx_checked_message_def c1(1) proto reads_reply_def Let_def)
  moreover have "cx_remote c1 = cx_remote c" "cx_write c1 = STATE_WRITABLE" "cx_state c1 = STATE_SUCCEEDED" "cx_pings c1 = []"
    by (simp_all add: c1(3) OnConnectionRequestResponse_def Let_def set_state_def set_write_state_def cx_CheckTimeout_def cx_note_def)
  ultimately show ?thesis
    using GetConnection_put [OF c(1), of c1] c(2) c1(2,3) live
    by (intro exI [of _ "pt_update b (\<lambda>_. c1) A"] exI [of _ c1]) (simp add: port_step_def)
qed

text \<open>
  Two ports that know each other: standard ICE, each with a role and a connection to the other under its user name, and on the side that pings the password of the other and no ping outstanding.
\<close>

definition ice_peers ::
    "socket_address \<Rightarrow> ice_port \<Rightarrow> ice_connection \<Rightarrow> socket_address \<Rightarrow> ice_port \<Rightarrow> ice_connection \<Rightarrow> bool" where
  "ice_peers a A cA b B cB \<longleftrightarrow>
     pt_protocol A = ICEPROTO_RFC5245 \<and> pt_protocol B = ICEPROTO_RFC5245
     \<and> pt_role A \<noteq> ROLE_UNKNOWN \<and> pt_role B \<noteq> ROLE_UNKNOWN
     \<and> \<not> pt_destroyed A \<and> \<not> pt_destroyed B
     \<and> GetConnection b A = Some cA \<and> cd_address (cx_remote cA) = b \<and> cx_connected cA
     \<and> cx_requests cA = StunRequestManager \<and> cx_local_candidate A cA \<noteq> None
     \<and> cd_username (cx_remote cA) = pt_ufrag B \<and> cd_password (cx_remote cA) = pt_password B
     \<and> GetConnection a B = Some cB \<and> cd_address (cx_remote cB) = a \<and> wf_address a
     \<and> cd_username (cx_remote cB) = pt_ufrag A \<and> 58 \<notin> set (pt_ufrag B)
     \<and> length (pt_ufrag A) + length (pt_ufrag B) < 900"

text \<open>The ping that leaves the first port is a check the second accepts.\<close>

lemma ping_checks:
  assumes mem: "length mem = 64" and peers: "ice_peers a A cA b B cB" and tid: "length (pi_random i1) = 12"
    and now: "pi_now i1 \<le> pi_now i2"
  shows "\<exists>A2 c2 m t due log msg. port_run mem [(i1, Ping b), (i2, Request_message 0 b)] A = Some A2
    \<and> pt_out A2 = pt_out A @ [Port_sent (bb_data (written_message m)) b False]
    \<and> GetConnection b A2 = Some c2 \<and> cx_remote c2 = cx_remote cA \<and> cx_requests c2 = one_request (ping_request m True t) due log
    \<and> pt_protocol A2 = ICEPROTO_RFC5245 \<and> \<not> pt_destroyed A2
    \<and> reads_ping mem (pt_password B) (pt_ufrag B @ 58 # pt_ufrag A) (pi_random i1) (role_claim A) (bb_data (written_message m)) msg
    \<and> rq_id (ping_request m True t) = pi_random i1 \<and> sm_type m = STUN_BINDING_REQUEST"
proof -
  from peers have A: "pt_protocol A = ICEPROTO_RFC5245" "pt_role A \<noteq> ROLE_UNKNOWN" "\<not> pt_destroyed A"
      "GetConnection b A = Some cA" "cd_address (cx_remote cA) = b" "cx_connected cA" "cx_requests cA = StunRequestManager"
      "cx_local_candidate A cA \<noteq> None" "cd_username (cx_remote cA) = pt_ufrag B" "cd_password (cx_remote cA) = pt_password B"
    and B: "pt_protocol B = ICEPROTO_RFC5245" "pt_role B \<noteq> ROLE_UNKNOWN" "\<not> pt_destroyed B" "GetConnection a B = Some cB"
      "cd_address (cx_remote cB) = a" "cd_username (cx_remote cB) = pt_ufrag A" "wf_address a" "58 \<notin> set (pt_ufrag B)"
    and AB: "length (pt_ufrag A) + length (pt_ufrag B) < 900"
    by (simp_all add: ice_peers_def)
  from ping_sent [OF tid A(1,2,4,5,3,6-8) now, of mem] obtain A2 c2 m t due log where
    A2: "port_run mem [(i1, Ping b), (i2, Request_message 0 b)] A = Some A2"
      "pt_out A2 = pt_out A @ [Port_sent (bb_data (written_message m)) b False]"
    and m: "m = ping_bytes mem (pi_random i1) A cA (of_nat (pi_now i1))"
    and c2: "GetConnection b A2 = Some c2" "cx_remote c2 = cx_remote cA" "cx_requests c2 = one_request (ping_request m True t) due log"
      "pt_protocol A2 = ICEPROTO_RFC5245" "\<not> pt_destroyed A2"
    by blast
  let ?check = "bb_data (written_message m)"
  have size: "length (pt_ufrag B @ 58 # pt_ufrag A) < 1000" using AB by simp
  from ping_reads [OF mem A(1) tid size, of "cA\<lparr>cx_last_ping_sent := of_nat (pi_now i1), cx_pings := cx_pings cA @ [of_nat (pi_now i1)]\<rparr>"
      "the (cx_local_candidate A cA)"] obtain msg where
    msg: "reads_ping mem (pt_password B) (pt_ufrag B @ 58 # pt_ufrag A) (pi_random i1) (role_claim A) ?check msg"
    unfolding m ping_bytes_def by (auto simp: A(9,10))
  have "rq_id (ping_request m True t) = pi_random i1" unfolding m by (rule ping_bytes_id [OF tid])
  moreover have "sm_type m = STUN_BINDING_REQUEST" by (simp add: m ping_bytes_def ping_Prepare_keeps)
  ultimately show ?thesis using A2 c2 msg by blast
qed

lemma check_succeeds:
  assumes mem: "length mem = 64" and peers: "ice_peers a A cA b B cB" and tid: "length (pi_random i1) = 12"
    and now: "pi_now i1 \<le> pi_now i2" and differ: "pt_role A \<noteq> pt_role B"
  shows "\<exists>A2 B2 A3 check answer c3 c2.
    port_run mem [(i1, Ping b), (i2, Request_message 0 b)] A = Some A2 \<and> pt_out A2 = pt_out A @ [Port_sent check b False]
    \<and> port_run mem [(i3, Packet check a)] B = Some B2 \<and> pt_out B2 = pt_out B @ [Port_sent answer a False]
    \<and> port_run mem [(i4, Packet answer b)] A2 = Some A3
    \<and> GetConnection a B2 = Some c2 \<and> cx_read c2 = STATE_READABLE
    \<and> (pt_role B = ROLE_CONTROLLED \<longrightarrow> Use_candidate \<in> set (cx_signals c2))
    \<and> GetConnection b A3 = Some c3 \<and> cx_write c3 = STATE_WRITABLE \<and> cx_state c3 = STATE_SUCCEEDED
    \<and> cx_pings c3 = [] \<and> rm_requests (cx_requests c3) = []"
proof -
  from peers have A: "pt_protocol A = ICEPROTO_RFC5245" "pt_role A \<noteq> ROLE_UNKNOWN" "\<not> pt_destroyed A"
      "GetConnection b A = Some cA" "cd_address (cx_remote cA) = b" "cx_connected cA" "cx_requests cA = StunRequestManager"
      "cx_local_candidate A cA \<noteq> None" "cd_username (cx_remote cA) = pt_ufrag B" "cd_password (cx_remote cA) = pt_password B"
    and B: "pt_protocol B = ICEPROTO_RFC5245" "pt_role B \<noteq> ROLE_UNKNOWN" "\<not> pt_destroyed B" "GetConnection a B = Some cB"
      "cd_address (cx_remote cB) = a" "cd_username (cx_remote cB) = pt_ufrag A" "wf_address a" "58 \<notin> set (pt_ufrag B)"
    and AB: "length (pt_ufrag A) + length (pt_ufrag B) < 900"
    by (simp_all add: ice_peers_def)
  from ping_checks [OF mem peers tid now] obtain A2 c2 m t due log msg where
    A2: "port_run mem [(i1, Ping b), (i2, Request_message 0 b)] A = Some A2"
      "pt_out A2 = pt_out A @ [Port_sent (bb_data (written_message m)) b False]"
    and c2: "GetConnection b A2 = Some c2" "cx_remote c2 = cx_remote cA" "cx_requests c2 = one_request (ping_request m True t) due log"
      "pt_protocol A2 = ICEPROTO_RFC5245" "\<not> pt_destroyed A2"
    and msg: "reads_ping mem (pt_password B) (pt_ufrag B @ 58 # pt_ufrag A) (pi_random i1) (role_claim A)
        (bb_data (written_message m)) msg"
    and m: "rq_id (ping_request m True t) = pi_random i1" "sm_type m = STUN_BINDING_REQUEST"
    by blast
  let ?check = "bb_data (written_message m)"
  have roles: "fst (role_claim A) \<noteq> ROLE_UNKNOWN" "fst (role_claim A) \<noteq> pt_role B"
    using A(2) B(2) differ by (cases "pt_role A"; auto simp: role_claim_def)+
  have claim: "remote_role msg = Some (role_claim A)" using msg by (simp add: reads_ping_def)
  have pass: "MaybeIceRoleConflict mem a msg (pt_ufrag A) B = Some (True, B\<lparr>pt_out := pt_out B @ []\<rparr>)"
    using no_conflict [OF claim B(2) roles(2,1) B(1)] by simp
  have ctl: "fst (role_claim A) = ROLE_CONTROLLING" if "pt_role B = ROLE_CONTROLLED"
    using that roles by (cases "fst (role_claim A)") auto
  from check_received [OF msg mem tid B(1,8,3,4-7) pass, of i3] obtain B2 answer ma cB2 where
    B2: "port_run mem [(i3, Packet ?check a)] B = Some B2" "pt_out B2 = pt_out B @ [] @ [Port_sent answer a False]"
      "\<exists>as. reads_reply mem (pt_password B) STUN_BINDING_RESPONSE as (pi_random i1) answer ma" "GetConnection a B2 = Some cB2"
      "cx_read cB2 = STATE_READABLE"
      "pt_role B = ROLE_CONTROLLED \<and> fst (role_claim A) = ROLE_CONTROLLING \<longrightarrow> Use_candidate \<in> set (cx_signals cB2)"
    by blast
  obtain as where "reads_reply mem (cd_password (cx_remote c2)) STUN_BINDING_RESPONSE as (pi_random i1) answer ma"
    using B2(3) A(10) c2(2) by auto
  from answer_received [OF this c2(1) _ c2(4,5,3) m, of i4] A(5) c2(2) obtain A3 c3 where
    "port_run mem [(i4, Packet answer b)] A2 = Some A3" "GetConnection b A3 = Some c3" "cx_write c3 = STATE_WRITABLE"
      "cx_state c3 = STATE_SUCCEEDED" "cx_pings c3 = []" "rm_requests (cx_requests c3) = []"
    by auto
  moreover have "pt_out B2 = pt_out B @ [Port_sent answer a False]"
    "pt_role B = ROLE_CONTROLLED \<longrightarrow> Use_candidate \<in> set (cx_signals cB2)" using B2(2,6) ctl by simp_all
  ultimately show ?thesis using A2 B2(1,4,5) by blast
qed

text \<open>
  C18.  Two ports of standard ICE that know each other's credentials and play different roles agree on a path: the
  ping of one makes the connection of the other readable and nominates it when it comes from the controlling
  side, and the answer makes the connection of the first writable, with no ping left outstanding.
\<close>

theorem ice_check_succeeds:
  assumes "length mem = 64" and "ice_peers a A cA b B cB" and "length (pi_random i1) = 12" and "pi_now i1 \<le> pi_now i2"
    and "pt_role A \<noteq> pt_role B"
  shows "\<exists>A2 B2 A3 check answer c3 c2.
    port_run mem [(i1, Ping b), (i2, Request_message 0 b)] A = Some A2 \<and> pt_out A2 = pt_out A @ [Port_sent check b False]
    \<and> port_run mem [(i3, Packet check a)] B = Some B2 \<and> pt_out B2 = pt_out B @ [Port_sent answer a False]
    \<and> port_run mem [(i4, Packet answer b)] A2 = Some A3
    \<and> GetConnection a B2 = Some c2 \<and> cx_read c2 = STATE_READABLE
    \<and> (pt_role B = ROLE_CONTROLLED \<longrightarrow> Use_candidate \<in> set (cx_signals c2))
    \<and> GetConnection b A3 = Some c3 \<and> cx_write c3 = STATE_WRITABLE \<and> cx_state c3 = STATE_SUCCEEDED
    \<and> cx_pings c3 = [] \<and> rm_requests (cx_requests c3) = []"
  by (rule check_succeeds [OF assms])

section \<open>Two sample ports\<close>

definition sample_a :: socket_address where "sample_a = SocketAddress_ip (IPAddress_v4 1) 5000"
definition sample_b :: socket_address where "sample_b = SocketAddress_ip (IPAddress_v4 2) 6000"

definition sample_candidate :: "socket_address \<Rightarrow> bytes \<Rightarrow> bytes \<Rightarrow> candidate" where
  "sample_candidate addr ufrag password =
     Candidate_new\<lparr>cd_protocol := string_bytes ''udp'', cd_type := string_bytes ''local'', cd_address := addr,
       cd_username := ufrag, cd_password := password\<rparr>"

definition sample_port :: "socket_address \<Rightarrow> bytes \<Rightarrow> bytes \<Rightarrow> transport_role \<Rightarrow> ice_port" where
  "sample_port addr ufrag password role =
     (Port_shared [] (sa_ip addr) ufrag password)
       \<lparr>pt_protocol := ICEPROTO_RFC5245, pt_role := role, pt_candidates := [sample_candidate addr ufrag password]\<rparr>"

definition sample_A :: ice_port where "sample_A = sample_port sample_a [97] [112] ROLE_CONTROLLING"
definition sample_B :: ice_port where "sample_B = sample_port sample_b [98] [113] ROLE_CONTROLLED"

definition sample_inp :: port_input where
  "sample_inp = \<lparr>pi_now = 1000, pi_random = replicate 12 7, pi_sent = 1, pi_error = 0\<rparr>"

definition with_connection :: "candidate \<Rightarrow> ice_port \<Rightarrow> ice_port" where
  "with_connection cand p = p\<lparr>pt_connections := [Connection_new 0 cand], pt_out := [Connection_created (cd_address cand)]\<rparr>"

lemma sample_families [simp]: "ip_family (sa_ip sample_a) = AF_INET" "ip_family (sa_ip sample_b) = AF_INET"
  by code_simp+

lemma sample_created:
  "port_run mem [(sample_inp, Create_connection (sample_candidate sample_b [98] [113]))] sample_A
    = Some (with_connection (sample_candidate sample_b [98] [113]) sample_A)"
  by (simp add: port_step_def sample_A_def sample_port_def Port_shared_def GetConnection_def CreateConnection_def
      sample_candidate_def Candidate_new_def IsCompatibleAddress_def
      AddConnection_def with_connection_def pt_note_def Connection_new_def)

lemma GetConnection_sample: "GetConnection (cd_address cand) (with_connection cand p) = Some (Connection_new 0 cand)"
  by (simp add: GetConnection_def with_connection_def Connection_new_def)

text \<open>The two ports with their connections to each other.\<close>

definition sample_peer_A :: ice_port where
  "sample_peer_A = with_connection (sample_candidate sample_b [98] [113]) sample_A"

definition sample_peer_B :: ice_port where
  "sample_peer_B = with_connection (sample_candidate sample_a [97] [112]) sample_B"

lemma sample_peers:
  "GetConnection sample_b sample_peer_A = Some (Connection_new 0 (sample_candidate sample_b [98] [113]))"
  "GetConnection sample_a sample_peer_B = Some (Connection_new 0 (sample_candidate sample_a [97] [112]))"
  using GetConnection_sample [of "sample_candidate sample_b [98] [113]"] GetConnection_sample [of "sample_candidate sample_a [97] [112]"]
  by (simp_all add: sample_candidate_def sample_peer_A_def sample_peer_B_def)

lemma sample_roles: "pt_role sample_peer_A = ROLE_CONTROLLING" "pt_role sample_peer_B = ROLE_CONTROLLED"
  by (simp_all add: sample_peer_A_def sample_peer_B_def with_connection_def sample_A_def sample_B_def sample_port_def)

lemma sample_ice_peers:
  "ice_peers sample_a sample_peer_A (Connection_new 0 (sample_candidate sample_b [98] [113]))
     sample_b sample_peer_B (Connection_new 0 (sample_candidate sample_a [97] [112]))"
proof -
  have f: "pt_protocol sample_peer_A = ICEPROTO_RFC5245" "pt_protocol sample_peer_B = ICEPROTO_RFC5245"
    "\<not> pt_destroyed sample_peer_A" "\<not> pt_destroyed sample_peer_B" "pt_ufrag sample_peer_A = [97]"
    "pt_ufrag sample_peer_B = [98]" "pt_password sample_peer_B = [113]"
    "cx_local_candidate sample_peer_A (Connection_new 0 cand) \<noteq> None" "wf_address sample_a" for cand
    by (simp_all add: sample_peer_A_def sample_peer_B_def with_connection_def sample_A_def sample_B_def sample_port_def
        Port_shared_def cx_local_candidate_def Connection_new_def) (simp add: sample_a_def)
  show ?thesis by (simp add: ice_peers_def f sample_peers sample_roles) (simp add: Connection_new_def sample_candidate_def)
qed

theorem ice_check_succeeds_witness:
  "\<exists>A2 B2 A3 check answer c3 c2.
    port_run (replicate 64 0) [(sample_inp, Ping sample_b), (sample_inp, Request_message 0 sample_b)] sample_peer_A = Some A2
    \<and> pt_out A2 = pt_out sample_peer_A @ [Port_sent check sample_b False]
    \<and> port_run (replicate 64 0) [(sample_inp, Packet check sample_a)] sample_peer_B = Some B2
    \<and> pt_out B2 = pt_out sample_peer_B @ [Port_sent answer sample_a False]
    \<and> port_run (replicate 64 0) [(sample_inp, Packet answer sample_b)] A2 = Some A3
    \<and> GetConnection sample_a B2 = Some c2 \<and> cx_read c2 = STATE_READABLE
    \<and> (pt_role sample_peer_B = ROLE_CONTROLLED \<longrightarrow> Use_candidate \<in> set (cx_signals c2))
    \<and> GetConnection sample_b A3 = Some c3 \<and> cx_write c3 = STATE_WRITABLE \<and> cx_state c3 = STATE_SUCCEEDED
    \<and> cx_pings c3 = [] \<and> rm_requests (cx_requests c3) = []"
  by (rule ice_check_succeeds [OF _ sample_ice_peers]) (simp_all add: sample_inp_def sample_roles)

end
