(* ===== verification/IceConsent.thy ===== *)
theory IceConsent
  imports IceCheck
begin

text \<open>
  Standard ICE keeps a port from talking to strangers.  The invariant \<open>consent\<close> traces what a
  connection accepts and sends back to packets of its remote address that were signed with the
  passwords the two sides exchanged.  \<open>E\<close> is a set of events that holds all that has happened.
\<close>

section \<open>Evidence\<close>

text \<open>A connectivity check for the port: fingerprint, user name, and integrity under the port's password.\<close>

definition valid_check :: "bytes \<Rightarrow> bytes \<Rightarrow> bytes \<Rightarrow> bytes \<Rightarrow> bool" where
  "valid_check mem ufrag password data \<longleftrightarrow>
     ValidateFingerprint data \<and> ValidateMessageIntegrity mem data password = Some True
     \<and> (\<exists>msg b u r. StunMessage_Read (StunMessage_new IceMessage) (bb_of_bytes data) = Some (msg, b)
          \<and> sm_type msg = STUN_BINDING_REQUEST \<and> GetAttribute msg STUN_ATTR_USERNAME = Some u
          \<and> attr_string u = ufrag @ 58 # r)"

text \<open>A response to the transaction \<open>tid\<close> with integrity under the password of the remote candidate.\<close>

definition valid_answer :: "bytes \<Rightarrow> bytes \<Rightarrow> bytes \<Rightarrow> bytes \<Rightarrow> bool" where
  "valid_answer mem password tid data \<longleftrightarrow>
     ValidateFingerprint data \<and> ValidateMessageIntegrity mem data password = Some True
     \<and> (\<exists>msg b. StunMessage_Read (StunMessage_new IceMessage) (bb_of_bytes data) = Some (msg, b)
          \<and> sm_type msg = STUN_BINDING_RESPONSE \<and> sm_tid msg = tid)"

type_synonym port_events = "(port_input \<times> port_event) set"

definition checked :: "bytes \<Rightarrow> ice_port \<Rightarrow> port_events \<Rightarrow> socket_address \<Rightarrow> bool" where
  "checked mem p0 E addr \<longleftrightarrow> (\<exists>inp data a. (inp, Packet data a) \<in> E \<and> sa_eq addr a
     \<and> valid_check mem (pt_ufrag p0) (pt_password p0) data)"

definition ping_tid :: "port_input \<Rightarrow> bytes" where
  "ping_tid inp = rq_id (StunRequest_new (StunMessage_new IceMessage) (pi_random inp))"

definition pinged :: "port_events \<Rightarrow> socket_address \<Rightarrow> bytes \<Rightarrow> bool" where
  "pinged E addr tid \<longleftrightarrow> (\<exists>inp a. (inp, Ping a) \<in> E \<and> sa_eq addr a \<and> tid = ping_tid inp)"

definition answered :: "bytes \<Rightarrow> port_events \<Rightarrow> candidate \<Rightarrow> bool" where
  "answered mem E cand \<longleftrightarrow> (\<exists>inp data a tid. (inp, Packet data a) \<in> E \<and> sa_eq (cd_address cand) a
     \<and> pinged E (cd_address cand) tid \<and> valid_answer mem (cd_password cand) tid data)"

definition known :: "port_events \<Rightarrow> candidate \<Rightarrow> bool" where
  "known E cand \<longleftrightarrow> (\<exists>inp. (inp, Create_connection cand) \<in> E \<or> (\<exists>n. (inp, Accept_unknown n cand) \<in> E))"

definition data_signals :: "ice_connection \<Rightarrow> bytes set" where
  "data_signals c = {d. Data_received d \<in> set (cx_signals c)}"

definition requests_ok :: "port_events \<Rightarrow> socket_address \<Rightarrow> request_manager \<Rightarrow> bool" where
  "requests_ok E addr s \<longleftrightarrow> (\<forall>(tid, r) \<in> set (rm_requests s). rq_id r = tid \<and> pinged E addr tid)"

definition connection_ok :: "bytes \<Rightarrow> ice_port \<Rightarrow> port_events \<Rightarrow> ice_connection \<Rightarrow> bool" where
  "connection_ok mem p0 E c \<longleftrightarrow>
     (cx_read c = STATE_READABLE \<or> data_signals c \<noteq> {} \<longrightarrow> checked mem p0 E (cd_address (cx_remote c)))
     \<and> (cx_write c = STATE_WRITABLE \<or> cx_write c = STATE_WRITE_UNRELIABLE \<longrightarrow> answered mem E (cx_remote c))
     \<and> requests_ok E (cd_address (cx_remote c)) (cx_requests c)
     \<and> known E (cx_remote c)"

fun output_consent :: "bytes \<Rightarrow> ice_port \<Rightarrow> port_events \<Rightarrow> port_output \<Rightarrow> bool" where
  "output_consent mem p0 E (Unknown_address addr proto msg u) = checked mem p0 E addr"
| "output_consent mem p0 E (Port_sent data addr payload) =
     (payload \<longrightarrow> (\<exists>cand. cd_address cand = addr \<and> known E cand \<and> answered mem E cand))"
| "output_consent mem p0 E _ = True"

definition consent :: "bytes \<Rightarrow> ice_port \<Rightarrow> port_events \<Rightarrow> ice_port \<Rightarrow> bool" where
  "consent mem p0 E p \<longleftrightarrow> pt_protocol p = ICEPROTO_RFC5245 \<and> pt_ufrag p = pt_ufrag p0 \<and> pt_password p = pt_password p0
     \<and> (\<forall>c \<in> set (pt_connections p). connection_ok mem p0 E c) \<and> (\<forall>e \<in> set (pt_out p). output_consent mem p0 E e)"

section \<open>What the operations on a connection leave alone\<close>

lemma state_setters [simp]:
  "cx_read (set_read_state v c) = v" "cx_write (set_read_state v c) = cx_write c"
  "cx_write (set_write_state w c) = w" "cx_read (set_write_state w c) = cx_read c"
  "cx_remote (set_read_state v c) = cx_remote c" "cx_remote (set_write_state w c) = cx_remote c"
  "cx_requests (set_read_state v c) = cx_requests c" "cx_requests (set_write_state w c) = cx_requests c"
  "data_signals (set_read_state v c) = data_signals c" "data_signals (set_write_state w c) = data_signals c"
  by (simp_all add: set_read_state_def set_write_state_def cx_CheckTimeout_def cx_note_def data_signals_def)

lemma small_updates [simp]:
  "cx_remote (set_state s c) = cx_remote c" "cx_read (set_state s c) = cx_read c" "cx_write (set_state s c) = cx_write c"
  "cx_requests (set_state s c) = cx_requests c" "data_signals (set_state s c) = data_signals c"
  "cx_remote (cx_note e c) = cx_remote c" "cx_read (cx_note e c) = cx_read c" "cx_write (cx_note e c) = cx_write c"
  "cx_requests (cx_note e c) = cx_requests c"
  "data_signals (cx_note Use_candidate c) = data_signals c" "data_signals (cx_note State_change c) = data_signals c"
  "data_signals (cx_note (Data_received d) c) = insert d (data_signals c)"
  by (auto simp: set_state_def cx_note_def data_signals_def)

lemma data_signals_update [simp]:
  "data_signals (c\<lparr>cx_last_ping_received := a\<rparr>) = data_signals c" "data_signals (c\<lparr>cx_requests := r\<rparr>) = data_signals c"
  "data_signals (c\<lparr>cx_error := i\<rparr>) = data_signals c" "data_signals (c\<lparr>cx_send_rate := t\<rparr>) = data_signals c"
  "data_signals (c\<lparr>cx_last_data_received := a, cx_recv_rate := t\<rparr>) = data_signals c"
  "data_signals (c\<lparr>cx_pings := ps, cx_last_ping_response_received := a, cx_rtt := b\<rparr>) = data_signals c"
  "data_signals (c\<lparr>cx_nominated := n\<rparr>) = data_signals c" "data_signals (c\<lparr>cx_pruned := n\<rparr>) = data_signals c"
  "data_signals (c\<lparr>cx_pruned := n, cx_requests := r\<rparr>) = data_signals c"
  "data_signals (c\<lparr>cx_last_ping_sent := a, cx_pings := ps\<rparr>) = data_signals c"
  "data_signals (c\<lparr>cx_last_ping_sent := a, cx_pings := ps, cx_requests := r, cx_state := s\<rparr>) = data_signals c"
  by (simp_all add: data_signals_def)

text \<open>Requests only disappear, or come from a ping.\<close>

lemma set_delete: "set (AList.delete k xs) \<subseteq> set xs"
  by (simp add: AList.delete_eq filter_is_subset)

lemma rq_delete_subset: "set (rm_requests (rq_delete tid s)) \<subseteq> set (rm_requests s)"
  by (simp add: rq_delete_def rm_Remove_def Let_def set_delete)

lemma rm_note_requests [simp]: "rm_requests (rm_note e s) = rm_requests s"
  by (simp add: rm_note_def)

lemma rm_Post_requests [simp]: "rm_requests (rm_Post due tid s) = rm_requests s"
  by (simp add: rm_Post_def)

lemma requests_ok_subset: "requests_ok E addr s \<Longrightarrow> set (rm_requests s') \<subseteq> set (rm_requests s) \<Longrightarrow> requests_ok E addr s'"
  by (auto simp: requests_ok_def)

lemma requests_ok_delete: "requests_ok E addr s \<Longrightarrow> requests_ok E addr (rq_delete tid s)"
  by (rule requests_ok_subset [OF _ rq_delete_subset])

lemma requests_ok_note: "requests_ok E addr (rm_note e s) = requests_ok E addr s"
  by (simp add: requests_ok_def)

lemma requests_ok_CheckResponse: "requests_ok E addr s \<Longrightarrow> requests_ok E addr (snd (rm_CheckResponse msg s))"
  by (simp add: rm_CheckResponse_def requests_ok_delete requests_ok_note split: option.split)

lemma requests_ok_Clear: "requests_ok E addr s \<Longrightarrow> requests_ok E addr (rm_Clear s)"
proof -
  have "requests_ok E addr s \<Longrightarrow> requests_ok E addr (fold rq_delete tids s)" for tids
    by (induction tids arbitrary: s) (simp_all add: requests_ok_delete)
  then show "requests_ok E addr s \<Longrightarrow> requests_ok E addr (rm_Clear s)" by (simp add: rm_Clear_def)
qed

lemma set_update: "set (AList.update k v xs) \<subseteq> insert (k, v) (set xs)"
  by (induction xs) auto

lemma requests_ok_insert:
  "requests_ok E addr s \<Longrightarrow> pinged E addr (rq_id r) \<Longrightarrow> requests_ok E addr (rm_insert r s)"
  using set_update [of "rq_id r" r "rm_requests s"] by (fastforce simp: requests_ok_def rm_insert_def)

lemma requests_ok_Deliver:
  assumes ok: "requests_ok E addr s" and step: "rm_Deliver ping_GetNextDelay now i s = Some s'"
  shows "requests_ok E addr s'"
proof (cases "i < length (rm_messages s) \<and> fst (rm_messages s ! i) \<le> now")
  case True
  let ?tid = "snd (rm_messages s ! i)"
  obtain r s1 where r: "map_of (rm_requests s) ?tid = Some r" and s1: "rm_requests s1 = rm_requests s"
    and s': "s' = rq_Fire ping_GetNextDelay now ?tid r s1"
    using step unfolding rm_Deliver_def if_P [OF True] Let_def
    by (auto split: option.splits) (metis request_manager.select_convs(1) request_manager.surjective request_manager.update_convs(2))
  have p: "pinged E addr (rq_id r)" using ok map_of_SomeD [OF r] by (auto simp: requests_ok_def)
  have ok1: "requests_ok E addr (rm_note e s1)" for e using ok s1 by (simp add: requests_ok_def)
  have id: "rq_id (r\<lparr>rq_tstamp := t, rq_timeout := True\<rparr>) = rq_id r" for t by (simp add: rq_id_def)
  show ?thesis
    unfolding s' rq_Fire_def ping_GetNextDelay_def
    using requests_ok_delete [OF ok1] requests_ok_insert [OF ok1, of "r\<lparr>rq_tstamp := of_nat now, rq_timeout := True\<rparr>"] p id
    by (simp add: requests_ok_def)
next
  case False
  have "s' = s" using step unfolding rm_Deliver_def if_not_P [OF False] by simp
  then show ?thesis using ok by simp
qed

section \<open>Effects on a port that consent does not see\<close>

fun harmless :: "port_output \<Rightarrow> bool" where
  "harmless (Unknown_address addr proto msg u) = False"
| "harmless (Port_sent data addr payload) = (\<not> payload)"
| "harmless _ = True"

definition quiet :: "ice_port \<Rightarrow> ice_port \<Rightarrow> bool" where
  "quiet p p' \<longleftrightarrow> (\<exists>es. p' = p\<lparr>pt_out := pt_out p @ es\<rparr> \<and> (\<forall>e \<in> set es. harmless e))"

lemma harmless_consent: "harmless e \<Longrightarrow> output_consent mem p0 E e"
  by (cases e) auto

lemma quiet_refl [simp]: "quiet p p"
  by (auto simp: quiet_def intro: exI [of _ "[]"])

lemma quiet_note [simp]: "harmless e \<Longrightarrow> quiet p (pt_note e p)"
  by (auto simp: quiet_def pt_note_def)

lemma quiet_trans: "quiet p q \<Longrightarrow> quiet q r \<Longrightarrow> quiet p r"
proof -
  assume pq: "quiet p q" and qr: "quiet q r"
  from pq obtain es where es: "q = p\<lparr>pt_out := pt_out p @ es\<rparr>" "\<forall>e \<in> set es. harmless e" unfolding quiet_def by blast
  from qr obtain fs where fs: "r = q\<lparr>pt_out := pt_out q @ fs\<rparr>" "\<forall>e \<in> set fs. harmless e" unfolding quiet_def by blast
  show ?thesis unfolding quiet_def by (rule exI [of _ "es @ fs"]) (use es fs in auto)
qed

lemma quiet_keeps:
  assumes "quiet p p'"
  shows "pt_connections p' = pt_connections p" "pt_protocol p' = pt_protocol p" "pt_ufrag p' = pt_ufrag p"
    "pt_password p' = pt_password p" "GetConnection addr p' = GetConnection addr p"
    "pt_role p' = pt_role p" "pt_destroyed p' = pt_destroyed p"
  using assms by (auto simp: quiet_def GetConnection_def)

lemma quiet_consent: "consent mem p0 E p \<Longrightarrow> quiet p p' \<Longrightarrow> consent mem p0 E p'"
  by (auto simp: consent_def quiet_def harmless_consent)

lemma quiet_SendTo [simp]: "quiet p (pt_SendTo data addr False p)"
  by (simp add: pt_SendTo_def)

lemma quiet_SendTos: "quiet p (fold (\<lambda>data. pt_SendTo data addr False) ds p)"
  by (induction ds arbitrary: p) (auto intro: quiet_trans [OF quiet_SendTo])

lemma quiet_error: "SendBindingErrorResponse mem msg addr code reason p = Some p' \<Longrightarrow> quiet p p'"
  by (auto simp: SendBindingErrorResponse_def Let_def split: if_splits)

lemma quiet_request: "check_binding_request mem data addr msg p = Some (r, p') \<Longrightarrow> quiet p p'"
  by (auto simp: check_binding_request_def Let_def quiet_error split: if_splits bind_splits option.splits prod.splits)

lemma quiet_GetStunMessage: "GetStunMessage mem data addr p = Some (r, p') \<Longrightarrow> quiet p p'"
  by (auto simp: GetStunMessage_def quiet_request split: if_splits option.splits)

lemma quiet_conflict: "MaybeIceRoleConflict mem addr msg u p = Some (ok, p') \<Longrightarrow> quiet p p'"
  by (auto simp: MaybeIceRoleConflict_def Let_def quiet_error
      split: if_splits bind_splits option.splits prod.splits transport_role.splits)

section \<open>What a checked message proves\<close>

lemma find_char_split: "find_char c s = Some n \<Longrightarrow> take n s = t \<Longrightarrow> s = t @ c # drop (Suc n) s"
  by (induction s arbitrary: n t) (auto split: if_splits)

lemma request_evidence:
  assumes "check_binding_request mem data addr msg p = Some (Checked m u, p')" and "pt_protocol p = ICEPROTO_RFC5245"
  shows "m = msg \<and> ValidateMessageIntegrity mem data (pt_password p) = Some True
    \<and> (\<exists>un. GetAttribute msg STUN_ATTR_USERNAME = Some un \<and> attr_string un = pt_ufrag p @ 58 # u)"
  using assms
  by (auto simp: check_binding_request_def Let_def username_fragment_def ParseStunUsername_def intro: find_char_split
      split: if_splits bind_splits option.splits prod.splits)

lemma GetStunMessage_evidence:
  assumes "GetStunMessage mem data addr p = Some (Checked msg u, p')" and "pt_protocol p = ICEPROTO_RFC5245"
  shows "ValidateFingerprint data" "\<exists>b. StunMessage_Read (StunMessage_new IceMessage) (bb_of_bytes data) = Some (msg, b)"
    "sm_type msg = STUN_BINDING_REQUEST \<Longrightarrow> valid_check mem (pt_ufrag p) (pt_password p) data"
proof -
  from assms show f: "ValidateFingerprint data" by (simp add: GetStunMessage_def split: if_splits)
  from assms f obtain m b where rd: "StunMessage_Read (StunMessage_new IceMessage) (bb_of_bytes data) = Some (m, b)"
    by (auto simp: GetStunMessage_def split: option.splits)
  from assms f rd have m: "m = msg" and req: "sm_type msg = STUN_BINDING_REQUEST \<Longrightarrow>
      check_binding_request mem data addr msg p = Some (Checked msg u, p')"
    using request_evidence [of mem data addr m p msg u p']
    by (auto simp: GetStunMessage_def split: if_splits)
  from rd m show "\<exists>b. StunMessage_Read (StunMessage_new IceMessage) (bb_of_bytes data) = Some (msg, b)" by blast
  assume "sm_type msg = STUN_BINDING_REQUEST"
  with request_evidence [OF req assms(2)] f rd m show "valid_check mem (pt_ufrag p) (pt_password p) data"
    unfolding valid_check_def by auto
qed

section \<open>Evidence for one connection\<close>

lemma checked_eq: "checked mem p0 E a \<Longrightarrow> sa_eq b a \<Longrightarrow> checked mem p0 E b"
  unfolding checked_def using sa_eq_trans by blast

lemma connection_ok_weaker:
  assumes "connection_ok mem p0 E c" and "cx_remote c' = cx_remote c" and "data_signals c' = data_signals c"
    and "cx_read c' = cx_read c \<or> cx_read c' = STATE_READ_TIMEOUT"
    and "cx_write c' \<in> {cx_write c, STATE_WRITE_INIT, STATE_WRITE_TIMEOUT}
      \<or> cx_write c = STATE_WRITABLE \<and> cx_write c' = STATE_WRITE_UNRELIABLE"
    and "requests_ok E (cd_address (cx_remote c)) (cx_requests c')"
  shows "connection_ok mem p0 E c'"
  using assms by (auto simp: connection_ok_def)

lemma connection_ok_requests: "connection_ok mem p0 E c \<Longrightarrow> requests_ok E (cd_address (cx_remote c)) (cx_requests c)"
  by (simp add: connection_ok_def)

lemma connection_ok_restart: "connection_ok mem p0 E c \<Longrightarrow> connection_ok mem p0 E (cx_restart c)"
  by (frule connection_ok_requests, erule connection_ok_weaker) (auto simp: cx_restart_def)

lemma connection_ok_ReceivedPing:
  "connection_ok mem p0 E c \<Longrightarrow> checked mem p0 E (cd_address (cx_remote c)) \<Longrightarrow> connection_ok mem p0 E (ReceivedPing now c)"
  by (simp add: connection_ok_def ReceivedPing_def)

lemma connection_ok_nominate: "connection_ok mem p0 E c \<Longrightarrow> connection_ok mem p0 E (cx_note Use_candidate c)"
  by (simp add: connection_ok_def)

lemma connection_ok_data: "connection_ok mem p0 E c \<Longrightarrow> connection_ok mem p0 E (cx_data now data c)"
proof -
  assume ok: "connection_ok mem p0 E c"
  have "connection_ok mem p0 E (cx_note (Data_received data)
      (c\<lparr>cx_last_data_received := of_nat now, cx_recv_rate := rt_Update (of_nat (length data)) (cx_recv_rate c)\<rparr>))"
    if "cx_read c = STATE_READABLE"
    using ok that by (simp add: connection_ok_def)
  then show ?thesis using ok by (simp add: cx_data_def connection_ok_restart)
qed

lemma connection_ok_UpdateState: "connection_ok mem p0 E c \<Longrightarrow> connection_ok mem p0 E (cx_UpdateState now c)"
proof -
  have r: "connection_ok mem p0 E (update_read_state now c)" if "connection_ok mem p0 E c" for c
    by (rule connection_ok_weaker [OF that])
       (use connection_ok_requests [OF that] in \<open>auto simp: update_read_state_def\<close>)
  have u: "connection_ok mem p0 E (update_unreliable rtt now c)" if "connection_ok mem p0 E c" for c rtt
    by (rule connection_ok_weaker [OF that])
       (use connection_ok_requests [OF that] in \<open>auto simp: update_unreliable_def\<close>)
  have w: "connection_ok mem p0 E (update_write_timeout now c)" if "connection_ok mem p0 E c" for c
    by (rule connection_ok_weaker [OF that])
       (use connection_ok_requests [OF that] in \<open>auto simp: update_write_timeout_def\<close>)
  show "connection_ok mem p0 E c \<Longrightarrow> connection_ok mem p0 E (cx_UpdateState now c)"
    by (simp add: cx_UpdateState_def Let_def r u w)
qed

lemma connection_ok_Prune: "connection_ok mem p0 E c \<Longrightarrow> connection_ok mem p0 E (cx_Prune c)"
  by (frule connection_ok_requests, erule connection_ok_weaker) (auto simp: cx_Prune_def requests_ok_Clear)

lemma connection_ok_Destroy: "connection_ok mem p0 E c \<Longrightarrow> connection_ok mem p0 E (cx_Destroy c)"
  by (frule connection_ok_requests, erule connection_ok_weaker) (auto simp: cx_Destroy_def)

lemma Construct_id: "rq_Construct prepare r = Some r1 \<Longrightarrow> (\<And>m. sm_tid (prepare m) = sm_tid m) \<Longrightarrow> rq_id r1 = rq_id r"
  by (auto simp: rq_Construct_def rq_id_def Let_def split: if_splits)

lemma requests_ok_Send:
  assumes "rm_Send prepare now r s = Some s'" and "\<And>m. sm_tid (prepare m) = sm_tid m"
    and "requests_ok E addr s" and "pinged E addr (rq_id r)"
  shows "requests_ok E addr s'"
proof -
  from assms(1) obtain r1 where r1: "rq_Construct prepare (r\<lparr>rq_managed := True\<rparr>) = Some r1"
      "s' = rm_Post (now + 0) (rq_id r1) (rm_insert r1 s)"
    unfolding rm_Send_def rm_SendDelayed_def by (simp split: if_splits option.splits)
  from Construct_id [OF r1(1) assms(2)] have "rq_id r1 = rq_id r" by (simp add: rq_id_def)
  with requests_ok_insert [OF assms(3), of r1] assms(4) r1(2) show ?thesis by (simp add: requests_ok_def)
qed

lemma connection_ok_Ping:
  assumes "cx_Ping mem inp now p c = Some c'" and ok: "connection_ok mem p0 E c"
    and "(inp, Ping a) \<in> E" and "sa_eq (cd_address (cx_remote c)) a"
  shows "connection_ok mem p0 E c'" "cx_remote c' = cx_remote c"
proof -
  from assms(1) obtain local username requests ps where
    send: "rm_Send (ping_Prepare mem username local p (c\<lparr>cx_last_ping_sent := now, cx_pings := ps\<rparr>)) (pi_now inp)
        (StunRequest_new (StunMessage_new IceMessage) (pi_random inp)) (cx_requests c) = Some requests"
    and c': "c' = c\<lparr>cx_last_ping_sent := now, cx_pings := ps, cx_requests := requests, cx_state := STATE_INPROGRESS\<rparr>"
    by (auto simp: cx_Ping_def Let_def split: if_splits bind_splits)
  have "pinged E (cd_address (cx_remote c)) (ping_tid inp)" unfolding pinged_def using assms(3,4) by blast
  then have "requests_ok E (cd_address (cx_remote c)) requests"
    by (intro requests_ok_Send [OF send _ connection_ok_requests [OF ok]]) (simp_all add: ping_tid_def ping_Prepare_keeps(2))
  then show "connection_ok mem p0 E c'" using ok by (simp add: connection_ok_def c')
  show "cx_remote c' = cx_remote c" by (simp add: c')
qed

lemma success_is_no_error: "GetStunSuccessResponseType t \<noteq> uint STUN_BINDING_ERROR_RESPONSE"
proof
  assume "GetStunSuccessResponseType t = uint STUN_BINDING_ERROR_RESPONSE"
  then have t: "t AND 0x110 = 0" "t OR 0x100 = 0x111"
    by (auto simp: GetStunSuccessResponseType_def IsStunRequestType_def kStunTypeMask_def STUN_BINDING_ERROR_RESPONSE_def
        split: if_splits)
  have "bit (t AND 0x110) 4 = bit t 4" "bit (t OR 0x100) 4 = bit t 4" "bit (0x111 :: int) 4"
    by (simp_all add: bit_simps)
  with t show False by simp
qed

lemma CheckResponse_frame: "cx_remote (snd (cx_CheckResponse inp msg p c)) = cx_remote c"
  by (auto simp: cx_CheckResponse_def OnConnectionRequestResponse_def OnConnectionRequestErrorResponse_def
      HandleRoleConflictFromPeer_def Let_def split: option.split prod.split)

lemma connection_ok_error: "connection_ok mem p0 E c \<Longrightarrow> connection_ok mem p0 E (snd (OnConnectionRequestErrorResponse p msg c))"
  by (frule connection_ok_requests, erule connection_ok_weaker)
     (auto simp: OnConnectionRequestErrorResponse_def HandleRoleConflictFromPeer_def Let_def)

lemma connection_ok_success:
  assumes "connection_ok mem p0 E c" and "answered mem E (cx_remote c)"
  shows "connection_ok mem p0 E (OnConnectionRequestResponse now rtt c)"
proof -
  have "data_signals (OnConnectionRequestResponse now rtt c) = data_signals c"
    by (simp add: OnConnectionRequestResponse_def Let_def)
  with assms show ?thesis by (simp add: connection_ok_def OnConnectionRequestResponse_def Let_def)
qed

lemma connection_ok_rebuild:
  "connection_ok mem p0 E c \<Longrightarrow> requests_ok E (cd_address (cx_remote c)) r \<Longrightarrow> connection_ok mem p0 E (c\<lparr>cx_requests := r\<rparr>)"
  by (simp add: connection_ok_def)

lemma connection_ok_CheckResponse:
  assumes ok: "connection_ok mem p0 E c"
    and answer: "sm_type msg = STUN_BINDING_RESPONSE \<Longrightarrow> pinged E (cd_address (cx_remote c)) (sm_tid msg)
      \<Longrightarrow> answered mem E (cx_remote c)"
    and type: "sm_type msg = STUN_BINDING_RESPONSE \<or> sm_type msg = STUN_BINDING_ERROR_RESPONSE"
  shows "connection_ok mem p0 E (snd (cx_CheckResponse inp msg p c))"
proof (cases "map_of (rm_requests (cx_requests c)) (sm_tid msg)")
  case (Some r)
  obtain found requests where fr: "rm_CheckResponse msg (cx_requests c) = (found, requests)" by fastforce
  have requests: "requests_ok E (cd_address (cx_remote c)) requests"
    using requests_ok_CheckResponse [OF connection_ok_requests [OF ok], of msg] fr by simp
  have "pinged E (cd_address (cx_remote c)) (sm_tid msg)"
    using connection_ok_requests [OF ok] map_of_SomeD [OF Some] by (auto simp: requests_ok_def)
  moreover have "sm_type msg = STUN_BINDING_RESPONSE" if "uint (sm_type msg) = GetStunSuccessResponseType (rq_type r)"
    using type that success_is_no_error by metis
  ultimately have yes: "answered mem E (cx_remote c)"
    if "uint (sm_type msg) = GetStunSuccessResponseType (rq_type r)" using answer that by blast
  obtain conflict c1 where c1: "OnConnectionRequestErrorResponse p msg c = (conflict, c1)" by fastforce
  from connection_ok_error [OF ok, of p msg] c1 have err: "connection_ok mem p0 E c1" by simp
  have addr: "cx_remote c1 = cx_remote c" "cx_remote (OnConnectionRequestResponse now rtt c) = cx_remote c" for now rtt
    using c1 by (auto simp: OnConnectionRequestErrorResponse_def OnConnectionRequestResponse_def
        HandleRoleConflictFromPeer_def Let_def split: if_splits)
  show ?thesis
    using requests ok err addr
    by (auto simp: cx_CheckResponse_def Some fr c1
        intro!: connection_ok_rebuild connection_ok_success [OF ok] yes)
next
  case None
  with ok show ?thesis by (simp add: cx_CheckResponse_def)
qed

section \<open>The port\<close>

lemma consent_update:
  assumes "consent mem p0 E p"
    and "\<And>c. c \<in> set (pt_connections p) \<Longrightarrow> sa_eq (cd_address (cx_remote c)) addr \<Longrightarrow> connection_ok mem p0 E c
      \<Longrightarrow> connection_ok mem p0 E (f c)"
  shows "consent mem p0 E (pt_update addr f p)"
  using assms by (auto simp: consent_def pt_update_def)

lemma consent_update_any:
  "consent mem p0 E p \<Longrightarrow> (\<And>c. connection_ok mem p0 E c \<Longrightarrow> connection_ok mem p0 E (f c))
    \<Longrightarrow> consent mem p0 E (pt_update addr f p)"
  by (rule consent_update)

lemma consent_put: "consent mem p0 E p \<Longrightarrow> connection_ok mem p0 E c \<Longrightarrow> consent mem p0 E (pt_update addr (\<lambda>_. c) p)"
  by (rule consent_update)

lemma consent_note: "consent mem p0 E p \<Longrightarrow> output_consent mem p0 E e \<Longrightarrow> consent mem p0 E (pt_note e p)"
  by (auto simp: consent_def pt_note_def)

lemma GetConnection_SomeD: "GetConnection addr p = Some c \<Longrightarrow> c \<in> set (pt_connections p) \<and> sa_eq (cd_address (cx_remote c)) addr"
  unfolding GetConnection_def by (auto simp: find_Some_iff)

lemma consent_connection: "consent mem p0 E p \<Longrightarrow> GetConnection addr p = Some c \<Longrightarrow> connection_ok mem p0 E c"
  by (auto simp: consent_def dest: GetConnection_SomeD)

lemma consent_ping_received:
  "consent mem p0 E p \<Longrightarrow> checked mem p0 E addr \<Longrightarrow> consent mem p0 E (pt_update addr (ReceivedPing now) p)"
  by (erule consent_update) (blast intro: connection_ok_ReceivedPing checked_eq)

lemma consent_response:
  "SendBindingResponse mem inp msg addr p = Some p' \<Longrightarrow> consent mem p0 E p \<Longrightarrow> checked mem p0 E addr \<Longrightarrow> consent mem p0 E p'"
  by (auto simp: SendBindingResponse_def Let_def split: if_splits bind_splits
      intro!: consent_ping_received intro: quiet_consent)

lemma consent_request:
  assumes "cx_binding_request mem inp msg u addr p = Some p'" and "consent mem p0 E p" and "checked mem p0 E addr"
  shows "consent mem p0 E p'"
proof -
  have "pt_protocol p = ICEPROTO_RFC5245" using assms(2) by (simp add: consent_def)
  then obtain ok p1 where p1: "MaybeIceRoleConflict mem addr msg u p = Some (ok, p1)"
    using assms(1) by (auto simp: cx_binding_request_def split: bind_splits)
  then have "consent mem p0 E p1" by (rule quiet_consent [OF assms(2) quiet_conflict])
  then show ?thesis
    using assms(1,3) p1 \<open>pt_protocol p = _\<close>
    by (auto simp: cx_binding_request_def Let_def split: if_splits bind_splits
        intro!: consent_update_any connection_ok_nominate connection_ok_restart intro: consent_response)
qed

lemma consent_answer:
  assumes "consent mem p0 E p" and "(inp0, Packet data a) \<in> E" and "sa_eq (cd_address (cx_remote c)) a"
    and "connection_ok mem p0 E c" and "ValidateFingerprint data"
    and "StunMessage_Read (StunMessage_new IceMessage) (bb_of_bytes data) = Some (msg, b)"
    and "ValidateMessageIntegrity mem data (cd_password (cx_remote c)) = Some True"
    and "sm_type msg = STUN_BINDING_RESPONSE \<or> sm_type msg = STUN_BINDING_ERROR_RESPONSE"
    and "cx_CheckResponse inp msg p c = (conflict, c1)"
  shows "consent mem p0 E (pt_update (cd_address (cx_remote c)) (\<lambda>_. c1) p)"
proof -
  have "answered mem E (cx_remote c)"
    if "sm_type msg = STUN_BINDING_RESPONSE" "pinged E (cd_address (cx_remote c)) (sm_tid msg)"
    using assms(2,3,5-7) that unfolding answered_def valid_answer_def by blast
  from connection_ok_CheckResponse [OF assms(4) this assms(8), of inp p] assms(9)
  show ?thesis by (simp add: consent_put [OF assms(1)])
qed

lemma consent_checked_message:
  assumes step: "cx_checked_message mem inp data msg u c p = Some p'" and ok: "consent mem p0 E p"
    and E: "(inp, Packet data a) \<in> E" "sa_eq (cd_address (cx_remote c)) a" and c: "connection_ok mem p0 E c"
    and f: "ValidateFingerprint data" and b: "StunMessage_Read (StunMessage_new IceMessage) (bb_of_bytes data) = Some (msg, b)"
    and req: "sm_type msg = STUN_BINDING_REQUEST \<Longrightarrow> checked mem p0 E (cd_address (cx_remote c))"
  shows "consent mem p0 E p'"
proof -
  have proto: "pt_protocol p = ICEPROTO_RFC5245" using ok by (simp add: consent_def)
  consider "sm_type msg = STUN_BINDING_REQUEST"
    | "sm_type msg \<noteq> STUN_BINDING_REQUEST" "sm_type msg = STUN_BINDING_RESPONSE \<or> sm_type msg = STUN_BINDING_ERROR_RESPONSE"
    | "sm_type msg \<noteq> STUN_BINDING_REQUEST" "\<not> (sm_type msg = STUN_BINDING_RESPONSE \<or> sm_type msg = STUN_BINDING_ERROR_RESPONSE)"
    by blast
  then show ?thesis
  proof cases
    case 1
    then show ?thesis
      using step consent_request [OF _ ok req] quiet_consent [OF ok quiet_error]
      by (auto simp: cx_checked_message_def Let_def split: if_splits)
  next
    case 2
    then obtain valid where v: "ValidateMessageIntegrity mem data (cd_password (cx_remote c)) = Some valid"
      using step proto by (auto simp: cx_checked_message_def Let_def split: bind_splits if_splits)
    obtain conflict c1 where c1: "cx_CheckResponse inp msg p c = (conflict, c1)" by fastforce
    show ?thesis
    proof (cases valid)
      case True
      with v have v1: "ValidateMessageIntegrity mem data (cd_password (cx_remote c)) = Some True" by simp
      from consent_answer [OF ok E c f b v1 2(2) c1] step proto 2 v c1 True show ?thesis
        by (auto simp: cx_checked_message_def Let_def consent_note split: if_splits)
    next
      case False
      with step proto 2 v ok show ?thesis by (auto simp: cx_checked_message_def Let_def split: if_splits)
    qed
  next
    case 3
    have "checked mem p0 E (cd_address (cx_remote c))" if "cx_read c = STATE_READABLE"
      using c that by (simp add: connection_ok_def)
    with step 3 ok show ?thesis
      by (auto simp: cx_checked_message_def Let_def consent_ping_received split: if_splits)
  qed
qed

lemma consent_packet:
  assumes step: "HandlePacket mem inp data a p = Some p'" and ok: "consent mem p0 E p" and E: "(inp, Packet data a) \<in> E"
  shows "consent mem p0 E p'"
proof -
  have proto: "pt_protocol p = ICEPROTO_RFC5245" "pt_ufrag p = pt_ufrag p0" "pt_password p = pt_password p0"
    using ok by (simp_all add: consent_def)
  have check: "checked mem p0 E b" if "valid_check mem (pt_ufrag p) (pt_password p) data" "sa_eq b a" for b
    using that E proto unfolding checked_def by auto
  show ?thesis
  proof (cases "GetConnection a p")
    case (Some c)
    from GetConnection_SomeD [OF Some] have addr: "sa_eq (cd_address (cx_remote c)) a" by simp
    from step Some obtain r p1 where g: "GetStunMessage mem data (cd_address (cx_remote c)) p = Some (r, p1)"
      by (auto simp: HandlePacket_def cx_OnReadPacket_def split: bind_splits)
    have ok1: "consent mem p0 E p1" by (rule quiet_consent [OF ok quiet_GetStunMessage [OF g]])
    show ?thesis
    proof (cases r)
      case (Checked msg u)
      note e = GetStunMessage_evidence [OF g [unfolded Checked] proto(1)]
      from e(2) obtain b where b: "StunMessage_Read (StunMessage_new IceMessage) (bb_of_bytes data) = Some (msg, b)" by blast
      have m: "cx_checked_message mem inp data msg u c p1 = Some p'"
        using step Some g Checked by (simp add: HandlePacket_def cx_OnReadPacket_def)
      show ?thesis
        by (rule consent_checked_message [OF m ok1 E addr consent_connection [OF ok Some] e(1) b])
           (blast intro: check addr e(3))
    qed (use step Some g ok1 in \<open>auto simp: HandlePacket_def cx_OnReadPacket_def intro!: consent_update_any connection_ok_data\<close>)
  next
    case None
    show ?thesis
    proof (cases "pt_port_packets p")
      case False
      from step None False obtain r p1 where g: "GetStunMessage mem data a p = Some (r, p1)"
        by (auto simp: HandlePacket_def pt_OnReadPacket_def split: bind_splits)
      have ok1: "consent mem p0 E p1" by (rule quiet_consent [OF ok quiet_GetStunMessage [OF g]])
      show ?thesis
      proof (cases r)
        case (Checked msg u)
        note e = GetStunMessage_evidence [OF g [unfolded Checked] proto(1)]
        have c: "checked mem p0 E a" if "sm_type msg = STUN_BINDING_REQUEST"
          by (rule check [OF e(3) [OF that]]) simp
        show ?thesis
          using step None False g Checked ok1 c quiet_consent [OF ok1 quiet_conflict]
          by (auto simp: HandlePacket_def pt_OnReadPacket_def intro!: consent_note
              split: if_splits bind_splits)
      qed (use step None False g ok1 in \<open>auto simp: HandlePacket_def pt_OnReadPacket_def\<close>)
    qed (use step None ok in \<open>auto simp: HandlePacket_def pt_OnReadPacket_def intro!: consent_note\<close>)
  qed
qed

lemma connection_ok_new: "known E cand \<Longrightarrow> connection_ok mem p0 E (Connection_new i cand)"
  by (simp add: connection_ok_def Connection_new_def requests_ok_def StunRequestManager_def data_signals_def)

lemma consent_create:
  "CreateConnection cand p = Some p' \<Longrightarrow> consent mem p0 E p \<Longrightarrow> known E cand \<Longrightarrow> consent mem p0 E p'"
  using connection_ok_new [of E cand mem p0 0]
  by (auto simp: CreateConnection_def AddConnection_def consent_def pt_note_def split: if_splits)

lemma consent_accept:
  assumes "accept_unknown mem inp n cand p = Some p'" and ok: "consent mem p0 E p" and "(inp, Accept_unknown n cand) \<in> E"
  shows "consent mem p0 E p'"
proof (cases "p' = p")
  case False
  with assms(1) obtain addr proto msg u where n: "n < length (pt_out p)" "pt_out p ! n = Unknown_address addr proto msg u"
    and go: "\<not> (cd_address cand \<noteq> addr \<or> cd_username cand \<noteq> u \<or> GetConnection addr p \<noteq> None)"
    unfolding accept_unknown_def by (auto split: if_splits port_output.splits)
  from n have "Unknown_address addr proto msg u \<in> set (pt_out p)" by (metis nth_mem)
  with ok have c: "checked mem p0 E addr" unfolding consent_def by fastforce
  have k: "known E cand" using assms(3) unfolding known_def by blast
  from assms(1) n go obtain p1 where p1: "CreateConnection cand p = Some p1"
    "(if GetConnection addr p1 = None then Some p1
      else SendBindingResponse mem inp msg addr (pt_update addr (ReceivedPing (pi_now inp)) p1)) = Some p'"
    unfolding accept_unknown_def by (auto split: bind_splits)
  have "consent mem p0 E p1" by (rule consent_create [OF p1(1) ok k])
  with p1(2) c show ?thesis by (auto split: if_splits intro: consent_response consent_ping_received)
qed (use ok in simp)

lemma consent_send:
  assumes "cx_Send inp data addr p = Some (n, p')" and ok: "consent mem p0 E p"
  shows "consent mem p0 E p'"
proof -
  from assms(1) obtain c where c: "GetConnection addr p = Some c" by (auto simp: cx_Send_def split: bind_splits)
  have k: "connection_ok mem p0 E c" by (rule consent_connection [OF ok c])
  have sent: "consent mem p0 E (pt_SendTo data (cd_address (cx_remote c)) True p)"
    if "\<not> (cx_write c = STATE_WRITE_INIT \<or> cx_write c = STATE_WRITE_TIMEOUT)"
    unfolding pt_SendTo_def
    using k that by (intro consent_note [OF ok]) (cases "cx_write c"; auto simp: connection_ok_def)
  have same: "connection_ok mem p0 E (c\<lparr>cx_error := i\<rparr>)" "connection_ok mem p0 E (c\<lparr>cx_send_rate := t\<rparr>)"
    if "connection_ok mem p0 E c" for c i t
    using that by (simp_all add: connection_ok_def)
  show ?thesis
    using assms(1) c sent ok
    by (auto simp: cx_Send_def Let_def same split: if_splits intro!: consent_update_any)
qed

lemma consent_request_message:
  assumes "cx_DeliverRequest inp addr i p = Some p'" and ok: "consent mem p0 E p"
  shows "consent mem p0 E p'"
proof -
  from assms(1) obtain c requests where c: "GetConnection addr p = Some c"
    and r: "rm_Deliver ping_GetNextDelay (pi_now inp) i (cx_requests c) = Some requests"
    and p': "p' = fold (\<lambda>data. pt_SendTo data (cd_address (cx_remote c)) False) (new_packets (cx_requests c) requests)
                   (pt_update addr (\<lambda>c. c\<lparr>cx_requests := requests\<rparr>) p)"
    by (auto simp: cx_DeliverRequest_def split: bind_splits)
  have "requests_ok E (cd_address (cx_remote c)) requests"
    by (rule requests_ok_Deliver [OF connection_ok_requests [OF consent_connection [OF ok c]] r])
  moreover have "sa_eq (cd_address (cx_remote c1)) (cd_address (cx_remote c))" if "sa_eq (cd_address (cx_remote c1)) addr" for c1
    using GetConnection_SomeD [OF c] that sa_eq_trans sa_eq_sym by blast
  ultimately have "requests_ok E (cd_address (cx_remote c1)) requests" if "sa_eq (cd_address (cx_remote c1)) addr" for c1
    using that sa_eq_trans unfolding requests_ok_def pinged_def by blast
  then have "consent mem p0 E (pt_update addr (\<lambda>c. c\<lparr>cx_requests := requests\<rparr>) p)"
    by (intro consent_update [OF ok] connection_ok_rebuild)
  then show ?thesis unfolding p' by (rule quiet_consent [OF _ quiet_SendTos])
qed

lemma consent_fewer:
  assumes "consent mem p0 E p" and "set cs \<subseteq> set (pt_connections p)"
  shows "consent mem p0 E (p\<lparr>pt_connections := cs\<rparr>)"
  using assms by (auto simp: consent_def)

lemma consent_CheckTimeout: "pt_CheckTimeout p = Some p' \<Longrightarrow> consent mem p0 E p \<Longrightarrow> consent mem p0 E p'"
  by (auto simp: pt_CheckTimeout_def pt_Destroy_def consent_def pt_note_def split: if_splits)

lemma consent_delete: "OnConnectionDestroyed addr p = Some p' \<Longrightarrow> consent mem p0 E p \<Longrightarrow> consent mem p0 E p'"
proof -
  assume d: "OnConnectionDestroyed addr p = Some p'" and ok: "consent mem p0 E p"
  have "consent mem p0 E (p\<lparr>pt_connections := filter (\<lambda>c. \<not> sa_eq (cd_address (cx_remote c)) addr) (pt_connections p)\<rparr>)"
    by (rule consent_fewer [OF ok]) auto
  with d show ?thesis by (auto simp: OnConnectionDestroyed_def split: if_splits intro: consent_CheckTimeout)
qed

lemma consent_ignores [simp]:
  "consent mem p0 E (p\<lparr>pt_role := r\<rparr>) = consent mem p0 E p"
  "consent mem p0 E (p\<lparr>pt_tiebreaker := t\<rparr>) = consent mem p0 E p"
  "consent mem p0 E (p\<lparr>pt_lifetime := l, pt_timers := ts\<rparr>) = consent mem p0 E p"
  "consent mem p0 E (p\<lparr>pt_timers := ts, pt_lifetime := l\<rparr>) = consent mem p0 E p"
  by (simp_all add: consent_def)

lemma consent_timeout: "pt_OnMessage (p\<lparr>pt_timers := ts\<rparr>) = Some p' \<Longrightarrow> consent mem p0 E p \<Longrightarrow> consent mem p0 E p'"
  by (rule consent_CheckTimeout [of "p\<lparr>pt_timers := ts, pt_lifetime := LT_POSTTIMEOUT\<rparr>"])
     (simp_all add: pt_OnMessage_def split: if_splits)

lemma consent_step:
  assumes step: "port_step mem e p = Some p'" and ok: "consent mem p0 E p" and E: "e \<in> E"
  shows "consent mem p0 E p'"
proof (cases "pt_destroyed p")
  case False
  obtain inp ev where e: "e = (inp, ev)" by fastforce
  have s: "port_event_step mem inp ev p = Some p'" using step False e by (simp add: port_step_def)
  note in_E = E [unfolded e]
  show ?thesis
  proof (cases ev)
    case (Packet data a)
    with s in_E ok show ?thesis by (auto intro: consent_packet)
  next
    case (Accept_unknown n cand)
    with s in_E ok show ?thesis by (auto intro: consent_accept)
  next
    case (Create_connection cand)
    then have "known E cand" using in_E unfolding known_def by blast
    with s Create_connection ok show ?thesis by (auto split: if_splits intro: consent_create)
  next
    case (Ping a)
    have "consent mem p0 E (pt_update a (\<lambda>_. c1) p)"
      if c: "GetConnection a p = Some c" and c1: "cx_Ping mem inp (of_nat (pi_now inp)) p c = Some c1" for c c1
      using connection_ok_Ping [OF c1 consent_connection [OF ok c]] in_E Ping GetConnection_SomeD [OF c]
      by (auto intro: consent_put [OF ok])
    with s Ping ok show ?thesis by (auto split: option.splits bind_splits)
  qed (use s ok in \<open>auto split: if_splits option.splits
      intro: consent_send consent_request_message consent_delete consent_timeout
      simp: cx_OnMessage_def consent_update_any connection_ok_UpdateState connection_ok_Prune connection_ok_Destroy
        pt_SetRole_def pt_SetTiebreaker_def pt_Start_def\<close>)
qed (use step ok in \<open>simp add: port_step_def\<close>)

lemma consent_run:
  "port_run mem es p = Some p' \<Longrightarrow> consent mem p0 E p \<Longrightarrow> set es \<subseteq> E \<Longrightarrow> consent mem p0 E p'"
  by (induction es arbitrary: p) (auto split: option.splits intro: consent_step)

section \<open>Consent\<close>

lemma consent_fresh:
  assumes "pt_protocol p0 = ICEPROTO_RFC5245" and "pt_connections p0 = []" and "pt_out p0 = []"
  shows "consent mem p0 E p0"
  using assms by (simp add: consent_def)

text \<open>
  C17.  However packets, calls and timers interleave, a port of standard ICE that started empty hands data of a
  connection to its client, or calls the connection readable, only when a check signed with the port's own
  password came from that address; a connection is writable only when its remote candidate has answered one
  of the port's own pings under the candidate's password; and the payload the port sends goes only to such a
  candidate, which its owner has put there.
\<close>

theorem ice_requires_consent:
  assumes "pt_protocol p0 = ICEPROTO_RFC5245" and "pt_connections p0 = []" and "pt_out p0 = []"
    and "port_run mem es p0 = Some p"
  shows "(\<forall>c \<in> set (pt_connections p).
        (cx_read c = STATE_READABLE \<or> data_signals c \<noteq> {} \<longrightarrow> checked mem p0 (set es) (cd_address (cx_remote c)))
        \<and> (cx_write c = STATE_WRITABLE \<longrightarrow> answered mem (set es) (cx_remote c)))
    \<and> (\<forall>data addr. Port_sent data addr True \<in> set (pt_out p) \<longrightarrow>
        (\<exists>cand. cd_address cand = addr \<and> known (set es) cand \<and> answered mem (set es) cand))"
proof -
  have ok: "consent mem p0 (set es) p" by (rule consent_run [OF assms(4) consent_fresh [OF assms(1-3)]]) simp
  then have out: "output_consent mem p0 (set es) (Port_sent data addr True)"
    if "Port_sent data addr True \<in> set (pt_out p)" for data addr
    using that unfolding consent_def by blast
  have "connection_ok mem p0 (set es) c" if "c \<in> set (pt_connections p)" for c
    using ok that unfolding consent_def by blast
  with out show ?thesis unfolding connection_ok_def by auto
qed

text \<open>The sample port, whose ping the other one answers.\<close>

lemma port_run_append: "port_run mem (es @ fs) p = (case port_run mem es p of None \<Rightarrow> None | Some p1 \<Rightarrow> port_run mem fs p1)"
  by (induction es arbitrary: p) (auto split: option.split)

lemma sample_answered:
  "\<exists>es p c. port_run (replicate 64 0) es sample_A = Some p \<and> c \<in> set (pt_connections p) \<and> cx_write c = STATE_WRITABLE"
proof -
  have "length (replicate 64 (0 :: uint8)) = 64" "length (pi_random sample_inp) = 12" by (simp_all add: sample_inp_def)
  moreover have "pt_role sample_peer_A \<noteq> pt_role sample_peer_B" by (simp add: sample_roles)
  ultimately obtain A2 A3 answer c3 where
    r: "port_run (replicate 64 0) [(sample_inp, Ping sample_b), (sample_inp, Request_message 0 sample_b)] sample_peer_A = Some A2"
      "port_run (replicate 64 0) [(sample_inp, Packet answer sample_b)] A2 = Some A3"
      "GetConnection sample_b A3 = Some c3" "cx_write c3 = STATE_WRITABLE"
    using check_succeeds [OF _ sample_ice_peers _ order_refl] by meson
  let ?es = "[(sample_inp, Create_connection (sample_candidate sample_b [98] [113]))]
    @ [(sample_inp, Ping sample_b), (sample_inp, Request_message 0 sample_b)] @ [(sample_inp, Packet answer sample_b)]"
  have "port_run (replicate 64 0) ?es sample_A = Some A3"
    unfolding port_run_append sample_created using r(1,2) by (simp add: sample_peer_A_def del: port_run.simps)
  moreover have "c3 \<in> set (pt_connections A3)" using GetConnection_SomeD [OF r(3)] by simp
  ultimately show ?thesis using r(4) by blast
qed

theorem ice_requires_consent_witness:
  "\<exists>es p c. port_run (replicate 64 0) es sample_A = Some p \<and> c \<in> set (pt_connections p) \<and> cx_write c = STATE_WRITABLE
     \<and> answered (replicate 64 0) (set es) (cx_remote c)"
proof -
  obtain es p c where r: "port_run (replicate 64 0) es sample_A = Some p" "c \<in> set (pt_connections p)" "cx_write c = STATE_WRITABLE"
    using sample_answered by blast
  have "pt_protocol sample_A = ICEPROTO_RFC5245" "pt_connections sample_A = []" "pt_out sample_A = []"
    by (simp_all add: sample_A_def sample_port_def Port_shared_def)
  from ice_requires_consent [OF this r(1)] r show ?thesis by blast
qed

end
