(* ===== verification/ChannelTable.thy ===== *)
theory ChannelTable
  imports IceChannel IceConsent
begin

text \<open>
  What the operations of a port and of the channel do to the table of connections.  An operation of a port
  \<open>keeps\<close> it when it only changes the connections in place and adds to its log.
\<close>

section \<open>Ports\<close>

definition addresses :: "ice_port \<Rightarrow> socket_address list" where
  "addresses p = map (\<lambda>c. cd_address (cx_remote c)) (pt_connections p)"

text \<open>What a connection never changes.\<close>

definition cx_static :: "ice_connection \<Rightarrow> candidate \<times> nat" where
  "cx_static c = (cx_remote c, cx_local_index c)"

definition keeps :: "ice_port \<Rightarrow> ice_port \<Rightarrow> bool" where
  "keeps p p' \<longleftrightarrow> map cx_static (pt_connections p') = map cx_static (pt_connections p)
     \<and> pt_network_name p' = pt_network_name p \<and> pt_candidates p' = pt_candidates p \<and> pt_protocol p' = pt_protocol p
     \<and> pt_generation p' = pt_generation p \<and> pt_role p' = pt_role p \<and> pt_destroyed p' = pt_destroyed p"

lemma keeps_refl [simp]: "keeps p p"
  by (simp add: keeps_def)

lemma keeps_trans: "keeps p q \<Longrightarrow> keeps q r \<Longrightarrow> keeps p r"
  by (simp add: keeps_def)

lemma keeps_quiet: "quiet p p' \<Longrightarrow> keeps p p'"
  by (auto simp: quiet_def keeps_def)

lemma keeps_note [simp]: "keeps p (pt_note e p)"
  by (simp add: keeps_def pt_note_def)

lemma keeps_SendTo [simp]: "keeps p (pt_SendTo data addr payload p)"
  by (simp add: pt_SendTo_def)

lemma keeps_update:
  assumes "\<And>c. c \<in> set (pt_connections p) \<Longrightarrow> sa_eq (cd_address (cx_remote c)) addr \<Longrightarrow> cx_static (f c) = cx_static c"
  shows "keeps p (pt_update addr f p)"
  using assms by (simp add: keeps_def pt_update_def)

lemma keeps_update_all: "(\<And>c. cx_static (f c) = cx_static c) \<Longrightarrow> keeps p (pt_update addr f p)"
  by (rule keeps_update)

lemma keeps_addresses: "keeps p p' \<Longrightarrow> addresses p' = addresses p"
proof -
  assume "keeps p p'"
  then have "map (cd_address \<circ> fst) (map cx_static (pt_connections p')) = map (cd_address \<circ> fst) (map cx_static (pt_connections p))"
    by (simp only: keeps_def)
  then show ?thesis by (simp add: addresses_def cx_static_def comp_def)
qed

lemma static_setters [simp]:
  "cx_static (set_read_state v c) = cx_static c" "cx_static (set_write_state w c) = cx_static c"
  "cx_static (set_state s c) = cx_static c" "cx_static (cx_note e c) = cx_static c"
  by (simp_all add: cx_static_def set_read_state_def set_write_state_def cx_CheckTimeout_def cx_note_def set_state_def)

lemma static_updates [simp]:
  "cx_static (c\<lparr>cx_last_ping_received := a\<rparr>) = cx_static c" "cx_static (c\<lparr>cx_requests := r\<rparr>) = cx_static c"
  "cx_static (c\<lparr>cx_error := i\<rparr>) = cx_static c" "cx_static (c\<lparr>cx_send_rate := t\<rparr>) = cx_static c"
  "cx_static (c\<lparr>cx_last_data_received := a, cx_recv_rate := t\<rparr>) = cx_static c"
  "cx_static (c\<lparr>cx_pings := ps, cx_last_ping_response_received := a, cx_rtt := b\<rparr>) = cx_static c"
  "cx_static (c\<lparr>cx_nominated := n\<rparr>) = cx_static c" "cx_static (c\<lparr>cx_pruned := n\<rparr>) = cx_static c"
  "cx_static (c\<lparr>cx_signals := es\<rparr>) = cx_static c"
  by (simp_all add: cx_static_def)

lemma static_operations [simp]:
  "cx_static (cx_restart c) = cx_static c" "cx_static (ReceivedPing now c) = cx_static c"
  "cx_static (cx_data now data c) = cx_static c" "cx_static (cx_UpdateState t c) = cx_static c"
  "cx_static (cx_Prune c) = cx_static c" "cx_static (cx_Destroy c) = cx_static c"
  by (simp_all add: cx_restart_def ReceivedPing_def cx_data_def cx_UpdateState_def update_read_state_def
      update_unreliable_def update_write_timeout_def cx_Prune_def cx_Destroy_def Let_def)

lemma static_remote: "cx_static c' = cx_static c \<Longrightarrow> cx_remote c' = cx_remote c"
  by (simp add: cx_static_def)

lemma static_Ping: "cx_Ping mem inp now p c = Some c' \<Longrightarrow> cx_static c' = cx_static c"
  by (auto simp: cx_Ping_def cx_static_def Let_def split: if_splits bind_splits)

lemma static_answer: "cx_static (OnConnectionRequestResponse now rtt c) = cx_static c"
  by (simp add: OnConnectionRequestResponse_def Let_def)

lemma static_error: "cx_static (snd (OnConnectionRequestErrorResponse p msg c)) = cx_static c"
  by (simp add: OnConnectionRequestErrorResponse_def HandleRoleConflictFromPeer_def Let_def)

lemma static_CheckResponse: "cx_static (snd (cx_CheckResponse inp msg p c)) = cx_static c"
  using static_error [of p msg c]
  by (auto simp: cx_CheckResponse_def static_answer Let_def split: option.split prod.split)

text \<open>Connections of a port have addresses that differ.\<close>

definition distinct_addresses :: "ice_port \<Rightarrow> bool" where
  "distinct_addresses p \<longleftrightarrow> sorted_wrt (\<lambda>a b. \<not> sa_eq a b) (addresses p)"

lemma distinct_addressesD:
  assumes "distinct_addresses p" and "a \<in> set (addresses p)" and "b \<in> set (addresses p)" and "sa_eq a b"
  shows "a = b"
proof -
  have "x = y" if "sorted_wrt (\<lambda>a b. \<not> sa_eq a b) xs" "x \<in> set xs" "y \<in> set xs" "sa_eq x y" for x y and xs :: "socket_address list"
    using that by (induction xs) (auto dest: sa_eq_sym)
  with assms show ?thesis by (auto simp: distinct_addresses_def)
qed

lemma same_connection:
  assumes "distinct_addresses p" and "c \<in> set (pt_connections p)" and "d \<in> set (pt_connections p)"
    and "sa_eq (cd_address (cx_remote c)) (cd_address (cx_remote d))"
  shows "c = d"
proof -
  have "x = y" if "sorted_wrt (\<lambda>a b. \<not> sa_eq a b) (map f xs)" "x \<in> set xs" "y \<in> set xs" "sa_eq (f x) (f y)"
    for x y :: ice_connection and f :: "ice_connection \<Rightarrow> socket_address" and xs
    using that by (induction xs) (auto dest: sa_eq_sym)
  from this [of "\<lambda>c. cd_address (cx_remote c)"] assms show ?thesis unfolding distinct_addresses_def addresses_def by blast
qed

lemma GetConnection_iff:
  "GetConnection a p \<noteq> None \<longleftrightarrow> (\<exists>b \<in> set (addresses p). sa_eq b a)"
  by (auto simp: GetConnection_def addresses_def find_None_iff)

lemma GetConnection_of: "distinct_addresses p \<Longrightarrow> c \<in> set (pt_connections p) \<Longrightarrow> GetConnection (cd_address (cx_remote c)) p = Some c"
proof (cases "GetConnection (cd_address (cx_remote c)) p")
  case None
  moreover assume "c \<in> set (pt_connections p)"
  ultimately show ?thesis using GetConnection_iff [of "cd_address (cx_remote c)" p] by (auto simp: addresses_def)
next
  case (Some d)
  moreover assume "distinct_addresses p" "c \<in> set (pt_connections p)"
  ultimately show ?thesis using GetConnection_SomeD [OF Some] same_connection by blast
qed

lemma keeps_distinct: "keeps p p' \<Longrightarrow> distinct_addresses p' = distinct_addresses p"
  by (simp add: distinct_addresses_def keeps_addresses)

lemma GetConnection_member: "GetConnection a p = Some c \<Longrightarrow> c \<in> set (pt_connections p) \<and> sa_eq (cd_address (cx_remote c)) a"
  by (rule GetConnection_SomeD)

text \<open>Putting a changed connection back in its place.\<close>

lemma keeps_put:
  assumes "distinct_addresses p" and "GetConnection a p = Some c" and "cx_static c' = cx_static c"
    and "sa_eq (cd_address (cx_remote c)) b"
  shows "keeps p (pt_update b (\<lambda>_. c') p)"
proof (rule keeps_update)
  fix d assume d: "d \<in> set (pt_connections p)" "sa_eq (cd_address (cx_remote d)) b"
  have "sa_eq (cd_address (cx_remote d)) (cd_address (cx_remote c))" using d(2) assms(4) sa_eq_trans sa_eq_sym by blast
  with d(1) GetConnection_member [OF assms(2)] same_connection [OF assms(1)] have "d = c" by blast
  then show "cx_static c' = cx_static d" using assms(3) by simp
qed

lemma keeps_response: "SendBindingResponse mem inp msg addr p = Some p' \<Longrightarrow> keeps p p'"
  by (auto simp: SendBindingResponse_def Let_def split: if_splits bind_splits
      intro: keeps_trans [OF keeps_SendTo keeps_update_all])

lemma keeps_request:
  assumes "cx_binding_request mem inp msg u addr p = Some p'"
  shows "keeps p p'"
proof -
  from assms obtain ok p1 where p1: "(if pt_protocol p = ICEPROTO_RFC5245 then MaybeIceRoleConflict mem addr msg u p
      else Some (True, p)) = Some (ok, p1)"
    by (auto simp: cx_binding_request_def split: bind_splits)
  then have k: "keeps p p1" using keeps_quiet [OF quiet_conflict] by (auto split: if_splits)
  show ?thesis
  proof (cases ok)
    case True
    with assms p1 obtain p2 where p2: "SendBindingResponse mem inp msg addr p1 = Some p2"
      "p' = (if pt_protocol p = ICEPROTO_RFC5245 \<and> pt_role p = ROLE_CONTROLLED \<and> GetAttribute msg STUN_ATTR_USE_CANDIDATE \<noteq> None
        then pt_update addr (cx_note Use_candidate) (pt_update addr cx_restart p2) else pt_update addr cx_restart p2)"
      unfolding cx_binding_request_def p1 by (simp add: Let_def split: bind_splits)
    have "keeps p2 (pt_update addr cx_restart p2)" by (rule keeps_update_all) simp
    moreover have "keeps q (pt_update addr (cx_note Use_candidate) q)" for q
      by (rule keeps_update_all) simp
    ultimately have "keeps p2 p'" using p2(2) keeps_trans by auto
    with k keeps_response [OF p2(1)] show ?thesis using keeps_trans by blast
  next
    case False
    with assms p1 k show ?thesis unfolding cx_binding_request_def p1 by simp
  qed
qed

lemma keeps_packet:
  assumes step: "HandlePacket mem inp data a p = Some p'" and d: "distinct_addresses p"
  shows "keeps p p'"
proof (cases "GetConnection a p")
  case (Some c)
  from step Some obtain r p1 where g: "GetStunMessage mem data (cd_address (cx_remote c)) p = Some (r, p1)"
    by (auto simp: HandlePacket_def cx_OnReadPacket_def split: bind_splits)
  note q = quiet_GetStunMessage [OF g]
  have k: "keeps p p1" by (rule keeps_quiet [OF q])
  have c1: "GetConnection a p1 = Some c" "distinct_addresses p1" using Some quiet_keeps(5) [OF q] keeps_distinct [OF k] d by simp_all
  show ?thesis
  proof (cases r)
    case (Checked msg u)
    have m: "cx_checked_message mem inp data msg u c p1 = Some p'"
      using step Some g Checked by (simp add: HandlePacket_def cx_OnReadPacket_def)
    obtain conflict c2 where c2: "cx_CheckResponse inp msg p1 c = (conflict, c2)" by fastforce
    have "keeps p1 (pt_update (cd_address (cx_remote c)) (\<lambda>_. c2) p1)"
      by (rule keeps_put [OF c1(2,1)]) (use static_CheckResponse [of inp msg p1 c] c2 in simp_all)
    then have "keeps p1 p'"
      using m c2 keeps_request keeps_quiet [OF quiet_error]
      by (auto simp: cx_checked_message_def Let_def split: if_splits bind_splits
          intro: keeps_trans [OF _ keeps_note] keeps_update_all)
    with k show ?thesis by (rule keeps_trans)
  next
    case Not_stun
    have "keeps p1 (pt_update (cd_address (cx_remote c)) (cx_data (pi_now inp) data) p1)" by (rule keeps_update_all) simp
    with k step Some g Not_stun show ?thesis by (auto simp: HandlePacket_def cx_OnReadPacket_def intro: keeps_trans)
  next
    case Handled
    with k step Some g show ?thesis by (auto simp: HandlePacket_def cx_OnReadPacket_def)
  qed
next
  case None
  show ?thesis
  proof (cases "pt_port_packets p")
    case False
    from step None False obtain r p1 where g: "GetStunMessage mem data a p = Some (r, p1)"
      by (auto simp: HandlePacket_def pt_OnReadPacket_def split: bind_splits)
    have k: "keeps p p1" by (rule keeps_quiet [OF quiet_GetStunMessage [OF g]])
    have kq: "keeps p q" if "MaybeIceRoleConflict mem a msg u p1 = Some (ok, q)" for msg u ok q
      by (rule keeps_trans [OF k keeps_quiet [OF quiet_conflict [OF that]]])
    have kn: "keeps p (pt_note e q)" if "keeps p q" for e q
      by (rule keeps_trans [OF that keeps_note])
    show ?thesis
      using step None False g k kq
      by (cases r) (auto simp: HandlePacket_def pt_OnReadPacket_def intro!: kn intro: k kq split: if_splits bind_splits)
  qed (use step None in \<open>auto simp: HandlePacket_def pt_OnReadPacket_def\<close>)
qed

lemma keeps_error: "SendBindingErrorResponse mem msg addr code reason p = Some p' \<Longrightarrow> keeps p p'"
  by (rule keeps_quiet [OF quiet_error])

lemma keeps_deliver: "cx_DeliverRequest inp addr i p = Some p' \<Longrightarrow> keeps p p'"
  by (auto simp: cx_DeliverRequest_def split: bind_splits
      intro!: keeps_trans [OF keeps_update_all keeps_quiet [OF quiet_SendTos]])

lemma keeps_send: "cx_Send inp data addr p = Some (n, p') \<Longrightarrow> keeps p p'"
  by (auto simp: cx_Send_def Let_def split: if_splits bind_splits
      intro!: keeps_update_all keeps_trans [OF keeps_SendTo keeps_update_all])

lemma keeps_start: "keeps p (pt_Start now p)"
  by (simp add: pt_Start_def keeps_def)

text \<open>
  The contract of an operation on a port, as its channel needs it: the table of connections stays as it is.
\<close>

locale table_operation =
  fixes op :: "'a \<Rightarrow> ice_port \<Rightarrow> ice_port option"
  assumes op_keeps: "op x p = Some p' \<Longrightarrow> distinct_addresses p \<Longrightarrow> keeps p p'"
begin

lemma op_distinct: "op x p = Some p' \<Longrightarrow> distinct_addresses p \<Longrightarrow> distinct_addresses p'"
  using op_keeps keeps_distinct by blast

end

end
