(* ===== verification/ChannelRefs.thy ===== *)
theory ChannelRefs
  imports ChannelTable "HOL-Library.Multiset"
begin

text \<open>
  The references of a channel: its list of connections is what its ports hold, without repetition, its best
  connection is one of them, and its ports are alive.  Every operation of the channel keeps this.
\<close>

section \<open>The invariant\<close>

definition port_ok :: "ice_port \<Rightarrow> bool" where
  "port_ok p \<longleftrightarrow> distinct_addresses p \<and> (pt_destroyed p \<longrightarrow> pt_connections p = []) \<and> pt_out p = []
     \<and> pt_candidates p \<noteq> [] \<and> (\<forall>c \<in> set (pt_connections p). cx_signals c = [] \<and> cx_local_index c = 0)"

definition refs_in :: "ice_port list \<Rightarrow> connection_ref set" where
  "refs_in store = {(i, a). i < length store \<and> a \<in> set (addresses (store ! i))}"

definition live_refs :: "ice_port list \<Rightarrow> connection_ref list \<Rightarrow> connection_ref option \<Rightarrow> nat list \<Rightarrow> bool" where
  "live_refs store conns best ports \<longleftrightarrow>
     (\<forall>i < length store. port_ok (store ! i)) \<and> distinct conns \<and> set conns = refs_in store
     \<and> (\<forall>r. best = Some r \<longrightarrow> r \<in> refs_in store)
     \<and> distinct ports \<and> (\<forall>i \<in> set ports. i < length store \<and> \<not> pt_destroyed (store ! i))"

definition refs_ok :: "transport_channel \<Rightarrow> bool" where
  "refs_ok ch \<longleftrightarrow> live_refs (tc_store ch) (tc_connections ch) (tc_best ch) (tc_ports ch)"

text \<open>What stays while a channel works on its connections.\<close>

definition stays :: "transport_channel \<Rightarrow> transport_channel \<Rightarrow> bool" where
  "stays ch ch' \<longleftrightarrow> list_all2 keeps (tc_store ch) (tc_store ch')
     \<and> tc_connections ch' = tc_connections ch \<and> tc_ports ch' = tc_ports ch"

lemma stays_refl [simp]: "stays ch ch"
  by (simp add: stays_def list_all2_refl)

lemma stays_trans: "stays a b \<Longrightarrow> stays b c \<Longrightarrow> stays a c"
  unfolding stays_def using list_all2_trans [of keeps keeps keeps "tc_store a" "tc_store b" "tc_store c"] keeps_trans by auto

lemma refs_in_keeps: "list_all2 keeps store store' \<Longrightarrow> refs_in store' = refs_in store"
  by (auto simp: refs_in_def list_all2_conv_all_nth keeps_addresses)

lemma stays_refs: "stays ch ch' \<Longrightarrow> refs_in (tc_store ch') = refs_in (tc_store ch)"
  by (simp add: stays_def refs_in_keeps)

lemma refs_ok_cong [simp]:
  "refs_ok (tc_note e ch) = refs_ok ch" "refs_ok (tc_post t m ch) = refs_ok ch" "refs_ok (RequestSort now ch) = refs_ok ch"
  "refs_ok (tc_Allocate ch) = refs_ok ch" "refs_ok (tc_set_readable b ch) = refs_ok ch"
  "refs_ok (tc_set_writable b ch) = refs_ok ch" "refs_ok (tc_OnReadPacket r data ch) = refs_ok ch"
  by (simp_all add: refs_ok_def tc_note_def tc_post_def RequestSort_def tc_Allocate_def tc_set_readable_def
      tc_set_writable_def tc_OnReadPacket_def)

lemma stays_cong [simp]:
  "stays ch0 (tc_note e ch) = stays ch0 ch" "stays ch0 (tc_post t m ch) = stays ch0 ch"
  "stays ch0 (RequestSort now ch) = stays ch0 ch" "stays ch0 (tc_Allocate ch) = stays ch0 ch"
  "stays ch0 (tc_set_readable b ch) = stays ch0 ch" "stays ch0 (tc_set_writable b ch) = stays ch0 ch"
  "stays ch0 (tc_OnReadPacket r data ch) = stays ch0 ch" "stays ch0 (tc_best_update f ch) = stays ch0 ch"
  "stays ch0 (tc_out_update g ch) = stays ch0 ch" "stays ch0 (tc_sort_dirty_update h ch) = stays ch0 ch"
  by (simp_all add: stays_def tc_note_def tc_post_def RequestSort_def tc_Allocate_def tc_set_readable_def
      tc_set_writable_def tc_OnReadPacket_def)

lemma refs_ok_member: "refs_ok ch \<Longrightarrow> r \<in> set (tc_connections ch) \<longleftrightarrow> fst r < length (tc_store ch) \<and> snd r \<in> set (addresses (tc_store ch ! fst r))"
  by (cases r) (auto simp: refs_ok_def live_refs_def refs_in_def)

lemma refs_ok_port: "refs_ok ch \<Longrightarrow> i < length (tc_store ch) \<Longrightarrow> port_ok (tc_store ch ! i)"
  by (simp add: refs_ok_def live_refs_def)

lemma tc_get_member:
  assumes "refs_ok ch" and "r \<in> set (tc_connections ch)"
  obtains c where "tc_get r ch = Some c" "c \<in> set (pt_connections (tc_store ch ! fst r))" "cd_address (cx_remote c) = snd r"
proof -
  from assms have i: "fst r < length (tc_store ch)" "snd r \<in> set (addresses (tc_store ch ! fst r))"
    by (simp_all add: refs_ok_member)
  then obtain c where c: "c \<in> set (pt_connections (tc_store ch ! fst r))" "cd_address (cx_remote c) = snd r"
    by (auto simp: addresses_def)
  with GetConnection_of [of "tc_store ch ! fst r" c] refs_ok_port [OF assms(1) i(1)]
  have "tc_get r ch = Some c" using i by (simp add: tc_get_def port_ok_def)
  with that c show thesis by blast
qed

text \<open>A port changes in its place.\<close>

lemma refs_in_set_port: "addresses p = addresses (store ! i) \<Longrightarrow> refs_in (store[i := p]) = refs_in store"
proof -
  assume a: "addresses p = addresses (store ! i)"
  have "addresses (store[i := p] ! j) = addresses (store ! j)" if "j < length store" for j
    using a that by (cases "i = j") auto
  then show ?thesis by (auto simp: refs_in_def)
qed

lemma refs_ok_set_port:
  assumes "refs_ok ch" and "i < length (tc_store ch)" and "addresses p = addresses (tc_store ch ! i)"
    and "pt_destroyed p = pt_destroyed (tc_store ch ! i)" and "port_ok p"
  shows "refs_ok (tc_set_port i p ch)"
  using assms by (auto simp: refs_ok_def live_refs_def tc_set_port_def refs_in_set_port nth_list_update)

lemma refs_ok_put:
  assumes "refs_ok ch" and "i < length (tc_store ch)" and "keeps (tc_store ch ! i) p" and "port_ok p"
  shows "refs_ok (tc_set_port i p ch)"
proof (rule refs_ok_set_port [OF assms(1,2)])
  show "addresses p = addresses (tc_store ch ! i)" by (rule keeps_addresses [OF assms(3)])
  show "pt_destroyed p = pt_destroyed (tc_store ch ! i)" using assms(3) by (simp add: keeps_def)
qed (rule assms(4))

lemma stays_set_port: "i < length (tc_store ch) \<Longrightarrow> keeps (tc_store ch ! i) p \<Longrightarrow> stays ch (tc_set_port i p ch)"
  by (auto simp: stays_def tc_set_port_def list_all2_conv_all_nth nth_list_update)

lemma port_ok_keeps:
  assumes "port_ok p" and "keeps p p'" and "pt_out p' = []" and "\<And>c. c \<in> set (pt_connections p') \<Longrightarrow> cx_signals c = []"
  shows "port_ok p'"
proof -
  have m: "map cx_static (pt_connections p') = map cx_static (pt_connections p)" using assms(2) by (simp add: keeps_def)
  have "cx_local_index c = 0" if "c \<in> set (pt_connections p')" for c
  proof -
    have "cx_static c \<in> set (map cx_static (pt_connections p))" using that by (simp flip: m)
    with assms(1) show ?thesis by (auto simp: port_ok_def cx_static_def)
  qed
  moreover have "pt_connections p' = [] \<longleftrightarrow> pt_connections p = []" using m by (metis Nil_is_map_conv)
  ultimately show ?thesis using assms keeps_distinct [OF assms(2)] by (simp add: port_ok_def keeps_def)
qed

lemma keeps_without [simp]: "keeps p (without_signals p)"
  by (simp add: keeps_def without_signals_def comp_def)

lemma without_signals_quiet: "pt_out (without_signals p) = []" "c \<in> set (pt_connections (without_signals p)) \<Longrightarrow> cx_signals c = []"
  by (auto simp: without_signals_def)

text \<open>The result of an operation on a port goes back into the store.\<close>

lemma put_back:
  assumes "refs_ok ch" and "i < length (tc_store ch)" and "keeps (tc_store ch ! i) p"
  shows "refs_ok (tc_set_port i (without_signals p) (tc_out_update g ch))" "stays ch (tc_set_port i (without_signals p) (tc_out_update g ch))"
proof -
  have ok: "refs_ok (tc_out_update g ch)" using assms(1) by (simp add: refs_ok_def)
  have k: "keeps (tc_store ch ! i) (without_signals p)" by (rule keeps_trans [OF assms(3) keeps_without])
  show "refs_ok (tc_set_port i (without_signals p) (tc_out_update g ch))"
    by (rule refs_ok_put [OF ok])
       (use k assms(2) port_ok_keeps [OF refs_ok_port [OF assms(1,2)] k] without_signals_quiet in auto)
  have "stays (tc_out_update g ch) (tc_set_port i (without_signals p) (tc_out_update g ch))"
    using assms(2) k by (intro stays_set_port) simp_all
  then show "stays ch (tc_set_port i (without_signals p) (tc_out_update g ch))"
    using stays_trans [of ch "tc_out_update g ch"] by simp
qed

lemma port_signals_member:
  "(r, e) \<in> set (port_signals i p) \<Longrightarrow> fst r = i \<and> snd r \<in> set (addresses p)"
  by (auto simp: port_signals_def addresses_def)

section \<open>Signals\<close>

lemma refs_ok_nominate:
  assumes ok: "refs_ok ch" and r: "r \<in> set (tc_connections ch)"
  shows "refs_ok (tc_nominate r ch)" "stays ch (tc_nominate r ch)"
proof -
  let ?p = "tc_store ch ! fst r" and ?q = "pt_update (snd r) (\<lambda>c. c\<lparr>cx_nominated := True\<rparr>) (tc_store ch ! fst r)"
  have i: "fst r < length (tc_store ch)" using ok r by (simp add: refs_ok_member)
  have k: "keeps ?p ?q" by (rule keeps_update_all) simp
  have "port_ok ?q"
    using refs_ok_port [OF ok i] by (intro port_ok_keeps [OF _ k]) (auto simp: port_ok_def pt_update_def)
  then show "refs_ok (tc_nominate r ch)" unfolding tc_nominate_def by (rule refs_ok_put [OF ok i k])
  show "stays ch (tc_nominate r ch)" unfolding tc_nominate_def by (rule stays_set_port [OF i k])
qed

lemma refs_ok_best: "refs_ok ch \<Longrightarrow> tc_best ch = Some r \<Longrightarrow> r \<in> set (tc_connections ch)"
  unfolding refs_ok_def live_refs_def by blast

lemma refs_ok_NominateBest:
  assumes "refs_ok ch" shows "refs_ok (NominateBestConnection ch) \<and> stays ch (NominateBestConnection ch)"
proof (cases "tc_best ch")
  case (Some r)
  from assms refs_ok_nominate [OF assms refs_ok_best [OF assms Some]] Some show ?thesis by (simp add: NominateBestConnection_def)
qed (use assms in \<open>simp add: NominateBestConnection_def\<close>)

lemma refs_ok_set_best: "refs_ok ch \<Longrightarrow> \<forall>r. conn = Some r \<longrightarrow> r \<in> set (tc_connections ch) \<Longrightarrow> refs_ok (ch\<lparr>tc_best := conn\<rparr>)"
  unfolding refs_ok_def live_refs_def by simp

lemma refs_ok_Switch:
  assumes "refs_ok ch" and "SwitchBestConnectionTo conn ch = Some ch'" and "\<forall>r. conn = Some r \<longrightarrow> r \<in> set (tc_connections ch)"
  shows "refs_ok ch' \<and> stays ch ch'"
proof (cases conn)
  case None
  with assms refs_ok_set_best [OF assms(1,3)] show ?thesis by (auto simp: SwitchBestConnectionTo_def)
next
  case (Some r)
  with assms(2) have "\<exists>c :: ice_connection. ch' = NominateBestConnection (tc_note (Route_change (cx_remote c)) (ch\<lparr>tc_best := conn\<rparr>))"
    by (auto simp: SwitchBestConnectionTo_def Let_def split: bind_splits)
  then obtain c :: ice_connection where c: "ch' = NominateBestConnection (tc_note (Route_change (cx_remote c)) (ch\<lparr>tc_best := conn\<rparr>))" ..
  have "refs_ok (tc_note (Route_change (cx_remote c)) (ch\<lparr>tc_best := conn\<rparr>))"
    using refs_ok_set_best [OF assms(1,3)] by simp
  from refs_ok_NominateBest [OF this] show ?thesis
    unfolding c using stays_trans [of ch "tc_note (Route_change (cx_remote c)) (ch\<lparr>tc_best := conn\<rparr>)"] by simp
qed

lemma refs_ok_handle:
  assumes "refs_ok ch" and "tc_handle now e ch = Some ch'" and "fst e \<in> set (tc_connections ch)"
  shows "refs_ok ch' \<and> stays ch ch'"
proof -
  obtain r sig where e: "e = (r, sig)" by fastforce
  show ?thesis
  proof (cases sig)
    case Use_candidate
    have r: "r \<in> set (tc_connections ch)" using assms(3) e by simp
    note nom = refs_ok_nominate [OF assms(1) r]
    have "r \<in> set (tc_connections (tc_nominate r ch))" using nom(2) r by (simp add: stays_def)
    with refs_ok_Switch [OF nom(1), of "Some r"] nom(2)
    have "refs_ok ch1 \<and> stays ch ch1" if "SwitchBestConnectionTo (Some r) (tc_nominate r ch) = Some ch1" for ch1
      using that stays_trans by blast
    with assms(1,2) e Use_candidate show ?thesis by (auto simp: OnUseCandidate_def split: if_splits bind_splits)
  qed (use assms e in auto)
qed

text \<open>Invariants pass through a loop.\<close>

lemma fold_option_inv:
  assumes "fold_option f xs s = Some s'" and "P s" and "\<And>x s s'. x \<in> set xs \<Longrightarrow> P s \<Longrightarrow> f x s = Some s' \<Longrightarrow> P s'"
  shows "P s'"
  using assms
proof (induction xs arbitrary: s)
  case (Cons x xs)
  from Cons.prems(1) obtain s1 where s1: "f x s = Some s1" "fold_option f xs s1 = Some s'" by (auto split: bind_splits)
  have "P s1" using Cons.prems(3) [OF _ Cons.prems(2) s1(1)] by simp
  from Cons.IH [OF s1(2) this] Cons.prems(3) show ?case by (meson list.set_intros(2))
qed simp

lemma refs_ok_signals:
  assumes "refs_ok ch" and "fold_option (tc_handle now) es ch = Some ch'" and "\<And>r e. (r, e) \<in> set es \<Longrightarrow> r \<in> set (tc_connections ch)"
  shows "refs_ok ch' \<and> stays ch ch'"
proof (rule fold_option_inv [where P = "\<lambda>c. refs_ok c \<and> stays ch c", OF assms(2)])
  fix e c c' assume e: "e \<in> set es" and c: "refs_ok c \<and> stays ch c" and h: "tc_handle now e c = Some c'"
  have "fst e \<in> set (tc_connections c)" using assms(3) [of "fst e" "snd e"] e c by (simp add: stays_def)
  from refs_ok_handle [OF _ h this] c show "refs_ok c' \<and> stays ch c'" using stays_trans by blast
qed (use assms(1) in simp)

lemma refs_ok_collect:
  assumes ok: "refs_ok ch" and i: "i < length (tc_store ch)" and k: "keeps (tc_store ch ! i) p" and "tc_collect now i p ch = Some ch'"
  shows "refs_ok ch' \<and> stays ch ch'"
proof -
  let ?m = "tc_set_port i (without_signals p) (ch\<lparr>tc_out := tc_out ch @ map (From_port i) (pt_out p)\<rparr>)"
  have m: "refs_ok ?m" "stays ch ?m" by (rule put_back [OF ok i k])+
  have mem: "r \<in> set (tc_connections ?m)" if "(r, e) \<in> set (port_signals i p)" for r e
    using port_signals_member [OF that] i keeps_addresses [OF k] refs_ok_member [OF ok] m(2) by (simp add: stays_def)
  have "refs_ok ch' \<and> stays ?m ch'"
    by (rule refs_ok_signals [OF m(1) assms(4) [unfolded tc_collect_def]]) (rule mem)
  with m(2) show ?thesis using stays_trans by blast
qed

lemma refs_ok_update:
  assumes "refs_ok ch" and "tc_update now f r ch = Some ch'" and "\<And>c. cx_static (f c) = cx_static c"
  shows "refs_ok ch' \<and> stays ch ch'"
proof -
  from assms(2) have c: "fst r < length (tc_store ch)" "tc_collect now (fst r) (pt_update (snd r) f (tc_store ch ! fst r)) ch = Some ch'"
    by (auto simp: tc_update_def tc_get_def split: if_splits)
  show ?thesis by (rule refs_ok_collect [OF assms(1) c(1) keeps_update_all c(2)]) (rule assms(3))
qed

section \<open>Sorting and creating\<close>

lemma mset_stable_sort: "mset (stable_sort before xs) = mset xs"
proof -
  have i: "mset (stable_insert before x ys) = add_mset x (mset ys)" for x ys by (induction ys) auto
  show ?thesis by (induction xs) (simp_all add: stable_sort_def i)
qed

lemma sort_connections_mset:
  assumes "sort_connections ch = Some conns1"
  shows "mset conns1 = mset (tc_connections ch)"
proof -
  from assms obtain keys where k: "those (map (connection_key ch) (tc_connections ch)) = Some keys"
    "conns1 = map snd (stable_sort (\<lambda>a b. ConnectionCompare (fst a) (fst b)) (zip keys (tc_connections ch)))"
    by (auto simp: sort_connections_def split: if_splits bind_splits)
  have "those ys = Some zs \<Longrightarrow> length zs = length ys" for ys :: "'b option list" and zs
    by (induction ys arbitrary: zs) (auto split: option.splits)
  from this [OF k(1)] have "map snd (zip keys (tc_connections ch)) = tc_connections ch" by (simp add: map_snd_zip)
  then show ?thesis by (simp add: k(2) mset_stable_sort) (metis mset_map)
qed

lemma refs_ok_permute: "refs_ok ch \<Longrightarrow> mset conns = mset (tc_connections ch) \<Longrightarrow> refs_ok (ch\<lparr>tc_connections := conns\<rparr>)"
  unfolding refs_ok_def live_refs_def using mset_eq_setD [of conns "tc_connections ch"] mset_eq_imp_distinct_iff [of conns "tc_connections ch"]
  by simp

lemma refs_ok_UpdateStates:
  assumes "refs_ok ch" and "UpdateConnectionStates now ch = Some ch'"
  shows "refs_ok ch' \<and> stays ch ch'"
proof (rule fold_option_inv [where P = "\<lambda>c. refs_ok c \<and> stays ch c", OF assms(2) [unfolded UpdateConnectionStates_def]])
  fix x c c' assume "refs_ok c \<and> stays ch c" "tc_update now (cx_UpdateState (of_nat now)) x c = Some c'"
  then show "refs_ok c' \<and> stays ch c'" using refs_ok_update [of c now "cx_UpdateState (of_nat now)" x c'] stays_trans by auto
qed (use assms(1) in simp)

lemma refs_ok_prune_connection:
  assumes "refs_ok ch" and "prune_connection now network primier r ch = Some ch'"
  shows "refs_ok ch' \<and> stays ch ch'"
  using assms(2) refs_ok_update [OF assms(1), of now cx_Prune r ch'] assms(1)
  by (auto simp: prune_connection_def split: if_splits bind_splits)

lemma refs_ok_prune_network:
  assumes "refs_ok ch" and "prune_network now network ch = Some ch'"
  shows "refs_ok ch' \<and> stays ch ch'"
proof (cases "GetBestConnectionOnNetwork network ch")
  case (Some primier)
  have loop: "refs_ok c \<and> stays ch c" if "fold_option (prune_connection now network primier) rs ch = Some c" for rs c
    by (rule fold_option_inv [where P = "\<lambda>c. refs_ok c \<and> stays ch c", OF that])
       (use assms(1) refs_ok_prune_connection stays_trans in \<open>blast | simp\<close>)+
  with assms Some show ?thesis by (auto simp: prune_network_def split: if_splits bind_splits)
qed (use assms in \<open>simp add: prune_network_def\<close>)

lemma refs_ok_handlers:
  "refs_ok (HandleWritable ch) = refs_ok ch" "refs_ok (HandleNotWritable ch) = refs_ok ch"
  "refs_ok (HandleAllTimedOut ch) = refs_ok ch"
  by (simp_all add: HandleWritable_def HandleNotWritable_def HandleAllTimedOut_def Let_def refs_ok_def tc_set_writable_def
      tc_note_def tc_Allocate_def)

lemma refs_ok_handle_states [simp]: "refs_ok (handle_states cs ch) = refs_ok ch"
  by (simp add: handle_states_def refs_ok_handlers)

lemma refs_ok_UpdateChannelState: "UpdateChannelState ch = Some ch' \<Longrightarrow> refs_ok ch \<Longrightarrow> refs_ok ch'"
  by (auto simp: UpdateChannelState_def split: if_splits bind_splits)

lemma refs_ok_clean [simp]: "refs_ok (ch\<lparr>tc_sort_dirty := b\<rparr>) = refs_ok ch" "refs_ok (ch\<lparr>tc_queue := q\<rparr>) = refs_ok ch"
  "refs_ok (ch\<lparr>tc_error := e\<rparr>) = refs_ok ch"
  by (simp_all add: refs_ok_def)

lemma refs_ok_Sort:
  assumes ok: "refs_ok ch" and step: "SortConnections now ch = Some ch'"
  shows "refs_ok ch'"
proof -
  from step obtain ch1 conns1 switch ch3 ch4 cs where
    s: "UpdateConnectionStates now ch = Some ch1" "sort_connections (ch1\<lparr>tc_sort_dirty := False\<rparr>) = Some conns1"
      "(if switch then SwitchBestConnectionTo (case conns1 of [] \<Rightarrow> None | r # rs \<Rightarrow> Some r)
                         (ch1\<lparr>tc_sort_dirty := False, tc_connections := conns1\<rparr>)
        else Some (ch1\<lparr>tc_sort_dirty := False, tc_connections := conns1\<rparr>)) = Some ch3"
      "fold_option (prune_network now) (remdups (map (\<lambda>r. tc_network r (ch1\<lparr>tc_sort_dirty := False\<rparr>)) (tc_connections ch1))) ch3 = Some ch4"
      "UpdateChannelState (handle_states cs ch4) = Some ch'"
    by (auto simp: SortConnections_def Let_def split: bind_splits)
  have "refs_ok ch1" using refs_ok_UpdateStates [OF ok s(1)] by simp
  then have "refs_ok (ch1\<lparr>tc_sort_dirty := False, tc_connections := conns1\<rparr>)"
    using refs_ok_permute [of "ch1\<lparr>tc_sort_dirty := False\<rparr>" conns1] sort_connections_mset [OF s(2)] by simp
  from refs_ok_Switch [OF this, of "case conns1 of [] \<Rightarrow> None | r # rs \<Rightarrow> Some r"] this s(3)
  have "refs_ok ch3" by (auto split: if_splits list.splits)
  then have "refs_ok ch4" by (rule fold_option_inv [where P = refs_ok, OF s(4)]) (use refs_ok_prune_network in blast)
  with s(5) show ?thesis by (auto intro: refs_ok_UpdateChannelState)
qed

text \<open>A new connection: its port puts it at the end of its table, the channel at the end of its list.\<close>

lemma CreateConnection_adds:
  assumes "CreateConnection cand p = Some p1" and "GetConnection (cd_address cand) p = None" and "GetConnection (cd_address cand) p1 \<noteq> None"
  shows "p1 = pt_note (Connection_created (cd_address cand)) (p\<lparr>pt_connections := pt_connections p @ [Connection_new 0 cand]\<rparr>)"
  using assms by (auto simp: CreateConnection_def AddConnection_def Connection_new_def split: if_splits)

lemma port_ok_add:
  assumes ok: "port_ok p" and live: "\<not> pt_destroyed p" and new: "GetConnection (cd_address cand) p = None"
  shows "port_ok (without_signals (pt_note e (p\<lparr>pt_connections := pt_connections p @ [Connection_new 0 cand]\<rparr>)))"
proof -
  have "\<not> sa_eq a (cd_address cand)" if "a \<in> set (addresses p)" for a
    using GetConnection_iff [of "cd_address cand" p] new that by auto
  moreover have "cx_remote (Connection_new 0 cand) = cand" "cx_local_index (Connection_new 0 cand) = 0"
    by (simp_all add: Connection_new_def)
  ultimately show ?thesis
    using ok live by (auto simp: port_ok_def without_signals_def pt_note_def distinct_addresses_def addresses_def
        sorted_wrt_append comp_def)
qed

lemma refs_ok_add:
  assumes ok: "refs_ok ch" and i: "i < length (tc_store ch)" and live: "\<not> pt_destroyed (tc_store ch ! i)"
    and p1: "CreateConnection cand (tc_store ch ! i) = Some p1" and new: "GetConnection (cd_address cand) (tc_store ch ! i) = None"
    and found: "GetConnection (cd_address cand) p1 \<noteq> None"
    and step: "tc_collect now i p1 (ch\<lparr>tc_connections := tc_connections ch @ [(i, cd_address cand)]\<rparr>) = Some ch'"
  shows "refs_ok ch'" "tc_ports ch' = tc_ports ch" "length (tc_store ch') = length (tc_store ch)"
proof -
  let ?p = "tc_store ch ! i"
  note p1 = CreateConnection_adds [OF p1 new found]
  have addr: "addresses (without_signals p1) = addresses ?p @ [cd_address cand]"
    unfolding p1 by (simp add: without_signals_def pt_note_def addresses_def Connection_new_def comp_def)
  have "port_signals i p1 = []"
    unfolding p1 using refs_ok_port [OF ok i]
    by (auto simp: port_signals_def pt_note_def Connection_new_def port_ok_def)
  with step have ch': "ch' = tc_set_port i (without_signals p1) (ch\<lparr>tc_connections := tc_connections ch @ [(i, cd_address cand)],
      tc_out := tc_out ch @ map (From_port i) (pt_out p1)\<rparr>)"
    by (simp add: tc_collect_def)
  have "sa_eq a a" for a by (simp add: sa_eq_def)
  then have fresh: "cd_address cand \<notin> set (addresses ?p)" using GetConnection_iff [of "cd_address cand" ?p] new by blast
  have "refs_in ((tc_store ch)[i := without_signals p1]) = insert (i, cd_address cand) (refs_in (tc_store ch))"
    using i addr by (auto simp: refs_in_def nth_list_update split: if_splits)
  moreover have "port_ok (without_signals p1)" unfolding p1 by (rule port_ok_add [OF refs_ok_port [OF ok i] live new])
  moreover have "\<not> pt_destroyed (without_signals p1)" unfolding p1 using live by (simp add: without_signals_def pt_note_def)
  moreover have "(i, cd_address cand) \<notin> refs_in (tc_store ch)" using fresh by (simp add: refs_in_def)
  ultimately show "refs_ok ch'"
    using ok i unfolding ch' refs_ok_def live_refs_def tc_set_port_def by (auto simp: nth_list_update)
  show "tc_ports ch' = tc_ports ch" "length (tc_store ch') = length (tc_store ch)"
    by (simp_all add: ch' tc_set_port_def)
qed

lemma tc_port_SomeD: "tc_port i ch = Some p \<Longrightarrow> i < length (tc_store ch) \<and> p = tc_store ch ! i \<and> \<not> pt_destroyed (tc_store ch ! i)"
  by (auto simp: tc_port_def split: if_splits)

lemma refs_ok_Create:
  assumes ok: "refs_ok ch" and step: "tc_CreateConnection now i cand origin readable ch = Some (made, ch')"
  shows "refs_ok ch'"
proof -
  from step obtain p where p: "tc_port i ch = Some p" by (auto simp: tc_CreateConnection_def split: bind_splits)
  have P: "i < length (tc_store ch)" "tc_store ch ! i = p" "\<not> pt_destroyed p" using tc_port_SomeD [OF p] by simp_all
  from step p obtain created r ch1 where s1: "(case GetConnection (cd_address cand) p of
            Some c \<Rightarrow> Some (cd_IsEquivalent cand (cx_remote c), (i, cd_address (cx_remote c)), ch)
          | None \<Rightarrow>
              if origin = None \<and> tc_incoming_only ch then Some (False, (i, cd_address cand), ch)
              else do {
                p1 \<leftarrow> CreateConnection cand p;
                if GetConnection (cd_address cand) p1 = None then Some (False, (i, cd_address cand), ch)
                else do {
                  ch1 \<leftarrow> tc_collect now i p1 (ch\<lparr>tc_connections := tc_connections ch @ [(i, cd_address cand)]\<rparr>);
                  Some (True, (i, cd_address cand), ch1)
                }
              }) = Some (created, r, ch1)"
    and s2: "(if created \<and> readable then tc_update now (ReceivedPing now) r ch1 else Some ch1) = Some ch'"
    unfolding tc_CreateConnection_def Let_def
    by (cases "GetConnection (cd_address cand) p") (auto split: bind_splits prod.splits)
  have "refs_ok ch1"
  proof (cases "GetConnection (cd_address cand) p")
    case None
    have add: "refs_ok ch2" if "CreateConnection cand p = Some p1" "GetConnection (cd_address cand) p1 \<noteq> None"
      "tc_collect now i p1 (ch\<lparr>tc_connections := tc_connections ch @ [(i, cd_address cand)]\<rparr>) = Some ch2" for p1 ch2
      by (rule refs_ok_add(1) [OF ok _ _ _ _ _ that(3)]) (use that None P in simp_all)
    with s1 None ok show ?thesis by (auto split: bind_splits if_splits)
  qed (use s1 ok in simp)
  then show ?thesis using s2 refs_ok_update [of ch1 now "ReceivedPing now" r ch'] by (auto split: if_splits)
qed

lemma refs_ok_Remember [simp]: "refs_ok (RememberRemoteCandidate cand origin ch) = refs_ok ch"
  by (simp add: RememberRemoteCandidate_def Let_def refs_ok_def)

lemma refs_ok_CreateConnections:
  assumes "refs_ok ch" and "CreateConnections now cand origin readable ch = Some (made, ch')"
  shows "refs_ok ch'"
proof -
  from assms(2) obtain js ch1 where l: "fold_option (create_on now cand origin readable) js (False, ch) = Some (made, ch1)"
    "ch' = RememberRemoteCandidate cand origin ch1"
    by (auto simp: CreateConnections_def Let_def split: bind_splits)
  have "refs_ok (snd (made, ch1))"
    by (rule fold_option_inv [where P = "\<lambda>s. refs_ok (snd s)", OF l(1)])
       (use assms(1) refs_ok_Create in \<open>auto simp: create_on_def split: bind_splits\<close>)
  with l(2) show ?thesis by simp
qed

lemma refs_ok_OnCandidate: "OnCandidate now cand ch = Some ch' \<Longrightarrow> refs_ok ch \<Longrightarrow> refs_ok ch'"
  by (auto simp: OnCandidate_def split: bind_splits dest: refs_ok_CreateConnections refs_ok_Sort)

lemma refs_ok_OnPortReady:
  assumes step: "OnPortReady now port ch = Some ch'" and ok: "refs_ok ch" and fresh: "fresh_port port"
  shows "refs_ok ch'"
proof -
  define q where "q = pt_SetTiebreaker (tc_tiebreaker ch) (pt_SetRole (tc_role ch) (pt_SetIceProtocolType (tc_protocol ch) port))"
  have empty: "addresses q = []" "port_ok q" "\<not> pt_destroyed q"
    using fresh by (simp_all add: q_def fresh_port_def port_ok_def addresses_def distinct_addresses_def pt_SetTiebreaker_def
        pt_SetRole_def pt_SetIceProtocolType_def)
  let ?ch1 = "ch\<lparr>tc_store := tc_store ch @ [q], tc_ports := tc_ports ch @ [length (tc_store ch)],
      tc_out := tc_out ch @ set_options (length (tc_store ch)) ch\<rparr>"
  have "refs_in (tc_store ch @ [q]) = refs_in (tc_store ch)"
    using empty(1) by (auto simp: refs_in_def nth_append less_Suc_eq)
  then have ok1: "refs_ok ?ch1"
    using ok empty by (auto simp: refs_ok_def live_refs_def nth_append less_Suc_eq)
  from step obtain ch2 where l: "fold_option (\<lambda>(c, origin) ch. map_option snd (tc_CreateConnection now (length (tc_store ?ch1) - 1) c origin False ch))
      (tc_remote ?ch1) ?ch1 = Some ch2" and s: "SortConnections now ch2 = Some ch'"
    by (auto simp: OnPortReady_def Let_def q_def split: bind_splits)
  have "refs_ok ch2"
    by (rule fold_option_inv [where P = refs_ok, OF l ok1]) (auto dest: refs_ok_Create)
  then show ?thesis using s by (rule refs_ok_Sort)
qed

section \<open>Operations on ports\<close>

context table_operation
begin

lemma refs_ok_operation:
  assumes ok: "refs_ok ch" and p: "tc_port i ch = Some p" and step: "op x p = Some p1" and "tc_collect now i p1 ch = Some ch1"
  shows "refs_ok ch1"
proof -
  note P = tc_port_SomeD [OF p]
  have "distinct_addresses p" using refs_ok_port [OF ok, of i] P by (simp add: port_ok_def)
  with op_keeps [OF step] have "keeps (tc_store ch ! i) p1" using P by simp
  from refs_ok_collect [OF ok _ this assms(4)] P show ?thesis by simp
qed

end

interpretation error_reply: table_operation
  "\<lambda>(mem, msg, addr, code, reason). SendBindingErrorResponse mem msg addr code reason"
  by unfold_locales (auto dest: keeps_error)

interpretation reply: table_operation "\<lambda>(mem, inp, msg, addr). SendBindingResponse mem inp msg addr"
  by unfold_locales (auto dest: keeps_response)

interpretation packet: table_operation "\<lambda>(mem, inp, data, addr). HandlePacket mem inp data addr"
  by unfold_locales (auto dest: keeps_packet)

interpretation request_message: table_operation "\<lambda>(inp, addr, i). cx_DeliverRequest inp addr i"
  by unfold_locales (auto dest: keeps_deliver)

interpretation send: table_operation "\<lambda>(inp, data, addr) p. map_option snd (cx_Send inp data addr p)"
  by unfold_locales (auto dest: keeps_send)

interpretation start: table_operation "\<lambda>now p. Some (pt_Start now p)"
  by unfold_locales (auto intro: keeps_start)

lemma refs_ok_UnknownAddress:
  assumes ok: "refs_ok ch" and step: "OnUnknownAddress mem inp i address proto msg user muxed ch = Some ch'"
  shows "refs_ok ch'"
proof -
  from step obtain p where p: "tc_port i ch = Some p" by (auto simp: OnUnknownAddress_def split: bind_splits)
  show ?thesis
  proof (cases "remote_for (pi_random inp) address proto user p ch")
    case None
    have "refs_ok ch'" if "SendBindingErrorResponse mem msg address c r p = Some p1" "tc_collect (pi_now inp) i p1 ch = Some ch'" for c r p1
      using error_reply.refs_ok_operation [OF ok p, of "(mem, msg, address, c, r)"] that by simp
    with step p None ok show ?thesis by (auto simp: OnUnknownAddress_def split: bind_splits if_splits)
  next
    case (Some cand)
    with step p obtain ch1 p1 p2 ch2 where s: "CreateConnections (pi_now inp) cand (Some i) True ch = Some (True, ch1)"
      "tc_port i ch1 = Some p1" "SendBindingResponse mem inp msg address p1 = Some p2"
      "tc_collect (pi_now inp) i p2 ch1 = Some ch2" "SortConnections (pi_now inp) ch2 = Some ch'"
      by (auto simp: OnUnknownAddress_def split: bind_splits if_splits)
    have "refs_ok ch2"
      using reply.refs_ok_operation [OF refs_ok_CreateConnections [OF ok s(1)] s(2), of "(mem, inp, msg, address)"] s(3,4) by simp
    then show ?thesis using s(5) by (rule refs_ok_Sort)
  qed
qed

lemma refs_ok_OnPortDestroyed:
  "refs_ok ch \<Longrightarrow> refs_ok (OnPortDestroyed i ch)"
  by (auto simp: refs_ok_def live_refs_def OnPortDestroyed_def dest: notin_set_remove1)

lemma refs_ok_port_output: "tc_port_output mem inp i e ch = Some ch' \<Longrightarrow> refs_ok ch \<Longrightarrow> refs_ok ch'"
  by (cases e) (auto intro: refs_ok_UnknownAddress refs_ok_OnPortDestroyed)

lemma refs_ok_outputs: "fold_option (tc_port_output mem inp i) es ch = Some ch' \<Longrightarrow> refs_ok ch \<Longrightarrow> refs_ok ch'"
  by (rule fold_option_inv [where P = refs_ok]) (auto intro: refs_ok_port_output)

text \<open>The end of a port, which says so to the channel.\<close>

lemma CheckTimeout_cases:
  assumes "pt_CheckTimeout p = Some p'" and "pt_out p = []"
  shows "p' = p \<or> pt_connections p = [] \<and> pt_out p' = [Port_destroyed] \<and> pt_connections p' = [] \<and> pt_destroyed p'
    \<and> pt_candidates p' = pt_candidates p"
  using assms by (auto simp: pt_CheckTimeout_def pt_Destroy_def pt_note_def split: if_splits)

lemma refs_ok_gone:
  assumes ok: "live_refs store (conns) best ports" and i: "i < length store" "addresses (store ! i) = []"
    and p: "pt_connections p = []" "pt_out p = []" "pt_candidates p \<noteq> []"
  shows "live_refs (store[i := p]) conns best (remove1 i ports)"
proof -
  have "addresses p = addresses (store ! i)" using i(2) p(1) by (simp add: addresses_def)
  moreover have "port_ok p" using p by (simp add: port_ok_def distinct_addresses_def addresses_def)
  ultimately show ?thesis
    using ok i by (auto simp: live_refs_def refs_in_set_port nth_list_update dest: notin_set_remove1)
qed

lemma no_signals: "\<forall>c \<in> set (pt_connections p). cx_signals c = [] \<Longrightarrow> port_signals i p = []"
  by (simp add: port_signals_def)

lemma without_gone: "pt_connections p = [] \<Longrightarrow> pt_connections (without_signals p) = []"
  by (simp add: without_signals_def)

lemma refs_ok_timeout:
  assumes ok: "refs_ok ch" and p: "tc_port i ch = Some p" and step: "pt_OnMessage (p\<lparr>pt_timers := ts\<rparr>) = Some p1"
    and c: "tc_collect now i p1 ch = Some ch1" and o: "fold_option (tc_port_output mem inp i) (pt_out p1) ch1 = Some ch2"
  shows "refs_ok ch2"
proof -
  note P = tc_port_SomeD [OF p]
  let ?q = "p\<lparr>pt_timers := ts, pt_lifetime := LT_POSTTIMEOUT\<rparr>"
  from P refs_ok_port [OF ok, of i] have pok: "port_ok p" "tc_store ch ! i = p" "i < length (tc_store ch)" by auto
  from step have t: "pt_CheckTimeout ?q = Some p1" by (simp add: pt_OnMessage_def split: if_splits)
  from CheckTimeout_cases [OF t] pok(1) consider "p1 = ?q"
    | "pt_connections p = []" "pt_out p1 = [Port_destroyed]" "pt_connections p1 = []" "pt_candidates p1 = pt_candidates p"
    by (auto simp: port_ok_def)
  then show ?thesis
  proof cases
    case 1
    have "keeps (tc_store ch ! i) p1" unfolding 1 pok(2) by (simp add: keeps_def)
    from refs_ok_outputs [OF o] refs_ok_collect [OF ok pok(3) this c] show ?thesis by blast
  next
    case 2
    have "ch2 = OnPortDestroyed i (tc_set_port i (without_signals p1) (ch\<lparr>tc_out := tc_out ch @ map (From_port i) (pt_out p1)\<rparr>))"
      using c o 2(2,3) by (simp add: tc_collect_def no_signals)
    moreover have "live_refs ((tc_store ch)[i := without_signals p1]) (tc_connections ch) (tc_best ch) (remove1 i (tc_ports ch))"
      by (rule refs_ok_gone) (use ok pok 2 in \<open>simp_all add: refs_ok_def addresses_def without_signals_def port_ok_def\<close>)
    ultimately show ?thesis by (simp add: refs_ok_def OnPortDestroyed_def tc_set_port_def)
  qed
qed

lemma refs_ok_port_event:
  assumes ok: "refs_ok ch" and e: "thread_event e" and step: "tc_port_event mem inp i e ch = Some ch'"
  shows "refs_ok ch'"
proof (cases "tc_port i ch")
  case (Some p)
  with step obtain p1 ch1 where s: "port_event_step mem inp e p = Some p1" "tc_collect (pi_now inp) i p1 ch = Some ch1"
    "fold_option (tc_port_output mem inp i) (pt_out p1) ch1 = Some ch'"
    by (auto simp: tc_port_event_def split: bind_splits)
  note P = tc_port_SomeD [OF Some]
  have same: "refs_ok ch1" if "p1 = p" using refs_ok_collect [OF ok _ _ s(2)] that P by simp
  note out = refs_ok_outputs [OF s(3)]
  show ?thesis
  proof (cases e)
    case (Packet data a)
    with s out packet.refs_ok_operation [OF ok Some, of "(mem, inp, data, a)"] show ?thesis by simp
  next
    case (Request_message j a)
    with s out same request_message.refs_ok_operation [OF ok Some, of "(inp, a, j)"] show ?thesis by (simp split: if_splits)
  next
    case Start_port
    with s out start.refs_ok_operation [OF ok Some, of "pi_now inp"] show ?thesis by simp
  next
    case (Port_message j)
    with s(1) have "p1 = p \<or> (\<exists>ts. pt_OnMessage (p\<lparr>pt_timers := ts\<rparr>) = Some p1)" by (auto split: if_splits)
    with out same refs_ok_timeout [OF ok Some _ s(2,3)] show ?thesis by blast
  qed (use e in simp_all)
qed (use assms in \<open>simp add: tc_port_event_def\<close>)

text \<open>The end of a connection.\<close>

lemma addresses_filter:
  assumes "distinct_addresses p" and "GetConnection b p = Some c"
  shows "set (addresses (p\<lparr>pt_connections := filter (\<lambda>c. \<not> sa_eq (cd_address (cx_remote c)) b) (pt_connections p)\<rparr>))
    = set (addresses p) - {cd_address (cx_remote c)}"
proof -
  have c: "c \<in> set (pt_connections p)" "sa_eq (cd_address (cx_remote c)) b" using GetConnection_member [OF assms(2)] by simp_all
  have "sa_eq (cd_address (cx_remote d)) b \<longleftrightarrow> cd_address (cx_remote d) = cd_address (cx_remote c)" if "d \<in> set (pt_connections p)" for d
    using same_connection [OF assms(1) that c(1)] c(2) sa_eq_trans sa_eq_sym by metis
  then show ?thesis by (auto simp: addresses_def)
qed

lemma distinct_addresses_filter:
  "distinct_addresses p \<Longrightarrow> distinct_addresses (p\<lparr>pt_connections := filter f (pt_connections p)\<rparr>)"
proof -
  have "sorted_wrt P (map g xs) \<Longrightarrow> sorted_wrt P (map g (filter f xs))" for P :: "socket_address \<Rightarrow> _" and g xs
    by (induction xs) auto
  then show "distinct_addresses p \<Longrightarrow> distinct_addresses (p\<lparr>pt_connections := filter f (pt_connections p)\<rparr>)"
    by (simp add: distinct_addresses_def addresses_def)
qed

lemma live_refs_remove:
  assumes ok: "live_refs store conns best ports" and i: "i < length store"
    and q: "set (addresses q) = set (addresses (store ! i)) - {a}" "port_ok q"
    and best: "\<forall>r. best' = Some r \<longrightarrow> r \<in> refs_in store \<and> r \<noteq> (i, a)"
    and ports: "ports' = (if pt_destroyed q then remove1 i ports else ports)"
  shows "live_refs (store[i := q]) (remove1 (i, a) conns) best' ports'"
proof -
  have "b \<in> set (addresses (store[i := q] ! j)) \<longleftrightarrow> (j, b) \<noteq> (i, a) \<and> b \<in> set (addresses (store ! j))" if "j < length store" for j b
    using q(1) i by (cases "j = i") auto
  then have r: "refs_in (store[i := q]) = refs_in store - {(i, a)}"
    unfolding refs_in_def by auto
  show ?thesis
    unfolding live_refs_def r ports
    using ok i q(2) best by (auto simp: live_refs_def nth_list_update dest: notin_set_remove1)
qed

lemma refs_ok_Destroyed:
  assumes "live_refs store (remove1 r conns) (if best = Some r then None else best) ports"
    and "tc_store ch = store" "tc_connections ch = conns" "tc_best ch = best" "tc_ports ch = ports"
    and "tc_OnConnectionDestroyed now r ch = Some ch'"
  shows "refs_ok ch'"
proof -
  from assms(6) consider "best = Some r" "ch' = RequestSort now (ch\<lparr>tc_connections := remove1 r conns, tc_best := None\<rparr>)"
    | "best \<noteq> Some r" "ch' = ch\<lparr>tc_connections := remove1 r conns\<rparr>"
    using assms(3,4) by (auto simp: tc_OnConnectionDestroyed_def SwitchBestConnectionTo_def Let_def split: if_splits)
  then show ?thesis using assms(1-5) by cases (simp_all, simp_all add: refs_ok_def)
qed

lemma refs_ok_delete:
  assumes ok: "refs_ok ch" and step: "tc_delete mem inp r ch = Some ch'"
  shows "refs_ok ch'"
proof (cases "ch' = ch")
  case False
  from step False obtain p c p1 ch1 ch2 where s: "tc_port (fst r) ch = Some p" "GetConnection (snd r) p = Some c"
    "cx_OnMessage (snd r) p = Some p1" "tc_collect (pi_now inp) (fst r) p1 ch = Some ch1"
    "fold_option (tc_port_output mem inp (fst r)) (pt_out p1) ch1 = Some ch2"
    "tc_OnConnectionDestroyed (pi_now inp) (fst r, cd_address (cx_remote c)) ch2 = Some ch'"
    by (auto simp: tc_delete_def split: option.splits bind_splits if_splits)
  let ?i = "fst r" and ?a = "cd_address (cx_remote c)"
  note P = tc_port_SomeD [OF s(1)]
  from P refs_ok_port [OF ok, of ?i] have pok: "port_ok p" "tc_store ch ! ?i = p" "?i < length (tc_store ch)" "\<not> pt_destroyed p" by auto
  define q where "q = p\<lparr>pt_connections := filter (\<lambda>c. \<not> sa_eq (cd_address (cx_remote c)) (snd r)) (pt_connections p)\<rparr>"
  have t: "pt_CheckTimeout q = Some p1" using s(3) by (simp add: cx_OnMessage_def OnConnectionDestroyed_def q_def split: if_splits)
  have q: "set (addresses q) = set (addresses p) - {?a}" "port_ok q"
    using addresses_filter [OF _ s(2)] distinct_addresses_filter [of p] pok(1,4) by (auto simp: port_ok_def q_def)
  have conns: "pt_connections p1 = pt_connections q" "pt_candidates p1 = pt_candidates q"
    and out: "pt_out p1 = (if pt_destroyed p1 then [Port_destroyed] else [])"
    using CheckTimeout_cases [OF t] q(2) pok(4) by (auto simp: port_ok_def q_def)
  have no_conns: "pt_destroyed p1 \<Longrightarrow> pt_connections p1 = []"
    using CheckTimeout_cases [OF t] q(2) pok(4) by (auto simp: port_ok_def q_def)
  have w: "set (addresses (without_signals p1)) = set (addresses p) - {?a}" "port_ok (without_signals p1)"
    "pt_destroyed (without_signals p1) = pt_destroyed p1"
  proof -
    have "addresses (without_signals p1) = addresses q" using conns(1) by (simp add: addresses_def without_signals_def comp_def)
    then show "set (addresses (without_signals p1)) = set (addresses p) - {?a}" "port_ok (without_signals p1)"
      using q conns(2) conns(1) no_conns
      by (simp_all add: port_ok_def distinct_addresses_def) (auto simp: without_signals_def)
    show "pt_destroyed (without_signals p1) = pt_destroyed p1" by (simp add: without_signals_def)
  qed
  have "port_signals ?i p1 = []" using q(2) conns by (auto simp: port_ok_def intro: no_signals)
  with s(4) have ch1: "ch1 = tc_set_port ?i (without_signals p1) (ch\<lparr>tc_out := tc_out ch @ map (From_port ?i) (pt_out p1)\<rparr>)"
    by (simp add: tc_collect_def)
  with s(5) out have ch2: "tc_store ch2 = (tc_store ch)[?i := without_signals p1]" "tc_connections ch2 = tc_connections ch"
    "tc_best ch2 = tc_best ch" "tc_ports ch2 = (if pt_destroyed p1 then remove1 ?i (tc_ports ch) else tc_ports ch)"
    by (auto simp: tc_set_port_def OnPortDestroyed_def split: if_splits)
  have "live_refs (tc_store ch2) (remove1 (?i, ?a) (tc_connections ch2)) (if tc_best ch2 = Some (?i, ?a) then None else tc_best ch2) (tc_ports ch2)"
    unfolding ch2
    by (rule live_refs_remove [where best = "tc_best ch" and ports = "tc_ports ch"])
       (use ok w pok(2,3) in \<open>auto simp: refs_ok_def live_refs_def\<close>)
  then show ?thesis by (rule refs_ok_Destroyed [OF _ refl refl refl refl s(6)])
qed (use ok in simp)

section \<open>Pings, data and the owner\<close>

text \<open>A connection is put back after an operation on it alone.\<close>

lemma refs_ok_put_back:
  assumes ok: "refs_ok ch" and c: "tc_get r ch = Some c" and s: "cx_static c1 = cx_static c"
    and step: "tc_update now (\<lambda>_. c1) r ch = Some ch'"
  shows "refs_ok ch'"
proof -
  from c have i: "fst r < length (tc_store ch)" and g: "GetConnection (snd r) (tc_store ch ! fst r) = Some c"
    by (simp_all add: tc_get_def split: if_splits)
  have "distinct_addresses (tc_store ch ! fst r)" using refs_ok_port [OF ok i] by (simp add: port_ok_def)
  from keeps_put [OF this g s] GetConnection_member [OF g]
  have k: "keeps (tc_store ch ! fst r) (pt_update (snd r) (\<lambda>_. c1) (tc_store ch ! fst r))" by simp
  from c step have "tc_collect now (fst r) (pt_update (snd r) (\<lambda>_. c1) (tc_store ch ! fst r)) ch = Some ch'"
    by (simp add: tc_update_def)
  from refs_ok_collect [OF ok i k this] show ?thesis by simp
qed

lemma refs_ok_Ping:
  assumes ok: "refs_ok ch" and step: "tc_Ping mem inp r ch = Some ch'"
  shows "refs_ok ch'"
proof -
  from step obtain c c1 p where s: "tc_get r ch = Some c" "cx_Ping mem inp (of_nat (pi_now inp)) p c = Some c1"
    "tc_update (pi_now inp) (\<lambda>_. c1) r ch = Some ch'"
    by (auto simp: tc_Ping_def split: bind_splits)
  show ?thesis by (rule refs_ok_put_back [OF ok s(1) static_Ping [OF s(2)] s(3)])
qed

lemma refs_ok_GetStats:
  assumes ok: "refs_ok ch" and step: "tc_GetStats now ch = Some (infos, ch')"
  shows "refs_ok ch'"
proof -
  have "refs_ok (snd (infos, ch'))"
  proof (rule fold_option_inv [where P = "\<lambda>s. refs_ok (snd s)", OF step [unfolded tc_GetStats_def]])
    fix r s s' assume s: "refs_ok (snd s)" and "stats_of now r s = Some s'"
    then obtain p c info c1 ch1 where "tc_get r (snd s) = Some c" "cx_stats (of_nat now) (tc_best (snd s)) r p c = Some (info, c1)"
      "tc_update now (\<lambda>_. c1) r (snd s) = Some ch1" "snd s' = ch1"
      by (auto simp: stats_of_def split: bind_splits)
    moreover from this(2) have "cx_static c1 = cx_static c" by (auto simp: cx_stats_def cx_static_def split: bind_splits)
    ultimately show "refs_ok (snd s')" using refs_ok_put_back [OF s] by blast
  qed (use ok in simp)
  then show ?thesis by simp
qed

lemma refs_ok_OnPing:
  assumes "OnPing mem inp ch = Some ch'" and "refs_ok ch"
  shows "refs_ok ch'"
proof -
  have "refs_ok ch1" if "UpdateConnectionStates (pi_now inp) ch = Some ch1" for ch1
    using refs_ok_UpdateStates [OF assms(2) that] by simp
  moreover from this have "refs_ok ch2"
    if "UpdateConnectionStates (pi_now inp) ch = Some ch1" "tc_Ping mem inp r ch1 = Some ch2" for r ch1 ch2
    using that refs_ok_Ping by blast
  ultimately show ?thesis using assms(1) by (auto simp: OnPing_def Let_def split: bind_splits option.splits)
qed

lemma refs_ok_message: "tc_OnMessage mem inp m ch = Some ch' \<Longrightarrow> refs_ok ch \<Longrightarrow> refs_ok ch'"
  by (cases m) (auto simp: tc_OnMessage_def intro: refs_ok_Sort refs_ok_OnPing)

lemma refs_ok_SendPacket:
  assumes ok: "refs_ok ch" and step: "tc_SendPacket inp data flags ch = Some (n, ch')"
  shows "refs_ok ch'"
proof -
  have "refs_ok ch1" if "tc_port (fst r) ch = Some p" "cx_Send inp data (snd r) p = Some (m, p1)"
    "tc_collect (pi_now inp) (fst r) p1 ch = Some ch1" for r p m p1 ch1
    using send.refs_ok_operation [OF ok that(1), of "(inp, data, snd r)"] that(2,3) by simp
  with step ok show ?thesis by (auto simp: tc_SendPacket_def split: if_splits option.splits bind_splits)
qed

text \<open>The owner sets what all its ports share.\<close>

lemma refs_ok_fold_ports:
  assumes "refs_ok ch" and "\<And>p. addresses (f p) = addresses p" "\<And>p. pt_destroyed (f p) = pt_destroyed p" "\<And>p. port_ok p \<Longrightarrow> port_ok (f p)"
    and "\<forall>i \<in> set is'. i < length (tc_store ch)"
  shows "refs_ok (fold (\<lambda>i ch. tc_set_port i (f (tc_store ch ! i)) ch) is' ch)"
  using assms(1,5)
proof (induction is' arbitrary: ch)
  case (Cons i is')
  have "refs_ok (tc_set_port i (f (tc_store ch ! i)) ch)"
    using Cons.prems assms(2-4) refs_ok_port [OF Cons.prems(1), of i] by (intro refs_ok_set_port) simp_all
  moreover have "\<forall>j \<in> set is'. j < length (tc_store (tc_set_port i (f (tc_store ch ! i)) ch))"
    using Cons.prems(2) by (simp add: tc_set_port_def)
  ultimately show ?case using Cons.IH by simp
qed simp

lemma refs_ok_ports_bound: "refs_ok ch \<Longrightarrow> \<forall>i \<in> set (tc_ports ch). i < length (tc_store ch)"
  by (simp add: refs_ok_def live_refs_def)

lemma refs_ok_SetRole: "refs_ok ch \<Longrightarrow> refs_ok (tc_SetRole role ch)"
  unfolding tc_SetRole_def
  by (rule refs_ok_fold_ports [where f = "pt_SetRole role"])
     (use refs_ok_ports_bound [of ch] in \<open>auto simp: refs_ok_def pt_SetRole_def addresses_def port_ok_def distinct_addresses_def\<close>)

lemma refs_ok_SetProtocol: "refs_ok ch \<Longrightarrow> refs_ok (tc_SetIceProtocolType t ch)"
  unfolding tc_SetIceProtocolType_def
  by (rule refs_ok_fold_ports [where f = "pt_SetIceProtocolType t"])
     (use refs_ok_ports_bound [of ch] in \<open>auto simp: refs_ok_def pt_SetIceProtocolType_def addresses_def port_ok_def distinct_addresses_def\<close>)

lemma refs_ok_Reset:
  assumes "refs_ok ch"
  shows "refs_ok (tc_Reset now requested ch)"
proof -
  have "port_ok (pt_delete p)" "addresses (pt_delete p) = []" if "port_ok p" for p
    using that by (simp_all add: port_ok_def pt_delete_def distinct_addresses_def addresses_def)
  then have "live_refs (map pt_delete (tc_store ch)) [] None []"
    using assms by (auto simp: refs_ok_def live_refs_def refs_in_def)
  then show ?thesis
    by (simp add: tc_Reset_def Let_def refs_ok_def tc_post_def tc_Allocate_def tc_set_writable_def tc_set_readable_def tc_note_def)
qed

section \<open>Every history\<close>

lemma refs_ok_step: "channel_step mem e ch = Some ch' \<Longrightarrow> refs_ok ch \<Longrightarrow> refs_ok ch'"
proof -
  assume step: "channel_step mem e ch = Some ch'" and ok: "refs_ok ch"
  obtain inp ev where e: "e = (inp, ev)" by fastforce
  show ?thesis
  proof (cases ev)
    case (Port_ready p)
    with step e ok show ?thesis by (auto split: if_splits intro: refs_ok_OnPortReady)
  next
    case (Port_event i f)
    with step e ok show ?thesis by (auto split: if_splits intro: refs_ok_port_event)
  next
    case (Queue_message i)
    with step e ok show ?thesis by (auto split: if_splits intro: refs_ok_message)
  next
    case (Send_packet data flags)
    with step e ok show ?thesis by (auto intro: refs_ok_SendPacket)
  next
    case (Change_tiebreaker t)
    with step e ok show ?thesis by (auto simp: tc_SetTiebreaker_def refs_ok_def)
  next
    case Signaling_ready
    have "refs_ok (ch\<lparr>tc_waiting := False\<rparr>)" "refs_ok (AddAllocatorSession (ch\<lparr>tc_waiting := False\<rparr>))"
      using ok by (simp_all add: AddAllocatorSession_def refs_ok_def live_refs_def)
    with step e ok Signaling_ready show ?thesis by (auto simp: OnSignalingReady_def)
  next
    case (Change_credentials u w)
    with step e ok show ?thesis by (auto simp: tc_SetIcePwd_def tc_SetIceUfrag_def refs_ok_def)
  next
    case (Set_option opt v)
    with step e ok show ?thesis by (auto simp: tc_SetOption_def refs_ok_def)
  next
    case (Local_candidates cs)
    with step e ok show ?thesis by (auto simp: OnCandidatesReady_def refs_ok_def)
  qed (use step e ok in \<open>auto simp: tc_Connect_def OnCandidatesAllocationDone_def split: if_splits
      intro: refs_ok_OnCandidate refs_ok_delete refs_ok_SetRole refs_ok_SetProtocol refs_ok_Reset refs_ok_GetStats\<close>)
qed

lemma refs_ok_run: "channel_run mem es ch = Some ch' \<Longrightarrow> refs_ok ch \<Longrightarrow> refs_ok ch'"
  by (induction es arbitrary: ch) (auto split: bind_splits intro: refs_ok_step)

lemma refs_ok_new: "refs_ok (P2PTransportChannel component)"
  by (simp add: P2PTransportChannel_def refs_ok_def live_refs_def refs_in_def)

end
