(* ===== verification/ChannelSort.thy ===== *)
theory ChannelSort
  imports ChannelRefs
begin

text \<open>
  A sort that has been asked for is in the queue: the flag that keeps a second message out is never left
  set without one.
\<close>

definition sort_ok :: "transport_channel \<Rightarrow> bool" where
  "sort_ok ch \<longleftrightarrow> (tc_sort_dirty ch \<longrightarrow> MSG_SORT \<in> snd ` set (tc_queue ch))"

lemma sort_ok_clean [simp]: "sort_ok (ch\<lparr>tc_sort_dirty := False\<rparr>)"
  by (simp add: sort_ok_def)

lemma sort_ok_frame:
  "sort_ok ch \<Longrightarrow> tc_sort_dirty ch' = tc_sort_dirty ch \<Longrightarrow> set (tc_queue ch) \<subseteq> set (tc_queue ch') \<Longrightarrow> sort_ok ch'"
  by (auto simp: sort_ok_def)

lemma sort_ok_updates [simp]:
  "sort_ok (ch\<lparr>tc_best := b\<rparr>) = sort_ok ch" "sort_ok (ch\<lparr>tc_connections := cs\<rparr>) = sort_ok ch"
  "sort_ok (ch\<lparr>tc_out := os\<rparr>) = sort_ok ch" "sort_ok (ch\<lparr>tc_ports := ps\<rparr>) = sort_ok ch"
  "sort_ok (ch\<lparr>tc_error := e\<rparr>) = sort_ok ch" "sort_ok (ch\<lparr>tc_store := s, tc_ports := ps, tc_out := os\<rparr>) = sort_ok ch"
  "sort_ok (ch\<lparr>tc_waiting := w\<rparr>) = sort_ok ch" "sort_ok (ch\<lparr>tc_ufrag := u\<rparr>) = sort_ok ch"
  "sort_ok (ch\<lparr>tc_ufrag := u, tc_pwd := pw\<rparr>) = sort_ok ch" "sort_ok (ch\<lparr>tc_role := role\<rparr>) = sort_ok ch" "sort_ok (ch\<lparr>tc_protocol := t\<rparr>) = sort_ok ch"
  "sort_ok (tc_note e' ch) = sort_ok ch" "sort_ok (tc_set_port i p ch) = sort_ok ch"
  "sort_ok (tc_nominate r ch) = sort_ok ch" "sort_ok (tc_set_readable v ch) = sort_ok ch"
  "sort_ok (RememberRemoteCandidate cand origin ch) = sort_ok ch" "sort_ok (OnPortDestroyed i ch) = sort_ok ch"
  "sort_ok (tc_OnReadPacket r data ch) = sort_ok ch"
  by (simp_all add: sort_ok_def tc_note_def tc_set_port_def tc_nominate_def tc_set_readable_def
      RememberRemoteCandidate_def OnPortDestroyed_def tc_OnReadPacket_def Let_def)

lemma sort_ok_post: "sort_ok ch \<Longrightarrow> sort_ok (tc_post due m ch)"
  by (auto simp: sort_ok_def tc_post_def)

lemma sort_ok_Request: "sort_ok ch \<Longrightarrow> sort_ok (RequestSort now ch)"
  by (auto simp: sort_ok_def RequestSort_def tc_post_def)

lemma sort_ok_Switch: "SwitchBestConnectionTo conn ch = Some ch' \<Longrightarrow> sort_ok ch \<Longrightarrow> sort_ok ch'"
  by (auto simp: SwitchBestConnectionTo_def NominateBestConnection_def Let_def split: option.splits bind_splits)

lemma sort_ok_handle: "tc_handle now e ch = Some ch' \<Longrightarrow> sort_ok ch \<Longrightarrow> sort_ok ch'"
  by (cases "(now, e, ch)" rule: tc_handle.cases)
     (auto simp: OnUseCandidate_def sort_ok_Request split: if_splits bind_splits dest: sort_ok_Switch)

lemmas sort_ok_fold = fold_option_inv [where P = sort_ok]

lemma sort_ok_collect: "tc_collect now i p ch = Some ch' \<Longrightarrow> sort_ok ch \<Longrightarrow> sort_ok ch'"
  unfolding tc_collect_def by (erule sort_ok_fold) (auto intro: sort_ok_handle)

lemma sort_ok_update: "tc_update now f r ch = Some ch' \<Longrightarrow> sort_ok ch \<Longrightarrow> sort_ok ch'"
  by (auto simp: tc_update_def split: if_splits intro: sort_ok_collect)

lemma sort_ok_prune: "prune_network now network ch = Some ch' \<Longrightarrow> sort_ok ch \<Longrightarrow> sort_ok ch'"
  by (auto simp: prune_network_def prune_connection_def split: option.splits if_splits bind_splits
      elim!: sort_ok_fold intro: sort_ok_update)

lemma handle_states_frame [simp]:
  "tc_sort_dirty (handle_states cs ch) = tc_sort_dirty ch" "tc_queue (handle_states cs ch) = tc_queue ch"
  "tc_store (handle_states cs ch) = tc_store ch" "tc_connections (handle_states cs ch) = tc_connections ch"
  "tc_best (handle_states cs ch) = tc_best ch" "tc_ports (handle_states cs ch) = tc_ports ch"
  by (simp_all add: handle_states_def HandleWritable_def HandleNotWritable_def HandleAllTimedOut_def tc_set_writable_def
      tc_Allocate_def tc_note_def Let_def)

lemma sort_ok_handle_states [simp]: "sort_ok (handle_states cs ch) = sort_ok ch"
  by (simp add: sort_ok_def)

text \<open>A sort leaves this true whatever was true before it.\<close>

lemma sort_ok_Sort:
  assumes step: "SortConnections now ch = Some ch'"
  shows "sort_ok ch'"
proof -
  from step obtain ch1 conns switch ch3 ch4 networks cs where
    s: "(if switch then SwitchBestConnectionTo (case conns of [] \<Rightarrow> None | r # rs \<Rightarrow> Some r)
                         (ch1\<lparr>tc_sort_dirty := False, tc_connections := conns\<rparr>)
        else Some (ch1\<lparr>tc_sort_dirty := False, tc_connections := conns\<rparr>)) = Some ch3"
      "fold_option (prune_network now) networks ch3 = Some ch4"
      "UpdateChannelState (handle_states cs ch4) = Some ch'"
    by (auto simp: SortConnections_def Let_def split: bind_splits)
  from s(1) have "sort_ok ch3" by (auto split: if_splits dest: sort_ok_Switch)
  from sort_ok_fold [OF s(2) this] have "sort_ok ch4" using sort_ok_prune by blast
  with s(3) show ?thesis by (auto simp: UpdateChannelState_def sort_ok_handle_states split: if_splits bind_splits)
qed

lemma sort_ok_Create: "tc_CreateConnection now i cand origin readable ch = Some (made, ch') \<Longrightarrow> sort_ok ch \<Longrightarrow> sort_ok ch'"
  by (auto simp: tc_CreateConnection_def Let_def split: option.splits if_splits bind_splits prod.splits
      dest!: sort_ok_collect sort_ok_update)

lemma sort_ok_CreateConnections:
  assumes "CreateConnections now cand origin readable ch = Some (made, ch')" and "sort_ok ch"
  shows "sort_ok ch'"
proof -
  from assms(1) obtain js ch1 where l: "fold_option (create_on now cand origin readable) js (False, ch) = Some (made, ch1)"
    "ch' = RememberRemoteCandidate cand origin ch1"
    by (auto simp: CreateConnections_def Let_def split: bind_splits)
  have "sort_ok (snd (made, ch1))"
    by (rule fold_option_inv [where P = "\<lambda>s. sort_ok (snd s)", OF l(1)])
       (use assms(2) sort_ok_Create in \<open>auto simp: create_on_def split: bind_splits\<close>)
  with l(2) show ?thesis by simp
qed

lemma sort_ok_UnknownAddress:
  "OnUnknownAddress mem inp i address proto msg user muxed ch = Some ch' \<Longrightarrow> sort_ok ch \<Longrightarrow> sort_ok ch'"
  by (auto simp: OnUnknownAddress_def split: option.splits if_splits bind_splits intro: sort_ok_collect sort_ok_Sort)

lemma sort_ok_output: "tc_port_output mem inp i e ch = Some ch' \<Longrightarrow> sort_ok ch \<Longrightarrow> sort_ok ch'"
  by (cases e) (auto intro: sort_ok_UnknownAddress)

lemma sort_ok_outputs: "fold_option (tc_port_output mem inp i) es ch = Some ch' \<Longrightarrow> sort_ok ch \<Longrightarrow> sort_ok ch'"
  by (rule sort_ok_fold) (auto intro: sort_ok_output)

lemma sort_ok_port_event: "tc_port_event mem inp i e ch = Some ch' \<Longrightarrow> sort_ok ch \<Longrightarrow> sort_ok ch'"
  by (auto simp: tc_port_event_def split: option.splits bind_splits dest: sort_ok_outputs sort_ok_collect)

lemma sort_ok_Destroyed: "tc_OnConnectionDestroyed now r ch = Some ch' \<Longrightarrow> sort_ok ch \<Longrightarrow> sort_ok ch'"
  by (auto simp: tc_OnConnectionDestroyed_def Let_def split: if_splits intro!: sort_ok_Request dest: sort_ok_Switch)

lemma sort_ok_delete: "tc_delete mem inp r ch = Some ch' \<Longrightarrow> sort_ok ch \<Longrightarrow> sort_ok ch'"
  by (auto simp: tc_delete_def split: option.splits bind_splits if_splits
      dest: sort_ok_Destroyed sort_ok_outputs sort_ok_collect)

lemma sort_ok_OnPing: "OnPing mem inp ch = Some ch' \<Longrightarrow> sort_ok ch \<Longrightarrow> sort_ok ch'"
  by (auto simp: OnPing_def tc_Ping_def UpdateConnectionStates_def Let_def split: bind_splits option.splits
      intro!: sort_ok_post elim!: sort_ok_fold sort_ok_update intro: sort_ok_update)

lemma sort_ok_port_fold: "sort_ok (fold (\<lambda>i ch. tc_set_port i (f (tc_store ch ! i)) ch) is' ch) = sort_ok ch"
  by (induction is' arbitrary: ch) simp_all

lemma sort_ok_SendPacket:
  assumes step: "tc_SendPacket inp data flags ch = Some (n, ch')" and ok: "sort_ok ch"
  shows "sort_ok ch'"
proof -
  have "sort_ok ch1" if "tc_collect now i p ch = Some ch1" for now i p ch1 by (rule sort_ok_collect [OF that ok])
  with step ok show ?thesis by (auto simp: tc_SendPacket_def split: if_splits option.splits bind_splits)
qed

lemma sort_ok_GetStats: "tc_GetStats now ch = Some (infos, ch') \<Longrightarrow> sort_ok ch \<Longrightarrow> sort_ok ch'"
proof -
  assume step: "tc_GetStats now ch = Some (infos, ch')" and ok: "sort_ok ch"
  have "sort_ok (snd (infos, ch'))"
    by (rule fold_option_inv [where P = "\<lambda>s. sort_ok (snd s)", OF step [unfolded tc_GetStats_def]])
       (use ok in \<open>auto simp: stats_of_def split: bind_splits dest: sort_ok_update\<close>)
  then show ?thesis by simp
qed

lemma sort_ok_Reset: "sort_ok (tc_Reset now requested ch)"
proof -
  have "tc_sort_dirty (tc_Reset now requested ch) = False"
    by (cases requested) (simp_all add: tc_Reset_def tc_post_def tc_Allocate_def tc_note_def Let_def)
  then show ?thesis by (simp add: sort_ok_def)
qed

lemma sort_ok_remove:
  assumes "sort_ok ch" and "i < length (tc_queue ch)" and "snd (tc_queue ch ! i) = MSG_PING"
  shows "sort_ok (ch\<lparr>tc_queue := take i (tc_queue ch) @ drop (Suc i) (tc_queue ch)\<rparr>)"
proof -
  have "tc_queue ch = take i (tc_queue ch) @ tc_queue ch ! i # drop (Suc i) (tc_queue ch)" by (rule id_take_nth_drop [OF assms(2)])
  then have "set (tc_queue ch) = insert (tc_queue ch ! i) (set (take i (tc_queue ch)) \<union> set (drop (Suc i) (tc_queue ch)))"
    by (metis Un_insert_right list.simps(15) set_append)
  with assms show ?thesis by (auto simp: sort_ok_def)
qed

lemma sort_ok_step: "channel_step mem e ch = Some ch' \<Longrightarrow> sort_ok ch \<Longrightarrow> sort_ok ch'"
proof -
  assume step: "channel_step mem e ch = Some ch'" and ok: "sort_ok ch"
  obtain inp ev where e: "e = (inp, ev)" by fastforce
  show ?thesis
  proof (cases ev)
    case (Port_ready p)
    with step e ok show ?thesis by (auto simp: OnPortReady_def Let_def split: if_splits bind_splits dest: sort_ok_Sort)
  next
    case (Remote_candidate c)
    with step e show ?thesis by (auto simp: OnCandidate_def split: bind_splits dest: sort_ok_Sort)
  next
    case (Queue_message i)
    with step e ok show ?thesis
      by (auto simp: tc_OnMessage_def sort_ok_remove split: if_splits channel_message.splits dest: sort_ok_Sort sort_ok_OnPing)
  next
    case (Change_tiebreaker t)
    with step e ok show ?thesis by (auto simp: tc_SetTiebreaker_def sort_ok_def)
  next
    case (Set_option opt v)
    with step e ok show ?thesis by (cases "map_of (tc_options ch) opt = Some v") (auto simp: tc_SetOption_def sort_ok_def)
  next
    case Signaling_ready
    with step e ok show ?thesis by (cases "tc_waiting ch") (auto simp: OnSignalingReady_def AddAllocatorSession_def sort_ok_def)
  next
    case (Reset_channel requested)
    with step e show ?thesis using sort_ok_Reset by auto
  qed (use step e ok in \<open>auto simp: tc_Connect_def tc_Allocate_def tc_SetRole_def tc_SetIceProtocolType_def sort_ok_port_fold
      tc_SetIceUfrag_def tc_SetIcePwd_def split: if_splits intro!: sort_ok_post
      dest: sort_ok_port_event sort_ok_delete sort_ok_SendPacket sort_ok_GetStats
      simp: OnCandidatesReady_def OnCandidatesAllocationDone_def\<close>)
qed

lemma sort_ok_run: "channel_run mem es ch = Some ch' \<Longrightarrow> sort_ok ch \<Longrightarrow> sort_ok ch'"
  by (induction es arbitrary: ch) (auto split: bind_splits intro: sort_ok_step)

section \<open>The references\<close>

text \<open>
  C20.  Whatever its ports, its peer, its timers and its owner do, and in whatever order, a channel that has
  not failed lists every connection of its ports once and nothing else, its best connection is one of them, the
  ports it still uses have not deleted themselves, and a sort it has promised is in the queue.
\<close>

theorem channel_refs_live:
  assumes "channel_run mem es (P2PTransportChannel component) = Some ch"
  shows "distinct (tc_connections ch)
    \<and> set (tc_connections ch) = {(i, cd_address (cx_remote c)) | i c. i < length (tc_store ch) \<and> c \<in> set (pt_connections (tc_store ch ! i))}
    \<and> (\<forall>r. tc_best ch = Some r \<longrightarrow> r \<in> set (tc_connections ch))
    \<and> (\<forall>i \<in> set (tc_ports ch). i < length (tc_store ch) \<and> \<not> pt_destroyed (tc_store ch ! i))
    \<and> (tc_sort_dirty ch \<longrightarrow> MSG_SORT \<in> snd ` set (tc_queue ch))"
proof -
  have "refs_ok ch" by (rule refs_ok_run [OF assms refs_ok_new])
  moreover have "sort_ok ch" by (rule sort_ok_run [OF assms]) (simp add: sort_ok_def P2PTransportChannel_def)
  moreover have "refs_in store = {(i, cd_address (cx_remote c)) | i c. i < length store \<and> c \<in> set (pt_connections (store ! i))}" for store
    by (auto simp: refs_in_def addresses_def)
  ultimately show ?thesis by (simp add: refs_ok_def live_refs_def sort_ok_def)
qed

text \<open>A port and a candidate make the first connection.\<close>

definition sample_events :: "(port_input \<times> channel_event) list" where
  "sample_events = [(sample_inp, Port_ready sample_A), (sample_inp, Remote_candidate (sample_candidate sample_b [98] [113]))]"

lemma sample_channel:
  "\<exists>ch. channel_run [] sample_events (P2PTransportChannel 1) = Some ch \<and> tc_connections ch = [(0, sample_b)]"
proof -
  have "map_option tc_connections (channel_run [] sample_events (P2PTransportChannel 1)) = Some [(0, sample_b)]" by code_simp
  then show ?thesis by auto
qed

theorem channel_refs_live_witness:
  "\<exists>ch c. channel_run [] sample_events (P2PTransportChannel 1) = Some ch \<and> c \<in> set (pt_connections (tc_store ch ! 0))
     \<and> cd_address (cx_remote c) = sample_b"
proof -
  obtain ch where ch: "channel_run [] sample_events (P2PTransportChannel 1) = Some ch" "tc_connections ch = [(0, sample_b)]"
    using sample_channel by blast
  have "(0, sample_b) \<in> {(i, cd_address (cx_remote c)) | i c. i < length (tc_store ch) \<and> c \<in> set (pt_connections (tc_store ch ! i))}"
    unfolding channel_refs_live [OF ch(1), THEN conjunct2, THEN conjunct1, symmetric] by (simp add: ch(2))
  with ch(1) show ?thesis by auto
qed

end
