(* ===== verification/ChannelOrder.thy ===== *)
theory ChannelOrder
  imports ChannelSort "HOL-Library.Product_Lexorder"
begin

text \<open>
  The order of the connections.  On generations of less than 31 bits the three-way comparisons of the code
  are the lexicographic order of write state, priority, generation and round trip time, so that the sort is the
  library's stable one, and its head is never one that the channel would not switch to.
\<close>

definition key_order :: "connection_key \<Rightarrow> nat \<times> nat \<times> nat \<times> nat" where
  "key_order k = (case k of (w, p, g, r) \<Rightarrow> (w, 2 ^ 64 - unat p, 2 ^ 32 - unat g, unat r))"

definition small_generation :: "connection_key \<Rightarrow> bool" where
  "small_generation k \<longleftrightarrow> fst (snd (snd k)) < 0x80000000"

lemma sint_diff:
  assumes "(a :: uint32) < 0x80000000" and "b < 0x80000000"
  shows "0 < sint (a - b) \<longleftrightarrow> unat b < unat a" "sint (a - b) < 0 \<longleftrightarrow> unat a < unat b"
    "sint (a - b) = 0 \<longleftrightarrow> unat a = unat b"
proof -
  have u: "uint a < 2147483648" "uint b < 2147483648" using assms by (simp_all add: word_less_def)
  have half: "(let d = (if y \<le> x then x - y else x - y + 4294967296)
      in if d < 2147483648 then d else d - 4294967296) = x - y"
    if "0 \<le> x" "0 \<le> y" "x < 2147483648" "y < 2147483648" for x y :: int
    using that by (auto simp: Let_def)
  have "uint (a - b) = (if uint b \<le> uint a then uint a - uint b else uint a - uint b + 4294967296)"
    by (simp add: uint_sub_if')
  with half [OF _ _ u] have "sint (a - b) = uint a - uint b" by (simp only: sint32_eq Let_def uint_ge_0 if_True simp_thms)
  moreover have "unat a = unat b \<longleftrightarrow> uint a = uint b" using word_uint_eq_iff [of a b] word_unat_eq_iff [of a b] by blast
  ultimately show "0 < sint (a - b) \<longleftrightarrow> unat b < unat a" "sint (a - b) < 0 \<longleftrightarrow> unat a < unat b"
    "sint (a - b) = 0 \<longleftrightarrow> unat a = unat b"
    by (simp_all add: word_less_def flip: word_lt_nat)
qed

lemma unat64_lt: "unat (x :: uint64) < 18446744073709551616"
  using unsigned_less [of x, where ?'a = nat] by simp

lemma Compare_order:
  assumes "small_generation a" and "small_generation b"
  shows "ConnectionCompare a b \<longleftrightarrow> key_order a < key_order b"
proof -
  obtain wa pa ga ra where a: "a = (wa, pa, ga, ra)" by (cases a)
  obtain wb pb gb rb where b: "b = (wb, pb, gb, rb)" by (cases b)
  have "ga < 0x80000000" "gb < 0x80000000" using assms by (simp_all add: a b small_generation_def)
  note g = sint_diff [OF this] and u = this [unfolded word_lt_nat, simplified]
  show ?thesis
    unfolding a b key_order_def ConnectionCompare_def CompareConnections_def key_rtt_def Let_def
    using unat64_lt [of pa] unat64_lt [of pb] u
    by (auto simp: g less_prod_simp word_lt_nat kMinImprovement_def)
qed

lemma stable_sort_key:
  assumes "\<And>a b. a \<in> set xs \<Longrightarrow> b \<in> set xs \<Longrightarrow> before a b \<longleftrightarrow> f a < (f b :: 'k :: linorder)"
  shows "stable_sort before xs = sort_key f xs"
proof -
  have i: "stable_insert before x ys = insort_key f x ys"
    if "\<And>y. y \<in> set ys \<Longrightarrow> before y x \<longleftrightarrow> f y < f x" for x ys
    using that by (induction ys) auto
  show ?thesis using assms
  proof (induction xs)
    case (Cons x xs)
    then have "stable_sort before xs = sort_key f xs" by simp
    then show ?case using Cons.prems by (simp add: stable_sort_def) (rule i, simp)
  qed (simp add: stable_sort_def)
qed

text \<open>The channel switches to a head it does not have yet, whatever the round trip times.\<close>

lemma ShouldSwitch_order:
  assumes "small_generation a" and "small_generation b" and "key_order b \<le> key_order a"
  shows "ShouldSwitch_keys a b"
proof -
  obtain wa pa ga ra where a: "a = (wa, pa, ga, ra)" by (cases a)
  obtain wb pb gb rb where b: "b = (wb, pb, gb, rb)" by (cases b)
  have "ga < 0x80000000" "gb < 0x80000000" using assms by (simp_all add: a b small_generation_def)
  note g = sint_diff [OF this] and u = this [unfolded word_lt_nat, simplified]
  show ?thesis
    using assms(3) unat64_lt [of pa] unat64_lt [of pb] u
    unfolding a b key_order_def ShouldSwitch_keys_def CompareConnections_def key_rtt_def Let_def
    by (auto simp: g less_eq_prod_simp word_lt_nat kMinImprovement_def split: if_splits)
qed

end
