(* ===== verification/ChannelElect.thy ===== *)
theory ChannelElect
  imports ChannelOrder
begin

text \<open>
  What a sort does, from any state a channel can reach: it does not fail, puts its connections in order,
  takes the first, and prunes only what a writable connection of the same network makes useless.
\<close>

section \<open>Changing one connection\<close>

definition calm :: "(ice_connection \<Rightarrow> ice_connection) \<Rightarrow> bool" where
  "calm f \<longleftrightarrow> (\<forall>c. cx_static (f c) = cx_static c \<and> (cx_signals c = [] \<longrightarrow> set (cx_signals (f c)) \<subseteq> {State_change}))"

lemma signals_setters:
  "set (cx_signals (set_read_state v c)) \<subseteq> insert State_change (set (cx_signals c))"
  "set (cx_signals (set_write_state w c)) \<subseteq> insert State_change (set (cx_signals c))"
  by (auto simp: set_read_state_def set_write_state_def cx_CheckTimeout_def cx_note_def)

lemma calm_UpdateState: "calm (cx_UpdateState t)"
proof -
  have "set (cx_signals (cx_UpdateState t c)) \<subseteq> insert State_change (set (cx_signals c))" for c
    unfolding cx_UpdateState_def update_read_state_def update_unreliable_def update_write_timeout_def Let_def
    using signals_setters by (auto split: if_splits) (meson insertE subsetD)+
  then show ?thesis by (fastforce simp: calm_def)
qed

lemma calm_Prune: "calm cx_Prune"
  using signals_setters(2) by (auto simp: calm_def cx_Prune_def) fastforce

definition clear_signals :: "ice_connection \<Rightarrow> ice_connection" where
  "clear_signals c = c\<lparr>cx_signals := []\<rparr>"

lemma state_changes_handled:
  assumes "\<forall>e \<in> set es. snd e = State_change"
  shows "\<exists>q d. fold_option (tc_handle now) es ch = Some (ch\<lparr>tc_queue := q, tc_sort_dirty := d\<rparr>)"
  using assms
proof (induction es arbitrary: ch)
  case Nil
  show ?case by (rule exI [of _ "tc_queue ch"], rule exI [of _ "tc_sort_dirty ch"]) simp
next
  case (Cons e es)
  have h: "tc_handle now e ch = Some (RequestSort now ch)" using Cons.prems by (cases e) simp
  have "\<exists>q d. RequestSort now ch = ch\<lparr>tc_queue := q, tc_sort_dirty := d\<rparr>"
  proof (cases "tc_sort_dirty ch")
    case True
    show ?thesis by (rule exI [of _ "tc_queue ch"], rule exI [of _ True]) (simp add: RequestSort_def True)
  qed (auto simp: RequestSort_def tc_post_def)
  then obtain q1 d1 where r: "RequestSort now ch = ch\<lparr>tc_queue := q1, tc_sort_dirty := d1\<rparr>" by blast
  from Cons.IH [of "RequestSort now ch"] Cons.prems show ?case by (simp add: h) (simp add: r)
qed

definition changed :: "(ice_connection \<Rightarrow> ice_connection) \<Rightarrow> connection_ref \<Rightarrow> transport_channel \<Rightarrow> ice_port list" where
  "changed f r ch = (tc_store ch)[fst r := without_signals (pt_update (snd r) f (tc_store ch ! fst r))]"

lemma update_runs:
  assumes ok: "refs_ok ch" and r: "r \<in> set (tc_connections ch)" and f: "calm f"
  shows "\<exists>q d. tc_update now f r ch = Some (ch\<lparr>tc_store := changed f r ch, tc_queue := q, tc_sort_dirty := d\<rparr>)"
proof -
  let ?p = "tc_store ch ! fst r"
  have i: "fst r < length (tc_store ch)" using ok r by (simp add: refs_ok_member)
  note pok = refs_ok_port [OF ok i]
  obtain c where "tc_get r ch = Some c" by (rule tc_get_member [OF ok r])
  then have u: "tc_update now f r ch = tc_collect now (fst r) (pt_update (snd r) f ?p) ch" by (simp add: tc_update_def)
  have "cx_signals c = []" if "c \<in> set (pt_connections ?p)" for c using pok that by (simp add: port_ok_def)
  with f have "\<forall>e \<in> set (port_signals (fst r) (pt_update (snd r) f ?p)). snd e = State_change"
    by (auto simp: port_signals_def pt_update_def calm_def split: if_splits)
  from state_changes_handled [OF this, of now] show ?thesis
    using pok unfolding u tc_collect_def changed_def
    by (simp add: tc_set_port_def pt_update_def port_ok_def)
qed

text \<open>What it does to the connections, as the channel sees them.\<close>

lemma find_map:
  assumes "\<And>c. c \<in> set xs \<Longrightarrow> P (g c) = P c"
  shows "List.find P (map g xs) = map_option g (List.find P xs)"
  using assms by (induction xs) auto

lemma tc_get_changed:
  assumes ok: "refs_ok ch" and r: "r \<in> set (tc_connections ch)" and q: "q \<in> set (tc_connections ch)" and f: "calm f"
    and s: "tc_store ch' = changed f r ch"
  shows "tc_get q ch' = map_option (\<lambda>c. clear_signals (if q = r then f c else c)) (tc_get q ch)"
proof -
  let ?p = "tc_store ch ! fst r" and ?g = "\<lambda>c. clear_signals (if sa_eq (cd_address (cx_remote c)) (snd r) then f c else c)"
  have i: "fst r < length (tc_store ch)" "fst q < length (tc_store ch)" using ok r q by (simp_all add: refs_ok_member)
  obtain cq where cq: "tc_get q ch = Some cq" "cq \<in> set (pt_connections (tc_store ch ! fst q))" "cd_address (cx_remote cq) = snd q"
    by (rule tc_get_member [OF ok q])
  show ?thesis
  proof (cases "fst q = fst r")
    case True
    have "cx_static (f c) = cx_static c" for c using f by (simp add: calm_def)
    from static_remote [OF this] have rem: "cx_remote (?g c) = cx_remote c" for c by (simp add: clear_signals_def)
    have "GetConnection (snd q) (without_signals (pt_update (snd r) f ?p)) = List.find (\<lambda>c. sa_eq (cd_address (cx_remote c)) (snd q)) (map ?g (pt_connections ?p))"
      by (simp add: GetConnection_def without_signals_def pt_update_def clear_signals_def comp_def)
    also have "\<dots> = map_option ?g (GetConnection (snd q) ?p)"
      unfolding GetConnection_def by (rule find_map) (simp only: rem)
    finally have "tc_get q ch' = map_option ?g (tc_get q ch)" using i True by (simp add: tc_get_def s changed_def)
    moreover have "sa_eq (snd q) (snd r) \<longleftrightarrow> q = r"
    proof
      assume "sa_eq (snd q) (snd r)"
      moreover have "snd q \<in> set (addresses ?p)" "snd r \<in> set (addresses ?p)"
        using refs_ok_member [OF ok, of r] refs_ok_member [OF ok, of q] r q True by simp_all
      ultimately have "snd q = snd r"
        using distinct_addressesD [of ?p "snd q" "snd r"] refs_ok_port [OF ok i(1)] by (simp add: port_ok_def)
      with True show "q = r" by (simp add: prod_eq_iff)
    qed (simp add: sa_eq_def)
    ultimately show ?thesis using cq by simp
  next
    case False
    have "tc_get q ch' = tc_get q ch" using False by (simp add: tc_get_def s changed_def)
    moreover have "clear_signals cq = cq" using refs_ok_port [OF ok i(2)] cq(2) by (simp add: port_ok_def clear_signals_def)
    ultimately show ?thesis using cq(1) False by auto
  qed
qed

section \<open>A sort does not fail\<close>

text \<open>The fields that only the channel itself changes.\<close>

definition control :: "transport_channel \<Rightarrow> connection_ref option \<times> bool \<times> bool \<times> transport_role" where
  "control ch = (tc_best ch, tc_readable ch, tc_writable ch, tc_role ch)"

lemma update_total:
  assumes "refs_ok ch" and "r \<in> set (tc_connections ch)" and "calm f"
  obtains ch' where "tc_update now f r ch = Some ch'" "refs_ok ch'" "stays ch ch'" "control ch' = control ch"
    "\<And>q. q \<in> set (tc_connections ch) \<Longrightarrow> tc_get q ch' = map_option (\<lambda>c. clear_signals (if q = r then f c else c)) (tc_get q ch)"
proof -
  from update_runs [OF assms] obtain q d where
    u: "tc_update now f r ch = Some (ch\<lparr>tc_store := changed f r ch, tc_queue := q, tc_sort_dirty := d\<rparr>)" by blast
  have k: "refs_ok (ch\<lparr>tc_store := changed f r ch, tc_queue := q, tc_sort_dirty := d\<rparr>)"
    "stays ch (ch\<lparr>tc_store := changed f r ch, tc_queue := q, tc_sort_dirty := d\<rparr>)"
    using refs_ok_update [OF assms(1) u] assms(3) by (simp_all add: calm_def)
  show thesis
    by (rule that [OF u k]) (simp add: control_def, rule tc_get_changed [OF assms(1,2) _ assms(3)], simp_all)
qed

lemma UpdateStates_total:
  assumes "refs_ok ch"
  obtains ch' where "UpdateConnectionStates now ch = Some ch'" "refs_ok ch'" "stays ch ch'" "control ch' = control ch"
proof -
  have "\<exists>ch'. fold_option (tc_update now (cx_UpdateState (of_nat now))) rs ch = Some ch' \<and> refs_ok ch' \<and> stays ch ch' \<and> control ch' = control ch"
    if "set rs \<subseteq> set (tc_connections ch)" for rs
    using that assms
  proof (induction rs arbitrary: ch)
    case (Cons r rs)
    obtain ch1 where c: "tc_update now (cx_UpdateState (of_nat now)) r ch = Some ch1" "refs_ok ch1" "stays ch ch1" "control ch1 = control ch"
      by (rule update_total [OF Cons.prems(2) _ calm_UpdateState]) (use Cons.prems(1) in auto)
    have "set rs \<subseteq> set (tc_connections ch1)" using Cons.prems(1) c(3) by (simp add: stays_def)
    from Cons.IH [OF this c(2)] obtain ch2 where "fold_option (tc_update now (cx_UpdateState (of_nat now))) rs ch1 = Some ch2"
      "refs_ok ch2" "stays ch1 ch2" "control ch2 = control ch1" by blast
    with c show ?case using stays_trans by auto
  qed simp
  with that show thesis unfolding UpdateConnectionStates_def by blast
qed

text \<open>Ports of one protocol, and generations that fit their signed difference.\<close>

definition same_protocol :: "transport_channel \<Rightarrow> bool" where
  "same_protocol ch \<longleftrightarrow> (\<forall>a \<in> set (tc_connections ch). \<forall>b \<in> set (tc_connections ch).
     pt_protocol (tc_store ch ! fst a) = pt_protocol (tc_store ch ! fst b))"

definition small_generations :: "transport_channel \<Rightarrow> bool" where
  "small_generations ch \<longleftrightarrow> (\<forall>i < length (tc_store ch). \<forall>s \<in> set (map cx_static (pt_connections (tc_store ch ! i))).
     cd_generation (fst s) + pt_generation (tc_store ch ! i) < 0x80000000)"

lemma stays_port: "stays ch ch' \<Longrightarrow> i < length (tc_store ch) \<Longrightarrow> keeps (tc_store ch ! i) (tc_store ch' ! i)"
  by (simp add: stays_def list_all2_conv_all_nth)

lemma stays_lengths: "stays ch ch' \<Longrightarrow> length (tc_store ch') = length (tc_store ch)"
  using list_all2_lengthD [of keeps "tc_store ch" "tc_store ch'"] by (simp add: stays_def)

lemma stays_small: "stays ch ch' \<Longrightarrow> small_generations ch \<Longrightarrow> small_generations ch'"
proof -
  assume st: "stays ch ch'" and "small_generations ch"
  then have sm: "cd_generation (fst s) + pt_generation (tc_store ch ! i) < 0x80000000"
    if "i < length (tc_store ch)" "s \<in> set (map cx_static (pt_connections (tc_store ch ! i)))" for i s
    using that unfolding small_generations_def by blast
  have k: "map cx_static (pt_connections (tc_store ch' ! i)) = map cx_static (pt_connections (tc_store ch ! i))"
    "pt_generation (tc_store ch' ! i) = pt_generation (tc_store ch ! i)" if "i < length (tc_store ch)" for i
    using stays_port [OF st that] by (simp_all only: keeps_def)
  show "small_generations ch'"
    unfolding small_generations_def stays_lengths [OF st] using sm k by (auto simp del: set_map)
qed

lemma stays_protocol:
  assumes "stays ch ch'" and "refs_ok ch" and "same_protocol ch"
  shows "same_protocol ch'"
proof -
  have "pt_protocol (tc_store ch' ! fst a) = pt_protocol (tc_store ch ! fst a)" if "a \<in> set (tc_connections ch)" for a
    using stays_port [OF assms(1), of "fst a"] refs_ok_member [OF assms(2), of a] that by (simp add: keeps_def)
  moreover have "tc_connections ch' = tc_connections ch" using assms(1) by (simp add: stays_def)
  ultimately show ?thesis using assms(3) unfolding same_protocol_def by metis
qed

lemma stays_network:
  "stays ch ch' \<Longrightarrow> refs_ok ch \<Longrightarrow> r \<in> set (tc_connections ch) \<Longrightarrow> tc_network r ch' = tc_network r ch"
  using stays_port [of ch ch' "fst r"] by (simp add: refs_ok_member tc_network_def keeps_def)

abbreviation the_key :: "transport_channel \<Rightarrow> connection_ref \<Rightarrow> connection_key" where
  "the_key ch r \<equiv> the (connection_key ch r)"

lemma key_total:
  assumes ok: "refs_ok ch" and r: "r \<in> set (tc_connections ch)"
  obtains c k where "tc_get r ch = Some c" "connection_key ch r = Some k" "fst k = write_rank (cx_write c)"
    "small_generations ch \<Longrightarrow> small_generation k"
proof -
  obtain c where c: "tc_get r ch = Some c" "c \<in> set (pt_connections (tc_store ch ! fst r))"
    by (rule tc_get_member [OF ok r])
  have i: "fst r < length (tc_store ch)" using ok r by (simp add: refs_ok_member)
  have "cx_priority (tc_store ch ! fst r) c \<noteq> None"
    using refs_ok_port [OF ok i] c(2) by (auto simp: cx_priority_def cx_local_candidate_def port_ok_def)
  then obtain p where p: "cx_priority (tc_store ch ! fst r) c = Some p" by blast
  have "cx_static c \<in> set (map cx_static (pt_connections (tc_store ch ! fst r)))" using c(2) by simp
  then have g: "small_generations ch \<Longrightarrow> cd_generation (cx_remote c) + pt_generation (tc_store ch ! fst r) < 0x80000000"
    unfolding small_generations_def using i by (metis cx_static_def fst_conv)
  show thesis by (rule that [OF c(1)]) (use c(1) p g in \<open>auto simp: connection_key_def small_generation_def\<close>)
qed

definition by_key :: "transport_channel \<Rightarrow> connection_ref \<Rightarrow> nat \<times> nat \<times> nat \<times> nat" where
  "by_key ch r = key_order (the_key ch r)"

lemma those_map: "(\<And>x. x \<in> set xs \<Longrightarrow> f x \<noteq> None) \<Longrightarrow> those (map f xs) = Some (map (\<lambda>x. the (f x)) xs)"
  by (induction xs) (auto, fastforce)

lemma sort_key_map: "sort_key f (map g xs) = map g (sort_key (\<lambda>x. f (g x)) xs)"
proof -
  have "insort_key f (g x) (map g ys) = map g (insort_key (\<lambda>x. f (g x)) x ys)" for x ys by (induction ys) auto
  then show ?thesis by (induction xs) auto
qed

lemma sort_total:
  assumes ok: "refs_ok ch" and "same_protocol ch" and small: "small_generations ch"
  shows "sort_connections ch = Some (sort_key (by_key ch) (tc_connections ch))"
proof -
  have k: "connection_key ch r \<noteq> None" "small_generation (the_key ch r)" if "r \<in> set (tc_connections ch)" for r
    using key_total [OF ok that] small by (metis option.distinct(1), metis option.sel)
  have z: "zip (map (the_key ch) rs) rs = map (\<lambda>r. (the_key ch r, r)) rs" for rs by (induction rs) auto
  have "stable_sort (\<lambda>a b. ConnectionCompare (fst a) (fst b)) (map (\<lambda>r. (the_key ch r, r)) (tc_connections ch))
      = sort_key (\<lambda>a. key_order (fst a)) (map (\<lambda>r. (the_key ch r, r)) (tc_connections ch))"
    by (rule stable_sort_key, rule Compare_order) (use k(2) in force)+
  also have "map snd \<dots> = sort_key (by_key ch) (tc_connections ch)"
    by (simp add: sort_key_map comp_def by_key_def [abs_def])
  finally have m: "map snd (stable_sort (\<lambda>a b. ConnectionCompare (fst a) (fst b)) (map (\<lambda>r. (the_key ch r, r)) (tc_connections ch)))
      = sort_key (by_key ch) (tc_connections ch)" .
  have keys: "those (map (connection_key ch) (tc_connections ch)) = Some (map (the_key ch) (tc_connections ch))"
    by (rule those_map) (rule k(1))
  have "\<not> (\<exists>a \<in> set (tc_connections ch). \<exists>b \<in> set (tc_connections ch).
      pt_protocol (tc_store ch ! fst a) \<noteq> pt_protocol (tc_store ch ! fst b))"
    using assms(2) unfolding same_protocol_def by blast
  then show ?thesis unfolding sort_connections_def keys by (simp only: if_False bind.bind_lunit z m)
qed

section \<open>Switching\<close>

definition link :: "transport_channel \<Rightarrow> connection_ref \<Rightarrow> (write_state \<times> read_state \<times> bool) option" where
  "link ch r = map_option (\<lambda>c. (cx_write c, cx_read c, cx_pruned c)) (tc_get r ch)"

lemma without_ok: "port_ok p \<Longrightarrow> without_signals p = p"
proof -
  assume "port_ok p"
  then have "map (\<lambda>c. c\<lparr>cx_signals := []\<rparr>) (pt_connections p) = pt_connections p" "pt_out p = []"
    by (auto simp: port_ok_def intro: map_idI)
  then show ?thesis by (simp add: without_signals_def)
qed

lemma nominate_changed:
  assumes ok: "refs_ok ch" and r: "r \<in> set (tc_connections ch)"
  shows "tc_store (tc_nominate r ch) = changed (\<lambda>c. c\<lparr>cx_nominated := True\<rparr>) r ch"
proof -
  have i: "fst r < length (tc_store ch)" using ok r by (simp add: refs_ok_member)
  have "refs_ok (tc_nominate r ch)" by (rule refs_ok_nominate [OF ok r])
  from refs_ok_port [OF this, of "fst r"] i
  have "port_ok (pt_update (snd r) (\<lambda>c. c\<lparr>cx_nominated := True\<rparr>) (tc_store ch ! fst r))"
    by (simp add: tc_nominate_def tc_set_port_def)
  from without_ok [OF this] show ?thesis by (simp add: tc_nominate_def tc_set_port_def changed_def)
qed

lemma link_nominate:
  assumes "refs_ok ch" and "r \<in> set (tc_connections ch)" and "q \<in> set (tc_connections ch)"
  shows "link (tc_nominate r ch) q = link ch q"
proof -
  have "calm (\<lambda>c. c\<lparr>cx_nominated := True\<rparr>)" by (simp add: calm_def)
  from tc_get_changed [OF assms this nominate_changed [OF assms(1,2)]]
  show ?thesis by (cases "tc_get q ch"; cases "q = r") (simp_all add: link_def clear_signals_def)
qed

lemma link_cong: "tc_store ch' = tc_store ch \<Longrightarrow> link ch' q = link ch q"
  by (simp add: link_def tc_get_def)

lemma link_NominateBest:
  assumes "refs_ok ch" and "q \<in> set (tc_connections ch)"
  shows "link (NominateBestConnection ch) q = link ch q"
  using link_nominate [OF assms(1) refs_ok_best [OF assms(1)] assms(2)]
  by (auto simp: NominateBestConnection_def split: option.split)

lemma control_NominateBest [simp]: "control (NominateBestConnection ch) = control ch"
  by (simp add: NominateBestConnection_def tc_nominate_def tc_set_port_def control_def split: option.split)

lemma Switch_total:
  assumes ok: "refs_ok ch" and r: "\<forall>r. conn = Some r \<longrightarrow> r \<in> set (tc_connections ch)"
  obtains ch' where "SwitchBestConnectionTo conn ch = Some ch'" "refs_ok ch'" "stays ch ch'"
    "control ch' = control (ch\<lparr>tc_best := conn\<rparr>)" "\<And>q. q \<in> set (tc_connections ch) \<Longrightarrow> link ch' q = link ch q"
proof -
  have "\<exists>ch'. SwitchBestConnectionTo conn ch = Some ch' \<and> control ch' = control (ch\<lparr>tc_best := conn\<rparr>)
    \<and> (\<forall>q \<in> set (tc_connections ch). link ch' q = link ch q)"
  proof (cases conn)
    case None
    have "SwitchBestConnectionTo None ch = Some (ch\<lparr>tc_best := None\<rparr>)" by (simp add: SwitchBestConnectionTo_def)
    moreover have "link (ch\<lparr>tc_best := None\<rparr>) q = link ch q" for q by (rule link_cong) simp
    ultimately show ?thesis using None by blast
  next
    case (Some b)
    with r have b: "b \<in> set (tc_connections ch)" by blast
    obtain c where c: "tc_get b ch = Some c" by (rule tc_get_member [OF ok b])
    then have c': "tc_get b (ch\<lparr>tc_best := conn\<rparr>) = Some c" by (simp add: tc_get_def split: if_splits)
    let ?m = "tc_note (Route_change (cx_remote c)) (ch\<lparr>tc_best := conn\<rparr>)"
    have m: "refs_ok ?m" using refs_ok_set_best [OF ok r] by simp
    have "SwitchBestConnectionTo conn ch = Some (NominateBestConnection ?m)"
      using c' Some by (simp add: SwitchBestConnectionTo_def Let_def)
    moreover have "link (NominateBestConnection ?m) q = link ch q" if "q \<in> set (tc_connections ch)" for q
    proof -
      have "q \<in> set (tc_connections ?m)" using that by (simp add: tc_note_def)
      moreover have "link ?m q = link ch q" by (rule link_cong) (simp add: tc_note_def)
      ultimately show ?thesis using link_NominateBest [OF m] by simp
    qed
    moreover have "control (NominateBestConnection ?m) = control (ch\<lparr>tc_best := conn\<rparr>)"
      unfolding control_NominateBest by (simp add: tc_note_def control_def)
    ultimately show ?thesis by blast
  qed
  then obtain ch' where ch': "SwitchBestConnectionTo conn ch = Some ch'" "control ch' = control (ch\<lparr>tc_best := conn\<rparr>)"
    "\<forall>q \<in> set (tc_connections ch). link ch' q = link ch q" by blast
  show thesis by (rule that [OF ch'(1) _ _ ch'(2)]) (use refs_ok_Switch [OF ok ch'(1) r] ch'(3) in auto)
qed

section \<open>Pruning\<close>

text \<open>The connection the others of a network are compared with.\<close>

lemma GetBest_cong:
  assumes "stays ch ch'" and "refs_ok ch" and "tc_best ch' = tc_best ch"
  shows "GetBestConnectionOnNetwork network ch' = GetBestConnectionOnNetwork network ch"
proof -
  have n: "tc_network r ch' = tc_network r ch" if "r \<in> set (tc_connections ch)" for r
    by (rule stays_network [OF assms(1,2) that])
  have "List.find (\<lambda>r. tc_network r ch' = network) rs = List.find (\<lambda>r. tc_network r ch = network) rs"
    if "set rs \<subseteq> set (tc_connections ch)" for rs
    using that n by (induction rs) auto
  moreover have "tc_connections ch' = tc_connections ch" using assms(1) by (simp add: stays_def)
  ultimately show ?thesis
    using assms(3) n refs_ok_best [OF assms(2)] by (simp add: GetBestConnectionOnNetwork_def split: option.split)
qed

lemma GetBest_member:
  assumes "refs_ok ch" and "GetBestConnectionOnNetwork network ch = Some r"
  shows "r \<in> set (tc_connections ch) \<and> tc_network r ch = network"
  using assms refs_ok_best [OF assms(1)]
  by (auto simp: GetBestConnectionOnNetwork_def find_Some_iff split: option.splits if_splits)

text \<open>
  \<open>ch0\<close> is the channel before pruning, \<open>best_of\<close> the connection each network keeps, and \<open>beaten\<close> says
  that the comparison lets it go.
\<close>

definition beaten :: "transport_channel \<Rightarrow> connection_ref \<Rightarrow> connection_ref \<Rightarrow> bool" where
  "beaten ch r primier \<longleftrightarrow> 0 \<le> CompareConnectionCandidates (the_key ch primier) (the_key ch r)"

definition excused :: "transport_channel \<Rightarrow> connection_ref \<Rightarrow> bool" where
  "excused ch r \<longleftrightarrow> (\<exists>primier. GetBestConnectionOnNetwork (tc_network r ch) ch = Some primier \<and> primier \<noteq> r
     \<and> map_option fst (link ch primier) = Some STATE_WRITABLE \<and> beaten ch r primier)"

definition pruned_from :: "transport_channel \<Rightarrow> transport_channel \<Rightarrow> bool" where
  "pruned_from ch0 ch \<longleftrightarrow> refs_ok ch \<and> stays ch0 ch \<and> control ch = control ch0
     \<and> (\<forall>r \<in> set (tc_connections ch0). link ch r = link ch0 r
          \<or> excused ch0 r \<and> map_option fst (link ch r) = Some STATE_WRITE_TIMEOUT)"

lemma key_stays:
  assumes "stays ch ch'" and "refs_ok ch" and "refs_ok ch'" and "r \<in> set (tc_connections ch)"
  shows "snd (the_key ch' r) = (fst (snd (the_key ch r)), fst (snd (snd (the_key ch r))), key_rtt (the_key ch' r))"
proof -
  have r': "r \<in> set (tc_connections ch')" using assms(1,4) by (simp add: stays_def)
  obtain c where c: "tc_get r ch = Some c" "c \<in> set (pt_connections (tc_store ch ! fst r))" "cd_address (cx_remote c) = snd r"
    by (rule tc_get_member [OF assms(2,4)])
  obtain d where d: "tc_get r ch' = Some d" "d \<in> set (pt_connections (tc_store ch' ! fst r))" "cd_address (cx_remote d) = snd r"
    by (rule tc_get_member [OF assms(3) r'])
  have i: "fst r < length (tc_store ch)" using assms(2,4) by (simp add: refs_ok_member)
  have k: "keeps (tc_store ch ! fst r) (tc_store ch' ! fst r)" by (rule stays_port [OF assms(1) i])
  have "cx_static d \<in> set (map cx_static (pt_connections (tc_store ch' ! fst r)))" using d(2) by simp
  then have "cx_static d \<in> set (map cx_static (pt_connections (tc_store ch ! fst r)))" using k by (simp only: keeps_def)
  then obtain e where e: "e \<in> set (pt_connections (tc_store ch ! fst r))" "cx_static e = cx_static d" by auto
  have "e = c"
    using same_connection [of "tc_store ch ! fst r" e c] refs_ok_port [OF assms(2) i] e(1) c(2,3) d(3) static_remote [OF e(2)]
    by (simp add: port_ok_def sa_eq_def)
  with e(2) have s: "cx_remote d = cx_remote c" "cx_local_index d = cx_local_index c" by (simp_all add: cx_static_def)
  obtain k1 where k1: "connection_key ch r = Some k1" by (rule key_total [OF assms(2,4)])
  have "cx_priority (tc_store ch' ! fst r) d = cx_priority (tc_store ch ! fst r) c"
    using k s by (simp add: cx_priority_def cx_local_candidate_def keeps_def)
  with k1 c(1) d(1) s k show ?thesis by (auto simp: connection_key_def keeps_def key_rtt_def split: bind_splits)
qed

lemma beaten_stays:
  assumes "stays ch ch'" "refs_ok ch" "refs_ok ch'" "r \<in> set (tc_connections ch)" "p \<in> set (tc_connections ch)"
  shows "beaten ch' r p = beaten ch r p"
proof -
  have c: "CompareConnectionCandidates a b = (if fst (snd a) > fst (snd b) then 1 else if fst (snd a) < fst (snd b) then - 1
      else sint (fst (snd (snd a)) - fst (snd (snd b))))" for a b
    by (cases a; cases b) simp
  show ?thesis
    unfolding beaten_def c key_stays [OF assms(1-3) assms(4)] key_stays [OF assms(1-3) assms(5)] by simp
qed

lemma pruned_from_refl: "refs_ok ch \<Longrightarrow> pruned_from ch ch"
  by (simp add: pruned_from_def)

lemma pruned_from_best:
  assumes p: "pruned_from ch0 ch" and ok: "refs_ok ch0" and g: "GetBestConnectionOnNetwork network ch0 = Some primier"
  shows "link ch primier = link ch0 primier"
proof -
  note m = GetBest_member [OF ok g]
  then have "\<not> excused ch0 primier" using g by (auto simp: excused_def)
  with p m show ?thesis unfolding pruned_from_def by blast
qed

lemma prune_connection_total:
  assumes p: "pruned_from ch0 ch" and ok: "refs_ok ch0" and g: "GetBestConnectionOnNetwork network ch0 = Some primier"
    and w: "map_option fst (link ch0 primier) = Some STATE_WRITABLE" and r: "r \<in> set (tc_connections ch0)"
  obtains ch' where "prune_connection now network primier r ch = Some ch'" "pruned_from ch0 ch'"
proof -
  have ch: "refs_ok ch" "stays ch0 ch" "tc_connections ch = tc_connections ch0" using p by (simp_all add: pruned_from_def stays_def)
  note pm = GetBest_member [OF ok g]
  have n: "tc_network r ch = tc_network r ch0" by (rule stays_network [OF ch(2) ok r])
  have mem: "primier \<in> set (tc_connections ch)" "r \<in> set (tc_connections ch)" using pm r ch(3) by simp_all
  obtain kp where kp: "connection_key ch primier = Some kp" by (rule key_total [OF ch(1) mem(1)])
  obtain c kr where kr: "tc_get r ch = Some c" "connection_key ch r = Some kr" by (rule key_total [OF ch(1) mem(2)])
  show thesis
  proof (cases "r \<noteq> primier \<and> tc_network r ch0 = network \<and> beaten ch r primier")
    case True
    obtain ch' where u: "tc_update now cx_Prune r ch = Some ch'" "refs_ok ch'" "stays ch ch'" "control ch' = control ch"
      "\<And>q. q \<in> set (tc_connections ch) \<Longrightarrow> tc_get q ch' = map_option (\<lambda>c. clear_signals (if q = r then cx_Prune c else c)) (tc_get q ch)"
      by (rule update_total [OF ch(1) mem(2) calm_Prune, where now = now]) blast
    have e: "excused ch0 r"
      using True g w beaten_stays [OF ch(2) ok ch(1) r, of primier] pm by (auto simp: excused_def)
    have l: "link ch' q = link ch q \<or> q = r \<and> map_option fst (link ch' q) = Some STATE_WRITE_TIMEOUT"
      if "q \<in> set (tc_connections ch)" for q
    proof (cases "q = r")
      case True
      have "tc_get r ch' = Some (clear_signals (cx_Prune c))" using u(5) [of r] mem(2) kr(1) by simp
      then show ?thesis using True kr(1) by (cases "cx_pruned c") (simp_all add: link_def clear_signals_def cx_Prune_def)
    next
      case False
      then have "tc_get q ch' = map_option clear_signals (tc_get q ch)" using u(5) [OF that] by simp
      then show ?thesis by (cases "tc_get q ch") (simp_all add: link_def clear_signals_def)
    qed
    have "link ch' q = link ch0 q \<or> excused ch0 q \<and> map_option fst (link ch' q) = Some STATE_WRITE_TIMEOUT"
      if "q \<in> set (tc_connections ch0)" for q
    proof (cases "link ch' q = link ch q")
      case True
      with p that show ?thesis unfolding pruned_from_def by auto
    next
      case False
      with l [of q] that e ch(3) show ?thesis by auto
    qed
    moreover have "control ch' = control ch0" using u(4) p by (simp add: pruned_from_def)
    ultimately have "pruned_from ch0 ch'"
      unfolding pruned_from_def using u(2) stays_trans [OF ch(2) u(3)] by blast
    moreover have "prune_connection now network primier r ch = Some ch'"
      using True u(1) kp kr(2) n by (simp add: prune_connection_def beaten_def)
    ultimately show thesis using that by blast
  next
    case False
    then have "prune_connection now network primier r ch = Some ch"
      using kp kr(2) n by (auto simp: prune_connection_def beaten_def)
    with that p show thesis by blast
  qed
qed

lemma prune_network_total:
  assumes p: "pruned_from ch0 ch" and ok: "refs_ok ch0"
  obtains ch' where "prune_network now network ch = Some ch'" "pruned_from ch0 ch'"
proof -
  have ch: "refs_ok ch" "stays ch0 ch" "tc_connections ch = tc_connections ch0" "tc_best ch = tc_best ch0"
    using p by (simp_all add: pruned_from_def stays_def control_def)
  note g = GetBest_cong [OF ch(2) ok ch(4), of network]
  show thesis
  proof (cases "GetBestConnectionOnNetwork network ch0")
    case None
    with that p g show thesis by (simp add: prune_network_def)
  next
    case (Some primier)
    note pm = GetBest_member [OF ok Some]
    have mem: "primier \<in> set (tc_connections ch)" using pm ch(3) by simp
    obtain c where c: "tc_get primier ch = Some c" by (rule tc_get_member [OF ch(1) mem])
    show thesis
    proof (cases "cx_write c = STATE_WRITABLE")
      case True
      have "map_option fst (link ch primier) = Some (cx_write c)" using c by (simp add: link_def)
      with True pruned_from_best [OF p ok Some] have w: "map_option fst (link ch0 primier) = Some STATE_WRITABLE" by simp
      have "\<exists>ch'. fold_option (prune_connection now network primier) rs ch1 = Some ch' \<and> pruned_from ch0 ch'"
        if "set rs \<subseteq> set (tc_connections ch0)" "pruned_from ch0 ch1" for rs ch1
        using that
      proof (induction rs arbitrary: ch1)
        case (Cons r rs)
        obtain ch2 where "prune_connection now network primier r ch1 = Some ch2" "pruned_from ch0 ch2"
          by (rule prune_connection_total [OF Cons.prems(2) ok Some w, of r]) (use Cons.prems(1) in simp)
        with Cons.IH [of ch2] Cons.prems(1) show ?case by simp
      qed simp
      from this [OF _ p, of "tc_connections ch0"] that Some g c True ch(3) show thesis by (auto simp: prune_network_def)
    next
      case False
      with that p g Some c show thesis by (simp add: prune_network_def)
    qed
  qed
qed

lemma prune_total:
  assumes "refs_ok ch0"
  obtains ch' where "fold_option (prune_network now) networks ch0 = Some ch'" "pruned_from ch0 ch'"
proof -
  have "\<exists>ch'. fold_option (prune_network now) ns ch = Some ch' \<and> pruned_from ch0 ch'" if "pruned_from ch0 ch" for ns ch
    using that
  proof (induction ns arbitrary: ch)
    case (Cons n ns)
    obtain ch1 where "prune_network now n ch = Some ch1" "pruned_from ch0 ch1" by (rule prune_network_total [OF Cons.prems assms])
    with Cons.IH show ?case by simp
  qed simp
  with pruned_from_refl [OF assms] that show thesis by blast
qed

section \<open>The whole sort\<close>

lemma handle_states_writable:
  "tc_writable (handle_states cs ch) = (\<exists>c \<in> set cs. cx_write c = STATE_WRITABLE)"
  "tc_readable (handle_states cs ch) = tc_readable ch"
  by (auto simp: handle_states_def HandleWritable_def HandleNotWritable_def HandleAllTimedOut_def tc_set_writable_def
      tc_Allocate_def tc_note_def Let_def)

definition writes :: "transport_channel \<Rightarrow> connection_ref \<Rightarrow> bool" where
  "writes ch r \<longleftrightarrow> map_option cx_write (tc_get r ch) = Some STATE_WRITABLE"

definition reads :: "transport_channel \<Rightarrow> connection_ref \<Rightarrow> bool" where
  "reads ch r \<longleftrightarrow> map_option cx_read (tc_get r ch) = Some STATE_READABLE"

lemma writes_link: "writes ch r \<longleftrightarrow> map_option fst (link ch r) = Some STATE_WRITABLE"
  by (simp add: writes_def link_def option.map_comp comp_def)

definition first_of :: "connection_ref list \<Rightarrow> connection_ref option" where
  "first_of rs = (case rs of [] \<Rightarrow> None | r # rs \<Rightarrow> Some r)"

lemma states_total:
  assumes ok: "refs_ok ch"
  obtains cs where "tc_states ch = Some cs" "(\<exists>c \<in> set cs. cx_write c = STATE_WRITABLE) \<longleftrightarrow> (\<exists>r \<in> set (tc_connections ch). writes ch r)"
    "(\<exists>c \<in> set cs. cx_read c = STATE_READABLE) \<longleftrightarrow> (\<exists>r \<in> set (tc_connections ch). reads ch r)"
proof -
  have g: "tc_get r ch \<noteq> None" if "r \<in> set (tc_connections ch)" for r
    by (rule tc_get_member [OF ok that]) simp
  then have s: "tc_states ch = Some (map (\<lambda>r. the (tc_get r ch)) (tc_connections ch))"
    unfolding tc_states_def by (rule those_map)
  have "writes ch r \<longleftrightarrow> cx_write (the (tc_get r ch)) = STATE_WRITABLE" "reads ch r \<longleftrightarrow> cx_read (the (tc_get r ch)) = STATE_READABLE"
    if "r \<in> set (tc_connections ch)" for r
    using g [OF that] by (auto simp: writes_def reads_def)
  then show thesis by (intro that [OF s]) auto
qed

lemma head_writes:
  assumes ok: "refs_ok ch" and h: "h \<in> set (tc_connections ch)" and q: "q \<in> set (tc_connections ch)"
    and le: "by_key ch h \<le> by_key ch q" and w: "writes ch q"
  shows "writes ch h"
proof -
  obtain c k where k: "tc_get h ch = Some c" "connection_key ch h = Some k" "fst k = write_rank (cx_write c)"
    by (rule key_total [OF ok h])
  obtain d l where l: "tc_get q ch = Some d" "connection_key ch q = Some l" "fst l = write_rank (cx_write d)"
    by (rule key_total [OF ok q])
  have "fst (by_key ch h) \<le> fst (by_key ch q)" using le by (auto simp: less_eq_prod_def)
  then have "write_rank (cx_write c) \<le> write_rank (cx_write d)"
    using k l by (simp add: by_key_def key_order_def split: prod.splits)
  with w l(1) have "write_rank (cx_write c) = 0" by (simp add: writes_def)
  then have "cx_write c = STATE_WRITABLE" by (cases "cx_write c") simp_all
  with k(1) show ?thesis by (simp add: writes_def)
qed

text \<open>The steps of a sort, all of which succeed.\<close>

definition sort_steps ::
    "nat \<Rightarrow> transport_channel \<Rightarrow> transport_channel \<Rightarrow> transport_channel \<Rightarrow> transport_channel \<Rightarrow> transport_channel \<Rightarrow> bool" where
  "sort_steps now ch ch1 ch3 ch4 ch' \<longleftrightarrow>
     UpdateConnectionStates now ch = Some ch1 \<and> refs_ok ch1 \<and> stays ch ch1
     \<and> tc_connections ch3 = sort_key (by_key ch1) (tc_connections ch) \<and> tc_best ch3 = first_of (tc_connections ch3)
     \<and> refs_ok ch3 \<and> (\<forall>r \<in> set (tc_connections ch). link ch3 r = link ch1 r) \<and> pruned_from ch3 ch4
     \<and> SortConnections now ch = Some ch' \<and> tc_store ch' = tc_store ch4 \<and> tc_connections ch' = tc_connections ch4 \<and> tc_best ch' = tc_best ch4
     \<and> (tc_writable ch' \<longleftrightarrow> (\<exists>r \<in> set (tc_connections ch). writes ch' r))
     \<and> (tc_readable ch' \<longleftrightarrow> (\<exists>r \<in> set (tc_connections ch). reads ch' r))"

lemma switch_to_first:
  assumes ok: "refs_ok ch" and small: "small_generations ch" and rs: "tc_connections ch = rs"
    and least: "\<And>a b. first_of rs = Some a \<Longrightarrow> b \<in> set rs \<Longrightarrow> by_key ch a \<le> by_key ch b"
  shows "ShouldSwitch ch (tc_best ch) (first_of rs) = Some (tc_best ch \<noteq> first_of rs)"
proof (cases "tc_best ch = first_of rs")
  case False
  show ?thesis
  proof (cases "tc_best ch")
    case (Some a)
    have a: "a \<in> set (tc_connections ch)" by (rule refs_ok_best [OF ok Some])
    then obtain b bs where b: "rs = b # bs" using rs by (cases rs) auto
    obtain ka where ka: "connection_key ch a = Some ka" "small_generation ka" using key_total [OF ok a] small by metis
    obtain kb where kb: "connection_key ch b = Some kb" "small_generation kb" using key_total [OF ok, of b] small rs b by (metis list.set_intros(1))
    have "key_order kb \<le> key_order ka" using least [of b a] a rs b ka kb by (simp add: first_of_def by_key_def)
    from ShouldSwitch_order [OF ka(2) kb(2) this] show ?thesis
      using False Some b ka(1) kb(1) by (simp add: ShouldSwitch_def first_of_def)
  next
    case None
    then show ?thesis using False by (auto simp: ShouldSwitch_def split: option.splits)
  qed
qed (simp add: ShouldSwitch_def)

lemma first_least:
  assumes "first_of (sort_key f xs) = Some a" and "b \<in> set xs"
  shows "f a \<le> f (b :: connection_ref)"
proof -
  have "sorted (map f (sort_key f xs))" "b \<in> set (sort_key f xs)" using assms(2) by simp_all
  moreover from assms(1) obtain rs where "sort_key f xs = a # rs" by (auto simp: first_of_def split: list.splits)
  ultimately show ?thesis by auto
qed

lemma best_unpruned:
  assumes ok: "refs_ok ch3" and p: "pruned_from ch3 ch4" and b: "tc_best ch3 = Some b"
  shows "link ch4 b = link ch3 b"
  by (rule pruned_from_best [OF p ok, of "tc_network b ch3"]) (simp add: GetBestConnectionOnNetwork_def b)

lemma writable_after_prune:
  assumes ok: "refs_ok ch1" and c: "tc_connections ch3 = sort_key (by_key ch1) (tc_connections ch1)"
    and best: "tc_best ch3 = first_of (tc_connections ch3)" and ok3: "refs_ok ch3"
    and l: "\<forall>r \<in> set (tc_connections ch1). link ch3 r = link ch1 r" and p: "pruned_from ch3 ch4"
  shows "(\<exists>r \<in> set (tc_connections ch1). writes ch4 r) \<longleftrightarrow> (\<exists>b. tc_best ch4 = Some b \<and> writes ch4 b)"
proof -
  have s: "set (tc_connections ch3) = set (tc_connections ch1)" by (simp add: c)
  have b4: "tc_best ch4 = first_of (tc_connections ch3)" using p best by (simp add: pruned_from_def control_def)
  show ?thesis
  proof
    assume "\<exists>r \<in> set (tc_connections ch1). writes ch4 r"
    then obtain r where r: "r \<in> set (tc_connections ch1)" "writes ch4 r" by blast
    then have "link ch4 r = link ch3 r" using p s by (auto simp: pruned_from_def writes_link)
    with r l have w: "writes ch1 r" by (simp add: writes_link)
    from r(1) s obtain b bs where b: "tc_connections ch3 = b # bs" by (cases "tc_connections ch3") auto
    then have f: "first_of (tc_connections ch3) = Some b" "b \<in> set (tc_connections ch1)" using s by (auto simp: first_of_def)
    have "writes ch1 b"
      by (rule head_writes [OF ok f(2) r(1) _ w]) (rule first_least [OF f(1) [unfolded c] r(1)])
    moreover have "link ch4 b = link ch3 b" by (rule best_unpruned [OF ok3 p]) (simp add: best f)
    ultimately have "writes ch4 b" using l f(2) by (simp add: writes_link)
    then show "\<exists>b. tc_best ch4 = Some b \<and> writes ch4 b" using b4 f(1) by simp
  next
    assume "\<exists>b. tc_best ch4 = Some b \<and> writes ch4 b"
    then obtain b where b: "tc_best ch4 = Some b" "writes ch4 b" by blast
    have "b \<in> set (tc_connections ch4)" using p b(1) refs_ok_best by (simp add: pruned_from_def)
    then have "b \<in> set (tc_connections ch1)" using p s by (simp add: pruned_from_def stays_def)
    with b(2) show "\<exists>r \<in> set (tc_connections ch1). writes ch4 r" by blast
  qed
qed

lemma UpdateChannelState_total:
  assumes ok: "refs_ok ch" and w: "tc_writable ch \<longleftrightarrow> (\<exists>b. tc_best ch = Some b \<and> writes ch b)"
  obtains ch' where "UpdateChannelState ch = Some ch'" "tc_store ch' = tc_store ch" "tc_connections ch' = tc_connections ch"
    "tc_best ch' = tc_best ch" "tc_writable ch' = tc_writable ch"
    "tc_readable ch' \<longleftrightarrow> (\<exists>r \<in> set (tc_connections ch). reads ch r)"
proof -
  obtain cs where cs: "tc_states ch = Some cs"
    "(\<exists>c \<in> set cs. cx_read c = STATE_READABLE) \<longleftrightarrow> (\<exists>r \<in> set (tc_connections ch). reads ch r)"
    by (rule states_total [OF ok])
  have "(case tc_best ch of None \<Rightarrow> Some False | Some r \<Rightarrow> map_option (\<lambda>c. cx_write c = STATE_WRITABLE) (tc_get r ch)) = Some (tc_writable ch)"
  proof (cases "tc_best ch")
    case (Some b)
    obtain c where "tc_get b ch = Some c" by (rule tc_get_member [OF ok refs_ok_best [OF ok Some]])
    then show ?thesis using w Some by (simp add: writes_def)
  qed (use w in simp)
  then have "UpdateChannelState ch = Some (tc_set_readable (\<exists>c \<in> set cs. cx_read c = STATE_READABLE) ch)"
    using cs(1) by (simp add: UpdateChannelState_def)
  then show thesis by (rule that) (simp_all add: tc_set_readable_def tc_note_def flip: cs(2))
qed

lemma same_protocol_dirty: "same_protocol (ch\<lparr>tc_sort_dirty := d\<rparr>) = same_protocol ch"
  by (simp add: same_protocol_def)

lemma store_cong:
  assumes "tc_store ch' = tc_store ch"
  shows "by_key ch' = by_key ch" "link ch' = link ch" "writes ch' = writes ch" "reads ch' = reads ch"
  unfolding by_key_def [abs_def] connection_key_def link_def [abs_def] writes_def [abs_def] reads_def [abs_def] tc_get_def assms
  by (rule refl)+

lemma Sort_eq:
  assumes "UpdateConnectionStates now ch = Some ch0" and "sort_connections (ch0\<lparr>tc_sort_dirty := False\<rparr>) = Some rs"
    and "ShouldSwitch (ch0\<lparr>tc_sort_dirty := False, tc_connections := rs\<rparr>)
          (tc_best (ch0\<lparr>tc_sort_dirty := False, tc_connections := rs\<rparr>)) (first_of rs) = Some switch"
    and "(if switch then SwitchBestConnectionTo (first_of rs) (ch0\<lparr>tc_sort_dirty := False, tc_connections := rs\<rparr>)
          else Some (ch0\<lparr>tc_sort_dirty := False, tc_connections := rs\<rparr>)) = Some ch3"
    and "fold_option (prune_network now) (remdups (map (\<lambda>r. tc_network r (ch0\<lparr>tc_sort_dirty := False\<rparr>))
          (tc_connections (ch0\<lparr>tc_sort_dirty := False\<rparr>)))) ch3 = Some ch4"
    and "tc_states ch4 = Some cs" and "UpdateChannelState (handle_states cs ch4) = Some ch'"
  shows "SortConnections now ch = Some ch'"
  using assms unfolding SortConnections_def Let_def by (cases switch) (simp_all flip: first_of_def)

lemma sort_core:
  assumes ok: "refs_ok ch" and same: "same_protocol ch" and small: "small_generations ch"
  shows "\<exists>ch1 ch3 ch4 ch'. sort_steps now ch ch1 ch3 ch4 ch'"
proof -
  obtain ch0 where u: "UpdateConnectionStates now ch = Some ch0" "refs_ok ch0" "stays ch ch0"
    by (rule UpdateStates_total [OF ok])
  define ch1 where "ch1 = ch0\<lparr>tc_sort_dirty := False\<rparr>"
  have key: "by_key ch1 = by_key ch0" by (rule store_cong) (simp add: ch1_def)
  have conns0: "tc_connections ch0 = tc_connections ch" using u(3) by (simp add: stays_def)
  let ?rs = "sort_key (by_key ch0) (tc_connections ch)"
  have "sort_connections ch1 = Some (sort_key (by_key ch1) (tc_connections ch1))"
  proof (rule sort_total)
    show "refs_ok ch1" using u(2) by (simp add: ch1_def)
    show "same_protocol ch1" using stays_protocol [OF u(3) ok same] by (simp add: ch1_def same_protocol_dirty)
    show "small_generations ch1" using stays_small [OF u(3) small] by (simp add: ch1_def small_generations_def)
  qed
  moreover have conns1: "tc_connections ch1 = tc_connections ch" by (simp add: ch1_def conns0)
  ultimately have sort: "sort_connections ch1 = Some ?rs" by (simp only: key)
  let ?ch2 = "ch1\<lparr>tc_connections := ?rs\<rparr>"
  have ok2: "refs_ok ?ch2" by (rule refs_ok_permute) (use u(2) in \<open>simp_all add: ch1_def conns0\<close>)
  have small2: "small_generations ?ch2" using stays_small [OF u(3) small] by (simp add: small_generations_def ch1_def)
  have key2: "by_key ?ch2 = by_key ch0" by (rule store_cong) (simp add: ch1_def)
  have sw: "ShouldSwitch ?ch2 (tc_best ?ch2) (first_of ?rs) = Some (tc_best ?ch2 \<noteq> first_of ?rs)"
  proof (rule switch_to_first [OF ok2 small2])
    fix a b assume "first_of ?rs = Some a" "b \<in> set ?rs"
    then show "by_key ?ch2 a \<le> by_key ?ch2 b" unfolding key2 by (intro first_least) simp_all
  qed simp
  have top: "\<forall>r. first_of ?rs = Some r \<longrightarrow> r \<in> set (tc_connections ?ch2)" by (auto simp: first_of_def split: list.splits) (metis list.set_intros(1) set_sort)
  have "\<exists>ch3. (if tc_best ?ch2 \<noteq> first_of ?rs then SwitchBestConnectionTo (first_of ?rs) ?ch2 else Some ?ch2) = Some ch3
      \<and> refs_ok ch3 \<and> stays ?ch2 ch3 \<and> tc_best ch3 = first_of ?rs \<and> (\<forall>q \<in> set (tc_connections ?ch2). link ch3 q = link ?ch2 q)"
  proof (cases "tc_best ?ch2 = first_of ?rs")
    case False
    obtain ch3 where "SwitchBestConnectionTo (first_of ?rs) ?ch2 = Some ch3" "refs_ok ch3" "stays ?ch2 ch3"
      "control ch3 = control (?ch2\<lparr>tc_best := first_of ?rs\<rparr>)" "\<And>q. q \<in> set (tc_connections ?ch2) \<Longrightarrow> link ch3 q = link ?ch2 q"
      by (rule Switch_total [OF ok2 top]) blast
    with False show ?thesis by (simp add: control_def)
  qed (use ok2 in simp)
  then obtain ch3 where s3: "(if tc_best ?ch2 \<noteq> first_of ?rs then SwitchBestConnectionTo (first_of ?rs) ?ch2 else Some ?ch2) = Some ch3"
    "refs_ok ch3" "stays ?ch2 ch3" "tc_best ch3 = first_of ?rs" "\<forall>q \<in> set (tc_connections ?ch2). link ch3 q = link ?ch2 q" by blast
  have c3: "tc_connections ch3 = ?rs" using s3(3) by (simp add: stays_def)
  have l3: "\<forall>r \<in> set (tc_connections ch). link ch3 r = link ch0 r"
    using s3(5) store_cong(2) [of ?ch2 ch0] by (simp add: ch1_def)
  obtain ch4 where s4: "fold_option (prune_network now) (remdups (map (\<lambda>r. tc_network r ch1) (tc_connections ch1))) ch3 = Some ch4"
    "pruned_from ch3 ch4" by (rule prune_total [OF s3(2)])
  have ok4: "refs_ok ch4" and c4: "set (tc_connections ch4) = set (tc_connections ch)"
    using s4(2) c3 by (simp_all add: pruned_from_def stays_def)
  obtain cs where cs: "tc_states ch4 = Some cs" "(\<exists>c \<in> set cs. cx_write c = STATE_WRITABLE) \<longleftrightarrow> (\<exists>r \<in> set (tc_connections ch4). writes ch4 r)"
    by (rule states_total [OF ok4])
  have w: "tc_writable (handle_states cs ch4) \<longleftrightarrow> (\<exists>b. tc_best ch4 = Some b \<and> writes ch4 b)"
    using writable_after_prune [OF u(2), of ch3 ch4] c3 s3(2,4) l3 s4(2) conns0 cs(2) c4 by (simp add: handle_states_writable)
  have ho: "refs_ok (handle_states cs ch4)" using ok4 by simp
  have hw: "writes (handle_states cs ch4) r = writes ch4 r" "reads (handle_states cs ch4) r = reads ch4 r" for r
    by (simp_all add: store_cong [of "handle_states cs ch4" ch4])
  obtain ch' where fin: "UpdateChannelState (handle_states cs ch4) = Some ch'" "tc_store ch' = tc_store ch4"
    "tc_connections ch' = tc_connections ch4" "tc_best ch' = tc_best ch4" "tc_writable ch' = tc_writable (handle_states cs ch4)"
    "tc_readable ch' \<longleftrightarrow> (\<exists>r \<in> set (tc_connections ch4). reads ch4 r)"
    by (rule UpdateChannelState_total [OF ho]) (use w hw in auto)
  have "SortConnections now ch = Some ch'"
    by (rule Sort_eq [OF u(1) sort [unfolded ch1_def] sw [unfolded ch1_def] s3(1) [unfolded ch1_def] s4(1) [unfolded ch1_def]
          cs(1) fin(1)])
  moreover have "writes ch' r = writes ch4 r" "reads ch' r = reads ch4 r" for r
    by (simp_all add: store_cong [OF fin(2)])
  ultimately have "sort_steps now ch ch0 ch3 ch4 ch'"
    unfolding sort_steps_def using u s3(2,4) c3 l3 s4(2) fin c4 cs(2) by (simp add: handle_states_writable)
  then show ?thesis by blast
qed

end
