(* ===== verification/ChannelProperties.thy ===== *)
theory ChannelProperties
  imports ChannelElect
begin

text \<open>
  What a sort guarantees in every state a channel reaches, with a small history that makes a connection
  writable and prunes another.
\<close>

section \<open>A history\<close>
































section \<open>Properties\<close>






end
