(* ===== verification/IceConflict.thy ===== *)
theory IceConflict
  imports IceCheck
begin

text \<open>
  Two ports that have both taken the same role: a ping shows it, one side refuses it with a 487 or gives way.
\<close>

section \<open>The refusal\<close>

lemma conflict_decision:
  assumes proto: "pt_protocol p = ICEPROTO_RFC5245" and role: "pt_role p \<noteq> ROLE_UNKNOWN"
    and claim: "remote_role msg = Some (pt_role p, t)" and type: "sm_type msg = STUN_BINDING_REQUEST"
    and other: "u \<noteq> pt_ufrag p \<or> t \<noteq> pt_tiebreaker p"
    and ctl: "\<And>a. GetAttribute msg STUN_ATTR_ICE_CONTROLLING = Some a \<Longrightarrow> attr_value64 a = t"
  shows "MaybeIceRoleConflict mem addr msg u p =
    (if (pt_role p = ROLE_CONTROLLING) = (pt_tiebreaker p \<le> t) then Some (True, pt_note Role_conflict p)
     else map_option (Pair False)
       (SendBindingErrorResponse mem msg addr STUN_ERROR_ROLE_CONFLICT STUN_ERROR_REASON_ROLE_CONFLICT p))"
proof -
  have loop: "(case GetAttribute msg STUN_ATTR_ICE_CONTROLLING of
      Some a \<Rightarrow> pt_ufrag p = u \<and> attr_value64 a = pt_tiebreaker p | None \<Rightarrow> False) = False"
    using other ctl by (auto split: option.split)
  show ?thesis
    using claim role proto
    by (cases "pt_role p"; cases "SendBindingErrorResponse mem msg addr STUN_ERROR_ROLE_CONFLICT STUN_ERROR_REASON_ROLE_CONFLICT p")
       (auto simp: MaybeIceRoleConflict_def username_fragment_def loop Let_def not_le dest: leD)
qed

abbreviation conflict_attr :: stun_attr where
  "conflict_attr \<equiv> binding_error_attr ICEPROTO_RFC5245 STUN_ERROR_ROLE_CONFLICT STUN_ERROR_REASON_ROLE_CONFLICT"

lemma conflict_attr_facts:
  "wf_attr StunMessage tid conflict_attr" "attr_size conflict_attr < 1000" "at_type conflict_attr = STUN_ATTR_ERROR_CODE"
  "(case at_body conflict_attr of StunErrorCode class number reason \<Rightarrow> ErrorCode_code class number | _ \<Rightarrow> 0) = 487"
proof -
  have v: "conflict_attr = \<lparr>at_type = STUN_ATTR_ERROR_CODE, at_length = 4 + of_nat (length STUN_ERROR_REASON_ROLE_CONFLICT),
      at_body = StunErrorCode 4 87 STUN_ERROR_REASON_ROLE_CONFLICT\<rparr>" by code_simp
  have l: "length STUN_ERROR_REASON_ROLE_CONFLICT = 13" by code_simp
  show "wf_attr StunMessage tid conflict_attr" "attr_size conflict_attr < 1000" "at_type conflict_attr = STUN_ATTR_ERROR_CODE"
    "(case at_body conflict_attr of StunErrorCode class number reason \<Rightarrow> ErrorCode_code class number | _ \<Rightarrow> 0) = 487"
    by (simp_all add: v wf_attr_def attr_size_def l padded_length_def ErrorCode_code_def)
qed

lemma refusal_reads:
  assumes mem: "length mem = 64" and proto: "pt_protocol p = ICEPROTO_RFC5245" and tid: "length (sm_tid msg) = 12"
    and type: "sm_type msg = STUN_BINDING_REQUEST"
  shows "\<exists>data m. SendBindingErrorResponse mem msg addr STUN_ERROR_ROLE_CONFLICT STUN_ERROR_REASON_ROLE_CONFLICT p
      = Some (pt_SendTo data addr False p)
    \<and> reads_reply mem (pt_password p) STUN_BINDING_ERROR_RESPONSE [conflict_attr] (sm_tid msg) data m"
proof -
  have codes: "STUN_ERROR_ROLE_CONFLICT \<noteq> STUN_ERROR_BAD_REQUEST" "STUN_ERROR_ROLE_CONFLICT \<noteq> STUN_ERROR_UNAUTHORIZED"
    by code_simp+
  show ?thesis
    using reply_reads [OF mem tid, of STUN_BINDING_ERROR_RESPONSE "[conflict_attr]" "pt_password p"] conflict_attr_facts codes
    by (auto simp: SendBindingErrorResponse_def type proto Let_def intro!: exI conjI refl)
qed

text \<open>The sender of the ping gives way.\<close>

lemma refusal_received:
  assumes r: "reads_reply mem (cd_password (cx_remote c)) STUN_BINDING_ERROR_RESPONSE [conflict_attr] tid data msg"
    and c: "GetConnection b A = Some c" "cd_address (cx_remote c) = b" and proto: "pt_protocol A = ICEPROTO_RFC5245"
    and live: "\<not> pt_destroyed A"
    and q: "cx_requests c = one_request (ping_request m True t) due log" "rq_id (ping_request m True t) = tid"
      "sm_type m = STUN_BINDING_REQUEST"
  shows "\<exists>A3 c3. port_run mem [(inp, Packet data b)] A = Some A3 \<and> pt_out A3 = pt_out A @ [Role_conflict]
    \<and> GetConnection b A3 = Some c3 \<and> cx_write c3 = cx_write c \<and> cx_state c3 = cx_state c
    \<and> (pt_role A = ROLE_CONTROLLING \<longrightarrow> \<not> cx_nominated c3) \<and> rm_requests (cx_requests c3) = []"
proof -
  from r obtain rest where m: "sm_type msg = STUN_BINDING_ERROR_RESPONSE" "sm_tid msg = tid" "sm_attrs msg = conflict_attr # rest"
    by (auto simp: reads_reply_def)
  have types: "uint STUN_BINDING_ERROR_RESPONSE \<noteq> GetStunSuccessResponseType (uint STUN_BINDING_REQUEST)"
    "uint STUN_BINDING_ERROR_RESPONSE = GetStunErrorResponseType (uint STUN_BINDING_REQUEST)" by code_simp+
  have e: "GetErrorCode msg = Some conflict_attr"
    by (simp add: GetErrorCode_def GetAttribute_def m(3) conflict_attr_facts(3))
  have code: "binding_error_code ICEPROTO_RFC5245 msg = 487"
    using conflict_attr_facts(4) by (auto simp: binding_error_code_def e split: stun_body.splits)
  have err: "OnConnectionRequestErrorResponse A msg c = (True, HandleRoleConflictFromPeer (pt_role A) c)"
    by (simp add: OnConnectionRequestErrorResponse_def proto code STUN_ERROR_UNKNOWN_ATTRIBUTE_def STUN_ERROR_SERVER_ERROR_def
        STUN_ERROR_UNAUTHORIZED_def STUN_ERROR_STALE_CREDENTIALS_def STUN_ERROR_ROLE_CONFLICT_def)
  let ?r = "snd (rm_CheckResponse msg (cx_requests c))"
  have f: "map_of (rm_requests (cx_requests c)) (sm_tid msg) = Some (ping_request m True t)"
    by (simp add: q(1) one_request_def q(2) m(2))
  have ty: "rq_type (ping_request m True t) = uint STUN_BINDING_REQUEST"
    by (simp add: rq_type_def ping_request_def q(3))
  have found: "rm_CheckResponse msg (cx_requests c) = (True, ?r)" and none: "rm_requests ?r = []"
    using types m(1) by (simp_all add: rm_CheckResponse_def f ty)
      (simp add: q one_request_def m(2) rq_delete_def rm_Remove_def rm_note_def Let_def)
  let ?c1 = "(HandleRoleConflictFromPeer (pt_role A) c)\<lparr>cx_requests := ?r\<rparr>"
  have chk: "cx_CheckResponse inp msg A c = (True, ?c1)"
    using types found by (auto simp: cx_CheckResponse_def f ty err m(1) split: prod.split)
  have g: "GetStunMessage mem data b A = Some (Checked msg [], A)"
    using r by (auto simp: GetStunMessage_def reads_reply_def e)
  have "HandlePacket mem inp data b A = Some (pt_note Role_conflict (pt_update b (\<lambda>_. ?c1) A))"
    using c m r by (simp add: HandlePacket_def cx_OnReadPacket_def g cx_checked_message_def chk proto reads_reply_def Let_def)
  moreover have "cx_remote ?c1 = cx_remote c" by (simp add: HandleRoleConflictFromPeer_def)
  ultimately show ?thesis
    using GetConnection_put [OF c(1), of ?c1] c(2) live none
    by (intro exI [of _ "pt_note Role_conflict (pt_update b (\<lambda>_. ?c1) A)"] exI [of _ ?c1])
       (simp add: port_step_def HandleRoleConflictFromPeer_def)
qed

section \<open>Resolution\<close>

lemma role_claim_same: "pt_role A = pt_role B \<Longrightarrow> pt_role A \<noteq> ROLE_UNKNOWN \<Longrightarrow> role_claim A = (pt_role B, pt_tiebreaker A)"
  by (cases "pt_role B") (auto simp: role_claim_def)

text \<open>
  C19.  When two ports have taken the same role, one ping settles it.  The port that receives it compares the
  tie breakers: either it gives way itself, and then answers the check like any other, or it refuses with an
  authenticated 487 and keeps its connections as they are, and the refusal makes the sender give way.  With
  different tie breakers the same side gives way whichever of them pings first.
\<close>

theorem ice_role_conflict_resolves:
  assumes "length mem = 64" and "ice_peers a A cA b B cB" and "length (pi_random i1) = 12" and "pi_now i1 \<le> pi_now i2"
    and "pt_role A = pt_role B" and "pt_tiebreaker A \<noteq> pt_tiebreaker B"
  shows "\<exists>A2 check B2 answer.
    port_run mem [(i1, Ping b), (i2, Request_message 0 b)] A = Some A2 \<and> pt_out A2 = pt_out A @ [Port_sent check b False]
    \<and> port_run mem [(i3, Packet check a)] B = Some B2
    \<and> (if (pt_role B = ROLE_CONTROLLING) = (pt_tiebreaker B < pt_tiebreaker A)
       then pt_out B2 = pt_out B @ [Role_conflict, Port_sent answer a False]
         \<and> (\<exists>c. GetConnection a B2 = Some c \<and> cx_read c = STATE_READABLE)
       else pt_out B2 = pt_out B @ [Port_sent answer a False] \<and> pt_connections B2 = pt_connections B
         \<and> (\<exists>A3 c. port_run mem [(i4, Packet answer b)] A2 = Some A3 \<and> pt_out A3 = pt_out A2 @ [Role_conflict]
              \<and> GetConnection b A3 = Some c \<and> rm_requests (cx_requests c) = []))"
proof -
  from assms(2) have A: "pt_protocol A = ICEPROTO_RFC5245" "pt_role A \<noteq> ROLE_UNKNOWN" "\<not> pt_destroyed A"
      "GetConnection b A = Some cA" "cd_address (cx_remote cA) = b" "cx_connected cA" "cx_requests cA = StunRequestManager"
      "cx_local_candidate A cA \<noteq> None" "cd_username (cx_remote cA) = pt_ufrag B" "cd_password (cx_remote cA) = pt_password B"
    and B: "pt_protocol B = ICEPROTO_RFC5245" "pt_role B \<noteq> ROLE_UNKNOWN" "\<not> pt_destroyed B" "GetConnection a B = Some cB"
      "cd_address (cx_remote cB) = a" "cd_username (cx_remote cB) = pt_ufrag A" "wf_address a" "58 \<notin> set (pt_ufrag B)"
    and AB: "length (pt_ufrag A) + length (pt_ufrag B) < 900"
    by (simp_all add: ice_peers_def)
  from ping_checks [OF assms(1-4)] obtain A2 c2 m t due log msg where
    A2: "port_run mem [(i1, Ping b), (i2, Request_message 0 b)] A = Some A2"
      "pt_out A2 = pt_out A @ [Port_sent (bb_data (written_message m)) b False]"
    and c2: "GetConnection b A2 = Some c2" "cx_remote c2 = cx_remote cA" "cx_requests c2 = one_request (ping_request m True t) due log"
      "pt_protocol A2 = ICEPROTO_RFC5245" "\<not> pt_destroyed A2"
    and msg: "reads_ping mem (pt_password B) (pt_ufrag B @ 58 # pt_ufrag A) (pi_random i1) (role_claim A)
        (bb_data (written_message m)) msg"
    and m: "rq_id (ping_request m True t) = pi_random i1" "sm_type m = STUN_BINDING_REQUEST"
    by blast
  let ?check = "bb_data (written_message m)"
  have claim: "remote_role msg = Some (pt_role B, pt_tiebreaker A)" and type: "sm_type msg = STUN_BINDING_REQUEST"
    and tid: "sm_tid msg = pi_random i1"
    using msg role_claim_same [OF assms(5) A(2)] by (simp_all add: reads_ping_def)
  have ctl: "attr_value64 x = pt_tiebreaker A" if "GetAttribute msg STUN_ATTR_ICE_CONTROLLING = Some x" for x
    using msg that by (simp add: reads_ping_def role_claim_def)
  have le: "(pt_tiebreaker B \<le> pt_tiebreaker A) = (pt_tiebreaker B < pt_tiebreaker A)" using assms(6) by (simp add: le_less)
  note decision = conflict_decision [OF B(1,2) claim type _ ctl, of "pt_ufrag A" mem a, unfolded le]
  show ?thesis
  proof (cases "(pt_role B = ROLE_CONTROLLING) = (pt_tiebreaker B < pt_tiebreaker A)")
    case True
    have "MaybeIceRoleConflict mem a msg (pt_ufrag A) B = Some (True, B\<lparr>pt_out := pt_out B @ [Role_conflict]\<rparr>)"
      using decision assms(6) True by (auto simp: pt_note_def)
    from check_received [OF msg assms(1,3) B(1,8,3,4-7) this, of i3] obtain B2 answer cB2 where
      "port_run mem [(i3, Packet ?check a)] B = Some B2" "pt_out B2 = pt_out B @ [Role_conflict] @ [Port_sent answer a False]"
      "GetConnection a B2 = Some cB2" "cx_read cB2 = STATE_READABLE" by blast
    with A2 True show ?thesis by auto
  next
    case False
    from refusal_reads [OF assms(1) B(1), of msg a] assms(3) tid type obtain answer ma where
      ans: "SendBindingErrorResponse mem msg a STUN_ERROR_ROLE_CONFLICT STUN_ERROR_REASON_ROLE_CONFLICT B
          = Some (pt_SendTo answer a False B)"
        "reads_reply mem (pt_password B) STUN_BINDING_ERROR_RESPONSE [conflict_attr] (pi_random i1) answer ma"
      by auto
    have "MaybeIceRoleConflict mem a msg (pt_ufrag A) B = Some (False, pt_SendTo answer a False B)"
      using decision assms(6) False ans(1) by auto
    then have "HandlePacket mem i3 ?check a B = Some (pt_SendTo answer a False B)"
      using B(4-6) type
      by (simp add: HandlePacket_def cx_OnReadPacket_def cx_checked_message_def cx_binding_request_def
          GetStunMessage_ping [OF msg B(1,8)] B(1) Let_def)
    then have run: "port_run mem [(i3, Packet ?check a)] B = Some (pt_SendTo answer a False B)"
      by (simp add: port_step_def B(3))
    have "reads_reply mem (cd_password (cx_remote c2)) STUN_BINDING_ERROR_RESPONSE [conflict_attr] (pi_random i1) answer ma"
      using ans(2) A(10) c2(2) by simp
    from refusal_received [OF this c2(1) _ c2(4,5,3) m, of i4] A(5) c2(2) obtain A3 c3 where
      "port_run mem [(i4, Packet answer b)] A2 = Some A3" "pt_out A3 = pt_out A2 @ [Role_conflict]"
      "GetConnection b A3 = Some c3" "rm_requests (cx_requests c3) = []" by auto
    with A2 run False show ?thesis
      by (intro exI [of _ A2] exI [of _ ?check] exI [of _ "pt_SendTo answer a False B"] exI [of _ answer])
         (auto simp: pt_SendTo_def pt_note_def)
  qed
qed

lemma ice_peers_role:
  "ice_peers a A cA b B cB \<Longrightarrow> r \<noteq> ROLE_UNKNOWN \<Longrightarrow> ice_peers a A cA b (B\<lparr>pt_role := r, pt_tiebreaker := t\<rparr>) cB"
  by (simp add: ice_peers_def GetConnection_def)

theorem ice_role_conflict_resolves_witness:
  "\<exists>A2 check B2 answer A3.
    port_run (replicate 64 0) [(sample_inp, Ping sample_b), (sample_inp, Request_message 0 sample_b)] sample_peer_A = Some A2
    \<and> port_run (replicate 64 0) [(sample_inp, Packet check sample_a)]
        (sample_peer_B\<lparr>pt_role := ROLE_CONTROLLING, pt_tiebreaker := 5\<rparr>) = Some B2
    \<and> port_run (replicate 64 0) [(sample_inp, Packet answer sample_b)] A2 = Some A3
    \<and> pt_out A3 = pt_out A2 @ [Role_conflict]"
proof -
  have "pt_tiebreaker sample_peer_A = 0"
    by (simp add: sample_peer_A_def with_connection_def sample_A_def sample_port_def Port_shared_def)
  then show ?thesis
    using ice_role_conflict_resolves [OF _ ice_peers_role [OF sample_ice_peers, of ROLE_CONTROLLING 5], of "replicate 64 0"
        sample_inp sample_inp sample_inp sample_inp]
    by (simp add: sample_roles del: port_run.simps) (auto simp: sample_inp_def)
qed

end
