(* ===== verification/IceLimits.thy ===== *)
theory IceLimits
  imports IceConsent
begin

text \<open>
  The limits of a connection: how a silent one ends, what its 32-bit clock makes of time-outs near
  the wrap, and the order of the candidate pairs.
\<close>

section \<open>Pair priorities\<close>

lemma unat_bound: "unat (w :: uint32) < 2 ^ 32"
  using unsigned_less [of w, where ?'a = nat] by simp

lemma unat_widen: "unat (ucast (w :: uint32) :: uint64) = unat w"
proof -
  have "unat w < 2 ^ 64" by (rule order.strict_trans2 [OF unat_bound]) simp
  then show ?thesis by (simp add: unsigned_ucast_eq take_bit_nat_eq_self)
qed

lemma pair_bound: "x < 2 ^ 32 \<Longrightarrow> y < 2 ^ 32 \<Longrightarrow> 2 ^ 32 * x + y < (2 ^ 64 :: nat)"
  by simp

lemma pair_priority_value:
  "unat (pair_priority g d) = 2 ^ 32 * min (unat g) (unat d)
    + (2 * max (unat g) (unat d) + (if unat d < unat g then 1 else 0)) mod 2 ^ 32"
proof -
  have lo: "unat (2 * max g d + (if g > d then 1 else 0)) = (2 * max (unat g) (unat d) + (if unat d < unat g then 1 else 0)) mod 2 ^ 32"
    by (auto simp: unat_word_ariths max_def word_le_nat_alt word_less_nat_alt mod_simps)
  have m: "unat (min g d) = min (unat g) (unat d)" "unat (min g d) < 2 ^ 32"
    using unat_bound [of "min g d"] by (simp_all add: min_def word_le_nat_alt)
  have hi: "unat (push_bit 32 (ucast (min g d) :: uint64)) = 2 ^ 32 * min (unat g) (unat d)"
    using m by (simp add: push_bit_eq_mult unat_word_ariths unat_widen)
  have "2 ^ 32 * min (unat g) (unat d) + unat (2 * max g d + (if g > d then 1 else 0)) < 2 ^ 64"
    unfolding m(1) [symmetric] by (rule pair_bound [OF m(2) unat_bound])
  then show ?thesis
    unfolding pair_priority_def unat_word_ariths(1) [of "push_bit 32 _"] hi unat_widen lo by simp
qed

text \<open>
  C24.  Two ports with opposite roles whose connections pair the same two candidates give the pair the same
  priority.  It is the value of RFC 5245 while both candidate priorities are below 2 to the 31st, and
  otherwise the doubled larger one loses its top bit.
\<close>

theorem pair_priorities_agree:
  assumes "pt_role A = ROLE_CONTROLLING" and "pt_role B = ROLE_CONTROLLED"
    and "cx_local_candidate A cA = Some x" and "cx_local_candidate B cB = Some y"
    and "cd_priority (cx_remote cA) = cd_priority y" and "cd_priority (cx_remote cB) = cd_priority x"
  shows "\<exists>v. cx_priority A cA = Some v \<and> cx_priority B cB = Some v
    \<and> (let g = unat (cd_priority x); d = unat (cd_priority y)
       in unat v + (if max g d < 2 ^ 31 then 0 else 2 ^ 32) = 2 ^ 32 * min g d + 2 * max g d + (if g > d then 1 else 0))"
proof -
  let ?g = "unat (cd_priority x)" and ?d = "unat (cd_priority y)"
  have lt: "?g < 2 ^ 32" "?d < 2 ^ 32" using unat_bound [of "cd_priority x"] unat_bound [of "cd_priority y"] by simp_all
  define n where "n = 2 * max ?g ?d + (if ?d < ?g then 1 else 0)"
  define M where "M = max ?g ?d"
  have M: "M < 2 ^ 32" using lt by (simp add: M_def)
  obtain e where e: "n = 2 * M + e" "e \<le> 1" unfolding n_def M_def by (cases "?d < ?g") auto
  have n: "n < 2 ^ 33" "n < 2 ^ 32 \<longleftrightarrow> max ?g ?d < 2 ^ 31"
  proof -
    show "n < 2 ^ 33" using e M by simp
    have "n < 4294967296 \<longleftrightarrow> M < 2147483648" using e by arith
    then show "n < 2 ^ 32 \<longleftrightarrow> max ?g ?d < 2 ^ 31" by (simp add: M_def)
  qed
  have "n mod 2 ^ 32 + (if max ?g ?d < 2 ^ 31 then 0 else 2 ^ 32) = n"
  proof (cases "n < 2 ^ 32")
    case False
    then have "n mod 2 ^ 32 = n - 2 ^ 32" using n(1) by (simp add: le_mod_geq)
    moreover have "\<not> max ?g ?d < 2 ^ 31" using False n(2) by blast
    ultimately show ?thesis using False by (simp only: if_False)
  qed (use n(2) in simp)
  with pair_priority_value [of "cd_priority x" "cd_priority y"] assms show ?thesis
    by (simp add: cx_priority_def n_def Let_def)
qed

theorem pair_priorities_agree_witness:
  "\<exists>v. cx_priority sample_peer_A (Connection_new 0 (sample_candidate sample_b [98] [113])) = Some v
    \<and> cx_priority sample_peer_B (Connection_new 0 (sample_candidate sample_a [97] [112])) = Some v \<and> v = 0"
proof -
  have c: "cx_local_candidate sample_peer_A (Connection_new 0 u) = Some (sample_candidate sample_a [97] [112])"
    "cx_local_candidate sample_peer_B (Connection_new 0 u) = Some (sample_candidate sample_b [98] [113])"
    "cx_remote (Connection_new 0 u) = u" "cd_priority (sample_candidate addr v w) = 0" for u addr v w
    by (simp_all add: cx_local_candidate_def Connection_new_def sample_peer_A_def sample_peer_B_def with_connection_def
        sample_A_def sample_B_def sample_port_def sample_candidate_def Candidate_new_def)
  show ?thesis
    using pair_priorities_agree [OF sample_roles c(1,2), of "sample_candidate sample_b [98] [113]" "sample_candidate sample_a [97] [112]"]
    by (auto simp: c Let_def unat_eq_zero)
qed

section \<open>Silence\<close>

lemma CheckTimeout_total:
  "pt_CheckTimeout q = Some (if pt_lifetime q = LT_POSTTIMEOUT \<and> pt_connections q = []
     then pt_note Port_destroyed (q\<lparr>pt_destroyed := True, pt_timers := []\<rparr>) else q)"
  by (simp add: pt_CheckTimeout_def pt_Destroy_def)

text \<open>
  C23.  A connection that is not readable, was never confirmed writable or has become doubtful, and whose oldest
  unanswered ping is more than 15 seconds old, ends: the next update gives up on writing and posts the
  message that removes the connection, and with the last one a port past its lifetime destroys itself.
\<close>

theorem silent_connection_ends:
  assumes "GetConnection a p = Some c" and "\<not> pt_destroyed p" and "cx_read c \<noteq> STATE_READABLE"
    and "cx_write c = STATE_WRITE_INIT \<or> cx_write c = STATE_WRITE_UNRELIABLE"
    and "cx_pings c = t # ts" and "unat t + 15000 < pi_now inp" and "pi_now inp < 2 ^ 32"
  shows "\<exists>p1 c1 p2. port_run mem [(inp, Update_state a)] p = Some p1 \<and> GetConnection a p1 = Some c1
    \<and> cx_write c1 = STATE_WRITE_TIMEOUT \<and> cx_deletes c1 = cx_deletes c + 1
    \<and> port_run mem [(inp', Delete_message a)] p1 = Some p2 \<and> GetConnection a p2 = None
    \<and> pt_destroyed p2 = (pt_lifetime p = LT_POSTTIMEOUT \<and> pt_connections p2 = [])"
proof -
  let ?now = "of_nat (pi_now inp) :: uint32"
  have now: "unat ?now = pi_now inp" using assms(7) by (simp add: unat_of_nat_small)
  have sum: "unat (t + 15000) = unat t + 15000" using assms(6,7) by (simp add: unat_word_ariths)
  have late: "t + CONNECTION_WRITE_TIMEOUT < ?now"
    using assms(6) by (simp add: CONNECTION_WRITE_TIMEOUT_def word_less_nat_alt now sum)
  have upd: "cx_UpdateState ?now c = set_write_state STATE_WRITE_TIMEOUT c"
    using assms(3-5) late
    by (auto simp: cx_UpdateState_def update_read_state_def update_unreliable_def update_write_timeout_def
        TooLongWithoutResponse_def Let_def)
  let ?p1 = "pt_update a (cx_UpdateState ?now) p"
  let ?c1 = "set_write_state STATE_WRITE_TIMEOUT c"
  have c1: "GetConnection a ?p1 = Some ?c1"
    unfolding upd [symmetric] by (rule GetConnection_update [OF assms(1)])
      (simp add: cx_UpdateState_def update_read_state_def update_unreliable_def update_write_timeout_def Let_def)
  have st: "cx_write ?c1 = STATE_WRITE_TIMEOUT" "cx_deletes ?c1 = cx_deletes c + 1"
    using assms(3,4) by (cases "cx_read c"; auto simp: set_write_state_def cx_CheckTimeout_def cx_note_def)+
  let ?q = "?p1\<lparr>pt_connections := filter (\<lambda>c. \<not> sa_eq (cd_address (cx_remote c)) a) (pt_connections ?p1)\<rparr>"
  have life: "pt_lifetime ?q = pt_lifetime p" "pt_destroyed ?q = pt_destroyed p" by (simp_all add: pt_update_def)
  let ?p2 = "if pt_lifetime p = LT_POSTTIMEOUT \<and> pt_connections ?q = []
    then pt_note Port_destroyed (?q\<lparr>pt_destroyed := True, pt_timers := []\<rparr>) else ?q"
  have p2: "pt_CheckTimeout ?q = Some ?p2" "pt_connections ?p2 = pt_connections ?q"
    "pt_destroyed ?p2 = (pt_destroyed p \<or> pt_lifetime p = LT_POSTTIMEOUT \<and> pt_connections ?q = [])"
    unfolding CheckTimeout_total life using life(2) by (auto simp: pt_note_def)
  have "port_run mem [(inp, Update_state a)] p = Some ?p1" by (simp add: port_step_def assms(2))
  moreover have "port_run mem [(inp', Delete_message a)] ?p1 = Some ?p2"
    using c1 st(2) p2(1) assms(2) by (simp add: port_step_def cx_OnMessage_def OnConnectionDestroyed_def)
  moreover have "GetConnection a ?p2 = None"
    unfolding GetConnection_def p2(2) by (auto simp: find_None_iff)
  ultimately show ?thesis using c1 st p2(2,3) assms(2) by (intro exI [of _ ?p1] exI [of _ ?c1] exI [of _ ?p2]) simp
qed

definition quiet_connection :: ice_connection where
  "quiet_connection = (Connection_new 0 (sample_candidate sample_b [98] [113]))\<lparr>cx_pings := [1000]\<rparr>"

theorem silent_connection_ends_witness:
  "\<exists>p1 c1 p2. port_run [] [(sample_inp\<lparr>pi_now := 20000\<rparr>, Update_state sample_b)]
        (sample_peer_A\<lparr>pt_connections := [quiet_connection], pt_lifetime := LT_POSTTIMEOUT\<rparr>) = Some p1
    \<and> GetConnection sample_b p1 = Some c1 \<and> cx_write c1 = STATE_WRITE_TIMEOUT
    \<and> port_run [] [(sample_inp, Delete_message sample_b)] p1 = Some p2 \<and> GetConnection sample_b p2 = None"
proof -
  have "GetConnection sample_b (sample_peer_A\<lparr>pt_connections := [quiet_connection], pt_lifetime := LT_POSTTIMEOUT\<rparr>)
      = Some quiet_connection"
    by (simp add: GetConnection_def quiet_connection_def Connection_new_def sample_candidate_def)
  moreover have "\<not> pt_destroyed (sample_peer_A\<lparr>pt_connections := [quiet_connection], pt_lifetime := LT_POSTTIMEOUT\<rparr>)"
    by (simp add: sample_peer_A_def with_connection_def sample_A_def sample_port_def Port_shared_def)
  ultimately show ?thesis
    using silent_connection_ends [of sample_b "sample_peer_A\<lparr>pt_connections := [quiet_connection], pt_lifetime := LT_POSTTIMEOUT\<rparr>"
        quiet_connection 1000 "[]" "sample_inp\<lparr>pi_now := 20000\<rparr>" "[]" sample_inp]
    by (simp add: quiet_connection_def Connection_new_def del: port_run.simps) blast
qed

text \<open>
  C25.  The read time-out is exact while the clock has not wrapped: a readable connection stays readable until
  30 seconds after the last ping and the last packet of data.  When the deadlines of both lie
  beyond the wrap of the 32-bit clock and the clock is not yet there, the comparison takes them for past ones and
  the connection is dropped at once, whatever it received the moment before.
\<close>

theorem read_timeout_at_wrap:
  assumes "cx_read c = STATE_READABLE" and "cx_last_ping_received c \<le> now" and "cx_last_data_received c \<le> now"
  shows "(unat (cx_last_ping_received c) + 30000 < 2 ^ 32 \<and> unat (cx_last_data_received c) + 30000 < 2 ^ 32 \<longrightarrow>
      (cx_read (cx_UpdateState now c) = STATE_READABLE \<longleftrightarrow>
         unat now < max (unat (cx_last_ping_received c)) (unat (cx_last_data_received c)) + 30000))
    \<and> (2 ^ 32 \<le> unat (cx_last_ping_received c) + 30000 \<and> 2 ^ 32 \<le> unat (cx_last_data_received c) + 30000 \<longrightarrow>
      cx_read (cx_UpdateState now c) = STATE_READ_TIMEOUT)"
proof -
  have rd: "cx_read (cx_UpdateState now c) = (if cx_last_ping_received c + CONNECTION_READ_TIMEOUT \<le> now
      \<and> cx_last_data_received c + CONNECTION_READ_TIMEOUT \<le> now then STATE_READ_TIMEOUT else STATE_READABLE)"
    using assms(1) by (simp add: cx_UpdateState_def update_read_state_def update_unreliable_def update_write_timeout_def Let_def)
  have fits: "unat (t + CONNECTION_READ_TIMEOUT) = unat t + 30000" if "unat t + 30000 < 2 ^ 32" for t
    using that by (simp add: CONNECTION_READ_TIMEOUT_def unat_word_ariths)
  have wraps: "t + CONNECTION_READ_TIMEOUT \<le> now" if "2 ^ 32 \<le> unat t + 30000" "t \<le> now" for t
  proof -
    have lt: "unat t < 4294967296" using unat_bound [of t] by simp
    have "unat (t + CONNECTION_READ_TIMEOUT) = (unat t + 30000) mod 2 ^ 32"
      by (simp add: CONNECTION_READ_TIMEOUT_def unat_word_ariths)
    also have "\<dots> = unat t + 30000 - 2 ^ 32"
    proof -
      have "unat t + 30000 - 4294967296 < 4294967296" using lt by linarith
      then have "unat t + 30000 - 2 ^ 32 < 2 ^ 32" by simp
      then show ?thesis unfolding le_mod_geq [OF that(1)] by (rule mod_less)
    qed
    finally show ?thesis using that lt by (simp add: word_le_nat_alt)
  qed
  show ?thesis
    unfolding rd
  proof (intro conjI impI, goal_cases)
    case 1
    then show ?case by (auto simp: word_le_nat_alt fits)
  next
    case 2
    then show ?case using wraps assms(2,3) by simp
  qed
qed

theorem read_timeout_at_wrap_witness:
  "cx_read (cx_UpdateState 4294960000
     (quiet_connection\<lparr>cx_read := STATE_READABLE, cx_last_ping_received := 4294960000, cx_last_data_received := 4294960000\<rparr>))
   = STATE_READ_TIMEOUT"
  using read_timeout_at_wrap [of "quiet_connection\<lparr>cx_read := STATE_READABLE, cx_last_ping_received := 4294960000,
      cx_last_data_received := 4294960000\<rparr>" 4294960000] by simp

end
