(* ===== verification/TurnServer.thy ===== *)
theory TurnServer
  imports StunBuild HexCode TimeUtils
begin

text \<open>
  \<^verbatim>\<open>p2p/base/turnserver.cc\<close>: the TURN server with its allocations, permissions and channels.  The
  server is a state that its handlers return updated.  Objects that a timer can point to carry the
  number of their address; the queue of the thread is the list of the posted messages, each its
  due time and its handler.  What leaves the sockets is appended to \<open>ts_out\<close>.  Undefined behaviour
  (use of a deleted object, a null dereference, a read outside the packet) is \<open>None\<close>.

  The authentication hook, the memory of new digest objects and the sockets and random strings the
  environment supplies are parameters.  Times are milliseconds; \<^verbatim>\<open>Time()\<close> has 32 bits of them.
  Logging is left out.
\<close>

section \<open>Constants\<close>

definition kNonceTimeout :: int where "kNonceTimeout = 60 * 60 * 1000"
definition kDefaultAllocationTimeout :: nat where "kDefaultAllocationTimeout = 10 * 60 * 1000"
definition kPermissionTimeout :: nat where "kPermissionTimeout = 5 * 60 * 1000"
definition kChannelTimeout :: nat where "kChannelTimeout = 10 * 60 * 1000"
definition kMinChannelNumber :: int where "kMinChannelNumber = 0x4000"
definition kMaxChannelNumber :: int where "kMaxChannelNumber = 0x7FFF"
definition kNonceKeySize :: nat where "kNonceKeySize = 16"
definition kNonceSize :: nat where "kNonceSize = 40"
definition TURN_CHANNEL_HEADER_SIZE :: nat where "TURN_CHANNEL_HEADER_SIZE = 4"
definition IPPROTO_UDP :: uint32 where "IPPROTO_UDP = 17"

definition STUN_ALLOCATE_REQUEST :: uint16 where "STUN_ALLOCATE_REQUEST = 0x0003"
definition TURN_REFRESH_REQUEST :: uint16 where "TURN_REFRESH_REQUEST = 0x0004"
definition TURN_SEND_INDICATION :: uint16 where "TURN_SEND_INDICATION = 0x0016"
definition TURN_DATA_INDICATION :: uint16 where "TURN_DATA_INDICATION = 0x0017"
definition TURN_CREATE_PERMISSION_REQUEST :: uint16 where "TURN_CREATE_PERMISSION_REQUEST = 0x0008"
definition TURN_CHANNEL_BIND_REQUEST :: uint16 where "TURN_CHANNEL_BIND_REQUEST = 0x0009"

definition IsTurnChannelData :: "uint16 \<Rightarrow> bool" where
  "IsTurnChannelData msg_type \<longleftrightarrow> msg_type AND 0xC000 = 0x4000"

section \<open>Connections\<close>

datatype turn_protocol = TURNPROTO_UNKNOWN | TURNPROTO_UDP | TURNPROTO_TCP | TURNPROTO_SSLTCP

fun proto_value :: "turn_protocol \<Rightarrow> nat" where
  "proto_value TURNPROTO_UNKNOWN = 0"
| "proto_value TURNPROTO_UDP = 1"
| "proto_value TURNPROTO_TCP = 2"
| "proto_value TURNPROTO_SSLTCP = 3"

record turn_connection =
  cn_src :: socket_address
  cn_dst :: socket_address
  cn_proto :: turn_protocol

definition cn_eq :: "turn_connection \<Rightarrow> turn_connection \<Rightarrow> bool" where
  "cn_eq a c \<longleftrightarrow> sa_eq (cn_src a) (cn_src c) \<and> sa_eq (cn_dst a) (cn_dst c) \<and> cn_proto a = cn_proto c"

definition cn_less :: "turn_connection \<Rightarrow> turn_connection \<Rightarrow> bool" where
  "cn_less a c \<longleftrightarrow> sa_less (cn_src a) (cn_src c) \<or> sa_less (cn_dst a) (cn_dst c)
     \<or> proto_value (cn_proto a) < proto_value (cn_proto c)"

definition cn_ToString :: "ntop \<Rightarrow> turn_connection \<Rightarrow> string" where
  "cn_ToString ntop c = sa_ToString ntop (cn_src c) @ ''-'' @ sa_ToString ntop (cn_dst c) @ '':''
     @ [''unknown'', ''udp'', ''tcp'', ''ssltcp''] ! proto_value (cn_proto c)"

text \<open>The keys of a \<^verbatim>\<open>std::map\<close> are the same when neither is less than the other.\<close>

definition cn_same :: "turn_connection \<Rightarrow> turn_connection \<Rightarrow> bool" where
  "cn_same a c \<longleftrightarrow> \<not> cn_less a c \<and> \<not> cn_less c a"

section \<open>The state\<close>

text \<open>\<open>pm_deleted\<close> says that the object was deleted while the list of its allocation still points to
  it: nothing is connected to the \<^verbatim>\<open>SignalDestroyed\<close> of a permission.\<close>

record turn_permission =
  pm_id :: nat
  pm_peer :: ip_address
  pm_deleted :: bool

record turn_channel =
  ch_id :: nat
  ch_number :: int
  ch_peer :: socket_address

record turn_allocation =
  al_id :: nat
  al_conn :: turn_connection
  al_socket :: socket_address
  al_key :: bytes
  al_transaction_id :: bytes
  al_username :: bytes
  al_perms :: "turn_permission list"
  al_channels :: "turn_channel list"

datatype turn_output =
    To_client bytes socket_address
  | To_peer turn_connection bytes socket_address

record turn_server =
  ts_nonce_key :: bytes
  ts_realm :: bytes
  ts_software :: bytes
  ts_socket :: "socket_address option"
  ts_factory :: bool
  ts_external_addr :: socket_address
  ts_allocations :: "turn_allocation list"
  ts_messages :: "(nat \<times> nat) list"
  ts_next :: nat
  ts_out :: "turn_output list"

text \<open>The hook returns its verdict and the key it leaves; without a hook there is none.\<close>

record turn_env =
  te_auth :: "(bytes \<Rightarrow> bytes \<Rightarrow> bool \<times> bytes) option"
  te_mem :: bytes

text \<open>What the environment supplies while an event is handled: the time, the address of the socket
  the factory creates (if it does) and a random string.\<close>

record turn_input =
  ti_now :: nat
  ti_new_socket :: "socket_address option"
  ti_random :: bytes

definition TurnServer_new :: "bytes \<Rightarrow> turn_server" where
  "TurnServer_new random = \<lparr>ts_nonce_key = random, ts_realm = [], ts_software = [], ts_socket = None,
     ts_factory = False, ts_external_addr = SocketAddress_nil, ts_allocations = [], ts_messages = [],
     ts_next = 0, ts_out = []\<rparr>"

definition ts_set_realm :: "bytes \<Rightarrow> turn_server \<Rightarrow> turn_server" where
  "ts_set_realm realm s = s\<lparr>ts_realm := realm\<rparr>"

definition ts_set_software :: "bytes \<Rightarrow> turn_server \<Rightarrow> turn_server" where
  "ts_set_software software s = s\<lparr>ts_software := software\<rparr>"

definition AddInternalServerSocket :: "socket_address \<Rightarrow> turn_server \<Rightarrow> turn_server option" where
  "AddInternalServerSocket local s = (if ts_socket s \<noteq> None then None else Some (s\<lparr>ts_socket := Some local\<rparr>))"

definition SetExternalSocketFactory :: "socket_address \<Rightarrow> turn_server \<Rightarrow> turn_server" where
  "SetExternalSocketFactory external_addr s = s\<lparr>ts_factory := True, ts_external_addr := external_addr\<rparr>"

text \<open>The thread: \<^verbatim>\<open>PostDelayed\<close> and \<^verbatim>\<open>Clear\<close> of the one kind of message.\<close>

definition ts_PostDelayed :: "nat \<Rightarrow> nat \<Rightarrow> nat \<Rightarrow> turn_server \<Rightarrow> turn_server" where
  "ts_PostDelayed now delay obj s = s\<lparr>ts_messages := ts_messages s @ [(now + delay, obj)]\<rparr>"

definition ts_Clear :: "nat \<Rightarrow> turn_server \<Rightarrow> turn_server" where
  "ts_Clear obj s = s\<lparr>ts_messages := filter (\<lambda>m. snd m \<noteq> obj) (ts_messages s)\<rparr>"

text \<open>A fresh object, and an allocation whose members have changed.\<close>

definition ts_new :: "turn_server \<Rightarrow> nat \<times> turn_server" where
  "ts_new s = (ts_next s, s\<lparr>ts_next := Suc (ts_next s)\<rparr>)"

definition ts_update :: "turn_allocation \<Rightarrow> turn_server \<Rightarrow> turn_server" where
  "ts_update a s =
     s\<lparr>ts_allocations := map (\<lambda>x. if al_id x = al_id a then a else x) (ts_allocations s)\<rparr>"

section \<open>Building and sending messages\<close>

definition InitResponse :: "stun_message \<Rightarrow> stun_message \<Rightarrow> bool \<times> stun_message" where
  "InitResponse req resp =
     (let resp_type = GetStunSuccessResponseType (uint (sm_type req))
      in if resp_type = - 1 then (False, resp)
         else (True, snd (SetTransactionID (sm_tid req) (SetType resp_type resp))))"

definition InitErrorResponse :: "stun_message \<Rightarrow> nat \<Rightarrow> bytes \<Rightarrow> stun_message \<Rightarrow> bool \<times> stun_message" where
  "InitErrorResponse req code reason resp =
     (let resp_type = GetStunErrorResponseType (uint (sm_type req))
      in if resp_type = - 1 then (False, resp)
         else (True, snd (AddAttribute (attr_ErrorCode STUN_ATTR_ERROR_CODE code reason)
                       (snd (SetTransactionID (sm_tid req) (SetType resp_type resp))))))"

definition ts_Send :: "turn_connection \<Rightarrow> byte_buffer \<Rightarrow> turn_server \<Rightarrow> turn_server" where
  "ts_Send conn buf s = s\<lparr>ts_out := ts_out s @ [To_client (bb_data buf) (cn_src conn)]\<rparr>"

definition with_software :: "turn_server \<Rightarrow> stun_message \<Rightarrow> stun_message" where
  "with_software s msg =
     (if ts_software s \<noteq> [] then snd (AddAttribute (attr_ByteString STUN_ATTR_SOFTWARE (ts_software s)) msg)
      else msg)"

definition ts_SendStun :: "turn_connection \<Rightarrow> stun_message \<Rightarrow> turn_server \<Rightarrow> turn_server" where
  "ts_SendStun conn msg s = ts_Send conn (written_message (with_software s msg)) s"

definition ts_SendErrorResponse ::
    "turn_connection \<Rightarrow> stun_message \<Rightarrow> nat \<Rightarrow> bytes \<Rightarrow> turn_server \<Rightarrow> turn_server" where
  "ts_SendErrorResponse conn req code reason s =
     ts_SendStun conn (snd (InitErrorResponse req code reason (StunMessage_new TurnMessage))) s"

section \<open>Nonces\<close>

definition GenerateNonce :: "turn_env \<Rightarrow> turn_server \<Rightarrow> uint32 \<Rightarrow> bytes" where
  "GenerateNonce env s now =
     hex_encode (host_bytes32 now)
     @ ComputeHmac_text (te_mem env) DIGEST_MD5 (ts_nonce_key s) (host_bytes32 now)"

definition ValidateNonce :: "turn_env \<Rightarrow> turn_server \<Rightarrow> uint32 \<Rightarrow> bytes \<Rightarrow> bool" where
  "ValidateNonce env s now nonce =
     (if length nonce \<noteq> kNonceSize then False
      else
        let (len, p) = hex_decode 4 (take (4 * 2) nonce)
        in if len \<noteq> 4 then False
           else if drop (4 * 2) nonce \<noteq> ComputeHmac_text (te_mem env) DIGEST_MD5 (ts_nonce_key s) p then False
           else TimeSince now (host_word32 p) < kNonceTimeout)"

definition ts_SendErrorResponseWithRealmAndNonce ::
    "turn_env \<Rightarrow> turn_input \<Rightarrow> turn_connection \<Rightarrow> stun_message \<Rightarrow> nat \<Rightarrow> bytes \<Rightarrow> turn_server \<Rightarrow> turn_server" where
  "ts_SendErrorResponseWithRealmAndNonce env inp conn msg code reason s =
     (let resp = snd (InitErrorResponse msg code reason (StunMessage_new TurnMessage));
          resp1 = snd (AddAttribute (attr_ByteString STUN_ATTR_NONCE (GenerateNonce env s (of_nat (ti_now inp)))) resp);
          resp2 = snd (AddAttribute (attr_ByteString STUN_ATTR_REALM (ts_realm s)) resp1)
      in ts_SendStun conn resp2 s)"

section \<open>Permissions and channels\<close>

fun FindPermission :: "turn_permission list \<Rightarrow> ip_address \<Rightarrow> turn_permission option option" where
  "FindPermission [] addr = Some None"
| "FindPermission (p # ps) addr =
     (if pm_deleted p then None
      else if ip_eq (pm_peer p) addr then Some (Some p)
      else FindPermission ps addr)"

definition HasPermission :: "turn_allocation \<Rightarrow> ip_address \<Rightarrow> bool option" where
  "HasPermission a addr = map_option (\<lambda>p. p \<noteq> None) (FindPermission (al_perms a) addr)"

definition ts_Refresh :: "nat \<Rightarrow> nat \<Rightarrow> nat \<Rightarrow> turn_server \<Rightarrow> turn_server" where
  "ts_Refresh now timeout obj s = ts_PostDelayed now timeout obj (ts_Clear obj s)"

definition AddPermission ::
    "nat \<Rightarrow> ip_address \<Rightarrow> turn_allocation \<Rightarrow> turn_server \<Rightarrow> (turn_allocation \<times> turn_server) option" where
  "AddPermission now addr a s =
     (case FindPermission (al_perms a) addr of
        None \<Rightarrow> None
      | Some None \<Rightarrow>
          (let (obj, s1) = ts_new s
           in Some (a\<lparr>al_perms := al_perms a @ [\<lparr>pm_id = obj, pm_peer = addr, pm_deleted = False\<rparr>]\<rparr>,
                 ts_Refresh now kPermissionTimeout obj s1))
      | Some (Some perm) \<Rightarrow> Some (a, ts_Refresh now kPermissionTimeout (pm_id perm) s))"

definition FindChannel_number :: "turn_allocation \<Rightarrow> int \<Rightarrow> turn_channel option" where
  "FindChannel_number a channel_id = List.find (\<lambda>c. ch_number c = channel_id) (al_channels a)"

definition FindChannel_peer :: "turn_allocation \<Rightarrow> socket_address \<Rightarrow> turn_channel option" where
  "FindChannel_peer a addr = List.find (\<lambda>c. sa_eq (ch_peer c) addr) (al_channels a)"

section \<open>The handlers of an allocation\<close>

definition SendExternal :: "turn_allocation \<Rightarrow> bytes \<Rightarrow> socket_address \<Rightarrow> turn_server \<Rightarrow> turn_server" where
  "SendExternal a data peer s = s\<lparr>ts_out := ts_out s @ [To_peer (al_conn a) data peer]\<rparr>"

definition al_SendResponse :: "turn_env \<Rightarrow> turn_allocation \<Rightarrow> stun_message \<Rightarrow> turn_server \<Rightarrow> turn_server" where
  "al_SendResponse env a msg s =
     ts_SendStun (al_conn a) (snd (AddMessageIntegrity (te_mem env) (al_key a) msg)) s"

definition al_SendBadRequestResponse :: "turn_allocation \<Rightarrow> stun_message \<Rightarrow> turn_server \<Rightarrow> turn_server" where
  "al_SendBadRequestResponse a req s =
     ts_SendErrorResponse (al_conn a) req STUN_ERROR_BAD_REQUEST STUN_ERROR_REASON_BAD_REQUEST s"

definition ComputeLifetime :: "stun_message \<Rightarrow> nat" where
  "ComputeLifetime msg =
     (let lifetime = (of_nat (kDefaultAllocationTimeout div 1000) :: uint32)
      in unat (case GetAttribute msg STUN_ATTR_LIFETIME of
           Some a \<Rightarrow> if attr_value a < lifetime then attr_value a else lifetime
         | None \<Rightarrow> lifetime))"

text \<open>The success response to a request, with more attributes.\<close>

definition success_response :: "stun_message \<Rightarrow> stun_attr list \<Rightarrow> stun_message" where
  "success_response msg attrs =
     fold (\<lambda>a m. snd (AddAttribute a m)) attrs (snd (InitResponse msg (StunMessage_new TurnMessage)))"

definition al_HandleAllocateRequest ::
    "turn_env \<Rightarrow> turn_input \<Rightarrow> turn_allocation \<Rightarrow> stun_message \<Rightarrow> turn_server \<Rightarrow> turn_server option" where
  "al_HandleAllocateRequest env inp a msg s =
     (case GetAttribute msg STUN_ATTR_USERNAME of
        None \<Rightarrow> None
      | Some username_attr \<Rightarrow>
          (let a1 = a\<lparr>al_transaction_id := sm_tid msg, al_username := attr_string username_attr\<rparr>;
               lifetime_secs = ComputeLifetime msg;
               s1 = ts_PostDelayed (ti_now inp) (lifetime_secs * 1000) (al_id a) (ts_update a1 s);
               response = success_response msg
                 [attr_XorAddress STUN_ATTR_XOR_MAPPED_ADDRESS (cn_src (al_conn a)),
                  attr_XorAddress STUN_ATTR_XOR_RELAYED_ADDRESS (al_socket a),
                  attr_UInt32 STUN_ATTR_LIFETIME (of_nat lifetime_secs)]
           in Some (al_SendResponse env a1 response s1)))"

definition al_HandleRefreshRequest ::
    "turn_env \<Rightarrow> turn_input \<Rightarrow> turn_allocation \<Rightarrow> stun_message \<Rightarrow> turn_server \<Rightarrow> turn_server" where
  "al_HandleRefreshRequest env inp a msg s =
     (let lifetime_secs = ComputeLifetime msg;
          s1 = ts_PostDelayed (ti_now inp) (lifetime_secs * 1000) (al_id a) (ts_Clear (al_id a) s)
      in al_SendResponse env a
           (success_response msg [attr_UInt32 STUN_ATTR_LIFETIME (of_nat lifetime_secs)]) s1)"

definition al_HandleSendIndication :: "turn_allocation \<Rightarrow> stun_message \<Rightarrow> turn_server \<Rightarrow> turn_server option" where
  "al_HandleSendIndication a msg s =
     (case (GetAttribute msg STUN_ATTR_DATA, GetAddress msg STUN_ATTR_XOR_PEER_ADDRESS) of
        (Some data_attr, Some peer_attr) \<Rightarrow>
          (let peer = attr_address (at_body peer_attr)
           in case HasPermission a (sa_ip peer) of
                None \<Rightarrow> None
              | Some True \<Rightarrow> Some (SendExternal a (attr_string data_attr) peer s)
              | Some False \<Rightarrow> Some s)
      | _ \<Rightarrow> Some s)"

definition al_HandleCreatePermissionRequest ::
    "turn_env \<Rightarrow> turn_input \<Rightarrow> turn_allocation \<Rightarrow> stun_message \<Rightarrow> turn_server \<Rightarrow> turn_server option" where
  "al_HandleCreatePermissionRequest env inp a msg s =
     (case GetAddress msg STUN_ATTR_XOR_PEER_ADDRESS of
        None \<Rightarrow> Some (al_SendBadRequestResponse a msg s)
      | Some peer_attr \<Rightarrow>
          (case AddPermission (ti_now inp) (sa_ip (attr_address (at_body peer_attr))) a s of
             None \<Rightarrow> None
           | Some (a1, s1) \<Rightarrow> Some (al_SendResponse env a1 (success_response msg []) (ts_update a1 s1))))"

text \<open>The two channels are compared as pointers.\<close>

definition bind_channel ::
    "nat \<Rightarrow> int \<Rightarrow> socket_address \<Rightarrow> turn_channel option \<Rightarrow> turn_allocation \<Rightarrow> turn_server
      \<Rightarrow> turn_allocation \<times> turn_server" where
  "bind_channel now channel_id peer channel1 a s =
     (case channel1 of
        None \<Rightarrow>
          (let (obj, s1) = ts_new s
           in (a\<lparr>al_channels := al_channels a @ [\<lparr>ch_id = obj, ch_number = channel_id, ch_peer = peer\<rparr>]\<rparr>,
               ts_Refresh now kChannelTimeout obj s1))
      | Some channel \<Rightarrow> (a, ts_Refresh now kChannelTimeout (ch_id channel) s))"

definition al_HandleChannelBindRequest ::
    "turn_env \<Rightarrow> turn_input \<Rightarrow> turn_allocation \<Rightarrow> stun_message \<Rightarrow> turn_server \<Rightarrow> turn_server option" where
  "al_HandleChannelBindRequest env inp a msg s =
     (case (GetAttribute msg STUN_ATTR_CHANNEL_NUMBER, GetAddress msg STUN_ATTR_XOR_PEER_ADDRESS) of
        (Some channel_attr, Some peer_attr) \<Rightarrow>
          (let channel_id = uint (drop_bit 16 (attr_value channel_attr));
               peer = attr_address (at_body peer_attr);
               channel1 = FindChannel_number a channel_id;
               channel2 = FindChannel_peer a peer
           in if channel_id < kMinChannelNumber \<or> channel_id > kMaxChannelNumber
              then Some (al_SendBadRequestResponse a msg s)
              else if map_option ch_id channel1 \<noteq> map_option ch_id channel2
              then Some (al_SendBadRequestResponse a msg s)
              else
                let (a1, s1) = bind_channel (ti_now inp) channel_id peer channel1 a s
                in case AddPermission (ti_now inp) (sa_ip peer) a1 s1 of
                     None \<Rightarrow> None
                   | Some (a2, s2) \<Rightarrow> Some (al_SendResponse env a2 (success_response msg []) (ts_update a2 s2)))
      | _ \<Rightarrow> Some (al_SendBadRequestResponse a msg s))"

definition al_HandleTurnMessage ::
    "turn_env \<Rightarrow> turn_input \<Rightarrow> turn_allocation \<Rightarrow> stun_message \<Rightarrow> turn_server \<Rightarrow> turn_server option" where
  "al_HandleTurnMessage env inp a msg s =
     (if sm_type msg = STUN_ALLOCATE_REQUEST then al_HandleAllocateRequest env inp a msg s
      else if sm_type msg = TURN_REFRESH_REQUEST then Some (al_HandleRefreshRequest env inp a msg s)
      else if sm_type msg = TURN_SEND_INDICATION then al_HandleSendIndication a msg s
      else if sm_type msg = TURN_CREATE_PERMISSION_REQUEST
      then al_HandleCreatePermissionRequest env inp a msg s
      else if sm_type msg = TURN_CHANNEL_BIND_REQUEST then al_HandleChannelBindRequest env inp a msg s
      else Some s)"

definition al_HandleChannelData :: "turn_allocation \<Rightarrow> bytes \<Rightarrow> turn_server \<Rightarrow> turn_server" where
  "al_HandleChannelData a data s =
     (case FindChannel_number a (uint (GetBE16 data)) of
        Some channel \<Rightarrow> SendExternal a (drop TURN_CHANNEL_HEADER_SIZE data) (ch_peer channel) s
      | None \<Rightarrow> s)"

definition al_OnExternalPacket ::
    "turn_input \<Rightarrow> turn_allocation \<Rightarrow> bytes \<Rightarrow> socket_address \<Rightarrow> turn_server \<Rightarrow> turn_server option" where
  "al_OnExternalPacket inp a data addr s =
     (case FindChannel_peer a addr of
        Some channel \<Rightarrow>
          Some (ts_Send (al_conn a)
            (WriteBytes (WriteUInt16 (WriteUInt16 (bb_new ORDER_NETWORK) (of_int (ch_number channel)))
               (of_nat (length data))) data) s)
      | None \<Rightarrow>
          (case HasPermission a (sa_ip addr) of
             None \<Rightarrow> None
           | Some True \<Rightarrow>
               (let msg = snd (SetTransactionID (ti_random inp)
                            (SetType (uint TURN_DATA_INDICATION) (StunMessage_new TurnMessage)));
                    msg1 = snd (AddAttribute (attr_XorAddress STUN_ATTR_XOR_PEER_ADDRESS addr) msg);
                    msg2 = snd (AddAttribute (attr_ByteString STUN_ATTR_DATA data) msg1)
                in Some (ts_SendStun (al_conn a) msg2 s))
           | Some False \<Rightarrow> Some s))"

section \<open>The handlers of the server\<close>

definition FindAllocation :: "turn_server \<Rightarrow> turn_connection \<Rightarrow> turn_allocation option" where
  "FindAllocation s conn = List.find (\<lambda>a. cn_same (al_conn a) conn) (ts_allocations s)"

text \<open>\<^verbatim>\<open>GetKey\<close>: the verdict and the key; its caller ignores the verdict.\<close>

definition ts_GetKey :: "turn_env \<Rightarrow> turn_server \<Rightarrow> stun_message \<Rightarrow> bool \<times> bytes" where
  "ts_GetKey env s msg =
     (case GetAttribute msg STUN_ATTR_USERNAME of
        None \<Rightarrow> (False, [])
      | Some username_attr \<Rightarrow>
          (case te_auth env of
             None \<Rightarrow> (False, [])
           | Some hook \<Rightarrow> hook (attr_string username_attr) (ts_realm s)))"

definition CheckAuthorization ::
    "turn_env \<Rightarrow> turn_input \<Rightarrow> turn_connection \<Rightarrow> stun_message \<Rightarrow> bytes \<Rightarrow> bytes \<Rightarrow> turn_server
      \<Rightarrow> (bool \<times> turn_server) option" where
  "CheckAuthorization env inp conn msg data key s =
     (case GetAttribute msg STUN_ATTR_MESSAGE_INTEGRITY of
        None \<Rightarrow> Some (False, ts_SendErrorResponseWithRealmAndNonce env inp conn msg STUN_ERROR_UNAUTHORIZED
                  STUN_ERROR_REASON_UNAUTHORIZED s)
      | Some _ \<Rightarrow>
      case (GetAttribute msg STUN_ATTR_USERNAME, GetAttribute msg STUN_ATTR_REALM,
            GetAttribute msg STUN_ATTR_NONCE) of
        (Some _, Some _, Some nonce_attr) \<Rightarrow>
          (if \<not> ValidateNonce env s (of_nat (ti_now inp)) (attr_string nonce_attr)
           then Some (False, ts_SendErrorResponseWithRealmAndNonce env inp conn msg STUN_ERROR_STALE_NONCE
                  STUN_ERROR_REASON_STALE_NONCE s)
           else
             case (if key = [] then Some False else ValidateMessageIntegrity (te_mem env) data key) of
               None \<Rightarrow> None
             | Some False \<Rightarrow>
                 Some (False, ts_SendErrorResponseWithRealmAndNonce env inp conn msg STUN_ERROR_UNAUTHORIZED
                   STUN_ERROR_REASON_UNAUTHORIZED s)
             | Some True \<Rightarrow> Some (True, s))
      | _ \<Rightarrow> Some (False, ts_SendErrorResponse conn msg STUN_ERROR_BAD_REQUEST STUN_ERROR_REASON_BAD_REQUEST s))"

definition HandleBindingRequest :: "turn_connection \<Rightarrow> stun_message \<Rightarrow> turn_server \<Rightarrow> turn_server" where
  "HandleBindingRequest conn req s =
     ts_SendStun conn
       (snd (AddAttribute (attr_XorAddress STUN_ATTR_XOR_MAPPED_ADDRESS (cn_src conn))
          (snd (InitResponse req (StunMessage_new StunMessage))))) s"

definition CreateAllocation ::
    "turn_input \<Rightarrow> turn_connection \<Rightarrow> bytes \<Rightarrow> turn_server \<Rightarrow> (turn_allocation \<times> turn_server) option" where
  "CreateAllocation inp conn key s =
     (case (if ts_factory s then ti_new_socket inp else None) of
        None \<Rightarrow> None
      | Some external_socket \<Rightarrow>
          (let (obj, s1) = ts_new s;
               a = \<lparr>al_id = obj, al_conn = conn, al_socket = external_socket, al_key = key,
                    al_transaction_id = [], al_username = [], al_perms = [], al_channels = []\<rparr>
           in Some (a, s1\<lparr>ts_allocations := ts_allocations s1 @ [a]\<rparr>)))"

definition HandleAllocateRequest ::
    "turn_env \<Rightarrow> turn_input \<Rightarrow> turn_connection \<Rightarrow> stun_message \<Rightarrow> bytes \<Rightarrow> turn_server \<Rightarrow> turn_server option" where
  "HandleAllocateRequest env inp conn msg key s =
     (case GetAttribute msg STUN_ATTR_REQUESTED_TRANSPORT of
        None \<Rightarrow> Some (ts_SendErrorResponse conn msg STUN_ERROR_BAD_REQUEST STUN_ERROR_REASON_BAD_REQUEST s)
      | Some transport_attr \<Rightarrow>
          if drop_bit 24 (attr_value transport_attr) \<noteq> IPPROTO_UDP
          then Some (ts_SendErrorResponse conn msg STUN_ERROR_UNSUPPORTED_PROTOCOL
                 STUN_ERROR_REASON_UNSUPPORTED_PROTOCOL s)
          else (case CreateAllocation inp conn key s of
               Some (alloc, s1) \<Rightarrow> al_HandleTurnMessage env inp alloc msg s1
             | None \<Rightarrow> Some (ts_SendErrorResponse conn msg STUN_ERROR_SERVER_ERROR
                 (string_bytes ''Failed to allocate socket'') s)))"

text \<open>What is done with a message that is allowed.\<close>

definition dispatch_message ::
    "turn_env \<Rightarrow> turn_input \<Rightarrow> turn_connection \<Rightarrow> stun_message \<Rightarrow> bytes \<Rightarrow> turn_allocation option
      \<Rightarrow> turn_server \<Rightarrow> turn_server option" where
  "dispatch_message env inp conn msg key allocation s =
     (case allocation of
        None \<Rightarrow>
          if sm_type msg = STUN_ALLOCATE_REQUEST then HandleAllocateRequest env inp conn msg key s
          else Some (ts_SendErrorResponse conn msg STUN_ERROR_ALLOCATION_MISMATCH
                 STUN_ERROR_REASON_ALLOCATION_MISMATCH s)
      | Some a \<Rightarrow>
          if sm_type msg \<noteq> STUN_ALLOCATE_REQUEST \<or> sm_tid msg = al_transaction_id a then
            if IsStunRequestType (uint (sm_type msg)) then
              (case GetAttribute msg STUN_ATTR_USERNAME of
                 None \<Rightarrow> None
               | Some username_attr \<Rightarrow>
                   if attr_string username_attr \<noteq> al_username a
                   then Some (ts_SendErrorResponse conn msg STUN_ERROR_WRONG_CREDENTIALS
                          STUN_ERROR_REASON_WRONG_CREDENTIALS s)
                   else al_HandleTurnMessage env inp a msg s)
            else al_HandleTurnMessage env inp a msg s
          else Some (ts_SendErrorResponse conn msg STUN_ERROR_ALLOCATION_MISMATCH
                 STUN_ERROR_REASON_ALLOCATION_MISMATCH s))"

definition HandleStunMessage ::
    "turn_env \<Rightarrow> turn_input \<Rightarrow> turn_connection \<Rightarrow> bytes \<Rightarrow> turn_server \<Rightarrow> turn_server option" where
  "HandleStunMessage env inp conn data s =
     (case StunMessage_Read (StunMessage_new TurnMessage) (bb_of_bytes data) of
        None \<Rightarrow> Some s
      | Some (msg, buf) \<Rightarrow>
          if bb_length buf > 0 then Some s
          else if sm_type msg = STUN_BINDING_REQUEST then Some (HandleBindingRequest conn msg s)
          else
            let allocation = FindAllocation s conn;
                key = (case allocation of None \<Rightarrow> snd (ts_GetKey env s msg) | Some a \<Rightarrow> al_key a)
            in if IsStunRequestType (uint (sm_type msg)) then
                 (case CheckAuthorization env inp conn msg data key s of
                    None \<Rightarrow> None
                  | Some (False, s1) \<Rightarrow> Some s1
                  | Some (True, s1) \<Rightarrow> dispatch_message env inp conn msg key allocation s1)
               else dispatch_message env inp conn msg key allocation s)"

definition OnInternalPacket ::
    "turn_env \<Rightarrow> turn_input \<Rightarrow> bytes \<Rightarrow> socket_address \<Rightarrow> turn_server \<Rightarrow> turn_server option" where
  "OnInternalPacket env inp data addr s =
     (case ts_socket s of
        None \<Rightarrow> None
      | Some local \<Rightarrow>
          if length data < TURN_CHANNEL_HEADER_SIZE then Some s
          else
            let conn = \<lparr>cn_src = addr, cn_dst = local, cn_proto = TURNPROTO_UDP\<rparr>
            in if \<not> IsTurnChannelData (GetBE16 data) then HandleStunMessage env inp conn data s
               else (case FindAllocation s conn of
                   Some a \<Rightarrow> Some (al_HandleChannelData a data s)
                 | None \<Rightarrow> Some s))"

section \<open>Timers and destruction\<close>

definition al_ToString :: "ntop \<Rightarrow> turn_allocation \<Rightarrow> string" where
  "al_ToString ntop a = ''Alloc['' @ cn_ToString ntop (al_conn a) @ '']''"

text \<open>Deleting a permission that was deleted before is undefined.\<close>

definition al_delete :: "turn_allocation \<Rightarrow> turn_server \<Rightarrow> turn_server option" where
  "al_delete a s =
     (if \<exists>p \<in> set (al_perms a). pm_deleted p then None
      else Some (ts_Clear (al_id a)
             (fold (\<lambda>p. ts_Clear (pm_id p)) (al_perms a)
               (fold (\<lambda>c. ts_Clear (ch_id c)) (al_channels a) s))))"

definition OnAllocationDestroyed :: "turn_allocation \<Rightarrow> turn_server \<Rightarrow> turn_server" where
  "OnAllocationDestroyed a s =
     s\<lparr>ts_allocations := filter (\<lambda>x. \<not> cn_same (al_conn x) (al_conn a)) (ts_allocations s)\<rparr>"

definition al_OnMessage :: "turn_allocation \<Rightarrow> turn_server \<Rightarrow> turn_server option" where
  "al_OnMessage a s = al_delete a (OnAllocationDestroyed a s)"

definition pm_OnMessage :: "turn_allocation \<Rightarrow> turn_permission \<Rightarrow> turn_server \<Rightarrow> turn_server" where
  "pm_OnMessage a p s =
     ts_Clear (pm_id p)
       (ts_update (a\<lparr>al_perms := map (\<lambda>x. if pm_id x = pm_id p then x\<lparr>pm_deleted := True\<rparr> else x) (al_perms a)\<rparr>) s)"

definition OnChannelDestroyed :: "turn_channel \<Rightarrow> turn_allocation \<Rightarrow> turn_allocation" where
  "OnChannelDestroyed c a = a\<lparr>al_channels := filter (\<lambda>x. ch_id x \<noteq> ch_id c) (al_channels a)\<rparr>"

definition ch_OnMessage :: "turn_allocation \<Rightarrow> turn_channel \<Rightarrow> turn_server \<Rightarrow> turn_server" where
  "ch_OnMessage a c s = ts_Clear (ch_id c) (ts_update (OnChannelDestroyed c a) s)"

definition TurnServer_delete :: "turn_server \<Rightarrow> turn_server option" where
  "TurnServer_delete s =
     fold (\<lambda>a r. case r of None \<Rightarrow> None | Some s1 \<Rightarrow> al_delete a s1) (ts_allocations s) (Some s)"

text \<open>The object a message is posted for: an allocation, a permission or a channel of one.\<close>

datatype turn_object =
    Allocation_object turn_allocation
  | Permission_object turn_allocation turn_permission
  | Channel_object turn_allocation turn_channel

definition allocation_objects :: "turn_allocation \<Rightarrow> (nat \<times> turn_object) list" where
  "allocation_objects a =
     (al_id a, Allocation_object a)
     # map (\<lambda>p. (pm_id p, Permission_object a p)) (filter (\<lambda>p. \<not> pm_deleted p) (al_perms a))
     @ map (\<lambda>c. (ch_id c, Channel_object a c)) (al_channels a)"

definition ts_objects :: "turn_server \<Rightarrow> (nat \<times> turn_object) list" where
  "ts_objects s = concat (map allocation_objects (ts_allocations s))"

definition deliver_to :: "turn_object \<Rightarrow> turn_server \<Rightarrow> turn_server option" where
  "deliver_to obj s = (case obj of
     Allocation_object a \<Rightarrow> al_OnMessage a s
   | Permission_object a p \<Rightarrow> Some (pm_OnMessage a p s)
   | Channel_object a c \<Rightarrow> Some (ch_OnMessage a c s))"

text \<open>The thread delivers the message at position \<open>i\<close> of its queue once it is due.\<close>

definition ts_Deliver :: "turn_input \<Rightarrow> nat \<Rightarrow> turn_server \<Rightarrow> turn_server option" where
  "ts_Deliver inp i s =
     (if i < length (ts_messages s) \<and> fst (ts_messages s ! i) \<le> ti_now inp then
        (case map_of (ts_objects s) (snd (ts_messages s ! i)) of
           None \<Rightarrow> None
         | Some obj \<Rightarrow>
             deliver_to obj (s\<lparr>ts_messages := take i (ts_messages s) @ drop (Suc i) (ts_messages s)\<rparr>))
      else Some s)"

section \<open>Histories\<close>

text \<open>A packet from a client, a packet from a peer at the socket of an allocation, a due message.\<close>

datatype turn_event =
    Client_packet bytes socket_address
  | Peer_packet nat bytes socket_address
  | Timer nat

fun turn_step :: "turn_env \<Rightarrow> turn_input \<times> turn_event \<Rightarrow> turn_server \<Rightarrow> turn_server option" where
  "turn_step env (inp, Client_packet data addr) s = OnInternalPacket env inp data addr s"
| "turn_step env (inp, Peer_packet obj data addr) s =
     (case List.find (\<lambda>a. al_id a = obj) (ts_allocations s) of
        None \<Rightarrow> Some s
      | Some a \<Rightarrow> al_OnExternalPacket inp a data addr s)"
| "turn_step env (inp, Timer i) s = ts_Deliver inp i s"

fun turn_run :: "turn_env \<Rightarrow> (turn_input \<times> turn_event) list \<Rightarrow> turn_server \<Rightarrow> turn_server option" where
  "turn_run env [] s = Some s"
| "turn_run env (e # es) s =
     (case turn_step env e s of None \<Rightarrow> None | Some s1 \<Rightarrow> turn_run env es s1)"

end
