(* ===== verification/TurnProperties.thy ===== *)
theory TurnProperties
  imports TurnServer
begin

text \<open>
  What the TURN server promises: which nonces it accepts, who may use an allocation and where data
  is relayed to, what becomes of channels, lifetimes and responses, and where it goes wrong.
\<close>

section \<open>Nonces\<close>

lemma nonce_hmac:
  assumes "length (te_mem env) = 64"
  shows "ComputeHmac_text (te_mem env) DIGEST_MD5 key x = hex_encode (hmac md5_digest key x)"
  using assms by (simp add: ComputeHmac_text_def ComputeHmac_string_def hmac_md5)

lemma host_bytes_word: "length p = 4 \<Longrightarrow> host_bytes32 (host_word32 p) = p"
  by (auto simp: length_Suc_conv numeral_eq_Suc SetLE32_GetLE32 simp del: One_nat_def)

lemma hex_decode_encode4: "hex_decode 4 (hex_encode (host_bytes32 t)) = (4, host_bytes32 t)"
  using hex_roundtrip [of "host_bytes32 t" 4 0]
  by (simp add: hex_decode_def hex_encode_def SetLE32_def)

lemma length_hex_decode_loop:
  "fst (hex_decode_loop d src out) \<noteq> 0 \<Longrightarrow> length (snd (hex_decode_loop d src out)) = fst (hex_decode_loop d src out)"
  by (induction d src out rule: hex_decode_loop.induct)
     (auto simp: Let_def split: option.splits list.splits if_splits)

lemma length_hex_decode: "hex_decode n src = (Suc k, p) \<Longrightarrow> length p = Suc k"
  using length_hex_decode_loop [of 0 src "[]"]
  by (auto simp: hex_decode_def hex_decode_with_delimiter_def Let_def split: if_splits)

text \<open>
  C16.  A nonce the server generated is accepted for an hour, as long as it is not older than
  \<open>2 ^ 31\<close> milliseconds, from when on the signed difference of the times counts it as a nonce of
  the future, for another 24 days.  Every accepted nonce carries the HMAC of its time under the key of the
  server: without the key no nonce can be made.
\<close>

theorem nonces:
  assumes mem: "length (te_mem env) = 64"
  shows "(ValidateNonce env s now (GenerateNonce env s t) \<longleftrightarrow> sint (now - t) < 3600000)
    \<and> (ValidateNonce env s now nonce \<longrightarrow> (\<exists>t'. hex_decode 4 (take 8 nonce) = (4, host_bytes32 t')
      \<and> drop 8 nonce = hex_encode (hmac md5_digest (ts_nonce_key s) (host_bytes32 t'))
      \<and> sint (now - t') < 3600000))"
proof
  have l: "length (host_bytes32 t) = 4" by (simp add: SetLE32_def)
  show "ValidateNonce env s now (GenerateNonce env s t) \<longleftrightarrow> sint (now - t) < 3600000"
    by (simp add: ValidateNonce_def GenerateNonce_def nonce_hmac [OF mem] kNonceSize_def l
        hex_decode_encode4 TimeSince_def TimeDiff_def kNonceTimeout_def)
  obtain n p where h: "hex_decode 4 (take 8 nonce) = (n, p)" by (metis surj_pair)
  show "ValidateNonce env s now nonce \<longrightarrow> (\<exists>t'. hex_decode 4 (take 8 nonce) = (4, host_bytes32 t')
      \<and> drop 8 nonce = hex_encode (hmac md5_digest (ts_nonce_key s) (host_bytes32 t'))
      \<and> sint (now - t') < 3600000)"
  proof
    assume "ValidateNonce env s now nonce"
    with h have n: "n = 4" "drop 8 nonce = hex_encode (hmac md5_digest (ts_nonce_key s) p)"
      "sint (now - host_word32 p) < 3600000"
      by (auto simp: ValidateNonce_def nonce_hmac [OF mem] TimeSince_def TimeDiff_def kNonceTimeout_def
          split: if_splits)
    with h length_hex_decode [of 4 "take 8 nonce" 3 p] have "length p = 4" by simp
    then have "p = host_bytes32 (host_word32 p)" by (simp add: host_bytes_word)
    with n h show "\<exists>t'. hex_decode 4 (take 8 nonce) = (4, host_bytes32 t')
        \<and> drop 8 nonce = hex_encode (hmac md5_digest (ts_nonce_key s) (host_bytes32 t'))
        \<and> sint (now - t') < 3600000" by metis
  qed
qed

definition sample_env :: turn_env where
  "sample_env = \<lparr>te_auth = Some (\<lambda>user realm. (True, user @ realm)), te_mem = replicate 64 0\<rparr>"

lemma sample_env [simp]: "length (te_mem sample_env) = 64" by (simp add: sample_env_def)

theorem nonces_witness:
  "ValidateNonce sample_env (TurnServer_new [1]) 4600 (GenerateNonce sample_env (TurnServer_new [1]) 1000)
    \<and> \<not> ValidateNonce sample_env (TurnServer_new [1]) 3601000 (GenerateNonce sample_env (TurnServer_new [1]) 1000)
    \<and> ValidateNonce sample_env (TurnServer_new [1]) 2147484648
        (GenerateNonce sample_env (TurnServer_new [1]) 1000)"
  using nonces [OF sample_env, of "TurnServer_new [1]" 4600 1000]
    nonces [OF sample_env, of "TurnServer_new [1]" 3601000 1000]
    nonces [OF sample_env, of "TurnServer_new [1]" 2147484648 1000]
  by simp

section \<open>Who may do what\<close>

text \<open>A request the server has to obey: it parses, carries an acceptable nonce, and its integrity is
  right under the key the hook leaves for its user.\<close>

definition authorised :: "turn_env \<Rightarrow> turn_server \<Rightarrow> nat \<Rightarrow> bytes \<Rightarrow> stun_message \<Rightarrow> bytes \<Rightarrow> bool" where
  "authorised env s now data m user \<longleftrightarrow>
     (\<exists>b. StunMessage_Read (StunMessage_new TurnMessage) (bb_of_bytes data) = Some (m, b) \<and> bb_length b = 0)
     \<and> IsStunRequestType (uint (sm_type m))
     \<and> (\<exists>u. GetAttribute m STUN_ATTR_USERNAME = Some u \<and> attr_string u = user)
     \<and> (\<exists>n. GetAttribute m STUN_ATTR_NONCE = Some n \<and> ValidateNonce env s (of_nat now) (attr_string n))
     \<and> (\<exists>hook. te_auth env = Some hook \<and> snd (hook user (ts_realm s)) \<noteq> []
         \<and> ValidateMessageIntegrity (te_mem env) data (snd (hook user (ts_realm s))) = Some True)"

text \<open>In the history the server saw such a request with property \<open>P\<close> from the client of a connection.\<close>

definition requested ::
    "turn_env \<Rightarrow> turn_server \<Rightarrow> (turn_input \<times> turn_event) list \<Rightarrow> turn_connection \<Rightarrow> bytes
      \<Rightarrow> (stun_message \<Rightarrow> bool) \<Rightarrow> bool" where
  "requested env s es conn user P \<longleftrightarrow> (\<exists>inp data addr local m.
     (inp, Client_packet data addr) \<in> set es \<and> ts_socket s = Some local
     \<and> cn_same conn \<lparr>cn_src = addr, cn_dst = local, cn_proto = TURNPROTO_UDP\<rparr>
     \<and> authorised env s (ti_now inp) data m user \<and> P m)"

definition names_peer :: "stun_message \<Rightarrow> socket_address \<Rightarrow> bool" where
  "names_peer m peer \<longleftrightarrow>
     (\<exists>a. GetAddress m STUN_ATTR_XOR_PEER_ADDRESS = Some a \<and> attr_address (at_body a) = peer)"

definition names_channel :: "stun_message \<Rightarrow> int \<Rightarrow> bool" where
  "names_channel m n \<longleftrightarrow>
     (\<exists>a. GetAttribute m STUN_ATTR_CHANNEL_NUMBER = Some a \<and> uint (drop_bit 16 (attr_value a)) = n)"

definition permits :: "ip_address \<Rightarrow> stun_message \<Rightarrow> bool" where
  "permits ip m \<longleftrightarrow> (sm_type m = TURN_CREATE_PERMISSION_REQUEST \<or> sm_type m = TURN_CHANNEL_BIND_REQUEST)
     \<and> (\<exists>peer. names_peer m peer \<and> sa_ip peer = ip)"

definition binds :: "int \<Rightarrow> socket_address \<Rightarrow> stun_message \<Rightarrow> bool" where
  "binds n peer m \<longleftrightarrow> sm_type m = TURN_CHANNEL_BIND_REQUEST \<and> names_channel m n \<and> names_peer m peer"

text \<open>The invariant, over the requests \<open>R conn user P\<close> that were seen.\<close>

type_synonym requests = "turn_connection \<Rightarrow> bytes \<Rightarrow> (stun_message \<Rightarrow> bool) \<Rightarrow> bool"

definition channels_ok :: "turn_channel list \<Rightarrow> bool" where
  "channels_ok cs \<longleftrightarrow>
     (\<forall>c \<in> set cs. kMinChannelNumber \<le> ch_number c \<and> ch_number c \<le> kMaxChannelNumber)
     \<and> sorted_wrt (\<lambda>c c'. ch_number c \<noteq> ch_number c' \<and> \<not> sa_eq (ch_peer c) (ch_peer c')) cs"

definition allocation_ok :: "turn_env \<Rightarrow> bytes \<Rightarrow> requests \<Rightarrow> turn_allocation \<Rightarrow> bool" where
  "allocation_ok env realm R a \<longleftrightarrow>
     (\<exists>hook. te_auth env = Some hook \<and> al_key a = snd (hook (al_username a) realm))
     \<and> R (al_conn a) (al_username a) (\<lambda>m. sm_type m = STUN_ALLOCATE_REQUEST)
     \<and> (\<forall>p \<in> set (al_perms a). R (al_conn a) (al_username a) (permits (pm_peer p)))
     \<and> (\<forall>c \<in> set (al_channels a). R (al_conn a) (al_username a) (binds (ch_number c) (ch_peer c)))
     \<and> channels_ok (al_channels a)"

definition relay_ok :: "requests \<Rightarrow> turn_connection \<Rightarrow> socket_address \<Rightarrow> bool" where
  "relay_ok R conn peer \<longleftrightarrow> (\<exists>user ip. ip_eq ip (sa_ip peer) \<and> R conn user (permits ip))"

fun output_ok :: "requests \<Rightarrow> turn_output \<Rightarrow> bool" where
  "output_ok R (To_peer conn data peer) = relay_ok R conn peer"
| "output_ok R (To_client data addr) = True"

definition same_config :: "turn_server \<Rightarrow> turn_server \<Rightarrow> bool" where
  "same_config s0 s \<longleftrightarrow> ts_nonce_key s = ts_nonce_key s0 \<and> ts_realm s = ts_realm s0
     \<and> ts_software s = ts_software s0 \<and> ts_socket s = ts_socket s0"

definition turn_inv :: "turn_env \<Rightarrow> turn_server \<Rightarrow> requests \<Rightarrow> turn_server \<Rightarrow> bool" where
  "turn_inv env s0 R s \<longleftrightarrow> same_config s0 s
     \<and> (\<forall>a \<in> set (ts_allocations s). allocation_ok env (ts_realm s0) R a)
     \<and> (\<forall>out \<in> set (ts_out s). output_ok R out)"

section \<open>Every step keeps it\<close>

lemma turn_inv_effects [simp]:
  "turn_inv env s0 R (ts_Send conn buf s) = turn_inv env s0 R s"
  "turn_inv env s0 R (ts_SendStun conn m s) = turn_inv env s0 R s"
  "turn_inv env s0 R (ts_SendErrorResponse conn m code reason s) = turn_inv env s0 R s"
  "turn_inv env s0 R (ts_SendErrorResponseWithRealmAndNonce env' inp conn m code reason s) = turn_inv env s0 R s"
  "turn_inv env s0 R (al_SendResponse env' a m s) = turn_inv env s0 R s"
  "turn_inv env s0 R (al_SendBadRequestResponse a m s) = turn_inv env s0 R s"
  "turn_inv env s0 R (ts_Clear obj s) = turn_inv env s0 R s"
  "turn_inv env s0 R (ts_PostDelayed now delay obj s) = turn_inv env s0 R s"
  "turn_inv env s0 R (ts_Refresh now delay obj s) = turn_inv env s0 R s"
  "turn_inv env s0 R (s\<lparr>ts_messages := ms\<rparr>) = turn_inv env s0 R s"
  "turn_inv env s0 R (s\<lparr>ts_next := n\<rparr>) = turn_inv env s0 R s"
  by (simp_all add: turn_inv_def same_config_def ts_Send_def ts_SendStun_def ts_SendErrorResponse_def
      ts_SendErrorResponseWithRealmAndNonce_def al_SendResponse_def al_SendBadRequestResponse_def
      ts_Clear_def ts_PostDelayed_def ts_Refresh_def Let_def)

lemma turn_inv_update:
  "turn_inv env s0 R s \<Longrightarrow> allocation_ok env (ts_realm s0) R a \<Longrightarrow> turn_inv env s0 R (ts_update a s)"
  by (auto simp: turn_inv_def same_config_def ts_update_def)

lemma turn_inv_relay:
  "turn_inv env s0 R s \<Longrightarrow> relay_ok R (al_conn a) peer \<Longrightarrow> turn_inv env s0 R (SendExternal a data peer s)"
  by (auto simp: turn_inv_def same_config_def SendExternal_def)

lemma FindPermission_Some: "FindPermission ps addr = Some (Some p) \<Longrightarrow> p \<in> set ps \<and> ip_eq (pm_peer p) addr"
  by (induction ps) (auto split: if_splits)

lemma HasPermission_ok:
  assumes "HasPermission a (sa_ip peer) = Some True" and "allocation_ok env realm R a"
  shows "relay_ok R (al_conn a) peer"
proof -
  from assms(1) obtain p where "FindPermission (al_perms a) (sa_ip peer) = Some (Some p)"
    by (auto simp: HasPermission_def)
  with assms(2) show ?thesis
    by (auto simp: relay_ok_def allocation_ok_def dest!: FindPermission_Some)
qed

lemma AddPermission_ok:
  assumes "AddPermission now addr a s = Some (a', s')" and "allocation_ok env realm R a"
    and "R (al_conn a) (al_username a) (permits addr)"
  shows "allocation_ok env realm R a'" and "turn_inv env s0 R s' = turn_inv env s0 R s"
  using assms by (auto simp: AddPermission_def allocation_ok_def ts_new_def split: option.splits)

lemma bind_channel_ok:
  assumes b: "bind_channel now n peer (FindChannel_number a n) a s = (a', s')"
    and a: "allocation_ok env realm R a"
    and n: "kMinChannelNumber \<le> n" "n \<le> kMaxChannelNumber"
    and same: "map_option ch_id (FindChannel_number a n) = map_option ch_id (FindChannel_peer a peer)"
    and R: "R (al_conn a) (al_username a) (binds n peer)"
  shows "allocation_ok env realm R a'" and "turn_inv env s0 R s' = turn_inv env s0 R s"
    and "al_conn a' = al_conn a" "al_username a' = al_username a"
proof -
  have "channels_ok (al_channels a @ [\<lparr>ch_id = k, ch_number = n, ch_peer = peer\<rparr>])"
    if "FindChannel_number a n = None" for k
  proof -
    have "FindChannel_peer a peer = None" using that same by (cases "FindChannel_peer a peer") simp_all
    then show ?thesis using that a n
      by (auto simp: FindChannel_number_def FindChannel_peer_def find_None_iff allocation_ok_def
          channels_ok_def sorted_wrt_append)
  qed
  then show "allocation_ok env realm R a'" "turn_inv env s0 R s' = turn_inv env s0 R s"
    "al_conn a' = al_conn a" "al_username a' = al_username a"
    using b a R by (auto simp: bind_channel_def allocation_ok_def ts_new_def split: option.splits)
qed

lemma HandleCreatePermission_inv:
  assumes "al_HandleCreatePermissionRequest env inp a msg s = Some s'"
    and "turn_inv env s0 R s" and "allocation_ok env (ts_realm s0) R a"
    and "\<And>P. P msg \<Longrightarrow> R (al_conn a) (al_username a) P" and "sm_type msg = TURN_CREATE_PERMISSION_REQUEST"
  shows "turn_inv env s0 R s'"
proof (cases "GetAddress msg STUN_ATTR_XOR_PEER_ADDRESS")
  case None
  then show ?thesis using assms by (auto simp: al_HandleCreatePermissionRequest_def)
next
  case (Some peer)
  have "permits (sa_ip (attr_address (at_body peer))) msg"
    using Some assms(5) by (auto simp: permits_def names_peer_def)
  note R = assms(4) [of "permits (sa_ip (attr_address (at_body peer)))", OF this]
  from Some assms(1) obtain a1 s1 where
    add: "AddPermission (ti_now inp) (sa_ip (attr_address (at_body peer))) a s = Some (a1, s1)"
    and s': "s' = al_SendResponse env a1 (success_response msg []) (ts_update a1 s1)"
    by (auto simp: al_HandleCreatePermissionRequest_def split: option.splits)
  show ?thesis using AddPermission_ok [OF add assms(3) R] assms(2) by (simp add: s' turn_inv_update)
qed

lemma HandleChannelBind_inv:
  assumes "al_HandleChannelBindRequest env inp a msg s = Some s'"
    and "turn_inv env s0 R s" and "allocation_ok env (ts_realm s0) R a"
    and "\<And>P. P msg \<Longrightarrow> R (al_conn a) (al_username a) P" and "sm_type msg = TURN_CHANNEL_BIND_REQUEST"
  shows "turn_inv env s0 R s'"
proof (cases "s' = al_SendBadRequestResponse a msg s")
  case True
  then show ?thesis using assms(2) by simp
next
  case False
  with assms(1) obtain ca pa a1 s1 a2 s2 where
    attrs: "GetAttribute msg STUN_ATTR_CHANNEL_NUMBER = Some ca"
      "GetAddress msg STUN_ATTR_XOR_PEER_ADDRESS = Some pa"
    and range: "kMinChannelNumber \<le> uint (drop_bit 16 (attr_value ca))"
      "uint (drop_bit 16 (attr_value ca)) \<le> kMaxChannelNumber"
    and same: "map_option ch_id (FindChannel_number a (uint (drop_bit 16 (attr_value ca))))
      = map_option ch_id (FindChannel_peer a (attr_address (at_body pa)))"
    and bind: "bind_channel (ti_now inp) (uint (drop_bit 16 (attr_value ca))) (attr_address (at_body pa))
      (FindChannel_number a (uint (drop_bit 16 (attr_value ca)))) a s = (a1, s1)"
    and add: "AddPermission (ti_now inp) (sa_ip (attr_address (at_body pa))) a1 s1 = Some (a2, s2)"
    and s': "s' = al_SendResponse env a2 (success_response msg []) (ts_update a2 s2)"
    by (auto simp: al_HandleChannelBindRequest_def Let_def split: option.splits if_splits prod.splits)
  have "binds (uint (drop_bit 16 (attr_value ca))) (attr_address (at_body pa)) msg"
    using attrs assms(5) by (simp add: binds_def names_channel_def names_peer_def)
  note b = bind_channel_ok [OF bind assms(3) range same
      assms(4) [of "binds (uint (drop_bit 16 (attr_value ca))) (attr_address (at_body pa))", OF this]]
  have "permits (sa_ip (attr_address (at_body pa))) msg"
    using attrs(2) assms(5) by (auto simp: permits_def names_peer_def)
  from assms(4) [of "permits (sa_ip (attr_address (at_body pa)))", OF this]
  have "R (al_conn a1) (al_username a1) (permits (sa_ip (attr_address (at_body pa))))"
    by (simp add: b(3,4))
  from AddPermission_ok [OF add b(1) this] b(2) assms(2) show ?thesis by (simp add: s' turn_inv_update)
qed

lemma HandleAllocate_inv:
  assumes "al_HandleAllocateRequest env inp a msg s = Some s'"
    and "GetAttribute msg STUN_ATTR_USERNAME = Some u"
    and "turn_inv env s0 R (ts_update (a\<lparr>al_transaction_id := sm_tid msg, al_username := attr_string u\<rparr>) s)"
  shows "turn_inv env s0 R s'"
  using assms by (auto simp: al_HandleAllocateRequest_def Let_def)

lemma HandleSendIndication_inv:
  assumes "al_HandleSendIndication a msg s = Some s'"
    and "turn_inv env s0 R s" and "allocation_ok env (ts_realm s0) R a"
  shows "turn_inv env s0 R s'"
  using assms
  by (auto simp: al_HandleSendIndication_def Let_def intro!: turn_inv_relay HasPermission_ok
      split: option.splits bool.splits)

lemma request_types [simp]:
  "IsStunRequestType (uint STUN_ALLOCATE_REQUEST)" "IsStunRequestType (uint TURN_REFRESH_REQUEST)"
  "IsStunRequestType (uint TURN_CREATE_PERMISSION_REQUEST)" "IsStunRequestType (uint TURN_CHANNEL_BIND_REQUEST)"
  by (simp_all add: IsStunRequestType_def kStunTypeMask_def STUN_ALLOCATE_REQUEST_def TURN_REFRESH_REQUEST_def
      TURN_CREATE_PERMISSION_REQUEST_def TURN_CHANNEL_BIND_REQUEST_def)

lemma turn_types [simp]:
  "TURN_REFRESH_REQUEST \<noteq> STUN_ALLOCATE_REQUEST" "TURN_SEND_INDICATION \<noteq> STUN_ALLOCATE_REQUEST"
  "TURN_SEND_INDICATION \<noteq> TURN_REFRESH_REQUEST" "TURN_CREATE_PERMISSION_REQUEST \<noteq> STUN_ALLOCATE_REQUEST"
  "TURN_CREATE_PERMISSION_REQUEST \<noteq> TURN_REFRESH_REQUEST" "TURN_CREATE_PERMISSION_REQUEST \<noteq> TURN_SEND_INDICATION"
  "TURN_CHANNEL_BIND_REQUEST \<noteq> STUN_ALLOCATE_REQUEST" "TURN_CHANNEL_BIND_REQUEST \<noteq> TURN_REFRESH_REQUEST"
  "TURN_CHANNEL_BIND_REQUEST \<noteq> TURN_SEND_INDICATION"
  "TURN_CHANNEL_BIND_REQUEST \<noteq> TURN_CREATE_PERMISSION_REQUEST"
  by (simp_all add: STUN_ALLOCATE_REQUEST_def TURN_REFRESH_REQUEST_def TURN_SEND_INDICATION_def
      TURN_CREATE_PERMISSION_REQUEST_def TURN_CHANNEL_BIND_REQUEST_def)

lemma HandleTurnMessage_inv:
  assumes h: "al_HandleTurnMessage env inp a msg s = Some s'"
    and "turn_inv env s0 R s" and a: "allocation_ok env (ts_realm s0) R a"
    and R: "\<And>P. IsStunRequestType (uint (sm_type msg)) \<Longrightarrow> P msg \<Longrightarrow> R (al_conn a) (al_username a) P"
    and user: "IsStunRequestType (uint (sm_type msg)) \<Longrightarrow>
      \<exists>u. GetAttribute msg STUN_ATTR_USERNAME = Some u \<and> attr_string u = al_username a"
  shows "turn_inv env s0 R s'"
proof -
  consider "sm_type msg = STUN_ALLOCATE_REQUEST" | "sm_type msg = TURN_REFRESH_REQUEST"
    | "sm_type msg = TURN_SEND_INDICATION" | "sm_type msg = TURN_CREATE_PERMISSION_REQUEST"
    | "sm_type msg = TURN_CHANNEL_BIND_REQUEST"
    | "s' = s" using h by (auto simp: al_HandleTurnMessage_def split: if_splits)
  then show ?thesis
  proof cases
    case 1
    then obtain u where u: "GetAttribute msg STUN_ATTR_USERNAME = Some u" "attr_string u = al_username a"
      using user by auto
    have "allocation_ok env (ts_realm s0) R (a\<lparr>al_transaction_id := sm_tid msg, al_username := attr_string u\<rparr>)"
      using a by (simp add: u(2) allocation_ok_def)
    from turn_inv_update [OF assms(2) this] HandleAllocate_inv [OF _ u(1)] h 1 show ?thesis
      by (simp add: al_HandleTurnMessage_def)
  next
    case 2
    then show ?thesis using h assms(2)
      by (auto simp: al_HandleTurnMessage_def al_HandleRefreshRequest_def Let_def)
  next
    case 3
    then have "al_HandleSendIndication a msg s = Some s'"
      using h by (simp add: al_HandleTurnMessage_def)
    then show ?thesis by (rule HandleSendIndication_inv [OF _ assms(2) a])
  next
    case 4
    then have "al_HandleCreatePermissionRequest env inp a msg s = Some s'"
      using h by (simp add: al_HandleTurnMessage_def)
    then show ?thesis using HandleCreatePermission_inv [OF _ assms(2) a R 4] 4 by simp
  next
    case 5
    then have "al_HandleChannelBindRequest env inp a msg s = Some s'"
      using h by (simp add: al_HandleTurnMessage_def)
    then show ?thesis using HandleChannelBind_inv [OF _ assms(2) a R 5] 5 by simp
  qed (use assms(2) in simp)
qed

text \<open>What a message that is let through proves about its sender.\<close>

lemma CheckAuthorization_result:
  assumes "CheckAuthorization env inp conn msg data key s = Some (ok, s1)"
  shows "turn_inv env s0 R s1 = turn_inv env s0 R s"
    and "ok \<Longrightarrow> s1 = s \<and> key \<noteq> [] \<and> ValidateMessageIntegrity (te_mem env) data key = Some True
      \<and> (\<exists>u. GetAttribute msg STUN_ATTR_USERNAME = Some u)
      \<and> (\<exists>n. GetAttribute msg STUN_ATTR_NONCE = Some n \<and> ValidateNonce env s (of_nat (ti_now inp)) (attr_string n))"
  using assms by (auto simp: CheckAuthorization_def split: option.splits bool.splits if_splits)

definition sent_by :: "turn_env \<Rightarrow> turn_server \<Rightarrow> requests \<Rightarrow> turn_input \<Rightarrow> turn_connection \<Rightarrow> bytes \<Rightarrow> bool" where
  "sent_by env s0 R inp conn data \<longleftrightarrow>
     (\<forall>c user m P. authorised env s0 (ti_now inp) data m user \<longrightarrow> cn_same c conn \<longrightarrow> P m \<longrightarrow> R c user P)"

lemma ValidateNonce_config: "same_config s0 s \<Longrightarrow> ValidateNonce env s = ValidateNonce env s0"
  by (simp add: fun_eq_iff same_config_def ValidateNonce_def)

lemma authorised_intro:
  assumes "StunMessage_Read (StunMessage_new TurnMessage) (bb_of_bytes data) = Some (msg, b)" "bb_length b = 0"
    and "IsStunRequestType (uint (sm_type msg))" and "same_config s0 s"
    and "CheckAuthorization env inp conn msg data key s = Some (True, s1)"
    and "GetAttribute msg STUN_ATTR_USERNAME = Some u"
    and "te_auth env = Some hook" and "key = snd (hook (attr_string u) (ts_realm s0))"
  shows "authorised env s0 (ti_now inp) data msg (attr_string u)"
  using assms CheckAuthorization_result(2) [OF assms(5)]
  by (auto simp: authorised_def ValidateNonce_config [OF assms(4)])

lemma FindAllocation_Some:
  "FindAllocation s conn = Some a \<Longrightarrow> a \<in> set (ts_allocations s) \<and> cn_same (al_conn a) conn"
  by (auto simp: FindAllocation_def find_Some_iff in_set_conv_nth)

lemma same_config_inv: "turn_inv env s0 R s \<Longrightarrow> same_config s0 s"
  and allocation_ok_inv: "turn_inv env s0 R s \<Longrightarrow> a \<in> set (ts_allocations s) \<Longrightarrow> allocation_ok env (ts_realm s0) R a"
  by (auto simp: turn_inv_def)

lemma cn_same_refl [simp]: "cn_same c c"
  by (simp add: cn_same_def cn_less_def sa_less_def string_less_irrefl)

lemma HandleAllocateRequest_inv:
  assumes h: "HandleAllocateRequest env inp conn msg key s = Some s'" and inv: "turn_inv env s0 R s"
    and t: "sm_type msg = STUN_ALLOCATE_REQUEST"
    and u: "GetAttribute msg STUN_ATTR_USERNAME = Some u"
    and key: "te_auth env = Some hook" "key = snd (hook (attr_string u) (ts_realm s0))"
    and R: "R conn (attr_string u) (\<lambda>m. sm_type m = STUN_ALLOCATE_REQUEST)"
  shows "turn_inv env s0 R s'"
proof (cases "ts_factory s \<and> ti_new_socket inp \<noteq> None
    \<and> (\<exists>ta. GetAttribute msg STUN_ATTR_REQUESTED_TRANSPORT = Some ta \<and> drop_bit 24 (attr_value ta) = IPPROTO_UDP)")
  case False
  then show ?thesis using h inv
    by (auto simp: HandleAllocateRequest_def CreateAllocation_def Let_def split: option.splits if_splits)
next
  case True
  then obtain sock where sock: "ti_new_socket inp = Some sock" by auto
  define a where "a = \<lparr>al_id = ts_next s, al_conn = conn, al_socket = sock, al_key = key,
    al_transaction_id = [], al_username = [], al_perms = [], al_channels = []\<rparr>"
  define s1 where "s1 = s\<lparr>ts_next := Suc (ts_next s), ts_allocations := ts_allocations s @ [a]\<rparr>"
  have "al_HandleTurnMessage env inp a msg s1 = Some s'"
    using True h by (auto simp: HandleAllocateRequest_def CreateAllocation_def ts_new_def sock a_def s1_def Let_def)
  then have run: "al_HandleAllocateRequest env inp a msg s1 = Some s'" by (simp add: al_HandleTurnMessage_def t)
  let ?a = "a\<lparr>al_transaction_id := sm_tid msg, al_username := attr_string u\<rparr>"
  have "allocation_ok env (ts_realm s0) R ?a"
    using key R by (simp add: a_def allocation_ok_def channels_ok_def)
  then have "turn_inv env s0 R (ts_update ?a s1)"
    using inv by (auto simp: turn_inv_def same_config_def ts_update_def s1_def)
  then show ?thesis by (rule HandleAllocate_inv [OF run u])
qed

lemma dispatch_inv:
  assumes h: "dispatch_message env inp conn msg key allocation s = Some s'" and inv: "turn_inv env s0 R s"
    and alloc: "\<And>a. allocation = Some a \<Longrightarrow> a \<in> set (ts_allocations s) \<and> cn_same (al_conn a) conn \<and> key = al_key a"
    and new: "allocation = None \<Longrightarrow> key = snd (ts_GetKey env s msg)"
    and auth: "\<And>u hook. IsStunRequestType (uint (sm_type msg)) \<Longrightarrow> GetAttribute msg STUN_ATTR_USERNAME = Some u
      \<Longrightarrow> te_auth env = Some hook \<Longrightarrow> key = snd (hook (attr_string u) (ts_realm s0))
      \<Longrightarrow> authorised env s0 (ti_now inp) data msg (attr_string u)"
    and some: "IsStunRequestType (uint (sm_type msg)) \<Longrightarrow> key \<noteq> [] \<and> (\<exists>u. GetAttribute msg STUN_ATTR_USERNAME = Some u)"
    and by_conn: "sent_by env s0 R inp conn data"
  shows "turn_inv env s0 R s'"
proof (cases allocation)
  case None
  show ?thesis
  proof (cases "sm_type msg = STUN_ALLOCATE_REQUEST")
    case True
    with some obtain u where u: "GetAttribute msg STUN_ATTR_USERNAME = Some u" "key \<noteq> []" by auto
    with new [OF None] obtain hook where hook: "te_auth env = Some hook"
      "key = snd (hook (attr_string u) (ts_realm s))"
      by (auto simp: ts_GetKey_def split: option.splits)
    then have k: "key = snd (hook (attr_string u) (ts_realm s0))"
      using same_config_inv [OF inv] by (simp add: same_config_def)
    have "authorised env s0 (ti_now inp) data msg (attr_string u)"
      by (rule auth [OF _ u(1) hook(1) k]) (simp add: True)
    then have R: "R conn (attr_string u) (\<lambda>m. sm_type m = STUN_ALLOCATE_REQUEST)"
      using by_conn True by (auto simp: sent_by_def)
    show ?thesis
      by (rule HandleAllocateRequest_inv [OF _ inv True u(1) hook(1) k R])
         (use h None True in \<open>simp add: dispatch_message_def\<close>)
  qed (use h None inv in \<open>auto simp: dispatch_message_def\<close>)
next
  case (Some a)
  note a = alloc [OF Some] and aok = allocation_ok_inv [OF inv]
  show ?thesis
  proof (cases "al_HandleTurnMessage env inp a msg s = Some s'
      \<and> (IsStunRequestType (uint (sm_type msg)) \<longrightarrow>
        (\<exists>u. GetAttribute msg STUN_ATTR_USERNAME = Some u \<and> attr_string u = al_username a))")
    case True
    have R: "R (al_conn a) (al_username a) P" if "IsStunRequestType (uint (sm_type msg))" "P msg" for P
    proof -
      from True that obtain u where u: "GetAttribute msg STUN_ATTR_USERNAME = Some u" "attr_string u = al_username a"
        by auto
      from a have "allocation_ok env (ts_realm s0) R a" by (simp add: aok)
      then obtain hook where "te_auth env = Some hook" "al_key a = snd (hook (al_username a) (ts_realm s0))"
        by (auto simp: allocation_ok_def)
      with auth [OF that(1) u(1)] u(2) a have "authorised env s0 (ti_now inp) data msg (al_username a)" by simp
      then show ?thesis using by_conn a that(2) by (auto simp: sent_by_def)
    qed
    show ?thesis
      by (rule HandleTurnMessage_inv [OF _ inv _ R]) (use True a aok in auto)
  next
    case False
    then show ?thesis using h Some inv by (auto simp: dispatch_message_def split: if_splits option.splits)
  qed
qed

lemma HandleStunMessage_inv:
  assumes h: "HandleStunMessage env inp conn data s = Some s'" and inv: "turn_inv env s0 R s"
    and by_conn: "sent_by env s0 R inp conn data"
  shows "turn_inv env s0 R s'"
proof (cases "StunMessage_Read (StunMessage_new TurnMessage) (bb_of_bytes data)")
  case None
  then show ?thesis using h inv by (simp add: HandleStunMessage_def)
next
  case (Some r)
  then obtain msg b where rd: "StunMessage_Read (StunMessage_new TurnMessage) (bb_of_bytes data) = Some (msg, b)"
    by (cases r) auto
  define al where "al = FindAllocation s conn"
  define key where "key = (case al of None \<Rightarrow> snd (ts_GetKey env s msg) | Some a \<Rightarrow> al_key a)"
  show ?thesis
  proof (cases "0 < bb_length b \<or> sm_type msg = STUN_BINDING_REQUEST")
    case True
    then show ?thesis using h inv rd by (auto simp: HandleStunMessage_def HandleBindingRequest_def split: if_splits)
  next
    case False
    note unfold = h [unfolded HandleStunMessage_def, unfolded rd, simplified False Let_def option.case prod.case,
        folded al_def, folded key_def]
    have al: "a \<in> set (ts_allocations s) \<and> cn_same (al_conn a) conn \<and> key = al_key a" if "al = Some a" for a
      using that FindAllocation_Some [of s conn a] by (simp add: al_def key_def)
    have new: "key = snd (ts_GetKey env s msg)" if "al = None" using that by (simp add: key_def)
    show ?thesis
    proof (cases "IsStunRequestType (uint (sm_type msg))")
      case req: True
      with unfold False obtain ok s1 where
        ca: "CheckAuthorization env inp conn msg data key s = Some (ok, s1)"
        and s': "if ok then dispatch_message env inp conn msg key al s1 = Some s' else s' = s1"
        by (auto split: option.splits bool.splits)
      show ?thesis
      proof (cases ok)
        case True
        have ca: "CheckAuthorization env inp conn msg data key s = Some (True, s)"
          using ca CheckAuthorization_result(2) [OF ca] True by simp
        have dispatch: "dispatch_message env inp conn msg key al s = Some s'"
          using s' CheckAuthorization_result(2) [OF ca] ca True \<open>CheckAuthorization env inp conn msg data key s = Some (ok, s1)\<close>
          by simp
        show ?thesis
        proof (rule dispatch_inv [OF dispatch inv al new _ _ by_conn])
          fix u hook assume "GetAttribute msg STUN_ATTR_USERNAME = Some u" "te_auth env = Some hook"
            "key = snd (hook (attr_string u) (ts_realm s0))"
          then show "authorised env s0 (ti_now inp) data msg (attr_string u)"
            using authorised_intro [OF rd _ req same_config_inv [OF inv] ca] False by simp
        qed (use CheckAuthorization_result(2) [OF ca] in auto)
      next
        case False
        then show ?thesis using CheckAuthorization_result(1) [OF ca] s' inv by simp
      qed
    next
      case noreq: False
      then have dispatch: "dispatch_message env inp conn msg key al s = Some s'" using unfold False by simp
      show ?thesis
        by (rule dispatch_inv [OF dispatch inv al new _ _ by_conn]) (use noreq in auto)
    qed
  qed
qed

lemma ip_eq_refl [simp]: "ip_eq ip ip"
  by (cases "ip_family ip") (simp_all add: ip_eq_def)

lemma find_in_set: "List.find P xs = Some x \<Longrightarrow> x \<in> set xs \<and> P x"
  by (auto simp: find_Some_iff)

lemma FindChannel_relay:
  assumes "FindChannel_number a n = Some c" and "allocation_ok env realm R a"
    and mono: "\<And>c u P Q. (\<And>m. P m \<Longrightarrow> Q m) \<Longrightarrow> R c u P \<Longrightarrow> R c u Q"
  shows "relay_ok R (al_conn a) (ch_peer c)"
proof -
  have "c \<in> set (al_channels a)" using find_in_set [OF assms(1) [unfolded FindChannel_number_def]] by simp
  with assms(2) have "R (al_conn a) (al_username a) (binds (ch_number c) (ch_peer c))"
    by (simp add: allocation_ok_def)
  from mono [OF _ this, of "permits (sa_ip (ch_peer c))"]
  have "R (al_conn a) (al_username a) (permits (sa_ip (ch_peer c)))" by (auto simp: binds_def permits_def)
  then show ?thesis unfolding relay_ok_def by (intro exI conjI) (rule ip_eq_refl)
qed

lemma OnInternalPacket_cases:
  assumes "OnInternalPacket env inp data addr s = Some s'" and "ts_socket s = Some local"
    and "conn = \<lparr>cn_src = addr, cn_dst = local, cn_proto = TURNPROTO_UDP\<rparr>"
  obtains (nothing) "s' = s" | (stun) "HandleStunMessage env inp conn data s = Some s'"
    | (channel) a where "FindAllocation s conn = Some a" "s' = al_HandleChannelData a data s"
proof (cases "length data < TURN_CHANNEL_HEADER_SIZE")
  case True
  then have "s' = s" using assms by (simp add: OnInternalPacket_def)
  then show ?thesis by (rule nothing)
next
  case False
  note h = assms(1) [unfolded OnInternalPacket_def assms(2) option.case Let_def, folded assms(3)]
  show ?thesis
  proof (cases "IsTurnChannelData (GetBE16 data)")
    case True
    show ?thesis
    proof (cases "FindAllocation s conn")
      case None
      then have "s' = s" using h False True by simp
      then show ?thesis by (rule nothing)
    next
      case (Some a)
      then have "s' = al_HandleChannelData a data s" using h False True by simp
      with Some show ?thesis by (rule channel)
    qed
  next
    case nochannel: False
    then have "HandleStunMessage env inp conn data s = Some s'" using h False by simp
    then show ?thesis by (rule stun)
  qed
qed

lemma OnInternalPacket_inv:
  assumes h: "OnInternalPacket env inp data addr s = Some s'" and inv: "turn_inv env s0 R s"
    and mono: "\<And>c u P Q. (\<And>m. P m \<Longrightarrow> Q m) \<Longrightarrow> R c u P \<Longrightarrow> R c u Q"
    and by_conn: "\<And>local. ts_socket s0 = Some local \<Longrightarrow>
      sent_by env s0 R inp \<lparr>cn_src = addr, cn_dst = local, cn_proto = TURNPROTO_UDP\<rparr> data"
  shows "turn_inv env s0 R s'"
proof -
  from h obtain local where l: "ts_socket s = Some local" by (auto simp: OnInternalPacket_def split: option.splits)
  then have l0: "ts_socket s0 = Some local" using same_config_inv [OF inv] by (simp add: same_config_def)
  let ?conn = "\<lparr>cn_src = addr, cn_dst = local, cn_proto = TURNPROTO_UDP\<rparr>"
  from h l refl show ?thesis
  proof (cases rule: OnInternalPacket_cases)
    case stun
    then show ?thesis by (rule HandleStunMessage_inv [OF _ inv by_conn [OF l0]])
  next
    case (channel a)
    then have "allocation_ok env (ts_realm s0) R a" using FindAllocation_Some allocation_ok_inv [OF inv] by blast
    note relay = FindChannel_relay [OF _ this mono]
    show ?thesis
    proof (cases "FindChannel_number a (uint (GetBE16 data))")
      case (Some c)
      have "relay_ok R (al_conn a) (ch_peer c)" by (rule relay [OF Some])
      then show ?thesis using channel Some inv by (simp add: al_HandleChannelData_def turn_inv_relay)
    qed (use channel inv in \<open>simp add: al_HandleChannelData_def\<close>)
  qed (use inv in simp)
qed

lemma OnExternalPacket_inv:
  "al_OnExternalPacket inp a data addr s = Some s' \<Longrightarrow> turn_inv env s0 R s \<Longrightarrow> turn_inv env s0 R s'"
  by (auto simp: al_OnExternalPacket_def Let_def split: option.splits bool.splits)

lemma clear_all_inv [simp]:
  "turn_inv env s0 R (fold (\<lambda>p. ts_Clear (f p)) ps s) = turn_inv env s0 R s"
  by (induction ps arbitrary: s) simp_all

lemma pm_deleted_ok:
  "allocation_ok env realm R a \<Longrightarrow> allocation_ok env realm R
    (a\<lparr>al_perms := map (\<lambda>x. if pm_id x = k then x\<lparr>pm_deleted := True\<rparr> else x) (al_perms a)\<rparr>)"
  by (auto simp: allocation_ok_def)

lemma OnChannelDestroyed_ok:
  "allocation_ok env realm R a \<Longrightarrow> allocation_ok env realm R (OnChannelDestroyed c a)"
  by (auto simp: allocation_ok_def OnChannelDestroyed_def channels_ok_def intro!: sorted_wrt_filter)

fun object_allocation :: "turn_object \<Rightarrow> turn_allocation" where
  "object_allocation (Allocation_object a) = a"
| "object_allocation (Permission_object a p) = a"
| "object_allocation (Channel_object a c) = a"

lemma ts_objects_allocation:
  "map_of (ts_objects s) k = Some obj \<Longrightarrow> object_allocation obj \<in> set (ts_allocations s)"
  by (auto simp: ts_objects_def allocation_objects_def dest!: map_of_SomeD)

lemma deliver_to_inv:
  assumes "deliver_to obj s = Some s'" and inv: "turn_inv env s0 R s"
    and a: "allocation_ok env (ts_realm s0) R (object_allocation obj)"
  shows "turn_inv env s0 R s'"
proof (cases obj)
  case (Allocation_object a)
  have "turn_inv env s0 R (OnAllocationDestroyed a s)"
    using inv by (auto simp: OnAllocationDestroyed_def turn_inv_def same_config_def)
  then show ?thesis using assms(1) Allocation_object
    by (auto simp: deliver_to_def al_OnMessage_def al_delete_def split: if_splits)
next
  case (Permission_object a p)
  then show ?thesis using assms
    by (auto simp: deliver_to_def pm_OnMessage_def intro!: turn_inv_update pm_deleted_ok)
next
  case (Channel_object a c)
  then show ?thesis using assms
    by (auto simp: deliver_to_def ch_OnMessage_def intro!: turn_inv_update OnChannelDestroyed_ok)
qed

lemma Deliver_inv:
  assumes "ts_Deliver inp i s = Some s'" and inv: "turn_inv env s0 R s"
  shows "turn_inv env s0 R s'"
proof (cases "s' = s")
  case False
  with assms(1) obtain obj where obj: "map_of (ts_objects s) (snd (ts_messages s ! i)) = Some obj"
    and d: "deliver_to obj (s\<lparr>ts_messages := take i (ts_messages s) @ drop (Suc i) (ts_messages s)\<rparr>) = Some s'"
    by (auto simp: ts_Deliver_def split: if_splits option.splits)
  show ?thesis
    by (rule deliver_to_inv [OF d])
       (use inv allocation_ok_inv [OF inv ts_objects_allocation [OF obj]] in simp_all)
qed (use inv in simp)

lemma turn_step_inv:
  assumes h: "turn_step env e s = Some s'" and inv: "turn_inv env s0 R s"
    and mono: "\<And>c u P Q. (\<And>m. P m \<Longrightarrow> Q m) \<Longrightarrow> R c u P \<Longrightarrow> R c u Q"
    and seen: "\<And>inp data addr local. e = (inp, Client_packet data addr) \<Longrightarrow> ts_socket s0 = Some local \<Longrightarrow>
      sent_by env s0 R inp \<lparr>cn_src = addr, cn_dst = local, cn_proto = TURNPROTO_UDP\<rparr> data"
  shows "turn_inv env s0 R s'"
proof (cases e)
  case (Pair inp ev)
  show ?thesis
  proof (cases ev)
    case (Client_packet data addr)
    then have "OnInternalPacket env inp data addr s = Some s'" using h Pair by simp
    then show ?thesis by (rule OnInternalPacket_inv [OF _ inv mono seen]) (simp_all add: Pair Client_packet)
  next
    case (Peer_packet obj data addr)
    then show ?thesis using h Pair inv by (auto split: option.splits intro: OnExternalPacket_inv)
  next
    case (Timer i)
    then show ?thesis using h Pair inv by (auto intro: Deliver_inv)
  qed
qed

lemma turn_inv_mono:
  assumes "turn_inv env s0 R s" and "\<And>c u P. R c u P \<Longrightarrow> R' c u P"
  shows "turn_inv env s0 R' s"
proof -
  have "output_ok R' out" if "output_ok R out" for out
    using that assms(2) by (cases out) (force simp: relay_ok_def)+
  then show ?thesis using assms by (auto simp: turn_inv_def allocation_ok_def)
qed

lemma requested_mono: "requested env s es c u P \<Longrightarrow> set es \<subseteq> set es' \<Longrightarrow> requested env s es' c u P"
  unfolding requested_def by blast

lemma requested_weaken: "(\<And>m. P m \<Longrightarrow> Q m) \<Longrightarrow> requested env s es c u P \<Longrightarrow> requested env s es c u Q"
  unfolding requested_def by blast

lemma turn_run_inv:
  assumes "turn_run env es s = Some s'" and "turn_inv env s0 (requested env s0 seen) s"
  shows "turn_inv env s0 (requested env s0 (seen @ es)) s'"
  using assms
proof (induction es arbitrary: s seen)
  case (Cons e es)
  then obtain s1 where step: "turn_step env e s = Some s1" and run: "turn_run env es s1 = Some s'"
    by (auto split: option.splits)
  let ?R = "requested env s0 (seen @ [e])"
  have "turn_inv env s0 ?R s"
    by (rule turn_inv_mono [OF Cons.prems(2)]) (erule requested_mono, auto)
  then have "turn_inv env s0 ?R s1"
  proof (rule turn_step_inv [OF step])
    show "requested env s0 (seen @ [e]) c u Q"
      if "\<And>m. P m \<Longrightarrow> Q m" "requested env s0 (seen @ [e]) c u P" for c u P Q
      using that by (rule requested_weaken)
    show "sent_by env s0 ?R inp \<lparr>cn_src = addr, cn_dst = local, cn_proto = TURNPROTO_UDP\<rparr> data"
      if "e = (inp, Client_packet data addr)" "ts_socket s0 = Some local" for inp data addr local
      using that by (auto simp: sent_by_def requested_def)
  qed
  from Cons.IH [OF run this] show ?case by simp
qed simp

text \<open>A server that has been configured and has not handled anything yet.\<close>

definition turn_start :: "turn_server \<Rightarrow> bool" where
  "turn_start s \<longleftrightarrow> ts_allocations s = [] \<and> ts_messages s = [] \<and> ts_out s = []"

lemma turn_reachable_inv:
  assumes "turn_run env es s0 = Some s" and "turn_start s0"
  shows "turn_inv env s0 (requested env s0 es) s"
  using turn_run_inv [OF assms(1), of s0 "[]"] assms(2)
  by (simp add: turn_inv_def turn_start_def same_config_def)

text \<open>
  C11.  In every history of packets and timers, whatever the clients and the peers send: data only leaves
  for a peer if earlier the client of that allocation sent a CreatePermission or ChannelBind request
  that names the IP of the peer, with a fresh nonce and the right integrity under the key of a user.
\<close>

theorem turn_relays_authorised:
  assumes "turn_run env es s0 = Some s" and "turn_start s0"
    and "To_peer conn data peer \<in> set (ts_out s)"
  shows "\<exists>user ip. ip_eq ip (sa_ip peer) \<and> requested env s0 es conn user (permits ip)"
  using turn_reachable_inv [OF assms(1,2)] assms(3) by (force simp: turn_inv_def relay_ok_def)

text \<open>
  C12.  In every history each allocation was asked for by an authorised Allocate request from its
  client, each permission and channel in it by an authorised request of the same user, and no two channels of
  it share their number or their peer; the numbers lie in \<open>0x4000\<close> to \<open>0x7FFF\<close>.
\<close>

theorem turn_allocations_authorised:
  assumes "turn_run env es s0 = Some s" and "turn_start s0" and "a \<in> set (ts_allocations s)"
  shows "requested env s0 es (al_conn a) (al_username a) (\<lambda>m. sm_type m = STUN_ALLOCATE_REQUEST)
    \<and> (\<forall>p \<in> set (al_perms a). requested env s0 es (al_conn a) (al_username a) (permits (pm_peer p)))
    \<and> (\<forall>c \<in> set (al_channels a).
        requested env s0 es (al_conn a) (al_username a) (binds (ch_number c) (ch_peer c)))
    \<and> channels_ok (al_channels a)"
  using allocation_ok_inv [OF turn_reachable_inv [OF assms(1,2)] assms(3)] by (simp add: allocation_ok_def)

end
