(* ===== verification/TurnSession.thy ===== *)
theory TurnSession
  imports TurnProperties StunBuild
begin

text \<open>
  A client that follows the rules: its signed requests pass, the answers it gets carry its transaction
  id and the right integrity, and after an Allocate and a CreatePermission request its data reaches the peer.
\<close>

section \<open>Responses\<close>

lemma turn_value_types [simp]:
  "TurnMessage_value_type STUN_ATTR_USERNAME = STUN_VALUE_BYTE_STRING"
  "TurnMessage_value_type STUN_ATTR_REALM = STUN_VALUE_BYTE_STRING"
  "TurnMessage_value_type STUN_ATTR_NONCE = STUN_VALUE_BYTE_STRING"
  "TurnMessage_value_type STUN_ATTR_SOFTWARE = STUN_VALUE_BYTE_STRING"
  "TurnMessage_value_type STUN_ATTR_DATA = STUN_VALUE_BYTE_STRING"
  "TurnMessage_value_type STUN_ATTR_LIFETIME = STUN_VALUE_UINT32"
  "TurnMessage_value_type STUN_ATTR_REQUESTED_TRANSPORT = STUN_VALUE_UINT32"
  "TurnMessage_value_type STUN_ATTR_XOR_MAPPED_ADDRESS = STUN_VALUE_XOR_ADDRESS"
  "TurnMessage_value_type STUN_ATTR_XOR_RELAYED_ADDRESS = STUN_VALUE_XOR_ADDRESS"
  "TurnMessage_value_type STUN_ATTR_XOR_PEER_ADDRESS = STUN_VALUE_XOR_ADDRESS"
  by code_simp+

text \<open>The success response to a request that a conforming client could have sent.\<close>

lemma word_of_int_or: "(word_of_int (uint t OR c) :: uint16) = t OR word_of_int c"
  by (rule bit_word_eqI) (simp add: bit_or_iff bit_word_of_int_iff bit_uint_iff)

lemma request_masks:
  assumes "IsStunRequestType (uint (t :: uint16))" and "t AND 0x8000 = 0"
  shows "(word_of_int (uint t OR 0x100) :: uint16) = t OR 0x100" "(t OR 0x100) AND 0x8000 = 0"
proof -
  show "(word_of_int (uint t OR 0x100) :: uint16) = t OR 0x100" by (simp add: word_of_int_or)
  show "(t OR 0x100) AND 0x8000 = 0"
    using assms(2) by (simp add: and.commute [of _ "0x8000"] bit.conj_disj_distrib)
qed

lemma InitResponse_request:
  assumes "wf_message req" and "IsStunRequestType (uint (sm_type req))"
  shows "wf_message (snd (InitResponse req (StunMessage_new TurnMessage)))"
    and "snd (InitResponse req (StunMessage_new TurnMessage))
      = \<lparr>sm_kind = TurnMessage, sm_type = sm_type req OR 0x100, sm_length = 0, sm_tid = sm_tid req, sm_attrs = []\<rparr>"
proof -
  have wf: "sm_type req AND 0x8000 = 0" "IsValidTransactionId (sm_tid req)"
    "length (sm_tid req) = 16 \<longrightarrow> take 4 (sm_tid req) \<noteq> SetBE32 kStunMagicCookie"
    using assms(1) by (auto simp: wf_message_def IsLegacy_def kStunLegacyTransactionIdLength_def)
  have nonneg: "uint (sm_type req) OR 0x100 \<noteq> - 1"
  proof -
    have "0 \<le> uint (sm_type req) OR 0x100" by (simp add: or_nonnegative_int_iff)
    then show ?thesis by linarith
  qed
  show r: "snd (InitResponse req (StunMessage_new TurnMessage))
      = \<lparr>sm_kind = TurnMessage, sm_type = sm_type req OR 0x100, sm_length = 0, sm_tid = sm_tid req, sm_attrs = []\<rparr>"
    using assms(2) wf(2) nonneg request_masks [OF assms(2) wf(1)]
    by (simp add: InitResponse_def GetStunSuccessResponseType_def SetTransactionID_def SetType_def
        StunMessage_new_def Let_def)
  show "wf_message (snd (InitResponse req (StunMessage_new TurnMessage)))"
    using wf request_masks(2) [OF assms(2) wf(1)]
    by (simp add: r wf_message_def IsLegacy_def kStunLegacyTransactionIdLength_def)
qed

lemma success_response:
  assumes "wf_message req" and "IsStunRequestType (uint (sm_type req))"
    and "\<forall>a \<in> set as. wf_attr TurnMessage (sm_tid req) a" and "sum_list (map attr_size as) < 65536"
  shows "wf_message (success_response req as)" "sm_attrs (success_response req as) = as"
    "unat (sm_length (success_response req as)) = sum_list (map attr_size as)"
    "sm_type (success_response req as) = sm_type req OR 0x100" "sm_tid (success_response req as) = sm_tid req"
    "sm_kind (success_response req as) = TurnMessage"
  using add_attributes [OF InitResponse_request(1) [OF assms(1,2)], of as] assms(3,4)
  by (simp_all add: success_response_def InitResponse_request(2) [OF assms(1,2)])

definition reply :: "turn_env \<Rightarrow> bytes \<Rightarrow> stun_message \<Rightarrow> stun_attr list \<Rightarrow> bytes \<Rightarrow> bool" where
  "reply env key req as data \<longleftrightarrow> (\<exists>m rest. data = message_bytes m \<and> wf_message m
     \<and> sm_type m = sm_type req OR 0x100 \<and> sm_tid m = sm_tid req \<and> sm_attrs m = as @ rest
     \<and> ValidateMessageIntegrity (te_mem env) data key = Some True)"

text \<open>Every success response is signed with the key of the allocation, with the SOFTWARE attribute behind.\<close>

lemma SendResponse_signed:
  assumes mem: "length (te_mem env) = 64" and sw: "length (ts_software s) < 60000"
    and wf: "wf_message req" and req: "IsStunRequestType (uint (sm_type req))"
    and as: "\<forall>a \<in> set as. wf_attr TurnMessage (sm_tid req) a \<and> at_type a \<noteq> STUN_ATTR_MESSAGE_INTEGRITY"
    and small: "sum_list (map attr_size as) < 1000"
  shows "\<exists>data. al_SendResponse env a (success_response req as) s
      = s\<lparr>ts_out := ts_out s @ [To_client data (cn_src (al_conn a))]\<rparr> \<and> reply env (al_key a) req as data"
proof -
  have as': "\<forall>a \<in> set as. wf_attr TurnMessage (sm_tid req) a" "sum_list (map attr_size as) < 65536"
    using as small by auto
  note r = success_response [OF wf req as']
  have noMI: "\<forall>a \<in> set (sm_attrs (success_response req as)). at_type a \<noteq> STUN_ATTR_MESSAGE_INTEGRITY"
    using as by (simp add: r(2))
  have room: "unat (sm_length (success_response req as)) + 24 < 65536" using small by (simp add: r(3))
  from AddMessageIntegrity_signs [OF r(1) mem room noMI, of "al_key a"] obtain m1 h where
    m1: "AddMessageIntegrity (te_mem env) (al_key a) (success_response req as) = (True, m1)" "wf_message m1"
      "sm_attrs m1 = as @ [integrity_attr h]" "sm_type m1 = sm_type req OR 0x100" "sm_tid m1 = sm_tid req"
      "sm_kind m1 = TurnMessage" "unat (sm_length m1) = sum_list (map attr_size as) + 24"
    and valid: "ValidateMessageIntegrity (te_mem env) (message_bytes m1) (al_key a) = Some True"
      "\<And>after n. wf_message (m1\<lparr>sm_length := n, sm_attrs := sm_attrs m1 @ after\<rparr>) \<Longrightarrow>
        ValidateMessageIntegrity (te_mem env)
          (message_bytes (m1\<lparr>sm_length := n, sm_attrs := sm_attrs m1 @ after\<rparr>)) (al_key a) = Some True"
    by (auto simp: r)
  let ?m = "with_software s m1"
  have m: "wf_message ?m \<and> sm_type ?m = sm_type m1 \<and> sm_tid ?m = sm_tid m1
    \<and> (\<exists>rest. sm_attrs ?m = as @ rest) \<and> ValidateMessageIntegrity (te_mem env) (message_bytes ?m) (al_key a) = Some True"
  proof (cases "ts_software s = []")
    case True
    then show ?thesis using m1 valid by (simp add: with_software_def)
  next
    case False
    let ?sw = "attr_ByteString STUN_ATTR_SOFTWARE (ts_software s)"
    have sw': "length (ts_software s) < 65536" using sw by simp
    note sws = wf_string [OF sw', of TurnMessage STUN_ATTR_SOFTWARE, simplified]
    have "padded_length (length (ts_software s)) \<le> length (ts_software s) + 3"
      unfolding padded_length_def by (split if_split) linarith
    then have "unat (sm_length m1) + attr_size ?sw < 65536" using sw small m1(7) sws(2) by simp
    from wf_AddAttribute [OF m1(2) _ this] sws(1) m1(6) obtain m2 where
      m2: "AddAttribute ?sw m1 = (True, m2)" "wf_message m2" "sm_attrs m2 = sm_attrs m1 @ [?sw]"
        "sm_type m2 = sm_type m1" "sm_tid m2 = sm_tid m1" "sm_kind m2 = sm_kind m1" by auto
    have "m1\<lparr>sm_length := sm_length m2, sm_attrs := sm_attrs m1 @ [?sw]\<rparr> = m2"
      using m2(3-6) by (cases m1; cases m2) simp
    from valid(2) [of "[?sw]" "sm_length m2", unfolded this] m2 m1(3) False show ?thesis
      by (simp add: with_software_def)
  qed
  have "al_SendResponse env a (success_response req as) s
      = s\<lparr>ts_out := ts_out s @ [To_client (message_bytes ?m) (cn_src (al_conn a))]\<rparr>"
    using m by (simp add: al_SendResponse_def m1(1) ts_SendStun_def ts_Send_def written_message_bytes)
  moreover have "reply env (al_key a) req as (message_bytes ?m)"
    unfolding reply_def using m m1(4,5) by metis
  ultimately show ?thesis by blast
qed

section \<open>Requests that pass\<close>

text \<open>A request as a client builds it before it signs it.\<close>

definition client_request :: "turn_env \<Rightarrow> turn_server \<Rightarrow> nat \<Rightarrow> stun_message \<Rightarrow> bytes \<Rightarrow> bool" where
  "client_request env s now m user \<longleftrightarrow> wf_message m \<and> sm_kind m = TurnMessage
     \<and> IsStunRequestType (uint (sm_type m)) \<and> sm_type m \<noteq> STUN_BINDING_REQUEST
     \<and> sm_type m AND 0xC000 = 0 \<and> unat (sm_length m) + 24 < 65536
     \<and> (\<forall>a \<in> set (sm_attrs m). at_type a \<noteq> STUN_ATTR_MESSAGE_INTEGRITY)
     \<and> (\<exists>u. GetAttribute m STUN_ATTR_USERNAME = Some u \<and> attr_string u = user)
     \<and> GetAttribute m STUN_ATTR_REALM \<noteq> None
     \<and> (\<exists>n. GetAttribute m STUN_ATTR_NONCE = Some n \<and> ValidateNonce env s (of_nat now) (attr_string n))"

definition sign_request :: "turn_env \<Rightarrow> bytes \<Rightarrow> stun_message \<Rightarrow> stun_message" where
  "sign_request env key m = snd (AddMessageIntegrity (te_mem env) key m)"

lemma signed_request:
  assumes mem: "length (te_mem env) = 64" and m: "client_request env s now m user"
  shows "\<exists>b. StunMessage_Read (StunMessage_new TurnMessage) (bb_of_bytes (message_bytes (sign_request env key m)))
      = Some (sign_request env key m, b) \<and> bb_length b = 0"
    and "ValidateMessageIntegrity (te_mem env) (message_bytes (sign_request env key m)) key = Some True"
    and "wf_message (sign_request env key m)" "sm_type (sign_request env key m) = sm_type m"
    and "sm_tid (sign_request env key m) = sm_tid m"
    and "t \<noteq> STUN_ATTR_MESSAGE_INTEGRITY \<Longrightarrow> GetAttribute (sign_request env key m) t = GetAttribute m t"
    and "GetAttribute (sign_request env key m) STUN_ATTR_MESSAGE_INTEGRITY \<noteq> None"
proof -
  from m have wf: "wf_message m" "unat (sm_length m) + 24 < 65536"
    "\<forall>a \<in> set (sm_attrs m). at_type a \<noteq> STUN_ATTR_MESSAGE_INTEGRITY" "sm_kind m = TurnMessage"
    by (simp_all add: client_request_def)
  from AddMessageIntegrity_signs [OF wf(1) mem wf(2,3), of key] obtain h where
    s: "wf_message (sign_request env key m)" "sm_attrs (sign_request env key m) = sm_attrs m @ [integrity_attr h]"
      "sm_type (sign_request env key m) = sm_type m" "sm_tid (sign_request env key m) = sm_tid m"
      "sm_kind (sign_request env key m) = TurnMessage"
      "ValidateMessageIntegrity (te_mem env) (message_bytes (sign_request env key m)) key = Some True"
      "length h = 20"
    using wf(4) by (auto simp: sign_request_def)
  then show "ValidateMessageIntegrity (te_mem env) (message_bytes (sign_request env key m)) key = Some True"
    "wf_message (sign_request env key m)" "sm_type (sign_request env key m) = sm_type m" "sm_tid (sign_request env key m) = sm_tid m"
    by simp_all
  show "\<exists>b. StunMessage_Read (StunMessage_new TurnMessage) (bb_of_bytes (message_bytes (sign_request env key m)))
      = Some (sign_request env key m, b) \<and> bb_length b = 0"
    using read_message [OF s(1)] by (simp add: s(5))
  show "t \<noteq> STUN_ATTR_MESSAGE_INTEGRITY \<Longrightarrow> GetAttribute (sign_request env key m) t = GetAttribute m t"
    by (simp add: GetAttribute_def s(2) find_append integrity_attr(2) [OF s(7)] split: option.split)
  show "GetAttribute (sign_request env key m) STUN_ATTR_MESSAGE_INTEGRITY \<noteq> None"
    by (simp add: GetAttribute_def s(2) find_append integrity_attr(2) [OF s(7)] split: option.split)
qed

lemma attr_type_neq [simp]:
  "STUN_ATTR_USERNAME \<noteq> STUN_ATTR_MESSAGE_INTEGRITY" "STUN_ATTR_REALM \<noteq> STUN_ATTR_MESSAGE_INTEGRITY"
  "STUN_ATTR_NONCE \<noteq> STUN_ATTR_MESSAGE_INTEGRITY" "STUN_ATTR_LIFETIME \<noteq> STUN_ATTR_MESSAGE_INTEGRITY"
  "STUN_ATTR_XOR_PEER_ADDRESS \<noteq> STUN_ATTR_MESSAGE_INTEGRITY" "STUN_ATTR_DATA \<noteq> STUN_ATTR_MESSAGE_INTEGRITY"
  "STUN_ATTR_REQUESTED_TRANSPORT \<noteq> STUN_ATTR_MESSAGE_INTEGRITY"
  "STUN_ATTR_XOR_MAPPED_ADDRESS \<noteq> STUN_ATTR_MESSAGE_INTEGRITY"
  "STUN_ATTR_XOR_RELAYED_ADDRESS \<noteq> STUN_ATTR_MESSAGE_INTEGRITY"
  "STUN_ATTR_CHANNEL_NUMBER \<noteq> STUN_ATTR_MESSAGE_INTEGRITY"
  "STUN_ATTR_XOR_PEER_ADDRESS \<noteq> STUN_ATTR_MAPPED_ADDRESS"
  by code_simp+

lemma message_prefix: "\<exists>rest. message_bytes m = SetBE16 (sm_type m) @ rest"
  by (simp add: message_bytes_def header_bytes_def)

text \<open>A signed request goes through to the handler.\<close>

lemma request_dispatched:
  assumes mem: "length (te_mem env) = 64" and m: "client_request env s (ti_now inp) m user"
    and sock: "ts_socket s = Some local" and conn: "conn = \<lparr>cn_src = addr, cn_dst = local, cn_proto = TURNPROTO_UDP\<rparr>"
    and key: "key \<noteq> []"
      "key = (case FindAllocation s conn of None \<Rightarrow> snd (ts_GetKey env s m) | Some a \<Rightarrow> al_key a)"
  shows "OnInternalPacket env inp (message_bytes (sign_request env key m)) addr s
    = dispatch_message env inp conn (sign_request env key m) key (FindAllocation s conn) s"
proof -
  let ?m = "sign_request env key m"
  note sg = signed_request [OF mem m, where key = key]
  obtain rest where rest: "message_bytes ?m = SetBE16 (sm_type m) @ rest"
    using message_prefix [of ?m] by (auto simp: sg(4))
  have len: "20 \<le> length (message_bytes ?m)" using wf_sizes(3) [OF sg(3)] by simp
  have nochan: "\<not> IsTurnChannelData (GetBE16 (message_bytes ?m))"
    using m by (simp add: rest IsTurnChannelData_def client_request_def)
  obtain b where rd: "StunMessage_Read (StunMessage_new TurnMessage) (bb_of_bytes (message_bytes ?m)) = Some (?m, b)"
    "bb_length b = 0" using sg(1) by blast
  have gk: "(case FindAllocation s conn of None \<Rightarrow> snd (ts_GetKey env s ?m) | Some a \<Rightarrow> al_key a) = key"
  proof -
    have "ts_GetKey env s ?m = ts_GetKey env s m" by (simp add: ts_GetKey_def sg(6))
    then show ?thesis by (simp only: key(2) [symmetric])
  qed
  obtain u r n where at: "GetAttribute m STUN_ATTR_USERNAME = Some u" "GetAttribute m STUN_ATTR_REALM = Some r"
    "GetAttribute m STUN_ATTR_NONCE = Some n" "ValidateNonce env s (of_nat (ti_now inp)) (attr_string n)"
    using m by (auto simp: client_request_def)
  obtain i where i: "GetAttribute ?m STUN_ATTR_MESSAGE_INTEGRITY = Some i" using sg(7) by auto
  have auth: "CheckAuthorization env inp conn ?m (message_bytes ?m) key s = Some (True, s)"
    using key(1) by (simp add: CheckAuthorization_def i sg(2,6) at)
  have t: "IsStunRequestType (uint (sm_type ?m))" "sm_type ?m \<noteq> STUN_BINDING_REQUEST"
    using m by (simp_all add: sg(4) client_request_def)
  have "HandleStunMessage env inp conn (message_bytes ?m) s
      = dispatch_message env inp conn ?m key (FindAllocation s conn) s"
    using rd t auth by (simp add: HandleStunMessage_def Let_def gk)
  then show ?thesis using len nochan
    by (simp add: OnInternalPacket_def sock conn TURN_CHANNEL_HEADER_SIZE_def Let_def)
qed

section \<open>The steps of a session\<close>

lemma XorAddress_not_integrity [simp]: "at_type (attr_XorAddress t addr) = t" "at_type (attr_UInt32 t v) = t"
  by (simp_all add: attr_XorAddress_def attr_SetAddress_def attr_UInt32_def)

lemma allocate_step:
  assumes mem: "length (te_mem env) = 64" and m: "client_request env s (ti_now inp) m user"
    and sock: "ts_socket s = Some local" and conn: "conn = \<lparr>cn_src = addr, cn_dst = local, cn_proto = TURNPROTO_UDP\<rparr>"
    and hook: "te_auth env = Some hook" "key = snd (hook user (ts_realm s))" "key \<noteq> []"
    and new: "FindAllocation s conn = None" "\<forall>x \<in> set (ts_allocations s). al_id x \<noteq> ts_next s"
    and alloc: "sm_type m = STUN_ALLOCATE_REQUEST"
    and transport: "GetAttribute m STUN_ATTR_REQUESTED_TRANSPORT = Some ta" "drop_bit 24 (attr_value ta) = IPPROTO_UDP"
    and factory: "ts_factory s" "ti_new_socket inp = Some relayed"
    and sizes: "wf_address addr" "wf_address relayed" "length (sm_tid m) = 12" "length (ts_software s) < 60000"
  shows "\<exists>data. OnInternalPacket env inp (message_bytes (sign_request env key m)) addr s = Some
      (s\<lparr>ts_next := Suc (ts_next s),
         ts_allocations := ts_allocations s @ [\<lparr>al_id = ts_next s, al_conn = conn, al_socket = relayed, al_key = key,
           al_transaction_id = sm_tid m, al_username = user, al_perms = [], al_channels = []\<rparr>],
         ts_messages := ts_messages s @ [(ti_now inp + ComputeLifetime m * 1000, ts_next s)],
         ts_out := ts_out s @ [To_client data addr]\<rparr>)
    \<and> reply env key m
        [attr_XorAddress STUN_ATTR_XOR_MAPPED_ADDRESS addr, attr_XorAddress STUN_ATTR_XOR_RELAYED_ADDRESS relayed,
         attr_UInt32 STUN_ATTR_LIFETIME (of_nat (ComputeLifetime m))] data"
proof -
  let ?m = "sign_request env key m"
  note sg = signed_request [OF mem m, where key = key]
  obtain u where u: "GetAttribute m STUN_ATTR_USERNAME = Some u" "attr_string u = user"
    using m by (auto simp: client_request_def)
  have key: "key = (case FindAllocation s conn of None \<Rightarrow> snd (ts_GetKey env s m) | Some a \<Rightarrow> al_key a)"
    by (simp add: new(1) ts_GetKey_def u hook)
  note step = request_dispatched [OF mem m sock conn hook(3) key]
  define a where "a = \<lparr>al_id = ts_next s, al_conn = conn, al_socket = relayed, al_key = key,
    al_transaction_id = sm_tid m, al_username = user, al_perms = [], al_channels = []\<rparr>"
  define s1 where "s1 = s\<lparr>ts_next := Suc (ts_next s), ts_allocations := ts_allocations s @ [a],
    ts_messages := ts_messages s @ [(ti_now inp + ComputeLifetime m * 1000, ts_next s)]\<rparr>"
  let ?as = "[attr_XorAddress STUN_ATTR_XOR_MAPPED_ADDRESS addr,
    attr_XorAddress STUN_ATTR_XOR_RELAYED_ADDRESS relayed, attr_UInt32 STUN_ATTR_LIFETIME (of_nat (ComputeLifetime m))]"
  have life: "ComputeLifetime ?m = ComputeLifetime m" by (simp add: ComputeLifetime_def sg(6))
  have others: "map (\<lambda>x. if al_id x = ts_next s then a else x) (ts_allocations s) = ts_allocations s"
    by (rule map_idI) (use new(2) in simp)
  have src: "cn_src conn = addr" by (simp add: conn)
  have run: "dispatch_message env inp conn ?m key (FindAllocation s conn) s
      = Some (al_SendResponse env a (success_response ?m ?as) s1)"
    by (simp add: dispatch_message_def new(1) sg(4,5,6) alloc HandleAllocateRequest_def transport CreateAllocation_def
        factory ts_new_def al_HandleTurnMessage_def al_HandleAllocateRequest_def u life Let_def
        ts_PostDelayed_def ts_update_def others [unfolded a_def] a_def s1_def src)
  have as: "\<forall>x \<in> set ?as. wf_attr TurnMessage (sm_tid ?m) x \<and> at_type x \<noteq> STUN_ATTR_MESSAGE_INTEGRITY"
    by (simp add: wf_xor_address(1) wf_uint32(1) sizes sg(5))
  have small: "sum_list (map attr_size ?as) < 1000"
    using wf_xor_address(2) [of TurnMessage STUN_ATTR_XOR_MAPPED_ADDRESS addr "sm_tid m"]
      wf_xor_address(2) [of TurnMessage STUN_ATTR_XOR_RELAYED_ADDRESS relayed "sm_tid m"] sizes
    by (simp add: wf_uint32(2) [of TurnMessage STUN_ATTR_LIFETIME, simplified])
  have req: "IsStunRequestType (uint (sm_type ?m))" using m by (simp add: sg(4) client_request_def)
  have sw: "length (ts_software s1) < 60000" by (simp add: s1_def sizes)
  from SendResponse_signed [OF mem sw sg(3) req as small, of a] obtain data where
    "al_SendResponse env a (success_response ?m ?as) s1 = s1\<lparr>ts_out := ts_out s1 @ [To_client data addr]\<rparr>"
    "reply env key ?m ?as data" by (auto simp: a_def conn)
  then show ?thesis using step run by (auto simp: s1_def a_def reply_def sg(4,5))
qed

lemma permission_step:
  assumes mem: "length (te_mem env) = 64" and m: "client_request env s (ti_now inp) m (al_username a)"
    and sock: "ts_socket s = Some local" and conn: "conn = \<lparr>cn_src = addr, cn_dst = local, cn_proto = TURNPROTO_UDP\<rparr>"
    and a: "FindAllocation s conn = Some a" "al_key a \<noteq> []"
    and perm: "sm_type m = TURN_CREATE_PERMISSION_REQUEST" "GetAddress m STUN_ATTR_XOR_PEER_ADDRESS = Some pa"
      "FindPermission (al_perms a) (sa_ip (attr_address (at_body pa))) = Some None"
    and sizes: "length (ts_software s) < 60000"
  shows "\<exists>data. OnInternalPacket env inp (message_bytes (sign_request env (al_key a) m)) addr s = Some
      ((ts_update (a\<lparr>al_perms := al_perms a @ [\<lparr>pm_id = ts_next s, pm_peer = sa_ip (attr_address (at_body pa)),
          pm_deleted = False\<rparr>]\<rparr>) (ts_Refresh (ti_now inp) kPermissionTimeout (ts_next s) (s\<lparr>ts_next := Suc (ts_next s)\<rparr>)))
        \<lparr>ts_out := ts_out s @ [To_client data (cn_src (al_conn a))]\<rparr>)
    \<and> reply env (al_key a) m [] data"
proof -
  let ?m = "sign_request env (al_key a) m"
  let ?ip = "sa_ip (attr_address (at_body pa))"
  note sg = signed_request [OF mem m, where key = "al_key a"]
  obtain u where u: "GetAttribute m STUN_ATTR_USERNAME = Some u" "attr_string u = al_username a"
    using m by (auto simp: client_request_def)
  have key: "al_key a = (case FindAllocation s conn of None \<Rightarrow> snd (ts_GetKey env s m) | Some a \<Rightarrow> al_key a)"
    by (simp add: a(1))
  note step = request_dispatched [OF mem m sock conn a(2) key]
  define s1 where "s1 = ts_update (a\<lparr>al_perms := al_perms a @ [\<lparr>pm_id = ts_next s, pm_peer = ?ip, pm_deleted = False\<rparr>]\<rparr>)
    (ts_Refresh (ti_now inp) kPermissionTimeout (ts_next s) (s\<lparr>ts_next := Suc (ts_next s)\<rparr>))"
  have pa: "GetAddress ?m STUN_ATTR_XOR_PEER_ADDRESS = Some pa" using perm(2) by (simp add: GetAddress_def sg(6))
  have run: "dispatch_message env inp conn ?m (al_key a) (FindAllocation s conn) s
      = Some (al_SendResponse env (a\<lparr>al_perms := al_perms a @ [\<lparr>pm_id = ts_next s, pm_peer = ?ip, pm_deleted = False\<rparr>]\<rparr>)
          (success_response ?m []) s1)"
    by (simp add: dispatch_message_def a(1) sg(4,6) perm(1) u al_HandleTurnMessage_def
        al_HandleCreatePermissionRequest_def pa AddPermission_def perm(3) ts_new_def s1_def Let_def)
  have req: "IsStunRequestType (uint (sm_type ?m))" using m by (simp add: sg(4) client_request_def)
  have s1: "ts_software s1 = ts_software s" "ts_out s1 = ts_out s"
    by (simp_all add: s1_def ts_update_def ts_Refresh_def ts_PostDelayed_def ts_Clear_def)
  from SendResponse_signed [OF mem _ sg(3) req, of s1 "[]"
      "a\<lparr>al_perms := al_perms a @ [\<lparr>pm_id = ts_next s, pm_peer = ?ip, pm_deleted = False\<rparr>]\<rparr>"] sizes s1
  obtain data where d: "al_SendResponse env (a\<lparr>al_perms := al_perms a @ [\<lparr>pm_id = ts_next s, pm_peer = ?ip, pm_deleted = False\<rparr>]\<rparr>)
      (success_response ?m []) s1 = s1\<lparr>ts_out := ts_out s @ [To_client data (cn_src (al_conn a))]\<rparr>"
    "reply env (al_key a) ?m [] data" by auto
  have "OnInternalPacket env inp (message_bytes ?m) addr s
      = Some (s1\<lparr>ts_out := ts_out s @ [To_client data (cn_src (al_conn a))]\<rparr>)"
    by (simp only: step run d(1))
  moreover have "reply env (al_key a) m [] data" using d(2) by (simp add: reply_def sg(4,5))
  ultimately show ?thesis unfolding s1_def by blast
qed

text \<open>A Send indication is not signed.\<close>

lemma not_request [simp]: "\<not> IsStunRequestType (uint TURN_SEND_INDICATION)"
  by code_simp

lemma indication_dispatched:
  assumes wf: "wf_message m" "sm_kind m = TurnMessage" and send: "sm_type m = TURN_SEND_INDICATION"
    and sock: "ts_socket s = Some local" and conn: "conn = \<lparr>cn_src = addr, cn_dst = local, cn_proto = TURNPROTO_UDP\<rparr>"
  shows "\<exists>key. OnInternalPacket env inp (message_bytes m) addr s
    = dispatch_message env inp conn m key (FindAllocation s conn) s"
proof -
  obtain rest where rest: "message_bytes m = SetBE16 TURN_SEND_INDICATION @ rest"
    using message_prefix [of m] by (auto simp: send)
  have len: "20 \<le> length (message_bytes m)" using wf_sizes(3) [OF wf(1)] by simp
  have types: "\<not> IsTurnChannelData TURN_SEND_INDICATION" "TURN_SEND_INDICATION \<noteq> STUN_BINDING_REQUEST"
    by code_simp+
  from StunMessage_Read_parses [OF wf(1) bb_net_of_bytes(1) bb_net_of_bytes(2), of "StunMessage_new TurnMessage"]
  obtain b where b: "StunMessage_Read (StunMessage_new TurnMessage) (bb_of_bytes (message_bytes m)) = Some (m, b)"
    "bb_net b" "bb_data b = []"
    by (auto simp: parses_def StunMessage_new_def wf(2))
  then have "bb_length b = 0" using length_bb_data [of b] by (simp add: bb_net_def)
  then have "\<exists>key. HandleStunMessage env inp conn (message_bytes m) s
      = dispatch_message env inp conn m key (FindAllocation s conn) s"
    using b(1) by (auto simp: HandleStunMessage_def Let_def send types)
  then show ?thesis using len types(1)
    by (simp add: OnInternalPacket_def sock conn TURN_CHANNEL_HEADER_SIZE_def Let_def rest)
qed

lemma send_step:
  assumes wf: "wf_message m" "sm_kind m = TurnMessage" and send: "sm_type m = TURN_SEND_INDICATION"
    and sock: "ts_socket s = Some local" and conn: "conn = \<lparr>cn_src = addr, cn_dst = local, cn_proto = TURNPROTO_UDP\<rparr>"
    and a: "FindAllocation s conn = Some a"
    and attrs: "GetAttribute m STUN_ATTR_DATA = Some da" "GetAddress m STUN_ATTR_XOR_PEER_ADDRESS = Some pa"
    and perm: "HasPermission a (sa_ip (attr_address (at_body pa))) = Some True"
  shows "OnInternalPacket env inp (message_bytes m) addr s
    = Some (SendExternal a (attr_string da) (attr_address (at_body pa)) s)"
  using indication_dispatched [OF wf send sock conn, of env inp]
  by (auto simp: send a dispatch_message_def al_HandleTurnMessage_def al_HandleSendIndication_def attrs perm)

text \<open>The three messages of a session.\<close>

definition session_requests :: "turn_env \<Rightarrow> turn_server \<Rightarrow> turn_input \<Rightarrow> turn_input \<Rightarrow> bytes
    \<Rightarrow> stun_message \<Rightarrow> stun_message \<Rightarrow> stun_message \<Rightarrow> bytes \<Rightarrow> socket_address \<Rightarrow> bool" where
  "session_requests env s inp1 inp2 user m1 m2 m3 payload peer \<longleftrightarrow>
     client_request env s (ti_now inp1) m1 user \<and> sm_type m1 = STUN_ALLOCATE_REQUEST \<and> length (sm_tid m1) = 12
     \<and> (\<exists>ta. GetAttribute m1 STUN_ATTR_REQUESTED_TRANSPORT = Some ta \<and> drop_bit 24 (attr_value ta) = IPPROTO_UDP)
     \<and> client_request env s (ti_now inp2) m2 user \<and> sm_type m2 = TURN_CREATE_PERMISSION_REQUEST
     \<and> (\<exists>peer'. names_peer m2 peer' \<and> ip_eq (sa_ip peer') (sa_ip peer))
     \<and> wf_message m3 \<and> sm_kind m3 = TurnMessage \<and> sm_type m3 = TURN_SEND_INDICATION \<and> names_peer m3 peer
     \<and> (\<exists>da. GetAttribute m3 STUN_ATTR_DATA = Some da \<and> attr_string da = payload)"

lemma session_runs:
  assumes mem: "length (te_mem env) = 64" and start: "turn_start s" and sock: "ts_socket s = Some local"
    and hook: "te_auth env = Some hook" "key = snd (hook user (ts_realm s))" "key \<noteq> []"
    and factory: "ts_factory s" "ti_new_socket inp1 = Some relayed"
    and sizes: "wf_address addr" "wf_address relayed" "length (ts_software s) < 60000"
    and req: "session_requests env s inp1 inp2 user m1 m2 m3 payload peer"
  shows "\<exists>s' d1 d2. turn_run env
      [(inp1, Client_packet (message_bytes (sign_request env key m1)) addr),
       (inp2, Client_packet (message_bytes (sign_request env key m2)) addr),
       (inp3, Client_packet (message_bytes m3) addr)] s = Some s'
    \<and> ts_out s' = [To_client d1 addr, To_client d2 addr,
        To_peer \<lparr>cn_src = addr, cn_dst = local, cn_proto = TURNPROTO_UDP\<rparr> payload peer]
    \<and> reply env key m1 [attr_XorAddress STUN_ATTR_XOR_MAPPED_ADDRESS addr,
        attr_XorAddress STUN_ATTR_XOR_RELAYED_ADDRESS relayed,
        attr_UInt32 STUN_ATTR_LIFETIME (of_nat (ComputeLifetime m1))] d1
    \<and> reply env key m2 [] d2
    \<and> (\<exists>a. ts_allocations s' = [a] \<and> al_socket a = relayed \<and> al_username a = user)"
proof -
  let ?conn = "\<lparr>cn_src = addr, cn_dst = local, cn_proto = TURNPROTO_UDP\<rparr>"
  from req obtain ta peer' da where
    m1: "client_request env s (ti_now inp1) m1 user" "sm_type m1 = STUN_ALLOCATE_REQUEST" "length (sm_tid m1) = 12"
      "GetAttribute m1 STUN_ATTR_REQUESTED_TRANSPORT = Some ta" "drop_bit 24 (attr_value ta) = IPPROTO_UDP"
    and m2: "client_request env s (ti_now inp2) m2 user" "sm_type m2 = TURN_CREATE_PERMISSION_REQUEST"
      "names_peer m2 peer'" "ip_eq (sa_ip peer') (sa_ip peer)"
    and m3: "wf_message m3" "sm_kind m3 = TurnMessage" "sm_type m3 = TURN_SEND_INDICATION" "names_peer m3 peer"
      "GetAttribute m3 STUN_ATTR_DATA = Some da" "attr_string da = payload"
    by (auto simp: session_requests_def)
  obtain pa2 pa3 where pa: "GetAddress m2 STUN_ATTR_XOR_PEER_ADDRESS = Some pa2" "attr_address (at_body pa2) = peer'"
    "GetAddress m3 STUN_ATTR_XOR_PEER_ADDRESS = Some pa3" "attr_address (at_body pa3) = peer"
    using m2(3) m3(4) by (auto simp: names_peer_def)
  have s: "ts_allocations s = []" "ts_messages s = []" "ts_out s = []" using start by (simp_all add: turn_start_def)
  have none: "FindAllocation s ?conn = None" by (simp add: FindAllocation_def s)
  define a where "a = \<lparr>al_id = ts_next s, al_conn = ?conn, al_socket = relayed, al_key = key,
    al_transaction_id = sm_tid m1, al_username = user, al_perms = [], al_channels = []\<rparr>"
  from allocate_step [OF mem m1(1) sock refl hook none _ m1(2,4,5) factory sizes(1,2) m1(3) sizes(3)] s
  obtain d1 where d1: "turn_step env (inp1, Client_packet (message_bytes (sign_request env key m1)) addr) s
      = Some (s\<lparr>ts_next := Suc (ts_next s), ts_allocations := [a],
          ts_messages := [(ti_now inp1 + ComputeLifetime m1 * 1000, ts_next s)], ts_out := [To_client d1 addr]\<rparr>)"
    "reply env key m1 [attr_XorAddress STUN_ATTR_XOR_MAPPED_ADDRESS addr,
        attr_XorAddress STUN_ATTR_XOR_RELAYED_ADDRESS relayed,
        attr_UInt32 STUN_ATTR_LIFETIME (of_nat (ComputeLifetime m1))] d1"
    by (auto simp: a_def)
  define s1 where "s1 = s\<lparr>ts_next := Suc (ts_next s), ts_allocations := [a],
    ts_messages := [(ti_now inp1 + ComputeLifetime m1 * 1000, ts_next s)], ts_out := [To_client d1 addr]\<rparr>"
  have f1: "FindAllocation s1 ?conn = Some a" by (simp add: FindAllocation_def s1_def a_def)
  have c2: "client_request env s1 (ti_now inp2) m2 (al_username a)"
    using m2(1) ValidateNonce_config [of s s1 env] by (simp add: client_request_def a_def same_config_def s1_def)
  have sock1: "ts_socket s1 = Some local" "length (ts_software s1) < 60000" by (simp_all add: s1_def sock sizes)
  have ak: "al_key a = key" "al_key a \<noteq> []" "al_perms a = []" "al_conn a = ?conn" by (simp_all add: a_def hook(3))
  define a2 where "a2 = a\<lparr>al_perms := [\<lparr>pm_id = ts_next s1, pm_peer = sa_ip peer', pm_deleted = False\<rparr>]\<rparr>"
  from permission_step [OF mem c2 sock1(1) refl f1 ak(2) m2(2) pa(1) _ sock1(2)] pa(2) ak
  obtain d2 s2 where s2: "turn_step env (inp2, Client_packet (message_bytes (sign_request env key m2)) addr) s1 = Some s2"
    "s2 = (ts_update a2 (ts_Refresh (ti_now inp2) kPermissionTimeout (ts_next s1) (s1\<lparr>ts_next := Suc (ts_next s1)\<rparr>)))
      \<lparr>ts_out := ts_out s1 @ [To_client d2 addr]\<rparr>" "reply env key m2 [] d2"
    by (auto simp: a2_def)
  have s2': "ts_socket s2 = Some local" "ts_allocations s2 = [a2]" "ts_out s2 = [To_client d1 addr, To_client d2 addr]"
    using sock1(1)
    by (simp_all add: s2(2) ts_update_def ts_Refresh_def ts_PostDelayed_def ts_Clear_def s1_def a2_def)
  have f2: "FindAllocation s2 ?conn = Some a2" by (simp add: FindAllocation_def s2' a2_def ak)
  have hp: "HasPermission a2 (sa_ip (attr_address (at_body pa3))) = Some True"
    using m2(4) by (simp add: HasPermission_def a2_def pa(4))
  have s3: "turn_step env (inp3, Client_packet (message_bytes m3) addr) s2 = Some (SendExternal a2 payload peer s2)"
    using send_step [OF m3(1,2,3) s2'(1) refl f2 m3(5) pa(3) hp] by (simp add: m3(6) pa(4))
  have "turn_run env [(inp1, Client_packet (message_bytes (sign_request env key m1)) addr),
       (inp2, Client_packet (message_bytes (sign_request env key m2)) addr),
       (inp3, Client_packet (message_bytes m3) addr)] s = Some (SendExternal a2 payload peer s2)"
    by (simp only: turn_run.simps d1(1) s1_def [symmetric] option.case s2(1) s3)
  moreover have "ts_out (SendExternal a2 payload peer s2) = [To_client d1 addr, To_client d2 addr, To_peer ?conn payload peer]"
    "ts_allocations (SendExternal a2 payload peer s2) = [a2]" "al_socket a2 = relayed" "al_username a2 = user"
    by (simp_all add: SendExternal_def s2' a2_def a_def)
  ultimately show ?thesis using d1(2) s2(3) by blast
qed

text \<open>
  C13.  Liveness of a session: on a configured server a client that signs its requests with the key of
  its user and a nonce the server accepts gets an allocation, its lifetime and its relayed address in a signed
  answer, then a permission for the IP of a peer, and its next Send indication leaves the relayed socket for that peer.
\<close>

theorem turn_session_relays:
  assumes mem: "length (te_mem env) = 64" and start: "turn_start s" and sock: "ts_socket s = Some local"
    and hook: "te_auth env = Some hook" "key = snd (hook user (ts_realm s))" "key \<noteq> []"
    and factory: "ts_factory s" "ti_new_socket inp1 = Some relayed"
    and sizes: "wf_address addr" "wf_address relayed" "length (ts_software s) < 60000"
    and req: "session_requests env s inp1 inp2 user m1 m2 m3 payload peer"
  shows "\<exists>s' d1 d2. turn_run env
      [(inp1, Client_packet (message_bytes (sign_request env key m1)) addr),
       (inp2, Client_packet (message_bytes (sign_request env key m2)) addr),
       (inp3, Client_packet (message_bytes m3) addr)] s = Some s'
    \<and> ts_out s' = [To_client d1 addr, To_client d2 addr,
        To_peer \<lparr>cn_src = addr, cn_dst = local, cn_proto = TURNPROTO_UDP\<rparr> payload peer]
    \<and> reply env key m1 [attr_XorAddress STUN_ATTR_XOR_MAPPED_ADDRESS addr,
        attr_XorAddress STUN_ATTR_XOR_RELAYED_ADDRESS relayed,
        attr_UInt32 STUN_ATTR_LIFETIME (of_nat (ComputeLifetime m1))] d1
    \<and> reply env key m2 [] d2
    \<and> (\<exists>a. ts_allocations s' = [a] \<and> al_socket a = relayed \<and> al_username a = user)"
  by (rule session_runs [OF assms])

definition sample_message_of :: "uint16 \<Rightarrow> stun_attr list \<Rightarrow> stun_message" where
  "sample_message_of t as = fold (\<lambda>a m. snd (AddAttribute a m)) as
     \<lparr>sm_kind = TurnMessage, sm_type = t, sm_length = 0, sm_tid = sample_tid, sm_attrs = []\<rparr>"

lemma sample_message_of:
  assumes "t AND 0x8000 = 0" and "\<forall>a \<in> set as. wf_attr TurnMessage sample_tid a"
    and "sum_list (map attr_size as) < 1000"
  shows "wf_message (sample_message_of t as)" "sm_attrs (sample_message_of t as) = as"
    "unat (sm_length (sample_message_of t as)) = sum_list (map attr_size as)"
    "sm_type (sample_message_of t as) = t" "sm_tid (sample_message_of t as) = sample_tid"
    "sm_kind (sample_message_of t as) = TurnMessage"
proof -
  have tid: "length sample_tid = 12" by (simp add: sample_tid_def)
  let ?m = "\<lparr>sm_kind = TurnMessage, sm_type = t, sm_length = 0, sm_tid = sample_tid, sm_attrs = []\<rparr>"
  have "wf_message ?m"
    using assms(1) by (simp add: wf_message_def IsValidTransactionId_def kStunTransactionIdLength_def tid
        IsLegacy_def kStunLegacyTransactionIdLength_def)
  from add_attributes [OF this, of as] assms(2,3)
  show "wf_message (sample_message_of t as)" "sm_attrs (sample_message_of t as) = as"
    "unat (sm_length (sample_message_of t as)) = sum_list (map attr_size as)"
    "sm_type (sample_message_of t as) = t" "sm_tid (sample_message_of t as) = sample_tid"
    "sm_kind (sample_message_of t as) = TurnMessage"
    by (simp_all add: sample_message_of_def)
qed

definition sample_server :: turn_server where
  "sample_server = (TurnServer_new [1, 2, 3])\<lparr>ts_realm := [114], ts_factory := True,
     ts_socket := Some (SocketAddress_ip (IPAddress_v4 1) 3478)\<rparr>"

definition sample_peer :: socket_address where "sample_peer = SocketAddress_ip (IPAddress_v4 77) 9999"
definition sample_client :: socket_address where "sample_client = SocketAddress_ip (IPAddress_v4 5) 1000"

definition sample_input :: turn_input where
  "sample_input = \<lparr>ti_now = 0, ti_new_socket = Some (SocketAddress_ip (IPAddress_v4 1) 50000), ti_random = []\<rparr>"

definition sample_credentials :: "stun_attr list" where
  "sample_credentials = [attr_ByteString STUN_ATTR_USERNAME [117], attr_ByteString STUN_ATTR_REALM [114],
     attr_ByteString STUN_ATTR_NONCE (GenerateNonce sample_env sample_server 0)]"

definition sample_allocate :: stun_message where
  "sample_allocate = sample_message_of STUN_ALLOCATE_REQUEST
     (sample_credentials @ [attr_UInt32 STUN_ATTR_REQUESTED_TRANSPORT 0x11000000])"

definition sample_permission :: stun_message where
  "sample_permission = sample_message_of TURN_CREATE_PERMISSION_REQUEST
     (sample_credentials @ [attr_XorAddress STUN_ATTR_XOR_PEER_ADDRESS sample_peer])"

definition sample_send :: stun_message where
  "sample_send = sample_message_of TURN_SEND_INDICATION
     [attr_ByteString STUN_ATTR_DATA [1, 2, 3], attr_XorAddress STUN_ATTR_XOR_PEER_ADDRESS sample_peer]"

lemma sample_nonce:
  "length (GenerateNonce sample_env sample_server 0) = 40"
  "ValidateNonce sample_env sample_server 0 (GenerateNonce sample_env sample_server 0)"
proof -
  have l: "length (host_bytes32 (0 :: uint32)) = 4" by (simp add: SetLE32_def)
  then show "length (GenerateNonce sample_env sample_server 0) = 40"
    by (simp add: GenerateNonce_def nonce_hmac)
  show "ValidateNonce sample_env sample_server 0 (GenerateNonce sample_env sample_server 0)"
    by (simp add: ValidateNonce_def GenerateNonce_def nonce_hmac kNonceSize_def l hex_decode_encode4
        TimeSince_def TimeDiff_def kNonceTimeout_def)
qed

lemma sample_attrs:
  "wf_attr TurnMessage tid (attr_ByteString STUN_ATTR_USERNAME [117])"
  "wf_attr TurnMessage tid (attr_ByteString STUN_ATTR_REALM [114])"
  "wf_attr TurnMessage tid (attr_ByteString STUN_ATTR_DATA [1, 2, 3])"
  "wf_attr TurnMessage tid (attr_ByteString STUN_ATTR_NONCE (GenerateNonce sample_env sample_server 0))"
  "wf_attr TurnMessage tid (attr_UInt32 STUN_ATTR_REQUESTED_TRANSPORT 0x11000000)"
  "wf_attr TurnMessage sample_tid (attr_XorAddress STUN_ATTR_XOR_PEER_ADDRESS sample_peer)"
  by (simp_all add: wf_string wf_uint32 wf_xor_address sample_nonce sample_peer_def sample_tid_def)

lemma sample_sizes:
  "attr_size (attr_ByteString STUN_ATTR_USERNAME [117]) = 8" "attr_size (attr_ByteString STUN_ATTR_REALM [114]) = 8"
  "attr_size (attr_ByteString STUN_ATTR_NONCE (GenerateNonce sample_env sample_server 0)) = 44"
  "attr_size (attr_ByteString STUN_ATTR_DATA [1, 2, 3]) = 8"
  "attr_size (attr_UInt32 STUN_ATTR_REQUESTED_TRANSPORT 0x11000000) = 8"
  "attr_size (attr_XorAddress STUN_ATTR_XOR_PEER_ADDRESS sample_peer) = 12"
  by (simp_all add: attr_size_def attr_ByteString_def CopyBytes_def padded_length_def sample_nonce attr_UInt32_def
      attr_XorAddress_def attr_SetAddress_def sample_peer_def)

lemma sample_wf:
  "\<forall>a \<in> set (sample_credentials @ [attr_UInt32 STUN_ATTR_REQUESTED_TRANSPORT 0x11000000]). wf_attr TurnMessage sample_tid a"
  "\<forall>a \<in> set (sample_credentials @ [attr_XorAddress STUN_ATTR_XOR_PEER_ADDRESS sample_peer]). wf_attr TurnMessage sample_tid a"
  "\<forall>a \<in> set [attr_ByteString STUN_ATTR_DATA [1, 2, 3], attr_XorAddress STUN_ATTR_XOR_PEER_ADDRESS sample_peer].
    wf_attr TurnMessage sample_tid a"
  "sum_list (map attr_size (sample_credentials @ [attr_UInt32 STUN_ATTR_REQUESTED_TRANSPORT 0x11000000])) < 1000"
  "sum_list (map attr_size (sample_credentials @ [attr_XorAddress STUN_ATTR_XOR_PEER_ADDRESS sample_peer])) < 1000"
  "sum_list (map attr_size [attr_ByteString STUN_ATTR_DATA [1, 2, 3], attr_XorAddress STUN_ATTR_XOR_PEER_ADDRESS sample_peer]) < 1000"
  "STUN_ALLOCATE_REQUEST AND 0x8000 = 0" "TURN_CREATE_PERMISSION_REQUEST AND 0x8000 = 0"
  "TURN_SEND_INDICATION AND 0x8000 = 0"
  by (simp_all add: sample_credentials_def sample_attrs sample_sizes STUN_ALLOCATE_REQUEST_def
      TURN_CREATE_PERMISSION_REQUEST_def TURN_SEND_INDICATION_def)

lemmas sample_messages =
  sample_message_of [OF sample_wf(7) sample_wf(1) sample_wf(4), folded sample_allocate_def]
  sample_message_of [OF sample_wf(8) sample_wf(2) sample_wf(5), folded sample_permission_def]
  sample_message_of [OF sample_wf(9) sample_wf(3) sample_wf(6), folded sample_send_def]

lemma string_type [simp]: "at_type (attr_ByteString t v) = t"
  by (simp add: attr_ByteString_def CopyBytes_def)

lemma sample_lookup:
  "GetAttribute sample_allocate STUN_ATTR_USERNAME = Some (attr_ByteString STUN_ATTR_USERNAME [117])"
  "GetAttribute sample_allocate STUN_ATTR_REALM = Some (attr_ByteString STUN_ATTR_REALM [114])"
  "GetAttribute sample_allocate STUN_ATTR_NONCE
    = Some (attr_ByteString STUN_ATTR_NONCE (GenerateNonce sample_env sample_server 0))"
  "GetAttribute sample_allocate STUN_ATTR_REQUESTED_TRANSPORT = Some (attr_UInt32 STUN_ATTR_REQUESTED_TRANSPORT 0x11000000)"
  "GetAttribute sample_permission STUN_ATTR_USERNAME = Some (attr_ByteString STUN_ATTR_USERNAME [117])"
  "GetAttribute sample_permission STUN_ATTR_REALM = Some (attr_ByteString STUN_ATTR_REALM [114])"
  "GetAttribute sample_permission STUN_ATTR_NONCE
    = Some (attr_ByteString STUN_ATTR_NONCE (GenerateNonce sample_env sample_server 0))"
  "GetAddress sample_permission STUN_ATTR_XOR_PEER_ADDRESS = Some (attr_XorAddress STUN_ATTR_XOR_PEER_ADDRESS sample_peer)"
  "GetAttribute sample_send STUN_ATTR_DATA = Some (attr_ByteString STUN_ATTR_DATA [1, 2, 3])"
  "GetAddress sample_send STUN_ATTR_XOR_PEER_ADDRESS = Some (attr_XorAddress STUN_ATTR_XOR_PEER_ADDRESS sample_peer)"
  by (simp_all add: GetAttribute_def GetAddress_def sample_messages sample_credentials_def STUN_ATTR_USERNAME_def
      STUN_ATTR_REALM_def STUN_ATTR_NONCE_def STUN_ATTR_REQUESTED_TRANSPORT_def STUN_ATTR_XOR_PEER_ADDRESS_def
      STUN_ATTR_DATA_def STUN_ATTR_MAPPED_ADDRESS_def)

lemma sample_values:
  "attr_string (attr_ByteString STUN_ATTR_USERNAME [117]) = [117]"
  "attr_string (attr_ByteString STUN_ATTR_DATA [1, 2, 3]) = [1, 2, 3]"
  "attr_string (attr_ByteString STUN_ATTR_NONCE (GenerateNonce sample_env sample_server 0))
    = GenerateNonce sample_env sample_server 0"
  "attr_address (at_body (attr_XorAddress STUN_ATTR_XOR_PEER_ADDRESS sample_peer)) = sample_peer"
  by (simp_all add: attr_string_def attr_ByteString_def CopyBytes_def sample_nonce attr_XorAddress_def attr_SetAddress_def)

lemma sample_requests:
  "session_requests sample_env sample_server sample_input sample_input [117]
    sample_allocate sample_permission sample_send [1, 2, 3] sample_peer"
proof -
  have no: "\<forall>a \<in> set (sm_attrs sample_allocate). at_type a \<noteq> STUN_ATTR_MESSAGE_INTEGRITY"
    "\<forall>a \<in> set (sm_attrs sample_permission). at_type a \<noteq> STUN_ATTR_MESSAGE_INTEGRITY"
    by (simp_all add: sample_messages sample_credentials_def)
  have len: "unat (sm_length sample_allocate) + 24 < 65536" "unat (sm_length sample_permission) + 24 < 65536"
    using sample_wf(4,5) by (simp_all only: sample_messages)
  have t: "STUN_ALLOCATE_REQUEST \<noteq> STUN_BINDING_REQUEST" "TURN_CREATE_PERMISSION_REQUEST \<noteq> STUN_BINDING_REQUEST"
    "STUN_ALLOCATE_REQUEST AND 0xC000 = 0" "TURN_CREATE_PERMISSION_REQUEST AND 0xC000 = 0"
    by code_simp+
  show ?thesis
    by (simp add: session_requests_def client_request_def no len t sample_messages(1,4,5,6,7,10,11,12,13,16,17,18) sample_lookup sample_values sample_nonce
        names_peer_def sample_input_def attr_UInt32_def attr_value_def IPPROTO_UDP_def sample_tid_def)
qed

lemma sample_facts:
  "turn_start sample_server" "ts_socket sample_server = Some (SocketAddress_ip (IPAddress_v4 1) 3478)"
  "te_auth sample_env = Some (\<lambda>user realm. (True, user @ realm))"
  "[117, 114] = snd ((\<lambda>user realm. (True, user @ realm)) [117] (ts_realm sample_server))"
  "[117, 114] \<noteq> ([] :: bytes)"
  "ts_factory sample_server" "ti_new_socket sample_input = Some (SocketAddress_ip (IPAddress_v4 1) 50000)"
  "wf_address sample_client" "wf_address (SocketAddress_ip (IPAddress_v4 1) 50000)"
  "length (ts_software sample_server) < 60000"
  by (simp_all add: sample_server_def turn_start_def TurnServer_new_def sample_env_def sample_input_def sample_client_def)

text \<open>The run of the sample session.\<close>

lemma sample_run:
  "\<exists>s' d1 d2. turn_run sample_env
      [(sample_input, Client_packet (message_bytes (sign_request sample_env [117, 114] sample_allocate)) sample_client),
       (sample_input, Client_packet (message_bytes (sign_request sample_env [117, 114] sample_permission)) sample_client),
       (sample_input, Client_packet (message_bytes sample_send) sample_client)] sample_server = Some s'
    \<and> turn_start sample_server \<and> ts_out s' = [To_client d1 sample_client, To_client d2 sample_client,
        To_peer \<lparr>cn_src = sample_client, cn_dst = SocketAddress_ip (IPAddress_v4 1) 3478, cn_proto = TURNPROTO_UDP\<rparr>
          [1, 2, 3] sample_peer]
    \<and> (\<exists>a. ts_allocations s' = [a] \<and> al_username a = [117])"
proof -
  from session_runs [OF sample_env sample_facts sample_requests, of sample_input] sample_facts(1)
  show ?thesis by blast
qed

theorem turn_session_relays_witness:
  "\<exists>s' d1 d2. turn_run sample_env
      [(sample_input, Client_packet (message_bytes (sign_request sample_env [117, 114] sample_allocate)) sample_client),
       (sample_input, Client_packet (message_bytes (sign_request sample_env [117, 114] sample_permission)) sample_client),
       (sample_input, Client_packet (message_bytes sample_send) sample_client)] sample_server = Some s'
    \<and> ts_out s' = [To_client d1 sample_client, To_client d2 sample_client,
        To_peer \<lparr>cn_src = sample_client, cn_dst = SocketAddress_ip (IPAddress_v4 1) 3478, cn_proto = TURNPROTO_UDP\<rparr>
          [1, 2, 3] sample_peer]"
proof -
  from turn_session_relays [OF sample_env sample_facts sample_requests, of sample_input]
  show ?thesis by blast
qed

theorem turn_relays_authorised_witness:
  "\<exists>es conn user ip. ip_eq ip (sa_ip sample_peer) \<and> requested sample_env sample_server es conn user (permits ip)"
proof -
  from sample_run obtain es s' d1 d2 conn where run: "turn_run sample_env es sample_server = Some s'"
    "turn_start sample_server"
    "ts_out s' = [To_client d1 sample_client, To_client d2 sample_client, To_peer conn [1, 2, 3] sample_peer]"
    by blast
  have "To_peer conn [1, 2, 3] sample_peer \<in> set (ts_out s')" by (simp add: run(3))
  from turn_relays_authorised [OF run(1,2) this] show ?thesis by blast
qed

theorem turn_allocations_authorised_witness:
  "\<exists>es conn. requested sample_env sample_server es conn [117] (\<lambda>m. sm_type m = STUN_ALLOCATE_REQUEST)"
proof -
  from sample_run obtain es s' a where run: "turn_run sample_env es sample_server = Some s'"
    "turn_start sample_server" "ts_allocations s' = [a]" "al_username a = [117]"
    by blast
  have "a \<in> set (ts_allocations s')" by (simp add: run(3))
  from turn_allocations_authorised [OF run(1,2) this] run(4) show ?thesis by auto
qed

end
