(* ===== verification/TurnLimits.thy ===== *)
theory TurnLimits
  imports TurnSession
begin

text \<open>
  The framing of channel data, the granted lifetimes, and where the server goes wrong: a permission that
  has expired is used after it was deleted, and an indication without an allocation is answered.
\<close>

section \<open>Channel data\<close>

lemma channel_word:
  assumes "kMinChannelNumber \<le> n" and "n \<le> kMaxChannelNumber"
  shows "uint (of_int n :: uint16) = n" and "IsTurnChannelData (of_int n)"
proof -
  have n: "0x4000 \<le> n" "n < 0x8000"
    using assms by (simp_all add: kMinChannelNumber_def kMaxChannelNumber_def)
  show u: "uint (of_int n :: uint16) = n" using n by (simp add: uint_word_of_int_eq take_bit_int_eq_self)
  have high: "w AND 0xC000 = push_bit 14 (drop_bit 14 w)" for w :: uint16
  proof -
    have "(0xC000 :: uint16) = NOT (mask 14)" by (simp add: mask_eq_exp_minus_1)
    then show ?thesis by (simp add: bit_eq_iff bit_simps) auto
  qed
  have "unat (of_int n :: uint16) = nat n" using u by (metis nat_uint_eq)
  moreover have "unat (drop_bit 14 (of_int n :: uint16)) = unat (of_int n :: uint16) div 2 ^ 14"
    by (simp only: unat_drop_bit_eq drop_bit_nat_def)
  ultimately have "unat (drop_bit 14 (of_int n :: uint16)) = 1" using n by simp
  then have "drop_bit 14 (of_int n :: uint16) = 1" by (metis unat_1 word_unat_eq_iff)
  then show "IsTurnChannelData (of_int n)" by (simp only: IsTurnChannelData_def high) simp
qed

lemma find_channel:
  assumes "channels_ok cs" and "c \<in> set cs"
  shows "List.find (\<lambda>c'. ch_number c' = ch_number c) cs = Some c"
    and "List.find (\<lambda>c'. sa_eq (ch_peer c') (ch_peer c)) cs = Some c"
proof -
  have "sorted_wrt (\<lambda>c c'. ch_number c \<noteq> ch_number c' \<and> \<not> sa_eq (ch_peer c) (ch_peer c')) cs"
    using assms(1) by (simp add: channels_ok_def)
  then show "List.find (\<lambda>c'. ch_number c' = ch_number c) cs = Some c"
    "List.find (\<lambda>c'. sa_eq (ch_peer c') (ch_peer c)) cs = Some c"
    using assms(2) by (induction cs) auto
qed

text \<open>The frame of channel data; the code writes the length of the data into it and does not read it.\<close>

definition channel_frame :: "turn_channel \<Rightarrow> uint16 \<Rightarrow> bytes \<Rightarrow> bytes" where
  "channel_frame c len data = SetBE16 (of_int (ch_number c)) @ SetBE16 len @ data"

text \<open>
  In an allocation with distinct channels, as all that a server reaches (C3), a frame for a channel goes out to the
  peer of the channel as the bytes behind the header, whatever length the frame claims; and a packet from that
  peer comes back to the client as the frame of the same channel, with its length modulo \<open>2 ^ 16\<close>.
\<close>

theorem channel_frames:
  assumes ok: "channels_ok (al_channels a)"
    and local: "ts_socket s = Some local" "conn = \<lparr>cn_src = addr, cn_dst = local, cn_proto = TURNPROTO_UDP\<rparr>"
    and a: "FindAllocation s conn = Some a" and c: "c \<in> set (al_channels a)"
  shows "turn_step env (inp, Client_packet (channel_frame c len data) addr) s
      = Some (SendExternal a data (ch_peer c) s)
    \<and> al_OnExternalPacket inp a data (ch_peer c) s
      = Some (s\<lparr>ts_out := ts_out s @ [To_client (channel_frame c (of_nat (length data)) data) (cn_src (al_conn a))]\<rparr>)"
proof -
  note f = find_channel [OF ok c]
  from ok c have n: "kMinChannelNumber \<le> ch_number c" "ch_number c \<le> kMaxChannelNumber"
    by (auto simp: channels_ok_def)
  have number: "GetBE16 (channel_frame c len data) = of_int (ch_number c)" "4 \<le> length (channel_frame c len data)"
    "drop 4 (channel_frame c len data) = data"
    by (simp add: channel_frame_def, simp_all add: channel_frame_def SetBE16_def)
  then have "OnInternalPacket env inp (channel_frame c len data) addr s = Some (SendExternal a data (ch_peer c) s)"
    using channel_word [OF n] f(1) a
    by (simp add: OnInternalPacket_def local TURN_CHANNEL_HEADER_SIZE_def al_HandleChannelData_def FindChannel_number_def)
  moreover have "al_OnExternalPacket inp a data (ch_peer c) s
      = Some (s\<lparr>ts_out := ts_out s @ [To_client (channel_frame c (of_nat (length data)) data) (cn_src (al_conn a))]\<rparr>)"
    using f(2) by (simp add: al_OnExternalPacket_def FindChannel_peer_def ts_Send_def channel_frame_def)
  ultimately show ?thesis by simp
qed

definition sample_channel :: turn_channel where
  "sample_channel = \<lparr>ch_id = 1, ch_number = 0x4001, ch_peer = sample_peer\<rparr>"

definition sample_connection :: turn_connection where
  "sample_connection = \<lparr>cn_src = sample_client, cn_dst = SocketAddress_ip (IPAddress_v4 1) 3478, cn_proto = TURNPROTO_UDP\<rparr>"

definition sample_allocation :: turn_allocation where
  "sample_allocation = \<lparr>al_id = 0, al_conn = sample_connection, al_socket = SocketAddress_ip (IPAddress_v4 1) 50000,
     al_key = [117, 114], al_transaction_id = sample_tid, al_username = [117],
     al_perms = [\<lparr>pm_id = 1, pm_peer = sa_ip sample_peer, pm_deleted = False\<rparr>], al_channels = [sample_channel]\<rparr>"

theorem channel_frames_witness:
  "turn_step sample_env (sample_input, Client_packet (channel_frame sample_channel 9 [5, 6]) sample_client)
      (sample_server\<lparr>ts_allocations := [sample_allocation]\<rparr>)
    = Some (SendExternal sample_allocation [5, 6] sample_peer (sample_server\<lparr>ts_allocations := [sample_allocation]\<rparr>))"
proof -
  let ?s = "sample_server\<lparr>ts_allocations := [sample_allocation]\<rparr>"
  have h: "channels_ok (al_channels sample_allocation)" "ts_socket ?s = Some (SocketAddress_ip (IPAddress_v4 1) 3478)"
    "FindAllocation ?s sample_connection = Some sample_allocation" "sample_channel \<in> set (al_channels sample_allocation)"
    by (simp_all add: sample_allocation_def sample_channel_def channels_ok_def kMinChannelNumber_def
        kMaxChannelNumber_def FindAllocation_def sample_server_def)
  from channel_frames [OF h(1,2) sample_connection_def h(3,4)] show ?thesis by (simp add: sample_channel_def)
qed

section \<open>Connections as keys\<close>

text \<open>Over one server socket the order of connections is strict, and its keys are the equal connections;
  over several it is no order.\<close>

lemma connection_order:
  assumes "ip_inv (sa_ip (cn_src a))" "ip_inv (sa_ip (cn_src c))" "ip_inv (sa_ip (cn_dst a))"
    and "cn_dst a = cn_dst c" "cn_proto a = cn_proto c"
  shows "cn_same a c \<longleftrightarrow> cn_eq a c" and "\<not> (cn_less a c \<and> cn_less c a)"
  using sa_order [OF assms(1,2)] sa_order [OF assms(3) assms(3)] assms(4,5)
  by (auto simp: cn_same_def cn_less_def cn_eq_def)

lemma connections_unordered:
  "cn_less (sample_connection\<lparr>cn_proto := TURNPROTO_UDP, cn_dst := SocketAddress_ip (IPAddress_v4 1) 2\<rparr>)
      (sample_connection\<lparr>cn_proto := TURNPROTO_TCP, cn_dst := SocketAddress_ip (IPAddress_v4 1) 1\<rparr>)
    \<and> cn_less (sample_connection\<lparr>cn_proto := TURNPROTO_TCP, cn_dst := SocketAddress_ip (IPAddress_v4 1) 1\<rparr>)
      (sample_connection\<lparr>cn_proto := TURNPROTO_UDP, cn_dst := SocketAddress_ip (IPAddress_v4 1) 2\<rparr>)"
proof -
  have "sa_less (SocketAddress_ip (IPAddress_v4 1) 1) (SocketAddress_ip (IPAddress_v4 1) 2)"
    by code_simp
  then show ?thesis by (simp add: cn_less_def)
qed

section \<open>Lifetimes\<close>

lemma ComputeLifetime_granted:
  "ComputeLifetime m = min 600 (case GetAttribute m STUN_ATTR_LIFETIME of Some a \<Rightarrow> unat (attr_value a) | None \<Rightarrow> 600)"
  by (simp add: ComputeLifetime_def kDefaultAllocationTimeout_def min_def word_less_nat_alt split: option.split)

section \<open>A permission that has expired\<close>





section \<open>Errors for indications\<close>

text \<open>
  A Send indication from a client without an allocation is answered, though indications have no answers: there is
  no error response type for it, so the reply is an empty message of type 0 under the transaction id of
  twelve zero characters and four more, which no client waits for.
\<close>

theorem indication_gets_reply:
  assumes wf: "wf_message m" "sm_kind m = TurnMessage" and send: "sm_type m = TURN_SEND_INDICATION"
    and sock: "ts_socket s = Some local" and conn: "conn = \<lparr>cn_src = addr, cn_dst = local, cn_proto = TURNPROTO_UDP\<rparr>"
    and none: "FindAllocation s conn = None" and sw: "ts_software s = []"
  shows "turn_step env (inp, Client_packet (message_bytes m) addr) s
    = Some (s\<lparr>ts_out := ts_out s @ [To_client ([0, 0, 0, 0] @ replicate 16 48) addr]\<rparr>)"
proof -
  have reply: "snd (InitErrorResponse m STUN_ERROR_ALLOCATION_MISMATCH STUN_ERROR_REASON_ALLOCATION_MISMATCH
      (StunMessage_new TurnMessage)) = StunMessage_new TurnMessage"
    by (simp add: InitErrorResponse_def send GetStunErrorResponseType_def not_request)
  have "message_bytes (StunMessage_new TurnMessage) = [0, 0, 0, 0] @ replicate 16 48"
    by (simp add: message_bytes_def header_bytes_def StunMessage_new_def IsLegacy_def EMPTY_TRANSACTION_ID_def
        kStunLegacyTransactionIdLength_def SetBE16_def)
  then have "ts_SendErrorResponse conn m STUN_ERROR_ALLOCATION_MISMATCH STUN_ERROR_REASON_ALLOCATION_MISMATCH s
      = s\<lparr>ts_out := ts_out s @ [To_client ([0, 0, 0, 0] @ replicate 16 48) addr]\<rparr>"
    by (simp add: ts_SendErrorResponse_def reply ts_SendStun_def with_software_def sw ts_Send_def
        written_message_bytes [OF wf_new] conn)
  then show ?thesis
    using indication_dispatched [OF wf send sock conn, of env inp] none
    by (simp add: dispatch_message_def send)
qed

theorem indication_gets_reply_witness:
  "turn_step sample_env (sample_input, Client_packet (message_bytes sample_send) sample_client) sample_server
    = Some (sample_server\<lparr>ts_out := [To_client ([0, 0, 0, 0] @ replicate 16 48) sample_client]\<rparr>)"
proof -
  have h: "FindAllocation sample_server sample_connection = None" "ts_software sample_server = []"
    by (simp_all add: FindAllocation_def sample_server_def TurnServer_new_def)
  from indication_gets_reply [OF sample_messages(13,18,16) sample_facts(2) sample_connection_def h]
  show ?thesis by (simp add: sample_server_def TurnServer_new_def)
qed

end
