(* ===== verification/StringProperties.thy ===== *)
theory StringProperties
  imports StringEncode
begin

text \<open>
  What the routines of \<^verbatim>\<open>base/stringencode.cc\<close> promise.  All five encoders are one scheme: a
  character becomes a piece, and a piece is written whole or not at all (\<open>emit\<close>).  From that
  follow the bounds of the output and, with a buffer that is large enough, the round trips.
\<close>

section \<open>One scheme for the encoders\<close>

text \<open>The pieces of \<open>xs\<close> behind \<open>out\<close>, as long as there is room for a whole piece and a zero.\<close>

fun emit :: "nat \<Rightarrow> ('a \<Rightarrow> bytes) \<Rightarrow> 'a list \<Rightarrow> bytes \<Rightarrow> bytes" where
  "emit n piece [] out = out"
| "emit n piece (x # xs) out =
     (if length out + length (piece x) < n then emit n piece xs (out @ piece x) else out)"

lemma emit_bound: "length out < n \<Longrightarrow> length (emit n piece xs out) < n"
  by (induction n piece xs out rule: emit.induct) auto

lemma emit_room:
  "length out + length (concat (map piece xs)) < n \<Longrightarrow> emit n piece xs out = out @ concat (map piece xs)"
  by (induction xs arbitrary: out) auto

lemma emit_prefix: "\<exists>k. emit n piece xs out = out @ concat (map piece (take k xs))"
proof (induction xs arbitrary: out)
  case Nil
  show ?case by simp
next
  case (Cons x xs)
  show ?case
  proof (cases "length out + length (piece x) < n")
    case True
    obtain k where "emit n piece xs (out @ piece x) = (out @ piece x) @ concat (map piece (take k xs))"
      using Cons.IH by blast
    then have "emit n piece (x # xs) out = out @ concat (map piece (take (Suc k) (x # xs)))"
      using True by simp
    then show ?thesis by blast
  next
    case False
    then have "emit n piece (x # xs) out = out @ concat (map piece (take 0 (x # xs)))" by simp
    then show ?thesis by blast
  qed
qed

definition escape_piece :: "bytes \<Rightarrow> uint8 \<Rightarrow> uint8 \<Rightarrow> bytes" where
  "escape_piece illegal esc ch = (if ch = esc \<or> strchr illegal ch then [esc, ch] else [ch])"

definition encode_piece :: "bytes \<Rightarrow> uint8 \<Rightarrow> uint8 \<Rightarrow> bytes" where
  "encode_piece illegal esc ch = (if ch = esc \<or> strchr illegal ch then esc # hex_pair ch else [ch])"

definition url_piece :: "uint8 \<Rightarrow> bytes" where
  "url_piece ch = (if in_class ch URL_UNSAFE then 37 # hex_pair ch else [ch])"

definition xml_piece :: "uint8 \<Rightarrow> bytes" where
  "xml_piece ch = (if in_class ch XML_UNSAFE then xml_seq ch else [ch])"

lemma length_hex_pair [simp]: "length (hex_pair ch) = 2"
  by (simp add: hex_pair_def)

lemma escape_emits: "escape_loop n illegal esc s out = emit n (escape_piece illegal esc) s out"
  by (induction s arbitrary: out) (auto simp: escape_piece_def)

lemma encode_emits: "encode_chars_loop n illegal esc s out = emit n (encode_piece illegal esc) s out"
  by (induction s arbitrary: out) (auto simp: encode_piece_def)

lemma url_emits: "url_encode_loop n s out = emit n url_piece s out"
  by (induction s arbitrary: out) (auto simp: url_piece_def)

lemma length_xml_seq: "4 \<le> length (xml_seq ch)" "length (xml_seq ch) \<le> 6"
  by (auto simp: xml_seq_def lt_seq_def gt_seq_def apos_seq_def quot_seq_def amp_seq_def)

lemma xml_emits: "xml_encode_loop n s out = emit n xml_piece s out"
proof (induction s arbitrary: out)
  case (Cons ch s)
  then show ?case using length_xml_seq(1)[of ch] by (auto simp: xml_piece_def)
qed simp

lemmas encoders_emit = escape_emits encode_emits url_emits xml_emits

lemma concat_map_bound:
  "(\<And>x. length (f x) \<le> k) \<Longrightarrow> length (concat (map f xs)) \<le> k * length xs"
  by (induction xs) (auto simp: add_mono)

lemma emit_all:
  "(\<And>x. length (piece x) \<le> k) \<Longrightarrow> k * length xs < n \<Longrightarrow> emit n piece xs [] = concat (map piece xs)"
  using emit_room[of "[]" piece xs n] concat_map_bound[of piece k xs] by simp

section \<open>Escape characters\<close>

lemma hex_escape_pair [simp]: "hex_escape (hex_pair ch @ s) = Some ch"
  by (simp add: hex_pair_def decode_encode_digit nibbles nibbles_joined)

lemma drop_hex_pair [simp]: "drop 2 (hex_pair ch @ s) = s"
  by (simp add: hex_pair_def)

lemma decode_pieces:
  "length out + length s < n \<Longrightarrow>
     decode_chars_loop n esc (concat (map (encode_piece illegal esc) s)) out = out @ s"
proof (induction s arbitrary: out)
  case (Cons ch s)
  show ?case
  proof (cases "ch = esc \<or> strchr illegal ch")
    case True
    have "decode_chars_loop n esc (esc # hex_pair ch @ concat (map (encode_piece illegal esc) s)) out
      = decode_chars_loop n esc (concat (map (encode_piece illegal esc) s)) (out @ [ch])"
      using Cons.prems by (simp add: hex_escape_pair)
    then show ?thesis using True Cons by (simp add: encode_piece_def)
  next
    case False
    then show ?thesis using Cons by (simp add: encode_piece_def)
  qed
qed simp

lemma unescape_step:
  "ch \<noteq> esc \<Longrightarrow> length out + 1 < n \<Longrightarrow> unescape_loop n esc (ch # r) out = unescape_loop n esc r (out @ [ch])"
  by (cases r) auto

lemma unescape_pieces:
  "length out + length s < n \<Longrightarrow>
     unescape_loop n esc (concat (map (escape_piece illegal esc) s)) out = out @ s"
proof (induction s arbitrary: out)
  case (Cons ch s)
  then show ?case using Cons.IH[of "out @ [ch]"] by (auto simp: escape_piece_def unescape_step)
qed simp

text \<open>
  Escaped and encoded text comes back.  \<open>unescape\<close> undoes \<open>escape\<close> and \<open>decode\<close> undoes \<open>encode\<close>,
  for every escape character and every set of illegal ones (hexadecimal digits among them, against which the header
  warns), when the buffers have room for the worst case.  With any other buffer the encoders write
  complete pieces of a prefix of the source and stay inside.
\<close>

lemma escapes_roundtrip:
  assumes "3 * length s < n" "length s < m" "0 < j"
  shows "unescape m (escape n s illegal esc) esc = s"
    and "decode_chars m (encode_chars n s illegal esc) esc = s"
    and "\<exists>k. encode_chars j s illegal esc = concat (map (encode_piece illegal esc) (take k s))"
    and "length (encode_chars j s illegal esc) < j \<and> length (escape j s illegal esc) < j"
proof -
  have "escape n s illegal esc = concat (map (escape_piece illegal esc) s)"
    using assms(1) by (simp add: escape_def encoders_emit, intro emit_all[of _ 2]) (auto simp: escape_piece_def)
  then show "unescape m (escape n s illegal esc) esc = s"
    using assms(2) unescape_pieces[of "[]" s m esc illegal] by (simp add: unescape_def)
  have "encode_chars n s illegal esc = concat (map (encode_piece illegal esc) s)"
    using assms(1) by (simp add: encode_chars_def encoders_emit, intro emit_all[of _ 3]) (auto simp: encode_piece_def)
  then show "decode_chars m (encode_chars n s illegal esc) esc = s"
    using assms(2) decode_pieces[of "[]" s m esc illegal] by (simp add: decode_chars_def)
  show "\<exists>k. encode_chars j s illegal esc = concat (map (encode_piece illegal esc) (take k s))"
    using assms(3) emit_prefix[of j "encode_piece illegal esc" s "[]"] by (simp add: encode_chars_def encoders_emit)
  show "length (encode_chars j s illegal esc) < j \<and> length (escape j s illegal esc) < j"
    using assms(3) by (simp add: encode_chars_def escape_def encoders_emit emit_bound)
qed

section \<open>URLs\<close>

lemma url_decode_pieces:
  "length out + length s < n \<Longrightarrow> url_decode_loop n (concat (map url_piece s)) out = out @ s"
proof (induction s arbitrary: out)
  case (Cons ch s)
  show ?case
  proof (cases "in_class ch URL_UNSAFE")
    case True
    have "url_decode_loop n (37 # hex_pair ch @ concat (map url_piece s)) out
      = url_decode_loop n (concat (map url_piece s)) (out @ [ch])"
      using Cons.prems by (simp add: hex_escape_pair)
    then show ?thesis using True Cons by (simp add: url_piece_def)
  next
    case False
    have "in_class 37 URL_UNSAFE" "in_class 43 URL_UNSAFE" by code_simp+
    then have "ch \<noteq> 37" "ch \<noteq> 43" using False by auto
    then show ?thesis using False Cons by (simp add: url_piece_def)
  qed
qed simp

lemma s_url_encode_pieces: "s_url_encode s = concat (map url_piece s)"
  by (simp add: s_url_encode_def s_transform_def url_encode_def encoders_emit, intro emit_all[of _ 3])
     (auto simp: url_piece_def)

text \<open>The characters of an encoded URL: those that are safe, and the percent sign.\<close>

lemma below_byte:
  assumes "(v :: uint8) < of_nat k"
  shows "v = of_nat (unat v) \<and> unat v \<in> set [0..<k]"
proof -
  have "unat v < unat (of_nat k :: uint8)" using assms by (simp add: word_less_nat_alt)
  also have "\<dots> \<le> k" by (simp add: unat_of_nat)
  finally show ?thesis by simp
qed

lemma hex_digit_safe: "x \<in> set (hex_pair ch) \<Longrightarrow> \<not> in_class x URL_UNSAFE"
proof -
  have all: "\<forall>n \<in> set [0..<16]. \<not> in_class (hex_encode_digit (of_nat n)) URL_UNSAFE" by code_simp
  have "\<not> in_class (hex_encode_digit v) URL_UNSAFE" if "v < 16" for v :: uint8
    using all below_byte[of v 16] that by (metis of_nat_numeral)
  then show "x \<in> set (hex_pair ch) \<Longrightarrow> \<not> in_class x URL_UNSAFE"
    using nibbles(1,2)[of ch] by (auto simp: hex_pair_def)
qed

text \<open>
  URLs.  Decoding the URL encoding of a string gives the string back, whatever its bytes; the
  encoded text holds safe characters and percent signs only; with a bounded buffer \<open>url_encode\<close> stays inside and
  writes complete escapes of a prefix.
\<close>

lemma url_roundtrip:
  shows "s_url_decode (s_url_encode s) = s"
    and "\<forall>x \<in> set (s_url_encode s). x = 37 \<or> \<not> in_class x URL_UNSAFE"
    and "0 < n \<Longrightarrow> length (url_encode n s) < n \<and> (\<exists>k. url_encode n s = s_url_encode (take k s))"
proof -
  have "length s \<le> length (concat (map url_piece s))"
    by (induction s) (auto simp: url_piece_def)
  then show "s_url_decode (s_url_encode s) = s"
    unfolding s_url_encode_pieces
    using url_decode_pieces[of "[]" s] by (simp add: s_url_decode_def s_transform_def url_decode_def)
  show "\<forall>x \<in> set (s_url_encode s). x = 37 \<or> \<not> in_class x URL_UNSAFE"
    unfolding s_url_encode_pieces by (auto simp: url_piece_def hex_digit_safe split: if_splits)
  show "0 < n \<Longrightarrow> length (url_encode n s) < n \<and> (\<exists>k. url_encode n s = s_url_encode (take k s))"
    using emit_prefix[of n url_piece s "[]"]
    by (simp add: s_url_encode_pieces url_encode_def encoders_emit emit_bound)
qed

section \<open>UTF-8\<close>

lemma trail_byte:
  assumes "(b :: uint8) < 64"
  shows "(0x80 OR b) AND 0xC0 = 0x80" "(0x80 OR b) AND 0x3F = b" 
proof -
  have "\<forall>n \<in> set [0..<64]. ((0x80 OR (of_nat n :: uint8)) AND 0xC0 = 0x80) \<and> (0x80 OR (of_nat n :: uint8)) AND 0x3F = of_nat n"
    by code_simp
  then show "(0x80 OR b) AND 0xC0 = 0x80" "(0x80 OR b) AND 0x3F = b" 
    using below_byte[of b 64] assms by (metis of_nat_numeral)+
qed

lemma lead_bytes:
  "(b :: uint8) < 128 \<Longrightarrow> b AND 0x80 = 0"
  "(b :: uint8) < 32 \<Longrightarrow> (0xC0 OR b) AND 0x80 \<noteq> 0 \<and> (0xC0 OR b) AND 0xE0 = 0xC0 \<and> (0xC0 OR b) AND 0x1F = b"
  "(b :: uint8) < 16 \<Longrightarrow> (0xE0 OR b) AND 0x80 \<noteq> 0 \<and> (0xE0 OR b) AND 0xE0 \<noteq> 0xC0
     \<and> (0xE0 OR b) AND 0xF0 = 0xE0 \<and> (0xE0 OR b) AND 0x0F = b"
  "(b :: uint8) < 8 \<Longrightarrow> (0xF0 OR b) AND 0x80 \<noteq> 0 \<and> (0xF0 OR b) AND 0xE0 \<noteq> 0xC0 \<and> (0xF0 OR b) AND 0xF0 \<noteq> 0xE0
     \<and> (0xF0 OR b) AND 0xF8 = 0xF0 \<and> (0xF0 OR b) AND 0x07 = b"
proof -
  have "\<forall>n \<in> set [0..<128]. (of_nat n :: uint8) AND 0x80 = 0" by code_simp
  then show "(b :: uint8) < 128 \<Longrightarrow> b AND 0x80 = 0" using below_byte[of b 128] by (metis of_nat_numeral)
  have "\<forall>n \<in> set [0..<32]. (0xC0 OR (of_nat n :: uint8)) AND 0x80 \<noteq> 0 \<and> (0xC0 OR (of_nat n :: uint8)) AND 0xE0 = 0xC0 \<and> (0xC0 OR (of_nat n :: uint8)) AND 0x1F = of_nat n"
    by code_simp
  then show "(b :: uint8) < 32 \<Longrightarrow> (0xC0 OR b) AND 0x80 \<noteq> 0 \<and> (0xC0 OR b) AND 0xE0 = 0xC0 \<and> (0xC0 OR b) AND 0x1F = b"
    using below_byte[of b 32] by (metis of_nat_numeral)
  have "\<forall>n \<in> set [0..<16]. (0xE0 OR (of_nat n :: uint8)) AND 0x80 \<noteq> 0 \<and> (0xE0 OR (of_nat n :: uint8)) AND 0xE0 \<noteq> 0xC0
     \<and> (0xE0 OR (of_nat n :: uint8)) AND 0xF0 = 0xE0 \<and> (0xE0 OR (of_nat n :: uint8)) AND 0x0F = of_nat n" by code_simp
  then show "(b :: uint8) < 16 \<Longrightarrow> (0xE0 OR b) AND 0x80 \<noteq> 0 \<and> (0xE0 OR b) AND 0xE0 \<noteq> 0xC0
     \<and> (0xE0 OR b) AND 0xF0 = 0xE0 \<and> (0xE0 OR b) AND 0x0F = b"
    using below_byte[of b 16] by (metis of_nat_numeral)
  have "\<forall>n \<in> set [0..<8]. (0xF0 OR (of_nat n :: uint8)) AND 0x80 \<noteq> 0 \<and> (0xF0 OR (of_nat n :: uint8)) AND 0xE0 \<noteq> 0xC0 \<and> (0xF0 OR (of_nat n :: uint8)) AND 0xF0 \<noteq> 0xE0
     \<and> (0xF0 OR (of_nat n :: uint8)) AND 0xF8 = 0xF0 \<and> (0xF0 OR (of_nat n :: uint8)) AND 0x07 = of_nat n" by code_simp
  then show "(b :: uint8) < 8 \<Longrightarrow> (0xF0 OR b) AND 0x80 \<noteq> 0 \<and> (0xF0 OR b) AND 0xE0 \<noteq> 0xC0 \<and> (0xF0 OR b) AND 0xF0 \<noteq> 0xE0
     \<and> (0xF0 OR b) AND 0xF8 = 0xF0 \<and> (0xF0 OR b) AND 0x07 = b"
    using below_byte[of b 8] by (metis of_nat_numeral)
qed

lemma value_bits:
  assumes "(v :: uint64) < 2 ^ k" 
  shows "bit v i \<Longrightarrow> i < k"
  using assms by (metis bit_take_bit_iff less_mask_eq take_bit_eq_mask)

lemma ucast_below:
  assumes "(v :: uint64) < of_nat k" "k < 256"
  shows "(ucast v :: uint8) < of_nat k"
proof -
  have "unat v < k"
    using assms by (simp add: word_less_nat_alt unat_of_nat)
  then show ?thesis
    using assms(2) by (simp add: word_less_nat_alt unat_of_nat unsigned_ucast_eq take_bit_eq_mod)
qed

lemma utf8_value:
  fixes v :: uint64
  shows "v < 2 ^ 8 \<Longrightarrow> ucast (ucast v :: uint8) = v"
    and "v < 2 ^ 11 \<Longrightarrow> push_bit 6 (ucast (ucast (drop_bit 6 v) :: uint8)) OR ucast (ucast (v AND 63) :: uint8) = v"
    and "v < 2 ^ 16 \<Longrightarrow> push_bit 12 (ucast (ucast (drop_bit 12 v) :: uint8))
       OR (push_bit 6 (ucast (ucast (drop_bit 6 v AND 63) :: uint8)) OR ucast (ucast (v AND 63) :: uint8)) = v"
    and "v < 2 ^ 21 \<Longrightarrow> push_bit 18 (ucast (ucast (drop_bit 18 v) :: uint8))
       OR (push_bit 6 (push_bit 6 (ucast (ucast (drop_bit 12 v AND 63) :: uint8)) OR ucast (ucast (drop_bit 6 v AND 63) :: uint8))
           OR ucast (ucast (v AND 63) :: uint8)) = v"
proof -
  have m: "(63 :: uint64) = mask 6" by (simp add: mask_eq_exp_minus_1)
  note b = value_bits[of v 8] value_bits[of v 11] value_bits[of v 16] value_bits[of v 21]
  show "ucast (ucast v :: uint8) = v" if "v < 2 ^ 8"
    unfolding m by (rule bit_word_eqI) (auto simp: bit_simps dest: b(1)[OF that])
  show "push_bit 6 (ucast (ucast (drop_bit 6 v) :: uint8)) OR ucast (ucast (v AND 63) :: uint8) = v" if "v < 2 ^ 11"
    unfolding m by (rule bit_word_eqI) (auto simp: bit_simps dest: b(2)[OF that])
  show "push_bit 12 (ucast (ucast (drop_bit 12 v) :: uint8))
       OR (push_bit 6 (ucast (ucast (drop_bit 6 v AND 63) :: uint8)) OR ucast (ucast (v AND 63) :: uint8)) = v" if "v < 2 ^ 16"
    unfolding m
    apply (rule bit_word_eqI)
    subgoal for n by (cases "n < 12") (auto simp: bit_simps dest: b(3)[OF that])
    done
  show "push_bit 18 (ucast (ucast (drop_bit 18 v) :: uint8))
       OR (push_bit 6 (push_bit 6 (ucast (ucast (drop_bit 12 v AND 63) :: uint8)) OR ucast (ucast (drop_bit 6 v AND 63) :: uint8))
           OR ucast (ucast (v AND 63) :: uint8)) = v" if "v < 2 ^ 21"
    unfolding m
    apply (rule bit_word_eqI)
    subgoal for n by (cases "n < 12"; cases "n < 18") (auto simp: bit_simps dest: b(4)[OF that])
    done
qed

lemma drop_below:
  assumes "(v :: uint64) < 2 ^ (k + m)" "m < 64"
  shows "drop_bit k v < 2 ^ m"
proof -
  have "drop_bit k v = drop_bit k v AND mask m"
    by (rule bit_word_eqI) (auto simp: bit_simps dest: value_bits[OF assms(1)])
  also have "\<dots> < 2 ^ m" using assms(2) by (simp add: and_mask_less')
  finally show ?thesis .
qed

lemma and63: "(v AND 63 :: uint64) < 2 ^ 6"
  using and_mask_less'[of 6 v] by (simp add: mask_eq_exp_minus_1)

lemma length_utf8_encode:
  "length (utf8_encode n v) \<le> n" "length (utf8_encode n v) \<le> 4"
  by (auto simp: utf8_encode_def)

lemma utf8_encode_room:
  "length (utf8_encode 4 v) \<le> k \<Longrightarrow> v \<le> 0x1FFFFF \<Longrightarrow> utf8_encode k v = utf8_encode 4 v"
  by (auto simp: utf8_encode_def split: if_splits)

lemma utf8_roundtrip_4:
  assumes "v \<le> 0x1FFFFF"
  shows "utf8_decode (utf8_encode 4 v @ r) = Some (v, length (utf8_encode 4 v))"
proof -
  have b6: "ucast (drop_bit k v AND 63) < (64 :: uint8)" "ucast (v AND 63) < (64 :: uint8)" for k
    using ucast_below[of "_ AND 63" 64] and63 by simp_all
  consider "v \<le> 0x7F" | "\<not> v \<le> 0x7F" "v \<le> 0x7FF" | "\<not> v \<le> 0x7FF" "v \<le> 0xFFFF" | "\<not> v \<le> 0xFFFF"
    by blast
  then show ?thesis
  proof cases
    case 1
    then have v: "v < 2 ^ 7" by (simp add: word_le_nat_alt word_less_nat_alt)
    then have "ucast v < (128 :: uint8)" using ucast_below[of v 128] by simp
    then show ?thesis
      using 1 v utf8_value(1)[of v] by (simp add: utf8_encode_def utf8_decode_def lead_bytes word_less_nat_alt)
  next
    case 2
    then have v: "v < 2 ^ 11" by (simp add: word_le_nat_alt word_less_nat_alt)
    then have "drop_bit 6 v < 2 ^ 5" using drop_below[of v 6 5] by simp
    then have "ucast (drop_bit 6 v) < (32 :: uint8)" using ucast_below[of "drop_bit 6 v" 32] by simp
    then show ?thesis
      using 2 utf8_value(2)[OF v] b6(2)
      by (simp add: utf8_encode_def utf8_decode_def lead_bytes trail_byte)
  next
    case 3
    then have v: "v < 2 ^ 16" by (simp add: word_le_nat_alt word_less_nat_alt)
    then have "drop_bit 12 v < 2 ^ 4" using drop_below[of v 12 4] by simp
    then have "ucast (drop_bit 12 v) < (16 :: uint8)" using ucast_below[of "drop_bit 12 v" 16] by simp
    moreover have "\<not> v \<le> 0x7F" using 3(1) by (simp add: word_le_nat_alt)
    ultimately show ?thesis
      using 3 utf8_value(3)[OF v] b6
      by (simp add: utf8_encode_def utf8_decode_def lead_bytes trail_byte)
  next
    case 4
    have v: "v < 2 ^ 21" using assms by (simp add: word_le_nat_alt word_less_nat_alt)
    then have "drop_bit 18 v < 2 ^ 3" using drop_below[of v 18 3] by simp
    then have "ucast (drop_bit 18 v) < (8 :: uint8)" using ucast_below[of "drop_bit 18 v" 8] by simp
    moreover have "\<not> v \<le> 0x7F" "\<not> v \<le> 0x7FF" using 4 by (simp_all add: word_le_nat_alt)
    ultimately show ?thesis
      using 4 assms utf8_value(4)[OF v] b6
      by (simp add: utf8_encode_def utf8_decode_def lead_bytes trail_byte)
  qed
qed

text \<open>
  UTF-8.  What \<open>utf8_encode\<close> writes fits the buffer, and \<open>utf8_decode\<close> reads the value and the
  length back from it, whatever follows, for every value of up to 21 bits; larger values give nothing.
\<close>

lemma utf8_roundtrip:
  shows "v \<le> 0x1FFFFF \<Longrightarrow> 4 \<le> n \<Longrightarrow> utf8_decode (utf8_encode n v @ r) = Some (v, length (utf8_encode n v))"
    and "length (utf8_encode n v) \<le> n"
    and "\<not> v \<le> 0x1FFFFF \<Longrightarrow> utf8_encode n v = []"
proof -
  show "v \<le> 0x1FFFFF \<Longrightarrow> 4 \<le> n \<Longrightarrow> utf8_decode (utf8_encode n v @ r) = Some (v, length (utf8_encode n v))"
    using utf8_roundtrip_4[of v r] utf8_encode_room[of v n] length_utf8_encode(2)[of 4 v] by simp
  show "length (utf8_encode n v) \<le> n" by (rule length_utf8_encode)
  show "\<not> v \<le> 0x1FFFFF \<Longrightarrow> utf8_encode n v = []"
    by (auto simp: utf8_encode_def word_le_nat_alt)
qed

section \<open>Decimal numbers\<close>

lemma c_value_append: "c_value b (ds @ [d]) = c_value b ds * b + the (c_digit b d)"
  by (simp add: c_value_def)

lemma decimal_digit: "n < 10 \<Longrightarrow> c_digit 10 (of_nat (48 + n)) = Some n"
proof -
  have "\<forall>n \<in> set [0..<10]. c_digit 10 (of_nat (48 + n)) = Some n" by code_simp
  then show "n < 10 \<Longrightarrow> c_digit 10 (of_nat (48 + n)) = Some n" by simp
qed

lemma c_value_decimal: "c_value 10 (decimal n) = n"
proof (induction n rule: decimal.induct)
  case (1 n)
  show ?case
  proof (cases "n < 10")
    case True
    then show ?thesis using decimal_digit[of n] by (simp add: decimal.simps[of n] c_value_def)
  next
    case False
    then show ?thesis
      using 1 decimal_digit[of "n mod 10"] by (simp add: decimal.simps[of n] c_value_append del: of_nat_add)
  qed
qed

lemma decimal_digits: "x \<in> set (decimal n) \<Longrightarrow> is_c_digit 10 x"
proof (induction n rule: decimal.induct)
  case (1 n)
  show ?case
    using 1 decimal_digit[of n] decimal_digit[of "n mod 10"] unfolding decimal.simps[of n]
    by (auto simp: is_c_digit_def simp del: of_nat_add split: if_splits)
qed

lemma decimal_not_Nil [simp]: "decimal n \<noteq> []"
  by (simp add: decimal.simps[of n])

lemma length_decimal: "n < 10 ^ Suc k \<Longrightarrow> length (decimal n) \<le> Suc k"
proof (induction k arbitrary: n)
  case 0
  then show ?case by (simp add: decimal.simps[of n])
next
  case (Suc k)
  then have "n div 10 < 10 ^ Suc k" by (simp add: less_mult_imp_div_less)
  from Suc.IH[OF this] show ?case by (simp add: decimal.simps[of n])
qed

lemma digit_char:
  assumes "is_c_digit 10 x"
  shows "\<not> c_space x" "x \<noteq> 45" "x \<noteq> 43" "x \<noteq> 120" "x \<noteq> 59"
proof -
  have "48 \<le> unat x \<and> unat x \<le> 57"
    using assms by (auto simp: is_c_digit_def c_digit_def word_le_nat_alt Let_def split: if_splits)
  then show "\<not> c_space x" "x \<noteq> 45" "x \<noteq> 43" "x \<noteq> 120" "x \<noteq> 59"
    by (auto simp: c_space_def word_le_nat_alt)
qed

lemma strtoul_decimal:
  assumes "n < 2 ^ 64"
  shows "strtoul 10 (decimal n @ 59 # r) = (of_nat n, 59 # r)"
proof -
  let ?ds = "decimal n"
  have d: "\<And>x. x \<in> set ?ds \<Longrightarrow> is_c_digit 10 x" by (rule decimal_digits)
  have h: "is_c_digit 10 (hd ?ds)" using d[OF hd_in_set] by simp
  have sp: "dropWhile c_space (?ds @ 59 # r) = ?ds @ 59 # r"
    using digit_char(1)[OF h] by (cases ?ds) auto
  have "\<not> is_c_digit 10 59" by code_simp
  then have "takeWhile (is_c_digit 10) (?ds @ 59 # r) = ?ds" using d by simp
  then show ?thesis
    using digit_char[OF h] assms by (simp add: strtoul_def Let_def sp c_value_decimal)
qed

lemma xml_number_decimal:
  "n < 2 ^ 64 \<Longrightarrow> xml_number (decimal n @ 59 # r) = Some (of_nat n, r)"
  using digit_char(4)[OF decimal_digits[OF hd_in_set[OF decimal_not_Nil]], of n]
  by (simp add: xml_number_def strtoul_decimal)

section \<open>Markup\<close>

lemma unsafe_chars: "in_class ch XML_UNSAFE \<longleftrightarrow> ch \<in> {34, 38, 39, 60, 62}"
proof -
  have "\<forall>n \<in> set [0..<128]. ASCII_CLASS ! n AND 2 \<noteq> 0 \<longleftrightarrow> n \<in> {34, 38, 39, 60, 62}" by code_simp
  then show ?thesis
    by (auto simp: in_class_def XML_UNSAFE_def word_less_nat_alt word_unat_eq_iff)
qed

lemma html_unsafe: "in_class ch HTML_UNSAFE \<longleftrightarrow> ch \<in> {34, 38, 39, 60, 62}"
  using unsafe_chars by (simp add: XML_UNSAFE_def HTML_UNSAFE_def)

lemmas entities = lt_seq_def gt_seq_def apos_seq_def quot_seq_def amp_seq_def

lemma xml_decode_piece:
  assumes "length out + 1 < n"
  shows "xml_decode_loop n (xml_piece ch @ s) out = xml_decode_loop n s (out @ [ch])"
proof (cases "in_class ch XML_UNSAFE")
  case True
  then have "ch \<in> {34, 38, 39, 60, 62}" by (simp add: unsafe_chars)
  then show ?thesis
    using assms True by (elim insertE emptyE) (simp_all add: xml_piece_def xml_seq_def entities)
next
  case False
  then have "ch \<noteq> 38" by (auto simp: unsafe_chars)
  then show ?thesis using assms False by (simp add: xml_piece_def)
qed

lemma xml_decode_pieces:
  "length out + length s < n \<Longrightarrow> xml_decode_loop n (concat (map xml_piece s)) out = out @ s"
  by (induction s arbitrary: out) (simp_all add: xml_decode_piece)

text \<open>The piece of a code point in HTML.\<close>

definition html_piece :: "uint64 \<Rightarrow> bytes" where
  "html_piece v =
     (if v < 128 then (if in_class (ucast v) HTML_UNSAFE then html_seq (ucast v) else [ucast v])
      else number_seq v)"

definition utf8_text :: "uint64 list \<Rightarrow> bytes" where
  "utf8_text vs = concat (map (utf8_encode 4) vs)"

lemma xml_number_seq:
  assumes "length out + 1 < n"
  shows "xml_decode_loop n (number_seq v @ s) out =
    (let e = utf8_encode (n - length out) v in if e = [] then out else xml_decode_loop n s (out @ e))"
proof -
  have "unat v < 2 ^ LENGTH(64)" by (rule unsigned_less)
  then have "xml_number (decimal (unat v) @ 59 # s) = Some (v, s)"
    using xml_number_decimal[of "unat v" s] by simp
  then show ?thesis using assms by (simp add: number_seq_def entities Let_def)
qed

lemma utf8_one: "v < 128 \<Longrightarrow> 1 \<le> k \<Longrightarrow> utf8_encode k v = [ucast v]"
  by (simp add: utf8_encode_def word_le_nat_alt word_less_nat_alt)

lemma utf8_more: "\<not> v < 128 \<Longrightarrow> v \<le> 0x1FFFFF \<Longrightarrow> 2 \<le> length (utf8_encode 4 v)"
  by (auto simp: utf8_encode_def word_le_nat_alt word_less_nat_alt)

lemma html_decode_piece:
  assumes "v \<le> 0x1FFFFF" "length out + length (utf8_encode 4 v) < n"
  shows "xml_decode_loop n (html_piece v @ s) out = xml_decode_loop n s (out @ utf8_encode 4 v)"
proof (cases "v < 128")
  case True
  have room: "length out + 1 < n" using assms(2) utf8_one[OF True, of 4] by simp
  show ?thesis
  proof (cases "ucast v = (39 :: uint8)")
    case apos: True
    have "xml_number (51 # 57 # 59 # s) = Some (39, s)"
      using xml_number_decimal[of 39 s] by (simp add: decimal.simps[of 39] decimal.simps[of 3])
    then show ?thesis
      using room True apos utf8_one[of 39 "n - length out"] utf8_one[OF True, of 4]
      by (simp add: html_piece_def html_unsafe html_seq_def entities Let_def)
  next
    case False
    then have "html_piece v = xml_piece (ucast v)"
      using True by (simp add: html_piece_def xml_piece_def html_unsafe unsafe_chars html_seq_def xml_seq_def)
    then show ?thesis using xml_decode_piece[OF room] utf8_one[OF True, of 4] by simp
  qed
next
  case False
  have two: "2 \<le> length (utf8_encode 4 v)" using utf8_more False assms(1) by blast
  have "utf8_encode (n - length out) v = utf8_encode 4 v" using assms by (intro utf8_encode_room) simp_all
  moreover have "utf8_encode 4 v \<noteq> []" using two by auto
  ultimately show ?thesis
    using xml_number_seq[of out n v s] assms(2) False two by (simp add: html_piece_def)
qed

lemma html_decode_pieces:
  "\<forall>v \<in> set vs. v \<le> 0x1FFFFF \<Longrightarrow> length out + length (utf8_text vs) < n \<Longrightarrow>
     xml_decode_loop n (concat (map html_piece vs)) out = out @ utf8_text vs"
  by (induction vs arbitrary: out) (simp_all add: utf8_text_def html_decode_piece)

lemma utf8_lead:
  assumes "\<not> v < 128" "v \<le> 0x1FFFFF"
  obtains c r where "utf8_encode 4 v = c # r" "\<not> c < 128"
proof -
  have "\<not> v \<le> 0x7F" using assms(1) by (simp add: word_le_nat_alt word_less_nat_alt)
  then have "\<exists>w. \<exists>k \<in> {0xC0, 0xE0, 0xF0}. \<exists>r. utf8_encode 4 v = (k OR w) # r"
    using assms(2) by (auto simp: utf8_encode_def)
  then obtain w k r where k: "k \<in> {0xC0, 0xE0, 0xF0}" and e: "utf8_encode 4 v = (k OR w) # r" by blast
  have "128 \<le> k" using k by (elim insertE emptyE) simp_all
  also have "k \<le> k OR w" by (rule le_word_or2)
  finally show thesis using e that by simp
qed

lemma html_emits: "html_encode_loop n (utf8_text vs) out = emit n html_piece vs out" if "\<forall>v \<in> set vs. v \<le> 0x1FFFFF"
  using that
proof (induction vs arbitrary: out)
  case (Cons v vs)
  show ?case
  proof (cases "v < 128")
    case True
    then have "(ucast v :: uint8) < 128"
      using ucast_below[of v 128] by simp
    moreover have "4 \<le> length (html_seq (ucast v))"
      by (auto simp: html_seq_def entities)
    ultimately show ?thesis
      using True Cons utf8_one[OF True, of 4] by (auto simp: utf8_text_def html_piece_def)
  next
    case False
    obtain c r where e: "utf8_encode 4 v = c # r" "\<not> c < 128"
      using utf8_lead[OF False] Cons.prems by auto
    have d: "utf8_decode (c # r @ utf8_text vs) = Some (v, Suc (length r))"
      using utf8_roundtrip_4[of v "utf8_text vs"] e Cons.prems by simp
    have "1 < length (number_seq v)" by (simp add: number_seq_def)
    then show ?thesis
      using False Cons e d by (auto simp: utf8_text_def html_piece_def)
  qed
qed (simp add: utf8_text_def)

lemma html_piece_length: "v \<le> 0x1FFFFF \<Longrightarrow> length (html_piece v) \<le> 10"
proof -
  assume "v \<le> 0x1FFFFF"
  then have "unat v < 10 ^ Suc 6" by (simp add: word_le_nat_alt)
  from length_decimal[OF this] show ?thesis
    by (auto simp: html_piece_def html_seq_def entities number_seq_def)
qed

lemma html_pieces_length:
  "\<forall>v \<in> set vs. v \<le> 0x1FFFFF \<Longrightarrow> length (concat (map html_piece vs)) \<le> 10 * length vs"
  by (induction vs) (auto simp: add_mono html_piece_length)

lemma utf8_text_length: "length (utf8_text vs) \<le> 4 * length vs"
  by (induction vs) (auto simp: utf8_text_def add_mono length_utf8_encode)

lemma xml_piece_text: "x \<in> set (xml_piece ch) \<Longrightarrow> x \<notin> {34, 39, 60, 62}"
  by (auto simp: xml_piece_def unsafe_chars xml_seq_def entities split: if_splits)

lemma markup_coded:
  shows "x \<in> set (xml_encode n s) \<Longrightarrow> x \<notin> {34, 39, 60, 62}"
    and "6 * length s < n \<Longrightarrow> length s < m \<Longrightarrow> xml_decode m (xml_encode n s) = Some s"
    and "\<forall>v \<in> set vs. v \<le> 0x1FFFFF \<Longrightarrow> 10 * length vs < n \<Longrightarrow> 4 * length vs < m \<Longrightarrow>
           html_decode m (html_encode n (utf8_text vs)) = Some (utf8_text vs)"
proof -
  show "x \<in> set (xml_encode n s) \<Longrightarrow> x \<notin> {34, 39, 60, 62}"
    using emit_prefix[of n xml_piece s "[]"]
    by (auto simp: xml_encode_def encoders_emit dest!: xml_piece_text split: if_splits)
  have "length (xml_piece ch) \<le> 6" for ch
    using length_xml_seq[of ch] by (simp add: xml_piece_def)
  then show "6 * length s < n \<Longrightarrow> length s < m \<Longrightarrow> xml_decode m (xml_encode n s) = Some s"
    using xml_decode_pieces[of "[]" s m]
    by (simp add: xml_encode_def xml_decode_def encoders_emit emit_all[of xml_piece 6])
  assume v: "\<forall>v \<in> set vs. v \<le> 0x1FFFFF" and n: "10 * length vs < n" and m: "4 * length vs < m"
  have "html_encode n (utf8_text vs) = concat (map html_piece vs)"
    using html_emits[OF v, of n "[]"] emit_room[of "[]" html_piece vs n] html_pieces_length[OF v] n
    by (simp add: html_encode_def)
  then show "html_decode m (html_encode n (utf8_text vs)) = Some (utf8_text vs)"
    using html_decode_pieces[OF v, of "[]" m] utf8_text_length[of vs] m
    by (simp add: html_decode_def xml_decode_def)
qed

text \<open>
  C26.  XML and HTML.  The encoding of any text has no quotes and no angle brackets, whatever the size
  of the buffer, and decoding gives the text back when the buffers are large enough.  For HTML the
  same holds of the UTF-8 text of any code points.
\<close>

theorem markup_roundtrip:
  assumes "6 * length s < n" "length s < m"
    and "\<forall>v \<in> set vs. v \<le> 0x1FFFFF" "10 * length vs < n" "4 * length vs < m"
  shows "xml_decode m (xml_encode n s) = Some s
    \<and> html_decode m (html_encode n (utf8_text vs)) = Some (utf8_text vs)
    \<and> set (xml_encode j s) \<inter> {34, 39, 60, 62} = {}"
  using assms markup_coded(1)[of _ j s] markup_coded(2)[of s n m] markup_coded(3)[of vs n m] by blast

theorem markup_roundtrip_witness:
  "xml_decode 9 (xml_encode 30 [60, 97, 38]) = Some [60, 97, 38]
   \<and> html_decode 9 (html_encode 30 (utf8_text [60, 0x20AC])) = Some (utf8_text [60, 0x20AC])"
  using markup_roundtrip[of "[60, 97, 38]" 30 9 "[60, 0x20AC]" 0] by simp

lemma plain_decodes:
  "38 \<notin> set s \<Longrightarrow> length out + length s < n \<Longrightarrow> xml_decode_loop n (s @ r) out = xml_decode_loop n r (out @ s)"
  by (induction s arbitrary: out) auto

text \<open>
  C40.  The terminating zero of \<open>xml_decode\<close>.  A numeric escape of a value that takes several bytes may
  fill the buffer to its last byte: the loop asks for one free byte besides the zero, \<open>utf8_encode\<close> for the length
  of its own output only.  The zero is then written behind the buffer, after any plain text.
\<close>

theorem xml_decode_overruns:
  assumes "38 \<notin> set s" "\<not> v < 128" "v \<le> 0x1FFFFF"
  shows "xml_decode (length s + length (utf8_encode 4 v)) (s @ number_seq v) = None"
proof -
  let ?n = "length s + length (utf8_encode 4 v)"
  have two: "2 \<le> length (utf8_encode 4 v)" by (rule utf8_more[OF assms(2,3)])
  have e: "utf8_encode (?n - length s) v = utf8_encode 4 v" using assms(3) by (simp add: utf8_encode_room)
  moreover have ne: "utf8_encode 4 v \<noteq> []" using two by auto
  ultimately have "xml_decode_loop ?n (number_seq v) s = s @ utf8_encode 4 v"
    using xml_number_seq[of s ?n v "[]"] two by (simp add: Let_def)
  moreover have "xml_decode_loop ?n (s @ number_seq v) [] = xml_decode_loop ?n (number_seq v) s"
    using plain_decodes[of s "[]" ?n "number_seq v"] assms(1) ne by simp
  ultimately show ?thesis using ne by (simp add: xml_decode_def Let_def)
qed

theorem xml_decode_overruns_witness: "xml_decode 3 [120, 38, 35, 50, 51, 51, 59] = None"
  using xml_decode_overruns[of "[120]" 233]
  by (simp add: utf8_encode_def number_seq_def decimal.simps[of 233] decimal.simps[of 23] decimal.simps[of 2]
      numeral_3_eq_3)

section \<open>Fields\<close>

text \<open>Fields with a delimiter between them.\<close>

fun join :: "uint8 \<Rightarrow> bytes list \<Rightarrow> bytes" where
  "join d [] = []"
| "join d [f] = f"
| "join d (f # fs) = f @ d # join d fs"

lemma split_loop_not_Nil [simp]: "split_loop d s cur \<noteq> []"
  by (induction d s cur rule: split_loop.induct) auto

lemma split_loop_join: "join d (split_loop d s cur) = cur @ s"
proof (induction d s cur rule: split_loop.induct)
  case (2 d c s cur)
  then show ?case by (cases "split_loop d s []") auto
qed simp

lemma split_loop_fields: "d \<notin> set cur \<Longrightarrow> f \<in> set (split_loop d s cur) \<Longrightarrow> d \<notin> set f"
  by (induction d s cur rule: split_loop.induct) (auto split: if_splits)

lemma tokenize_loop_split: "tokenize_loop d s cur = filter (\<lambda>f. f \<noteq> []) (split_loop d s cur)"
  by (induction d s cur rule: tokenize_loop.induct) auto

lemma split_loop_append: "d \<notin> set f \<Longrightarrow> split_loop d (f @ s) cur = split_loop d s (cur @ f)"
  by (induction f arbitrary: cur) auto

lemma split_join: "fs \<noteq> [] \<Longrightarrow> \<forall>f \<in> set fs. d \<notin> set f \<Longrightarrow> split_fields (join d fs) d = fs"
proof (induction d fs rule: join.induct)
  case (2 d f)
  then show ?case using split_loop_append[of d f "[]" "[]"] by (simp add: split_fields_def)
next
  case (3 d f g fs)
  then show ?case using split_loop_append[of d f _ "[]"] by (simp add: split_fields_def)
qed simp

text \<open>
  Fields.  \<open>split\<close> is the inverse of joining with the delimiter: its fields hold no delimiter, are never
  none and joined give the source; and fields without delimiters come back from their joining.
  \<open>tokenize\<close> gives the non-empty fields of \<open>split\<close>.
\<close>

lemma fields_of_split:
  shows "join d (split_fields s d) = s"
    and "\<forall>f \<in> set (split_fields s d). d \<notin> set f"
    and "fs \<noteq> [] \<Longrightarrow> \<forall>f \<in> set fs. d \<notin> set f \<Longrightarrow> split_fields (join d fs) d = fs"
    and "tokenize s d = filter (\<lambda>f. f \<noteq> []) (split_fields s d)"
  using split_loop_join[of d s "[]"] split_loop_fields[of d "[]" _ s] split_join[of fs d]
    tokenize_loop_split[of d s "[]"]
  by (auto simp: split_fields_def tokenize_def)

text \<open>
  \<open>tokenize\<close> with marks loses the character in front of the start mark: with a space as delimiter
  and quotes as marks, \<open>ab\<close> followed directly by a quoted \<open>c\<close> gives \<open>a\<close> and \<open>c\<close>.
\<close>

lemma tokenize_marks_drops: "tokenize_marks [97, 98, 34, 99, 34] 32 34 34 = [[97], [99]]"
  by (simp add: tokenize_marks_def tokenize_marks_loop.simps tokenize_append_def tokenize_def)

end
