(* ===== verification/Fifo.thy ===== *)
theory Fifo
  imports Prelude
begin

text \<open>
  \<^verbatim>\<open>FifoBuffer\<close> of \<^verbatim>\<open>base/stream.cc\<close>: a ring buffer of fixed capacity that also reads and
  writes at an offset, which is how \<^verbatim>\<open>PseudoTcp\<close> retransmits from its send buffer and
  stores segments that arrive early in its receive buffer.  The record has the members of
  the class; \<open>fb_events\<close> lists the events posted to the owner thread.  \<open>None\<close> is a failed
  \<^verbatim>\<open>ASSERT\<close> or a division by a zero capacity.  The critical section makes every operation
  atomic, so each is one function of the state.

  Slot \<open>i\<close> is the byte \<open>i\<close> places after the read position: the first \<open>fb_data_length\<close>
  slots are the content, the rest is room that \<^verbatim>\<open>WriteOffset\<close> may already have filled.
  \<open>byte_fifo\<close> is the contract in terms of slots.
\<close>

datatype stream_state = SS_CLOSED | SS_OPENING | SS_OPEN
datatype stream_result = SR_ERROR | SR_SUCCESS | SR_BLOCK | SR_EOS
datatype stream_event = SE_OPEN | SE_READ | SE_WRITE | SE_CLOSE

record fifo =
  fb_state :: stream_state
  fb_buffer :: bytes
  fb_buffer_length :: nat
  fb_data_length :: nat
  fb_read_position :: nat
  fb_events :: "stream_event list"

definition fifo_new :: "nat \<Rightarrow> fifo" where
  "fifo_new sz = \<lparr>fb_state = SS_OPEN, fb_buffer = replicate sz 0, fb_buffer_length = sz,
     fb_data_length = 0, fb_read_position = 0, fb_events = []\<rparr>"

definition post_event :: "fifo \<Rightarrow> stream_event \<Rightarrow> fifo" where
  "post_event f e = f\<lparr>fb_events := fb_events f @ [e]\<rparr>"

text \<open>The two \<^verbatim>\<open>memcpy\<close> calls on either side of the wrap.\<close>

definition ring_read :: "bytes \<Rightarrow> nat \<Rightarrow> nat \<Rightarrow> nat \<Rightarrow> bytes" where
  "ring_read buf cap position copy =
     (let tail_copy = min copy (cap - position)
      in mem_read buf position tail_copy @ mem_read buf 0 (copy - tail_copy))"

definition ring_write :: "bytes \<Rightarrow> nat \<Rightarrow> nat \<Rightarrow> bytes \<Rightarrow> nat \<Rightarrow> bytes" where
  "ring_write buf cap position p copy =
     (let tail_copy = min copy (cap - position)
      in mem_write (mem_write buf position (mem_read p 0 tail_copy)) 0
           (mem_read p tail_copy (copy - tail_copy)))"

definition GetBuffered :: "fifo \<Rightarrow> nat" where
  "GetBuffered f = fb_data_length f"

definition GetWriteRemaining :: "fifo \<Rightarrow> nat" where
  "GetWriteRemaining f = fb_buffer_length f - fb_data_length f"

definition SetCapacity :: "fifo \<Rightarrow> nat \<Rightarrow> bool \<times> fifo" where
  "SetCapacity f sz =
     (if fb_data_length f > sz then (False, f)
      else if sz \<noteq> fb_buffer_length f then
        (let copy = fb_data_length f;
             buffer = mem_write (replicate sz 0) 0
               (ring_read (fb_buffer f) (fb_buffer_length f) (fb_read_position f) copy)
         in (True, f\<lparr>fb_buffer := buffer, fb_read_position := 0, fb_buffer_length := sz\<rparr>))
      else (True, f))"

text \<open>\<^verbatim>\<open>ReadOffsetLocked\<close> returns the bytes it copied; \<^verbatim>\<open>WriteOffsetLocked\<close> their number
  and the buffer.\<close>

definition ReadOffset :: "fifo \<Rightarrow> nat \<Rightarrow> nat \<Rightarrow> stream_result \<times> bytes" where
  "ReadOffset f bytes offset =
     (if offset \<ge> fb_data_length f
      then (if fb_state f \<noteq> SS_CLOSED then SR_BLOCK else SR_EOS, [])
      else
        let available = fb_data_length f - offset;
            read_position = (fb_read_position f + offset) mod fb_buffer_length f;
            copy = min bytes available
        in (SR_SUCCESS, ring_read (fb_buffer f) (fb_buffer_length f) read_position copy))"

definition WriteOffset :: "fifo \<Rightarrow> bytes \<Rightarrow> nat \<Rightarrow> stream_result \<times> nat \<times> fifo" where
  "WriteOffset f bytes offset =
     (if fb_state f = SS_CLOSED then (SR_EOS, 0, f)
      else if fb_data_length f + offset \<ge> fb_buffer_length f then (SR_BLOCK, 0, f)
      else
        let available = fb_buffer_length f - fb_data_length f - offset;
            write_position =
              (fb_read_position f + fb_data_length f + offset) mod fb_buffer_length f;
            copy = min (length bytes) available
        in (SR_SUCCESS, copy, f\<lparr>fb_buffer :=
              ring_write (fb_buffer f) (fb_buffer_length f) write_position bytes copy\<rparr>))"

definition Read :: "fifo \<Rightarrow> nat \<Rightarrow> stream_result \<times> bytes \<times> fifo" where
  "Read f bytes =
     (let was_writable = fb_data_length f < fb_buffer_length f;
          (result, data) = ReadOffset f bytes 0;
          copy = length data
      in if result = SR_SUCCESS then
           (let f1 = f\<lparr>fb_read_position := (fb_read_position f + copy) mod fb_buffer_length f,
                       fb_data_length := fb_data_length f - copy\<rparr>
            in (result, data, if \<not> was_writable \<and> copy > 0 then post_event f1 SE_WRITE else f1))
         else (result, data, f))"

definition Write :: "fifo \<Rightarrow> bytes \<Rightarrow> stream_result \<times> nat \<times> fifo" where
  "Write f bytes =
     (let was_readable = fb_data_length f > 0;
          (result, copy, f1) = WriteOffset f bytes 0
      in if result = SR_SUCCESS then
           (let f2 = f1\<lparr>fb_data_length := fb_data_length f1 + copy\<rparr>
            in (result, copy, if \<not> was_readable \<and> copy > 0 then post_event f2 SE_READ else f2))
         else (result, copy, f1))"

definition fifo_close :: "fifo \<Rightarrow> fifo" where
  "fifo_close f = f\<lparr>fb_state := SS_CLOSED\<rparr>"

text \<open>\<^verbatim>\<open>GetReadData\<close> and \<^verbatim>\<open>GetWriteBuffer\<close> hand out a pointer into the array: its index, and
  the number of contiguous bytes behind it.\<close>

definition GetReadData :: "fifo \<Rightarrow> nat \<times> nat" where
  "GetReadData f =
     (fb_read_position f,
      if fb_read_position f + fb_data_length f \<le> fb_buffer_length f then fb_data_length f
      else fb_buffer_length f - fb_read_position f)"

definition ConsumeReadData :: "fifo \<Rightarrow> nat \<Rightarrow> fifo option" where
  "ConsumeReadData f sz =
     (if \<not> sz \<le> fb_data_length f \<or> fb_buffer_length f = 0 then None
      else
        let was_writable = fb_data_length f < fb_buffer_length f;
            f1 = f\<lparr>fb_read_position := (fb_read_position f + sz) mod fb_buffer_length f,
                   fb_data_length := fb_data_length f - sz\<rparr>
        in Some (if \<not> was_writable \<and> sz > 0 then post_event f1 SE_WRITE else f1))"

definition GetWriteBuffer :: "fifo \<Rightarrow> ((nat \<times> nat) \<times> fifo) option" where
  "GetWriteBuffer f =
     (if fb_state f = SS_CLOSED \<or> fb_buffer_length f = 0 then None
      else
        let f1 = (if fb_data_length f = 0 then f\<lparr>fb_read_position := 0\<rparr> else f);
            write_position = (fb_read_position f1 + fb_data_length f1) mod fb_buffer_length f1;
            sz = (if write_position > fb_read_position f1 \<or> fb_data_length f1 = 0
                  then fb_buffer_length f1 - write_position
                  else fb_read_position f1 - write_position)
        in Some ((write_position, sz), f1))"

definition ConsumeWriteBuffer :: "fifo \<Rightarrow> nat \<Rightarrow> fifo option" where
  "ConsumeWriteBuffer f sz =
     (if \<not> sz \<le> fb_buffer_length f - fb_data_length f then None
      else
        let was_readable = fb_data_length f > 0;
            f1 = f\<lparr>fb_data_length := fb_data_length f + sz\<rparr>
        in Some (if \<not> was_readable \<and> sz > 0 then post_event f1 SE_READ else f1))"

section \<open>Invariant, slots and content\<close>

definition fifo_inv :: "fifo \<Rightarrow> bool" where
  "fifo_inv f \<longleftrightarrow> 0 < fb_buffer_length f \<and> length (fb_buffer f) = fb_buffer_length f
     \<and> fb_read_position f < fb_buffer_length f \<and> fb_data_length f \<le> fb_buffer_length f"

definition fifo_slot :: "fifo \<Rightarrow> nat \<Rightarrow> uint8" where
  "fifo_slot f i = fb_buffer f ! ((fb_read_position f + i) mod fb_buffer_length f)"

definition fifo_data :: "fifo \<Rightarrow> bytes" where
  "fifo_data f = map (fifo_slot f) [0..<fb_data_length f]"

lemma length_fifo_data [simp]: "length (fifo_data f) = fb_data_length f"
  by (simp add: fifo_data_def)

lemma nth_fifo_data: "i < fb_data_length f \<Longrightarrow> fifo_data f ! i = fifo_slot f i"
  by (simp add: fifo_data_def)

subsection \<open>The ring\<close>

lemma ring_index_cases:
  "(p :: nat) < cap \<Longrightarrow> k < cap \<Longrightarrow> (p + k) mod cap = (if p + k < cap then p + k else p + k - cap)"
  by (simp add: mod_if)

lemma nth_ring_read:
  assumes "p < cap" "length buf = cap" "n \<le> cap" "j < n"
  shows "ring_read buf cap p n ! j = buf ! ((p + j) mod cap)"
proof (cases "j < min n (cap - p)")
  case True
  with assms show ?thesis
    by (simp add: ring_read_def Let_def nth_append nth_mem_read)
next
  case False
  with assms have "p + j - cap = j - (cap - p)" "\<not> p + j < cap" "j < cap"
    by auto
  with assms False show ?thesis
    by (simp add: ring_read_def Let_def nth_append nth_mem_read ring_index_cases)
qed

lemma length_ring_read:
  assumes "p < cap" "length buf = cap" "n \<le> cap"
  shows "length (ring_read buf cap p n) = n"
  using assms by (auto simp: ring_read_def Let_def min_def)

text \<open>A write either fits before the end of the array or is split there.\<close>

lemma ring_write_fits:
  assumes "n \<le> cap - p"
  shows "ring_write buf cap p v n = mem_write buf p (mem_read v 0 n)"
  using assms by (simp add: ring_write_def Let_def min_absorb1)

lemma ring_write_wraps:
  assumes "cap - p \<le> n"
  shows "ring_write buf cap p v n =
    mem_write (mem_write buf p (mem_read v 0 (cap - p))) 0 (mem_read v (cap - p) (n - (cap - p)))"
  using assms by (simp add: ring_write_def Let_def min_absorb2)

lemma length_ring_write:
  assumes "p < cap" "length buf = cap" "n \<le> cap" "n \<le> length v"
  shows "length (ring_write buf cap p v n) = cap"
proof (cases "n \<le> cap - p")
  case True
  with assms show ?thesis by (simp add: ring_write_fits)
next
  case False
  with assms show ?thesis by (simp add: ring_write_wraps)
qed

lemma nth_ring_write:
  assumes "p < cap" "length buf = cap" "n \<le> cap" "n \<le> length v" "k < cap"
  shows "ring_write buf cap p v n ! ((p + k) mod cap)
    = (if k < n then v ! k else buf ! ((p + k) mod cap))"
proof (cases "n \<le> cap - p")
  case True
  with assms show ?thesis
    by (auto simp: ring_write_fits ring_index_cases nth_mem_write nth_mem_read)
next
  case False
  define t where "t = cap - p"
  have t: "t < n" "t \<le> cap" "p + t = cap" using False assms by (auto simp: t_def)
  have b1: "length (mem_write buf p (mem_read v 0 t)) = cap" using assms t by simp
  have "mem_write (mem_write buf p (mem_read v 0 t)) 0 (mem_read v t (n - t)) ! i
     = (if i < n - t then v ! (t + i) else if p \<le> i then v ! (i - p) else buf ! i)"
    if "i < cap" for i
    using that b1 assms t by (auto simp: nth_mem_write nth_mem_read)
  moreover have "(p + k) mod cap < cap" using assms by simp
  moreover have "n - t \<le> p" "t + (p + k) - cap = k" using assms t by simp_all
  ultimately show ?thesis
    using False assms t
    by (auto simp: ring_write_wraps t_def [symmetric] ring_index_cases)
qed

subsection \<open>The operations in terms of slots\<close>

text \<open>\<open>fifo_room f\<close> is the number of bytes that still fit.\<close>

lemma ring_read_slots:
  assumes "fifo_inv f" "off + n \<le> fb_buffer_length f"  "off < fb_buffer_length f"
  shows "ring_read (fb_buffer f) (fb_buffer_length f)
      ((fb_read_position f + off) mod fb_buffer_length f) n = map (fifo_slot f) [off..<off + n]"
proof (rule list_eq_nthI)
  have pos: "(fb_read_position f + off) mod fb_buffer_length f < fb_buffer_length f"
    using assms by (simp add: fifo_inv_def)
  show "length (ring_read (fb_buffer f) (fb_buffer_length f)
      ((fb_read_position f + off) mod fb_buffer_length f) n) = length (map (fifo_slot f) [off..<off + n])"
    using assms pos by (simp add: length_ring_read fifo_inv_def)
  fix i assume "i < length (map (fifo_slot f) [off..<off + n])"
  then show "ring_read (fb_buffer f) (fb_buffer_length f)
      ((fb_read_position f + off) mod fb_buffer_length f) n ! i = map (fifo_slot f) [off..<off + n] ! i"
    using assms pos by (simp add: nth_ring_read fifo_inv_def fifo_slot_def mod_simps add.assoc)
qed

lemma ReadOffset_data:
  assumes "fifo_inv f" "off < fb_data_length f"
  shows "ReadOffset f n off = (SR_SUCCESS, take n (drop off (fifo_data f)))"
proof -
  have "map (fifo_slot f) [off..<off + min n (fb_data_length f - off)]
      = take n (drop off (fifo_data f))"
    using assms by (auto simp: fifo_data_def intro!: list_eq_nthI)
  moreover have "off + min n (fb_data_length f - off) \<le> fb_buffer_length f"
    "off < fb_buffer_length f"
    using assms by (auto simp: fifo_inv_def)
  ultimately show ?thesis
    using assms ring_read_slots [of f off "min n (fb_data_length f - off)"]
    by (simp add: ReadOffset_def Let_def)
qed

lemma ReadOffset_block: "fb_data_length f \<le> off \<Longrightarrow> fst (ReadOffset f n off) \<noteq> SR_SUCCESS"
  by (simp add: ReadOffset_def)

text \<open>Slot \<open>i\<close> seen from the position of slot \<open>off\<close>.\<close>

definition ring_distance :: "nat \<Rightarrow> nat \<Rightarrow> nat \<Rightarrow> nat" where
  "ring_distance cap off i = (if off \<le> i then i - off else i + cap - off)"

lemma ring_distance_shift:
  assumes "off < cap" "i < cap"
  shows "((p + off) mod cap + ring_distance cap off i) mod cap = (p + i) mod cap"
proof -
  have "off + ring_distance cap off i = i \<or> off + ring_distance cap off i = i + cap"
    using assms by (auto simp: ring_distance_def)
  moreover have "(p + (i + cap)) mod cap = (p + i) mod cap"
    by (simp only: add.assoc [symmetric] mod_add_self2)
  ultimately have "(p + (off + ring_distance cap off i)) mod cap = (p + i) mod cap"
    by auto
  then show ?thesis by (simp add: mod_add_left_eq add.assoc)
qed

lemma ring_distance_less: "off < cap \<Longrightarrow> i < cap \<Longrightarrow> ring_distance cap off i < cap"
  by (auto simp: ring_distance_def)

lemma WriteOffset_slots:
  assumes "fifo_inv f" "fb_state f \<noteq> SS_CLOSED" "fb_data_length f + off < fb_buffer_length f"
    and w: "WriteOffset f v off = (res, n, f')"
  shows "res = SR_SUCCESS \<and> n = min (length v) (fb_buffer_length f - fb_data_length f - off)
    \<and> fifo_inv f' \<and> fb_buffer_length f' = fb_buffer_length f
    \<and> fb_data_length f' = fb_data_length f \<and> fb_state f' = fb_state f
    \<and> (\<forall>i < fb_buffer_length f. fifo_slot f' i =
         (if fb_data_length f + off \<le> i \<and> i < fb_data_length f + off + n
          then v ! (i - (fb_data_length f + off)) else fifo_slot f i))"
proof -
  define cap where "cap = fb_buffer_length f"
  define o' where "o' = fb_data_length f + off"
  define wp where "wp = (fb_read_position f + o') mod cap"
  define m where "m = min (length v) (cap - o')"
  have f': "res = SR_SUCCESS" "n = m" "f' = f\<lparr>fb_buffer := ring_write (fb_buffer f) cap wp v m\<rparr>"
    using assms by (auto simp: WriteOffset_def Let_def m_def wp_def o'_def cap_def add.assoc)
  have b: "wp < cap" "length (fb_buffer f) = cap" "m \<le> cap" "m \<le> length v" "o' < cap"
    using assms by (auto simp: wp_def m_def cap_def o'_def fifo_inv_def)
  have "fifo_slot f' i = (if o' \<le> i \<and> i < o' + m then v ! (i - o') else fifo_slot f i)"
    if "i < cap" for i
  proof -
    define k where "k = ring_distance cap o' i"
    have k: "k < cap" "(wp + k) mod cap = (fb_read_position f + i) mod cap"
      using ring_distance_less [OF b(5) that] ring_distance_shift [OF b(5) that]
      by (simp_all add: k_def wp_def)
    have "fifo_slot f' i = (if k < m then v ! k else fifo_slot f i)"
      using nth_ring_write [OF b(1-4) k(1)] by (simp add: fifo_slot_def f' cap_def [symmetric] k(2))
    moreover have "k < m \<longleftrightarrow> o' \<le> i \<and> i < o' + m" "o' \<le> i \<Longrightarrow> k = i - o'"
      using that b(5) by (auto simp: k_def ring_distance_def m_def)
    ultimately show ?thesis by simp
  qed
  moreover have "fifo_inv f'"
    using assms(1) length_ring_write [OF b(1-4)] by (simp add: fifo_inv_def f' cap_def)
  ultimately show ?thesis by (simp add: f' cap_def o'_def m_def)
qed

lemma ConsumeWriteBuffer_Some: "n \<le> GetWriteRemaining f \<Longrightarrow> \<exists>f'. ConsumeWriteBuffer f n = Some f'"
  by (simp add: ConsumeWriteBuffer_def GetWriteRemaining_def Let_def)

lemma ConsumeWriteBuffer_slots:
  assumes "fifo_inv f" "ConsumeWriteBuffer f n = Some f'"
  shows "n \<le> GetWriteRemaining f \<and> fifo_inv f' \<and> fb_buffer_length f' = fb_buffer_length f
    \<and> fb_data_length f' = fb_data_length f + n \<and> fb_state f' = fb_state f
    \<and> fifo_slot f' = fifo_slot f"
  using assms
  by (auto simp: ConsumeWriteBuffer_def GetWriteRemaining_def fifo_inv_def Let_def post_event_def
      fifo_slot_def fun_eq_iff split: if_splits)

lemma ConsumeReadData_Some:
  "fifo_inv f \<Longrightarrow> n \<le> fb_data_length f \<Longrightarrow> \<exists>f'. ConsumeReadData f n = Some f'"
  by (simp add: ConsumeReadData_def fifo_inv_def Let_def)

lemma ConsumeReadData_slots:
  assumes "fifo_inv f" "ConsumeReadData f n = Some f'"
  shows "n \<le> fb_data_length f \<and> fifo_inv f' \<and> fb_buffer_length f' = fb_buffer_length f
    \<and> fb_data_length f' = fb_data_length f - n \<and> fb_state f' = fb_state f
    \<and> fifo_slot f' = (\<lambda>i. fifo_slot f (i + n))"
  using assms
  by (auto simp: ConsumeReadData_def fifo_inv_def Let_def post_event_def fifo_slot_def
      fun_eq_iff mod_add_left_eq mod_add_right_eq ac_simps split: if_splits)

section \<open>The contract of an offset queue\<close>

text \<open>
  What \<^verbatim>\<open>PseudoTcp\<close> relies on.  \<open>agrees f S R\<close> says that the slots of \<open>f\<close> hold the stream
  \<open>S\<close>, whose position 0 is the read position: everywhere in the content, and at the
  positions of \<open>R\<close> behind it that offset writes have filled in advance.  The three
  lemmas of the locale are the reassembly argument: filling a hole, taking filled room
  into the content, and reading move \<open>S\<close> and \<open>R\<close> along and nothing else.
\<close>

locale offset_queue =
  fixes inv :: "'q \<Rightarrow> bool"
    and cap :: "'q \<Rightarrow> nat"
    and len :: "'q \<Rightarrow> nat"
    and slot :: "'q \<Rightarrow> nat \<Rightarrow> 'a"
    and open_q :: "'q \<Rightarrow> bool"
    and put_at :: "'q \<Rightarrow> 'a list \<Rightarrow> nat \<Rightarrow> 'q"
    and commit :: "'q \<Rightarrow> nat \<Rightarrow> 'q option"
    and discard :: "'q \<Rightarrow> nat \<Rightarrow> 'q option"
  assumes len_cap: "inv q \<Longrightarrow> len q \<le> cap q"
    and put_at_inv: "inv q \<Longrightarrow> open_q q \<Longrightarrow> inv (put_at q v off)"
    and put_at_same: "inv q \<Longrightarrow> open_q q \<Longrightarrow> cap (put_at q v off) = cap q
      \<and> len (put_at q v off) = len q \<and> open_q (put_at q v off)"
    and put_at_slot: "inv q \<Longrightarrow> open_q q \<Longrightarrow> i < cap q \<Longrightarrow> slot (put_at q v off) i =
      (if len q + off \<le> i \<and> i < len q + off + length v then v ! (i - (len q + off)) else slot q i)"
    and commit_ok: "inv q \<Longrightarrow> n \<le> cap q - len q \<Longrightarrow> \<exists>q'. commit q n = Some q'"
    and commit_same: "inv q \<Longrightarrow> commit q n = Some q' \<Longrightarrow> inv q' \<and> cap q' = cap q
      \<and> len q' = len q + n \<and> open_q q' = open_q q \<and> slot q' = slot q"
    and discard_ok: "inv q \<Longrightarrow> n \<le> len q \<Longrightarrow> \<exists>q'. discard q n = Some q'"
    and discard_same: "inv q \<Longrightarrow> discard q n = Some q' \<Longrightarrow> inv q' \<and> cap q' = cap q
      \<and> len q' = len q - n \<and> open_q q' = open_q q \<and> slot q' = (\<lambda>i. slot q (i + n))"
begin

definition agrees :: "'q \<Rightarrow> (nat \<Rightarrow> 'a) \<Rightarrow> nat set \<Rightarrow> bool" where
  "agrees q S R \<longleftrightarrow> inv q \<and> open_q q \<and> (\<forall>i < cap q. i < len q \<or> i \<in> R \<longrightarrow> slot q i = S i)"

lemma agrees_put_at:
  assumes "agrees q S R" and "\<forall>j < length v. v ! j = S (len q + off + j)"
  shows "agrees (put_at q v off) S (R \<union> {len q + off ..< len q + off + length v})"
  using assms put_at_inv [of q v off] put_at_same [of q v off]
  by (auto simp: agrees_def put_at_slot)

lemma agrees_commit:
  assumes "agrees q S R" and "{len q ..< len q + n} \<subseteq> R" and "commit q n = Some q'"
  shows "agrees q' S R"
proof -
  have "i < len q \<or> i \<in> R" if "i < len q + n" for i
    using assms(2) that by (cases "i < len q") auto
  then show ?thesis
    using assms commit_same [of q n q'] by (auto simp: agrees_def)
qed

lemma agrees_discard:
  assumes "agrees q S R" and "n \<le> len q" and "discard q n = Some q'"
  shows "agrees q' (\<lambda>i. S (i + n)) {i. i + n \<in> R \<and> i + n < cap q}"
  using assms discard_same [of q n q'] len_cap [of q] by (auto simp: agrees_def)

end

definition fifo_open :: "fifo \<Rightarrow> bool" where
  "fifo_open f \<longleftrightarrow> fb_state f \<noteq> SS_CLOSED"

definition fifo_put_at :: "fifo \<Rightarrow> bytes \<Rightarrow> nat \<Rightarrow> fifo" where
  "fifo_put_at f v off = snd (snd (WriteOffset f v off))"

lemma fifo_put_at_slots:
  assumes "fifo_inv f" "fifo_open f"
  shows "fifo_inv (fifo_put_at f v off)
    \<and> fb_buffer_length (fifo_put_at f v off) = fb_buffer_length f
    \<and> fb_data_length (fifo_put_at f v off) = fb_data_length f
    \<and> fifo_open (fifo_put_at f v off)
    \<and> (\<forall>i < fb_buffer_length f. fifo_slot (fifo_put_at f v off) i =
      (if fb_data_length f + off \<le> i \<and> i < fb_data_length f + off + length v
       then v ! (i - (fb_data_length f + off)) else fifo_slot f i))"
proof (cases "fb_data_length f + off < fb_buffer_length f")
  case True
  obtain res n f' where w: "WriteOffset f v off = (res, n, f')" by (metis prod_cases3)
  from WriteOffset_slots [OF assms(1) _ True w] assms(2) w show ?thesis
    by (auto simp: fifo_put_at_def fifo_open_def)
next
  case False
  with assms show ?thesis by (auto simp: fifo_put_at_def WriteOffset_def fifo_open_def)
qed

lemma fifo_inv_le: "fifo_inv f \<Longrightarrow> fb_data_length f \<le> fb_buffer_length f"
  by (simp add: fifo_inv_def)

lemma fifo_open_consume:
  "ConsumeWriteBuffer f n = Some f' \<Longrightarrow> fifo_open f' = fifo_open f"
  "ConsumeReadData f n = Some f' \<Longrightarrow> fifo_open f' = fifo_open f"
  by (auto simp: fifo_open_def ConsumeWriteBuffer_def ConsumeReadData_def Let_def post_event_def
      split: if_splits)

interpretation fq: offset_queue fifo_inv fb_buffer_length fb_data_length fifo_slot fifo_open
    fifo_put_at ConsumeWriteBuffer ConsumeReadData
  by unfold_locales
     (auto simp: fifo_put_at_slots fifo_inv_le GetWriteRemaining_def fifo_open_consume
       dest: ConsumeWriteBuffer_slots ConsumeReadData_slots
       intro!: ConsumeWriteBuffer_Some ConsumeReadData_Some)

section \<open>Queue behaviour\<close>

text \<open>\<^verbatim>\<open>Write\<close> appends as much as fits and \<^verbatim>\<open>Read\<close> takes from the front.\<close>

lemma Write_data:
  assumes "fifo_inv f" "fifo_open f" "fb_data_length f < fb_buffer_length f"
    and w: "Write f v = (res, n, f')"
  shows "res = SR_SUCCESS \<and> n = min (length v) (GetWriteRemaining f) \<and> fifo_inv f'
    \<and> fifo_open f' \<and> fb_buffer_length f' = fb_buffer_length f
    \<and> fifo_data f' = fifo_data f @ take n v"
proof -
  obtain res1 m f1 where w1: "WriteOffset f v 0 = (res1, m, f1)" by (metis prod_cases3)
  have *: "res1 = SR_SUCCESS" "m = min (length v) (GetWriteRemaining f)" "fifo_inv f1"
    "fb_buffer_length f1 = fb_buffer_length f" "fb_data_length f1 = fb_data_length f" "fifo_open f1"
    "\<forall>i < fb_buffer_length f. fifo_slot f1 i = (if fb_data_length f \<le> i \<and> i < fb_data_length f + m
          then v ! (i - fb_data_length f) else fifo_slot f i)"
    using WriteOffset_slots [OF assms(1) _ _ w1] assms(2,3)
    by (simp_all add: fifo_open_def GetWriteRemaining_def)
  have le: "fb_data_length f + m \<le> fb_buffer_length f"
    using assms(3) by (simp add: *(2) GetWriteRemaining_def)
  have mv: "m \<le> length v" by (simp add: *(2))
  have f': "res = SR_SUCCESS" "n = m" "fb_data_length f' = fb_data_length f + m"
    "fb_buffer_length f' = fb_buffer_length f1" "fb_buffer f' = fb_buffer f1"
    "fb_read_position f' = fb_read_position f1" "fb_state f' = fb_state f1"
    using w *(1,5) by (auto simp: Write_def w1 Let_def post_event_def split: if_splits)
  then have slot: "fifo_slot f' = fifo_slot f1" by (simp add: fifo_slot_def fun_eq_iff)
  have "fifo_data f' = fifo_data f @ take n v"
    unfolding fifo_data_def [of f'] slot f'(3)
    by (rule list_eq_nthI) (use *(7) le mv in \<open>auto simp: nth_append nth_fifo_data f'(2)\<close>)
  with f' * le show ?thesis by (simp add: fifo_inv_def fifo_open_def)
qed

lemma Write_full:
  "fifo_open f \<Longrightarrow> fb_buffer_length f \<le> fb_data_length f \<Longrightarrow> Write f v = (SR_BLOCK, 0, f)"
  by (simp add: Write_def WriteOffset_def fifo_open_def)

lemma Read_data:
  assumes "fifo_inv f" "0 < fb_data_length f" and r: "Read f n = (res, v, f')"
  shows "res = SR_SUCCESS \<and> v = take n (fifo_data f) \<and> fifo_inv f' \<and> fifo_open f' = fifo_open f
    \<and> fb_buffer_length f' = fb_buffer_length f
    \<and> fb_data_length f' = fb_data_length f - min n (fb_data_length f)
    \<and> fifo_slot f' = (\<lambda>i. fifo_slot f (i + min n (fb_data_length f)))
    \<and> fifo_data f' = drop n (fifo_data f)"
proof -
  define m where "m = min n (fb_data_length f)"
  have f': "res = SR_SUCCESS" "v = take n (fifo_data f)" "fb_data_length f' = fb_data_length f - m"
    "fb_buffer_length f' = fb_buffer_length f" "fb_buffer f' = fb_buffer f"
    "fb_read_position f' = (fb_read_position f + m) mod fb_buffer_length f"
    "fb_state f' = fb_state f"
    using r assms(2)
    by (auto simp: Read_def ReadOffset_data [OF assms(1,2)] Let_def post_event_def m_def
        min.commute split: if_splits)
  then have slot: "fifo_slot f' = (\<lambda>i. fifo_slot f (i + m))"
    by (simp add: fifo_slot_def fun_eq_iff mod_add_left_eq mod_add_right_eq ac_simps)
  have "fifo_data f' = drop n (fifo_data f)"
    unfolding fifo_data_def [of f'] slot f'(3)
    by (rule list_eq_nthI) (auto simp: m_def nth_fifo_data min_def add.commute)
  with f' slot assms(1) show ?thesis
    by (auto simp: fifo_inv_def fifo_open_def m_def intro: le_trans [OF diff_le_self])
qed

lemma Read_empty: "fifo_open f \<Longrightarrow> fb_data_length f = 0 \<Longrightarrow> Read f n = (SR_BLOCK, [], f)"
  by (simp add: Read_def ReadOffset_def fifo_open_def)

lemma SetCapacity_data:
  assumes "fifo_inv f" "0 < sz" and s: "SetCapacity f sz = (ok, f')"
  shows "ok = (fb_data_length f \<le> sz) \<and> fifo_inv f' \<and> fifo_open f' = fifo_open f
    \<and> fifo_data f' = fifo_data f \<and> (ok \<longrightarrow> fb_buffer_length f' = sz)"
proof (cases "fb_data_length f \<le> sz \<and> sz \<noteq> fb_buffer_length f")
  case True
  let ?n = "fb_data_length f"
  have rr: "ring_read (fb_buffer f) (fb_buffer_length f) (fb_read_position f) ?n = fifo_data f"
    using ring_read_slots [OF assms(1), of 0 ?n] assms(1)
    by (simp add: fifo_inv_def fifo_data_def)
  have f': "ok" "fb_data_length f' = ?n" "fb_buffer_length f' = sz" "fb_read_position f' = 0"
    "fb_buffer f' = mem_write (replicate sz 0) 0 (fifo_data f)" "fb_state f' = fb_state f"
    using s True by (auto simp: SetCapacity_def Let_def rr)
  have "fifo_data f' = fifo_data f"
    by (rule list_eq_nthI)
       (use True assms(2) in \<open>auto simp: nth_fifo_data fifo_slot_def [of f'] f' nth_mem_write\<close>)
  with f' True assms(2) show ?thesis by (simp add: fifo_inv_def fifo_open_def)
qed (use assms in \<open>auto simp: SetCapacity_def split: if_splits\<close>)

text \<open>A run of writes and reads: the bytes accepted, the bytes delivered, the buffer.\<close>

datatype fifo_op = FWrite bytes | FRead nat

fun fifo_run :: "fifo_op list \<Rightarrow> fifo \<Rightarrow> bytes \<times> bytes \<times> fifo" where
  "fifo_run [] f = ([], [], f)"
| "fifo_run (FWrite v # ops) f =
     (let (res, n, f1) = Write f v; (acc, del, f') = fifo_run ops f1 in (take n v @ acc, del, f'))"
| "fifo_run (FRead n # ops) f =
     (let (res, v, f1) = Read f n; (acc, del, f') = fifo_run ops f1 in (acc, v @ del, f'))"

lemma Write_any:
  assumes "fifo_inv f" "fifo_open f" and w: "Write f v = (res, n, f')"
  shows "fifo_inv f' \<and> fifo_open f' \<and> fifo_data f' = fifo_data f @ take n v"
proof (cases "fb_data_length f < fb_buffer_length f")
  case True
  with Write_data [OF assms(1,2) True w] show ?thesis by simp
next
  case False
  with Write_full [of f v] assms show ?thesis by simp
qed

lemma Read_any:
  assumes "fifo_inv f" "fifo_open f" and r: "Read f n = (res, v, f')"
  shows "fifo_inv f' \<and> fifo_open f' \<and> fifo_data f = v @ fifo_data f'"
proof (cases "0 < fb_data_length f")
  case True
  with Read_data [OF assms(1) True r] assms(2) show ?thesis by simp
next
  case False
  with Read_empty [of f n] assms show ?thesis by simp
qed

text \<open>
  C32.  A \<^verbatim>\<open>FifoBuffer\<close> neither loses, duplicates nor reorders bytes: after any sequence of
  \<^verbatim>\<open>Write\<close> and \<^verbatim>\<open>Read\<close> calls, wherever the ring wrapped, what was delivered followed by
  what is still buffered is what was buffered at the start followed by what was accepted,
  and the capacity is respected.
\<close>

theorem fifo_conserves_bytes:
  assumes "fifo_inv f" "fifo_open f" "fifo_run ops f = (acc, del, f')"
  shows "del @ fifo_data f' = fifo_data f @ acc \<and> fifo_inv f'
    \<and> length (fifo_data f') \<le> fb_buffer_length f'"
  using assms
proof (induction ops arbitrary: f acc del f')
  case (Cons op ops)
  show ?case
  proof (cases op)
    case (FWrite v)
    obtain res n f1 where w: "Write f v = (res, n, f1)" by (metis prod_cases3)
    obtain acc1 del1 f2 where r: "fifo_run ops f1 = (acc1, del1, f2)" by (metis prod_cases3)
    from Cons.IH [OF _ _ r] Write_any [OF Cons.prems(1,2) w] Cons.prems(3) FWrite w r
    show ?thesis by auto
  next
    case (FRead n)
    obtain res v f1 where w: "Read f n = (res, v, f1)" by (metis prod_cases3)
    obtain acc1 del1 f2 where r: "fifo_run ops f1 = (acc1, del1, f2)" by (metis prod_cases3)
    from Cons.IH [OF _ _ r] Read_any [OF Cons.prems(1,2) w] Cons.prems(3) FRead w r
    show ?thesis by auto
  qed
qed (auto simp: fifo_inv_def)

lemma fifo_new_inv [simp]: "0 < sz \<Longrightarrow> fifo_inv (fifo_new sz)" "fifo_open (fifo_new sz)"
  "fb_data_length (fifo_new sz) = 0" "fb_buffer_length (fifo_new sz) = sz"
  by (simp_all add: fifo_new_def fifo_inv_def fifo_open_def)

lemma fifo_data_new: "fifo_data (fifo_new sz) = []"
  by (simp add: fifo_data_def fifo_new_def)

theorem fifo_conserves_bytes_witness:
  "\<exists>del f'. fifo_run [FWrite [1, 2, 3], FRead 2, FWrite [4, 5, 6], FRead 4] (fifo_new 4)
     = ([1, 2, 3, 4, 5, 6], del, f') \<and> del @ fifo_data f' = [1, 2, 3, 4, 5, 6]"
proof -
  obtain acc del f' where r:
    "fifo_run [FWrite [1, 2, 3], FRead 2, FWrite [4, 5, 6], FRead 4] (fifo_new 4) = (acc, del, f')"
    by (metis prod_cases3)
  moreover from r have "acc = [1, 2, 3, 4, 5, 6]"
    by (auto simp: Write_def WriteOffset_def Read_def ReadOffset_def fifo_new_def Let_def
        ring_read_def ring_write_def mem_read_def mem_write_def post_event_def)
  ultimately show ?thesis
    using fifo_conserves_bytes [OF _ _ r] by (auto simp: fifo_data_new)
qed

end
