(* ===== verification/TcpTypes.thy ===== *)
theory TcpTypes
  imports Fifo TimeUtils ByteBuffer
begin

text \<open>
  The data of \<^verbatim>\<open>PseudoTcp\<close> (\<^verbatim>\<open>p2p/base/pseudotcp.h\<close>, \<^verbatim>\<open>p2p/base/pseudotcp.cc\<close>): the
  constants, the segment types and the connection's state, one record field per member.

  Three fields stand for the world around the connection.  \<open>w_clock\<close> and \<open>w_writes\<close> count
  the calls of \<^verbatim>\<open>Now()\<close> and of \<^verbatim>\<open>TcpWritePacket\<close>; the environment \<open>net_env\<close>, an argument
  of every operation that needs it, says what the n-th call returns.  \<open>w_events\<close> logs the
  calls made to the notify interface, in order.  The implementation of that interface in
  this repository (\<^verbatim>\<open>session/tunnel/pseudotcpchannel.cc\<close>) posts messages from its callbacks
  and does not call back into the connection.  \<open>w_ok\<close> becomes false when an \<^verbatim>\<open>ASSERT\<close> fails
  or memory outside an object would be touched; from then on the state means nothing.
\<close>

section \<open>Constants\<close>

definition PACKET_MAXIMUMS :: "uint16 list" where
  "PACKET_MAXIMUMS = [65535, 32000, 17914, 8166, 4352, 2002, 1492, 1006, 508, 296, 0]"

definition packet_maximum :: "uint32 \<Rightarrow> uint32" where
  "packet_maximum level =
     (if unat level < length PACKET_MAXIMUMS then ucast (PACKET_MAXIMUMS ! unat level) else 0)"

definition MAX_PACKET :: uint32 where "MAX_PACKET = 65535"
definition MIN_PACKET :: uint32 where "MIN_PACKET = 296"
definition IP_HEADER_SIZE :: uint32 where "IP_HEADER_SIZE = 20"
definition UDP_HEADER_SIZE :: uint32 where "UDP_HEADER_SIZE = 8"
definition JINGLE_HEADER_SIZE :: uint32 where "JINGLE_HEADER_SIZE = 64"
definition DEFAULT_RCV_BUF_SIZE :: uint32 where "DEFAULT_RCV_BUF_SIZE = 60 * 1024"
definition DEFAULT_SND_BUF_SIZE :: uint32 where "DEFAULT_SND_BUF_SIZE = 90 * 1024"
definition HEADER_SIZE :: uint32 where "HEADER_SIZE = 24"
definition PACKET_OVERHEAD :: uint32 where
  "PACKET_OVERHEAD = HEADER_SIZE + UDP_HEADER_SIZE + IP_HEADER_SIZE + JINGLE_HEADER_SIZE"
definition MIN_RTO :: uint32 where "MIN_RTO = 250"
definition DEF_RTO :: uint32 where "DEF_RTO = 3000"
definition MAX_RTO :: uint32 where "MAX_RTO = 60000"
definition DEF_ACK_DELAY :: uint32 where "DEF_ACK_DELAY = 100"
definition FLAG_CTL :: uint8 where "FLAG_CTL = 0x02"
definition FLAG_RST :: uint8 where "FLAG_RST = 0x04"
definition CTL_CONNECT :: uint8 where "CTL_CONNECT = 0"
definition TCP_OPT_EOL :: uint8 where "TCP_OPT_EOL = 0"
definition TCP_OPT_NOOP :: uint8 where "TCP_OPT_NOOP = 1"
definition TCP_OPT_MSS :: uint8 where "TCP_OPT_MSS = 2"
definition TCP_OPT_WND_SCALE :: uint8 where "TCP_OPT_WND_SCALE = 3"
definition DEFAULT_TIMEOUT :: int where "DEFAULT_TIMEOUT = 4000"
definition CLOSED_TIMEOUT :: int where "CLOSED_TIMEOUT = 60 * 1000"

lemmas tcp_consts = MAX_PACKET_def MIN_PACKET_def IP_HEADER_SIZE_def UDP_HEADER_SIZE_def
  JINGLE_HEADER_SIZE_def DEFAULT_RCV_BUF_SIZE_def DEFAULT_SND_BUF_SIZE_def HEADER_SIZE_def
  PACKET_OVERHEAD_def MIN_RTO_def DEF_RTO_def MAX_RTO_def DEF_ACK_DELAY_def FLAG_CTL_def
  FLAG_RST_def CTL_CONNECT_def TCP_OPT_EOL_def TCP_OPT_NOOP_def TCP_OPT_MSS_def
  TCP_OPT_WND_SCALE_def DEFAULT_TIMEOUT_def CLOSED_TIMEOUT_def

definition bound :: "uint32 \<Rightarrow> uint32 \<Rightarrow> uint32 \<Rightarrow> uint32" where
  "bound lower middle upper = min (max lower middle) upper"

definition long_to_bytes :: "uint32 \<Rightarrow> bytes" where
  "long_to_bytes val = host_bytes32 (HostToNetwork32 val)"

definition short_to_bytes :: "uint16 \<Rightarrow> bytes" where
  "short_to_bytes val = host_bytes16 (HostToNetwork16 val)"

definition bytes_to_long :: "bytes \<Rightarrow> uint32" where
  "bytes_to_long buf = NetworkToHost32 (host_word32 buf)"

definition bytes_to_short :: "bytes \<Rightarrow> uint16" where
  "bytes_to_short buf = NetworkToHost16 (host_word16 buf)"

section \<open>Types\<close>

datatype write_result = WR_SUCCESS | WR_TOO_LARGE | WR_FAIL

datatype tcp_state =
  TCP_LISTEN | TCP_SYN_SENT | TCP_SYN_RECEIVED | TCP_ESTABLISHED | TCP_CLOSED

datatype tcp_option = OPT_NODELAY | OPT_ACKDELAY | OPT_RCVBUF | OPT_SNDBUF

datatype send_flags = sfNone | sfDelayedAck | sfImmediateAck

datatype shutdown = SD_NONE | SD_GRACEFUL | SD_FORCEFUL

datatype errno = E_NONE | EINVAL | ENOTCONN | EWOULDBLOCK | ECONNABORTED | ECONNRESET

datatype tcp_event =
  OnTcpOpen | OnTcpReadable | OnTcpWriteable | OnTcpClosed errno | TcpWritePacket bytes

record segment =
  seg_conv :: uint32
  seg_seq :: uint32
  seg_ack :: uint32
  seg_flags :: uint8
  seg_wnd :: uint16
  seg_data :: bytes
  seg_len :: uint32
  seg_tsval :: uint32
  seg_tsecr :: uint32

record ssegment =
  ss_seq :: uint32
  ss_len :: uint32
  ss_xmit :: uint8
  ss_bCtrl :: bool

record rsegment =
  rs_seq :: uint32
  rs_len :: uint32

record net_env =
  env_now :: "nat \<Rightarrow> uint32"
  env_write :: "nat \<Rightarrow> bytes \<Rightarrow> write_result"

record pseudo_tcp =
  m_shutdown :: shutdown
  m_error :: errno
  m_state :: tcp_state
  m_conv :: uint32
  m_bReadEnable :: bool
  m_bWriteEnable :: bool
  m_bOutgoing :: bool
  m_lasttraffic :: uint32
  m_rlist :: "rsegment list"
  m_rbuf_len :: uint32
  m_rcv_nxt :: uint32
  m_rcv_wnd :: uint32
  m_lastrecv :: uint32
  m_rwnd_scale :: uint8
  m_rbuf :: fifo
  m_slist :: "ssegment list"
  m_sbuf_len :: uint32
  m_snd_nxt :: uint32
  m_snd_wnd :: uint32
  m_lastsend :: uint32
  m_snd_una :: uint32
  m_swnd_scale :: uint8
  m_sbuf :: fifo
  m_mss :: uint32
  m_msslevel :: uint32
  m_largest :: uint32
  m_mtu_advise :: uint32
  m_rto_base :: uint32
  m_ts_recent :: uint32
  m_ts_lastack :: uint32
  m_rx_rttvar :: uint32
  m_rx_srtt :: uint32
  m_rx_rto :: uint32
  m_ssthresh :: uint32
  m_cwnd :: uint32
  m_dup_acks :: uint8
  m_recover :: uint32
  m_t_ack :: uint32
  m_use_nagling :: bool
  m_ack_delay :: uint32
  m_support_wnd_scale :: bool
  w_ok :: bool
  w_clock :: nat
  w_writes :: nat
  w_events :: "tcp_event list"

definition tcp_assert :: "bool \<Rightarrow> pseudo_tcp \<Rightarrow> pseudo_tcp" where
  "tcp_assert b t = t\<lparr>w_ok := w_ok t \<and> b\<rparr>"

definition tcp_notify :: "tcp_event \<Rightarrow> pseudo_tcp \<Rightarrow> pseudo_tcp" where
  "tcp_notify e t = t\<lparr>w_events := w_events t @ [e]\<rparr>"

definition Now :: "net_env \<Rightarrow> pseudo_tcp \<Rightarrow> uint32 \<times> pseudo_tcp" where
  "Now E t = (env_now E (w_clock t), t\<lparr>w_clock := w_clock t + 1\<rparr>)"

text \<open>The constructor, at time \<open>now\<close>.\<close>

definition PseudoTcp :: "uint32 \<Rightarrow> uint32 \<Rightarrow> pseudo_tcp" where
  "PseudoTcp conv now =
     (let rbuf_len = DEFAULT_RCV_BUF_SIZE; sbuf_len = DEFAULT_SND_BUF_SIZE;
          mss = MIN_PACKET - PACKET_OVERHEAD
      in \<lparr>m_shutdown = SD_NONE, m_error = E_NONE, m_state = TCP_LISTEN, m_conv = conv,
          m_bReadEnable = True, m_bWriteEnable = False, m_bOutgoing = False, m_lasttraffic = now,
          m_rlist = [], m_rbuf_len = rbuf_len, m_rcv_nxt = 0, m_rcv_wnd = rbuf_len,
          m_lastrecv = now, m_rwnd_scale = 0, m_rbuf = fifo_new (unat rbuf_len),
          m_slist = [], m_sbuf_len = sbuf_len, m_snd_nxt = 0, m_snd_wnd = 1, m_lastsend = now,
          m_snd_una = 0, m_swnd_scale = 0, m_sbuf = fifo_new (unat sbuf_len),
          m_mss = mss, m_msslevel = 0, m_largest = 0, m_mtu_advise = MAX_PACKET,
          m_rto_base = 0, m_ts_recent = 0, m_ts_lastack = 0,
          m_rx_rttvar = 0, m_rx_srtt = 0, m_rx_rto = DEF_RTO,
          m_ssthresh = rbuf_len, m_cwnd = 2 * mss, m_dup_acks = 0, m_recover = 0, m_t_ack = 0,
          m_use_nagling = True, m_ack_delay = DEF_ACK_DELAY, m_support_wnd_scale = True,
          w_ok = rbuf_len + MIN_PACKET < sbuf_len \<and> MIN_PACKET > PACKET_OVERHEAD,
          w_clock = 1, w_writes = 0, w_events = []\<rparr>)"

end
