(* ===== verification/TcpSend.thy ===== *)
theory TcpSend
  imports TcpTypes
begin

text \<open>
  The sending half of \<^verbatim>\<open>PseudoTcp\<close>: \<^verbatim>\<open>queue\<close>, \<^verbatim>\<open>packet\<close>, \<^verbatim>\<open>transmit\<close>, \<^verbatim>\<open>attemptSend\<close>,
  \<^verbatim>\<open>closedown\<close> and \<^verbatim>\<open>adjustMTU\<close>.  An iterator into \<^verbatim>\<open>m_slist\<close> is an index.  The three
  loops (lowering the packet size, retrying a packet, sending while the window allows)
  are functions with a termination proof.
\<close>

section \<open>Operations\<close>

definition tcp_queue :: "pseudo_tcp \<Rightarrow> bytes \<Rightarrow> uint32 \<Rightarrow> bool \<Rightarrow> uint32 \<times> pseudo_tcp" where
  "tcp_queue t data len bCtrl =
     (let available_space = of_nat (GetWriteRemaining (m_sbuf t)) :: uint32;
          fits = (\<not> len > available_space);
          n = (if fits then len else available_space);
          slist =
            (if m_slist t \<noteq> [] \<and> ss_bCtrl (last (m_slist t)) = bCtrl
                \<and> ss_xmit (last (m_slist t)) = 0
             then butlast (m_slist t) @
                    [(last (m_slist t))\<lparr>ss_len := ss_len (last (m_slist t)) + n\<rparr>]
             else m_slist t @
                    [\<lparr>ss_seq = m_snd_una t + of_nat (GetBuffered (m_sbuf t)), ss_len = n,
                      ss_xmit = 0, ss_bCtrl = bCtrl\<rparr>]);
          (result, written, sbuf) = Write (m_sbuf t) (take (unat n) data)
      in (of_nat written,
          t\<lparr>w_ok := w_ok t \<and> (fits \<or> \<not> bCtrl), m_slist := slist, m_sbuf := sbuf\<rparr>))"

text \<open>The 24 header bytes, and the payload that \<^verbatim>\<open>ReadOffset\<close> copies behind them; should it
  copy less than \<open>len\<close> bytes, the rest of the packet is whatever the array held.\<close>

definition tcp_header :: "pseudo_tcp \<Rightarrow> uint32 \<Rightarrow> uint8 \<Rightarrow> uint32 \<Rightarrow> bytes" where
  "tcp_header t seq flags now =
     long_to_bytes (m_conv t) @ long_to_bytes seq @ long_to_bytes (m_rcv_nxt t) @ [0, flags]
     @ short_to_bytes (ucast (drop_bit (unat (m_rwnd_scale t)) (m_rcv_wnd t)))
     @ long_to_bytes now @ long_to_bytes (m_ts_recent t)"

definition tcp_payload :: "pseudo_tcp \<Rightarrow> uint32 \<Rightarrow> uint32 \<Rightarrow> bytes \<times> bool" where
  "tcp_payload t offset len =
     (if len = 0 then ([], True)
      else
        let (result, data) = ReadOffset (m_sbuf t) (unat len) (unat offset)
        in (take (unat len) (data @ replicate (unat len) 0),
            result = SR_SUCCESS \<and> of_nat (length data) = len))"

definition tcp_packet ::
  "net_env \<Rightarrow> pseudo_tcp \<Rightarrow> uint32 \<Rightarrow> uint8 \<Rightarrow> uint32 \<Rightarrow> uint32 \<Rightarrow> write_result \<times> pseudo_tcp" where
  "tcp_packet E t seq flags offset len =
     (let now = env_now E (w_clock t);
          (payload, copied) = tcp_payload t offset len;
          buffer = tcp_header t seq flags now @ payload;
          wres = env_write E (w_writes t) buffer;
          t1 = t\<lparr>w_ok := w_ok t \<and> HEADER_SIZE + len \<le> MAX_PACKET \<and> copied,
                 w_clock := w_clock t + 1, m_ts_lastack := m_rcv_nxt t,
                 w_writes := w_writes t + 1, w_events := w_events t @ [TcpWritePacket buffer]\<rparr>
      in if wres \<noteq> WR_SUCCESS \<and> len \<noteq> 0 then (wres, t1)
         else (WR_SUCCESS,
               t1\<lparr>m_t_ack := 0, m_lastsend := if len > 0 then now else m_lastsend t,
                  m_lasttraffic := now, m_bOutgoing := True\<rparr>))"

lemma packet_maximum_nonzero: "packet_maximum level \<noteq> 0 \<Longrightarrow> unat level \<le> 9"
proof (rule ccontr)
  assume nz: "packet_maximum level \<noteq> 0" and "\<not> unat level \<le> 9"
  then have "unat level \<ge> 10" by simp
  with nz show False
    by (cases "unat level = 10") (auto simp: packet_maximum_def PACKET_MAXIMUMS_def)
qed

lemma unat_suc_word:
  fixes x :: uint32
  assumes "x \<noteq> -1"
  shows "unat (x + 1) = unat x + 1"
proof -
  have "1 + x \<noteq> 0" using assms by (metis add.commute add_eq_0_iff2)
  then show ?thesis using unatSuc [of x] by (simp add: add.commute)
qed

text \<open>The inner loop of \<^verbatim>\<open>transmit\<close>: go down the table of packet sizes until the segment size
  falls below what was tried, or the table ends.\<close>

definition level_rank :: "uint32 \<Rightarrow> nat" where
  "level_rank level = (if level = -1 then 100 else 11 - unat level)"

definition levels_left :: "pseudo_tcp \<Rightarrow> nat" where
  "levels_left t = level_rank (m_msslevel t)"

lemma level_rank_less:
  assumes "packet_maximum (level + 1) \<noteq> 0"
  shows "level_rank (level + 1) < level_rank level"
proof -
  have b: "unat (level + 1) \<le> 9" using assms by (rule packet_maximum_nonzero)
  have "level + 1 \<noteq> -1"
  proof
    assume "level + 1 = -1"
    with b have "unat (-1 :: uint32) \<le> 9" by metis
    then show False by (simp add: unsigned_minus_1_eq_mask mask_eq_exp_minus_1)
  qed
  then show ?thesis
    using b unat_suc_word [of level] by (auto simp: level_rank_def)
qed

lemma levels_left_less:
  assumes "packet_maximum (m_msslevel t + 1) \<noteq> 0" "m_msslevel t' = m_msslevel t + 1"
  shows "levels_left t' < levels_left t"
  using level_rank_less [OF assms(1)] assms(2) by (simp add: levels_left_def)

function lower_mss :: "pseudo_tcp \<Rightarrow> uint32 \<Rightarrow> bool \<times> uint32 \<times> pseudo_tcp" where
  "lower_mss t nTransmit =
     (if packet_maximum (m_msslevel t + 1) = 0 then (False, nTransmit, t)
      else
        let level = m_msslevel t + 1;
            mss = packet_maximum level - PACKET_OVERHEAD;
            t = t\<lparr>m_msslevel := level, m_mss := mss, m_cwnd := 2 * mss\<rparr>
        in if mss < nTransmit then (True, mss, t) else lower_mss t nTransmit)"
  by pat_completeness auto
termination
  by (relation "measure (\<lambda>(t, n). levels_left t)") (auto intro!: levels_left_less)

declare lower_mss.simps [simp del]

lemma lower_mss_less:
  "lower_mss t n = (True, n', t') \<Longrightarrow> levels_left t' < levels_left t"
proof (induction t n rule: lower_mss.induct)
  case (1 t n)
  let ?l = "m_msslevel t + 1"
  let ?m = "packet_maximum ?l - PACKET_OVERHEAD"
  let ?t = "t\<lparr>m_msslevel := ?l, m_mss := ?m, m_cwnd := 2 * ?m\<rparr>"
  have nz: "packet_maximum ?l \<noteq> 0"
    using "1.prems" by (auto simp: lower_mss.simps [of t])
  have lt: "levels_left ?t < levels_left t" by (rule levels_left_less [OF nz]) simp
  show ?case
  proof (cases "?m < n")
    case True
    with "1.prems" nz lt show ?thesis by (auto simp: lower_mss.simps [of t] Let_def)
  next
    case False
    with "1.prems" nz have "lower_mss ?t n = (True, n', t')"
      by (simp add: lower_mss.simps [of t] Let_def)
    from "1.IH" [OF nz refl refl refl False this] lt show ?thesis by simp
  qed
qed

text \<open>The outer loop of \<^verbatim>\<open>transmit\<close>: try the segment's packet until it is accepted, refused, or
  too large at the smallest size.  The \<^verbatim>\<open>bool\<close> is whether to go on.\<close>

lemma packet_msslevel [simp]: "m_msslevel (snd (tcp_packet E t seq flags off len)) = m_msslevel t"
  by (simp add: tcp_packet_def Let_def case_prod_beta)

lemma packet_levels_left [simp]:
  "levels_left (snd (tcp_packet E t seq flags off len)) = levels_left t"
  by (simp add: levels_left_def)

function transmit_packet ::
  "net_env \<Rightarrow> pseudo_tcp \<Rightarrow> ssegment \<Rightarrow> uint32 \<Rightarrow> bool \<times> uint32 \<times> pseudo_tcp" where
  "transmit_packet E t seg nTransmit =
     (let seq = ss_seq seg; flags = (if ss_bCtrl seg then FLAG_CTL else 0);
          r = tcp_packet E t seq flags (ss_seq seg - m_snd_una t) nTransmit
      in case fst r of
           WR_SUCCESS \<Rightarrow> (True, nTransmit, snd r)
         | WR_FAIL \<Rightarrow> (False, nTransmit, snd r)
         | WR_TOO_LARGE \<Rightarrow>
             (case lower_mss (snd r) nTransmit of
                (False, n, t) \<Rightarrow> (False, n, t)
              | (True, n, t) \<Rightarrow> transmit_packet E t seg n))"
  by pat_completeness auto
termination
proof (relation "measure (\<lambda>(E, t, seg, n). levels_left t)", goal_cases)
  case 1
  show ?case by simp
next
  case 2
  then show ?case
    by (clarsimp) (drule lower_mss_less [OF sym], simp)
qed

declare transmit_packet.simps [simp del]

text \<open>What \<^verbatim>\<open>transmit\<close> does to the segment list once \<open>n\<close> bytes of segment \<open>i\<close> are on their way:
  a segment that was cut short is split, and its transmission is counted.\<close>

definition mark_sent :: "ssegment list \<Rightarrow> nat \<Rightarrow> uint32 \<Rightarrow> ssegment list" where
  "mark_sent segs i n =
     (let seg = segs ! i in
      take i segs
      @ seg\<lparr>ss_len := (if n < ss_len seg then n else ss_len seg), ss_xmit := ss_xmit seg + 1\<rparr>
      # (if n < ss_len seg
         then [\<lparr>ss_seq = ss_seq seg + n, ss_len = ss_len seg - n, ss_xmit = ss_xmit seg,
                ss_bCtrl = ss_bCtrl seg\<rparr>]
         else [])
      @ drop (Suc i) segs)"

definition transmit :: "net_env \<Rightarrow> pseudo_tcp \<Rightarrow> nat \<Rightarrow> uint32 \<Rightarrow> bool \<times> pseudo_tcp" where
  "transmit E t i now =
     (if i \<ge> length (m_slist t) then (False, t\<lparr>w_ok := False\<rparr>)
      else
        let seg = m_slist t ! i in
        if ss_xmit seg \<ge> (if m_state t = TCP_ESTABLISHED then 15 else 30) then (False, t)
        else
          case transmit_packet E t seg (min (ss_len seg) (m_mss t)) of
            (False, n, t') \<Rightarrow> (False, t')
          | (True, n, t') \<Rightarrow>
              (True, t'\<lparr>m_slist := mark_sent (m_slist t') i n,
                        m_snd_nxt := (if ss_xmit seg = 0
                                      then m_snd_nxt t' + (if n < ss_len seg then n else ss_len seg)
                                      else m_snd_nxt t'),
                        m_rto_base := (if m_rto_base t' = 0 then now else m_rto_base t')\<rparr>))"

definition first_unsent :: "pseudo_tcp \<Rightarrow> nat" where
  "first_unsent t = length (takeWhile (\<lambda>s. ss_xmit s > 0) (m_slist t))"

text \<open>The amount \<^verbatim>\<open>attemptSend\<close> may send now: congestion window with limited transmit, peer
  window, and the rule against silly windows (RFC 813).\<close>

definition send_available :: "pseudo_tcp \<Rightarrow> uint32" where
  "send_available t =
     (let cwnd = (if m_dup_acks t = 1 \<or> m_dup_acks t = 2
                  then m_cwnd t + ucast (m_dup_acks t) * m_mss t else m_cwnd t);
          nWindow = min (m_snd_wnd t) cwnd;
          nInFlight = m_snd_nxt t - m_snd_una t;
          nUseable = (if nInFlight < nWindow then nWindow - nInFlight else 0);
          nAvailable = min (of_nat (GetBuffered (m_sbuf t)) - nInFlight) (m_mss t)
      in if nAvailable > nUseable
         then if nUseable * 4 < nWindow then 0 else nUseable
         else nAvailable)"

text \<open>Break segment \<open>i\<close> in two when it is longer than \<open>n\<close>.\<close>

definition split_segment :: "ssegment list \<Rightarrow> nat \<Rightarrow> uint32 \<Rightarrow> ssegment list" where
  "split_segment segs i n =
     (let seg = segs ! i in
      if ss_len seg > n
      then take i segs
           @ seg\<lparr>ss_len := n\<rparr>
           # \<lparr>ss_seq = ss_seq seg + n, ss_len = ss_len seg - n, ss_xmit = 0, ss_bCtrl = ss_bCtrl seg\<rparr>
           # drop (Suc i) segs
      else segs)"

definition send_ack :: "net_env \<Rightarrow> pseudo_tcp \<Rightarrow> send_flags \<Rightarrow> pseudo_tcp" where
  "send_ack E t sflags =
     (if sflags = sfNone then t
      else if sflags = sfImmediateAck \<or> m_t_ack t \<noteq> 0
      then snd (tcp_packet E t (m_snd_nxt t) 0 0 0)
      else let (now, t) = Now E t in t\<lparr>m_t_ack := now\<rparr>)"

text \<open>A transmission leaves a shorter packet only because the packet size had to be lowered, and
  that size is never zero.\<close>

lemma packet_maximum_cases:
  "packet_maximum level = 0 \<or> packet_maximum level \<in> {65535, 32000, 17914, 8166, 4352, 2002, 1492, 1006, 508, 296}"
proof (cases "unat level < 11")
  case True
  then have "unat level = 0 \<or> unat level = 1 \<or> unat level = 2 \<or> unat level = 3 \<or> unat level = 4
    \<or> unat level = 5 \<or> unat level = 6 \<or> unat level = 7 \<or> unat level = 8 \<or> unat level = 9
    \<or> unat level = 10" by arith
  then show ?thesis by (elim disjE) (simp_all add: packet_maximum_def PACKET_MAXIMUMS_def)
next
  case False
  then show ?thesis by (simp add: packet_maximum_def PACKET_MAXIMUMS_def)
qed

lemma packet_maximum_mss:
  assumes "packet_maximum level \<noteq> 0"
  shows "0 < packet_maximum level - PACKET_OVERHEAD"
    and "packet_maximum level - PACKET_OVERHEAD \<le> MAX_PACKET - PACKET_OVERHEAD"
  using packet_maximum_cases [of level] assms by (auto simp: tcp_consts)

lemma lower_mss_bounds:
  "lower_mss t n = (b, n', t') \<Longrightarrow> n' \<le> n \<and> (b \<longrightarrow> 0 < n') \<and> (b \<or> n' = n)"
proof (induction t n rule: lower_mss.induct)
  case (1 t n)
  let ?l = "m_msslevel t + 1"
  show ?case
  proof (cases "packet_maximum ?l = 0")
    case True
    with "1.prems" show ?thesis by (simp add: lower_mss.simps [of t])
  next
    case nz: False
    show ?thesis
    proof (cases "packet_maximum ?l - PACKET_OVERHEAD < n")
      case True
      with "1.prems" nz packet_maximum_mss(1) [OF nz] show ?thesis
        by (auto simp: lower_mss.simps [of t] Let_def)
    next
      case False
      with "1.prems" nz "1.IH" [OF nz refl refl refl False] show ?thesis
        by (simp add: lower_mss.simps [of t] Let_def)
    qed
  qed
qed

text \<open>The fields a packet on its way may change; \<open>tx_view\<close> blanks them.\<close>

definition tx_view :: "pseudo_tcp \<Rightarrow> pseudo_tcp" where
  "tx_view t = t\<lparr>w_ok := True, w_clock := 0, w_writes := 0, w_events := [], m_ts_lastack := 0,
     m_t_ack := 0, m_lastsend := 0, m_lasttraffic := 0, m_bOutgoing := False,
     m_mss := 0, m_msslevel := 0, m_cwnd := 0\<rparr>"

lemma packet_tx_view: "tx_view (snd (tcp_packet E t seq flags off len)) = tx_view t"
  by (simp add: tcp_packet_def tx_view_def Let_def case_prod_beta)

lemma lower_mss_tx_view: "lower_mss t n = (b, n', t') \<Longrightarrow> tx_view t' = tx_view t"
proof (induction t n rule: lower_mss.induct)
  case (1 t n)
  let ?l = "m_msslevel t + 1"
  show ?case
    using "1.prems" "1.IH"
    by (auto simp: lower_mss.simps [of t] Let_def tx_view_def split: if_splits)
qed

lemma transmit_packet_bounds:
  "transmit_packet E t seg n = (b, n', t') \<Longrightarrow> n' \<le> n \<and> (n' = n \<or> 0 < n') \<and> tx_view t' = tx_view t"
proof (induction E t seg n rule: transmit_packet.induct)
  case (1 E t seg n)
  let ?r = "tcp_packet E t (ss_seq seg) (if ss_bCtrl seg then FLAG_CTL else 0)
    (ss_seq seg - m_snd_una t) n"
  have v: "tx_view (snd ?r) = tx_view t" by (rule packet_tx_view)
  show ?case
  proof (cases "fst ?r")
    case WR_TOO_LARGE
    obtain b1 n1 t1 where l: "lower_mss (snd ?r) n = (b1, n1, t1)" by (metis prod_cases3)
    note bd = lower_mss_bounds [OF l] lower_mss_tx_view [OF l]
    show ?thesis
    proof (cases b1)
      case True
      have "transmit_packet E t1 seg n1 = (b, n', t')"
        using "1.prems" WR_TOO_LARGE l True by (simp add: transmit_packet.simps [of E t] Let_def)
      from "1.IH" [OF refl refl refl WR_TOO_LARGE l [symmetric] _ refl this] True bd v
      show ?thesis by auto
    next
      case False
      with "1.prems" WR_TOO_LARGE l bd v show ?thesis
        by (auto simp: transmit_packet.simps [of E t] Let_def)
    qed
  qed (use "1.prems" v in \<open>auto simp: transmit_packet.simps [of E t] Let_def\<close>)
qed

lemma transmit_slist:
  assumes "transmit E t i now = (True, t')"
  shows "i < length (m_slist t) \<and> ss_xmit (m_slist t ! i) < 30
    \<and> (\<exists>n t1. tx_view t1 = tx_view t \<and> n \<le> min (ss_len (m_slist t ! i)) (m_mss t)
          \<and> (n = min (ss_len (m_slist t ! i)) (m_mss t) \<or> 0 < n)
          \<and> transmit_packet E t (m_slist t ! i) (min (ss_len (m_slist t ! i)) (m_mss t)) = (True, n, t1)
          \<and> t' = t1\<lparr>m_slist := mark_sent (m_slist t1) i n,
                m_snd_nxt := (if ss_xmit (m_slist t ! i) = 0 then m_snd_nxt t1 + n else m_snd_nxt t1),
                m_rto_base := (if m_rto_base t1 = 0 then now else m_rto_base t1)\<rparr>)"
proof -
  let ?seg = "m_slist t ! i"
  obtain b n t1 where tp: "transmit_packet E t ?seg (min (ss_len ?seg) (m_mss t)) = (b, n, t1)"
    by (metis prod_cases3)
  have i: "i < length (m_slist t)" and x: "\<not> (if m_state t = TCP_ESTABLISHED then 15 else 30) \<le> ss_xmit ?seg"
    and b: b
    using assms tp by (auto simp: transmit_def Let_def split: if_splits bool.splits)
  have x30: "ss_xmit ?seg < 30"
  proof (cases "m_state t = TCP_ESTABLISHED")
    case True
    with x have "ss_xmit ?seg < 15" by simp
    then show ?thesis by (rule less_trans) simp
  qed (use x in simp)
  note bd = transmit_packet_bounds [OF tp]
  have len: "(if n < ss_len ?seg then n else ss_len ?seg) = n"
    using bd by (auto simp: min_def split: if_splits)
  have "t' = t1\<lparr>m_slist := mark_sent (m_slist t1) i n,
      m_snd_nxt := (if ss_xmit ?seg = 0 then m_snd_nxt t1 + n else m_snd_nxt t1),
      m_rto_base := (if m_rto_base t1 = 0 then now else m_rto_base t1)\<rparr>"
    using assms tp i x b by (simp add: transmit_def Let_def len cong: if_cong split del: if_split)
  with i x30 bd tp b show ?thesis by auto
qed

lemma transmitE:
  assumes "transmit E t i now = (True, t')"
  obtains n t1 where "i < length (m_slist t)" "ss_xmit (m_slist t ! i) < 30"
    "tx_view t1 = tx_view t" "n \<le> ss_len (m_slist t ! i)"
    "n = min (ss_len (m_slist t ! i)) (m_mss t) \<or> 0 < n"
    "transmit_packet E t (m_slist t ! i) (min (ss_len (m_slist t ! i)) (m_mss t)) = (True, n, t1)"
    "t' = t1\<lparr>m_slist := mark_sent (m_slist t1) i n,
          m_snd_nxt := (if ss_xmit (m_slist t ! i) = 0 then m_snd_nxt t1 + n else m_snd_nxt t1),
          m_rto_base := (if m_rto_base t1 = 0 then now else m_rto_base t1)\<rparr>"
  using transmit_slist [OF assms] that by (metis min.bounded_iff)

text \<open>Progress of the send loop: every transmission takes something off the unsent segments.\<close>

definition unsent_weight :: "ssegment list \<Rightarrow> nat" where
  "unsent_weight segs =
     sum_list (map (\<lambda>s. if ss_xmit s = 0 then 2 * unat (ss_len s) + 1 else 0) segs)"

lemma unsent_weight_simps [simp]:
  "unsent_weight [] = 0"
  "unsent_weight (s # ss) = (if ss_xmit s = 0 then 2 * unat (ss_len s) + 1 else 0) + unsent_weight ss"
  "unsent_weight (xs @ ys) = unsent_weight xs + unsent_weight ys"
  by (simp_all add: unsent_weight_def)

lemma unsent_weight_nth:
  assumes "i < length segs"
  shows "unsent_weight segs = unsent_weight (take i segs) + unsent_weight (drop (Suc i) segs)
    + (if ss_xmit (segs ! i) = 0 then 2 * unat (ss_len (segs ! i)) + 1 else 0)"
  by (subst id_take_nth_drop [OF assms]) simp

lemma tx_view_eqD:
  assumes "tx_view t' = tx_view t"
  shows "m_slist t' = m_slist t" "m_snd_nxt t' = m_snd_nxt t" "m_snd_una t' = m_snd_una t"
    "m_sbuf t' = m_sbuf t" "m_rto_base t' = m_rto_base t" "m_recover t' = m_recover t"
    "m_state t' = m_state t" "m_dup_acks t' = m_dup_acks t" "m_snd_wnd t' = m_snd_wnd t"
    "m_mtu_advise t' = m_mtu_advise t" "m_use_nagling t' = m_use_nagling t"
  using assms by (cases t; cases t'; simp add: tx_view_def)+

lemma transmit_weight:
  assumes tr: "transmit E t i now = (True, t')"
    and x: "ss_xmit (m_slist t ! i) = 0" and mss: "ss_len (m_slist t ! i) \<le> m_mss t"
  shows "unsent_weight (m_slist t') < unsent_weight (m_slist t)
    \<and> (0 < ss_len (m_slist t ! i) \<longrightarrow> unsent_weight (m_slist t') + 1 < unsent_weight (m_slist t))"
proof -
  let ?seg = "m_slist t ! i"
  have min: "min (ss_len ?seg) (m_mss t) = ss_len ?seg" using mss by (rule min_absorb1)
  note ts = transmit_slist [OF tr, unfolded min]
  from ts have i: "i < length (m_slist t)" and xm: "ss_xmit ?seg < 30" by simp_all
  from ts obtain n t1 where v: "tx_view t1 = tx_view t"
    and n: "n \<le> ss_len ?seg" "n = ss_len ?seg \<or> 0 < n"
    and t': "m_slist t' = mark_sent (m_slist t1) i n"
    by (elim conjE exE) simp
  have sl: "m_slist t1 = m_slist t" by (rule tx_view_eqD(1) [OF v])
  show ?thesis
  proof (cases "n < ss_len ?seg")
    case True
    then have "0 < unat n" "unat (ss_len ?seg - n) = unat (ss_len ?seg) - unat n"
      "unat n < unat (ss_len ?seg)"
      using n by (auto simp: word_less_nat_alt unat_sub word_le_nat_alt unat_gt_0)
    with True x i show ?thesis
      by (simp add: t' sl mark_sent_def Let_def unsent_weight_nth [OF i]) arith
  next
    case False
    with n have "n = ss_len ?seg" by simp
    with x i show ?thesis
      by (auto simp: t' sl mark_sent_def Let_def unsent_weight_nth [OF i] word_less_nat_alt)
  qed
qed

lemma split_segment_nth:
  assumes "i < length segs"
  shows "i < length (split_segment segs i n) \<and> ss_xmit (split_segment segs i n ! i) = ss_xmit (segs ! i)
    \<and> ss_len (split_segment segs i n ! i) = min n (ss_len (segs ! i))"
  using assms by (auto simp: split_segment_def Let_def nth_append min_def)

lemma split_segment_weight:
  assumes i: "i < length segs" and x: "ss_xmit (segs ! i) = 0"
  shows "unsent_weight (split_segment segs i n)
    = unsent_weight segs + (if n < ss_len (segs ! i) then 1 else 0)"
proof (cases "n < ss_len (segs ! i)")
  case True
  then have "unat (ss_len (segs ! i) - n) = unat (ss_len (segs ! i)) - unat n"
    "unat n < unat (ss_len (segs ! i))"
    by (auto simp: word_less_nat_alt unat_sub word_le_nat_alt)
  with True x show ?thesis
    by (simp add: split_segment_def Let_def unsent_weight_nth [OF i])
qed (simp add: split_segment_def)

lemma first_unsent_xmit:
  "first_unsent t < length (m_slist t) \<Longrightarrow> ss_xmit (m_slist t ! first_unsent t) = 0"
  using nth_length_takeWhile [of "\<lambda>s. ss_xmit s > 0" "m_slist t"]
  by (simp add: first_unsent_def word_gt_0)

lemma send_available_mss: "send_available t \<le> m_mss t"
proof -
  have cap: "(if a > u then if c then 0 else u else a) \<le> m" if "a \<le> m" for a u m :: uint32 and c
    using that by auto
  show ?thesis unfolding send_available_def Let_def by (rule cap) (rule min.cobounded2)
qed

lemma attempt_progress:
  assumes tr: "transmit E (t\<lparr>m_slist := split_segment (m_slist t) (first_unsent t) (send_available t)\<rparr>)
      (first_unsent t) now = (True, t')"
    and i: "first_unsent t < length (m_slist t)" and a: "send_available t \<noteq> 0"
  shows "unsent_weight (m_slist t') < unsent_weight (m_slist t)"
proof -
  let ?i = "first_unsent t" and ?n = "send_available t"
  let ?s = "split_segment (m_slist t) ?i ?n"
  have x: "ss_xmit (m_slist t ! ?i) = 0" by (rule first_unsent_xmit [OF i])
  note sp = split_segment_nth [OF i, of ?n]
  have len: "ss_len (?s ! ?i) \<le> m_mss (t\<lparr>m_slist := ?s\<rparr>)"
    using sp send_available_mss [of t] by (simp add: min.coboundedI1)
  have w: "unsent_weight (m_slist t') < unsent_weight ?s"
    "0 < ss_len (?s ! ?i) \<Longrightarrow> unsent_weight (m_slist t') + 1 < unsent_weight ?s"
    using transmit_weight [OF tr] sp x len by simp_all
  show ?thesis
  proof (cases "?n < ss_len (m_slist t ! ?i)")
    case True
    with sp a have "0 < ss_len (?s ! ?i)" by (auto simp: min_def word_gt_0)
    from w(2) [OF this] True show ?thesis by (simp add: split_segment_weight [OF i x])
  next
    case False
    with w(1) show ?thesis by (simp add: split_segment_weight [OF i x])
  qed
qed

function attempt_loop ::
  "net_env \<Rightarrow> pseudo_tcp \<Rightarrow> send_flags \<Rightarrow> uint32 \<Rightarrow> pseudo_tcp" where
  "attempt_loop E t sflags now =
     (let nAvailable = send_available t; i = first_unsent t in
      if nAvailable = 0 then send_ack E t sflags
      else if m_use_nagling t \<and> m_snd_nxt t > m_snd_una t \<and> nAvailable < m_mss t then t
      else if i \<ge> length (m_slist t) then t\<lparr>w_ok := False\<rparr>
      else case transmit E (t\<lparr>m_slist := split_segment (m_slist t) i nAvailable\<rparr>) i now of
             (False, t') \<Rightarrow> t'
           | (True, t') \<Rightarrow> attempt_loop E t' sfNone now)"
  by pat_completeness auto
termination
proof (relation "measure (\<lambda>(E, t, sflags, now). unsent_weight (m_slist t))", goal_cases)
  case 2
  then show ?case by clarsimp (rule attempt_progress [OF sym], simp_all add: not_le)
qed simp

declare attempt_loop.simps [simp del]

definition attemptSend :: "net_env \<Rightarrow> pseudo_tcp \<Rightarrow> send_flags \<Rightarrow> pseudo_tcp" where
  "attemptSend E t sflags =
     (let (now, t1) = Now E t;
          t2 = (if TimeDiff now (m_lastsend t1) > uint (m_rx_rto t1)
                then t1\<lparr>m_cwnd := m_mss t1\<rparr> else t1)
      in attempt_loop E t2 sflags now)"

definition closedown :: "pseudo_tcp \<Rightarrow> errno \<Rightarrow> pseudo_tcp" where
  "closedown t err = tcp_notify (OnTcpClosed err) (t\<lparr>m_state := TCP_CLOSED\<rparr>)"

text \<open>The loop of \<^verbatim>\<open>adjustMTU\<close>: the first level whose size the path takes, or the last.\<close>

function mss_level :: "uint32 \<Rightarrow> uint32 \<Rightarrow> uint32" where
  "mss_level advise level =
     (if packet_maximum (level + 1) > 0 \<and> \<not> packet_maximum level \<le> advise
      then mss_level advise (level + 1) else level)"
  by pat_completeness auto
termination
  by (relation "measure (\<lambda>(advise, level). level_rank level)") (auto intro: level_rank_less simp: word_gt_0)

declare mss_level.simps [simp del]

definition adjustMTU :: "pseudo_tcp \<Rightarrow> pseudo_tcp" where
  "adjustMTU t =
     (let mss = m_mtu_advise t - PACKET_OVERHEAD
      in t\<lparr>m_msslevel := mss_level (m_mtu_advise t) 0, m_mss := mss,
           m_ssthresh := max (m_ssthresh t) (2 * mss), m_cwnd := max (m_cwnd t) mss\<rparr>)"

end
