(* ===== verification/TcpProcess.thy ===== *)
theory TcpProcess
  imports TcpSend
begin

text \<open>
  The receiving half of \<^verbatim>\<open>PseudoTcp\<close>: \<^verbatim>\<open>parse\<close>, \<^verbatim>\<open>process\<close> and what they call.  The long
  handler is cut, in its own order, into the control message, the acknowledgement, the
  notifications, and the data, each a definition; \<open>process\<close> composes them.  A \<^verbatim>\<open>bool\<close> beside
  the state is the handler's result so far: \<open>False\<close> is an early \<^verbatim>\<open>return false\<close>.
\<close>

section \<open>Options and the connect message\<close>

definition resizeSendBuffer :: "pseudo_tcp \<Rightarrow> uint32 \<Rightarrow> pseudo_tcp" where
  "resizeSendBuffer t new_size =
     t\<lparr>m_sbuf_len := new_size, m_sbuf := snd (SetCapacity (m_sbuf t) (unat new_size))\<rparr>"

function scale_window :: "uint32 \<Rightarrow> uint8 \<Rightarrow> uint32 \<times> uint8" where
  "scale_window new_size scale_factor =
     (if new_size > 0xFFFF then scale_window (drop_bit 1 new_size) (scale_factor + 1)
      else (new_size, scale_factor))"
  by pat_completeness auto
termination
proof (relation "measure (\<lambda>(n, s). unat n)", goal_cases)
  case (2 n s)
  then have "0 < unat n" by (simp add: word_less_nat_alt)
  then show ?case by (simp add: drop_bit_Suc unat_div)
qed simp

declare scale_window.simps [simp del]

definition resizeReceiveBuffer :: "pseudo_tcp \<Rightarrow> uint32 \<Rightarrow> pseudo_tcp" where
  "resizeReceiveBuffer t new_size =
     (let (scaled, scale_factor) = scale_window new_size 0;
          new_size = push_bit (unat scale_factor) scaled;
          (result, rbuf) = SetCapacity (m_rbuf t) (unat new_size)
      in t\<lparr>w_ok := w_ok t \<and> result, m_rbuf := rbuf, m_rbuf_len := new_size,
           m_rwnd_scale := scale_factor, m_ssthresh := new_size,
           m_rcv_wnd := of_nat (GetWriteRemaining rbuf)\<rparr>)"

definition queueConnectMessage :: "pseudo_tcp \<Rightarrow> pseudo_tcp" where
  "queueConnectMessage t =
     (let buf = WriteUInt8 (bb_new ORDER_NETWORK) CTL_CONNECT;
          buf = (if m_support_wnd_scale t
                 then WriteUInt8 (WriteUInt8 (WriteUInt8 buf TCP_OPT_WND_SCALE) 1) (m_rwnd_scale t)
                 else buf)
      in snd (tcp_queue (t\<lparr>m_snd_wnd := of_nat (bb_length buf)\<rparr>) (bb_data buf)
                (of_nat (bb_length buf)) True))"

definition applyWindowScaleOption :: "pseudo_tcp \<Rightarrow> uint8 \<Rightarrow> pseudo_tcp" where
  "applyWindowScaleOption t scale_factor = t\<lparr>m_swnd_scale := scale_factor\<rparr>"

definition applyOption :: "pseudo_tcp \<Rightarrow> uint8 \<Rightarrow> bytes \<Rightarrow> uint32 \<Rightarrow> pseudo_tcp" where
  "applyOption t kind data len =
     (if kind = TCP_OPT_MSS then t
      else if kind = TCP_OPT_WND_SCALE
      then if len \<noteq> 1 then t else applyWindowScaleOption t (data ! 0)
      else t)"

text \<open>The option loop: \<open>None\<close> in the second component is the return on an invalid length.\<close>

function parse_options_loop ::
  "pseudo_tcp \<Rightarrow> byte_buffer \<Rightarrow> uint8 set \<Rightarrow> pseudo_tcp \<times> uint8 set option" where
  "parse_options_loop t buf specified =
     (case ReadUInt8 buf of
        None \<Rightarrow> (t, Some specified)
      | Some (kind, buf) \<Rightarrow>
          if kind = TCP_OPT_EOL then (t, Some specified)
          else if kind = TCP_OPT_NOOP then parse_options_loop t buf specified
          else
            let (opt_len, buf) = (case ReadUInt8 buf of None \<Rightarrow> (0, buf) | Some (l, b) \<Rightarrow> (l, b))
            in case bb_consume buf (unat opt_len) of
                 None \<Rightarrow> (t, None)
               | Some buf' \<Rightarrow>
                   parse_options_loop (applyOption t kind (bb_data buf) (ucast opt_len)) buf'
                     (insert kind specified))"
  by pat_completeness auto
termination
  by (relation "measure (\<lambda>(t, b, s). bb_length b)")
    (auto simp: ReadUInt8_def ReadBytes_def bb_consume_def bb_length_def split: if_splits option.splits)

declare parse_options_loop.simps [simp del]

definition parseOptions :: "pseudo_tcp \<Rightarrow> bytes \<Rightarrow> pseudo_tcp" where
  "parseOptions t data =
     (case parse_options_loop t (bb_of_bytes data) {} of
        (t, None) \<Rightarrow> t
      | (t, Some specified) \<Rightarrow>
          if TCP_OPT_WND_SCALE \<notin> specified \<and> m_rwnd_scale t > 0
          then (resizeReceiveBuffer t DEFAULT_RCV_BUF_SIZE)\<lparr>m_swnd_scale := 0\<rparr>
          else t)"

section \<open>The control message\<close>

text \<open>Becoming established: the state, the packet size, the notification.\<close>

definition establish :: "pseudo_tcp \<Rightarrow> pseudo_tcp" where
  "establish t = tcp_notify OnTcpOpen (adjustMTU (t\<lparr>m_state := TCP_ESTABLISHED\<rparr>))"

definition process_connect :: "pseudo_tcp \<Rightarrow> segment \<Rightarrow> pseudo_tcp" where
  "process_connect t seg =
     (let t1 = parseOptions t (take (unat (seg_len seg - 1)) (drop 1 (seg_data seg)))
      in case m_state t1 of
           TCP_LISTEN \<Rightarrow> queueConnectMessage (t1\<lparr>m_state := TCP_SYN_RECEIVED\<rparr>)
         | TCP_SYN_SENT \<Rightarrow> establish t1
         | _ \<Rightarrow> t1)"

definition process_control :: "pseudo_tcp \<Rightarrow> segment \<Rightarrow> bool \<times> pseudo_tcp" where
  "process_control t seg =
     (if seg_flags seg AND FLAG_CTL = 0 then (True, t)
      else if seg_len seg = 0 then (False, t)
      else if seg_data seg ! 0 = CTL_CONNECT then (True, process_connect t seg)
      else (False, t))"

definition is_connect :: "segment \<Rightarrow> bool" where
  "is_connect seg \<longleftrightarrow> seg_flags seg AND FLAG_CTL \<noteq> 0 \<and> seg_len seg \<noteq> 0
     \<and> seg_data seg ! 0 = CTL_CONNECT"

section \<open>The acknowledgement\<close>

text \<open>A shift by 32 or more is undefined in the source.\<close>

definition update_snd_wnd :: "pseudo_tcp \<Rightarrow> segment \<Rightarrow> pseudo_tcp" where
  "update_snd_wnd t seg =
     t\<lparr>m_snd_wnd := push_bit (unat (m_swnd_scale t)) (ucast (seg_wnd seg)),
       w_ok := w_ok t \<and> m_swnd_scale t < 32\<rparr>"

definition update_rtt :: "pseudo_tcp \<Rightarrow> uint32 \<Rightarrow> uint32 \<Rightarrow> pseudo_tcp" where
  "update_rtt t tsecr now =
     (if tsecr = 0 then t
      else
        let rtt = TimeDiff now tsecr in
        if rtt < 0 then t\<lparr>w_ok := False\<rparr>
        else
          let rttvar = (if m_rx_srtt t = 0 then word_of_int (rtt div 2)
                        else word_of_int ((uint (3 * m_rx_rttvar t) + \<bar>rtt - uint (m_rx_srtt t)\<bar>) div 4));
              srtt = (if m_rx_srtt t = 0 then word_of_int rtt
                      else word_of_int ((uint (7 * m_rx_srtt t) + rtt) div 8))
          in t\<lparr>m_rx_rttvar := rttvar, m_rx_srtt := srtt,
               m_rx_rto := bound MIN_RTO (srtt + max 1 (4 * rttvar)) MAX_RTO\<rparr>)"

text \<open>Take \<open>nFree\<close> acknowledged bytes off the segment list; \<open>largest\<close> is \<^verbatim>\<open>m_largest\<close>.  The
  \<^verbatim>\<open>bool\<close> is \<^verbatim>\<open>ASSERT(!m_slist.empty())\<close>.\<close>

fun release_acked ::
  "uint32 \<Rightarrow> uint32 \<Rightarrow> ssegment list \<Rightarrow> bool \<times> uint32 \<times> ssegment list" where
  "release_acked nFree largest [] = (nFree = 0, largest, [])"
| "release_acked nFree largest (s # ss) =
     (if nFree = 0 then (True, largest, s # ss)
      else if nFree < ss_len s then (True, largest, s\<lparr>ss_len := ss_len s - nFree\<rparr> # ss)
      else release_acked (nFree - ss_len s)
             (if ss_len s > largest then ss_len s else largest) ss)"

definition ack_advance :: "pseudo_tcp \<Rightarrow> segment \<Rightarrow> uint32 \<Rightarrow> pseudo_tcp" where
  "ack_advance t seg now =
     (let nAcked = seg_ack seg - m_snd_una t;
          consumed = ConsumeReadData (m_sbuf t) (unat nAcked);
          (released, largest, slist) = release_acked nAcked (m_largest t) (m_slist t)
      in t\<lparr>m_snd_una := seg_ack seg, m_rto_base := (if seg_ack seg = m_snd_nxt t then 0 else now),
           m_sbuf := (case consumed of None \<Rightarrow> m_sbuf t | Some f \<Rightarrow> f),
           m_slist := slist, m_largest := largest,
           w_ok := w_ok t \<and> consumed \<noteq> None \<and> released\<rparr>)"

text \<open>Congestion control on an acknowledgement of \<open>nAcked\<close> new bytes (NewReno).\<close>

definition ack_congestion ::
  "net_env \<Rightarrow> pseudo_tcp \<Rightarrow> uint32 \<Rightarrow> uint32 \<Rightarrow> bool \<times> pseudo_tcp" where
  "ack_congestion E t nAcked now =
     (if m_dup_acks t \<ge> 3 then
        if m_snd_una t \<ge> m_recover t then
          let nInFlight = m_snd_nxt t - m_snd_una t
          in (True, t\<lparr>m_cwnd := min (m_ssthresh t) (nInFlight + m_mss t), m_dup_acks := 0\<rparr>)
        else
          case transmit E t 0 now of
            (False, t1) \<Rightarrow> (False, closedown t1 ECONNABORTED)
          | (True, t1) \<Rightarrow>
              (True, t1\<lparr>m_cwnd := m_cwnd t1 + (m_mss t1 - min nAcked (m_cwnd t1))\<rparr>)
      else if m_cwnd t < m_ssthresh t
      then (True, t\<lparr>m_dup_acks := 0, m_cwnd := m_cwnd t + m_mss t\<rparr>)
      else (True, t\<lparr>m_dup_acks := 0, w_ok := w_ok t \<and> m_cwnd t \<noteq> 0,
                   m_cwnd := m_cwnd t + max 1 (m_mss t * m_mss t div m_cwnd t)\<rparr>))"

definition duplicate_ack :: "net_env \<Rightarrow> pseudo_tcp \<Rightarrow> segment \<Rightarrow> uint32 \<Rightarrow> bool \<times> pseudo_tcp" where
  "duplicate_ack E t seg now =
     (if seg_len seg > 0 then (True, t)
      else if m_snd_una t \<noteq> m_snd_nxt t then
        let t1 = t\<lparr>m_dup_acks := m_dup_acks t + 1\<rparr> in
        if m_dup_acks t1 = 3 then
          case transmit E t1 0 now of
            (False, t2) \<Rightarrow> (False, closedown t2 ECONNABORTED)
          | (True, t2) \<Rightarrow>
              let nInFlight = m_snd_nxt t2 - m_snd_una t2;
                  ssthresh = max (nInFlight div 2) (2 * m_mss t2)
              in (True, t2\<lparr>m_recover := m_snd_nxt t2, m_ssthresh := ssthresh,
                          m_cwnd := ssthresh + 3 * m_mss t2\<rparr>)
        else if m_dup_acks t1 > 3 then (True, t1\<lparr>m_cwnd := m_cwnd t1 + m_mss t1\<rparr>)
        else (True, t1)
      else (True, t\<lparr>m_dup_acks := 0\<rparr>))"

definition process_ack :: "net_env \<Rightarrow> pseudo_tcp \<Rightarrow> segment \<Rightarrow> uint32 \<Rightarrow> bool \<times> pseudo_tcp" where
  "process_ack E t seg now =
     (if seg_ack seg > m_snd_una t \<and> seg_ack seg \<le> m_snd_nxt t then
        ack_congestion E
          (ack_advance (update_snd_wnd (update_rtt t (seg_tsecr seg) now) seg) seg now)
          (seg_ack seg - m_snd_una t) now
      else if seg_ack seg = m_snd_una t then duplicate_ack E (update_snd_wnd t seg) seg now
      else (True, t))"

section \<open>The data\<close>

definition update_timestamp :: "pseudo_tcp \<Rightarrow> segment \<Rightarrow> pseudo_tcp" where
  "update_timestamp t seg =
     (if seg_seq seg \<le> m_ts_lastack t \<and> m_ts_lastack t < seg_seq seg + seg_len seg
      then t\<lparr>m_ts_recent := seg_tsval seg\<rparr> else t)"

definition notify_writeable :: "pseudo_tcp \<Rightarrow> pseudo_tcp" where
  "notify_writeable t =
     (let kIdealRefillSize = (m_sbuf_len t + m_rbuf_len t) div 2
      in if m_bWriteEnable t \<and> of_nat (GetBuffered (m_sbuf t)) < kIdealRefillSize
         then tcp_notify OnTcpWriteable (t\<lparr>m_bWriteEnable := False\<rparr>) else t)"

definition ack_flags :: "pseudo_tcp \<Rightarrow> segment \<Rightarrow> send_flags" where
  "ack_flags t seg =
     (if seg_seq seg \<noteq> m_rcv_nxt t then sfImmediateAck
      else if seg_len seg \<noteq> 0 then if m_ack_delay t = 0 then sfImmediateAck else sfDelayedAck
      else sfNone)"

text \<open>Adjust the segment to what is expected next, then to the room in the buffer.\<close>

definition trim_front :: "uint32 \<Rightarrow> segment \<Rightarrow> segment" where
  "trim_front rcv_nxt seg =
     (if seg_seq seg < rcv_nxt then
        let nAdjust = rcv_nxt - seg_seq seg in
        if nAdjust < seg_len seg
        then seg\<lparr>seg_seq := seg_seq seg + nAdjust, seg_data := drop (unat nAdjust) (seg_data seg),
                 seg_len := seg_len seg - nAdjust\<rparr>
        else seg\<lparr>seg_len := 0\<rparr>
      else seg)"

definition trim_back :: "uint32 \<Rightarrow> uint32 \<Rightarrow> segment \<Rightarrow> segment" where
  "trim_back rcv_nxt available seg =
     (if seg_seq seg + seg_len seg - rcv_nxt > available then
        let nAdjust = seg_seq seg + seg_len seg - rcv_nxt - available in
        if nAdjust < seg_len seg then seg\<lparr>seg_len := seg_len seg - nAdjust\<rparr>
        else seg\<lparr>seg_len := 0\<rparr>
      else seg)"

definition trim_segment :: "pseudo_tcp \<Rightarrow> segment \<Rightarrow> segment" where
  "trim_segment t seg =
     trim_back (m_rcv_nxt t) (of_nat (GetWriteRemaining (m_rbuf t))) (trim_front (m_rcv_nxt t) seg)"

text \<open>Move \<open>n\<close> bytes that are already in place into the readable part.\<close>

definition commit_received :: "pseudo_tcp \<Rightarrow> uint32 \<Rightarrow> pseudo_tcp" where
  "commit_received t n =
     (case ConsumeWriteBuffer (m_rbuf t) (unat n) of
        None \<Rightarrow> t\<lparr>w_ok := False, m_rcv_nxt := m_rcv_nxt t + n, m_rcv_wnd := m_rcv_wnd t - n\<rparr>
      | Some f \<Rightarrow> t\<lparr>m_rbuf := f, m_rcv_nxt := m_rcv_nxt t + n, m_rcv_wnd := m_rcv_wnd t - n\<rparr>)"

text \<open>The loop over \<^verbatim>\<open>m_rlist\<close> after in-order data arrived.\<close>

fun recover_rlist ::
  "pseudo_tcp \<Rightarrow> send_flags \<Rightarrow> rsegment list \<Rightarrow> pseudo_tcp \<times> send_flags \<times> rsegment list" where
  "recover_rlist t sflags [] = (t, sflags, [])"
| "recover_rlist t sflags (r # rs) =
     (if rs_seq r \<le> m_rcv_nxt t then
        if rs_seq r + rs_len r > m_rcv_nxt t
        then recover_rlist (commit_received t (rs_seq r + rs_len r - m_rcv_nxt t)) sfImmediateAck rs
        else recover_rlist t sflags rs
      else (t, sflags, r # rs))"

definition insert_rsegment :: "rsegment \<Rightarrow> rsegment list \<Rightarrow> rsegment list" where
  "insert_rsegment rseg rs =
     takeWhile (\<lambda>r. rs_seq r < rs_seq rseg) rs @ rseg # dropWhile (\<lambda>r. rs_seq r < rs_seq rseg) rs"

definition store_data :: "pseudo_tcp \<Rightarrow> segment \<Rightarrow> pseudo_tcp" where
  "store_data t seg =
     (let (result, n, f) = WriteOffset (m_rbuf t) (take (unat (seg_len seg)) (seg_data seg))
                             (unat (seg_seq seg - m_rcv_nxt t))
      in t\<lparr>m_rbuf := f, w_ok := w_ok t \<and> result = SR_SUCCESS\<rparr>)"

text \<open>The result is the state, the acknowledgement to send and \<^verbatim>\<open>bNewData\<close>.\<close>

definition receive_data ::
  "pseudo_tcp \<Rightarrow> segment \<Rightarrow> send_flags \<Rightarrow> pseudo_tcp \<times> send_flags \<times> bool" where
  "receive_data t seg sflags =
     (if seg_len seg = 0 then (t, sflags, False)
      else if seg_flags seg AND FLAG_CTL \<noteq> 0 \<or> m_shutdown t \<noteq> SD_NONE then
        (if seg_seq seg = m_rcv_nxt t then t\<lparr>m_rcv_nxt := m_rcv_nxt t + seg_len seg\<rparr> else t,
         sflags, False)
      else
        let t1 = store_data t seg in
        if seg_seq seg = m_rcv_nxt t1 then
          let (t2, sflags, rs) = recover_rlist (commit_received t1 (seg_len seg)) sflags (m_rlist t1)
          in (t2\<lparr>m_rlist := rs\<rparr>, sflags, True)
        else
          (t1\<lparr>m_rlist := insert_rsegment \<lparr>rs_seq = seg_seq seg, rs_len = seg_len seg\<rparr> (m_rlist t1)\<rparr>,
           sflags, False))"

definition notify_readable :: "pseudo_tcp \<Rightarrow> bool \<Rightarrow> pseudo_tcp" where
  "notify_readable t bNewData =
     (if bNewData \<and> m_bReadEnable t
      then tcp_notify OnTcpReadable (t\<lparr>m_bReadEnable := False\<rparr>) else t)"

section \<open>The handler\<close>

text \<open>From the end of the acknowledgement part to the end of the handler.\<close>

definition process_data :: "net_env \<Rightarrow> pseudo_tcp \<Rightarrow> segment \<Rightarrow> pseudo_tcp" where
  "process_data E t seg =
     (let t1 = (if m_state t = TCP_SYN_RECEIVED \<and> \<not> is_connect seg then establish t else t);
          t2 = notify_writeable t1;
          sflags = ack_flags t2 seg;
          (t3, sflags, bNewData) = receive_data t2 (trim_segment t2 seg) sflags
      in notify_readable (attemptSend E t3 sflags) bNewData)"

definition process :: "net_env \<Rightarrow> pseudo_tcp \<Rightarrow> segment \<Rightarrow> bool \<times> pseudo_tcp" where
  "process E t seg =
     (if seg_conv seg \<noteq> m_conv t then (False, t)
      else
        let (now, t1) = Now E t;
            t2 = t1\<lparr>m_lasttraffic := now, m_lastrecv := now, m_bOutgoing := False\<rparr>
        in if m_state t2 = TCP_CLOSED then (False, t2)
           else if seg_flags seg AND FLAG_RST \<noteq> 0 then (False, closedown t2 ECONNRESET)
           else case process_control t2 seg of
                  (False, t3) \<Rightarrow> (False, t3)
                | (True, t3) \<Rightarrow>
                    (case process_ack E (update_timestamp t3 seg) seg now of
                       (False, t4) \<Rightarrow> (False, t4)
                     | (True, t4) \<Rightarrow> (True, process_data E t4 seg)))"

text \<open>\<^verbatim>\<open>parse\<close> reads the 24 header bytes once it has seen that there are 12: what it reads of a
  packet of 12 to 23 bytes lies outside it.\<close>

definition parse_segment :: "bytes \<Rightarrow> segment" where
  "parse_segment buffer =
     \<lparr>seg_conv = bytes_to_long (mem_read buffer 0 4), seg_seq = bytes_to_long (mem_read buffer 4 4),
      seg_ack = bytes_to_long (mem_read buffer 8 4), seg_flags = buffer ! 13,
      seg_wnd = bytes_to_short (mem_read buffer 14 2),
      seg_data = drop (unat HEADER_SIZE) buffer, seg_len = of_nat (length buffer) - HEADER_SIZE,
      seg_tsval = bytes_to_long (mem_read buffer 16 4),
      seg_tsecr = bytes_to_long (mem_read buffer 20 4)\<rparr>"

definition tcp_parse :: "net_env \<Rightarrow> pseudo_tcp \<Rightarrow> bytes \<Rightarrow> bool \<times> pseudo_tcp" where
  "tcp_parse E t buffer =
     (if (of_nat (length buffer) :: uint32) < 12 then (False, t)
      else if length buffer < 24 then (False, t\<lparr>w_ok := False\<rparr>)
      else process E t (parse_segment buffer))"

end
