(* ===== verification/TcpApi.thy ===== *)
theory TcpApi
  imports TcpProcess
begin

text \<open>
  The public operations of \<^verbatim>\<open>PseudoTcp\<close>: \<^verbatim>\<open>Connect\<close>, \<^verbatim>\<open>Send\<close>, \<^verbatim>\<open>Recv\<close>, \<^verbatim>\<open>Close\<close>, the
  options, and the notifications a driver makes (a packet arrived, the clock ran, the
  path MTU changed).  \<open>tcp_call\<close> is one such call and \<open>tcp_run\<close> a history of them, so that
  what holds of every run holds whatever the network and the application do.
\<close>

section \<open>Connecting, options, getters\<close>

definition Connect :: "net_env \<Rightarrow> pseudo_tcp \<Rightarrow> int \<times> pseudo_tcp" where
  "Connect E t =
     (if m_state t \<noteq> TCP_LISTEN then (-1, t\<lparr>m_error := EINVAL\<rparr>)
      else (0, attemptSend E (queueConnectMessage (t\<lparr>m_state := TCP_SYN_SENT\<rparr>)) sfNone))"

definition NotifyMTU :: "pseudo_tcp \<Rightarrow> uint16 \<Rightarrow> pseudo_tcp" where
  "NotifyMTU t mtu =
     (let t1 = t\<lparr>m_mtu_advise := ucast mtu\<rparr>
      in if m_state t1 = TCP_ESTABLISHED then adjustMTU t1 else t1)"

definition GetOption :: "pseudo_tcp \<Rightarrow> tcp_option \<Rightarrow> int" where
  "GetOption t opt =
     (case opt of
        OPT_NODELAY \<Rightarrow> if m_use_nagling t then 0 else 1
      | OPT_ACKDELAY \<Rightarrow> sint (m_ack_delay t)
      | OPT_SNDBUF \<Rightarrow> sint (m_sbuf_len t)
      | OPT_RCVBUF \<Rightarrow> sint (m_rbuf_len t))"

definition SetOption :: "pseudo_tcp \<Rightarrow> tcp_option \<Rightarrow> int \<Rightarrow> pseudo_tcp" where
  "SetOption t opt v =
     (case opt of
        OPT_NODELAY \<Rightarrow> t\<lparr>m_use_nagling := (v = 0)\<rparr>
      | OPT_ACKDELAY \<Rightarrow> t\<lparr>m_ack_delay := word_of_int v\<rparr>
      | OPT_SNDBUF \<Rightarrow> resizeSendBuffer (tcp_assert (m_state t = TCP_LISTEN) t) (word_of_int v)
      | OPT_RCVBUF \<Rightarrow> resizeReceiveBuffer (tcp_assert (m_state t = TCP_LISTEN) t) (word_of_int v))"

definition GetCongestionWindow :: "pseudo_tcp \<Rightarrow> uint32" where
  "GetCongestionWindow t = m_cwnd t"

definition GetBytesInFlight :: "pseudo_tcp \<Rightarrow> uint32" where
  "GetBytesInFlight t = m_snd_nxt t - m_snd_una t"

definition GetBytesBufferedNotSent :: "pseudo_tcp \<Rightarrow> uint32" where
  "GetBytesBufferedNotSent t =
     ucast (ucast (m_snd_una t) + of_nat (GetBuffered (m_sbuf t)) - ucast (m_snd_nxt t) :: uint64)"

definition GetRoundTripTimeEstimateMs :: "pseudo_tcp \<Rightarrow> uint32" where
  "GetRoundTripTimeEstimateMs t = m_rx_srtt t"

definition isReceiveBufferFull :: "pseudo_tcp \<Rightarrow> bool" where
  "isReceiveBufferFull t \<longleftrightarrow> GetWriteRemaining (m_rbuf t) = 0"

definition disableWindowScale :: "pseudo_tcp \<Rightarrow> pseudo_tcp" where
  "disableWindowScale t = t\<lparr>m_support_wnd_scale := False\<rparr>"

section \<open>The clock\<close>

definition clock_retransmit :: "net_env \<Rightarrow> pseudo_tcp \<Rightarrow> uint32 \<Rightarrow> bool \<times> pseudo_tcp" where
  "clock_retransmit E t now =
     (if m_rto_base t \<noteq> 0 \<and> TimeDiff (m_rto_base t + m_rx_rto t) now \<le> 0 then
        if m_slist t = [] then (True, t\<lparr>w_ok := False\<rparr>)
        else case transmit E t 0 now of
               (False, t1) \<Rightarrow> (False, closedown t1 ECONNABORTED)
             | (True, t1) \<Rightarrow>
                 let nInFlight = m_snd_nxt t1 - m_snd_una t1;
                     rto_limit = (if m_state t1 = TCP_LISTEN \<or> m_state t1 = TCP_SYN_SENT
                                     \<or> m_state t1 = TCP_SYN_RECEIVED then DEF_RTO else MAX_RTO)
                 in (True, t1\<lparr>m_ssthresh := max (nInFlight div 2) (2 * m_mss t1), m_cwnd := m_mss t1,
                             m_rx_rto := min rto_limit (m_rx_rto t1 * 2), m_rto_base := now\<rparr>)
      else (True, t))"

definition clock_probe :: "net_env \<Rightarrow> pseudo_tcp \<Rightarrow> uint32 \<Rightarrow> bool \<times> pseudo_tcp" where
  "clock_probe E t now =
     (if m_snd_wnd t = 0 \<and> TimeDiff (m_lastsend t + m_rx_rto t) now \<le> 0 then
        if TimeDiff now (m_lastrecv t) \<ge> 15000 then (False, closedown t ECONNABORTED)
        else let t1 = snd (tcp_packet E t (m_snd_nxt t - 1) 0 0 0)
             in (True, t1\<lparr>m_lastsend := now, m_rx_rto := min MAX_RTO (m_rx_rto t1 * 2)\<rparr>)
      else (True, t))"

definition clock_ack :: "net_env \<Rightarrow> pseudo_tcp \<Rightarrow> uint32 \<Rightarrow> pseudo_tcp" where
  "clock_ack E t now =
     (if m_t_ack t \<noteq> 0 \<and> TimeDiff (m_t_ack t + m_ack_delay t) now \<le> 0
      then snd (tcp_packet E t (m_snd_nxt t) 0 0 0) else t)"

definition NotifyClock :: "net_env \<Rightarrow> pseudo_tcp \<Rightarrow> uint32 \<Rightarrow> pseudo_tcp" where
  "NotifyClock E t now =
     (if m_state t = TCP_CLOSED then t
      else case clock_retransmit E t now of
             (False, t1) \<Rightarrow> t1
           | (True, t1) \<Rightarrow>
               (case clock_probe E t1 now of
                  (False, t2) \<Rightarrow> t2
                | (True, t2) \<Rightarrow> clock_ack E t2 now))"

definition clock_check :: "pseudo_tcp \<Rightarrow> uint32 \<Rightarrow> int option" where
  "clock_check t now =
     (if m_shutdown t = SD_FORCEFUL then None
      else if m_shutdown t = SD_GRACEFUL
              \<and> (m_state t \<noteq> TCP_ESTABLISHED \<or> (GetBuffered (m_sbuf t) = 0 \<and> m_t_ack t = 0))
      then None
      else if m_state t = TCP_CLOSED then Some CLOSED_TIMEOUT
      else
        let n0 = DEFAULT_TIMEOUT;
            n1 = (if m_t_ack t \<noteq> 0 then min n0 (TimeDiff (m_t_ack t + m_ack_delay t) now) else n0);
            n2 = (if m_rto_base t \<noteq> 0 then min n1 (TimeDiff (m_rto_base t + m_rx_rto t) now) else n1)
        in Some (if m_snd_wnd t = 0 then min n2 (TimeDiff (m_lastsend t + m_rx_rto t) now) else n2))"

definition GetNextClock :: "pseudo_tcp \<Rightarrow> uint32 \<Rightarrow> int option" where
  "GetNextClock t now = clock_check t now"

section \<open>Packets and data\<close>

definition NotifyPacket :: "net_env \<Rightarrow> pseudo_tcp \<Rightarrow> bytes \<Rightarrow> bool \<times> pseudo_tcp" where
  "NotifyPacket E t buffer =
     (if int (length buffer) > uint MAX_PACKET then (False, t) else tcp_parse E t buffer)"

text \<open>\<open>Recv E t len\<close> returns the code's result, and the bytes put into the caller's buffer.\<close>

definition Recv :: "net_env \<Rightarrow> pseudo_tcp \<Rightarrow> nat \<Rightarrow> int \<times> bytes \<times> pseudo_tcp" where
  "Recv E t len =
     (if m_state t \<noteq> TCP_ESTABLISHED then (-1, [], t\<lparr>m_error := ENOTCONN\<rparr>)
      else
        let (result, data, rbuf) = Read (m_rbuf t) len in
        if result = SR_BLOCK
        then (-1, [], t\<lparr>m_rbuf := rbuf, m_bReadEnable := True, m_error := EWOULDBLOCK\<rparr>)
        else
          let available = of_nat (GetWriteRemaining rbuf) :: uint32;
              t1 = t\<lparr>m_rbuf := rbuf, w_ok := w_ok t \<and> result = SR_SUCCESS\<rparr>
          in if available - m_rcv_wnd t \<ge> min (m_rbuf_len t div 2) (m_mss t)
             then let t2 = t1\<lparr>m_rcv_wnd := available\<rparr>
                  in (int (length data), data,
                      if m_rcv_wnd t = 0 then attemptSend E t2 sfImmediateAck else t2)
             else (int (length data), data, t1))"

definition Send :: "net_env \<Rightarrow> pseudo_tcp \<Rightarrow> bytes \<Rightarrow> int \<times> pseudo_tcp" where
  "Send E t buffer =
     (if m_state t \<noteq> TCP_ESTABLISHED then (-1, t\<lparr>m_error := ENOTCONN\<rparr>)
      else if GetWriteRemaining (m_sbuf t) = 0
      then (-1, t\<lparr>m_bWriteEnable := True, m_error := EWOULDBLOCK\<rparr>)
      else let (written, t1) = tcp_queue t buffer (of_nat (length buffer)) False
           in (sint written, attemptSend E t1 sfNone))"

definition Close :: "pseudo_tcp \<Rightarrow> bool \<Rightarrow> pseudo_tcp" where
  "Close t force = t\<lparr>m_shutdown := (if force then SD_FORCEFUL else SD_GRACEFUL)\<rparr>"

definition GetError :: "pseudo_tcp \<Rightarrow> errno" where
  "GetError t = m_error t"

section \<open>Histories\<close>

datatype tcp_call =
    CConnect
  | CNotifyMTU uint16
  | CNotifyClock uint32
  | CNotifyPacket bytes
  | CRecv nat
  | CSend bytes
  | CClose bool
  | CSetOption tcp_option int
  | CDisableWindowScale

text \<open>One call, and the bytes it delivers to the application (only \<^verbatim>\<open>Recv\<close> does).\<close>

fun tcp_call_step :: "net_env \<Rightarrow> pseudo_tcp \<Rightarrow> tcp_call \<Rightarrow> bytes \<times> pseudo_tcp" where
  "tcp_call_step E t CConnect = ([], snd (Connect E t))"
| "tcp_call_step E t (CNotifyMTU mtu) = ([], NotifyMTU t mtu)"
| "tcp_call_step E t (CNotifyClock now) = ([], NotifyClock E t now)"
| "tcp_call_step E t (CNotifyPacket buffer) = ([], snd (NotifyPacket E t buffer))"
| "tcp_call_step E t (CRecv len) = snd (Recv E t len)"
| "tcp_call_step E t (CSend buffer) = ([], snd (Send E t buffer))"
| "tcp_call_step E t (CClose force) = ([], Close t force)"
| "tcp_call_step E t (CSetOption opt v) = ([], SetOption t opt v)"
| "tcp_call_step E t CDisableWindowScale = ([], disableWindowScale t)"

fun tcp_run :: "net_env \<Rightarrow> pseudo_tcp \<Rightarrow> tcp_call list \<Rightarrow> bytes \<times> pseudo_tcp" where
  "tcp_run E t [] = ([], t)"
| "tcp_run E t (c # cs) =
     (let (d, t1) = tcp_call_step E t c; (ds, t2) = tcp_run E t1 cs in (d @ ds, t2))"

end
