(* ===== verification/TcpSender.thy ===== *)
theory TcpSender
  imports TcpApi
begin

text \<open>
  What the sending half keeps true.  The segment list describes the send buffer: its
  lengths add up to the buffered bytes, the segments already sent come first, and what they
  add up to is the distance from \<^verbatim>\<open>m_snd_una\<close> to \<^verbatim>\<open>m_snd_nxt\<close> (\<open>snd_inv\<close>).  This holds
  after every call, whatever packets arrive.  When in addition the sequence numbers of the
  segments are those of their bytes (\<open>aligned\<close>), no assertion of the sending code fails and
  every packet carries the bytes that belong at its sequence number.
\<close>

section \<open>The segment list\<close>

definition seg_total :: "ssegment list \<Rightarrow> nat" where
  "seg_total segs = sum_list (map (\<lambda>s. unat (ss_len s)) segs)"

definition sent_total :: "ssegment list \<Rightarrow> nat" where
  "sent_total segs = sum_list (map (\<lambda>s. if ss_xmit s = 0 then 0 else unat (ss_len s)) segs)"

definition sent_first :: "ssegment list \<Rightarrow> bool" where
  "sent_first segs \<longleftrightarrow> sorted_wrt (\<lambda>a b. ss_xmit a = 0 \<longrightarrow> ss_xmit b = 0) segs"

fun contiguous :: "uint32 \<Rightarrow> ssegment list \<Rightarrow> bool" where
  "contiguous seq [] \<longleftrightarrow> True"
| "contiguous seq (s # ss) \<longleftrightarrow> ss_seq s = seq \<and> contiguous (seq + ss_len s) ss"

lemma seg_total_simps [simp]:
  "seg_total [] = 0" "seg_total (s # ss) = unat (ss_len s) + seg_total ss"
  "seg_total (xs @ ys) = seg_total xs + seg_total ys"
  by (simp_all add: seg_total_def)

lemma sent_total_simps [simp]:
  "sent_total [] = 0"
  "sent_total (s # ss) = (if ss_xmit s = 0 then 0 else unat (ss_len s)) + sent_total ss"
  "sent_total (xs @ ys) = sent_total xs + sent_total ys"
  by (simp_all add: sent_total_def)

lemma sent_first_simps [simp]:
  "sent_first []"
  "sent_first (s # ss) \<longleftrightarrow> (ss_xmit s = 0 \<longrightarrow> (\<forall>u\<in>set ss. ss_xmit u = 0)) \<and> sent_first ss"
  "sent_first (xs @ ys) \<longleftrightarrow> sent_first xs \<and> sent_first ys
     \<and> (\<forall>a\<in>set xs. \<forall>b\<in>set ys. ss_xmit a = 0 \<longrightarrow> ss_xmit b = 0)"
  by (auto simp: sent_first_def sorted_wrt_append)

lemma sent_total_le: "sent_total segs \<le> seg_total segs"
  by (induction segs) auto

lemma sent_total_0: "\<forall>s\<in>set segs. ss_xmit s = 0 \<Longrightarrow> sent_total segs = 0"
  by (induction segs) auto

lemma sent_total_all: "\<forall>s\<in>set segs. ss_xmit s \<noteq> 0 \<Longrightarrow> sent_total segs = seg_total segs"
  by (induction segs) auto

lemma contiguous_append [simp]:
  "contiguous seq (xs @ ys) \<longleftrightarrow> contiguous seq xs \<and> contiguous (seq + of_nat (seg_total xs)) ys"
  by (induction xs arbitrary: seq) (auto simp: add.assoc)

text \<open>A list read at position \<open>i\<close>.\<close>

lemma nth_split:
  assumes "i < length segs"
  obtains xs s ys where "segs = xs @ s # ys" "length xs = i" "segs ! i = s"
    "take i segs = xs" "drop (Suc i) segs = ys"
  using assms id_take_nth_drop [OF assms] by (metis length_take min.absorb4)

lemma xmit_suc: "x < 30 \<Longrightarrow> x + 1 \<noteq> (0 :: uint8)"
proof
  assume "x < 30" "x + 1 = 0"
  then have "x = -1" by (simp add: add_eq_0_iff2)
  with \<open>x < 30\<close> show False by simp
qed

lemma mark_sent_props:
  assumes i: "i < length segs" and n: "n \<le> ss_len (segs ! i)" and x: "ss_xmit (segs ! i) < 30"
  shows "seg_total (mark_sent segs i n) = seg_total segs"
    and "sent_total (mark_sent segs i n)
      = sent_total segs + (if ss_xmit (segs ! i) = 0 then unat n else 0)"
    and "contiguous seq segs \<Longrightarrow> contiguous seq (mark_sent segs i n)"
    and "sent_first segs \<Longrightarrow> (ss_xmit (segs ! i) = 0 \<Longrightarrow> \<forall>s\<in>set (take i segs). ss_xmit s \<noteq> 0)
      \<Longrightarrow> sent_first (mark_sent segs i n)"
    and "mark_sent segs i n \<noteq> []"
proof -
  obtain xs s ys where segs: "segs = xs @ s # ys" and len: "length xs = i"
    using nth_split [OF i] by metis
  have s: "segs ! i = s" "take i segs = xs" "drop (Suc i) segs = ys"
    using segs len by (simp_all add: nth_append)
  have un: "n < ss_len s \<Longrightarrow> unat n + unat (ss_len s - n) = unat (ss_len s)"
    by (simp add: unat_sub word_less_nat_alt word_le_nat_alt)
  have eq: "\<not> n < ss_len s \<Longrightarrow> n = ss_len s" using n s by simp
  have x1: "ss_xmit s + 1 \<noteq> 0" using xmit_suc x s by simp
  have m: "mark_sent segs i n = xs @ s\<lparr>ss_len := n, ss_xmit := ss_xmit s + 1\<rparr>
      # (if n < ss_len s
         then [\<lparr>ss_seq = ss_seq s + n, ss_len = ss_len s - n, ss_xmit = ss_xmit s, ss_bCtrl = ss_bCtrl s\<rparr>]
         else []) @ ys"
    using eq by (auto simp: mark_sent_def Let_def s)
  show "seg_total (mark_sent segs i n) = seg_total segs"
    unfolding m unfolding segs using un eq by auto
  show "sent_total (mark_sent segs i n)
      = sent_total segs + (if ss_xmit (segs ! i) = 0 then unat n else 0)"
    unfolding m s(1) unfolding segs using un x1 eq by auto
  show "contiguous seq (mark_sent segs i n)" if "contiguous seq segs"
    using that unfolding m unfolding segs using eq by (auto simp: add.assoc)
  show "sent_first (mark_sent segs i n)" if "sent_first segs"
    "ss_xmit (segs ! i) = 0 \<Longrightarrow> \<forall>s\<in>set (take i segs). ss_xmit s \<noteq> 0"
  proof (cases "ss_xmit s = 0")
    case True
    then have xs: "\<forall>a\<in>set xs. ss_xmit a \<noteq> 0" using that(2) by (simp add: s)
    have "sent_first xs" "sent_first ys" "\<forall>u\<in>set ys. ss_xmit u = 0"
      using that(1) True unfolding segs by simp_all
    with xs True show ?thesis unfolding m by (simp add: x1)
  next
    case False
    then show ?thesis using that(1) unfolding m unfolding segs by (simp add: x1)
  qed
  show "mark_sent segs i n \<noteq> []" by (simp add: m)
qed

lemma split_segment_props:
  assumes i: "i < length segs" and x: "ss_xmit (segs ! i) = 0"
  shows "seg_total (split_segment segs i n) = seg_total segs"
    and "sent_total (split_segment segs i n) = sent_total segs"
    and "contiguous seq segs \<Longrightarrow> contiguous seq (split_segment segs i n)"
    and "sent_first segs \<Longrightarrow> sent_first (split_segment segs i n)"
    and "take i (split_segment segs i n) = take i segs"
    and "split_segment segs i n \<noteq> []"
proof -
  obtain xs s ys where segs: "segs = xs @ s # ys" and len: "length xs = i"
    using nth_split [OF i] by metis
  have s: "segs ! i = s" "take i segs = xs" "drop (Suc i) segs = ys"
    using segs len by (simp_all add: nth_append)
  have un: "n < ss_len s \<Longrightarrow> unat n + unat (ss_len s - n) = unat (ss_len s)"
    by (simp add: unat_sub word_less_nat_alt word_le_nat_alt)
  have x0: "ss_xmit s = 0" using x s by simp
  have m: "split_segment segs i n = xs @ (if n < ss_len s
      then [s\<lparr>ss_len := n\<rparr>,
            \<lparr>ss_seq = ss_seq s + n, ss_len = ss_len s - n, ss_xmit = 0, ss_bCtrl = ss_bCtrl s\<rparr>]
      else [s]) @ ys"
    unfolding split_segment_def Let_def s by (simp add: segs)
  show "seg_total (split_segment segs i n) = seg_total segs"
    unfolding m unfolding segs using un by auto
  show "sent_total (split_segment segs i n) = sent_total segs"
    unfolding m unfolding segs using x0 by auto
  show "contiguous seq (split_segment segs i n)" if "contiguous seq segs"
    using that unfolding m unfolding segs by (auto simp: add.assoc)
  show "sent_first (split_segment segs i n)" if "sent_first segs"
    using that unfolding m unfolding segs using x0 by auto
  show "take i (split_segment segs i n) = take i segs"
    using len by (simp add: m s)
  show "split_segment segs i n \<noteq> []" by (simp add: m)
qed

lemma release_acked_props:
  assumes "sent_first segs" "unat nFree \<le> sent_total segs"
    and "release_acked nFree largest segs = (b, l, segs')"
  shows "b \<and> seg_total segs' + unat nFree = seg_total segs
    \<and> sent_total segs' + unat nFree = sent_total segs \<and> sent_first segs'"
  using assms
proof (induction nFree largest segs arbitrary: b l segs' rule: release_acked.induct)
  case (2 nFree largest s ss)
  show ?case
  proof (cases "nFree = 0 \<or> nFree < ss_len s")
    case True
    then show ?thesis
    proof (cases "nFree = 0")
      case False
      with True have lt: "nFree < ss_len s" by simp
      have "ss_xmit s \<noteq> 0"
        using "2.prems" False by (auto simp: sent_total_0 unat_eq_0)
      with lt False "2.prems" show ?thesis
        by (auto simp: unat_sub word_less_nat_alt word_le_nat_alt)
    qed (use "2.prems" in auto)
  next
    case False
    then have le: "ss_len s \<le> nFree" and nz: "nFree \<noteq> 0" by auto
    have x: "ss_xmit s \<noteq> 0"
      using "2.prems" nz by (auto simp: sent_total_0 unat_eq_0)
    have sub: "unat (nFree - ss_len s) = unat nFree - unat (ss_len s)" "unat (ss_len s) \<le> unat nFree"
      using le by (simp_all add: unat_sub word_le_nat_alt)
    have r: "release_acked (nFree - ss_len s)
        (if ss_len s > largest then ss_len s else largest) ss = (b, l, segs')"
      using "2.prems"(3) False by simp
    have "b \<and> seg_total segs' + unat (nFree - ss_len s) = seg_total ss
      \<and> sent_total segs' + unat (nFree - ss_len s) = sent_total ss \<and> sent_first segs'"
      using "2.prems" False x sub by (intro "2.IH") (auto simp: sub)
    with x sub show ?thesis by auto
  qed
qed (auto simp: unat_eq_0)

text \<open>An acknowledgement on a segment boundary keeps the sequence numbers in place.\<close>

definition on_boundary :: "uint32 \<Rightarrow> ssegment list \<Rightarrow> bool" where
  "on_boundary nAcked segs \<longleftrightarrow> (\<exists>k \<le> length segs. unat nAcked = seg_total (take k segs))"

lemma release_acked_contiguous:
  assumes "contiguous seq segs" "on_boundary nFree segs"
    and "release_acked nFree largest segs = (b, l, segs')"
  shows "contiguous (seq + nFree) segs'"
  using assms
proof (induction nFree largest segs arbitrary: seq b l segs' rule: release_acked.induct)
  case (2 nFree largest s ss)
  obtain k where k: "k \<le> Suc (length ss)" "unat nFree = seg_total (take k (s # ss))"
    using "2.prems"(2) by (auto simp: on_boundary_def)
  show ?case
  proof (cases "nFree = 0")
    case False
    then obtain j where j: "k = Suc j" using k(2) by (cases k) (auto simp: unat_eq_0)
    then have le: "unat (ss_len s) \<le> unat nFree" using k(2) by simp
    then have sub: "unat (nFree - ss_len s) = seg_total (take j ss)"
      using k(2) j by (simp add: unat_sub word_le_nat_alt)
    have "\<not> nFree < ss_len s" using le by (simp add: word_less_nat_alt)
    then have r: "release_acked (nFree - ss_len s)
        (if ss_len s > largest then ss_len s else largest) ss = (b, l, segs')"
      using "2.prems"(3) False by simp
    have "on_boundary (nFree - ss_len s) ss"
      unfolding on_boundary_def using sub k(1) j by auto
    from "2.IH" [OF False \<open>\<not> nFree < ss_len s\<close> _ this r, of "seq + ss_len s"] "2.prems"(1)
    show ?thesis by simp
  qed (use "2.prems" in auto)
qed simp

section \<open>The invariant\<close>

definition snd_inv :: "pseudo_tcp \<Rightarrow> bool" where
  "snd_inv t \<longleftrightarrow>
     fifo_inv (m_sbuf t) \<and> fifo_open (m_sbuf t) \<and> fb_buffer_length (m_sbuf t) < 2 ^ 32
     \<and> seg_total (m_slist t) = fb_data_length (m_sbuf t) \<and> sent_first (m_slist t)
     \<and> unat (m_snd_nxt t - m_snd_una t) = sent_total (m_slist t)
     \<and> (m_rto_base t \<noteq> 0 \<longrightarrow> m_slist t \<noteq> [])
     \<and> (m_recover t \<le> m_snd_nxt t \<or> m_snd_nxt t < m_snd_una t)"

lemma snd_inv_cong:
  assumes "m_sbuf t' = m_sbuf t" "m_slist t' = m_slist t" "m_snd_nxt t' = m_snd_nxt t"
    "m_snd_una t' = m_snd_una t" "m_rto_base t' = m_rto_base t" "m_recover t' = m_recover t"
  shows "snd_inv t' = snd_inv t"
  by (simp add: snd_inv_def assms)

lemma snd_inv_tx_view: "tx_view t' = tx_view t \<Longrightarrow> snd_inv t' = snd_inv t"
  by (intro snd_inv_cong tx_view_eqD)

lemma snd_inv_total: "snd_inv t \<Longrightarrow> seg_total (m_slist t) < 2 ^ 32"
  by (auto simp: snd_inv_def fifo_inv_def)

text \<open>Sending \<open>n\<close> more bytes moves \<^verbatim>\<open>m_snd_nxt\<close>, and keeps the recovery point behind it unless
  the sequence numbers have wrapped.\<close>

lemma advance_nxt:
  fixes nxt una recover n :: uint32
  assumes s: "unat (nxt - una) = s" and b: "s + unat n < 2 ^ 32"
  shows "unat (nxt + n - una) = s + unat n"
    and "recover \<le> nxt \<or> nxt < una \<Longrightarrow> recover \<le> nxt + n \<or> nxt + n < una"
proof -
  have "nxt + n - una = (nxt - una) + n" by simp
  then show "unat (nxt + n - una) = s + unat n"
    using unat_add_nowrap [of "nxt - una" n] s b by (simp only: len_of_numeral_defs) simp
  assume r: "recover \<le> nxt \<or> nxt < una"
  have s': "s = (if una \<le> nxt then unat nxt - unat una else unat nxt + 2 ^ 32 - unat una)"
    using s unfolding unat_sub_if_size word_size word_le_nat by (auto split: if_splits)
  have n': "unat (nxt + n) = (if unat nxt + unat n < 2 ^ 32 then unat nxt + unat n
      else unat nxt + unat n - 2 ^ 32)"
    by (simp add: unat_plus_if_size word_size)
  show "recover \<le> nxt + n \<or> nxt + n < una"
    using r b s' n' unat32_lt [of una]
    by (auto simp: word_le_nat word_lt_nat split: if_splits)
qed

lemma transmit_False:
  assumes "transmit E t i now = (False, t')" "i < length (m_slist t)"
  shows "tx_view t' = tx_view t"
proof -
  let ?n = "min (ss_len (m_slist t ! i)) (m_mss t)"
  obtain b n t1 where tp: "transmit_packet E t (m_slist t ! i) ?n = (b, n, t1)"
    by (metis prod_cases3)
  then have "t' = t \<or> t' = t1"
    using assms by (auto simp: transmit_def Let_def split: if_splits bool.splits)
  with transmit_packet_bounds [OF tp] show ?thesis by auto
qed

lemma transmit_inv:
  assumes inv: "snd_inv t" and i: "i < length (m_slist t)"
    and before: "ss_xmit (m_slist t ! i) = 0 \<Longrightarrow> \<forall>s\<in>set (take i (m_slist t)). ss_xmit s \<noteq> 0"
    and tr: "transmit E t i now = (b, t')"
  shows "snd_inv t' \<and> m_snd_una t' = m_snd_una t \<and> m_sbuf t' = m_sbuf t
    \<and> (b \<longrightarrow> m_slist t' \<noteq> [])"
proof (cases b)
  case True
  then have tr': "transmit E t i now = (True, t')" using tr by simp
  let ?seg = "m_slist t ! i"
  from transmitE [OF tr'] obtain n t1 where x: "ss_xmit ?seg < 30"
    and v: "tx_view t1 = tx_view t" and n: "n \<le> ss_len ?seg"
    and t': "t' = t1\<lparr>m_slist := mark_sent (m_slist t1) i n,
                m_snd_nxt := (if ss_xmit ?seg = 0 then m_snd_nxt t1 + n else m_snd_nxt t1),
                m_rto_base := (if m_rto_base t1 = 0 then now else m_rto_base t1)\<rparr>"
    by metis
  note f = tx_view_eqD [OF v]
  note p = mark_sent_props [OF i n x]
  have tot: "sent_total (m_slist t) + (if ss_xmit ?seg = 0 then unat n else 0) < 2 ^ 32"
    using sent_total_le [of "mark_sent (m_slist t) i n"] snd_inv_total [OF inv] p(1,2) by simp
  have s: "unat (m_snd_nxt t - m_snd_una t) = sent_total (m_slist t)"
    and r: "m_recover t \<le> m_snd_nxt t \<or> m_snd_nxt t < m_snd_una t"
    and sf: "sent_first (m_slist t)"
    using inv by (simp_all add: snd_inv_def)
  have nxt: "unat (m_snd_nxt t' - m_snd_una t') = sent_total (m_slist t')"
    using advance_nxt(1) [OF s, of n] tot s by (auto simp: t' f p(2))
  have rec: "m_recover t' \<le> m_snd_nxt t' \<or> m_snd_nxt t' < m_snd_una t'"
    using advance_nxt(2) [OF s, of n "m_recover t"] tot r by (auto simp: t' f)
  have "sent_first (m_slist t')" using p(4) [OF sf before] by (simp add: t' f)
  with nxt rec inv p(1,5) show ?thesis by (simp add: snd_inv_def t' f)
next
  case False
  then have v: "tx_view t' = tx_view t" using transmit_False [of E t i now t'] tr i by simp
  with inv tx_view_eqD(3,4) [OF v] False show ?thesis by (simp add: snd_inv_tx_view [OF v])
qed

text \<open>When bytes are in flight, the first segment has been sent.\<close>

lemma in_flight_front:
  assumes "snd_inv t" "m_snd_una t \<noteq> m_snd_nxt t"
  shows "m_slist t \<noteq> [] \<and> ss_xmit (m_slist t ! 0) \<noteq> 0"
proof -
  have "unat (m_snd_nxt t - m_snd_una t) \<noteq> 0" using assms(2) by (simp add: unat_eq_0)
  then have "sent_total (m_slist t) \<noteq> 0" using assms(1) by (simp add: snd_inv_def)
  then show ?thesis
    using assms(1) by (cases "m_slist t") (auto simp: snd_inv_def sent_total_0)
qed

lemma first_unsent_before: "\<forall>s\<in>set (take (first_unsent t) (m_slist t)). ss_xmit s \<noteq> 0"
  by (auto simp: first_unsent_def takeWhile_eq_take [symmetric] word_gt_0 dest: set_takeWhileD)

lemma send_ack_view: "tx_view (send_ack E t sflags) = tx_view t"
  by (simp add: send_ack_def packet_tx_view Now_def) (simp add: tx_view_def)

lemma split_unsent_inv:
  assumes "snd_inv t" "first_unsent t < length (m_slist t)"
  shows "snd_inv (t\<lparr>m_slist := split_segment (m_slist t) (first_unsent t) n\<rparr>)"
  using assms split_segment_props [OF assms(2) first_unsent_xmit [OF assms(2)]]
  by (simp add: snd_inv_def)

text \<open>The send loop, one equation per way through its body.\<close>

definition may_send :: "pseudo_tcp \<Rightarrow> bool" where
  "may_send t \<longleftrightarrow> send_available t \<noteq> 0
     \<and> \<not> (m_use_nagling t \<and> m_snd_nxt t > m_snd_una t \<and> send_available t < m_mss t)"

lemma attempt_loop_eqs:
  shows attempt_loop_ack: "send_available t = 0 \<Longrightarrow> attempt_loop E t sflags now = send_ack E t sflags"
    and attempt_loop_nagle: "send_available t \<noteq> 0 \<Longrightarrow> \<not> may_send t \<Longrightarrow> attempt_loop E t sflags now = t"
    and attempt_loop_none: "may_send t \<Longrightarrow> first_unsent t \<ge> length (m_slist t)
      \<Longrightarrow> attempt_loop E t sflags now = t\<lparr>w_ok := False\<rparr>"
    and attempt_loop_stop: "may_send t \<Longrightarrow> first_unsent t < length (m_slist t)
      \<Longrightarrow> transmit E (t\<lparr>m_slist := split_segment (m_slist t) (first_unsent t) (send_available t)\<rparr>)
            (first_unsent t) now = (False, t')
      \<Longrightarrow> attempt_loop E t sflags now = t'"
    and attempt_loop_send: "may_send t \<Longrightarrow> first_unsent t < length (m_slist t)
      \<Longrightarrow> transmit E (t\<lparr>m_slist := split_segment (m_slist t) (first_unsent t) (send_available t)\<rparr>)
            (first_unsent t) now = (True, t')
      \<Longrightarrow> attempt_loop E t sflags now = attempt_loop E t' sfNone now"
  by (auto simp: attempt_loop.simps [of E t] may_send_def Let_def)

lemma attempt_loop_cases:
  obtains (ack) "send_available t = 0"
    | (nagle) "send_available t \<noteq> 0" "\<not> may_send t"
    | (none) "may_send t" "first_unsent t \<ge> length (m_slist t)"
    | (stop) t' where "may_send t" "first_unsent t < length (m_slist t)"
        "transmit E (t\<lparr>m_slist := split_segment (m_slist t) (first_unsent t) (send_available t)\<rparr>)
            (first_unsent t) now = (False, t')"
    | (send) t' where "may_send t" "first_unsent t < length (m_slist t)"
        "transmit E (t\<lparr>m_slist := split_segment (m_slist t) (first_unsent t) (send_available t)\<rparr>)
            (first_unsent t) now = (True, t')"
  by (metis (full_types) not_le surj_pair)

lemma attempt_loop_induct [consumes 0, case_names step]:
  assumes "\<And>E t sflags now. (\<And>t'. may_send t \<Longrightarrow> first_unsent t < length (m_slist t) \<Longrightarrow>
      transmit E (t\<lparr>m_slist := split_segment (m_slist t) (first_unsent t) (send_available t)\<rparr>)
            (first_unsent t) now = (True, t') \<Longrightarrow> P E t' sfNone now) \<Longrightarrow> P E t sflags now"
  shows "P E t sflags now"
proof (induction E t sflags now rule: attempt_loop.induct)
  case (1 E t sflags now)
  show ?case
    by (rule assms) (rule "1.IH" [OF refl refl], auto simp: may_send_def)
qed

lemma unsent_transmit_inv:
  assumes "snd_inv t" and i: "first_unsent t < length (m_slist t)"
    and tr: "transmit E (t\<lparr>m_slist := split_segment (m_slist t) (first_unsent t) n\<rparr>)
      (first_unsent t) now = (b, t')"
  shows "snd_inv t' \<and> m_snd_una t' = m_snd_una t \<and> m_sbuf t' = m_sbuf t"
  using transmit_inv [OF split_unsent_inv [OF assms(1) i] _ _ tr] split_segment_nth [OF i]
    split_segment_props(5) [OF i first_unsent_xmit [OF i]] first_unsent_before
  by simp

lemma attempt_loop_inv:
  assumes "snd_inv t"
  shows "snd_inv (attempt_loop E t sflags now)
    \<and> m_snd_una (attempt_loop E t sflags now) = m_snd_una t
    \<and> m_sbuf (attempt_loop E t sflags now) = m_sbuf t"
  using assms
proof (induction E t sflags now rule: attempt_loop_induct)
  case (step E t sflags now)
  note inv = unsent_transmit_inv [OF step.prems]
  show ?case
  proof (cases rule: attempt_loop_cases [where t = t and E = E and now = now])
    case ack
    then show ?thesis
      using step.prems tx_view_eqD(3,4) [OF send_ack_view [of E t sflags]]
      by (simp add: attempt_loop_ack snd_inv_tx_view [OF send_ack_view])
  next
    case none
    then show ?thesis using step.prems by (simp add: attempt_loop_none snd_inv_def)
  next
    case (stop t')
    then show ?thesis using inv [OF stop(2,3)] by (simp add: attempt_loop_stop)
  next
    case (send t')
    then show ?thesis
      using inv [OF send(2,3)] step.IH [OF send] by (simp add: attempt_loop_send)
  qed (use step.prems in \<open>simp add: attempt_loop_nagle\<close>)
qed

lemma attemptSend_start:
  obtains t2 now where "attemptSend E t sflags = attempt_loop E t2 sflags now"
    "t2 = t\<lparr>w_clock := w_clock t + 1, m_cwnd := m_cwnd t2\<rparr>"
proof
  let ?now = "env_now E (w_clock t)"
  let ?c = "if TimeDiff ?now (m_lastsend t) > uint (m_rx_rto t) then m_mss t else m_cwnd t"
  show "attemptSend E t sflags
      = attempt_loop E (t\<lparr>w_clock := w_clock t + 1, m_cwnd := ?c\<rparr>) sflags ?now"
    by (simp add: attemptSend_def Now_def Let_def)
qed simp

lemma attemptSend_inv:
  assumes "snd_inv t"
  shows "snd_inv (attemptSend E t sflags)"
    and "m_snd_una (attemptSend E t sflags) = m_snd_una t"
    and "m_sbuf (attemptSend E t sflags) = m_sbuf t"
proof -
  obtain t2 now where a: "attemptSend E t sflags = attempt_loop E t2 sflags now"
    and t2: "t2 = t\<lparr>w_clock := w_clock t + 1, m_cwnd := m_cwnd t2\<rparr>"
    by (rule attemptSend_start)
  have "snd_inv t2 = snd_inv t" by (subst t2, rule snd_inv_cong) simp_all
  moreover have "m_snd_una t2 = m_snd_una t" "m_sbuf t2 = m_sbuf t"
    by (subst t2, simp)+
  ultimately show "snd_inv (attemptSend E t sflags)"
    "m_snd_una (attemptSend E t sflags) = m_snd_una t"
    "m_sbuf (attemptSend E t sflags) = m_sbuf t"
    using attempt_loop_inv [of t2 E sflags now] assms by (simp_all add: a)
qed

section \<open>Every call keeps the invariant\<close>

lemma Write_fits:
  assumes "fifo_inv f" "fifo_open f" "length v \<le> GetWriteRemaining f" and w: "Write f v = (res, n, f')"
  shows "n = length v \<and> fifo_inv f' \<and> fifo_open f' \<and> fb_buffer_length f' = fb_buffer_length f
    \<and> fifo_data f' = fifo_data f @ v"
proof (cases "fb_data_length f < fb_buffer_length f")
  case True
  then show ?thesis using Write_data [OF assms(1,2) True w] assms(3) by (simp add: min_absorb1)
next
  case False
  then have "v = []" using assms(3) by (simp add: GetWriteRemaining_def)
  with False w assms show ?thesis by (simp add: Write_full)
qed

definition queue_slist :: "pseudo_tcp \<Rightarrow> uint32 \<Rightarrow> bool \<Rightarrow> ssegment list" where
  "queue_slist t n bCtrl =
     (if m_slist t \<noteq> [] \<and> ss_bCtrl (last (m_slist t)) = bCtrl \<and> ss_xmit (last (m_slist t)) = 0
      then butlast (m_slist t) @ [(last (m_slist t))\<lparr>ss_len := ss_len (last (m_slist t)) + n\<rparr>]
      else m_slist t @ [\<lparr>ss_seq = m_snd_una t + of_nat (GetBuffered (m_sbuf t)), ss_len = n,
                      ss_xmit = 0, ss_bCtrl = bCtrl\<rparr>])"

lemma queue_slist_props:
  assumes inv: "snd_inv t" and n: "unat n \<le> GetWriteRemaining (m_sbuf t)"
  shows "seg_total (queue_slist t n c) = seg_total (m_slist t) + unat n
    \<and> sent_total (queue_slist t n c) = sent_total (m_slist t) \<and> sent_first (queue_slist t n c)
    \<and> queue_slist t n c \<noteq> []
    \<and> (contiguous (m_snd_una t) (m_slist t) \<longrightarrow> contiguous (m_snd_una t) (queue_slist t n c))"
proof -
  have tot: "seg_total (m_slist t) = GetBuffered (m_sbuf t)" and sf: "sent_first (m_slist t)"
    and cap: "seg_total (m_slist t) + unat n < 2 ^ 32"
    using inv n by (auto simp: snd_inv_def GetBuffered_def GetWriteRemaining_def fifo_inv_def)
  show ?thesis
  proof (cases "m_slist t \<noteq> [] \<and> ss_bCtrl (last (m_slist t)) = c \<and> ss_xmit (last (m_slist t)) = 0")
    case True
    then obtain xs s where m: "m_slist t = xs @ [s]" by (metis append_butlast_last_id)
    have "unat (ss_len s + n) = unat (ss_len s) + unat n"
      using cap by (intro unat_add_nowrap) (simp add: m)
    with True sf show ?thesis by (auto simp: queue_slist_def m)
  next
    case False
    then have "queue_slist t n c = m_slist t @ [\<lparr>ss_seq = m_snd_una t + of_nat (seg_total (m_slist t)),
        ss_len = n, ss_xmit = 0, ss_bCtrl = c\<rparr>]"
      by (auto simp: queue_slist_def tot)
    with sf show ?thesis by simp
  qed
qed

lemma tcp_queue_props:
  assumes inv: "snd_inv t" and len: "unat len \<le> length data"
    and q: "tcp_queue t data len c = (w, t')"
  defines "k \<equiv> min (unat len) (GetWriteRemaining (m_sbuf t))"
  shows "snd_inv t' \<and> unat w = k \<and> fifo_data (m_sbuf t') = fifo_data (m_sbuf t) @ take k data
    \<and> m_snd_una t' = m_snd_una t \<and> m_snd_nxt t' = m_snd_nxt t
    \<and> (contiguous (m_snd_una t) (m_slist t) \<longrightarrow> contiguous (m_snd_una t) (m_slist t'))
    \<and> w_ok t' = (w_ok t \<and> (unat len \<le> GetWriteRemaining (m_sbuf t) \<or> \<not> c))
    \<and> w_events t' = w_events t \<and> m_mss t' = m_mss t"
proof -
  let ?avail = "GetWriteRemaining (m_sbuf t)"
  let ?n = "if \<not> len > of_nat ?avail then len else of_nat ?avail :: uint32"
  have av: "?avail < 2 ^ 32" using inv by (auto simp: snd_inv_def GetWriteRemaining_def)
  then have ua: "unat (of_nat ?avail :: uint32) = ?avail"
    by (intro unat_of_nat_small) simp
  have un: "unat ?n = k"
    using ua by (auto simp: k_def word_less_nat_alt)
  obtain res wr f where wf: "Write (m_sbuf t) (take k data) = (res, wr, f)" by (metis prod_cases3)
  have lk: "length (take k data) = k" using len by (simp add: k_def)
  have W: "wr = k \<and> fifo_inv f \<and> fifo_open f \<and> fb_buffer_length f = fb_buffer_length (m_sbuf t)
    \<and> fifo_data f = fifo_data (m_sbuf t) @ take k data"
    using Write_fits [OF _ _ _ wf] inv lk by (simp add: snd_inv_def k_def)
  then have dl: "fb_data_length f = fb_data_length (m_sbuf t) + k"
    using lk by (metis length_append length_fifo_data)
  have t': "w = of_nat wr" "t' = t\<lparr>w_ok := w_ok t \<and> (\<not> len > of_nat ?avail \<or> \<not> c),
      m_slist := queue_slist t ?n c, m_sbuf := f\<rparr>"
    using q wf un by (auto simp: tcp_queue_def queue_slist_def Let_def)
  have "unat ?n \<le> ?avail" using un by (simp add: k_def)
  note p = queue_slist_props [OF inv this, of c]
  have "unat w = k"
    using t'(1) W av by (simp add: unat_of_nat_small k_def)
  moreover have "(len > of_nat ?avail) = (unat len > ?avail)"
    using ua by (simp add: word_less_nat_alt)
  moreover have "snd_inv t'"
    using inv p W dl un by (auto simp: snd_inv_def t'(2))
  ultimately show ?thesis using W p by (auto simp: t'(2))
qed

text \<open>What leaves the sending state alone altogether: \<open>snd_fields\<close> is that state.\<close>

definition snd_fields ::
  "pseudo_tcp \<Rightarrow> fifo \<times> ssegment list \<times> uint32 \<times> uint32 \<times> uint32 \<times> uint32" where
  "snd_fields t = (m_sbuf t, m_slist t, m_snd_nxt t, m_snd_una t, m_rto_base t, m_recover t)"

lemma snd_inv_fields: "snd_fields t' = snd_fields t \<Longrightarrow> snd_inv t \<Longrightarrow> snd_inv t'"
  using snd_inv_cong [of t' t] by (simp add: snd_fields_def)

lemma snd_fields_update [simp]:
  "snd_fields (tcp_notify e t) = snd_fields t"
  "snd_fields (closedown t err) = snd_fields t"
  "snd_fields (adjustMTU t) = snd_fields t"
  "snd_fields (establish t) = snd_fields t"
  "snd_fields (resizeReceiveBuffer t sz) = snd_fields t"
  "snd_fields (applyOption t kind data len) = snd_fields t"
  "snd_fields (update_snd_wnd t seg) = snd_fields t"
  "snd_fields (update_rtt t tsecr now) = snd_fields t"
  "snd_fields (update_timestamp t seg) = snd_fields t"
  "snd_fields (notify_writeable t) = snd_fields t"
  "snd_fields (notify_readable t b) = snd_fields t"
  "snd_fields (commit_received t n) = snd_fields t"
  "snd_fields (store_data t seg) = snd_fields t"
  "snd_fields (tcp_assert b t) = snd_fields t"
  by (simp_all add: snd_fields_def tcp_notify_def closedown_def adjustMTU_def establish_def
      resizeReceiveBuffer_def applyOption_def applyWindowScaleOption_def update_snd_wnd_def
      update_rtt_def update_timestamp_def notify_writeable_def notify_readable_def
      commit_received_def store_data_def tcp_assert_def Let_def case_prod_beta split: option.split)

lemma snd_fields_options_loop: "snd_fields (fst (parse_options_loop t b s)) = snd_fields t"
proof (induction t b s rule: parse_options_loop.induct)
  case (1 t b s)
  then show ?case
    by (subst parse_options_loop.simps) (auto simp: Let_def split: option.splits prod.splits)
qed

lemma snd_fields_swnd_scale [simp]: "snd_fields (t\<lparr>m_swnd_scale := v\<rparr>) = snd_fields t"
  by (simp add: snd_fields_def)

lemma snd_fields_parseOptions [simp]: "snd_fields (parseOptions t data) = snd_fields t"
  using snd_fields_options_loop [of t "bb_of_bytes data" "{}"]
  by (auto simp: parseOptions_def split: prod.splits option.splits)

lemma snd_fields_recover [simp]: "snd_fields (fst (recover_rlist t fl rs)) = snd_fields t"
  by (induction t fl rs rule: recover_rlist.induct) simp_all

lemma snd_fields_receive_data [simp]: "snd_fields (fst (receive_data t seg fl)) = snd_fields t"
proof -
  have upd: "snd_fields (u\<lparr>m_rlist := rs\<rparr>) = snd_fields u" "snd_fields (u\<lparr>m_rcv_nxt := n\<rparr>) = snd_fields u"
    for u rs n by (simp_all add: snd_fields_def)
  show ?thesis by (auto simp: receive_data_def Let_def case_prod_beta upd)
qed

lemma queueConnectMessage_inv:
  assumes "snd_inv t" shows "snd_inv (queueConnectMessage t)"
proof -
  let ?buf = "if m_support_wnd_scale t
    then WriteUInt8 (WriteUInt8 (WriteUInt8 (WriteUInt8 (bb_new ORDER_NETWORK) CTL_CONNECT)
           TCP_OPT_WND_SCALE) 1) (m_rwnd_scale t)
    else WriteUInt8 (bb_new ORDER_NETWORK) CTL_CONNECT"
  have net: "bb_net ?buf" by simp
  have "unat (of_nat (bb_length ?buf) :: uint32) \<le> bb_length ?buf"
    by (simp add: unat_of_nat take_bit_nat_less_eq_self)
  moreover have "bb_length ?buf = length (bb_data ?buf)"
    using net by (simp add: bb_net_def length_bb_data)
  ultimately have len: "unat (of_nat (bb_length ?buf) :: uint32) \<le> length (bb_data ?buf)" by simp
  have inv: "snd_inv (t\<lparr>m_snd_wnd := of_nat (bb_length ?buf)\<rparr>)"
    using assms by (simp add: snd_inv_def)
  obtain w t' where q: "tcp_queue (t\<lparr>m_snd_wnd := of_nat (bb_length ?buf)\<rparr>) (bb_data ?buf)
      (of_nat (bb_length ?buf)) True = (w, t')" by (metis surj_pair)
  then have "queueConnectMessage t = t'" by (simp add: queueConnectMessage_def Let_def)
  then show ?thesis using tcp_queue_props [OF inv len q] by simp
qed

lemma process_connect_inv:
  assumes "snd_inv t" shows "snd_inv (process_connect t seg)"
proof -
  let ?t = "parseOptions t (take (unat (seg_len seg - 1)) (drop 1 (seg_data seg)))"
  have inv: "snd_inv ?t" by (rule snd_inv_fields [OF _ assms]) simp
  have "snd_inv (?t\<lparr>m_state := TCP_SYN_RECEIVED\<rparr>)"
    using inv by (simp add: snd_inv_def)
  then have "snd_inv (queueConnectMessage (?t\<lparr>m_state := TCP_SYN_RECEIVED\<rparr>))"
    by (rule queueConnectMessage_inv)
  moreover have "snd_inv (establish ?t)" by (rule snd_inv_fields [OF _ inv]) simp
  ultimately show ?thesis using inv by (auto simp: process_connect_def Let_def split: tcp_state.split)
qed

lemma ack_advance_inv:
  assumes inv: "snd_inv t" and a: "seg_ack seg > m_snd_una t" "seg_ack seg \<le> m_snd_nxt t"
  shows "snd_inv (ack_advance t seg now)"
    and "w_ok (ack_advance t seg now) = w_ok t"
    and "m_snd_una (ack_advance t seg now) = seg_ack seg"
    and "m_snd_nxt (ack_advance t seg now) = m_snd_nxt t"
    and "fifo_data (m_sbuf (ack_advance t seg now))
      = drop (unat (seg_ack seg - m_snd_una t)) (fifo_data (m_sbuf t))"
    and "m_recover (ack_advance t seg now) \<le> m_snd_nxt (ack_advance t seg now)"
proof -
  let ?k = "seg_ack seg - m_snd_una t"
  have k: "unat ?k = unat (seg_ack seg) - unat (m_snd_una t)"
    and le: "unat (m_snd_una t) \<le> unat (seg_ack seg)" "unat (seg_ack seg) \<le> unat (m_snd_nxt t)"
    using a by (simp_all add: unat_sub word_less_nat_alt word_le_nat_alt)
  have sent: "sent_total (m_slist t) = unat (m_snd_nxt t) - unat (m_snd_una t)"
    using inv le by (simp add: snd_inv_def unat_sub word_le_nat_alt)
  have kle: "unat ?k \<le> sent_total (m_slist t)" using sent k le by simp
  obtain b l segs where r: "release_acked ?k (m_largest t) (m_slist t) = (b, l, segs)"
    by (metis prod_cases3)
  have sf: "sent_first (m_slist t)" and fi: "fifo_inv (m_sbuf t)" and fo: "fifo_open (m_sbuf t)"
    and cap: "fb_buffer_length (m_sbuf t) < 2 ^ 32"
    and tot: "seg_total (m_slist t) = fb_data_length (m_sbuf t)"
    using inv by (simp_all add: snd_inv_def)
  note R = release_acked_props [OF sf kle r]
  have kd: "unat ?k \<le> fb_data_length (m_sbuf t)"
    using kle sent_total_le [of "m_slist t"] tot by simp
  then obtain f where f: "ConsumeReadData (m_sbuf t) (unat ?k) = Some f"
    using ConsumeReadData_Some [OF fi] by blast
  note F = ConsumeReadData_slots [OF fi f]
  have t': "ack_advance t seg now = t\<lparr>m_snd_una := seg_ack seg,
      m_rto_base := (if seg_ack seg = m_snd_nxt t then 0 else now), m_sbuf := f,
      m_slist := segs, m_largest := l\<rparr>"
    using r f R by (cases t) (simp add: ack_advance_def Let_def)
  have nx: "unat (m_snd_nxt t - seg_ack seg) = sent_total segs"
    using R sent k le by (auto simp: unat_sub word_le_nat_alt)
  have ne: "seg_ack seg \<noteq> m_snd_nxt t \<Longrightarrow> segs \<noteq> []"
  proof
    assume "seg_ack seg \<noteq> m_snd_nxt t" "segs = []"
    then show False using nx by (simp add: unat_eq_0)
  qed
  have rec: "m_recover t \<le> m_snd_nxt t"
    using inv a by (auto simp: snd_inv_def)
  show "snd_inv (ack_advance t seg now)"
    using F R fo cap tot nx ne rec fifo_open_consume(2) [OF f] by (auto simp: snd_inv_def t')
  show "w_ok (ack_advance t seg now) = w_ok t" "m_snd_una (ack_advance t seg now) = seg_ack seg"
    "m_snd_nxt (ack_advance t seg now) = m_snd_nxt t"
    "m_recover (ack_advance t seg now) \<le> m_snd_nxt (ack_advance t seg now)"
    using rec by (simp_all add: t')
  have "fifo_data f = drop (unat ?k) (fifo_data (m_sbuf t))"
    using F by (intro list_eq_nthI) (auto simp: nth_fifo_data add.commute)
  then show "fifo_data (m_sbuf (ack_advance t seg now)) = drop (unat ?k) (fifo_data (m_sbuf t))"
    by (simp add: t')
qed

lemma transmit_front_inv:
  assumes "snd_inv t" "m_slist t \<noteq> []" "transmit E t 0 now = (b, t')"
  shows "snd_inv t' \<and> (b \<longrightarrow> m_slist t' \<noteq> [])"
  using transmit_inv [of t 0 E now b t'] assms by simp

lemma closedown_inv: "snd_inv t \<Longrightarrow> snd_inv (closedown t err)"
  by (erule snd_inv_fields [rotated]) simp

lemma snd_inv_other [simp]:
  "snd_inv (t\<lparr>m_cwnd := c\<rparr>) = snd_inv t" "snd_inv (t\<lparr>m_dup_acks := d\<rparr>) = snd_inv t"
  "snd_inv (t\<lparr>m_ssthresh := c\<rparr>) = snd_inv t" "snd_inv (t\<lparr>w_ok := b\<rparr>) = snd_inv t"
  "snd_inv (t\<lparr>m_rx_rto := c\<rparr>) = snd_inv t" "snd_inv (t\<lparr>m_lastsend := c\<rparr>) = snd_inv t"
  "snd_inv (t\<lparr>w_clock := n\<rparr>) = snd_inv t" "snd_inv (t\<lparr>m_lasttraffic := c\<rparr>) = snd_inv t"
  "snd_inv (t\<lparr>m_lastrecv := c\<rparr>) = snd_inv t" "snd_inv (t\<lparr>m_bOutgoing := b\<rparr>) = snd_inv t"
  "snd_inv (t\<lparr>m_state := st\<rparr>) = snd_inv t" "snd_inv (t\<lparr>m_error := er\<rparr>) = snd_inv t"
  "snd_inv (t\<lparr>m_mtu_advise := c\<rparr>) = snd_inv t" "snd_inv (t\<lparr>m_rbuf := f\<rparr>) = snd_inv t"
  "snd_inv (t\<lparr>m_rcv_wnd := c\<rparr>) = snd_inv t" "snd_inv (t\<lparr>m_bReadEnable := b\<rparr>) = snd_inv t"
  "snd_inv (t\<lparr>m_bWriteEnable := b\<rparr>) = snd_inv t" "snd_inv (t\<lparr>m_shutdown := sd\<rparr>) = snd_inv t"
  "snd_inv (t\<lparr>m_use_nagling := b\<rparr>) = snd_inv t" "snd_inv (t\<lparr>m_ack_delay := c\<rparr>) = snd_inv t"
  "snd_inv (t\<lparr>m_support_wnd_scale := b\<rparr>) = snd_inv t"
  by (simp_all add: snd_inv_def)

lemma ack_congestion_inv:
  assumes inv: "snd_inv t" and rec: "m_recover t \<le> m_snd_nxt t"
    and a: "ack_congestion E t nAcked now = (b, t')"
  shows "snd_inv t'"
proof (cases "m_dup_acks t \<ge> 3 \<and> \<not> m_snd_una t \<ge> m_recover t")
  case True
  then have "m_snd_una t \<noteq> m_snd_nxt t" using rec by auto
  then have ne: "m_slist t \<noteq> []" using in_flight_front [OF inv] by simp
  obtain b1 t1 where tr: "transmit E t 0 now = (b1, t1)" by (metis surj_pair)
  from transmit_front_inv [OF inv ne tr] True a tr show ?thesis
    by (auto simp: ack_congestion_def closedown_inv split: bool.splits)
next
  case False
  then show ?thesis
    using inv a by (auto simp: ack_congestion_def Let_def split: if_splits)
qed

lemma duplicate_ack_inv:
  assumes inv: "snd_inv t" and a: "duplicate_ack E t seg now = (b, t')"
  shows "snd_inv t'"
proof (cases "seg_len seg = 0 \<and> m_snd_una t \<noteq> m_snd_nxt t \<and> m_dup_acks t + 1 = 3")
  case True
  let ?t = "t\<lparr>m_dup_acks := m_dup_acks t + 1\<rparr>"
  have ne: "m_slist ?t \<noteq> []" using in_flight_front [OF inv] True by simp
  obtain b1 t1 where tr: "transmit E ?t 0 now = (b1, t1)" by (metis surj_pair)
  have inv1: "snd_inv t1" using transmit_front_inv [OF _ ne tr] inv by simp
  show ?thesis
  proof (cases b1)
    case False
    then show ?thesis using inv1 tr True a by (auto simp: duplicate_ack_def Let_def closedown_inv)
  next
    case b1: True
    then have "t' = t1\<lparr>m_recover := m_snd_nxt t1, m_ssthresh := m_ssthresh t', m_cwnd := m_cwnd t'\<rparr>"
      using tr True a by (auto simp: duplicate_ack_def Let_def)
    moreover have "snd_inv (t1\<lparr>m_recover := m_snd_nxt t1, m_ssthresh := x, m_cwnd := y\<rparr>)" for x y
      using inv1 by (simp add: snd_inv_def)
    ultimately show ?thesis by metis
  qed
next
  case False
  then show ?thesis using inv a by (auto simp: duplicate_ack_def Let_def word_gt_0 split: if_splits)
qed

lemma process_ack_inv:
  assumes inv: "snd_inv t" and a: "process_ack E t seg now = (b, t')"
  shows "snd_inv t'"
proof -
  let ?u = "update_snd_wnd (update_rtt t (seg_tsecr seg) now) seg"
  have u: "snd_inv ?u" "m_snd_una ?u = m_snd_una t" "m_snd_nxt ?u = m_snd_nxt t"
    using snd_inv_fields [OF _ inv, of ?u] snd_fields_update(7) [of "update_rtt t (seg_tsecr seg) now" seg]
      snd_fields_update(8) [of t "seg_tsecr seg" now]
    by (simp_all add: snd_fields_def)
  have w: "snd_inv (update_snd_wnd t seg)" by (rule snd_inv_fields [OF _ inv]) simp
  show ?thesis
  proof (cases "seg_ack seg > m_snd_una t \<and> seg_ack seg \<le> m_snd_nxt t")
    case True
    then have A: "seg_ack seg > m_snd_una ?u" "seg_ack seg \<le> m_snd_nxt ?u" by (simp_all add: u)
    note aa = ack_advance_inv [OF u(1) A, of now]
    have "ack_congestion E (ack_advance ?u seg now) (seg_ack seg - m_snd_una t) now = (b, t')"
      using a True by (simp add: process_ack_def)
    from ack_congestion_inv [OF aa(1) aa(6) this] show ?thesis .
  next
    case False
    then show ?thesis using a inv duplicate_ack_inv [OF w] by (auto simp: process_ack_def split: if_splits)
  qed
qed

lemma process_data_inv:
  assumes inv: "snd_inv t" shows "snd_inv (process_data E t seg)"
proof -
  let ?t1 = "if m_state t = TCP_SYN_RECEIVED \<and> \<not> is_connect seg then establish t else t"
  let ?t2 = "notify_writeable ?t1"
  obtain t3 fl nw where r: "receive_data ?t2 (trim_segment ?t2 seg) (ack_flags ?t2 seg) = (t3, fl, nw)"
    by (metis prod_cases3)
  have "snd_fields t3 = snd_fields t"
    using snd_fields_receive_data [of ?t2 "trim_segment ?t2 seg" "ack_flags ?t2 seg"] r by simp
  then have "snd_inv t3" using inv by (rule snd_inv_fields)
  then have "snd_inv (attemptSend E t3 fl)" by (rule attemptSend_inv)
  then have "snd_inv (notify_readable (attemptSend E t3 fl) nw)"
    by (rule snd_inv_fields [rotated]) simp
  then show ?thesis using r by (simp add: process_data_def Let_def)
qed

lemma process_inv:
  assumes inv: "snd_inv t" shows "snd_inv (snd (process E t seg))"
proof -
  let ?now = "env_now E (w_clock t)"
  let ?t2 = "t\<lparr>w_clock := w_clock t + 1, m_lasttraffic := ?now, m_lastrecv := ?now, m_bOutgoing := False\<rparr>"
  have 2: "snd_inv ?t2" using inv by simp
  obtain b3 t3 where c: "process_control ?t2 seg = (b3, t3)" by (metis surj_pair)
  have 3: "snd_inv t3"
    using c 2 process_connect_inv [OF 2, of seg] by (auto simp: process_control_def split: if_splits)
  have ts: "snd_inv (update_timestamp t3 seg)" by (rule snd_inv_fields [OF _ 3]) simp
  obtain b4 t4 where a: "process_ack E (update_timestamp t3 seg) seg ?now = (b4, t4)"
    by (metis surj_pair)
  have 4: "snd_inv t4" by (rule process_ack_inv [OF ts a])
  show ?thesis
    using inv 2 3 4 c a process_data_inv [OF 4, of E seg] closedown_inv [OF 2]
    by (auto simp: process_def Now_def Let_def split: bool.splits)
qed

lemma clock_retransmit_inv:
  assumes inv: "snd_inv t" and c: "clock_retransmit E t now = (b, t')"
  shows "snd_inv t'"
proof (cases "m_rto_base t \<noteq> 0 \<and> TimeDiff (m_rto_base t + m_rx_rto t) now \<le> 0 \<and> m_slist t \<noteq> []")
  case True
  obtain b1 t1 where tr: "transmit E t 0 now = (b1, t1)" by (metis surj_pair)
  have i: "snd_inv t1" "b1 \<Longrightarrow> m_slist t1 \<noteq> []"
    using transmit_front_inv [OF inv _ tr] True by simp_all
  have "snd_inv (t1\<lparr>m_ssthresh := x, m_cwnd := y, m_rx_rto := z, m_rto_base := now\<rparr>)" if b1 for x y z
    using i(1) i(2) [OF that] by (simp add: snd_inv_def)
  with True c tr i show ?thesis
    by (cases b1) (auto simp: clock_retransmit_def Let_def closedown_inv)
next
  case False
  with c inv show ?thesis by (auto simp: clock_retransmit_def split: if_splits)
qed

lemma clock_probe_inv:
  assumes inv: "snd_inv t" and c: "clock_probe E t now = (b, t')"
  shows "snd_inv t'"
proof -
  have "snd_inv (snd (tcp_packet E t seq fl off len))" for seq fl off len
    using inv by (simp add: snd_inv_tx_view [OF packet_tx_view])
  with inv c show ?thesis
    by (auto simp: clock_probe_def Let_def closedown_inv split: if_splits)
qed

lemma NotifyClock_inv:
  assumes inv: "snd_inv t" shows "snd_inv (NotifyClock E t now)"
proof -
  obtain b1 t1 where c1: "clock_retransmit E t now = (b1, t1)" by (metis surj_pair)
  obtain b2 t2 where c2: "clock_probe E t1 now = (b2, t2)" by (metis surj_pair)
  have 1: "snd_inv t1" by (rule clock_retransmit_inv [OF inv c1])
  have 2: "snd_inv t2" by (rule clock_probe_inv [OF 1 c2])
  have "snd_inv (clock_ack E t2 now)"
    using 2 by (simp add: clock_ack_def snd_inv_tx_view [OF packet_tx_view])
  with inv 1 2 c1 c2 show ?thesis by (simp add: NotifyClock_def split: bool.splits)
qed

lemma Recv_inv:
  assumes inv: "snd_inv t" shows "snd_inv (snd (snd (Recv E t len)))"
proof -
  obtain res v f where r: "Read (m_rbuf t) len = (res, v, f)" by (metis prod_cases3)
  have "snd_inv (attemptSend E (t\<lparr>m_rbuf := f, w_ok := ok, m_rcv_wnd := wnd\<rparr>) fl)" for ok wnd fl
    using inv by (intro attemptSend_inv) simp
  with inv r show ?thesis by (auto simp: Recv_def Let_def)
qed

lemma Send_inv:
  assumes inv: "snd_inv t" shows "snd_inv (snd (Send E t buffer))"
proof -
  obtain w t1 where q: "tcp_queue t buffer (of_nat (length buffer)) False = (w, t1)"
    by (metis surj_pair)
  have "unat (of_nat (length buffer) :: uint32) \<le> length buffer"
    by (simp add: unat_of_nat take_bit_nat_less_eq_self)
  from tcp_queue_props [OF inv this q] have "snd_inv t1" by simp
  then have "snd_inv (attemptSend E t1 sfNone)" by (rule attemptSend_inv)
  with inv q show ?thesis by (simp add: Send_def)
qed

lemma SetOption_inv:
  assumes inv: "snd_inv t" and sz: "opt = OPT_SNDBUF \<Longrightarrow> (word_of_int v :: uint32) \<noteq> 0"
  shows "snd_inv (SetOption t opt v)"
proof (cases opt)
  case OPT_SNDBUF
  let ?n = "unat (word_of_int v :: uint32)"
  obtain ok f where s: "SetCapacity (m_sbuf t) ?n = (ok, f)" by (metis surj_pair)
  have n: "0 < ?n" using sz [OF OPT_SNDBUF] by (simp add: unat_gt_0)
  have "fifo_inv (m_sbuf t)" using inv by (simp add: snd_inv_def)
  note S = SetCapacity_data [OF this n s]
  have "length (fifo_data f) = length (fifo_data (m_sbuf t))" using S by simp
  then have "fb_data_length f = fb_data_length (m_sbuf t)" by simp
  moreover have "fb_buffer_length f < 2 ^ 32"
  proof (cases ok)
    case True
    then show ?thesis using S by simp
  next
    case False
    then have "f = m_sbuf t" using s by (simp add: SetCapacity_def Let_def split: if_splits)
    then show ?thesis using inv by (simp add: snd_inv_def)
  qed
  ultimately have "snd_inv (resizeSendBuffer (tcp_assert b t) (word_of_int v))" for b
    using inv S s by (simp add: resizeSendBuffer_def tcp_assert_def snd_inv_def)
  then show ?thesis by (simp add: SetOption_def OPT_SNDBUF)
next
  case OPT_RCVBUF
  then show ?thesis using inv
    by (auto simp: SetOption_def intro: snd_inv_fields [rotated])
qed (use inv in \<open>simp_all add: SetOption_def\<close>)

definition positive_sndbuf :: "tcp_call \<Rightarrow> bool" where
  "positive_sndbuf c =
     (case c of CSetOption opt v \<Rightarrow> opt \<noteq> OPT_SNDBUF \<or> (word_of_int v :: uint32) \<noteq> 0 | _ \<Rightarrow> True)"

lemma tcp_call_step_inv:
  assumes inv: "snd_inv t" and c: "positive_sndbuf c"
  shows "snd_inv (snd (tcp_call_step E t c))"
proof (cases c)
  case CConnect
  have "snd_inv (attemptSend E (queueConnectMessage (t\<lparr>m_state := TCP_SYN_SENT\<rparr>)) sfNone)"
    using inv by (intro attemptSend_inv queueConnectMessage_inv) simp
  then show ?thesis using inv by (simp add: CConnect Connect_def)
next
  case (CNotifyMTU mtu)
  have "snd_inv (adjustMTU (t\<lparr>m_mtu_advise := ucast mtu\<rparr>))"
    by (rule snd_inv_fields [of _ "t\<lparr>m_mtu_advise := ucast mtu\<rparr>"]) (use inv in simp_all)
  then show ?thesis using inv by (simp add: CNotifyMTU NotifyMTU_def Let_def)
next
  case (CNotifyPacket b)
  then show ?thesis using inv process_inv [OF inv]
    by (simp add: NotifyPacket_def tcp_parse_def)
next
  case (CSetOption opt v)
  then show ?thesis using SetOption_inv [OF inv] c by (simp add: positive_sndbuf_def)
qed (use inv in \<open>simp_all add: NotifyClock_inv Recv_inv Send_inv Close_def disableWindowScale_def\<close>)

lemma PseudoTcp_inv: "snd_inv (PseudoTcp conv now)"
  by (simp add: PseudoTcp_def snd_inv_def Let_def fifo_new_inv tcp_consts)

lemma tcp_run_inv:
  "snd_inv t \<Longrightarrow> list_all positive_sndbuf cs \<Longrightarrow> snd_inv (snd (tcp_run E t cs))"
proof (induction cs arbitrary: t)
  case (Cons c cs)
  then show ?case using tcp_call_step_inv [of t c E] by (simp add: case_prod_beta)
qed simp

end
