(* ===== verification/TcpPackets.thy ===== *)
theory TcpPackets
  imports TcpSender
begin

text \<open>
  What the sending half puts on the wire.  A packet's payload is the slice of the send
  buffer that its sequence number names (\<open>slice_packet\<close>); as long as the segment list is
  \<open>aligned\<close> every packet has this form, no assertion of the sending code fails, and no more
  is put in flight than the peer's window takes.
\<close>

section \<open>Packets as slices of the send buffer\<close>

definition packet_seq :: "bytes \<Rightarrow> uint32" where
  "packet_seq p = bytes_to_long (mem_read p 4 4)"

definition packet_payload :: "bytes \<Rightarrow> bytes" where
  "packet_payload p = drop 24 p"

definition slice_packet :: "uint32 \<Rightarrow> bytes \<Rightarrow> bytes \<Rightarrow> bool" where
  "slice_packet una data p \<longleftrightarrow>
     packet_payload p = []
     \<or> packet_payload p = mem_read data (unat (packet_seq p - una)) (length (packet_payload p))"

definition sends_slices :: "pseudo_tcp \<Rightarrow> pseudo_tcp \<Rightarrow> bool" where
  "sends_slices t t' \<longleftrightarrow> (w_ok t \<longrightarrow> w_ok t') \<and>
     (\<exists>evs. w_events t' = w_events t @ evs \<and>
        (\<forall>p. TcpWritePacket p \<in> set evs \<longrightarrow> slice_packet (m_snd_una t) (fifo_data (m_sbuf t)) p))"

lemma sends_slices_refl [simp]: "sends_slices t t"
  by (simp add: sends_slices_def)

lemma sends_slices_same:
  "w_ok t' = w_ok t \<Longrightarrow> w_events t' = w_events t \<Longrightarrow> sends_slices t t'"
  by (simp add: sends_slices_def)

lemma sends_slices_trans:
  assumes "sends_slices t t1" "sends_slices t1 t2"
    and "m_snd_una t1 = m_snd_una t" "m_sbuf t1 = m_sbuf t"
  shows "sends_slices t t2"
proof -
  obtain e1 where "w_events t1 = w_events t @ e1"
    "\<forall>p. TcpWritePacket p \<in> set e1 \<longrightarrow> slice_packet (m_snd_una t) (fifo_data (m_sbuf t)) p"
    using assms(1) by (auto simp: sends_slices_def)
  moreover obtain e2 where "w_events t2 = w_events t1 @ e2"
    "\<forall>p. TcpWritePacket p \<in> set e2 \<longrightarrow> slice_packet (m_snd_una t) (fifo_data (m_sbuf t)) p"
    using assms(2-4) by (auto simp: sends_slices_def)
  ultimately show ?thesis
    using assms(1,2) unfolding sends_slices_def by (intro conjI exI [of _ "e1 @ e2"]) auto
qed

lemma length_long_to_bytes [simp]: "length (long_to_bytes v) = 4"
  by (simp add: long_to_bytes_def SetBE32_def)

lemma length_short_to_bytes [simp]: "length (short_to_bytes v) = 2"
  by (simp add: short_to_bytes_def SetBE16_def)

lemma bytes_to_long_to_bytes [simp]: "bytes_to_long (long_to_bytes v) = v"
  by (simp add: bytes_to_long_def long_to_bytes_def)

lemma bytes_to_short_to_bytes [simp]: "bytes_to_short (short_to_bytes v) = v"
  by (simp add: bytes_to_short_def short_to_bytes_def)

lemma length_tcp_header [simp]: "length (tcp_header t seq flags now) = 24"
  by (simp add: tcp_header_def)

lemma mem_read_header [simp]:
  "mem_read (tcp_header t seq flags now @ data) 0 4 = long_to_bytes (m_conv t)"
  "mem_read (tcp_header t seq flags now @ data) 4 4 = long_to_bytes seq"
  "mem_read (tcp_header t seq flags now @ data) 8 4 = long_to_bytes (m_rcv_nxt t)"
  "mem_read (tcp_header t seq flags now @ data) 14 2
     = short_to_bytes (ucast (drop_bit (unat (m_rwnd_scale t)) (m_rcv_wnd t)))"
  "mem_read (tcp_header t seq flags now @ data) 16 4 = long_to_bytes now"
  "mem_read (tcp_header t seq flags now @ data) 20 4 = long_to_bytes (m_ts_recent t)"
  "(tcp_header t seq flags now @ data) ! 13 = flags"
  by (simp_all add: tcp_header_def mem_read_def nth_append)

text \<open>Parsing the packet that \<^verbatim>\<open>packet\<close> built gives back the segment it was built from.\<close>

lemma parse_segment_header:
  assumes "length data < 2 ^ 32 - 24"
  shows "parse_segment (tcp_header t seq flags now @ data) =
    \<lparr>seg_conv = m_conv t, seg_seq = seq, seg_ack = m_rcv_nxt t, seg_flags = flags,
     seg_wnd = ucast (drop_bit (unat (m_rwnd_scale t)) (m_rcv_wnd t)),
     seg_data = data, seg_len = of_nat (length data), seg_tsval = now, seg_tsecr = m_ts_recent t\<rparr>"
  by (simp add: parse_segment_def HEADER_SIZE_def)

lemma tcp_payload_slice:
  assumes "fifo_inv (m_sbuf t)" "len = 0 \<or> unat off + unat len \<le> fb_data_length (m_sbuf t)"
  shows "tcp_payload t off len = (mem_read (fifo_data (m_sbuf t)) (unat off) (unat len), True)"
proof (cases "len = 0")
  case True
  then show ?thesis by (simp add: tcp_payload_def)
next
  case False
  then have nz: "0 < unat len" by (simp add: unat_gt_0)
  with False assms(2) have off: "unat off < fb_data_length (m_sbuf t)" by simp
  show ?thesis
    using False assms(2) off ReadOffset_data [OF assms(1) off, of "unat len"]
    by (simp add: tcp_payload_def mem_read_def min_absorb2)
qed

lemma packet_slice:
  assumes f: "fifo_inv (m_sbuf t)" and len: "len \<le> MAX_PACKET - PACKET_OVERHEAD"
    and off: "len = 0 \<or> off = seq - m_snd_una t \<and> unat off + unat len \<le> fb_data_length (m_sbuf t)"
  shows "sends_slices t (snd (tcp_packet E t seq flags off len))"
proof -
  let ?p = "tcp_header t seq flags (env_now E (w_clock t))
    @ mem_read (fifo_data (m_sbuf t)) (unat off) (unat len)"
  have p: "tcp_payload t off len = (mem_read (fifo_data (m_sbuf t)) (unat off) (unat len), True)"
    by (rule tcp_payload_slice [OF f]) (use off in auto)
  have "HEADER_SIZE + len \<le> MAX_PACKET"
    using len unfolding tcp_consts by (simp add: word_le_nat_alt unat_add_nowrap)
  then have "w_ok (snd (tcp_packet E t seq flags off len)) = w_ok t"
    "w_events (snd (tcp_packet E t seq flags off len)) = w_events t @ [TcpWritePacket ?p]"
    using p by (simp_all add: tcp_packet_def Let_def)
  moreover have "slice_packet (m_snd_una t) (fifo_data (m_sbuf t)) ?p"
    using off by (auto simp: slice_packet_def packet_payload_def packet_seq_def min_absorb1)
  ultimately show ?thesis by (auto simp: sends_slices_def)
qed

section \<open>The aligned sender\<close>

definition aligned :: "pseudo_tcp \<Rightarrow> bool" where
  "aligned t \<longleftrightarrow> snd_inv t \<and> contiguous (m_snd_una t) (m_slist t)
     \<and> m_mss t \<le> MAX_PACKET - PACKET_OVERHEAD"

lemma contiguous_nth:
  assumes "contiguous una segs" "i < length segs" "seg_total segs < 2 ^ 32"
  shows "unat (ss_seq (segs ! i) - una) = seg_total (take i segs)
    \<and> unat (ss_seq (segs ! i) - una) + unat (ss_len (segs ! i)) \<le> seg_total segs"
proof -
  obtain xs s ys where d: "segs = xs @ s # ys" "length xs = i" "segs ! i = s" "take i segs = xs"
    using nth_split [OF assms(2)] by metis
  have "ss_seq s = una + of_nat (seg_total xs)" using assms(1) by (simp add: d(1))
  then have "ss_seq s - una = of_nat (seg_total xs)" by simp
  moreover have "unat (of_nat (seg_total xs) :: uint32) = seg_total xs"
    using assms(3) by (intro unat_of_nat_small) (simp add: d(1))
  ultimately have "unat (ss_seq s - una) = seg_total xs" by simp
  then show ?thesis unfolding d(3) d(4) unfolding d(1) by simp
qed

lemma lower_mss_mss:
  "lower_mss t n = (b, n', t') \<Longrightarrow> m_mss t \<le> MAX_PACKET - PACKET_OVERHEAD
    \<Longrightarrow> m_mss t' \<le> MAX_PACKET - PACKET_OVERHEAD \<and> w_ok t' = w_ok t \<and> w_events t' = w_events t"
proof (induction t n rule: lower_mss.induct)
  case (1 t n)
  let ?l = "m_msslevel t + 1"
  show ?case
  proof (cases "packet_maximum ?l = 0")
    case True
    with "1.prems" show ?thesis by (simp add: lower_mss.simps [of t])
  next
    case nz: False
    note b = packet_maximum_mss(2) [OF nz]
    show ?thesis
    proof (cases "packet_maximum ?l - PACKET_OVERHEAD < n")
      case True
      with "1.prems" nz b show ?thesis by (auto simp: lower_mss.simps [of t] Let_def)
    next
      case False
      with "1.prems" nz b "1.IH" [OF nz refl refl refl False] show ?thesis
        by (simp add: lower_mss.simps [of t] Let_def)
    qed
  qed
qed

lemma packet_mss [simp]: "m_mss (snd (tcp_packet E t seq flags off len)) = m_mss t"
  by (simp add: tcp_packet_def Let_def case_prod_beta)

lemma transmit_packet_slices:
  assumes "transmit_packet E t seg n = (b, n', t')"
    and "fifo_inv (m_sbuf t)" "m_mss t \<le> MAX_PACKET - PACKET_OVERHEAD"
    and "n \<le> MAX_PACKET - PACKET_OVERHEAD"
    and "unat (ss_seq seg - m_snd_una t) + unat n \<le> fb_data_length (m_sbuf t)"
  shows "sends_slices t t' \<and> m_mss t' \<le> MAX_PACKET - PACKET_OVERHEAD"
  using assms
proof (induction E t seg n rule: transmit_packet.induct)
  case (1 E t seg n)
  let ?r = "tcp_packet E t (ss_seq seg) (if ss_bCtrl seg then FLAG_CTL else 0)
    (ss_seq seg - m_snd_una t) n"
  have s: "sends_slices t (snd ?r)" using "1.prems" by (intro packet_slice) auto
  note v = tx_view_eqD(3,4) [OF packet_tx_view [of E t "ss_seq seg"
      "if ss_bCtrl seg then FLAG_CTL else 0" "ss_seq seg - m_snd_una t" n]]
  show ?case
  proof (cases "fst ?r")
    case WR_TOO_LARGE
    obtain b1 n1 t1 where l: "lower_mss (snd ?r) n = (b1, n1, t1)" by (metis prod_cases3)
    have m: "m_mss t1 \<le> MAX_PACKET - PACKET_OVERHEAD" and same: "w_ok t1 = w_ok (snd ?r)"
      "w_events t1 = w_events (snd ?r)"
      using lower_mss_mss [OF l] "1.prems"(3) by simp_all
    have n1: "n1 \<le> n" using lower_mss_bounds [OF l] by simp
    have f: "m_snd_una t1 = m_snd_una t" "m_sbuf t1 = m_sbuf t"
      using tx_view_eqD(3,4) [OF lower_mss_tx_view [OF l]] v by simp_all
    have s1: "sends_slices t t1"
      by (rule sends_slices_trans [OF s sends_slices_same [OF same]]) (simp_all add: v)
    show ?thesis
    proof (cases b1)
      case True
      have t: "transmit_packet E t1 seg n1 = (b, n', t')"
        using "1.prems" WR_TOO_LARGE l True by (simp add: transmit_packet.simps [of E t] Let_def)
      have "unat (ss_seq seg - m_snd_una t1) + unat n1 \<le> fb_data_length (m_sbuf t1)"
        using "1.prems"(5) n1 by (simp add: f word_le_nat_alt)
      from "1.IH" [OF refl refl refl WR_TOO_LARGE l [symmetric] _ refl t _ m _ this] True
        "1.prems" n1 f
      have "sends_slices t1 t' \<and> m_mss t' \<le> MAX_PACKET - PACKET_OVERHEAD"
        by (auto intro: order_trans)
      with sends_slices_trans [OF s1 _ f] show ?thesis by blast
    next
      case False
      with "1.prems" WR_TOO_LARGE l s1 m show ?thesis
        by (auto simp: transmit_packet.simps [of E t] Let_def)
    qed
  qed (use "1.prems" s in \<open>auto simp: transmit_packet.simps [of E t] Let_def\<close>)
qed

lemma sends_slices_upd:
  "sends_slices t t1 \<Longrightarrow> sends_slices t (t1\<lparr>m_slist := a, m_snd_nxt := b, m_rto_base := c\<rparr>)"
  by (simp add: sends_slices_def)

lemma transmit_aligned:
  assumes al: "aligned t" and i: "i < length (m_slist t)"
    and before: "ss_xmit (m_slist t ! i) = 0 \<Longrightarrow> \<forall>s\<in>set (take i (m_slist t)). ss_xmit s \<noteq> 0"
    and tr: "transmit E t i now = (b, t')"
  shows "aligned t' \<and> sends_slices t t'"
proof -
  let ?seg = "m_slist t ! i"
  let ?n = "min (ss_len ?seg) (m_mss t)"
  have inv: "snd_inv t" and co: "contiguous (m_snd_una t) (m_slist t)"
    and mss: "m_mss t \<le> MAX_PACKET - PACKET_OVERHEAD" and f: "fifo_inv (m_sbuf t)"
    and tot: "seg_total (m_slist t) = fb_data_length (m_sbuf t)"
    using al by (simp_all add: aligned_def snd_inv_def)
  note pos = contiguous_nth [OF co i snd_inv_total [OF inv]]
  have len: "unat (ss_seq ?seg - m_snd_una t) + unat ?n \<le> fb_data_length (m_sbuf t)"
  proof -
    have "unat ?n \<le> unat (ss_len ?seg)" by (simp add: word_le_nat_alt [symmetric])
    with pos tot show ?thesis by simp
  qed
  have nm: "?n \<le> MAX_PACKET - PACKET_OVERHEAD" using mss by (simp add: min.coboundedI2)
  note base = transmit_inv [OF inv i before tr]
  show ?thesis
  proof (cases b)
    case True
    then have tr': "transmit E t i now = (True, t')" using tr by simp
    obtain n t1 where v: "tx_view t1 = tx_view t" and x: "ss_xmit ?seg < 30"
      and n: "n \<le> ss_len ?seg" and tp: "transmit_packet E t ?seg ?n = (True, n, t1)"
      and t': "t' = t1\<lparr>m_slist := mark_sent (m_slist t1) i n,
                m_snd_nxt := (if ss_xmit ?seg = 0 then m_snd_nxt t1 + n else m_snd_nxt t1),
                m_rto_base := (if m_rto_base t1 = 0 then now else m_rto_base t1)\<rparr>"
      by (rule transmitE [OF tr'])
    note s = transmit_packet_slices [OF tp f mss nm len]
    have "contiguous (m_snd_una t) (mark_sent (m_slist t) i n)"
      by (rule mark_sent_props(3) [OF i n x co])
    then have "contiguous (m_snd_una t') (m_slist t')"
      by (simp add: t' tx_view_eqD [OF v])
    moreover have "sends_slices t t'" unfolding t' by (rule sends_slices_upd) (use s in simp)
    ultimately show ?thesis using base s by (simp add: aligned_def) (simp add: t')
  next
    case False
    obtain b1 n1 t1 where tp: "transmit_packet E t ?seg ?n = (b1, n1, t1)" by (metis prod_cases3)
    then have "t' = t \<or> t' = t1"
      using tr False i by (auto simp: transmit_def Let_def split: if_splits bool.splits)
    moreover note s = transmit_packet_slices [OF tp f mss nm len]
    moreover have "tx_view t' = tx_view t" using transmit_False [of E t i now t'] tr i False by simp
    ultimately show ?thesis
      using base mss co tx_view_eqD(1,3) [of t' t] by (auto simp: aligned_def)
  qed
qed

lemma send_ack_slices:
  assumes "fifo_inv (m_sbuf t)"
  shows "sends_slices t (send_ack E t sflags)"
proof -
  have "sends_slices t (snd (tcp_packet E t (m_snd_nxt t) 0 0 0))"
    using assms by (intro packet_slice) simp_all
  then show ?thesis by (auto simp: send_ack_def Now_def intro: sends_slices_same)
qed

lemma send_ack_mss [simp]: "m_mss (send_ack E t sflags) = m_mss t"
  by (simp add: send_ack_def Now_def)

text \<open>The loop never runs off the segment list: what it may send is there.\<close>

lemma first_unsent_exists:
  assumes inv: "snd_inv t" and m: "may_send t"
  shows "first_unsent t < length (m_slist t)"
proof (rule ccontr)
  assume "\<not> first_unsent t < length (m_slist t)"
  then have "takeWhile (\<lambda>s. ss_xmit s > 0) (m_slist t) = m_slist t"
    by (metis first_unsent_def length_takeWhile_le linorder_le_less_linear takeWhile_eq_take take_all)
  then have "\<forall>s\<in>set (m_slist t). ss_xmit s \<noteq> 0"
    by (metis set_takeWhileD word_neq_0_conv)
  then have "sent_total (m_slist t) = seg_total (m_slist t)" by (rule sent_total_all)
  then have "unat (m_snd_nxt t - m_snd_una t) = GetBuffered (m_sbuf t)"
    using inv by (simp add: snd_inv_def GetBuffered_def)
  from this [symmetric] have "of_nat (GetBuffered (m_sbuf t)) = m_snd_nxt t - m_snd_una t"
    by simp
  then have "send_available t = 0" by (simp add: send_available_def Let_def)
  with m show False by (simp add: may_send_def)
qed

lemma attempt_loop_aligned:
  assumes "aligned t"
  shows "aligned (attempt_loop E t sflags now) \<and> sends_slices t (attempt_loop E t sflags now)"
  using assms
proof (induction E t sflags now rule: attempt_loop_induct)
  case (step E t sflags now)
  have inv: "snd_inv t" using step.prems by (simp add: aligned_def)
  have go: "aligned t' \<and> sends_slices t t' \<and> m_snd_una t' = m_snd_una t \<and> m_sbuf t' = m_sbuf t"
    if i: "first_unsent t < length (m_slist t)"
      and tr: "transmit E (t\<lparr>m_slist := split_segment (m_slist t) (first_unsent t) n\<rparr>)
            (first_unsent t) now = (b, t')" for n b t'
  proof -
    let ?t = "t\<lparr>m_slist := split_segment (m_slist t) (first_unsent t) n\<rparr>"
    note x = first_unsent_xmit [OF i]
    have "aligned ?t"
      using step.prems split_unsent_inv [OF inv i] split_segment_props(3) [OF i x]
      by (simp add: aligned_def)
    from transmit_aligned [OF this _ _ tr] unsent_transmit_inv [OF inv i tr]
    show ?thesis using split_segment_nth [OF i] split_segment_props(5) [OF i x] first_unsent_before
      by (auto simp: sends_slices_def)
  qed
  show ?case
  proof (cases rule: attempt_loop_cases [where t = t and E = E and now = now])
    case ack
    have "fifo_inv (m_sbuf t)" using inv by (simp add: snd_inv_def)
    then show ?thesis
      using step.prems ack send_ack_slices [of t E sflags] tx_view_eqD [OF send_ack_view [of E t sflags]]
      by (simp add: attempt_loop_ack aligned_def snd_inv_tx_view [OF send_ack_view])
  next
    case none
    then show ?thesis using first_unsent_exists [OF inv] by simp
  next
    case (stop t')
    then show ?thesis using go [OF stop(2,3)] by (simp add: attempt_loop_stop)
  next
    case (send t')
    note g = go [OF send(2,3)]
    have "aligned (attempt_loop E t' sfNone now) \<and> sends_slices t' (attempt_loop E t' sfNone now)"
      using step.IH [OF send] g by simp
    then show ?thesis
      using g sends_slices_trans [of t t'] send by (simp add: attempt_loop_send)
  qed (use step.prems in \<open>simp add: attempt_loop_nagle\<close>)
qed

lemma attemptSend_aligned:
  assumes "aligned t"
  shows "aligned (attemptSend E t sflags) \<and> sends_slices t (attemptSend E t sflags)"
proof -
  obtain t2 now where a: "attemptSend E t sflags = attempt_loop E t2 sflags now"
    and t2: "t2 = t\<lparr>w_clock := w_clock t + 1, m_cwnd := m_cwnd t2\<rparr>"
    by (rule attemptSend_start)
  have "aligned t2" by (subst t2) (use assms in \<open>simp add: aligned_def\<close>)
  moreover have "m_snd_una t2 = m_snd_una t" "m_sbuf t2 = m_sbuf t" "w_ok t2 = w_ok t"
    "w_events t2 = w_events t"
    by (subst t2, simp)+
  ultimately show ?thesis
    using attempt_loop_aligned [of t2 E sflags now] by (simp add: a sends_slices_def)
qed

section \<open>The peer's window\<close>

lemma send_available_window:
  assumes "send_available t \<noteq> 0"
  shows "unat (m_snd_nxt t - m_snd_una t) + unat (send_available t) \<le> unat (m_snd_wnd t)"
proof -
  have cap: "x \<le> u"
    if "x = (if a > u then if c then 0 else u else a)" for x a u :: uint32 and c
    using that by (auto simp: not_less)
  define cwnd where "cwnd = (if m_dup_acks t = 1 \<or> m_dup_acks t = 2
    then m_cwnd t + ucast (m_dup_acks t) * m_mss t else m_cwnd t)"
  define w where "w = min (m_snd_wnd t) cwnd"
  define infl where "infl = m_snd_nxt t - m_snd_una t"
  define u where "u = (if infl < w then w - infl else 0)"
  have "send_available t \<le> u"
    unfolding send_available_def Let_def cwnd_def [symmetric] w_def [symmetric] infl_def [symmetric]
      u_def [symmetric]
    by (rule cap) (rule refl)
  moreover from this assms have "infl < w" by (auto simp: u_def split: if_splits)
  ultimately have "unat infl + unat (send_available t) \<le> unat w"
    by (simp add: u_def word_le_nat_alt word_less_nat_alt unat_sub)
  moreover have "unat w \<le> unat (m_snd_wnd t)" by (simp add: w_def word_le_nat_alt [symmetric])
  ultimately show ?thesis by (simp add: infl_def)
qed

lemma attempt_loop_window:
  assumes "snd_inv t"
  shows "unat (m_snd_nxt (attempt_loop E t sflags now) - m_snd_una (attempt_loop E t sflags now))
      \<le> max (unat (m_snd_nxt t - m_snd_una t)) (unat (m_snd_wnd t))"
  using assms
proof (induction E t sflags now rule: attempt_loop_induct)
  case (step E t sflags now)
  show ?case
  proof (cases rule: attempt_loop_cases [where t = t and E = E and now = now])
    case ack
    then show ?thesis
      using tx_view_eqD(2,3) [OF send_ack_view [of E t sflags]] by (simp add: attempt_loop_ack)
  next
    case none
    then show ?thesis by (simp add: attempt_loop_none)
  next
    case (stop t')
    then have "tx_view t' = tx_view (t\<lparr>m_slist := split_segment (m_slist t) (first_unsent t)
        (send_available t)\<rparr>)"
      using transmit_False split_segment_nth [OF stop(2)] by simp
    then show ?thesis using tx_view_eqD(2,3) [of t'] stop by (simp add: attempt_loop_stop)
  next
    case (send t')
    let ?t = "t\<lparr>m_slist := split_segment (m_slist t) (first_unsent t) (send_available t)\<rparr>"
    note i = unsent_transmit_inv [OF step.prems send(2,3)]
    obtain n t1 where v: "tx_view t1 = tx_view ?t"
      and n: "n \<le> ss_len (m_slist ?t ! first_unsent t)"
      and t': "t' = t1\<lparr>m_slist := mark_sent (m_slist t1) (first_unsent t) n,
                m_snd_nxt := (if ss_xmit (m_slist ?t ! first_unsent t) = 0
                              then m_snd_nxt t1 + n else m_snd_nxt t1),
                m_rto_base := (if m_rto_base t1 = 0 then now else m_rto_base t1)\<rparr>"
      by (rule transmitE [OF send(3)])
    have x: "ss_xmit (m_slist ?t ! first_unsent t) = 0" and na: "n \<le> send_available t"
      using split_segment_nth [OF send(2)] first_unsent_xmit [OF send(2)] n by simp_all
    have "m_snd_nxt t' - m_snd_una t' = (m_snd_nxt t - m_snd_una t) + n"
      using x by (simp add: t' tx_view_eqD(2,3) [OF v])
    moreover have "send_available t \<noteq> 0" using send(1) by (simp add: may_send_def)
    note w = send_available_window [OF this]
    ultimately have "unat (m_snd_nxt t' - m_snd_una t') \<le> unat (m_snd_wnd t)"
      using w na unat_add_nowrap [of "m_snd_nxt t - m_snd_una t" n] unat32_lt [of "m_snd_wnd t"]
      by (simp add: word_le_nat_alt del: unat32_lt)
    moreover have "m_snd_wnd t' = m_snd_wnd t"
      using tx_view_eqD(9) [OF v] by (simp add: t')
    ultimately show ?thesis
      using step.IH [OF send] i send by (simp add: attempt_loop_send)
  qed (simp add: attempt_loop_nagle)
qed

end
