(* ===== verification/TcpReceiver.thy ===== *)
theory TcpReceiver
  imports TcpSender
begin

text \<open>
  What the receiving half delivers.  \<open>S\<close> is the peer's byte stream, \<open>S k\<close> the byte with
  sequence number \<open>k\<close>.  \<open>rcv_agrees\<close> says that the receive buffer agrees with \<open>S\<close> wherever it
  holds data: in its readable part, which ends at \<^verbatim>\<open>m_rcv_nxt\<close>, and at the places that
  \<^verbatim>\<open>m_rlist\<close> records as received ahead of order.  Every segment of the stream, in whatever
  order, cut, overlapping or repeated, keeps it, so what \<^verbatim>\<open>Recv\<close> returns is the stream.
\<close>

section \<open>Agreement with the peer's stream\<close>

definition ahead :: "nat \<Rightarrow> rsegment list \<Rightarrow> nat set" where
  "ahead pos rs =
     {i. \<exists>r\<in>set rs. unat (rs_seq r) \<le> pos + i \<and> pos + i < unat (rs_seq r) + unat (rs_len r)}"

text \<open>The stream position of the first byte that \<^verbatim>\<open>Recv\<close> will return.\<close>

definition rcv_pos :: "pseudo_tcp \<Rightarrow> nat" where
  "rcv_pos t = unat (m_rcv_nxt t) - fb_data_length (m_rbuf t)"

definition rcv_agrees :: "(nat \<Rightarrow> uint8) \<Rightarrow> pseudo_tcp \<Rightarrow> rsegment list \<Rightarrow> bool" where
  "rcv_agrees S t rs \<longleftrightarrow>
     fb_data_length (m_rbuf t) \<le> unat (m_rcv_nxt t) \<and> fb_buffer_length (m_rbuf t) < 2 ^ 32
     \<and> fq.agrees (m_rbuf t) (\<lambda>i. S (rcv_pos t + i)) (ahead (rcv_pos t) rs)
     \<and> (\<forall>r\<in>set rs. unat (rs_seq r) + unat (rs_len r) < 2 ^ 32
          \<and> unat (rs_seq r) + unat (rs_len r) \<le> rcv_pos t + fb_buffer_length (m_rbuf t))"

text \<open>A segment that carries the stream's bytes.\<close>

definition carries :: "(nat \<Rightarrow> uint8) \<Rightarrow> segment \<Rightarrow> bool" where
  "carries S seg \<longleftrightarrow> unat (seg_seq seg) + unat (seg_len seg) < 2 ^ 32
     \<and> unat (seg_len seg) \<le> length (seg_data seg)
     \<and> (\<forall>j < unat (seg_len seg). seg_data seg ! j = S (unat (seg_seq seg) + j))"

lemma agrees_mono: "fq.agrees f S R \<Longrightarrow> R' \<subseteq> R \<Longrightarrow> fq.agrees f S R'"
  by (auto simp: fq.agrees_def)

lemma ahead_mono: "set rs' \<subseteq> set rs \<Longrightarrow> ahead pos rs' \<subseteq> ahead pos rs"
  by (auto simp: ahead_def)

lemma rcv_agrees_mono: "rcv_agrees S t rs \<Longrightarrow> set rs' \<subseteq> set rs \<Longrightarrow> rcv_agrees S t rs'"
  using agrees_mono [OF _ ahead_mono] by (auto simp: rcv_agrees_def)

lemma rcv_agrees_inv:
  assumes "rcv_agrees S t rs"
  shows "fifo_inv (m_rbuf t)" "fifo_open (m_rbuf t)"
    "rcv_pos t + fb_data_length (m_rbuf t) = unat (m_rcv_nxt t)"
  using assms by (auto simp: rcv_agrees_def fq.agrees_def rcv_pos_def)

lemma rcv_agrees_cong:
  assumes "m_rbuf t' = m_rbuf t" "m_rcv_nxt t' = m_rcv_nxt t"
  shows "rcv_agrees S t' rs = rcv_agrees S t rs" "rcv_pos t' = rcv_pos t"
  by (simp_all add: rcv_agrees_def rcv_pos_def assms)

section \<open>Reassembly\<close>

lemma commit_received_agrees:
  assumes ag: "rcv_agrees S t rs"
    and R: "\<forall>k. unat (m_rcv_nxt t) \<le> k \<and> k < unat (m_rcv_nxt t) + unat n
      \<longrightarrow> (\<exists>r\<in>set rs. unat (rs_seq r) \<le> k \<and> k < unat (rs_seq r) + unat (rs_len r))"
    and fit: "unat (m_rcv_nxt t) + unat n \<le> rcv_pos t + fb_buffer_length (m_rbuf t)"
      "unat (m_rcv_nxt t) + unat n < 2 ^ 32"
  shows "rcv_agrees S (commit_received t n) rs"
    and "rcv_pos (commit_received t n) = rcv_pos t"
    and "w_ok (commit_received t n) = w_ok t"
    and "unat (m_rcv_nxt (commit_received t n)) = unat (m_rcv_nxt t) + unat n"
    and "fb_buffer_length (m_rbuf (commit_received t n)) = fb_buffer_length (m_rbuf t)"
proof -
  note i = rcv_agrees_inv [OF ag]
  have "unat n \<le> GetWriteRemaining (m_rbuf t)" using fit(1) i(3) by (simp add: GetWriteRemaining_def)
  then obtain f where f: "ConsumeWriteBuffer (m_rbuf t) (unat n) = Some f"
    using ConsumeWriteBuffer_Some by blast
  note F = ConsumeWriteBuffer_slots [OF i(1) f]
  have t': "commit_received t n = t\<lparr>m_rbuf := f, m_rcv_nxt := m_rcv_nxt t + n, m_rcv_wnd := m_rcv_wnd t - n\<rparr>"
    by (simp add: commit_received_def f)
  have nxt: "unat (m_rcv_nxt t + n) = unat (m_rcv_nxt t) + unat n"
    using fit(2) by (simp add: unat_add_nowrap)
  have pos: "rcv_pos (commit_received t n) = rcv_pos t"
    using F nxt i(3) by (simp add: rcv_pos_def t')
  have "{fb_data_length (m_rbuf t) ..< fb_data_length (m_rbuf t) + unat n} \<subseteq> ahead (rcv_pos t) rs"
  proof
    fix k assume "k \<in> {fb_data_length (m_rbuf t) ..< fb_data_length (m_rbuf t) + unat n}"
    then show "k \<in> ahead (rcv_pos t) rs" using R [rule_format, of "rcv_pos t + k"] i(3) by (auto simp: ahead_def)
  qed
  moreover have "fq.agrees (m_rbuf t) (\<lambda>i. S (rcv_pos t + i)) (ahead (rcv_pos t) rs)"
    using ag by (simp add: rcv_agrees_def)
  ultimately have "fq.agrees f (\<lambda>i. S (rcv_pos t + i)) (ahead (rcv_pos t) rs)"
    using fq.agrees_commit f by blast
  then show "rcv_agrees S (commit_received t n) rs"
    using ag F nxt by (simp add: rcv_agrees_def pos) (simp add: t')
  show "rcv_pos (commit_received t n) = rcv_pos t" "w_ok (commit_received t n) = w_ok t"
    "unat (m_rcv_nxt (commit_received t n)) = unat (m_rcv_nxt t) + unat n"
    "fb_buffer_length (m_rbuf (commit_received t n)) = fb_buffer_length (m_rbuf t)"
    using pos nxt F by (simp_all add: t')
qed

lemma recover_rlist_agrees:
  assumes "rcv_agrees S t rs" "recover_rlist t fl rs = (t', fl', rs')"
  shows "rcv_agrees S t' rs' \<and> rcv_pos t' = rcv_pos t \<and> w_ok t' = w_ok t
    \<and> unat (m_rcv_nxt t) \<le> unat (m_rcv_nxt t')"
  using assms
proof (induction t fl rs arbitrary: t' fl' rs' rule: recover_rlist.induct)
  case (2 t fl r rs)
  have sub: "rcv_agrees S u rs" if "rcv_agrees S u (r # rs)" for u
    by (rule rcv_agrees_mono [OF that]) auto
  show ?case
  proof (cases "rs_seq r \<le> m_rcv_nxt t \<and> rs_seq r + rs_len r > m_rcv_nxt t")
    case True
    let ?n = "rs_seq r + rs_len r - m_rcv_nxt t"
    let ?u = "commit_received t ?n"
    have b: "unat (rs_seq r) + unat (rs_len r) < 2 ^ 32"
      "unat (rs_seq r) + unat (rs_len r) \<le> rcv_pos t + fb_buffer_length (m_rbuf t)"
      using "2.prems"(1) by (simp_all add: rcv_agrees_def)
    have e: "unat (rs_seq r + rs_len r) = unat (rs_seq r) + unat (rs_len r)"
      using b(1) by (simp add: unat_add_nowrap)
    have n: "unat (m_rcv_nxt t) + unat ?n = unat (rs_seq r) + unat (rs_len r)"
      using True e by (simp add: unat_sub word_less_nat_alt word_le_nat_alt)
    have c: "rcv_agrees S ?u (r # rs)" "rcv_pos ?u = rcv_pos t" "w_ok ?u = w_ok t"
      "unat (m_rcv_nxt ?u) = unat (m_rcv_nxt t) + unat ?n"
      using commit_received_agrees [OF "2.prems"(1), of ?n] n b True
      by (auto simp: word_le_nat_alt)
    have "recover_rlist ?u sfImmediateAck rs = (t', fl', rs')"
      using "2.prems"(2) True by simp
    with "2.IH"(1) [OF _ _ sub [OF c(1)]] True c show ?thesis by auto
  next
    case False
    show ?thesis
    proof (cases "rs_seq r \<le> m_rcv_nxt t")
      case True
      then show ?thesis using "2.IH"(2) [OF _ _ sub] False "2.prems" by auto
    next
      case False
      then show ?thesis using "2.prems" by auto
    qed
  qed
qed simp

section \<open>Trimming\<close>

lemma trim_front_carries:
  assumes "carries S seg"
  shows "carries S (trim_front nxt seg) \<and> seg_flags (trim_front nxt seg) = seg_flags seg
    \<and> (seg_len (trim_front nxt seg) = 0 \<or> nxt \<le> seg_seq (trim_front nxt seg))"
proof (cases "seg_seq seg < nxt")
  case True
  let ?n = "nxt - seg_seq seg"
  have n: "unat ?n = unat nxt - unat (seg_seq seg)"
    using True by (simp add: unat_sub word_less_nat_alt word_le_nat_alt)
  show ?thesis
  proof (cases "?n < seg_len seg")
    case lt: True
    then have l: "unat (seg_len seg - ?n) = unat (seg_len seg) - unat ?n" "unat ?n < unat (seg_len seg)"
      by (simp_all add: unat_sub word_less_nat_alt word_le_nat_alt)
    have t: "trim_front nxt seg = seg\<lparr>seg_seq := nxt, seg_data := drop (unat ?n) (seg_data seg),
        seg_len := seg_len seg - ?n\<rparr>"
      using True lt by (simp add: trim_front_def Let_def)
    have lt': "unat (seg_seq seg) < unat nxt" using True by (simp add: word_less_nat_alt)
    have "drop (unat ?n) (seg_data seg) ! j = S (unat nxt + j)"
      if "j < unat (seg_len seg) - unat ?n" for j
    proof -
      have "seg_data seg ! (unat ?n + j) = S (unat (seg_seq seg) + (unat ?n + j))"
        using assms that by (simp add: carries_def)
      moreover have "unat (seg_seq seg) + (unat ?n + j) = unat nxt + j" using n lt' by simp
      moreover have "unat ?n \<le> length (seg_data seg)" using assms l by (simp add: carries_def)
      ultimately show ?thesis by simp
    qed
    with assms l n lt' show ?thesis by (auto simp: t carries_def)
  next
    case False
    with True assms show ?thesis by (auto simp: trim_front_def carries_def Let_def)
  qed
next
  case False
  with assms show ?thesis by (auto simp: trim_front_def)
qed

lemma trim_back_carries:
  assumes c: "carries S seg" and ge: "seg_len seg = 0 \<or> nxt \<le> seg_seq seg"
  shows "carries S (trim_back nxt av seg) \<and> seg_flags (trim_back nxt av seg) = seg_flags seg
    \<and> (seg_len (trim_back nxt av seg) = 0
       \<or> nxt \<le> seg_seq (trim_back nxt av seg) \<and> unat (seg_seq (trim_back nxt av seg))
          + unat (seg_len (trim_back nxt av seg)) \<le> unat nxt + unat av)"
proof (cases "seg_len seg = 0")
  case True
  with c show ?thesis by (auto simp: trim_back_def carries_def Let_def)
next
  case False
  then have ge: "nxt \<le> seg_seq seg" using ge by simp
  let ?d = "seg_seq seg + seg_len seg - nxt"
  have e: "unat (seg_seq seg + seg_len seg) = unat (seg_seq seg) + unat (seg_len seg)"
    using c by (simp add: carries_def unat_add_nowrap)
  have le: "nxt \<le> seg_seq seg + seg_len seg" using ge e by (simp add: word_le_nat_alt)
  have d: "unat ?d = unat (seg_seq seg) + unat (seg_len seg) - unat nxt"
    using le e by (simp add: unat_sub)
  show ?thesis
  proof (cases "?d > av \<and> ?d - av < seg_len seg")
    case True
    then have dv: "unat av < unat ?d" "unat (?d - av) < unat (seg_len seg)"
      by (simp_all add: word_less_nat_alt)
    from dv(1) have da: "unat (?d - av) = unat ?d - unat av"
      by (simp add: unat_sub word_le_nat_alt)
    define m where "m = seg_len seg - (?d - av)"
    have "?d - av \<le> seg_len seg" using dv(2) by (simp only: word_le_nat_alt)
    from unat_sub [OF this] have m: "unat m = unat (seg_len seg) - (unat ?d - unat av)"
      unfolding m_def da .
    have "trim_back nxt av seg = seg\<lparr>seg_len := m\<rparr>"
      using True by (simp only: trim_back_def Let_def m_def if_True)
    then show ?thesis using c ge d m dv(1)
      by (auto simp: carries_def word_le_nat_alt unat_eq_0)
  next
    case False
    then show ?thesis using c ge d e
      by (auto simp: trim_back_def Let_def carries_def word_le_nat_alt word_less_nat_alt not_less)
  qed
qed

lemma trim_segment_carries:
  assumes "carries S seg" and "rcv_agrees S t rs"
  shows "carries S (trim_segment t seg) \<and> seg_flags (trim_segment t seg) = seg_flags seg
    \<and> (seg_len (trim_segment t seg) = 0
       \<or> m_rcv_nxt t \<le> seg_seq (trim_segment t seg) \<and> unat (seg_seq (trim_segment t seg))
          + unat (seg_len (trim_segment t seg)) \<le> rcv_pos t + fb_buffer_length (m_rbuf t))"
proof -
  have "GetWriteRemaining (m_rbuf t) < 2 ^ 32"
    using assms(2) by (auto simp: rcv_agrees_def GetWriteRemaining_def)
  then have av: "unat (of_nat (GetWriteRemaining (m_rbuf t)) :: uint32) = GetWriteRemaining (m_rbuf t)"
    by (intro unat_of_nat_small) simp
  have "unat (m_rcv_nxt t) + GetWriteRemaining (m_rbuf t) = rcv_pos t + fb_buffer_length (m_rbuf t)"
    using rcv_agrees_inv [OF assms(2)] by (simp add: GetWriteRemaining_def fifo_inv_def)
  then show ?thesis
    using trim_front_carries [OF assms(1), of "m_rcv_nxt t"]
      trim_back_carries [of S "trim_front (m_rcv_nxt t) seg" "m_rcv_nxt t"
        "of_nat (GetWriteRemaining (m_rbuf t))"] av
    by (simp add: trim_segment_def)
qed

section \<open>Storing and delivering\<close>

lemma store_data_agrees:
  assumes ag: "rcv_agrees S t rs" and c: "carries S seg" and nz: "seg_len seg \<noteq> 0"
    and ge: "m_rcv_nxt t \<le> seg_seq seg"
    and fit: "unat (seg_seq seg) + unat (seg_len seg) \<le> rcv_pos t + fb_buffer_length (m_rbuf t)"
  shows "rcv_agrees S (store_data t seg) (\<lparr>rs_seq = seg_seq seg, rs_len = seg_len seg\<rparr> # rs)"
    and "rcv_pos (store_data t seg) = rcv_pos t"
    and "w_ok (store_data t seg) = w_ok t"
    and "m_rcv_nxt (store_data t seg) = m_rcv_nxt t"
    and "m_rlist (store_data t seg) = m_rlist t"
    and "fb_buffer_length (m_rbuf (store_data t seg)) = fb_buffer_length (m_rbuf t)"
proof -
  let ?off = "unat (seg_seq seg - m_rcv_nxt t)"
  let ?v = "take (unat (seg_len seg)) (seg_data seg)"
  let ?r = "\<lparr>rs_seq = seg_seq seg, rs_len = seg_len seg\<rparr>"
  note i = rcv_agrees_inv [OF ag]
  have off: "?off = unat (seg_seq seg) - unat (m_rcv_nxt t)" "unat (m_rcv_nxt t) \<le> unat (seg_seq seg)"
    using ge by (simp_all add: unat_sub word_le_nat_alt)
  have lv: "length ?v = unat (seg_len seg)" using c by (simp add: carries_def min_absorb2)
  have at: "rcv_pos t + (fb_data_length (m_rbuf t) + ?off) = unat (seg_seq seg)"
    using off i(3) by simp
  have "0 < unat (seg_len seg)" using nz by (simp add: unat_gt_0)
  then have room: "fb_data_length (m_rbuf t) + ?off < fb_buffer_length (m_rbuf t)"
    using fit at by simp
  obtain res n f where w: "WriteOffset (m_rbuf t) ?v ?off = (res, n, f)" by (metis prod_cases3)
  have f: "f = fifo_put_at (m_rbuf t) ?v ?off" by (simp add: fifo_put_at_def w)
  have ok: "res = SR_SUCCESS" using WriteOffset_slots [OF i(1) _ room w] i(2) by (simp add: fifo_open_def)
  note same = fifo_put_at_slots [OF i(1,2), of ?v ?off]
  have t': "store_data t seg = t\<lparr>m_rbuf := f\<rparr>"
    using w ok by (cases t) (simp add: store_data_def)
  have pos: "rcv_pos (store_data t seg) = rcv_pos t" using same by (simp add: rcv_pos_def t' f)
  have "?v ! j = S (rcv_pos t + (fb_data_length (m_rbuf t) + ?off + j))" if "j < length ?v" for j
  proof -
    have e: "rcv_pos t + (fb_data_length (m_rbuf t) + ?off + j) = unat (seg_seq seg) + j"
      using at by simp
    show ?thesis unfolding e using c that lv by (simp add: carries_def)
  qed
  moreover have "fq.agrees (m_rbuf t) (\<lambda>i. S (rcv_pos t + i)) (ahead (rcv_pos t) rs)"
    using ag by (simp add: rcv_agrees_def)
  ultimately have "fq.agrees f (\<lambda>i. S (rcv_pos t + i)) (ahead (rcv_pos t) rs
      \<union> {fb_data_length (m_rbuf t) + ?off ..< fb_data_length (m_rbuf t) + ?off + length ?v})"
    unfolding f by (intro fq.agrees_put_at) auto
  moreover have "ahead (rcv_pos t) (?r # rs) \<subseteq> ahead (rcv_pos t) rs
      \<union> {fb_data_length (m_rbuf t) + ?off ..< fb_data_length (m_rbuf t) + ?off + length ?v}"
  proof
    fix k assume "k \<in> ahead (rcv_pos t) (?r # rs)"
    then consider "k \<in> ahead (rcv_pos t) rs"
      | "unat (seg_seq seg) \<le> rcv_pos t + k" "rcv_pos t + k < unat (seg_seq seg) + unat (seg_len seg)"
      by (auto simp: ahead_def)
    then show "k \<in> ahead (rcv_pos t) rs
      \<union> {fb_data_length (m_rbuf t) + ?off ..< fb_data_length (m_rbuf t) + ?off + length ?v}"
    proof cases
      case 2
      then have "fb_data_length (m_rbuf t) + ?off \<le> k"
        "k < fb_data_length (m_rbuf t) + ?off + unat (seg_len seg)"
        using at by linarith+
      then show ?thesis using lv by simp
    qed simp
  qed
  ultimately have "fq.agrees f (\<lambda>i. S (rcv_pos t + i)) (ahead (rcv_pos t) (?r # rs))"
    by (rule agrees_mono)
  then show "rcv_agrees S (store_data t seg) (?r # rs)"
    using ag fit c same by (simp add: rcv_agrees_def pos carries_def) (simp add: t' f)
  show "rcv_pos (store_data t seg) = rcv_pos t" "w_ok (store_data t seg) = w_ok t"
    "m_rcv_nxt (store_data t seg) = m_rcv_nxt t" "m_rlist (store_data t seg) = m_rlist t"
    "fb_buffer_length (m_rbuf (store_data t seg)) = fb_buffer_length (m_rbuf t)"
    using pos same by (simp_all add: t' f)
qed

lemma set_insert_rsegment: "set (insert_rsegment r rs) = insert r (set rs)"
proof -
  have "set rs = set (takeWhile P rs) \<union> set (dropWhile P rs)" for P
    by (metis set_append takeWhile_dropWhile_id)
  then show ?thesis by (auto simp: insert_rsegment_def)
qed

text \<open>\<open>receives S t t'\<close>: from \<open>t\<close> to \<open>t'\<close> the buffer went on agreeing with the stream, nothing
  was delivered and no assertion failed.\<close>

definition receives :: "(nat \<Rightarrow> uint8) \<Rightarrow> pseudo_tcp \<Rightarrow> pseudo_tcp \<Rightarrow> bool" where
  "receives S t t' \<longleftrightarrow> rcv_agrees S t' (m_rlist t') \<and> rcv_pos t' = rcv_pos t
     \<and> unat (m_rcv_nxt t) \<le> unat (m_rcv_nxt t')"

lemma receive_data_agrees:
  assumes ag: "rcv_agrees S t (m_rlist t)" and c: "carries S seg"
    and data: "seg_flags seg AND FLAG_CTL = 0" "m_shutdown t = SD_NONE"
    and fit: "seg_len seg = 0 \<or> m_rcv_nxt t \<le> seg_seq seg
      \<and> unat (seg_seq seg) + unat (seg_len seg) \<le> rcv_pos t + fb_buffer_length (m_rbuf t)"
    and r: "receive_data t seg fl = (t', fl', nw)"
  shows "receives S t t' \<and> w_ok t' = w_ok t
    \<and> (seg_seq seg = m_rcv_nxt t \<longrightarrow> unat (seg_seq seg) + unat (seg_len seg) \<le> unat (m_rcv_nxt t'))"
proof (cases "seg_len seg = 0")
  case True
  then show ?thesis using r ag by (auto simp: receive_data_def receives_def)
next
  case False
  let ?t1 = "store_data t seg"
  let ?r = "\<lparr>rs_seq = seg_seq seg, rs_len = seg_len seg\<rparr>"
  have ge: "m_rcv_nxt t \<le> seg_seq seg"
    and ft: "unat (seg_seq seg) + unat (seg_len seg) \<le> rcv_pos t + fb_buffer_length (m_rbuf t)"
    using fit False by simp_all
  note st = store_data_agrees [OF ag c False ge ft]
  show ?thesis
  proof (cases "seg_seq seg = m_rcv_nxt t")
    case True
    let ?t2 = "commit_received ?t1 (seg_len seg)"
    have b: "unat (m_rcv_nxt ?t1) + unat (seg_len seg) < 2 ^ 32"
      "unat (m_rcv_nxt ?t1) + unat (seg_len seg) \<le> rcv_pos ?t1 + fb_buffer_length (m_rbuf ?t1)"
      using c ft True by (simp_all add: st carries_def)
    have "\<forall>k. unat (m_rcv_nxt ?t1) \<le> k \<and> k < unat (m_rcv_nxt ?t1) + unat (seg_len seg) \<longrightarrow>
        (\<exists>r\<in>set (?r # m_rlist t). unat (rs_seq r) \<le> k \<and> k < unat (rs_seq r) + unat (rs_len r))"
      using True by (simp add: st)
    note cm = commit_received_agrees [OF st(1) this b(2,1)]
    obtain t3 fl3 rs3 where rr: "recover_rlist ?t2 fl (m_rlist ?t1) = (t3, fl3, rs3)"
      by (metis prod_cases3)
    have "rcv_agrees S ?t2 (m_rlist ?t1)" by (rule rcv_agrees_mono [OF cm(1)]) (auto simp: st)
    note rc = recover_rlist_agrees [OF this rr]
    have t': "t' = t3\<lparr>m_rlist := rs3\<rparr>"
      using r rr False True data by (simp add: receive_data_def Let_def st)
    have "rcv_agrees S t' (m_rlist t')" using rc rcv_agrees_cong(1) [of t' t3 S rs3] by (simp add: t')
    moreover have "rcv_pos t' = rcv_pos t" using rc rcv_agrees_cong(2) [of t' t3] by (simp add: t' cm st)
    moreover have "unat (seg_seq seg) + unat (seg_len seg) \<le> unat (m_rcv_nxt t')"
      using rc True by (simp add: t' cm st)
    ultimately show ?thesis using rc True by (simp add: receives_def t' cm st)
  next
    case False
    have t': "t' = ?t1\<lparr>m_rlist := insert_rsegment ?r (m_rlist t)\<rparr>"
      using r False \<open>seg_len seg \<noteq> 0\<close> data by (simp add: receive_data_def Let_def st)
    have "rcv_agrees S ?t1 (insert_rsegment ?r (m_rlist t))"
      by (rule rcv_agrees_mono [OF st(1)]) (simp add: set_insert_rsegment)
    then show ?thesis
      using False rcv_agrees_cong [of t' ?t1] by (simp add: receives_def t' st)
  qed
qed

lemma Recv_agrees:
  assumes ag: "rcv_agrees S t rs" and r: "Read (m_rbuf t) len = (res, v, f)"
  shows "rcv_agrees S (t\<lparr>m_rbuf := f\<rparr>) rs
    \<and> rcv_pos (t\<lparr>m_rbuf := f\<rparr>) = rcv_pos t + length v
    \<and> v = map S [rcv_pos t ..< rcv_pos t + length v]
    \<and> (res = SR_SUCCESS \<or> res = SR_BLOCK \<and> v = [])"
proof (cases "0 < fb_data_length (m_rbuf t)")
  case True
  note i = rcv_agrees_inv [OF ag]
  note R = Read_data [OF i(1) True r]
  let ?k = "min len (fb_data_length (m_rbuf t))"
  have lv: "length v = ?k" using R by (simp add: min.commute)
  have pos: "rcv_pos (t\<lparr>m_rbuf := f\<rparr>) = rcv_pos t + length v"
    using R i(3) lv by (simp add: rcv_pos_def)
  have slots: "fifo_slot (m_rbuf t) i = S (rcv_pos t + i)"
    if "i < fb_buffer_length (m_rbuf t)" "i < fb_data_length (m_rbuf t) \<or> i \<in> ahead (rcv_pos t) rs" for i
    using ag that by (auto simp: rcv_agrees_def fq.agrees_def)
  have le: "fb_data_length (m_rbuf t) \<le> fb_buffer_length (m_rbuf t)"
    using i(1) by (simp add: fifo_inv_def)
  have "v = map S [rcv_pos t ..< rcv_pos t + length v]"
  proof (rule list_eq_nthI)
    fix j assume "j < length (map S [rcv_pos t ..< rcv_pos t + length v])"
    then have j: "j < ?k" using lv by simp
    then have "v ! j = fifo_slot (m_rbuf t) j" using R by (simp add: nth_fifo_data)
    with slots [of j] j le show "v ! j = map S [rcv_pos t ..< rcv_pos t + length v] ! j"
      by (simp add: lv)
  qed simp
  moreover have "fq.agrees f (\<lambda>i. S (rcv_pos t + length v + i)) (ahead (rcv_pos t + length v) rs)"
    unfolding fq.agrees_def
  proof (intro conjI allI impI)
    show "fifo_inv f" "fifo_open f" using R i by simp_all
    fix q assume q: "q < fb_buffer_length f" "q < fb_data_length f \<or> q \<in> ahead (rcv_pos t + length v) rs"
    have "q + length v < fb_buffer_length (m_rbuf t)"
      using q R lv le ag by (fastforce simp: rcv_agrees_def ahead_def)
    moreover have "q + length v < fb_data_length (m_rbuf t) \<or> q + length v \<in> ahead (rcv_pos t) rs"
      using q R lv by (auto simp: ahead_def ac_simps)
    ultimately have "fifo_slot (m_rbuf t) (q + length v) = S (rcv_pos t + (q + length v))"
      by (rule slots)
    then show "fifo_slot f q = S (rcv_pos t + length v + q)" using R lv by (simp add: ac_simps)
  qed
  ultimately show ?thesis
    using ag R pos i lv by (auto simp: rcv_agrees_def)
next
  case False
  note i = rcv_agrees_inv [OF ag]
  have "(res, v, f) = (SR_BLOCK, [], m_rbuf t)" using Read_empty [OF i(2)] r False by simp
  with ag show ?thesis by simp
qed

section \<open>The rest of the code leaves the receiving state alone\<close>

definition rcv_fields :: "pseudo_tcp \<Rightarrow> fifo \<times> uint32 \<times> rsegment list \<times> shutdown" where
  "rcv_fields t = (m_rbuf t, m_rcv_nxt t, m_rlist t, m_shutdown t)"

lemma rcv_fields_tx_view: "tx_view t' = tx_view t \<Longrightarrow> rcv_fields t' = rcv_fields t"
  by (cases t; cases t'; simp add: tx_view_def rcv_fields_def)

lemma rcv_fields_upd [simp]:
  "rcv_fields (t\<lparr>m_slist := a\<rparr>) = rcv_fields t" "rcv_fields (t\<lparr>m_snd_nxt := b\<rparr>) = rcv_fields t"
  "rcv_fields (t\<lparr>m_rto_base := b\<rparr>) = rcv_fields t" "rcv_fields (t\<lparr>m_cwnd := b\<rparr>) = rcv_fields t"
  "rcv_fields (t\<lparr>w_clock := n\<rparr>) = rcv_fields t" "rcv_fields (t\<lparr>w_ok := c\<rparr>) = rcv_fields t"
  "rcv_fields (t\<lparr>m_dup_acks := d\<rparr>) = rcv_fields t" "rcv_fields (t\<lparr>m_recover := b\<rparr>) = rcv_fields t"
  "rcv_fields (t\<lparr>m_ssthresh := b\<rparr>) = rcv_fields t" "rcv_fields (t\<lparr>m_sbuf := f\<rparr>) = rcv_fields t"
  "rcv_fields (t\<lparr>m_snd_wnd := b\<rparr>) = rcv_fields t" "rcv_fields (t\<lparr>m_state := st\<rparr>) = rcv_fields t"
  "rcv_fields (t\<lparr>m_rx_rto := b\<rparr>) = rcv_fields t" "rcv_fields (t\<lparr>m_lastsend := b\<rparr>) = rcv_fields t"
  "rcv_fields (t\<lparr>m_lasttraffic := b\<rparr>) = rcv_fields t" "rcv_fields (t\<lparr>m_lastrecv := b\<rparr>) = rcv_fields t"
  "rcv_fields (t\<lparr>m_bOutgoing := c\<rparr>) = rcv_fields t" "rcv_fields (t\<lparr>m_error := e\<rparr>) = rcv_fields t"
  "rcv_fields (t\<lparr>m_bReadEnable := c\<rparr>) = rcv_fields t" "rcv_fields (t\<lparr>m_bWriteEnable := c\<rparr>) = rcv_fields t"
  "rcv_fields (t\<lparr>m_mtu_advise := b\<rparr>) = rcv_fields t" "rcv_fields (t\<lparr>m_rcv_wnd := b\<rparr>) = rcv_fields t"
  "rcv_fields (t\<lparr>m_t_ack := b\<rparr>) = rcv_fields t" "rcv_fields (t\<lparr>m_sbuf_len := b\<rparr>) = rcv_fields t"
  "rcv_fields (t\<lparr>m_use_nagling := c\<rparr>) = rcv_fields t" "rcv_fields (t\<lparr>m_ack_delay := b\<rparr>) = rcv_fields t"
  "rcv_fields (t\<lparr>m_support_wnd_scale := c\<rparr>) = rcv_fields t"
  by (simp_all add: rcv_fields_def)

lemma rcv_fields_ops [simp]:
  "rcv_fields (tcp_notify e t) = rcv_fields t" "rcv_fields (tcp_assert c t) = rcv_fields t"
  "rcv_fields (closedown t err) = rcv_fields t" "rcv_fields (adjustMTU t) = rcv_fields t"
  "rcv_fields (establish t) = rcv_fields t" "rcv_fields (update_snd_wnd t seg) = rcv_fields t"
  "rcv_fields (update_rtt t tsecr now) = rcv_fields t"
  "rcv_fields (update_timestamp t seg) = rcv_fields t"
  "rcv_fields (notify_writeable t) = rcv_fields t" "rcv_fields (notify_readable t c) = rcv_fields t"
  "rcv_fields (ack_advance t seg now) = rcv_fields t"
  "rcv_fields (snd (tcp_packet E t seq fl off len)) = rcv_fields t"
  "rcv_fields (snd (tcp_queue t data n c)) = rcv_fields t"
  by (simp_all add: rcv_fields_tx_view [OF packet_tx_view])
    (simp_all add: rcv_fields_def tcp_notify_def closedown_def adjustMTU_def establish_def
      update_snd_wnd_def update_rtt_def update_timestamp_def notify_writeable_def tcp_assert_def
      notify_readable_def ack_advance_def tcp_queue_def Let_def case_prod_beta)

lemma rcv_fields_queueConnect [simp]: "rcv_fields (queueConnectMessage t) = rcv_fields t"
  by (simp add: queueConnectMessage_def Let_def)

lemma rcv_fields_transmit: "transmit E t i now = (b, t') \<Longrightarrow> rcv_fields t' = rcv_fields t"
proof (cases b)
  case True
  moreover assume "transmit E t i now = (b, t')"
  ultimately have tr: "transmit E t i now = (True, t')" by simp
  obtain n t1 where v: "tx_view t1 = tx_view t"
    and "t' = t1\<lparr>m_slist := mark_sent (m_slist t1) i n,
          m_snd_nxt := (if ss_xmit (m_slist t ! i) = 0 then m_snd_nxt t1 + n else m_snd_nxt t1),
          m_rto_base := (if m_rto_base t1 = 0 then now else m_rto_base t1)\<rparr>"
    by (rule transmitE [OF tr])
  then show ?thesis using rcv_fields_tx_view [OF v] by simp
next
  case False
  moreover assume tr: "transmit E t i now = (b, t')"
  ultimately show ?thesis
    using transmit_False [of E t i now t'] rcv_fields_tx_view [of t' t]
    by (cases "i < length (m_slist t)") (auto simp: transmit_def)
qed

lemma rcv_fields_attempt_loop [simp]: "rcv_fields (attempt_loop E t fl now) = rcv_fields t"
proof (induction E t fl now rule: attempt_loop_induct)
  case (step E t fl now)
  show ?case
  proof (cases rule: attempt_loop_cases [where t = t and E = E and now = now])
    case ack
    then show ?thesis by (simp add: attempt_loop_ack rcv_fields_tx_view [OF send_ack_view])
  next
    case (stop t')
    then show ?thesis using rcv_fields_transmit [OF stop(3)] by (simp add: attempt_loop_stop)
  next
    case (send t')
    then show ?thesis
      using rcv_fields_transmit [OF send(3)] step.IH [OF send] by (simp add: attempt_loop_send)
  qed (simp_all add: attempt_loop_nagle attempt_loop_none)
qed

lemma rcv_fields_attemptSend [simp]: "rcv_fields (attemptSend E t fl) = rcv_fields t"
  by (simp add: attemptSend_def Now_def Let_def)

lemma rcv_fields_process_ack: "rcv_fields (snd (process_ack E t seg now)) = rcv_fields t"
proof -
  have "rcv_fields (snd (ack_congestion E u n now)) = rcv_fields u" for u n
    using rcv_fields_transmit [of E u 0 now]
    by (auto simp: ack_congestion_def Let_def split: prod.split bool.split)
  moreover have "rcv_fields (snd (duplicate_ack E u seg now)) = rcv_fields u" for u
    using rcv_fields_transmit [of E "u\<lparr>m_dup_acks := 3\<rparr>" 0 now]
    by (auto simp: duplicate_ack_def Let_def split: prod.split bool.split)
  ultimately show ?thesis by (simp add: process_ack_def)
qed

lemma rcv_fields_clock: "rcv_fields (NotifyClock E t now) = rcv_fields t"
proof -
  have "rcv_fields (snd (clock_retransmit E t now)) = rcv_fields t"
    using rcv_fields_transmit [of E t 0 now]
    by (auto simp: clock_retransmit_def Let_def split: prod.split bool.split)
  moreover have "rcv_fields (snd (clock_probe E u now)) = rcv_fields u"
    "rcv_fields (clock_ack E u now) = rcv_fields u" for u
    by (auto simp: clock_probe_def clock_ack_def Let_def)
  ultimately show ?thesis
    by (auto simp: NotifyClock_def split: prod.split bool.split) (metis snd_conv)+
qed

section \<open>Segments, calls, histories\<close>

definition receiving :: "(nat \<Rightarrow> uint8) \<Rightarrow> pseudo_tcp \<Rightarrow> bool" where
  "receiving S t \<longleftrightarrow> rcv_agrees S t (m_rlist t) \<and> m_shutdown t = SD_NONE"

lemma receiving_fields:
  assumes "rcv_fields t' = rcv_fields t"
  shows "receiving S t' = receiving S t" "rcv_pos t' = rcv_pos t" "m_rcv_nxt t' = m_rcv_nxt t"
  using assms by (auto simp: rcv_fields_def receiving_def rcv_agrees_def rcv_pos_def)

lemma recover_rlist_shutdown: "m_shutdown (fst (recover_rlist t fl rs)) = m_shutdown t"
  by (induction t fl rs rule: recover_rlist.induct)
    (auto simp: commit_received_def split: option.split)

lemma receive_data_shutdown: "m_shutdown (fst (receive_data t seg fl)) = m_shutdown t"
  by (auto simp: receive_data_def Let_def case_prod_beta recover_rlist_shutdown commit_received_def
      store_data_def split: option.split)

lemma process_data_receiving:
  assumes r: "receiving S t" and c: "carries S seg" and ctl: "seg_flags seg AND FLAG_CTL = 0"
  shows "receiving S (process_data E t seg) \<and> rcv_pos (process_data E t seg) = rcv_pos t
    \<and> unat (m_rcv_nxt t) \<le> unat (m_rcv_nxt (process_data E t seg))"
proof -
  let ?t1 = "if m_state t = TCP_SYN_RECEIVED \<and> \<not> is_connect seg then establish t else t"
  define t2 where "t2 = notify_writeable ?t1"
  obtain t3 fl nw where rd: "receive_data t2 (trim_segment t2 seg) (ack_flags t2 seg) = (t3, fl, nw)"
    by (metis prod_cases3)
  have f2: "rcv_fields t2 = rcv_fields t" by (simp add: t2_def)
  have "receiving S t2" using r receiving_fields(1) [OF f2] by simp
  then have r2: "rcv_agrees S t2 (m_rlist t2)" "m_shutdown t2 = SD_NONE"
    by (simp_all add: receiving_def)
  note tr = trim_segment_carries [OF c r2(1)]
  have "receives S t2 t3 \<and> w_ok t3 = w_ok t2 \<and> (seg_seq (trim_segment t2 seg) = m_rcv_nxt t2 \<longrightarrow>
      unat (seg_seq (trim_segment t2 seg)) + unat (seg_len (trim_segment t2 seg)) \<le> unat (m_rcv_nxt t3))"
    using tr ctl by (intro receive_data_agrees [OF r2(1) _ _ r2(2) _ rd]) simp_all
  then have "receiving S t3 \<and> rcv_pos t3 = rcv_pos t \<and> unat (m_rcv_nxt t) \<le> unat (m_rcv_nxt t3)"
    using receiving_fields(2,3) [OF f2] receive_data_shutdown [of t2 "trim_segment t2 seg"] rd r2(2)
    by (metis fst_conv receives_def receiving_def)
  moreover have "process_data E t seg = notify_readable (attemptSend E t3 fl) nw"
    using rd by (simp add: process_data_def Let_def t2_def)
  moreover have "rcv_fields (notify_readable (attemptSend E t3 fl) nw) = rcv_fields t3" by simp
  ultimately show ?thesis using receiving_fields by metis
qed

lemma process_receiving:
  assumes r: "receiving S t" and c: "carries S seg" and ctl: "seg_flags seg AND FLAG_CTL = 0"
  shows "receiving S (snd (process E t seg)) \<and> rcv_pos (snd (process E t seg)) = rcv_pos t"
proof -
  let ?now = "env_now E (w_clock t)"
  let ?t2 = "t\<lparr>w_clock := w_clock t + 1, m_lasttraffic := ?now, m_lastrecv := ?now, m_bOutgoing := False\<rparr>"
  have pc: "process_control ?t2 seg = (True, ?t2)" using ctl by (simp add: process_control_def)
  obtain b4 t4 where a: "process_ack E (update_timestamp ?t2 seg) seg ?now = (b4, t4)"
    by (metis surj_pair)
  have f4: "rcv_fields t4 = rcv_fields t"
    using rcv_fields_process_ack [of E "update_timestamp ?t2 seg" seg ?now] a by simp
  have "snd (process E t seg) \<in> {t, ?t2, closedown ?t2 ECONNRESET, t4, process_data E t4 seg}"
    using a pc by (auto simp: process_def Now_def Let_def split: bool.splits)
  moreover have "receiving S t4 \<and> rcv_pos t4 = rcv_pos t" using r receiving_fields [OF f4] by simp
  moreover have "receiving S u \<and> rcv_pos u = rcv_pos t" if "u \<in> {?t2, closedown ?t2 ECONNRESET}" for u
  proof -
    have "rcv_fields u = rcv_fields t" using that by auto
    then show ?thesis using r receiving_fields [of u t] by simp
  qed
  ultimately show ?thesis using r process_data_receiving [OF _ c ctl, of t4 E] by auto
qed

text \<open>The calls of a history whose packets carry the stream: no control segment, no
  \<^verbatim>\<open>Close\<close> and no change of the receive buffer's size, which the next theorem does not cover.\<close>

definition stream_call :: "(nat \<Rightarrow> uint8) \<Rightarrow> tcp_call \<Rightarrow> bool" where
  "stream_call S c =
     (case c of
        CNotifyPacket p \<Rightarrow> carries S (parse_segment p) \<and> seg_flags (parse_segment p) AND FLAG_CTL = 0
      | CClose f \<Rightarrow> False
      | CSetOption opt v \<Rightarrow> opt \<noteq> OPT_RCVBUF
      | _ \<Rightarrow> True)"

lemma Recv_receiving:
  assumes r: "receiving S t" and d: "Recv E t len = (k, d, t')"
  shows "receiving S t' \<and> rcv_pos t' = rcv_pos t + length d
    \<and> d = map S [rcv_pos t ..< rcv_pos t + length d]"
proof (cases "m_state t = TCP_ESTABLISHED")
  case True
  obtain res v f where rd: "Read (m_rbuf t) len = (res, v, f)" by (metis prod_cases3)
  have "rcv_agrees S t (m_rlist t)" using r by (simp add: receiving_def)
  note R = Recv_agrees [OF this rd]
  have "d = v" using d rd True R by (auto simp: Recv_def Let_def split: if_splits)
  moreover have "rcv_fields t' = rcv_fields (t\<lparr>m_rbuf := f\<rparr>)"
    using d rd True by (auto simp: Recv_def Let_def split: if_splits)
  ultimately show ?thesis
    using R r receiving_fields [of t' "t\<lparr>m_rbuf := f\<rparr>"] by (simp add: receiving_def)
next
  case False
  then have "t' = t\<lparr>m_error := ENOTCONN\<rparr>" "d = []" using d by (simp_all add: Recv_def)
  then show ?thesis using r receiving_fields [of t' t] by simp
qed

lemma stream_call_receiving:
  assumes r: "receiving S t" and c: "stream_call S c" and s: "tcp_call_step E t c = (d, t')"
  shows "receiving S t' \<and> rcv_pos t' = rcv_pos t + length d
    \<and> d = map S [rcv_pos t ..< rcv_pos t + length d]"
proof -
  have same: ?thesis if "rcv_fields t' = rcv_fields t" "d = []"
    using r receiving_fields [OF that(1)] that(2) by simp
  show ?thesis
  proof (cases c)
    case (CNotifyPacket p)
    then have "t' \<in> {t, t\<lparr>w_ok := False\<rparr>, snd (process E t (parse_segment p))}" "d = []"
      using s by (auto simp: NotifyPacket_def tcp_parse_def split: if_splits)
    then show ?thesis
      using same process_receiving [OF r, of "parse_segment p" E] c
      by (auto simp: CNotifyPacket stream_call_def)
  next
    case (CRecv n)
    then show ?thesis using Recv_receiving [OF r, of E n] s by (metis prod.collapse tcp_call_step.simps(5))
  next
    case (CSetOption opt v)
    then show ?thesis using s c
      by (intro same; cases opt)
        (auto simp: SetOption_def resizeSendBuffer_def stream_call_def)
  next
    case (CSend b)
    have "rcv_fields (snd (Send E t b)) = rcv_fields t"
      using rcv_fields_ops(13) [of t b "of_nat (length b)" False]
      by (auto simp: Send_def case_prod_beta)
    then show ?thesis using s CSend by (intro same) auto
  next
    case (CClose f)
    then show ?thesis using c by (simp add: stream_call_def)
  qed (use s in \<open>intro same; auto simp: Connect_def NotifyMTU_def rcv_fields_clock disableWindowScale_def Let_def\<close>)+
qed

lemma tcp_run_receiving:
  assumes "receiving S t" "list_all (stream_call S) cs" "tcp_run E t cs = (d, t')"
  shows "receiving S t' \<and> rcv_pos t' = rcv_pos t + length d
    \<and> d = map S [rcv_pos t ..< rcv_pos t + length d]"
  using assms
proof (induction cs arbitrary: t d)
  case (Cons c cs)
  obtain d1 t1 where s: "tcp_call_step E t c = (d1, t1)" by (metis surj_pair)
  obtain d2 t2 where r2: "tcp_run E t1 cs = (d2, t2)" by (metis surj_pair)
  then have d: "d = d1 @ d2" and r: "tcp_run E t1 cs = (d2, t')"
    using Cons.prems(3) s by simp_all
  have 1: "receiving S t1 \<and> rcv_pos t1 = rcv_pos t + length d1
    \<and> d1 = map S [rcv_pos t ..< rcv_pos t + length d1]"
    using stream_call_receiving [OF Cons.prems(1) _ s] Cons.prems(2) by simp
  have 2: "receiving S t' \<and> rcv_pos t' = rcv_pos t1 + length d2
    \<and> d2 = map S [rcv_pos t1 ..< rcv_pos t1 + length d2]"
    using Cons.IH [OF _ _ r] 1 Cons.prems(2) by simp
  have "[rcv_pos t ..< rcv_pos t + length d] =
      [rcv_pos t ..< rcv_pos t1] @ [rcv_pos t1 ..< rcv_pos t1 + length d2]"
    using 1 upt_add_eq_append [of "rcv_pos t" "rcv_pos t1" "length d2"] by (simp add: d add.assoc)
  then have "map S [rcv_pos t ..< rcv_pos t + length d] = d"
    using 1 2 by (simp add: d)
  then show ?case using 1 2 by (simp add: d)
qed simp

end
