(* ===== verification/TcpControl.thy ===== *)
theory TcpControl
  imports TcpSender
begin

text \<open>
  The connection's control: which states follow which (\<open>tcp_edge\<close>), and the range of the
  retransmission timeout.  Both are read off every operation, so that they hold along
  every history of calls.
\<close>

section \<open>The state machine\<close>

inductive tcp_edge :: "tcp_state \<Rightarrow> tcp_state \<Rightarrow> bool" where
  active_open: "tcp_edge TCP_LISTEN TCP_SYN_SENT"
| passive_open: "tcp_edge TCP_LISTEN TCP_SYN_RECEIVED"
| active_done: "tcp_edge TCP_SYN_SENT TCP_ESTABLISHED"
| passive_done: "tcp_edge TCP_SYN_RECEIVED TCP_ESTABLISHED"
| closing: "s \<noteq> TCP_CLOSED \<Longrightarrow> tcp_edge s TCP_CLOSED"

code_pred tcp_edge .

inductive_cases tcp_edge_from_closed: "tcp_edge TCP_CLOSED s"
inductive_cases tcp_edge_to_listen: "tcp_edge s TCP_LISTEN"
inductive_cases tcp_edge_to_established: "tcp_edge s TCP_ESTABLISHED"

abbreviation tcp_path :: "tcp_state \<Rightarrow> tcp_state \<Rightarrow> bool" where
  "tcp_path \<equiv> tcp_edge\<^sup>*\<^sup>*"

lemmas tcp_path_edges = tcp_edge.intros [THEN r_into_rtranclp [where r = tcp_edge]]

lemma tcp_path_closed: "tcp_path TCP_CLOSED s \<Longrightarrow> s = TCP_CLOSED"
  by (induction rule: rtranclp_induct) (auto elim: tcp_edge_from_closed)

lemma tcp_path_listen: "tcp_path s TCP_LISTEN \<Longrightarrow> s = TCP_LISTEN"
  by (erule rtranclp.cases) (auto elim: tcp_edge_to_listen)

text \<open>The timeout stays between its bounds.\<close>

definition rto_ok :: "uint32 \<Rightarrow> bool" where
  "rto_ok rto \<longleftrightarrow> MIN_RTO \<le> rto \<and> rto \<le> MAX_RTO"

lemma bound_range: "lo \<le> hi \<Longrightarrow> lo \<le> bound lo m hi \<and> bound lo m hi \<le> hi"
  by (auto simp: bound_def min_def max_def)

lemma bound_rto: "rto_ok (bound MIN_RTO m MAX_RTO)"
  using bound_range [of MIN_RTO MAX_RTO m] by (simp add: rto_ok_def tcp_consts)

lemma backoff_rto:
  assumes "rto_ok rto" "limit = DEF_RTO \<or> limit = MAX_RTO"
  shows "rto_ok (min limit (rto * 2))"
proof -
  have r: "250 \<le> unat rto" "unat rto \<le> 60000"
    using assms(1) by (simp_all add: rto_ok_def tcp_consts word_le_nat_alt)
  have "unat (rto * 2) = unat rto * 2"
    using r by (simp add: unat_mult_lem [THEN iffD1])
  then show ?thesis
    using r assms(2) by (auto simp: rto_ok_def tcp_consts word_le_nat_alt min_def)
qed

text \<open>\<open>ctl t t'\<close>: a step of an operation moves the state along edges and keeps the timeout
  in range.\<close>

definition ctl :: "pseudo_tcp \<Rightarrow> pseudo_tcp \<Rightarrow> bool" where
  "ctl t t' \<longleftrightarrow> tcp_path (m_state t) (m_state t') \<and> (rto_ok (m_rx_rto t) \<longrightarrow> rto_ok (m_rx_rto t'))"

definition ctl_fields :: "pseudo_tcp \<Rightarrow> tcp_state \<times> uint32" where
  "ctl_fields t = (m_state t, m_rx_rto t)"

lemma ctl_refl [simp]: "ctl t t"
  by (simp add: ctl_def)

lemma ctl_trans: "ctl t t1 \<Longrightarrow> ctl t1 t2 \<Longrightarrow> ctl t t2"
  by (auto simp: ctl_def)

lemma ctl_same: "ctl_fields t' = ctl_fields t \<Longrightarrow> ctl t t'"
  by (simp add: ctl_def ctl_fields_def)

lemma ctl_fields_tx_view: "tx_view t' = tx_view t \<Longrightarrow> ctl_fields t' = ctl_fields t"
  by (cases t; cases t'; simp add: tx_view_def ctl_fields_def)

lemma ctl_fields_upd [simp]:
  "ctl_fields (t\<lparr>m_slist := a\<rparr>) = ctl_fields t" "ctl_fields (t\<lparr>m_snd_nxt := b\<rparr>) = ctl_fields t"
  "ctl_fields (t\<lparr>m_rto_base := b\<rparr>) = ctl_fields t" "ctl_fields (t\<lparr>m_cwnd := b\<rparr>) = ctl_fields t"
  "ctl_fields (t\<lparr>w_clock := n\<rparr>) = ctl_fields t" "ctl_fields (t\<lparr>w_ok := c\<rparr>) = ctl_fields t"
  "ctl_fields (t\<lparr>m_dup_acks := d\<rparr>) = ctl_fields t" "ctl_fields (t\<lparr>m_recover := b\<rparr>) = ctl_fields t"
  "ctl_fields (t\<lparr>m_ssthresh := b\<rparr>) = ctl_fields t" "ctl_fields (t\<lparr>m_sbuf := f\<rparr>) = ctl_fields t"
  "ctl_fields (t\<lparr>m_rbuf := f\<rparr>) = ctl_fields t" "ctl_fields (t\<lparr>m_swnd_scale := x\<rparr>) = ctl_fields t"
  "ctl_fields (t\<lparr>m_snd_wnd := b\<rparr>) = ctl_fields t" "ctl_fields (t\<lparr>m_lastsend := b\<rparr>) = ctl_fields t"
  "ctl_fields (t\<lparr>m_lasttraffic := b\<rparr>) = ctl_fields t" "ctl_fields (t\<lparr>m_lastrecv := b\<rparr>) = ctl_fields t"
  "ctl_fields (t\<lparr>m_bOutgoing := c\<rparr>) = ctl_fields t" "ctl_fields (t\<lparr>m_error := e\<rparr>) = ctl_fields t"
  "ctl_fields (t\<lparr>m_bReadEnable := c\<rparr>) = ctl_fields t" "ctl_fields (t\<lparr>m_bWriteEnable := c\<rparr>) = ctl_fields t"
  "ctl_fields (t\<lparr>m_mtu_advise := b\<rparr>) = ctl_fields t" "ctl_fields (t\<lparr>m_rcv_wnd := b\<rparr>) = ctl_fields t"
  "ctl_fields (t\<lparr>m_rcv_nxt := b\<rparr>) = ctl_fields t" "ctl_fields (t\<lparr>m_rlist := l\<rparr>) = ctl_fields t"
  "ctl_fields (t\<lparr>m_shutdown := sd\<rparr>) = ctl_fields t" "ctl_fields (t\<lparr>m_t_ack := b\<rparr>) = ctl_fields t"
  "ctl_fields (t\<lparr>m_use_nagling := c\<rparr>) = ctl_fields t" "ctl_fields (t\<lparr>m_ack_delay := b\<rparr>) = ctl_fields t"
  "ctl_fields (t\<lparr>m_support_wnd_scale := c\<rparr>) = ctl_fields t"
  by (simp_all add: ctl_fields_def)

lemma ctl_fields_ops [simp]:
  "ctl_fields (tcp_notify e t) = ctl_fields t" "ctl_fields (tcp_assert c t) = ctl_fields t"
  "ctl_fields (adjustMTU t) = ctl_fields t" "ctl_fields (update_snd_wnd t seg) = ctl_fields t"
  "ctl_fields (update_timestamp t seg) = ctl_fields t"
  "ctl_fields (notify_writeable t) = ctl_fields t" "ctl_fields (notify_readable t c) = ctl_fields t"
  "ctl_fields (ack_advance t seg now) = ctl_fields t"
  "ctl_fields (resizeReceiveBuffer t sz) = ctl_fields t"
  "ctl_fields (resizeSendBuffer t sz) = ctl_fields t"
  "ctl_fields (applyOption t kind data len) = ctl_fields t"
  "ctl_fields (commit_received t n) = ctl_fields t" "ctl_fields (store_data t seg) = ctl_fields t"
  "ctl_fields (snd (tcp_packet E t seq fl off len)) = ctl_fields t"
  "ctl_fields (snd (tcp_queue t data n c)) = ctl_fields t"
  by (simp_all add: ctl_fields_tx_view [OF packet_tx_view])
    (simp_all add: ctl_fields_def tcp_notify_def adjustMTU_def resizeReceiveBuffer_def
      resizeSendBuffer_def applyOption_def applyWindowScaleOption_def commit_received_def store_data_def
      update_snd_wnd_def update_timestamp_def notify_writeable_def tcp_assert_def
      notify_readable_def ack_advance_def tcp_queue_def Let_def case_prod_beta split: option.split)

lemma ctl_fields_queueConnect [simp]: "ctl_fields (queueConnectMessage t) = ctl_fields t"
  by (simp add: queueConnectMessage_def Let_def)

lemma ctl_fields_transmit: "transmit E t i now = (b, t') \<Longrightarrow> ctl_fields t' = ctl_fields t"
proof (cases b)
  case True
  moreover assume "transmit E t i now = (b, t')"
  ultimately have tr: "transmit E t i now = (True, t')" by simp
  obtain n t1 where v: "tx_view t1 = tx_view t"
    and "t' = t1\<lparr>m_slist := mark_sent (m_slist t1) i n,
          m_snd_nxt := (if ss_xmit (m_slist t ! i) = 0 then m_snd_nxt t1 + n else m_snd_nxt t1),
          m_rto_base := (if m_rto_base t1 = 0 then now else m_rto_base t1)\<rparr>"
    by (rule transmitE [OF tr])
  then show ?thesis using ctl_fields_tx_view [OF v] by simp
next
  case False
  moreover assume tr: "transmit E t i now = (b, t')"
  ultimately show ?thesis
    using transmit_False [of E t i now t'] ctl_fields_tx_view [of t' t]
    by (cases "i < length (m_slist t)") (auto simp: transmit_def)
qed

lemma ctl_fields_attempt_loop [simp]: "ctl_fields (attempt_loop E t fl now) = ctl_fields t"
proof (induction E t fl now rule: attempt_loop_induct)
  case (step E t fl now)
  show ?case
  proof (cases rule: attempt_loop_cases [where t = t and E = E and now = now])
    case ack
    then show ?thesis by (simp add: attempt_loop_ack ctl_fields_tx_view [OF send_ack_view])
  next
    case (stop t')
    then show ?thesis using ctl_fields_transmit [OF stop(3)] by (simp add: attempt_loop_stop)
  next
    case (send t')
    then show ?thesis
      using ctl_fields_transmit [OF send(3)] step.IH [OF send] by (simp add: attempt_loop_send)
  qed (simp_all add: attempt_loop_nagle attempt_loop_none)
qed

lemma ctl_fields_attemptSend [simp]: "ctl_fields (attemptSend E t fl) = ctl_fields t"
  by (simp add: attemptSend_def Now_def Let_def)

lemma ctl_fields_options_loop: "ctl_fields (fst (parse_options_loop t b s)) = ctl_fields t"
proof (induction t b s rule: parse_options_loop.induct)
  case (1 t b s)
  then show ?case
    by (subst parse_options_loop.simps) (auto simp: Let_def split: option.splits prod.splits)
qed

lemma ctl_fields_parseOptions [simp]: "ctl_fields (parseOptions t data) = ctl_fields t"
  using ctl_fields_options_loop [of t "bb_of_bytes data" "{}"]
  by (auto simp: parseOptions_def split: prod.splits option.splits)

lemma ctl_fields_recover [simp]: "ctl_fields (fst (recover_rlist t fl rs)) = ctl_fields t"
  by (induction t fl rs rule: recover_rlist.induct) simp_all

lemma ctl_fields_receive_data [simp]: "ctl_fields (fst (receive_data t seg fl)) = ctl_fields t"
  by (auto simp: receive_data_def Let_def case_prod_beta)

lemma ctl_fieldsD:
  "ctl_fields t' = ctl_fields t \<Longrightarrow> m_state t' = m_state t"
  "ctl_fields t' = ctl_fields t \<Longrightarrow> m_rx_rto t' = m_rx_rto t"
  by (simp_all add: ctl_fields_def)

section \<open>Every call\<close>

lemma ctl_closedown: "ctl t (closedown t err)"
  by (cases "m_state t = TCP_CLOSED")
    (auto simp: ctl_def closedown_def tcp_notify_def intro: tcp_path_edges)

lemma ctl_establish:
  assumes "m_state t = TCP_SYN_SENT \<or> m_state t = TCP_SYN_RECEIVED"
  shows "ctl t (establish t)"
proof -
  have "ctl_fields (establish t) = (TCP_ESTABLISHED, m_rx_rto t)"
    by (simp add: establish_def) (simp add: ctl_fields_def)
  then show ?thesis
    using assms by (auto simp: ctl_def ctl_fields_def intro: tcp_path_edges)
qed

lemma ctl_process_connect: "ctl t (process_connect t seg)"
proof -
  define t1 where "t1 = parseOptions t (take (unat (seg_len seg - 1)) (drop 1 (seg_data seg)))"
  have 1: "ctl t t1" by (rule ctl_same) (simp add: t1_def)
  have 2: "ctl t1 (queueConnectMessage (t1\<lparr>m_state := TCP_SYN_RECEIVED\<rparr>))" if "m_state t1 = TCP_LISTEN"
  proof -
    have "ctl t1 (t1\<lparr>m_state := TCP_SYN_RECEIVED\<rparr>)"
      using that by (auto simp: ctl_def intro: tcp_path_edges)
    then show ?thesis by (rule ctl_trans) (rule ctl_same, simp)
  qed
  have 3: "ctl t1 (establish t1)" if "m_state t1 = TCP_SYN_SENT"
    by (rule ctl_establish) (simp add: that)
  show ?thesis
    unfolding process_connect_def Let_def t1_def [symmetric]
    using ctl_trans [OF 1 2] ctl_trans [OF 1 3] 1 by (auto split: tcp_state.split)
qed

lemma ctl_transmit: "transmit E t i now = (b, t') \<Longrightarrow> ctl t t'"
  by (rule ctl_same) (rule ctl_fields_transmit)

lemma ctl_ack_congestion: "ctl t (snd (ack_congestion E t n now))"
proof -
  obtain b t1 where tr: "transmit E t 0 now = (b, t1)" by (metis surj_pair)
  have "ctl t (closedown t1 ECONNABORTED)" by (rule ctl_trans [OF ctl_transmit [OF tr] ctl_closedown])
  then show ?thesis
    using ctl_fields_transmit [OF tr]
    by (auto simp: ack_congestion_def Let_def tr intro: ctl_same split: bool.split)
qed

lemma ctl_duplicate_ack: "ctl t (snd (duplicate_ack E t seg now))"
proof -
  let ?t = "t\<lparr>m_dup_acks := m_dup_acks t + 1\<rparr>"
  obtain b t1 where tr: "transmit E ?t 0 now = (b, t1)" by (metis surj_pair)
  have f: "ctl_fields t1 = ctl_fields t" using ctl_fields_transmit [OF tr] by simp
  have "ctl t (closedown t1 ECONNABORTED)"
    by (rule ctl_trans [OF ctl_same [OF f] ctl_closedown])
  then show ?thesis
    using f tr by (cases b) (auto simp: duplicate_ack_def Let_def ctl_def ctl_fields_def)
qed

lemma ctl_update_rtt: "ctl t (update_rtt t tsecr now)"
  by (auto simp: update_rtt_def ctl_def Let_def bound_rto)

lemma ctl_process_ack: "ctl t (snd (process_ack E t seg now))"
proof -
  let ?u = "ack_advance (update_snd_wnd (update_rtt t (seg_tsecr seg) now) seg) seg now"
  have "ctl (update_rtt t (seg_tsecr seg) now) ?u" by (rule ctl_same) simp
  with ctl_update_rtt have "ctl t ?u" by (rule ctl_trans)
  then have 1: "ctl t (snd (ack_congestion E ?u n now))" for n
    by (rule ctl_trans) (rule ctl_ack_congestion)
  have "ctl t (update_snd_wnd t seg)" by (rule ctl_same) simp
  then have 2: "ctl t (snd (duplicate_ack E (update_snd_wnd t seg) seg now))"
    by (rule ctl_trans) (rule ctl_duplicate_ack)
  show ?thesis using 1 2 by (simp add: process_ack_def)
qed

lemma ctl_process_data: "ctl t (process_data E t seg)"
proof -
  define t1 where "t1 = (if m_state t = TCP_SYN_RECEIVED \<and> \<not> is_connect seg then establish t else t)"
  have 1: "ctl t t1" by (auto simp: t1_def intro: ctl_establish)
  define t2 where "t2 = notify_writeable t1"
  obtain t3 fl nw where r: "receive_data t2 (trim_segment t2 seg) (ack_flags t2 seg) = (t3, fl, nw)"
    by (metis prod_cases3)
  have "ctl_fields t3 = ctl_fields t2"
    using ctl_fields_receive_data [of t2 "trim_segment t2 seg" "ack_flags t2 seg"]
    unfolding r fst_conv .
  then have "ctl_fields t3 = ctl_fields t1" by (simp add: t2_def)
  then have "ctl_fields (process_data E t seg) = ctl_fields t1"
    using r by (simp add: process_data_def Let_def t1_def [symmetric] t2_def [symmetric])
  then show ?thesis using ctl_trans [OF 1 ctl_same] by simp
qed

lemma ctl_process: "ctl t (snd (process E t seg))"
proof -
  let ?now = "env_now E (w_clock t)"
  define t2 where "t2 = t\<lparr>w_clock := w_clock t + 1, m_lasttraffic := ?now, m_lastrecv := ?now,
    m_bOutgoing := False\<rparr>"
  have 2: "ctl t t2" by (rule ctl_same) (simp add: t2_def)
  obtain b3 t3 where c: "process_control t2 seg = (b3, t3)" by (metis surj_pair)
  have "ctl t2 t3"
    using c ctl_process_connect [of t2 seg] by (auto simp: process_control_def split: if_splits)
  with 2 have 3: "ctl t t3" by (rule ctl_trans)
  obtain b4 t4 where a: "process_ack E (update_timestamp t3 seg) seg ?now = (b4, t4)"
    by (metis surj_pair)
  have "ctl t3 (update_timestamp t3 seg)" by (rule ctl_same) simp
  with 3 have "ctl t (update_timestamp t3 seg)" by (rule ctl_trans)
  then have 4: "ctl t t4"
    using ctl_trans [OF _ ctl_process_ack [of "update_timestamp t3 seg" E seg ?now]] unfolding a by simp
  have "snd (process E t seg) \<in> {t, t2, closedown t2 ECONNRESET, t3, t4, process_data E t4 seg}"
    unfolding process_def Now_def Let_def prod.case t2_def [symmetric] using a c
    by (auto split: bool.splits)
  then show ?thesis
    using 2 3 4 ctl_trans [OF 2 ctl_closedown] ctl_trans [OF 4 ctl_process_data] by auto
qed

lemma ctl_clock: "ctl t (NotifyClock E t now)"
proof -
  obtain b1 t1 where c1: "clock_retransmit E t now = (b1, t1)" by (metis surj_pair)
  obtain b2 t2 where c2: "clock_probe E t1 now = (b2, t2)" by (metis surj_pair)
  obtain b t' where tr: "transmit E t 0 now = (b, t')" by (metis surj_pair)
  have cd: "ctl t (closedown t' ECONNABORTED)" by (rule ctl_trans [OF ctl_transmit [OF tr] ctl_closedown])
  have f: "m_state t' = m_state t" "m_rx_rto t' = m_rx_rto t"
    using ctl_fields_transmit [OF tr] by (simp_all add: ctl_fields_def)
  have "ctl t (t'\<lparr>m_ssthresh := x, m_cwnd := y, m_rx_rto := min l (m_rx_rto t' * 2), m_rto_base := now\<rparr>)"
    if "l = DEF_RTO \<or> l = MAX_RTO" for x y l
    using that f backoff_rto [of "m_rx_rto t" l] by (simp add: ctl_def)
  then have 1: "ctl t t1"
    using c1 cd tr by (auto simp: clock_retransmit_def Let_def intro: ctl_same split: if_splits bool.splits)
  have pk: "ctl_fields (snd (tcp_packet E t1 seq fl off len)) = ctl_fields t1" for seq fl off len by simp
  have "ctl t1 t2"
  proof (cases "m_snd_wnd t1 = 0 \<and> TimeDiff (m_lastsend t1 + m_rx_rto t1) now \<le> 0
      \<and> TimeDiff now (m_lastrecv t1) < 15000")
    case True
    then have "t2 = (snd (tcp_packet E t1 (m_snd_nxt t1 - 1) 0 0 0))\<lparr>m_lastsend := now,
        m_rx_rto := min MAX_RTO (m_rx_rto (snd (tcp_packet E t1 (m_snd_nxt t1 - 1) 0 0 0)) * 2)\<rparr>"
      using c2 by (simp add: clock_probe_def Let_def)
    then show ?thesis
      using ctl_fieldsD [OF pk [of "m_snd_nxt t1 - 1" 0 0 0]] backoff_rto [of "m_rx_rto t1" MAX_RTO]
      by (simp add: ctl_def)
  next
    case False
    then show ?thesis using c2 ctl_closedown [of t1 ECONNABORTED]
      by (auto simp: clock_probe_def Let_def split: if_splits)
  qed
  with 1 have 2: "ctl t t2" by (rule ctl_trans)
  have "ctl t2 (clock_ack E t2 now)" by (rule ctl_same) (simp add: clock_ack_def)
  with 2 have "ctl t (clock_ack E t2 now)" by (rule ctl_trans)
  with 1 2 c1 c2 show ?thesis by (simp add: NotifyClock_def split: bool.splits)
qed

lemma ctl_call: "ctl t (snd (tcp_call_step E t c))"
proof (cases c)
  case CConnect
  have "ctl t (t\<lparr>m_state := TCP_SYN_SENT\<rparr>)" if "m_state t = TCP_LISTEN"
    using that by (auto simp: ctl_def intro: tcp_path_edges)
  moreover have "ctl (t\<lparr>m_state := TCP_SYN_SENT\<rparr>)
      (attemptSend E (queueConnectMessage (t\<lparr>m_state := TCP_SYN_SENT\<rparr>)) sfNone)"
    by (rule ctl_same) simp
  ultimately show ?thesis
    using ctl_trans by (auto simp: CConnect Connect_def intro: ctl_same)
next
  case (CNotifyPacket p)
  then show ?thesis using ctl_process [of t E "parse_segment p"]
    by (auto simp: NotifyPacket_def tcp_parse_def intro: ctl_same)
next
  case (CRecv n)
  then show ?thesis
    by (auto simp: Recv_def Let_def case_prod_beta intro!: ctl_same)
next
  case (CSend b)
  then show ?thesis by (auto simp: Send_def Let_def case_prod_beta intro!: ctl_same)
next
  case (CSetOption opt v)
  then show ?thesis by (cases opt) (auto simp: SetOption_def intro!: ctl_same)
qed (auto simp: NotifyMTU_def Close_def disableWindowScale_def ctl_clock Let_def intro!: ctl_same)

lemma ctl_run: "ctl t (snd (tcp_run E t cs))"
proof (induction cs arbitrary: t)
  case (Cons c cs)
  have "ctl t (snd (tcp_run E (snd (tcp_call_step E t c)) cs))"
    by (rule ctl_trans [OF ctl_call Cons.IH])
  then show ?case by (simp add: case_prod_beta)
qed simp

end
