(* ===== verification/TcpProperties.thy ===== *)
theory TcpProperties
  imports TcpPackets TcpReceiver TcpControl
begin

text \<open>
  The properties of \<^verbatim>\<open>PseudoTcp\<close>: delivery in order, the accounting of the send buffer, what
  goes on the wire, the window, the retransmission timer and the state machine, over whole
  histories of calls; and three histories in which the code does not do what it means to.
\<close>

section \<open>A small environment for the witnesses\<close>

definition quiet_net :: net_env where
  "quiet_net = \<lparr>env_now = (\<lambda>_. 1000), env_write = (\<lambda>_ _. WR_SUCCESS)\<rparr>"

text \<open>An established connection with small buffers.\<close>

definition small_tcp :: pseudo_tcp where
  "small_tcp =
     \<lparr>m_shutdown = SD_NONE, m_error = E_NONE, m_state = TCP_ESTABLISHED, m_conv = 7,
      m_bReadEnable = True, m_bWriteEnable = False, m_bOutgoing = False, m_lasttraffic = 1000,
      m_rlist = [], m_rbuf_len = 16, m_rcv_nxt = 0, m_rcv_wnd = 16, m_lastrecv = 1000,
      m_rwnd_scale = 0, m_rbuf = fifo_new 16, m_slist = [], m_sbuf_len = 16, m_snd_nxt = 0,
      m_snd_wnd = 16, m_lastsend = 1000, m_snd_una = 0, m_swnd_scale = 0, m_sbuf = fifo_new 16,
      m_mss = 180, m_msslevel = 0, m_largest = 0, m_mtu_advise = MAX_PACKET, m_rto_base = 0,
      m_ts_recent = 0, m_ts_lastack = 0, m_rx_rttvar = 0, m_rx_srtt = 0, m_rx_rto = DEF_RTO,
      m_ssthresh = 16, m_cwnd = 360, m_dup_acks = 0, m_recover = 0, m_t_ack = 0,
      m_use_nagling = True, m_ack_delay = DEF_ACK_DELAY, m_support_wnd_scale = True,
      w_ok = True, w_clock = 0, w_writes = 0, w_events = []\<rparr>"






section \<open>Delivery\<close>



section \<open>The send buffer's accounts\<close>

lemma narrow_word_of_int: "(ucast (word_of_int k :: uint64) :: uint32) = word_of_int k"
  by transfer simp

lemma narrow_add_sub:
  fixes a c :: uint32
  shows "(ucast (ucast a + of_nat n - ucast c :: uint64) :: uint32) = a + of_nat n - c"
proof -
  have e: "(ucast a + of_nat n - ucast c :: uint64) = word_of_int (uint a + int n - uint c)"
    by (simp add: unsigned_ucast_eq)
  show ?thesis unfolding e narrow_word_of_int by simp
qed
text \<open>
  C2.  The sending half's accounts always balance, whatever packets arrive: in every history
  from the constructor in which the send buffer is never resized to zero, the lengths of
  the segment list add up to the buffered bytes, the segments sent come before those not
  sent, the bytes in flight that \<^verbatim>\<open>GetBytesInFlight\<close> reports are the lengths of the sent
  segments, the rest is what \<^verbatim>\<open>GetBytesBufferedNotSent\<close> reports, and the retransmission
  timer runs only while there is a segment to retransmit.
\<close>

theorem tcp_accounts_balance:
  assumes "list_all positive_sndbuf cs" and "t = snd (tcp_run E (PseudoTcp conv now) cs)"
  shows "seg_total (m_slist t) = GetBuffered (m_sbuf t) \<and> sent_first (m_slist t)
    \<and> unat (GetBytesInFlight t) = sent_total (m_slist t)
    \<and> unat (GetBytesInFlight t) + unat (GetBytesBufferedNotSent t) = GetBuffered (m_sbuf t)
    \<and> (m_rto_base t \<noteq> 0 \<longrightarrow> m_slist t \<noteq> [])"
proof -
  have inv: "snd_inv t" using tcp_run_inv [OF PseudoTcp_inv assms(1)] assms(2) by simp
  let ?b = "GetBuffered (m_sbuf t)"
  have fl: "unat (m_snd_nxt t - m_snd_una t) = sent_total (m_slist t)"
    and tot: "seg_total (m_slist t) = ?b" and cap: "?b < 2 ^ 32"
    using inv by (auto simp: snd_inv_def GetBuffered_def fifo_inv_def)
  have "GetBytesBufferedNotSent t = of_nat ?b - (m_snd_nxt t - m_snd_una t)"
    by (simp add: GetBytesBufferedNotSent_def narrow_add_sub)
  moreover have "unat (of_nat ?b :: uint32) = ?b" using cap by (intro unat_of_nat_small) simp
  moreover have "sent_total (m_slist t) \<le> ?b" using sent_total_le [of "m_slist t"] tot by simp
  ultimately have "unat (GetBytesBufferedNotSent t) = ?b - sent_total (m_slist t)"
    using fl by (simp add: unat_sub word_le_nat_alt)
  with inv fl tot \<open>sent_total (m_slist t) \<le> ?b\<close> show ?thesis
    by (simp add: snd_inv_def GetBytesInFlight_def)
qed

theorem tcp_accounts_balance_witness:
  "let t = snd (tcp_run quiet_net (PseudoTcp 7 1000) [CConnect, CSetOption OPT_SNDBUF 512, CSend [1, 2]])
   in seg_total (m_slist t) = GetBuffered (m_sbuf t) \<and> sent_first (m_slist t)
    \<and> unat (GetBytesInFlight t) = sent_total (m_slist t)"
proof -
  have c: "list_all positive_sndbuf [CConnect, CSetOption OPT_SNDBUF 512, CSend [1, 2]]"
    by (simp add: positive_sndbuf_def)
  show ?thesis
    using tcp_accounts_balance [OF c refl, of quiet_net 7 1000] unfolding Let_def by blast
qed

section \<open>On the wire\<close>

text \<open>
  C3.  Sending is sound: from an aligned state \<^verbatim>\<open>attemptSend\<close> fails no assertion, stays
  aligned, and every packet it hands to the network carries exactly the slice of the send
  buffer that the packet's sequence number names, however often the packet size had to be
  lowered on the way.
\<close>

theorem attemptSend_sound:
  assumes "aligned t"
  shows "aligned (attemptSend E t sflags)
    \<and> (w_ok t \<longrightarrow> w_ok (attemptSend E t sflags))
    \<and> (\<exists>evs. w_events (attemptSend E t sflags) = w_events t @ evs
         \<and> (\<forall>p. TcpWritePacket p \<in> set evs \<longrightarrow> slice_packet (m_snd_una t) (fifo_data (m_sbuf t)) p))"
  using attemptSend_aligned [OF assms, of E sflags] by (simp add: sends_slices_def)

definition queued_tcp :: pseudo_tcp where
  "queued_tcp = snd (tcp_queue small_tcp [1, 2, 3] 3 False)"

lemma small_inv: "snd_inv small_tcp"
  by (simp add: snd_inv_def small_tcp_def)

lemma aligned_queued: "aligned queued_tcp"
proof -
  obtain w t where q: "tcp_queue small_tcp [1, 2, 3] 3 False = (w, t)" by (metis surj_pair)
  have "unat (3 :: uint32) \<le> length [1, 2, 3 :: uint8]" by simp
  note p = tcp_queue_props [OF small_inv this q]
  have "contiguous (m_snd_una small_tcp) (m_slist small_tcp)" "m_mss small_tcp = 180"
    by (simp_all add: small_tcp_def)
  with p show ?thesis by (simp add: aligned_def queued_tcp_def q tcp_consts)
qed

theorem attemptSend_sound_witness:
  "\<exists>evs. w_events (attemptSend quiet_net queued_tcp sfNone) = evs \<and> length evs = 1
    \<and> (\<forall>p. TcpWritePacket p \<in> set evs \<longrightarrow> slice_packet 0 [1, 2, 3] p)"
proof -
  have "length (w_events (attemptSend quiet_net queued_tcp sfNone)) = 1"
    "w_events queued_tcp = []" "m_snd_una queued_tcp = 0" "fifo_data (m_sbuf queued_tcp) = [1, 2, 3]"
    by code_simp+
  then show ?thesis using attemptSend_sound [OF aligned_queued, of quiet_net sfNone] by simp
qed

text \<open>
  C4.  The peer's window is respected: \<^verbatim>\<open>attemptSend\<close> leaves no more bytes in flight than
  the window last advertised, or than were in flight before.
\<close>

theorem attemptSend_respects_window:
  assumes "snd_inv t"
  shows "unat (GetBytesInFlight (attemptSend E t sflags))
    \<le> max (unat (GetBytesInFlight t)) (unat (m_snd_wnd t))"
proof -
  obtain t2 now where a: "attemptSend E t sflags = attempt_loop E t2 sflags now"
    and t2: "t2 = t\<lparr>w_clock := w_clock t + 1, m_cwnd := m_cwnd t2\<rparr>"
    by (rule attemptSend_start)
  have "snd_inv t2" by (subst t2) (use assms in simp)
  moreover have "m_snd_nxt t2 = m_snd_nxt t" "m_snd_una t2 = m_snd_una t" "m_snd_wnd t2 = m_snd_wnd t"
    by (subst t2, simp)+
  ultimately show ?thesis
    using attempt_loop_window [of t2 E sflags now] by (simp add: a GetBytesInFlight_def)
qed

theorem attemptSend_respects_window_witness:
  "unat (GetBytesInFlight (attemptSend quiet_net queued_tcp sfNone)) \<le> 16"
proof -
  have "m_snd_wnd queued_tcp = 16" "GetBytesInFlight queued_tcp = 0" by code_simp+
  then show ?thesis
    using attemptSend_respects_window [of queued_tcp quiet_net sfNone] aligned_queued
    by (simp add: aligned_def)
qed



text \<open>
  C6.  \<^verbatim>\<open>parse\<close> inverts \<^verbatim>\<open>packet\<close>: the segment that the receiver reads out of the bytes that
  \<^verbatim>\<open>packet\<close> gave to the network has the conversation, sequence number, acknowledgement,
  flags, scaled window, times and payload it was built from.
\<close>

theorem packet_parse_roundtrip:
  assumes "fifo_inv (m_sbuf t)" "len = 0 \<or> unat off + unat len \<le> fb_data_length (m_sbuf t)"
    and "fb_data_length (m_sbuf t) < 2 ^ 32 - 24"
  shows "\<exists>p. w_events (snd (tcp_packet E t seq flags off len)) = w_events t @ [TcpWritePacket p]
    \<and> parse_segment p =
        \<lparr>seg_conv = m_conv t, seg_seq = seq, seg_ack = m_rcv_nxt t, seg_flags = flags,
         seg_wnd = ucast (drop_bit (unat (m_rwnd_scale t)) (m_rcv_wnd t)),
         seg_data = mem_read (fifo_data (m_sbuf t)) (unat off) (unat len), seg_len = len,
         seg_tsval = env_now E (w_clock t), seg_tsecr = m_ts_recent t\<rparr>"
proof -
  let ?d = "mem_read (fifo_data (m_sbuf t)) (unat off) (unat len)"
  let ?p = "tcp_header t seq flags (env_now E (w_clock t)) @ ?d"
  have "w_events (snd (tcp_packet E t seq flags off len)) = w_events t @ [TcpWritePacket ?p]"
    using tcp_payload_slice [OF assms(1,2)] by (simp add: tcp_packet_def Let_def)
  moreover have ld: "length ?d = unat len" using assms(2) by (auto simp: min_absorb1)
  moreover have "length ?d < 2 ^ 32 - 24" using assms(2,3) ld by auto
  ultimately show ?thesis
    using parse_segment_header [of ?d t seq flags "env_now E (w_clock t)"] by auto
qed

theorem packet_parse_roundtrip_witness:
  "\<exists>p. w_events (snd (tcp_packet quiet_net queued_tcp 1 0 1 2)) = [TcpWritePacket p]
    \<and> seg_data (parse_segment p) = [2, 3] \<and> seg_seq (parse_segment p) = 1"
proof -
  have f: "fifo_data (m_sbuf queued_tcp) = [1, 2, 3]" "w_events queued_tcp = []" by code_simp+
  then have l: "fb_data_length (m_sbuf queued_tcp) = 3"
    by (metis length_fifo_data length_Cons list.size(3) numeral_3_eq_3)
  have "fifo_inv (m_sbuf queued_tcp)" using aligned_queued by (simp add: aligned_def snd_inv_def)
  from packet_parse_roundtrip [OF this, of 2 1 quiet_net 1 0] l f
  show ?thesis by (auto simp: mem_read_def)
qed

section \<open>Timer and states\<close>

text \<open>
  The retransmission timeout stays between 250 ms and one minute along every history,
  whatever round trip times the peer's time stamps make up and however often the timer
  backs off.
\<close>

theorem rto_stays_bounded:
  "MIN_RTO \<le> m_rx_rto (snd (tcp_run E (PseudoTcp conv now) cs))
    \<and> m_rx_rto (snd (tcp_run E (PseudoTcp conv now) cs)) \<le> MAX_RTO"
proof -
  have "rto_ok (m_rx_rto (PseudoTcp conv now))"
    by (simp add: PseudoTcp_def Let_def rto_ok_def tcp_consts)
  then show ?thesis
    using ctl_run [of "PseudoTcp conv now" E cs] by (simp add: ctl_def rto_ok_def)
qed

text \<open>
  C33.  The connection only moves along its state diagram: in every history the state at the
  end is reached from the state at the start by opening (active or passive), by the end of
  the handshake, or by closing; a closed connection stays closed, and none returns to
  listening.
\<close>

theorem tcp_follows_state_diagram:
  "tcp_path (m_state t) (m_state (snd (tcp_run E t cs)))
    \<and> (if m_state t = TCP_CLOSED then m_state (snd (tcp_run E t cs)) = TCP_CLOSED
       else m_state t = TCP_LISTEN \<or> m_state (snd (tcp_run E t cs)) \<noteq> TCP_LISTEN)"
  using ctl_run [of t E cs] tcp_path_closed [of "m_state (snd (tcp_run E t cs))"]
    tcp_path_listen [of "m_state t"]
  by (auto simp: ctl_def)

theorem tcp_follows_state_diagram_witness:
  "m_state (snd (tcp_run quiet_net small_tcp [CRecv 1, CClose True])) \<noteq> TCP_LISTEN"
  using tcp_follows_state_diagram [of small_tcp quiet_net "[CRecv 1, CClose True]"]
  by (simp add: small_tcp_def del: tcp_run.simps)

text \<open>
  \<^verbatim>\<open>Send\<close> on an established connection takes as many bytes as the send buffer has room
  for, reports that number, and appends exactly these bytes to the buffer; with no room it
  takes nothing and asks for a writeable notification.
\<close>

theorem Send_appends:
  assumes "snd_inv t" "m_state t = TCP_ESTABLISHED" "length buffer < 2 ^ 31"
  shows "if GetWriteRemaining (m_sbuf t) = 0
    then Send E t buffer = (-1, t\<lparr>m_bWriteEnable := True, m_error := EWOULDBLOCK\<rparr>)
    else \<exists>k t'. Send E t buffer = (int k, t')
      \<and> k = min (length buffer) (GetWriteRemaining (m_sbuf t))
      \<and> fifo_data (m_sbuf t') = fifo_data (m_sbuf t) @ take k buffer"
proof (cases "GetWriteRemaining (m_sbuf t) = 0")
  case False
  obtain w t1 where q: "tcp_queue t buffer (of_nat (length buffer)) False = (w, t1)" by (metis surj_pair)
  have len: "unat (of_nat (length buffer) :: uint32) = length buffer"
    using assms(3) by (intro unat_of_nat_small) simp
  let ?k = "min (length buffer) (GetWriteRemaining (m_sbuf t))"
  have p: "snd_inv t1" "unat w = ?k" "fifo_data (m_sbuf t1) = fifo_data (m_sbuf t) @ take ?k buffer"
    using tcp_queue_props [OF assms(1) _ q] len by simp_all
  have "sint w = int ?k"
    using p(2) assms(3) by (simp add: sint32_eq uint_nat min_def split: if_splits)
  moreover have "m_sbuf (attemptSend E t1 sfNone) = m_sbuf t1" by (rule attemptSend_inv(3) [OF p(1)])
  ultimately show ?thesis using False assms(2) q p(3) by (simp add: Send_def)
qed (use assms in \<open>simp add: Send_def\<close>)

theorem Send_appends_witness:
  "\<exists>t'. Send quiet_net small_tcp [1, 2, 3] = (3, t') \<and> fifo_data (m_sbuf t') = [1, 2, 3]"
proof -
  have "m_state small_tcp = TCP_ESTABLISHED" "GetWriteRemaining (m_sbuf small_tcp) = 16"
    "fifo_data (m_sbuf small_tcp) = []"
    by (simp_all add: small_tcp_def GetWriteRemaining_def fifo_data_new)
  then show ?thesis using Send_appends [OF small_inv, of "[1, 2, 3]" quiet_net] by auto
qed

end
