(* ===== verification/TcpLimits.thy ===== *)
theory TcpLimits
  imports TcpProperties
begin

text \<open>
  Histories in which \<^verbatim>\<open>PseudoTcp\<close> does not do what it means to, each evaluated on the
  model: an acknowledgement inside a segment, data that overtakes the connect message, a
  packet shorter than a header, and sequence numbers at the wrap.
\<close>

definition ack_segment :: "uint32 \<Rightarrow> segment" where
  "ack_segment ack = \<lparr>seg_conv = 7, seg_seq = 0, seg_ack = ack, seg_flags = 0, seg_wnd = 16,
     seg_data = [], seg_len = 0, seg_tsval = 1000, seg_tsecr = 0\<rparr>"

definition data_segment :: "uint32 \<Rightarrow> uint8 \<Rightarrow> bytes \<Rightarrow> segment" where
  "data_segment seq flags data = \<lparr>seg_conv = 7, seg_seq = seq, seg_ack = 0, seg_flags = flags,
     seg_wnd = 16, seg_data = data, seg_len = of_nat (length data), seg_tsval = 1000, seg_tsecr = 0\<rparr>"

lemma packet_w_ok: "\<not> w_ok t \<Longrightarrow> \<not> w_ok (snd (tcp_packet E t seq flags off len))"
  by (simp add: tcp_packet_def Let_def case_prod_beta)

lemma packet_bad_offset:
  assumes "len \<noteq> 0" "fb_data_length (m_sbuf t) \<le> unat off"
  shows "\<not> w_ok (snd (tcp_packet E t seq flags off len))"
proof -
  have "\<not> snd (tcp_payload t off len)"
    using assms by (simp add: tcp_payload_def ReadOffset_def)
  then show ?thesis by (simp add: tcp_packet_def Let_def case_prod_beta)
qed

lemma lower_mss_w_ok: "w_ok (snd (snd (lower_mss t n))) = w_ok t"
proof (induction t n rule: lower_mss.induct)
  case (1 t n)
  then show ?case by (subst lower_mss.simps) (simp add: Let_def)
qed

lemma transmit_packet_w_ok: "\<not> w_ok t \<Longrightarrow> \<not> w_ok (snd (snd (transmit_packet E t seg n)))"
proof (induction E t seg n rule: transmit_packet.induct)
  case (1 E t seg n)
  let ?r = "tcp_packet E t (ss_seq seg) (if ss_bCtrl seg then FLAG_CTL else 0)
    (ss_seq seg - m_snd_una t) n"
  have r: "\<not> w_ok (snd ?r)" by (rule packet_w_ok [OF "1.prems"])
  obtain b1 n1 t1 where l: "lower_mss (snd ?r) n = (b1, n1, t1)" by (metis prod_cases3)
  have t1: "\<not> w_ok t1" using lower_mss_w_ok [of "snd ?r" n] l r by simp
  have "\<not> w_ok (snd (snd (transmit_packet E t1 seg n1)))" if "fst ?r = WR_TOO_LARGE" b1
    using "1.IH" [OF refl refl refl that(1) l [symmetric] _ refl t1] that(2) by simp
  then show ?case
    by (subst transmit_packet.simps; cases b1)
      (use r l t1 in \<open>auto simp: Let_def split: write_result.split\<close>)
qed

lemma transmit_packet_bad_offset:
  assumes "n \<noteq> 0" "fb_data_length (m_sbuf t) \<le> unat (ss_seq seg - m_snd_una t)"
  shows "\<not> w_ok (snd (snd (transmit_packet E t seg n)))"
proof -
  let ?r = "tcp_packet E t (ss_seq seg) (if ss_bCtrl seg then FLAG_CTL else 0)
    (ss_seq seg - m_snd_una t) n"
  have r: "\<not> w_ok (snd ?r)" by (rule packet_bad_offset [OF assms])
  obtain b1 n1 t1 where l: "lower_mss (snd ?r) n = (b1, n1, t1)" by (metis prod_cases3)
  have t1: "\<not> w_ok t1" using lower_mss_w_ok [of "snd ?r" n] l r by simp
  note transmit_packet_w_ok [OF t1, of E seg n1]
  then show ?thesis
    by (subst transmit_packet.simps; cases b1)
      (use r l t1 in \<open>auto simp: Let_def split: write_result.split\<close>)
qed

text \<open>
  C38.  An acknowledgement inside a segment breaks its retransmission.  \<^verbatim>\<open>process\<close> shortens
  the front segment but leaves its sequence number: with \<open>0 < n < len\<close> of its bytes
  acknowledged, the retransmission that the clock or a duplicate acknowledgement makes asks
  the send buffer for the bytes at the offset \<open>- n\<close>, and fails the assertion that they were
  read (without assertions it sends whatever the packet array held).
\<close>

theorem partial_ack_breaks_retransmission:
  assumes "snd_inv t" and "m_slist t = s # ss" and "ss_seq s = m_snd_una t"
    and "m_snd_una t < seg_ack seg" "seg_ack seg \<le> m_snd_nxt t" "seg_ack seg - m_snd_una t < ss_len s"
    and "ss_xmit s < 15" and "m_mss t \<noteq> 0"
  shows "m_slist (ack_advance t seg now) = s\<lparr>ss_len := ss_len s - (seg_ack seg - m_snd_una t)\<rparr> # ss
    \<and> w_ok (ack_advance t seg now) = w_ok t
    \<and> \<not> w_ok (snd (transmit E (ack_advance t seg now) 0 now'))"
proof -
  let ?n = "seg_ack seg - m_snd_una t" and ?t = "ack_advance t seg now"
  note a = ack_advance_inv [OF assms(1,4,5), of now]
  have n: "unat ?n = unat (seg_ack seg) - unat (m_snd_una t)" "unat (m_snd_una t) < unat (seg_ack seg)"
    using assms(4) by (simp_all add: unat_sub word_less_nat_alt word_le_nat_alt)
  have nz: "?n \<noteq> 0" using assms(4) by auto
  have sl: "m_slist ?t = s\<lparr>ss_len := ss_len s - ?n\<rparr> # ss" and mss: "m_mss ?t = m_mss t"
    using nz assms(2,6) by (simp_all add: ack_advance_def Let_def case_prod_beta)
  have len: "min (ss_len s - ?n) (m_mss t) \<noteq> 0"
    using assms(6,8) by (auto simp: min_def)
  have "ss_seq s - seg_ack seg = - ?n" by (simp add: assms(3))
  then have "unat (ss_seq s - seg_ack seg) = 2 ^ 32 - unat ?n"
    using nz unat_sub_if_size [of 0 ?n] unat_gt_0 [of ?n] by (simp add: word_size)
  moreover have "fb_data_length (m_sbuf ?t) = fb_data_length (m_sbuf t) - unat ?n"
    using arg_cong [OF a(5), of length] by simp
  moreover have "fb_data_length (m_sbuf t) < 2 ^ 32"
    using assms(1) by (auto simp: snd_inv_def fifo_inv_def)
  ultimately have off: "fb_data_length (m_sbuf ?t) \<le> unat (ss_seq s - m_snd_una ?t)"
    by (simp add: a(3))
  let ?seg = "s\<lparr>ss_len := ss_len s - ?n\<rparr>"
  obtain b m u where tp: "transmit_packet E ?t ?seg (min (ss_len ?seg) (m_mss ?t)) = (b, m, u)"
    by (metis prod_cases3)
  have "\<not> w_ok u"
    using transmit_packet_bad_offset [of "min (ss_len ?seg) (m_mss ?t)" ?t ?seg E] len off tp mss
    by simp
  moreover have "\<not> (if m_state ?t = TCP_ESTABLISHED then 15 else 30) \<le> ss_xmit s"
    using assms(7) by (auto simp: word_le_nat_alt word_less_nat_alt)
  ultimately have "\<not> w_ok (snd (transmit E ?t 0 now'))"
    using tp sl by (cases b) (simp_all add: transmit_def Let_def)
  then show ?thesis using sl a(2) by simp
qed

definition four_sent :: pseudo_tcp where
  "four_sent = snd (Send quiet_net small_tcp [1, 2, 3, 4])"

theorem partial_ack_breaks_retransmission_witness:
  "\<not> w_ok (snd (transmit quiet_net (ack_advance four_sent (ack_segment 2) 1000) 0 5000))"
proof -
  have "m_slist four_sent = [\<lparr>ss_seq = 0, ss_len = 4, ss_xmit = 1, ss_bCtrl = False\<rparr>]"
    "m_snd_una four_sent = 0" "m_snd_nxt four_sent = 4" "m_mss four_sent = 180"
    by code_simp+
  moreover have "snd_inv four_sent" unfolding four_sent_def by (rule Send_inv [OF small_inv])
  ultimately show ?thesis
    using partial_ack_breaks_retransmission [of four_sent _ "[]" "ack_segment 2" 1000 quiet_net 5000]
    by (simp add: ack_segment_def)
qed

text \<open>
  Data that overtakes the connect message is corrupted when it is recovered: the
  handler stores it relative to \<^verbatim>\<open>m_rcv_nxt\<close>, then consumes the connect message by moving
  \<^verbatim>\<open>m_rcv_nxt\<close> without moving the receive buffer.  Here the peer's stream after its
  four-byte connect message is \<open>65, 66\<close>; the segment with both bytes comes first, then the
  connect message, then a retransmission of the first byte alone; the application reads
  \<open>65, 0\<close>.
\<close>

theorem early_data_is_corrupted:
  "let s0 = small_tcp\<lparr>m_state := TCP_SYN_SENT\<rparr>;
       s1 = snd (process quiet_net s0 (data_segment 4 0 [65, 66]));
       s2 = snd (process quiet_net s1 (data_segment 0 2 [0, 3, 1, 0]));
       s3 = snd (process quiet_net s2 (data_segment 4 0 [65]))
   in m_state s3 = TCP_ESTABLISHED \<and> w_ok s3 \<and> m_rcv_nxt s3 = 6
      \<and> fst (snd (Recv quiet_net s3 5)) = [65, 0]"
  by code_simp

text \<open>
  A packet of 12 to 23 bytes passes the length check of \<^verbatim>\<open>parse\<close>, which then reads
  header fields behind its end and takes its payload to be almost four gigabytes long.
\<close>

theorem short_packet_length_wraps:
  assumes "12 \<le> length p" and "length p < 24"
  shows "\<not> w_ok (snd (tcp_parse E t p)) \<and> unat (seg_len (parse_segment p)) + 24 = 2 ^ 32 + length p"
proof -
  have u: "unat (of_nat (length p) :: uint32) = length p"
    using assms(2) by (intro unat_of_nat_small) simp
  then have "\<not> (of_nat (length p) :: uint32) < 12" using assms(1) by (simp add: word_less_nat_alt)
  moreover have "unat (of_nat (length p) - 24 :: uint32) = 2 ^ 32 + length p - 24"
    using assms u by (simp add: unat_sub_if_size word_size)
  ultimately show ?thesis
    using assms by (simp add: tcp_parse_def parse_segment_def HEADER_SIZE_def)
qed

theorem short_packet_length_wraps_witness:
  "unat (seg_len (parse_segment (replicate 12 0))) + 24 = 2 ^ 32 + 12"
  using short_packet_length_wraps [of "replicate 12 0" quiet_net small_tcp] by simp

text \<open>
  The comparisons of sequence numbers do not survive the wrap: once \<^verbatim>\<open>m_snd_nxt\<close> has
  wrapped past \<^verbatim>\<open>m_snd_una\<close>, no acknowledgement is accepted any more, so the bytes in
  flight stay in flight for the rest of the connection.
\<close>

theorem wrapped_acks_ignored:
  assumes "m_snd_nxt t < m_snd_una t" and "seg_ack seg \<noteq> m_snd_una t"
  shows "process_ack E t seg now = (True, t)"
proof -
  have "(seg_ack seg > m_snd_una t \<and> seg_ack seg \<le> m_snd_nxt t) = False" using assms(1) by auto
  then show ?thesis unfolding process_ack_def using assms(2) by (simp only: if_False)
qed

theorem wrapped_acks_ignored_witness:
  "process_ack quiet_net (small_tcp\<lparr>m_snd_una := 4294967290, m_snd_nxt := 4\<rparr>) (ack_segment 2) 1000
    = (True, small_tcp\<lparr>m_snd_una := 4294967290, m_snd_nxt := 4\<rparr>)"
  by (rule wrapped_acks_ignored) (simp_all add: ack_segment_def)

end
