(* ===== verification/RtpUtils.thy ===== *)
theory RtpUtils
  imports ByteOrder
begin

text \<open>
  \<^verbatim>\<open>media/base/rtputils.cc\<close>: reading and writing the fields of RTP and RTCP headers in a packet
  buffer.  A reader gives \<open>None\<close> where the code returns false; the length checks of the
  exported readers keep every read inside the packet.  A writer does not check lengths: it
  gives \<open>None\<close> for a write outside the buffer, otherwise the code's result and the buffer.
\<close>

definition kRtpVersion :: int where "kRtpVersion = 2"
definition kRtpFlagsOffset :: nat where "kRtpFlagsOffset = 0"
definition kRtpPayloadTypeOffset :: nat where "kRtpPayloadTypeOffset = 1"
definition kRtpSeqNumOffset :: nat where "kRtpSeqNumOffset = 2"
definition kRtpTimestampOffset :: nat where "kRtpTimestampOffset = 4"
definition kRtpSsrcOffset :: nat where "kRtpSsrcOffset = 8"
definition kRtcpPayloadTypeOffset :: nat where "kRtcpPayloadTypeOffset = 1"
definition kMinRtpPacketLen :: nat where "kMinRtpPacketLen = 12"
definition kMinRtcpPacketLen :: nat where "kMinRtcpPacketLen = 4"
definition kRtcpTypeSDES :: int where "kRtcpTypeSDES = 202"

lemmas rtp_consts = kRtpVersion_def kRtpFlagsOffset_def kRtpPayloadTypeOffset_def
  kRtpSeqNumOffset_def kRtpTimestampOffset_def kRtpSsrcOffset_def kRtcpPayloadTypeOffset_def
  kMinRtpPacketLen_def kMinRtcpPacketLen_def kRtcpTypeSDES_def

record rtp_header =
  rh_payload_type :: int
  rh_seq_num :: int
  rh_timestamp :: uint32
  rh_ssrc :: uint32

section \<open>Access to a field\<close>

definition GetUint8 :: "bytes \<Rightarrow> nat \<Rightarrow> int option" where
  "GetUint8 data offset = (if offset < length data then Some (uint (data ! offset)) else None)"

definition GetUint16 :: "bytes \<Rightarrow> nat \<Rightarrow> int option" where
  "GetUint16 data offset =
     (if offset + 2 \<le> length data then Some (uint (GetBE16 (mem_read data offset 2))) else None)"

definition GetUint32 :: "bytes \<Rightarrow> nat \<Rightarrow> uint32 option" where
  "GetUint32 data offset =
     (if offset + 4 \<le> length data then Some (GetBE32 (mem_read data offset 4)) else None)"

definition put_bytes :: "bytes \<Rightarrow> nat \<Rightarrow> bytes \<Rightarrow> (bool \<times> bytes) option" where
  "put_bytes data offset v =
     (if offset + length v \<le> length data then Some (True, mem_write data offset v) else None)"

definition SetUint8 :: "bytes \<Rightarrow> nat \<Rightarrow> int \<Rightarrow> (bool \<times> bytes) option" where
  "SetUint8 data offset v = put_bytes data offset [word_of_int v]"

definition SetUint16 :: "bytes \<Rightarrow> nat \<Rightarrow> int \<Rightarrow> (bool \<times> bytes) option" where
  "SetUint16 data offset v = put_bytes data offset (SetBE16 (word_of_int v))"

definition SetUint32 :: "bytes \<Rightarrow> nat \<Rightarrow> uint32 \<Rightarrow> (bool \<times> bytes) option" where
  "SetUint32 data offset v = put_bytes data offset (SetBE32 v)"

section \<open>Readers\<close>

definition GetRtpFlags :: "bytes \<Rightarrow> int option" where
  "GetRtpFlags data =
     (if length data < kMinRtpPacketLen then None else GetUint8 data kRtpFlagsOffset)"

definition GetRtpPayloadType :: "bytes \<Rightarrow> int option" where
  "GetRtpPayloadType data =
     (if length data < kMinRtpPacketLen then None
      else map_option (\<lambda>v. v AND 0x7F) (GetUint8 data kRtpPayloadTypeOffset))"

definition GetRtpSeqNum :: "bytes \<Rightarrow> int option" where
  "GetRtpSeqNum data =
     (if length data < kMinRtpPacketLen then None else GetUint16 data kRtpSeqNumOffset)"

definition GetRtpTimestamp :: "bytes \<Rightarrow> uint32 option" where
  "GetRtpTimestamp data =
     (if length data < kMinRtpPacketLen then None else GetUint32 data kRtpTimestampOffset)"

definition GetRtpSsrc :: "bytes \<Rightarrow> uint32 option" where
  "GetRtpSsrc data =
     (if length data < kMinRtpPacketLen then None else GetUint32 data kRtpSsrcOffset)"

definition GetRtpHeaderLen :: "bytes \<Rightarrow> nat option" where
  "GetRtpHeaderLen header =
     (if length header < kMinRtpPacketLen then None
      else
        let header_size = kMinRtpPacketLen + unat (header ! 0 AND 0xF) * 4 in
        if length header < header_size then None
        else if header ! 0 AND 0x10 \<noteq> 0 then
          if length header < header_size + 4 then None
          else
            let header_size' = header_size
                  + (unat (GetBE16 (mem_read header (header_size + 2) 2)) + 1) * 4
            in if length header < header_size' then None else Some header_size'
        else Some header_size)"

definition GetRtpHeader :: "bytes \<Rightarrow> rtp_header option" where
  "GetRtpHeader data =
     (case GetRtpPayloadType data of None \<Rightarrow> None | Some pt \<Rightarrow>
      case GetRtpSeqNum data of None \<Rightarrow> None | Some sn \<Rightarrow>
      case GetRtpTimestamp data of None \<Rightarrow> None | Some ts \<Rightarrow>
      case GetRtpSsrc data of None \<Rightarrow> None | Some ssrc \<Rightarrow>
        Some \<lparr>rh_payload_type = pt, rh_seq_num = sn, rh_timestamp = ts, rh_ssrc = ssrc\<rparr>)"

definition GetRtcpType :: "bytes \<Rightarrow> int option" where
  "GetRtcpType data =
     (if length data < kMinRtcpPacketLen then None else GetUint8 data kRtcpPayloadTypeOffset)"

definition GetRtcpSsrc :: "bytes \<Rightarrow> uint32 option" where
  "GetRtcpSsrc data =
     (if length data < kMinRtcpPacketLen + 4 then None
      else case GetRtcpType data of
             None \<Rightarrow> None
           | Some pl_type \<Rightarrow>
               if pl_type = kRtcpTypeSDES then None else Some (GetBE32 (mem_read data 4 4)))"

section \<open>Writers\<close>

definition SetRtpHeaderFlags :: "bytes \<Rightarrow> bool \<Rightarrow> bool \<Rightarrow> int \<Rightarrow> (bool \<times> bytes) option" where
  "SetRtpHeaderFlags data padding extension csrc_count =
     (if csrc_count > 0x0F then Some (False, data)
      else SetUint8 data kRtpFlagsOffset
             (push_bit 6 kRtpVersion OR push_bit 5 (if padding then 1 else 0)
              OR push_bit 4 (if extension then 1 else 0) OR csrc_count))"

definition SetRtpPayloadType :: "bytes \<Rightarrow> int \<Rightarrow> (bool \<times> bytes) option" where
  "SetRtpPayloadType data v =
     (if v \<ge> 0x7F then Some (False, data)
      else SetUint8 data kRtpPayloadTypeOffset (v AND 0x7F))"

definition SetRtpSeqNum :: "bytes \<Rightarrow> int \<Rightarrow> (bool \<times> bytes) option" where
  "SetRtpSeqNum data v = SetUint16 data kRtpSeqNumOffset v"

definition SetRtpTimestamp :: "bytes \<Rightarrow> uint32 \<Rightarrow> (bool \<times> bytes) option" where
  "SetRtpTimestamp data v = SetUint32 data kRtpTimestampOffset v"

definition SetRtpSsrc :: "bytes \<Rightarrow> uint32 \<Rightarrow> (bool \<times> bytes) option" where
  "SetRtpSsrc data v = SetUint32 data kRtpSsrcOffset v"

text \<open>The next write of a conjunction of writes.\<close>

definition and_then :: "(bool \<times> bytes) option \<Rightarrow> (bytes \<Rightarrow> (bool \<times> bytes) option)
    \<Rightarrow> (bool \<times> bytes) option" where
  "and_then r f = (case r of Some (True, data) \<Rightarrow> f data | _ \<Rightarrow> r)"

definition SetRtpHeader :: "bytes \<Rightarrow> rtp_header \<Rightarrow> (bool \<times> bytes) option" where
  "SetRtpHeader data header =
     and_then (SetRtpHeaderFlags data False False 0) (\<lambda>data.
     and_then (SetRtpPayloadType data (rh_payload_type header)) (\<lambda>data.
     and_then (SetRtpSeqNum data (rh_seq_num header)) (\<lambda>data.
     and_then (SetRtpTimestamp data (rh_timestamp header)) (\<lambda>data.
       SetRtpSsrc data (rh_ssrc header)))))"

section \<open>Properties\<close>

lemma list12:
  assumes "12 \<le> length data"
  obtains b0 b1 b2 b3 b4 b5 b6 b7 b8 b9 b10 b11 rest
  where "data = [b0, b1, b2, b3, b4, b5, b6, b7, b8, b9, b10, b11] @ rest"
proof -
  obtain xs where xs: "xs = take 12 data" by blast
  then have "length xs = 12" using assms by simp
  then obtain b0 b1 b2 b3 b4 b5 b6 b7 b8 b9 b10 b11
    where "xs = [b0, b1, b2, b3, b4, b5, b6, b7, b8, b9, b10, b11]"
    by (auto simp: length_Suc_conv numeral_eq_Suc)
  then show thesis using that xs by (metis append_take_drop_id)
qed

lemma and_then_simps [simp]:
  "and_then (Some (True, data)) f = f data" "and_then (Some (False, data)) f = Some (False, data)"
  "and_then None f = None"
  by (simp_all add: and_then_def)

text \<open>The packet that \<open>SetRtpHeader\<close> leaves behind.\<close>

lemma SetRtpHeader_bytes:
  assumes "12 \<le> length data" and "rh_payload_type h < 127"
  shows "SetRtpHeader data h = Some (True,
    [0x80, word_of_int (rh_payload_type h AND 127)] @ SetBE16 (word_of_int (rh_seq_num h))
    @ SetBE32 (rh_timestamp h) @ SetBE32 (rh_ssrc h) @ drop 12 data)"
proof -
  obtain b0 b1 b2 b3 b4 b5 b6 b7 b8 b9 b10 b11 rest
    where d: "data = [b0, b1, b2, b3, b4, b5, b6, b7, b8, b9, b10, b11] @ rest"
    using list12 [OF assms(1)] .
  show ?thesis
    using assms(2)
    by (simp add: d SetRtpHeader_def SetRtpHeaderFlags_def SetRtpPayloadType_def SetRtpSeqNum_def
        SetRtpTimestamp_def SetRtpSsrc_def SetUint8_def SetUint16_def SetUint32_def put_bytes_def
        rtp_consts mem_write_def SetBE16_def SetBE32_def numeral_eq_Suc)
qed

text \<open>
  The header that is written is the header that is read back, for every payload type below
  127 and sequence number of 16 bits; nothing behind the twelve bytes of the header changes,
  and the header has no contributing sources and no extension.
\<close>

theorem rtp_header_roundtrip:
  assumes "12 \<le> length data" and "0 \<le> rh_payload_type h" "rh_payload_type h < 127"
    and "0 \<le> rh_seq_num h" "rh_seq_num h < 65536"
  shows "\<exists>data'. SetRtpHeader data h = Some (True, data') \<and> GetRtpHeader data' = Some h
    \<and> GetRtpHeaderLen data' = Some 12 \<and> length data' = length data \<and> drop 12 data' = drop 12 data"
proof -
  have pt: "rh_payload_type h AND 127 = rh_payload_type h"
    using assms(2,3) take_bit_int_eq_self [of "rh_payload_type h" 7]
    by (simp add: take_bit_eq_mask mask_eq_exp_minus_1)
  have "uint (word_of_int (rh_payload_type h) :: uint8) = rh_payload_type h"
    and "uint (word_of_int (rh_seq_num h) :: uint16) = rh_seq_num h"
    using assms(2-5) by (simp_all add: unsigned_of_int take_bit_int_eq_self)
  then show ?thesis
    using assms(1) pt
    by (simp add: SetRtpHeader_bytes [OF assms(1,3)] GetRtpHeader_def GetRtpPayloadType_def
        GetRtpSeqNum_def GetRtpTimestamp_def GetRtpSsrc_def GetUint8_def GetUint16_def
        GetUint32_def GetRtpHeaderLen_def rtp_consts mem_read_def) linarith
qed

theorem rtp_header_roundtrip_witness:
  "\<exists>data'. SetRtpHeader (replicate 14 7)
      \<lparr>rh_payload_type = 111, rh_seq_num = 65535, rh_timestamp = 5, rh_ssrc = 9\<rparr> = Some (True, data')
    \<and> drop 12 data' = [7, 7]"
  using rtp_header_roundtrip [of "replicate 14 7"
      "\<lparr>rh_payload_type = 111, rh_seq_num = 65535, rh_timestamp = 5, rh_ssrc = 9\<rparr>"]
  by (auto simp: numeral_eq_Suc)

text \<open>
  The header length is inside the packet whatever the packet claims about its contributing
  sources and its extension, and covers the fixed header in full words.
\<close>

theorem rtp_header_len_bounds:
  assumes "GetRtpHeaderLen data = Some n"
  shows "12 \<le> n \<and> n \<le> length data \<and> 4 dvd n"
  using assms
  by (auto simp: GetRtpHeaderLen_def rtp_consts Let_def split: if_splits)

theorem rtp_header_len_bounds_witness:
  "GetRtpHeaderLen ([0x91] @ replicate 23 0) = Some 20 \<and> 20 \<le> length ([0x91 :: uint8] @ replicate 23 0)"
proof -
  have "GetRtpHeaderLen ([0x91] @ replicate 23 0) = Some 20" by code_simp
  from rtp_header_len_bounds [OF this] this show ?thesis by blast
qed

end
