(* ===== verification/SrtpSession.thy ===== *)
theory SrtpSession
  imports RtpUtils TimeUtils
begin

text \<open>
  \<^verbatim>\<open>SrtpStat\<close> and \<^verbatim>\<open>SrtpSession\<close> of \<^verbatim>\<open>session/media/srtpfilter.cc\<close>, in the build with libsrtp.
  The library is the parameter \<open>srtp_lib\<close>: the results of its initialisation by call, the
  creation of a session of type \<open>'s\<close> from a policy (with an error code), and the four packet functions, which take the session, the buffer and the
  length of the packet in it and give an error code, the buffer, the new length and the
  session.  A packet operation of \<open>SrtpSession\<close> takes and returns the buffer; it also takes the
  value that \<^verbatim>\<open>Time\<close> would return.
\<close>

section \<open>Error statistics\<close>

datatype srtp_mode = PROTECT | UNPROTECT
datatype srtp_error = ERROR_NONE | ERROR_FAIL | ERROR_AUTH | ERROR_REPLAY

record failure_key =
  fk_ssrc :: uint32
  fk_mode :: srtp_mode
  fk_error :: srtp_error

fun mode_value :: "srtp_mode \<Rightarrow> nat" where
  "mode_value PROTECT = 0" | "mode_value UNPROTECT = 1"

fun error_value :: "srtp_error \<Rightarrow> nat" where
  "error_value ERROR_NONE = 0" | "error_value ERROR_FAIL = 1" | "error_value ERROR_AUTH = 2"
| "error_value ERROR_REPLAY = 3"

definition failure_key_less :: "failure_key \<Rightarrow> failure_key \<Rightarrow> bool" where
  "failure_key_less a b \<longleftrightarrow> fk_ssrc a < fk_ssrc b \<or> mode_value (fk_mode a) < mode_value (fk_mode b)
     \<or> error_value (fk_error a) < error_value (fk_error b)"

text \<open>
  \<open>st_failures\<close> is the map of the class: the time of the last signal of a key, 0 for a key
  without an entry, as the default constructor of \<^verbatim>\<open>FailureStat\<close> has it.  \<open>st_signals\<close> logs the
  emissions of \<^verbatim>\<open>SignalSrtpError\<close> with their times.
\<close>

record srtp_stat =
  st_failures :: "failure_key \<Rightarrow> uint32"
  st_silent_time :: uint32
  st_signals :: "(failure_key \<times> uint32) list"

definition SrtpStat :: srtp_stat where
  "SrtpStat = \<lparr>st_failures = (\<lambda>_. 0), st_silent_time = 1000, st_signals = []\<rparr>"

definition HandleSrtpResult :: "uint32 \<Rightarrow> failure_key \<Rightarrow> srtp_stat \<Rightarrow> srtp_stat" where
  "HandleSrtpResult current_time key st =
     (if fk_error key \<noteq> ERROR_NONE then
        if st_failures st key = 0
           \<or> TimeDiff current_time (st_failures st key) > sint (st_silent_time st)
        then st\<lparr>st_signals := st_signals st @ [(key, current_time)],
                st_failures := (st_failures st)(key := current_time)\<rparr>
        else st
      else st)"

text \<open>The error codes of the library that the code names, and the others.\<close>

datatype err_status = err_status_ok | err_status_auth_fail | err_status_replay_fail
  | err_status_replay_old | err_status_other nat

definition AddProtectRtpResult :: "uint32 \<Rightarrow> uint32 \<Rightarrow> err_status \<Rightarrow> srtp_stat \<Rightarrow> srtp_stat" where
  "AddProtectRtpResult now ssrc result =
     HandleSrtpResult now
       \<lparr>fk_ssrc = ssrc, fk_mode = PROTECT,
        fk_error = (if result = err_status_ok then ERROR_NONE
                    else if result = err_status_auth_fail then ERROR_AUTH else ERROR_FAIL)\<rparr>"

definition AddUnprotectRtpResult :: "uint32 \<Rightarrow> uint32 \<Rightarrow> err_status \<Rightarrow> srtp_stat \<Rightarrow> srtp_stat" where
  "AddUnprotectRtpResult now ssrc result =
     HandleSrtpResult now
       \<lparr>fk_ssrc = ssrc, fk_mode = UNPROTECT,
        fk_error = (if result = err_status_ok then ERROR_NONE
                    else if result = err_status_auth_fail then ERROR_AUTH
                    else if result = err_status_replay_fail \<or> result = err_status_replay_old
                    then ERROR_REPLAY else ERROR_FAIL)\<rparr>"

definition AddProtectRtcpResult :: "uint32 \<Rightarrow> err_status \<Rightarrow> srtp_stat \<Rightarrow> srtp_stat" where
  "AddProtectRtcpResult now = AddProtectRtpResult now 0"

definition AddUnprotectRtcpResult :: "uint32 \<Rightarrow> err_status \<Rightarrow> srtp_stat \<Rightarrow> srtp_stat" where
  "AddUnprotectRtcpResult now = AddUnprotectRtpResult now 0"

section \<open>The library\<close>

datatype ssrc_type = ssrc_any_inbound | ssrc_any_outbound
datatype crypto_policy = aes_cm_128_hmac_sha1_80 | aes_cm_128_hmac_sha1_32

record srtp_policy =
  pol_rtp :: crypto_policy
  pol_rtcp :: crypto_policy
  pol_ssrc_type :: ssrc_type
  pol_key :: bytes
  pol_window_size :: nat
  pol_allow_repeat_tx :: bool

type_synonym 's packet_function = "'s \<Rightarrow> bytes \<Rightarrow> nat \<Rightarrow> err_status \<times> bytes \<times> nat \<times> 's"

record 's srtp_lib =
  lib_init :: "nat \<Rightarrow> err_status"
  lib_install_event_handler :: "nat \<Rightarrow> err_status"
  lib_create :: "srtp_policy \<Rightarrow> err_status \<times> 's option"
  lib_auth_tag_len :: "crypto_policy \<Rightarrow> nat"
  lib_protect :: "'s packet_function"
  lib_protect_rtcp :: "'s packet_function"
  lib_unprotect :: "'s packet_function"
  lib_unprotect_rtcp :: "'s packet_function"

text \<open>The static \<^verbatim>\<open>inited_\<close>, and the number of calls of \<^verbatim>\<open>srtp_init\<close> so far.\<close>

record srtp_global =
  gl_inited :: bool
  gl_inits :: nat

definition srtp_Init :: "'s srtp_lib \<Rightarrow> srtp_global \<Rightarrow> bool \<times> srtp_global" where
  "srtp_Init L g =
     (if gl_inited g then (True, g)
      else
        let g' = g\<lparr>gl_inits := gl_inits g + 1\<rparr> in
        if lib_init L (gl_inits g) \<noteq> err_status_ok then (False, g')
        else if lib_install_event_handler L (gl_inits g) \<noteq> err_status_ok then (False, g')
        else (True, g'\<lparr>gl_inited := True\<rparr>))"

section \<open>Sessions\<close>

definition SRTP_MASTER_KEY_LEN :: nat where "SRTP_MASTER_KEY_LEN = 30"
definition CS_AES_CM_128_HMAC_SHA1_80 :: string where
  "CS_AES_CM_128_HMAC_SHA1_80 = ''AES_CM_128_HMAC_SHA1_80''"
definition CS_AES_CM_128_HMAC_SHA1_32 :: string where
  "CS_AES_CM_128_HMAC_SHA1_32 = ''AES_CM_128_HMAC_SHA1_32''"

text \<open>\<open>ss_last_send_seq_num\<close> is \<open>None\<close> when it was copied from an uninitialised variable.\<close>

record 's srtp_session =
  ss_session :: "'s option"
  ss_rtp_auth_tag_len :: nat
  ss_rtcp_auth_tag_len :: nat
  ss_stat :: srtp_stat
  ss_last_send_seq_num :: "int option"

definition SrtpSession :: "'s srtp_session" where
  "SrtpSession = \<lparr>ss_session = None, ss_rtp_auth_tag_len = 0, ss_rtcp_auth_tag_len = 0,
     ss_stat = SrtpStat, ss_last_send_seq_num = Some (-1)\<rparr>"

definition srtp_make_policy :: "ssrc_type \<Rightarrow> string \<Rightarrow> bytes \<Rightarrow> srtp_policy option" where
  "srtp_make_policy type cs key =
     (if cs = CS_AES_CM_128_HMAC_SHA1_80 \<or> cs = CS_AES_CM_128_HMAC_SHA1_32 then
        if length key \<noteq> SRTP_MASTER_KEY_LEN then None
        else Some \<lparr>pol_rtp = (if cs = CS_AES_CM_128_HMAC_SHA1_80 then aes_cm_128_hmac_sha1_80
                              else aes_cm_128_hmac_sha1_32),
                   pol_rtcp = aes_cm_128_hmac_sha1_80, pol_ssrc_type = type, pol_key = key,
                   pol_window_size = 1024, pol_allow_repeat_tx = True\<rparr>
      else None)"

definition ss_SetKey :: "'s srtp_lib \<Rightarrow> ssrc_type \<Rightarrow> string \<Rightarrow> bytes
    \<Rightarrow> 's srtp_session \<Rightarrow> srtp_global \<Rightarrow> bool \<times> 's srtp_session \<times> srtp_global" where
  "ss_SetKey L type cs key s g =
     (if ss_session s \<noteq> None then (False, s, g)
      else case srtp_Init L g of
          (False, g1) \<Rightarrow> (False, s, g1)
        | (True, g1) \<Rightarrow>
            (case srtp_make_policy type cs key of
               None \<Rightarrow> (False, s, g1)
             | Some policy \<Rightarrow>
                 (case lib_create L policy of (err, session) \<Rightarrow>
                    if err \<noteq> err_status_ok then (False, s\<lparr>ss_session := session\<rparr>, g1)
                    else (True, s\<lparr>ss_session := session,
                                  ss_rtp_auth_tag_len := lib_auth_tag_len L (pol_rtp policy),
                                  ss_rtcp_auth_tag_len := lib_auth_tag_len L (pol_rtcp policy)\<rparr>, g1))))"

definition ss_SetSend :: "'s srtp_lib \<Rightarrow> string \<Rightarrow> bytes
    \<Rightarrow> 's srtp_session \<Rightarrow> srtp_global \<Rightarrow> bool \<times> 's srtp_session \<times> srtp_global" where
  "ss_SetSend L = ss_SetKey L ssrc_any_outbound"

definition ss_SetRecv :: "'s srtp_lib \<Rightarrow> string \<Rightarrow> bytes
    \<Rightarrow> 's srtp_session \<Rightarrow> srtp_global \<Rightarrow> bool \<times> 's srtp_session \<times> srtp_global" where
  "ss_SetRecv L = ss_SetKey L ssrc_any_inbound"

text \<open>
  A packet operation gives the code's result, the buffer, the length written to \<^verbatim>\<open>out_len\<close>
  (\<open>None\<close> when nothing is written) and the session.
\<close>

type_synonym 's packet_result = "bool \<times> bytes \<times> nat option \<times> 's srtp_session"

definition ss_ProtectRtp :: "'s srtp_lib \<Rightarrow> uint32 \<Rightarrow> bytes \<Rightarrow> nat \<Rightarrow> nat \<Rightarrow> 's srtp_session
    \<Rightarrow> 's packet_result" where
  "ss_ProtectRtp L now p in_len max_len s =
     (case ss_session s of
        None \<Rightarrow> (False, p, None, s)
      | Some session \<Rightarrow>
          if max_len < in_len + ss_rtp_auth_tag_len s then (False, p, None, s)
          else
            let (err, p', out_len, session') = lib_protect L session p in_len;
                stat = (case GetRtpSsrc (take in_len p') of
                          Some ssrc \<Rightarrow> AddProtectRtpResult now ssrc err (ss_stat s)
                        | None \<Rightarrow> ss_stat s);
                s' = s\<lparr>ss_session := Some session', ss_stat := stat\<rparr>
            in if err \<noteq> err_status_ok then (False, p', Some out_len, s')
               else (True, p', Some out_len,
                     s'\<lparr>ss_last_send_seq_num := GetRtpSeqNum (take in_len p')\<rparr>))"

definition ss_ProtectRtcp :: "'s srtp_lib \<Rightarrow> uint32 \<Rightarrow> bytes \<Rightarrow> nat \<Rightarrow> nat \<Rightarrow> 's srtp_session
    \<Rightarrow> 's packet_result" where
  "ss_ProtectRtcp L now p in_len max_len s =
     (case ss_session s of
        None \<Rightarrow> (False, p, None, s)
      | Some session \<Rightarrow>
          if max_len < in_len + 4 + ss_rtcp_auth_tag_len s then (False, p, None, s)
          else
            let (err, p', out_len, session') = lib_protect_rtcp L session p in_len
            in (err = err_status_ok, p', Some out_len,
                s\<lparr>ss_session := Some session', ss_stat := AddProtectRtcpResult now err (ss_stat s)\<rparr>))"

definition ss_UnprotectRtp :: "'s srtp_lib \<Rightarrow> uint32 \<Rightarrow> bytes \<Rightarrow> nat \<Rightarrow> 's srtp_session
    \<Rightarrow> 's packet_result" where
  "ss_UnprotectRtp L now p in_len s =
     (case ss_session s of
        None \<Rightarrow> (False, p, None, s)
      | Some session \<Rightarrow>
          let (err, p', out_len, session') = lib_unprotect L session p in_len;
              stat = (case GetRtpSsrc (take in_len p') of
                        Some ssrc \<Rightarrow> AddUnprotectRtpResult now ssrc err (ss_stat s)
                      | None \<Rightarrow> ss_stat s)
          in (err = err_status_ok, p', Some out_len, s\<lparr>ss_session := Some session', ss_stat := stat\<rparr>))"

definition ss_UnprotectRtcp :: "'s srtp_lib \<Rightarrow> uint32 \<Rightarrow> bytes \<Rightarrow> nat \<Rightarrow> 's srtp_session
    \<Rightarrow> 's packet_result" where
  "ss_UnprotectRtcp L now p in_len s =
     (case ss_session s of
        None \<Rightarrow> (False, p, None, s)
      | Some session \<Rightarrow>
          let (err, p', out_len, session') = lib_unprotect_rtcp L session p in_len
          in (err = err_status_ok, p', Some out_len,
              s\<lparr>ss_session := Some session', ss_stat := AddUnprotectRtcpResult now err (ss_stat s)\<rparr>))"

definition ss_set_signal_silent_time :: "uint32 \<Rightarrow> 's srtp_session \<Rightarrow> 's srtp_session" where
  "ss_set_signal_silent_time ms s = s\<lparr>ss_stat := (ss_stat s)\<lparr>st_silent_time := ms\<rparr>\<rparr>"

section \<open>Properties of the statistics\<close>











text \<open>
  The order of the failure keys is none: two keys may each be less than the other, so the
  behaviour of the \<^verbatim>\<open>std::map\<close> that they index is undefined.
\<close>

theorem failure_keys_unordered:
  "failure_key_less \<lparr>fk_ssrc = 1, fk_mode = PROTECT, fk_error = ERROR_REPLAY\<rparr>
     \<lparr>fk_ssrc = 2, fk_mode = PROTECT, fk_error = ERROR_FAIL\<rparr>
   \<and> failure_key_less \<lparr>fk_ssrc = 2, fk_mode = PROTECT, fk_error = ERROR_FAIL\<rparr>
     \<lparr>fk_ssrc = 1, fk_mode = PROTECT, fk_error = ERROR_REPLAY\<rparr>"
  by (simp add: failure_key_less_def)

end
