(* ===== verification/StreamParams.thy ===== *)
theory StreamParams
  imports SocketAddress
begin

text \<open>
  \<^verbatim>\<open>media/base/streamparams.*\<close>: the description of a media source by its synchronisation
  sources (SSRC), their groups, and lists of such descriptions.
\<close>

definition kFecSsrcGroupSemantics :: string where "kFecSsrcGroupSemantics = ''FEC''"
definition kFidSsrcGroupSemantics :: string where "kFidSsrcGroupSemantics = ''FID''"

record ssrc_group =
  sg_semantics :: string
  sg_ssrcs :: "uint32 list"

record stream_params =
  sp_nick :: string
  sp_name :: string
  sp_ssrcs :: "uint32 list"
  sp_ssrc_groups :: "ssrc_group list"
  sp_type :: string
  sp_display :: string
  sp_cname :: string
  sp_sync_label :: string

definition CreateLegacy :: "uint32 \<Rightarrow> stream_params" where
  "CreateLegacy ssrc = \<lparr>sp_nick = [], sp_name = [], sp_ssrcs = [ssrc], sp_ssrc_groups = [],
     sp_type = [], sp_display = [], sp_cname = [], sp_sync_label = []\<rparr>"

definition has_semantics :: "string \<Rightarrow> ssrc_group \<Rightarrow> bool" where
  "has_semantics semantics g \<longleftrightarrow> sg_semantics g = semantics \<and> length (sg_ssrcs g) > 0"

text \<open>The operator \<^verbatim>\<open>==\<close>, whose last comparison is of a member with itself.\<close>

definition sp_equal :: "stream_params \<Rightarrow> stream_params \<Rightarrow> bool" where
  "sp_equal a b \<longleftrightarrow> sp_nick a = sp_nick b \<and> sp_name a = sp_name b \<and> sp_ssrcs a = sp_ssrcs b
     \<and> sp_ssrc_groups a = sp_ssrc_groups b \<and> sp_type a = sp_type b \<and> sp_display a = sp_display b
     \<and> sp_cname a = sp_cname b \<and> sp_sync_label a = sp_sync_label a"

definition first_ssrc :: "stream_params \<Rightarrow> uint32" where
  "first_ssrc s = (if sp_ssrcs s = [] then 0 else hd (sp_ssrcs s))"

definition has_ssrcs :: "stream_params \<Rightarrow> bool" where
  "has_ssrcs s \<longleftrightarrow> sp_ssrcs s \<noteq> []"

definition has_ssrc :: "stream_params \<Rightarrow> uint32 \<Rightarrow> bool" where
  "has_ssrc s ssrc \<longleftrightarrow> ssrc \<in> set (sp_ssrcs s)"

definition add_ssrc :: "uint32 \<Rightarrow> stream_params \<Rightarrow> stream_params" where
  "add_ssrc ssrc s = s\<lparr>sp_ssrcs := sp_ssrcs s @ [ssrc]\<rparr>"

definition get_ssrc_group :: "string \<Rightarrow> stream_params \<Rightarrow> ssrc_group option" where
  "get_ssrc_group semantics s = find (has_semantics semantics) (sp_ssrc_groups s)"

definition has_ssrc_group :: "string \<Rightarrow> stream_params \<Rightarrow> bool" where
  "has_ssrc_group semantics s \<longleftrightarrow> get_ssrc_group semantics s \<noteq> None"

definition AddSecondarySsrc :: "string \<Rightarrow> uint32 \<Rightarrow> uint32 \<Rightarrow> stream_params \<Rightarrow> bool \<times> stream_params" where
  "AddSecondarySsrc semantics primary_ssrc secondary_ssrc s =
     (if \<not> has_ssrc s primary_ssrc then (False, s)
      else (True, s\<lparr>sp_ssrcs := sp_ssrcs s @ [secondary_ssrc],
              sp_ssrc_groups := sp_ssrc_groups s
                @ [\<lparr>sg_semantics = semantics, sg_ssrcs = [primary_ssrc, secondary_ssrc]\<rparr>]\<rparr>))"

definition GetSecondarySsrc :: "string \<Rightarrow> uint32 \<Rightarrow> stream_params \<Rightarrow> uint32 option" where
  "GetSecondarySsrc semantics primary_ssrc s =
     map_option (\<lambda>g. sg_ssrcs g ! 1)
       (find (\<lambda>g. has_semantics semantics g \<and> length (sg_ssrcs g) \<ge> 2 \<and> sg_ssrcs g ! 0 = primary_ssrc)
          (sp_ssrc_groups s))"

definition AddFidSsrc :: "uint32 \<Rightarrow> uint32 \<Rightarrow> stream_params \<Rightarrow> bool \<times> stream_params" where
  "AddFidSsrc primary_ssrc fid_ssrc = AddSecondarySsrc kFidSsrcGroupSemantics primary_ssrc fid_ssrc"

definition GetFidSsrc :: "uint32 \<Rightarrow> stream_params \<Rightarrow> uint32 option" where
  "GetFidSsrc primary_ssrc = GetSecondarySsrc kFidSsrcGroupSemantics primary_ssrc"

section \<open>Printing\<close>

definition SsrcsToString :: "uint32 list \<Rightarrow> string" where
  "SsrcsToString ssrcs =
     ''ssrcs:['' @ concat (map (\<lambda>i. (if i \<noteq> 0 then '','' else []) @ dec_string (unat (ssrcs ! i)))
        [0..<length ssrcs]) @ '']''"

definition SsrcGroup_ToString :: "ssrc_group \<Rightarrow> string" where
  "SsrcGroup_ToString g =
     ''{'' @ ''semantics:'' @ sg_semantics g @ '';'' @ SsrcsToString (sg_ssrcs g) @ ''}''"

definition StreamParams_ToString :: "stream_params \<Rightarrow> string" where
  "StreamParams_ToString s =
     ''{''
     @ (if sp_nick s \<noteq> [] then ''nick:'' @ sp_nick s @ '';'' else [])
     @ (if sp_name s \<noteq> [] then ''name:'' @ sp_name s @ '';'' else [])
     @ SsrcsToString (sp_ssrcs s) @ '';''
     @ ''ssrc_groups:''
     @ concat (map (\<lambda>i. (if i \<noteq> 0 then '','' else []) @ SsrcGroup_ToString (sp_ssrc_groups s ! i))
         [0..<length (sp_ssrc_groups s)])
     @ '';''
     @ (if sp_type s \<noteq> [] then ''type:'' @ sp_type s @ '';'' else [])
     @ (if sp_display s \<noteq> [] then ''display:'' @ sp_display s @ '';'' else [])
     @ (if sp_cname s \<noteq> [] then ''cname:'' @ sp_cname s @ '';'' else [])
     @ (if sp_sync_label s \<noteq> [] then ''sync_label:'' @ sp_sync_label s else [])
     @ ''}''"

section \<open>Lists of streams\<close>

fun GetStreamBySsrc :: "stream_params list \<Rightarrow> uint32 \<Rightarrow> stream_params option" where
  "GetStreamBySsrc [] ssrc = None"
| "GetStreamBySsrc (s # ss) ssrc = (if has_ssrc s ssrc then Some s else GetStreamBySsrc ss ssrc)"

fun GetStreamByNickAndName :: "stream_params list \<Rightarrow> string \<Rightarrow> string \<Rightarrow> stream_params option" where
  "GetStreamByNickAndName [] nick name = None"
| "GetStreamByNickAndName (s # ss) nick name =
     (if sp_nick s = nick \<and> sp_name s = name then Some s else GetStreamByNickAndName ss nick name)"

fun RemoveStreamBySsrc :: "stream_params list \<Rightarrow> uint32 \<Rightarrow> bool \<times> stream_params list" where
  "RemoveStreamBySsrc [] ssrc = (False, [])"
| "RemoveStreamBySsrc (s # ss) ssrc =
     (let (ret, ss') = RemoveStreamBySsrc ss ssrc
      in if has_ssrc s ssrc then (True, ss') else (ret, s # ss'))"

fun RemoveStreamByNickAndName :: "stream_params list \<Rightarrow> string \<Rightarrow> string \<Rightarrow> bool \<times> stream_params list" where
  "RemoveStreamByNickAndName [] nick name = (False, [])"
| "RemoveStreamByNickAndName (s # ss) nick name =
     (let (ret, ss') = RemoveStreamByNickAndName ss nick name
      in if sp_nick s = nick \<and> sp_name s = name then (True, ss') else (ret, s # ss'))"

lemma GetStreamBySsrc_iff: "GetStreamBySsrc ss ssrc \<noteq> None \<longleftrightarrow> (\<exists>s \<in> set ss. has_ssrc s ssrc)"
  by (induction ss) auto

lemma GetStreamBySsrc_Some: "GetStreamBySsrc ss ssrc = Some s \<Longrightarrow> s \<in> set ss \<and> has_ssrc s ssrc"
  by (induction ss) (auto split: if_splits)

lemma RemoveStreamBySsrc_eq:
  "RemoveStreamBySsrc ss ssrc = ((\<exists>s \<in> set ss. has_ssrc s ssrc), filter (\<lambda>s. \<not> has_ssrc s ssrc) ss)"
  by (induction ss) (auto simp: Let_def)

lemma RemoveStreamByNickAndName_eq:
  "RemoveStreamByNickAndName ss nick name =
    ((\<exists>s \<in> set ss. sp_nick s = nick \<and> sp_name s = name),
     filter (\<lambda>s. \<not> (sp_nick s = nick \<and> sp_name s = name)) ss)"
  by (induction ss) (auto simp: Let_def)

text \<open>A secondary source is found under its primary one, unless the primary had one already.\<close>

lemma GetSecondarySsrc_add:
  assumes "has_ssrc s p" and "GetSecondarySsrc sem p s = None"
  shows "\<exists>s'. AddSecondarySsrc sem p q s = (True, s') \<and> GetSecondarySsrc sem p s' = Some q
    \<and> has_ssrc s' q \<and> (\<forall>r. has_ssrc s r \<longrightarrow> has_ssrc s' r)"
proof -
  have f: "find P (xs @ [y]) = (case find P xs of None \<Rightarrow> if P y then Some y else None | r \<Rightarrow> r)"
    for P :: "ssrc_group \<Rightarrow> bool" and xs y
    by (induction xs) auto
  show ?thesis
    using assms
    by (auto simp: AddSecondarySsrc_def GetSecondarySsrc_def has_ssrc_def f has_semantics_def)
qed

end
