(* ===== verification/MuxFilters.thy ===== *)
theory MuxFilters
  imports RtpUtils StreamParams
begin

text \<open>
  The two filters that decide for each packet of a media channel where it goes:
  \<^verbatim>\<open>session/media/rtcpmuxfilter.cc\<close>, which negotiates whether RTP and RTCP share a transport and
  tells them apart when they do, and \<^verbatim>\<open>session/media/ssrcmuxfilter.cc\<close>, which keeps the sources
  that belong to the channel.
\<close>

datatype content_source = CS_LOCAL | CS_REMOTE

section \<open>RtcpMuxFilter\<close>

datatype mux_state = MUX_INIT | MUX_RECEIVEDOFFER | MUX_SENTOFFER | MUX_SENTPRANSWER
  | MUX_RECEIVEDPRANSWER | MUX_ACTIVE

record rtcp_mux_filter =
  mx_state :: mux_state
  mx_offer_enable :: bool

definition RtcpMuxFilter :: rtcp_mux_filter where
  "RtcpMuxFilter = \<lparr>mx_state = MUX_INIT, mx_offer_enable = False\<rparr>"

definition mux_IsActive :: "rtcp_mux_filter \<Rightarrow> bool" where
  "mux_IsActive f \<longleftrightarrow> mx_state f = MUX_SENTPRANSWER \<or> mx_state f = MUX_RECEIVEDPRANSWER
     \<or> mx_state f = MUX_ACTIVE"

definition mux_ExpectOffer :: "rtcp_mux_filter \<Rightarrow> bool \<Rightarrow> content_source \<Rightarrow> bool" where
  "mux_ExpectOffer f offer_enable src \<longleftrightarrow>
     mx_state f = MUX_INIT
     \<or> (mx_state f = MUX_ACTIVE \<and> offer_enable = mx_offer_enable f)
     \<or> (mx_state f = MUX_SENTOFFER \<and> src = CS_LOCAL)
     \<or> (mx_state f = MUX_RECEIVEDOFFER \<and> src = CS_REMOTE)"

definition mux_ExpectAnswer :: "rtcp_mux_filter \<Rightarrow> content_source \<Rightarrow> bool" where
  "mux_ExpectAnswer f src \<longleftrightarrow>
     (mx_state f = MUX_SENTOFFER \<and> src = CS_REMOTE)
     \<or> (mx_state f = MUX_RECEIVEDOFFER \<and> src = CS_LOCAL)
     \<or> (mx_state f = MUX_SENTPRANSWER \<and> src = CS_LOCAL)
     \<or> (mx_state f = MUX_RECEIVEDPRANSWER \<and> src = CS_REMOTE)"

definition mux_SetOffer :: "rtcp_mux_filter \<Rightarrow> bool \<Rightarrow> content_source \<Rightarrow> bool \<times> rtcp_mux_filter" where
  "mux_SetOffer f offer_enable src =
     (if \<not> mux_ExpectOffer f offer_enable src then (False, f)
      else (True, f\<lparr>mx_offer_enable := offer_enable,
              mx_state := (if src = CS_LOCAL then MUX_SENTOFFER else MUX_RECEIVEDOFFER)\<rparr>))"

definition mux_SetProvisionalAnswer ::
    "rtcp_mux_filter \<Rightarrow> bool \<Rightarrow> content_source \<Rightarrow> bool \<times> rtcp_mux_filter" where
  "mux_SetProvisionalAnswer f answer_enable src =
     (if \<not> mux_ExpectAnswer f src then (False, f)
      else if mx_offer_enable f then
        (if answer_enable then
           (True, f\<lparr>mx_state := (if src = CS_REMOTE then MUX_RECEIVEDPRANSWER else MUX_SENTPRANSWER)\<rparr>)
         else (True, f\<lparr>mx_state := (if src = CS_REMOTE then MUX_SENTOFFER else MUX_RECEIVEDOFFER)\<rparr>))
      else if answer_enable then (False, f)
      else (True, f))"

definition mux_SetAnswer :: "rtcp_mux_filter \<Rightarrow> bool \<Rightarrow> content_source \<Rightarrow> bool \<times> rtcp_mux_filter" where
  "mux_SetAnswer f answer_enable src =
     (if \<not> mux_ExpectAnswer f src then (False, f)
      else if mx_offer_enable f \<and> answer_enable then (True, f\<lparr>mx_state := MUX_ACTIVE\<rparr>)
      else if answer_enable then (False, f)
      else (True, f\<lparr>mx_state := MUX_INIT\<rparr>))"

text \<open>The comparison \<^verbatim>\<open>state_ < ST_SENTOFFER\<close> is of the enumeration's values.\<close>

fun mux_state_value :: "mux_state \<Rightarrow> nat" where
  "mux_state_value MUX_INIT = 0"
| "mux_state_value MUX_RECEIVEDOFFER = 1"
| "mux_state_value MUX_SENTOFFER = 2"
| "mux_state_value MUX_SENTPRANSWER = 3"
| "mux_state_value MUX_RECEIVEDPRANSWER = 4"
| "mux_state_value MUX_ACTIVE = 5"

definition DemuxRtcp :: "rtcp_mux_filter \<Rightarrow> bytes \<Rightarrow> bool" where
  "DemuxRtcp f data =
     (if \<not> mx_offer_enable f \<or> mux_state_value (mx_state f) < mux_state_value MUX_SENTOFFER then False
      else let type = (if length data \<ge> 2 then uint (data ! 1 AND 0x7F) else 0)
           in type \<ge> 64 \<and> type < 96)"

section \<open>A negotiation between two peers\<close>

text \<open>A message is set as local by the peer that sends it and as remote by the other.\<close>

datatype mux_message = MuxOffer bool | MuxPrAnswer bool | MuxAnswer bool

fun mux_set :: "rtcp_mux_filter \<Rightarrow> mux_message \<Rightarrow> content_source \<Rightarrow> bool \<times> rtcp_mux_filter" where
  "mux_set f (MuxOffer e) src = mux_SetOffer f e src"
| "mux_set f (MuxPrAnswer e) src = mux_SetProvisionalAnswer f e src"
| "mux_set f (MuxAnswer e) src = mux_SetAnswer f e src"

text \<open>\<open>(True, m)\<close> is a message from the first peer to the second.\<close>

fun mux_exchange :: "(bool \<times> mux_message) list \<Rightarrow> rtcp_mux_filter \<times> rtcp_mux_filter
    \<Rightarrow> rtcp_mux_filter \<times> rtcp_mux_filter" where
  "mux_exchange [] p = p"
| "mux_exchange ((from_first, m) # ms) p =
     mux_exchange ms
       (snd (mux_set (fst p) m (if from_first then CS_LOCAL else CS_REMOTE)),
        snd (mux_set (snd p) m (if from_first then CS_REMOTE else CS_LOCAL)))"

fun mirrored :: "mux_state \<Rightarrow> mux_state" where
  "mirrored MUX_RECEIVEDOFFER = MUX_SENTOFFER"
| "mirrored MUX_SENTOFFER = MUX_RECEIVEDOFFER"
| "mirrored MUX_RECEIVEDPRANSWER = MUX_SENTPRANSWER"
| "mirrored MUX_SENTPRANSWER = MUX_RECEIVEDPRANSWER"
| "mirrored s = s"

definition mux_peers :: "rtcp_mux_filter \<Rightarrow> rtcp_mux_filter \<Rightarrow> bool" where
  "mux_peers f g \<longleftrightarrow> mx_state g = mirrored (mx_state f) \<and> mx_offer_enable g = mx_offer_enable f
     \<and> (mux_IsActive f \<longrightarrow> mx_offer_enable f)"

lemmas mux_defs = mux_SetOffer_def mux_SetProvisionalAnswer_def mux_SetAnswer_def
  mux_ExpectOffer_def mux_ExpectAnswer_def mux_IsActive_def

lemma mirrored_eq [simp]:
  "mirrored s = MUX_INIT \<longleftrightarrow> s = MUX_INIT" "mirrored s = MUX_ACTIVE \<longleftrightarrow> s = MUX_ACTIVE"
  "mirrored s = MUX_SENTOFFER \<longleftrightarrow> s = MUX_RECEIVEDOFFER"
  "mirrored s = MUX_RECEIVEDOFFER \<longleftrightarrow> s = MUX_SENTOFFER"
  "mirrored s = MUX_SENTPRANSWER \<longleftrightarrow> s = MUX_RECEIVEDPRANSWER"
  "mirrored s = MUX_RECEIVEDPRANSWER \<longleftrightarrow> s = MUX_SENTPRANSWER"
  by (cases s; simp)+

lemma mux_peers_step:
  assumes "mux_peers f g"
  shows "mux_peers (snd (mux_set f m (if b then CS_LOCAL else CS_REMOTE)))
      (snd (mux_set g m (if b then CS_REMOTE else CS_LOCAL)))
    \<and> fst (mux_set f m (if b then CS_LOCAL else CS_REMOTE))
      = fst (mux_set g m (if b then CS_REMOTE else CS_LOCAL))"
  using assms by (cases m; cases b) (auto simp: mux_peers_def mux_defs)

lemma mux_exchange_peers:
  "mux_peers (fst p) (snd p) \<Longrightarrow> mux_peers (fst (mux_exchange ms p)) (snd (mux_exchange ms p))"
proof (induction ms p rule: mux_exchange.induct)
  case (2 from_first m ms p)
  show ?case using "2.IH" mux_peers_step [OF "2.prems", of m from_first] by simp
qed simp

text \<open>
  C10.  The peers never disagree: whatever offers, provisional and final answers they exchange, in
  whatever order and from whichever side, valid or refused, multiplexing is active at one
  exactly when it is active at the other; it is active only when both the last offer and the
  answer asked for it, and a peer on which it is active recognises RTCP packets by their
  payload types 64 to 95.
\<close>

theorem mux_peers_agree:
  "case mux_exchange ms (RtcpMuxFilter, RtcpMuxFilter) of (f, g) \<Rightarrow>
     mux_IsActive f = mux_IsActive g \<and> mx_offer_enable f = mx_offer_enable g
     \<and> (mux_IsActive f \<longrightarrow> mx_offer_enable f
          \<and> (\<forall>data. DemuxRtcp f data
               = (length data \<ge> 2 \<and> 64 \<le> data ! 1 AND 0x7F \<and> data ! 1 AND 0x7F < 96)))"
proof -
  obtain f g where e: "mux_exchange ms (RtcpMuxFilter, RtcpMuxFilter) = (f, g)"
    by (metis surj_pair)
  have "mux_peers RtcpMuxFilter RtcpMuxFilter"
    by (simp add: mux_peers_def RtcpMuxFilter_def mux_IsActive_def)
  then have "mux_peers f g"
    using mux_exchange_peers [of "(RtcpMuxFilter, RtcpMuxFilter)" ms] by (simp add: e)
  moreover have "(64 \<le> uint v \<and> uint v < 96) = (64 \<le> v \<and> v < 96)" for v :: uint8
    by (simp add: word_le_def word_less_def)
  ultimately show ?thesis
    by (cases "mx_state f") (simp_all add: e mux_peers_def mux_IsActive_def DemuxRtcp_def Let_def)
qed

theorem mux_peers_agree_witness:
  "case mux_exchange [(True, MuxOffer True), (False, MuxPrAnswer True)] (RtcpMuxFilter, RtcpMuxFilter) of
     (f, g) \<Rightarrow> mux_IsActive f = mux_IsActive g \<and> mx_offer_enable f"
  using mux_peers_agree [of "[(True, MuxOffer True), (False, MuxPrAnswer True)]"]
  by (simp add: mux_defs RtcpMuxFilter_def)

text \<open>
  A further offer deactivates an active filter, though the declaration of \<^verbatim>\<open>ST_ACTIVE\<close> says that
  this is not possible: repeated with the same setting it is accepted, and an answer that
  declines resets the filter.
\<close>

theorem active_mux_deactivated:
  "case mux_exchange [(True, MuxOffer True), (False, MuxAnswer True)] (RtcpMuxFilter, RtcpMuxFilter) of
     (f, g) \<Rightarrow> mx_state f = MUX_ACTIVE
       \<and> mx_state (fst (mux_exchange [(True, MuxOffer True), (False, MuxAnswer False)] (f, g))) = MUX_INIT"
  by (simp add: mux_defs RtcpMuxFilter_def)

section \<open>SsrcMuxFilter\<close>

type_synonym ssrc_mux_filter = "stream_params list"

definition kSsrc01 :: uint32 where "kSsrc01 = 1"

definition ssrc_IsActive :: "ssrc_mux_filter \<Rightarrow> bool" where
  "ssrc_IsActive streams \<longleftrightarrow> streams \<noteq> []"

definition ssrc_FindStream :: "ssrc_mux_filter \<Rightarrow> uint32 \<Rightarrow> bool" where
  "ssrc_FindStream streams ssrc \<longleftrightarrow> GetStreamBySsrc streams ssrc \<noteq> None"

definition DemuxPacket :: "ssrc_mux_filter \<Rightarrow> bytes \<Rightarrow> bool \<Rightarrow> bool" where
  "DemuxPacket streams data rtcp =
     (if \<not> rtcp then
        ssrc_FindStream streams (case GetRtpSsrc data of Some ssrc \<Rightarrow> ssrc | None \<Rightarrow> 0)
      else case GetRtcpType data of
          None \<Rightarrow> False
        | Some pl_type \<Rightarrow>
            if pl_type = kRtcpTypeSDES then True
            else (case GetRtcpSsrc data of
                    None \<Rightarrow> False
                  | Some ssrc \<Rightarrow> if ssrc = kSsrc01 then True else ssrc_FindStream streams ssrc))"

definition ssrc_AddStream :: "stream_params \<Rightarrow> ssrc_mux_filter \<Rightarrow> bool \<times> ssrc_mux_filter" where
  "ssrc_AddStream stream streams =
     (if GetStreamBySsrc streams (first_ssrc stream) \<noteq> None then (False, streams)
      else (True, streams @ [stream]))"

definition ssrc_RemoveStream :: "uint32 \<Rightarrow> ssrc_mux_filter \<Rightarrow> bool \<times> ssrc_mux_filter" where
  "ssrc_RemoveStream ssrc streams = RemoveStreamBySsrc streams ssrc"

text \<open>The sources of the channel.\<close>

definition channel_ssrcs :: "ssrc_mux_filter \<Rightarrow> uint32 set" where
  "channel_ssrcs streams = (\<Union>s \<in> set streams. set (sp_ssrcs s))"

lemma FindStream_channel: "ssrc_FindStream streams ssrc \<longleftrightarrow> ssrc \<in> channel_ssrcs streams"
  by (auto simp: ssrc_FindStream_def channel_ssrcs_def has_ssrc_def
      GetStreamBySsrc_iff [of streams ssrc, simplified])

text \<open>
  The filter accepts the packets of its sources: an added stream contributes all of its SSRCs
  (unless its first one was known), a removed SSRC takes the streams that contain it with it
  and is no longer accepted, and a complete RTP packet passes exactly when its SSRC is one of
  the channel's.
\<close>

theorem ssrc_filter_keeps_sources:
  assumes "length hdr = 8"
  shows "snd (ssrc_AddStream s streams)
     = (if first_ssrc s \<in> channel_ssrcs streams then streams else streams @ [s])
   \<and> channel_ssrcs (streams @ [s]) = channel_ssrcs streams \<union> set (sp_ssrcs s)
   \<and> ssrc \<notin> channel_ssrcs (snd (ssrc_RemoveStream ssrc streams))
   \<and> set (snd (ssrc_RemoveStream ssrc streams)) = {s \<in> set streams. ssrc \<notin> set (sp_ssrcs s)}
   \<and> DemuxPacket streams (hdr @ SetBE32 ssrc @ payload) False
       = (ssrc \<in> channel_ssrcs streams)"
proof -
  have "snd (ssrc_AddStream s streams)
      = (if first_ssrc s \<in> channel_ssrcs streams then streams else streams @ [s])"
    using FindStream_channel [of streams "first_ssrc s"]
    by (simp add: ssrc_AddStream_def ssrc_FindStream_def)
  moreover have "DemuxPacket streams (hdr @ SetBE32 ssrc @ payload) False
      \<longleftrightarrow> ssrc \<in> channel_ssrcs streams"
    using assms
    by (simp add: DemuxPacket_def GetRtpSsrc_def GetUint32_def rtp_consts mem_read_def
        FindStream_channel)
  moreover have "ssrc \<notin> channel_ssrcs (snd (ssrc_RemoveStream ssrc streams))"
    by (auto simp: ssrc_RemoveStream_def RemoveStreamBySsrc_eq channel_ssrcs_def has_ssrc_def)
  ultimately show ?thesis
    by (auto simp: ssrc_RemoveStream_def RemoveStreamBySsrc_eq channel_ssrcs_def has_ssrc_def)
qed

theorem ssrc_filter_keeps_sources_witness:
  "DemuxPacket [CreateLegacy 7] (replicate 8 0 @ SetBE32 7 @ [1]) False
   \<and> \<not> DemuxPacket [CreateLegacy 7] (replicate 8 0 @ SetBE32 6 @ [1]) False"
  using ssrc_filter_keeps_sources [of "replicate 8 0" "CreateLegacy 8" "[CreateLegacy 7]" 7 "[1]"]
    ssrc_filter_keeps_sources [of "replicate 8 0" "CreateLegacy 8" "[CreateLegacy 7]" 6 "[1]"]
  by (simp add: channel_ssrcs_def CreateLegacy_def)

end
