(* ===== verification/SrtpFilter.thy ===== *)
theory SrtpFilter
  imports SrtpSession MuxFilters Base64
begin

text \<open>
  \<^verbatim>\<open>SrtpFilter\<close> of \<^verbatim>\<open>session/media/srtpfilter.cc\<close>: the negotiation of SRTP keys by offer and
  answer, and the protection of packets with the sessions it sets up.  A session pointer is an
  option; \<open>None\<close> as the result of a packet operation is the use of a null pointer.  The keys of
  \<^verbatim>\<open>CryptoParams\<close> are byte strings, as the Base64 decoder takes them.
\<close>

record crypto_params =
  cp_tag :: int
  cp_cipher_suite :: string
  cp_key_params :: bytes
  cp_session_params :: string

definition cp_Matches :: "crypto_params \<Rightarrow> crypto_params \<Rightarrow> bool" where
  "cp_Matches a b \<longleftrightarrow> cp_tag a = cp_tag b \<and> cp_cipher_suite a = cp_cipher_suite b"

datatype srtp_state = SRTP_INIT | SRTP_SENTOFFER | SRTP_RECEIVEDOFFER | SRTP_SENTPRANSWER_NO_CRYPTO
  | SRTP_RECEIVEDPRANSWER_NO_CRYPTO | SRTP_ACTIVE | SRTP_SENTUPDATEDOFFER
  | SRTP_RECEIVEDUPDATEDOFFER | SRTP_SENTPRANSWER | SRTP_RECEIVEDPRANSWER

record 's srtp_filter =
  sf_state :: srtp_state
  sf_silent_time :: uint32
  sf_offer_params :: "crypto_params list"
  sf_send :: "'s srtp_session option"
  sf_recv :: "'s srtp_session option"
  sf_send_rtcp :: "'s srtp_session option"
  sf_recv_rtcp :: "'s srtp_session option"
  sf_global :: srtp_global

definition SrtpFilter :: "'s srtp_filter" where
  "SrtpFilter = \<lparr>sf_state = SRTP_INIT, sf_silent_time = 0, sf_offer_params = [], sf_send = None,
     sf_recv = None, sf_send_rtcp = None, sf_recv_rtcp = None,
     sf_global = \<lparr>gl_inited = False, gl_inits = 0\<rparr>\<rparr>"

text \<open>\<^verbatim>\<open>state_ >= ST_ACTIVE\<close>, in the order of the enumeration.\<close>

definition sf_IsActive :: "'s srtp_filter \<Rightarrow> bool" where
  "sf_IsActive f \<longleftrightarrow> sf_state f \<in> {SRTP_ACTIVE, SRTP_SENTUPDATEDOFFER, SRTP_RECEIVEDUPDATEDOFFER,
     SRTP_SENTPRANSWER, SRTP_RECEIVEDPRANSWER}"

section \<open>Negotiation\<close>

definition sf_ExpectOffer :: "'s srtp_filter \<Rightarrow> content_source \<Rightarrow> bool" where
  "sf_ExpectOffer f src \<longleftrightarrow>
     sf_state f = SRTP_INIT \<or> sf_state f = SRTP_ACTIVE
     \<or> (sf_state f = SRTP_SENTOFFER \<and> src = CS_LOCAL)
     \<or> (sf_state f = SRTP_SENTUPDATEDOFFER \<and> src = CS_LOCAL)
     \<or> (sf_state f = SRTP_RECEIVEDOFFER \<and> src = CS_REMOTE)
     \<or> (sf_state f = SRTP_RECEIVEDUPDATEDOFFER \<and> src = CS_REMOTE)"

definition sf_StoreParams :: "'s srtp_filter \<Rightarrow> crypto_params list \<Rightarrow> content_source
    \<Rightarrow> bool \<times> 's srtp_filter" where
  "sf_StoreParams f params src =
     (True, f\<lparr>sf_offer_params := params,
       sf_state := (if sf_state f = SRTP_INIT
                    then if src = CS_LOCAL then SRTP_SENTOFFER else SRTP_RECEIVEDOFFER
                    else if src = CS_LOCAL then SRTP_SENTUPDATEDOFFER else SRTP_RECEIVEDUPDATEDOFFER)\<rparr>)"

definition sf_SetOffer :: "'s srtp_filter \<Rightarrow> crypto_params list \<Rightarrow> content_source
    \<Rightarrow> bool \<times> 's srtp_filter" where
  "sf_SetOffer f offer_params src =
     (if \<not> sf_ExpectOffer f src then (False, f) else sf_StoreParams f offer_params src)"

definition sf_ExpectAnswer :: "'s srtp_filter \<Rightarrow> content_source \<Rightarrow> bool" where
  "sf_ExpectAnswer f src \<longleftrightarrow>
     (sf_state f = SRTP_SENTOFFER \<and> src = CS_REMOTE)
     \<or> (sf_state f = SRTP_RECEIVEDOFFER \<and> src = CS_LOCAL)
     \<or> (sf_state f = SRTP_SENTUPDATEDOFFER \<and> src = CS_REMOTE)
     \<or> (sf_state f = SRTP_RECEIVEDUPDATEDOFFER \<and> src = CS_LOCAL)
     \<or> (sf_state f = SRTP_SENTPRANSWER_NO_CRYPTO \<and> src = CS_LOCAL)
     \<or> (sf_state f = SRTP_SENTPRANSWER \<and> src = CS_LOCAL)
     \<or> (sf_state f = SRTP_RECEIVEDPRANSWER_NO_CRYPTO \<and> src = CS_REMOTE)
     \<or> (sf_state f = SRTP_RECEIVEDPRANSWER \<and> src = CS_REMOTE)"

definition sf_new_session :: "'s srtp_filter \<Rightarrow> 's srtp_session" where
  "sf_new_session f = ss_set_signal_silent_time (sf_silent_time f) SrtpSession"

definition CreateSrtpSessions :: "'s srtp_filter \<Rightarrow> 's srtp_filter" where
  "CreateSrtpSessions f =
     f\<lparr>sf_send := Some (sf_new_session f), sf_recv := Some (sf_new_session f)\<rparr>"

definition NegotiateParams :: "'s srtp_filter \<Rightarrow> crypto_params list \<Rightarrow> crypto_params option" where
  "NegotiateParams f answer_params =
     (if length answer_params = 1 \<and> sf_offer_params f \<noteq> []
      then find (cp_Matches (answer_params ! 0)) (sf_offer_params f) else None)"

definition inline_prefix :: bytes where "inline_prefix = [105, 110, 108, 105, 110, 101, 58]"

definition ParseKeyParams :: "bytes \<Rightarrow> nat \<Rightarrow> bytes option" where
  "ParseKeyParams key_params len =
     (if take 7 key_params \<noteq> inline_prefix then None
      else case DecodeFromArray (drop 7 key_params) DO_STRICT of
          Some (True, key_str, _) \<Rightarrow> if length key_str = len then Some key_str else None
        | _ \<Rightarrow> None)"

text \<open>
  The send and receive keys, and the result; a session that is reset or keyed in vain stays.
\<close>

definition sf_SetSend :: "'s srtp_lib \<Rightarrow> string \<Rightarrow> bytes \<Rightarrow> 's srtp_filter \<Rightarrow> bool \<times> 's srtp_filter" where
  "sf_SetSend L cs key f =
     (case sf_send f of
        None \<Rightarrow> (False, f)
      | Some s \<Rightarrow> (case ss_SetSend L cs key s (sf_global f) of
          (ok, s', g) \<Rightarrow> (ok, f\<lparr>sf_send := Some s', sf_global := g\<rparr>)))"

definition sf_SetRecv :: "'s srtp_lib \<Rightarrow> string \<Rightarrow> bytes \<Rightarrow> 's srtp_filter \<Rightarrow> bool \<times> 's srtp_filter" where
  "sf_SetRecv L cs key f =
     (case sf_recv f of
        None \<Rightarrow> (False, f)
      | Some s \<Rightarrow> (case ss_SetRecv L cs key s (sf_global f) of
          (ok, s', g) \<Rightarrow> (ok, f\<lparr>sf_recv := Some s', sf_global := g\<rparr>)))"

definition sf_SetKeys :: "'s srtp_lib \<Rightarrow> string \<Rightarrow> bytes \<Rightarrow> string \<Rightarrow> bytes \<Rightarrow> 's srtp_filter
    \<Rightarrow> bool \<times> 's srtp_filter" where
  "sf_SetKeys L send_cs send_key recv_cs recv_key f =
     (case sf_SetSend L send_cs send_key (CreateSrtpSessions f) of
        (False, f1) \<Rightarrow> (False, f1)
      | (True, f1) \<Rightarrow> sf_SetRecv L recv_cs recv_key f1)"

definition ApplyParams :: "'s srtp_lib \<Rightarrow> crypto_params \<Rightarrow> crypto_params \<Rightarrow> 's srtp_filter
    \<Rightarrow> bool \<times> 's srtp_filter" where
  "ApplyParams L send_params recv_params f =
     (case (ParseKeyParams (cp_key_params send_params) SRTP_MASTER_KEY_LEN,
            ParseKeyParams (cp_key_params recv_params) SRTP_MASTER_KEY_LEN) of
        (Some send_key, Some recv_key) \<Rightarrow>
          sf_SetKeys L (cp_cipher_suite send_params) send_key (cp_cipher_suite recv_params) recv_key f
      | _ \<Rightarrow> (False, f))"

definition ResetParams :: "'s srtp_filter \<Rightarrow> bool \<times> 's srtp_filter" where
  "ResetParams f = (True, f\<lparr>sf_offer_params := [], sf_state := SRTP_INIT\<rparr>)"

definition sf_DoSetAnswer :: "'s srtp_lib \<Rightarrow> 's srtp_filter \<Rightarrow> crypto_params list \<Rightarrow> content_source
    \<Rightarrow> bool \<Rightarrow> bool \<times> 's srtp_filter" where
  "sf_DoSetAnswer L f answer_params src final =
     (if \<not> sf_ExpectAnswer f src then (False, f)
      else if answer_params = [] then
        (if final then ResetParams f
         else (True, f\<lparr>sf_state := (if src = CS_LOCAL then SRTP_SENTPRANSWER_NO_CRYPTO
                                   else SRTP_RECEIVEDPRANSWER_NO_CRYPTO)\<rparr>))
      else case NegotiateParams f answer_params of
          None \<Rightarrow> (False, f)
        | Some selected_params \<Rightarrow>
            let send_params = (if src = CS_REMOTE then selected_params else answer_params ! 0);
                recv_params = (if src = CS_REMOTE then answer_params ! 0 else selected_params)
            in case ApplyParams L send_params recv_params f of
                 (False, f1) \<Rightarrow> (False, f1)
               | (True, f1) \<Rightarrow>
                   if final then (True, f1\<lparr>sf_offer_params := [], sf_state := SRTP_ACTIVE\<rparr>)
                   else (True, f1\<lparr>sf_state := (if src = CS_LOCAL then SRTP_SENTPRANSWER
                                             else SRTP_RECEIVEDPRANSWER)\<rparr>))"

definition sf_SetAnswer :: "'s srtp_lib \<Rightarrow> 's srtp_filter \<Rightarrow> crypto_params list \<Rightarrow> content_source
    \<Rightarrow> bool \<times> 's srtp_filter" where
  "sf_SetAnswer L f answer_params src = sf_DoSetAnswer L f answer_params src True"

definition sf_SetProvisionalAnswer :: "'s srtp_lib \<Rightarrow> 's srtp_filter \<Rightarrow> crypto_params list
    \<Rightarrow> content_source \<Rightarrow> bool \<times> 's srtp_filter" where
  "sf_SetProvisionalAnswer L f answer_params src = sf_DoSetAnswer L f answer_params src False"

definition SetRtpParams :: "'s srtp_lib \<Rightarrow> 's srtp_filter \<Rightarrow> string \<Rightarrow> bytes \<Rightarrow> string \<Rightarrow> bytes
    \<Rightarrow> bool \<times> 's srtp_filter" where
  "SetRtpParams L f send_cs send_key recv_cs recv_key =
     (if sf_state f = SRTP_ACTIVE then (False, f)
      else case sf_SetKeys L send_cs send_key recv_cs recv_key f of
          (False, f1) \<Rightarrow> (False, f1)
        | (True, f1) \<Rightarrow> (True, f1\<lparr>sf_state := SRTP_ACTIVE\<rparr>))"

text \<open>
  The check of \<^verbatim>\<open>SetRtcpParams\<close> names the same session twice, and the send session is keyed by
  \<^verbatim>\<open>SetRecv\<close>.
\<close>

definition SetRtcpParams :: "'s srtp_lib \<Rightarrow> 's srtp_filter \<Rightarrow> string \<Rightarrow> bytes \<Rightarrow> string \<Rightarrow> bytes
    \<Rightarrow> bool \<times> 's srtp_filter" where
  "SetRtcpParams L f send_cs send_key recv_cs recv_key =
     (if sf_send_rtcp f \<noteq> None \<or> sf_send_rtcp f \<noteq> None then (False, f)
      else
        case ss_SetRecv L send_cs send_key (sf_new_session f) (sf_global f) of (ok, s, g) \<Rightarrow>
          let f1 = f\<lparr>sf_send_rtcp := Some s, sf_global := g\<rparr> in
          if \<not> ok then (False, f1)
          else case ss_SetRecv L recv_cs recv_key (sf_new_session f) g of (ok', s', g') \<Rightarrow>
            (ok', f1\<lparr>sf_recv_rtcp := Some s', sf_global := g'\<rparr>))"

definition sf_set_signal_silent_time :: "uint32 \<Rightarrow> 's srtp_filter \<Rightarrow> 's srtp_filter option" where
  "sf_set_signal_silent_time ms f =
     (let f1 = f\<lparr>sf_silent_time := ms\<rparr> in
      if sf_state f1 \<noteq> SRTP_ACTIVE then Some f1
      else if sf_send f1 = None \<or> sf_recv f1 = None then None
      else Some (f1\<lparr>sf_send := map_option (ss_set_signal_silent_time ms) (sf_send f1),
                   sf_recv := map_option (ss_set_signal_silent_time ms) (sf_recv f1),
                   sf_send_rtcp := map_option (ss_set_signal_silent_time ms) (sf_send_rtcp f1),
                   sf_recv_rtcp := map_option (ss_set_signal_silent_time ms) (sf_recv_rtcp f1)\<rparr>))"

section \<open>Packets\<close>

definition sf_ProtectRtp :: "'s srtp_lib \<Rightarrow> uint32 \<Rightarrow> bytes \<Rightarrow> nat \<Rightarrow> nat \<Rightarrow> 's srtp_filter
    \<Rightarrow> (bool \<times> bytes \<times> nat option \<times> 's srtp_filter) option" where
  "sf_ProtectRtp L now p in_len max_len f =
     (if \<not> sf_IsActive f then Some (False, p, None, f)
      else case sf_send f of
          None \<Rightarrow> None
        | Some s \<Rightarrow> (case ss_ProtectRtp L now p in_len max_len s of
            (ok, p', n, s') \<Rightarrow> Some (ok, p', n, f\<lparr>sf_send := Some s'\<rparr>)))"

definition sf_ProtectRtcp :: "'s srtp_lib \<Rightarrow> uint32 \<Rightarrow> bytes \<Rightarrow> nat \<Rightarrow> nat \<Rightarrow> 's srtp_filter
    \<Rightarrow> (bool \<times> bytes \<times> nat option \<times> 's srtp_filter) option" where
  "sf_ProtectRtcp L now p in_len max_len f =
     (if \<not> sf_IsActive f then Some (False, p, None, f)
      else case sf_send_rtcp f of
          Some s \<Rightarrow> (case ss_ProtectRtcp L now p in_len max_len s of
            (ok, p', n, s') \<Rightarrow> Some (ok, p', n, f\<lparr>sf_send_rtcp := Some s'\<rparr>))
        | None \<Rightarrow> (case sf_send f of
            None \<Rightarrow> None
          | Some s \<Rightarrow> (case ss_ProtectRtcp L now p in_len max_len s of
              (ok, p', n, s') \<Rightarrow> Some (ok, p', n, f\<lparr>sf_send := Some s'\<rparr>))))"

definition sf_UnprotectRtp :: "'s srtp_lib \<Rightarrow> uint32 \<Rightarrow> bytes \<Rightarrow> nat \<Rightarrow> 's srtp_filter
    \<Rightarrow> (bool \<times> bytes \<times> nat option \<times> 's srtp_filter) option" where
  "sf_UnprotectRtp L now p in_len f =
     (if \<not> sf_IsActive f then Some (False, p, None, f)
      else case sf_recv f of
          None \<Rightarrow> None
        | Some s \<Rightarrow> (case ss_UnprotectRtp L now p in_len s of
            (ok, p', n, s') \<Rightarrow> Some (ok, p', n, f\<lparr>sf_recv := Some s'\<rparr>)))"

definition sf_UnprotectRtcp :: "'s srtp_lib \<Rightarrow> uint32 \<Rightarrow> bytes \<Rightarrow> nat \<Rightarrow> 's srtp_filter
    \<Rightarrow> (bool \<times> bytes \<times> nat option \<times> 's srtp_filter) option" where
  "sf_UnprotectRtcp L now p in_len f =
     (if \<not> sf_IsActive f then Some (False, p, None, f)
      else case sf_recv_rtcp f of
          Some s \<Rightarrow> (case ss_UnprotectRtcp L now p in_len s of
            (ok, p', n, s') \<Rightarrow> Some (ok, p', n, f\<lparr>sf_recv_rtcp := Some s'\<rparr>))
        | None \<Rightarrow> (case sf_recv f of
            None \<Rightarrow> None
          | Some s \<Rightarrow> (case ss_UnprotectRtcp L now p in_len s of
              (ok, p', n, s') \<Rightarrow> Some (ok, p', n, f\<lparr>sf_recv := Some s'\<rparr>))))"

section \<open>Histories\<close>

datatype srtp_call =
    SrtpOffer "crypto_params list" content_source
  | SrtpAnswer "crypto_params list" content_source
  | SrtpPrAnswer "crypto_params list" content_source
  | SrtpRtpParams string bytes string bytes
  | SrtpRtcpParams string bytes string bytes
  | SrtpSilentTime uint32
  | SrtpProtectRtp uint32 bytes nat nat
  | SrtpProtectRtcp uint32 bytes nat nat
  | SrtpUnprotectRtp uint32 bytes nat
  | SrtpUnprotectRtcp uint32 bytes nat

text \<open>The filter after a call, \<open>None\<close> when the call used a null pointer.\<close>

definition packet_filter :: "(bool \<times> bytes \<times> nat option \<times> 's srtp_filter) option \<Rightarrow> 's srtp_filter option" where
  "packet_filter r = map_option (\<lambda>(ok, p, n, f). f) r"

fun srtp_step :: "'s srtp_lib \<Rightarrow> srtp_call \<Rightarrow> 's srtp_filter \<Rightarrow> 's srtp_filter option" where
  "srtp_step L (SrtpOffer ps src) f = Some (snd (sf_SetOffer f ps src))"
| "srtp_step L (SrtpAnswer ps src) f = Some (snd (sf_SetAnswer L f ps src))"
| "srtp_step L (SrtpPrAnswer ps src) f = Some (snd (sf_SetProvisionalAnswer L f ps src))"
| "srtp_step L (SrtpRtpParams cs k cs' k') f = Some (snd (SetRtpParams L f cs k cs' k'))"
| "srtp_step L (SrtpRtcpParams cs k cs' k') f = Some (snd (SetRtcpParams L f cs k cs' k'))"
| "srtp_step L (SrtpSilentTime ms) f = sf_set_signal_silent_time ms f"
| "srtp_step L (SrtpProtectRtp now p n m) f = packet_filter (sf_ProtectRtp L now p n m f)"
| "srtp_step L (SrtpProtectRtcp now p n m) f = packet_filter (sf_ProtectRtcp L now p n m f)"
| "srtp_step L (SrtpUnprotectRtp now p n) f = packet_filter (sf_UnprotectRtp L now p n f)"
| "srtp_step L (SrtpUnprotectRtcp now p n) f = packet_filter (sf_UnprotectRtcp L now p n f)"

fun srtp_run :: "'s srtp_lib \<Rightarrow> srtp_call list \<Rightarrow> 's srtp_filter \<Rightarrow> 's srtp_filter option" where
  "srtp_run L [] f = Some f"
| "srtp_run L (c # cs) f = (case srtp_step L c f of None \<Rightarrow> None | Some f' \<Rightarrow> srtp_run L cs f')"

text \<open>No offer is repeated before the first answer to it.\<close>

fun single_offers :: "'s srtp_lib \<Rightarrow> srtp_call list \<Rightarrow> 's srtp_filter \<Rightarrow> bool" where
  "single_offers L [] f \<longleftrightarrow> True"
| "single_offers L (c # cs) f \<longleftrightarrow>
     (case c of SrtpOffer _ _ \<Rightarrow> sf_state f \<notin> {SRTP_SENTOFFER, SRTP_RECEIVEDOFFER} | _ \<Rightarrow> True)
     \<and> (case srtp_step L c f of None \<Rightarrow> True | Some f' \<Rightarrow> single_offers L cs f')"

definition has_sessions :: "'s srtp_filter \<Rightarrow> bool" where
  "has_sessions f \<longleftrightarrow> sf_send f \<noteq> None \<and> sf_recv f \<noteq> None"

definition sessions_inv :: "'s srtp_filter \<Rightarrow> bool" where
  "sessions_inv f \<longleftrightarrow> (sf_IsActive f \<longrightarrow> has_sessions f)"

lemma sf_SetKeys_sessions:
  "has_sessions (snd (sf_SetKeys L cs k cs' k' f))
   \<and> sf_state (snd (sf_SetKeys L cs k cs' k' f)) = sf_state f"
  by (simp add: has_sessions_def sf_SetKeys_def sf_SetSend_def sf_SetRecv_def CreateSrtpSessions_def
      split: prod.splits bool.splits)

lemma ApplyParams_sessions:
  assumes "ApplyParams L p q f = (ok, f1)"
  shows "(has_sessions f \<or> ok \<longrightarrow> has_sessions f1) \<and> sf_state f1 = sf_state f"
proof (cases "ParseKeyParams (cp_key_params p) SRTP_MASTER_KEY_LEN = None
    \<or> ParseKeyParams (cp_key_params q) SRTP_MASTER_KEY_LEN = None")
  case True
  with assms show ?thesis by (auto simp: ApplyParams_def split: option.splits)
next
  case False
  then obtain k k' where "ApplyParams L p q f
      = sf_SetKeys L (cp_cipher_suite p) k (cp_cipher_suite q) k' f"
    by (auto simp: ApplyParams_def)
  then have "f1 = snd (sf_SetKeys L (cp_cipher_suite p) k (cp_cipher_suite q) k' f)"
    using assms by (metis snd_conv)
  then show ?thesis by (simp add: sf_SetKeys_sessions)
qed

lemma state_inv:
  "sessions_inv f \<Longrightarrow> \<not> sf_IsActive f \<or> has_sessions f"
  "has_sessions f \<Longrightarrow> sessions_inv f"
  by (auto simp: sessions_inv_def)

lemma has_sessions_update [simp]:
  "has_sessions (sf_state_update g f) = has_sessions f"
  "has_sessions (sf_offer_params_update h f) = has_sessions f"
  by (simp_all add: has_sessions_def)

lemma DoSetAnswer_inv:
  assumes inv: "sessions_inv f"
  shows "sessions_inv (snd (sf_DoSetAnswer L f ps src final))"
proof (cases "sf_ExpectAnswer f src \<and> ps \<noteq> [] \<and> NegotiateParams f ps \<noteq> None")
  case False
  then show ?thesis using inv
    by (auto simp: sf_DoSetAnswer_def ResetParams_def sessions_inv_def sf_IsActive_def
        split: option.splits)
next
  case True
  then obtain sel where sel: "NegotiateParams f ps = Some sel" by blast
  obtain ok f1 where ap: "ApplyParams L (if src = CS_REMOTE then sel else ps ! 0)
      (if src = CS_REMOTE then ps ! 0 else sel) f = (ok, f1)"
    by (metis surj_pair)
  note s = ApplyParams_sessions [OF ap]
  show ?thesis
  proof (cases ok)
    case True
    then have "has_sessions f1" using s by simp
    then show ?thesis using \<open>sf_ExpectAnswer f src \<and> ps \<noteq> [] \<and> NegotiateParams f ps \<noteq> None\<close> sel ap True
      by (intro state_inv(2)) (simp add: sf_DoSetAnswer_def Let_def)
  next
    case False
    have "sessions_inv f1" using s inv by (simp add: sessions_inv_def sf_IsActive_def)
    then show ?thesis using \<open>sf_ExpectAnswer f src \<and> ps \<noteq> [] \<and> NegotiateParams f ps \<noteq> None\<close> sel ap False
      by (simp add: sf_DoSetAnswer_def Let_def)
  qed
qed

lemma SetRtpParams_inv:
  assumes "sessions_inv f"
  shows "sessions_inv (snd (SetRtpParams L f cs k cs' k'))"
proof -
  obtain ok f1 where e: "sf_SetKeys L cs k cs' k' f = (ok, f1)" by (metis surj_pair)
  then have "has_sessions f1" using sf_SetKeys_sessions [of L cs k cs' k' f] by simp
  then show ?thesis using assms e
    by (cases ok) (auto simp: SetRtpParams_def sessions_inv_def)
qed

lemma SetRtcpParams_fields:
  "sf_state (snd (SetRtcpParams L f cs k cs' k')) = sf_state f"
  "sf_send (snd (SetRtcpParams L f cs k cs' k')) = sf_send f"
  "sf_recv (snd (SetRtcpParams L f cs k cs' k')) = sf_recv f"
  by (simp_all add: SetRtcpParams_def Let_def split: prod.splits)

lemma session_update_inv [intro]:
  assumes "sessions_inv f"
  shows "sessions_inv (f\<lparr>sf_send := Some s\<rparr>)" "sessions_inv (f\<lparr>sf_recv := Some s\<rparr>)"
    "sessions_inv (f\<lparr>sf_send_rtcp := r\<rparr>)" "sessions_inv (f\<lparr>sf_recv_rtcp := r\<rparr>)"
  using assms by (auto simp: sessions_inv_def has_sessions_def sf_IsActive_def)

lemma packet_case:
  assumes "\<And>ok p n s. r = (ok, p, n, s) \<Longrightarrow> sessions_inv (u s)"
  shows "\<exists>f'. packet_filter (case r of (ok, p, n, s) \<Rightarrow> Some (ok, p, n, u s)) = Some f' \<and> sessions_inv f'"
  using assms by (cases r) (simp add: packet_filter_def)

lemma packet_inactive:
  "sessions_inv f \<Longrightarrow> \<exists>f'. packet_filter (Some (ok, p, n, f)) = Some f' \<and> sessions_inv f'"
  by (simp add: packet_filter_def)

lemma packet_steps:
  assumes inv: "sessions_inv f"
  shows "\<exists>f'. packet_filter (sf_ProtectRtp L now p n m f) = Some f' \<and> sessions_inv f'" (is ?A)
    and "\<exists>f'. packet_filter (sf_ProtectRtcp L now p n m f) = Some f' \<and> sessions_inv f'" (is ?B)
    and "\<exists>f'. packet_filter (sf_UnprotectRtp L now p n f) = Some f' \<and> sessions_inv f'" (is ?C)
    and "\<exists>f'. packet_filter (sf_UnprotectRtcp L now p n f) = Some f' \<and> sessions_inv f'" (is ?D)
proof -
  consider (off) "\<not> sf_IsActive f"
    | (on) s r where "sf_IsActive f" "sf_send f = Some s" "sf_recv f = Some r"
    using inv by (auto simp: sessions_inv_def has_sessions_def)
  then have "?A \<and> ?B \<and> ?C \<and> ?D"
  proof cases
    case off
    then show ?thesis using packet_inactive [OF inv]
      by (simp add: sf_ProtectRtp_def sf_ProtectRtcp_def sf_UnprotectRtp_def sf_UnprotectRtcp_def)
  next
    case on
    have ?A unfolding sf_ProtectRtp_def
      by (simp only: on simp_thms if_False option.case) (rule packet_case, intro session_update_inv inv)
    moreover have ?C unfolding sf_UnprotectRtp_def
      by (simp only: on simp_thms if_False option.case) (rule packet_case, intro session_update_inv inv)
    moreover have ?B unfolding sf_ProtectRtcp_def
      by (cases "sf_send_rtcp f"; simp only: on simp_thms if_False option.case;
          rule packet_case; intro session_update_inv inv)
    moreover have ?D unfolding sf_UnprotectRtcp_def
      by (cases "sf_recv_rtcp f"; simp only: on simp_thms if_False option.case;
          rule packet_case; intro session_update_inv inv)
    ultimately show ?thesis by blast
  qed
  then show ?A ?B ?C ?D by blast+
qed

lemma srtp_step_inv:
  assumes inv: "sessions_inv f"
    and c: "case c of SrtpOffer _ _ \<Rightarrow> sf_state f \<notin> {SRTP_SENTOFFER, SRTP_RECEIVEDOFFER} | _ \<Rightarrow> True"
  shows "\<exists>f'. srtp_step L c f = Some f' \<and> sessions_inv f'"
proof (cases c)
  case (SrtpOffer ps src)
  then show ?thesis using inv c
    by (auto simp: sf_SetOffer_def sf_ExpectOffer_def sf_StoreParams_def sessions_inv_def
        has_sessions_def sf_IsActive_def)
next
  case (SrtpSilentTime ms)
  then show ?thesis using inv
    by (auto simp: sf_set_signal_silent_time_def Let_def sessions_inv_def has_sessions_def
        sf_IsActive_def)
next
  case (SrtpRtcpParams cs k cs' k')
  then show ?thesis using inv
    by (simp add: sessions_inv_def sf_IsActive_def has_sessions_def SetRtcpParams_fields)
qed (use inv in \<open>simp_all add: sf_SetAnswer_def sf_SetProvisionalAnswer_def DoSetAnswer_inv
      SetRtpParams_inv packet_steps\<close>)

text \<open>
  C8.  No null session is used: in every history of offers, answers, key settings and packets in
  which no offer is repeated before its first answer, every call returns, whatever keys are
  refused by the parser or by the library on the way, and when the filter says that it is
  active both of its sessions exist.
\<close>

theorem srtp_filter_safe:
  assumes "single_offers L cs SrtpFilter"
  shows "\<exists>f. srtp_run L cs SrtpFilter = Some f \<and> (sf_IsActive f \<longrightarrow> has_sessions f)"
proof -
  have "\<exists>f'. srtp_run L cs f = Some f' \<and> sessions_inv f'"
    if "sessions_inv f" "single_offers L cs f" for f
    using that
  proof (induction cs arbitrary: f)
    case (Cons c cs)
    then obtain f1 where "srtp_step L c f = Some f1" "sessions_inv f1"
      using srtp_step_inv [of f c L] by auto
    then show ?case using Cons by simp
  qed simp
  then show ?thesis using assms
    by (simp add: sessions_inv_def SrtpFilter_def sf_IsActive_def)
qed

text \<open>
  An offer that is repeated before its answer activates the filter without keys: the second
  \<^verbatim>\<open>SetOffer\<close> takes the filter for an active one, \<^verbatim>\<open>IsActive\<close> says true, and the next packet is
  given to a session that does not exist.
\<close>

theorem repeated_offer_uses_null:
  "case sf_SetOffer (snd (sf_SetOffer SrtpFilter ps src)) qs src of
     (ok, f) \<Rightarrow> ok \<and> sf_IsActive f \<and> sf_ProtectRtp L now p n m f = None
       \<and> sf_UnprotectRtp L now p n f = None"
  by (cases src) (simp_all add: sf_SetOffer_def sf_ExpectOffer_def sf_StoreParams_def SrtpFilter_def
      sf_IsActive_def sf_ProtectRtp_def sf_UnprotectRtp_def)

section \<open>The keys of the two ends\<close>

lemma DO_STRICT_decodes: "DecodeFromArray (EncodeFromArray key) DO_STRICT
    = Some (True, key, length (EncodeFromArray key))"
proof -
  have "decode_loop DO_PARSE_STRICT DO_PAD_YES DO_TERM_BUFFER (EncodeFromArray key) 0 []
      = (True, key, length (EncodeFromArray key))"
    using decode_encoded [of 0 "EncodeFromArray key" key DO_PAD_YES DO_PARSE_STRICT DO_TERM_BUFFER "[]"]
    by (simp add: DO_PAD_YES_def DO_PAD_NO_def)
  then show ?thesis
    by (simp add: DecodeFromArray_def Let_def DO_STRICT_flags)
      (simp add: DO_PARSE_STRICT_def DO_PAD_YES_def DO_TERM_BUFFER_def)
qed

lemma ParseKeyParams_inline:
  "length key = n \<Longrightarrow> ParseKeyParams (inline_prefix @ EncodeFromArray key) n = Some key"
  by (simp add: ParseKeyParams_def DO_STRICT_decodes inline_prefix_def numeral_eq_Suc)

text \<open>The library creates every session it is asked for.\<close>

definition lib_works :: "'s srtp_lib \<Rightarrow> bool" where
  "lib_works L \<longleftrightarrow> (\<forall>i. lib_init L i = err_status_ok \<and> lib_install_event_handler L i = err_status_ok)
     \<and> (\<forall>policy. fst (lib_create L policy) = err_status_ok)"

definition srtp_suite :: "string \<Rightarrow> bool" where
  "srtp_suite cs \<longleftrightarrow> cs = CS_AES_CM_128_HMAC_SHA1_80 \<or> cs = CS_AES_CM_128_HMAC_SHA1_32"

text \<open>The library session for a direction, a suite and a key.\<close>

definition lib_session :: "'s srtp_lib \<Rightarrow> ssrc_type \<Rightarrow> string \<Rightarrow> bytes \<Rightarrow> 's option" where
  "lib_session L type cs key = snd (lib_create L (the (srtp_make_policy type cs key)))"

lemma SetKey_works:
  assumes "lib_works L" "srtp_suite cs" "length key = SRTP_MASTER_KEY_LEN" "ss_session s = None"
  shows "\<exists>s' g'. ss_SetKey L type cs key s g = (True, s', g') \<and> ss_session s' = lib_session L type cs key"
proof -
  obtain g1 where "srtp_Init L g = (True, g1)"
    using assms(1) by (cases "gl_inited g") (simp_all add: srtp_Init_def lib_works_def Let_def)
  moreover obtain policy where "srtp_make_policy type cs key = Some policy"
    using assms(2,3) by (auto simp: srtp_make_policy_def srtp_suite_def)
  moreover obtain h where "lib_create L policy = (err_status_ok, h)"
    using assms(1) by (metis lib_works_def prod.collapse)
  ultimately show ?thesis using assms(4)
    by (simp add: ss_SetKey_def lib_session_def)
qed

definition keyed :: "'s srtp_lib \<Rightarrow> ssrc_type \<Rightarrow> string \<Rightarrow> bytes \<Rightarrow> 's srtp_session option \<Rightarrow> bool" where
  "keyed L type cs key s \<longleftrightarrow> map_option ss_session s = Some (lib_session L type cs key)"

lemma SetKeys_works:
  assumes "lib_works L" "srtp_suite cs" "srtp_suite cs'"
    and "length k = SRTP_MASTER_KEY_LEN" "length k' = SRTP_MASTER_KEY_LEN"
  shows "\<exists>f'. sf_SetKeys L cs k cs' k' f = (True, f') \<and> keyed L ssrc_any_outbound cs k (sf_send f')
    \<and> keyed L ssrc_any_inbound cs' k' (sf_recv f')"
proof -
  let ?f = "CreateSrtpSessions f"
  have new: "ss_session (sf_new_session f) = None"
    by (simp add: sf_new_session_def ss_set_signal_silent_time_def SrtpSession_def)
  obtain s g where s: "ss_SetKey L ssrc_any_outbound cs k (sf_new_session f) (sf_global ?f) = (True, s, g)"
      "ss_session s = lib_session L ssrc_any_outbound cs k"
    using SetKey_works [OF assms(1,2,4) new] by blast
  obtain r g' where r: "ss_SetKey L ssrc_any_inbound cs' k' (sf_new_session f) g = (True, r, g')"
      "ss_session r = lib_session L ssrc_any_inbound cs' k'"
    using SetKey_works [OF assms(1,3,5) new] by blast
  show ?thesis
    using s r
    by (simp add: sf_SetKeys_def sf_SetSend_def sf_SetRecv_def ss_SetSend_def ss_SetRecv_def
        CreateSrtpSessions_def keyed_def)
qed

definition offers_key :: "crypto_params \<Rightarrow> bytes \<Rightarrow> bool" where
  "offers_key p key \<longleftrightarrow> srtp_suite (cp_cipher_suite p) \<and> length key = SRTP_MASTER_KEY_LEN
     \<and> cp_key_params p = inline_prefix @ EncodeFromArray key"

lemma ApplyParams_works:
  assumes "lib_works L" "offers_key p k" "offers_key q k'"
  shows "\<exists>f'. ApplyParams L p q f = (True, f')
    \<and> keyed L ssrc_any_outbound (cp_cipher_suite p) k (sf_send f')
    \<and> keyed L ssrc_any_inbound (cp_cipher_suite q) k' (sf_recv f')"
  using SetKeys_works [OF assms(1), of "cp_cipher_suite p" "cp_cipher_suite q" k k' f] assms(2,3)
  by (simp add: ApplyParams_def offers_key_def ParseKeyParams_inline)

lemma SetAnswer_works:
  assumes "lib_works L" "sf_ExpectAnswer f src" "find (cp_Matches q) (sf_offer_params f) = Some p"
    and "offers_key p k" "offers_key q k'"
  shows "\<exists>f'. sf_SetAnswer L f [q] src = (True, f') \<and> sf_state f' = SRTP_ACTIVE
    \<and> (let (sp, sk, rp, rk) = (if src = CS_REMOTE then (p, k, q, k') else (q, k', p, k)) in
         keyed L ssrc_any_outbound (cp_cipher_suite sp) sk (sf_send f')
         \<and> keyed L ssrc_any_inbound (cp_cipher_suite rp) rk (sf_recv f'))"
proof -
  have neg: "NegotiateParams f [q] = Some p"
    using assms(3) by (auto simp: NegotiateParams_def)
  show ?thesis
  proof (cases src)
    case CS_REMOTE
    then show ?thesis using ApplyParams_works [OF assms(1,4,5), of f] neg assms(2)
      by (auto simp: sf_SetAnswer_def sf_DoSetAnswer_def Let_def)
  next
    case CS_LOCAL
    then show ?thesis using ApplyParams_works [OF assms(1,5,4), of f] neg assms(2)
      by (auto simp: sf_SetAnswer_def sf_DoSetAnswer_def Let_def)
  qed
qed

lemma offered:
  "sf_ExpectAnswer (snd (sf_SetOffer SrtpFilter ps src)) (if src = CS_LOCAL then CS_REMOTE else CS_LOCAL)"
  "sf_offer_params (snd (sf_SetOffer SrtpFilter ps src)) = ps"
  by (cases src; simp add: sf_SetOffer_def sf_ExpectOffer_def sf_StoreParams_def SrtpFilter_def
      sf_ExpectAnswer_def)+

text \<open>
  C7.  Offer and answer key the two ends alike: when the answer selects an offered set of
  parameters, with a suite the library knows and keys written the way the parser reads them,
  both ends become active; the offerer sends and the answerer receives under the key of the
  selected offer, and the answerer sends and the offerer receives under the key of the answer.
\<close>

theorem srtp_keys_agree:
  assumes "lib_works L" and "lib_works M"
    and "find (cp_Matches q) ps = Some p" and "offers_key p k" "offers_key q k'"
  shows "\<exists>a b. sf_SetAnswer L (snd (sf_SetOffer SrtpFilter ps CS_LOCAL)) [q] CS_REMOTE = (True, a)
    \<and> sf_SetAnswer M (snd (sf_SetOffer SrtpFilter ps CS_REMOTE)) [q] CS_LOCAL = (True, b)
    \<and> sf_IsActive a \<and> sf_IsActive b \<and> cp_cipher_suite p = cp_cipher_suite q
    \<and> keyed L ssrc_any_outbound (cp_cipher_suite p) k (sf_send a)
    \<and> keyed M ssrc_any_inbound (cp_cipher_suite p) k (sf_recv b)
    \<and> keyed M ssrc_any_outbound (cp_cipher_suite p) k' (sf_send b)
    \<and> keyed L ssrc_any_inbound (cp_cipher_suite p) k' (sf_recv a)"
proof -
  have suite: "cp_cipher_suite q = cp_cipher_suite p"
    using assms(3) by (auto simp: find_Some_iff cp_Matches_def)
  have a: "\<exists>a. sf_SetAnswer L (snd (sf_SetOffer SrtpFilter ps CS_LOCAL)) [q] CS_REMOTE = (True, a)
      \<and> sf_state a = SRTP_ACTIVE \<and> keyed L ssrc_any_outbound (cp_cipher_suite p) k (sf_send a)
      \<and> keyed L ssrc_any_inbound (cp_cipher_suite p) k' (sf_recv a)"
    using SetAnswer_works [OF assms(1) offered(1) [of ps CS_LOCAL] _ assms(4,5)] assms(3) suite
    by (simp add: offered(2))
  have b: "\<exists>b. sf_SetAnswer M (snd (sf_SetOffer SrtpFilter ps CS_REMOTE)) [q] CS_LOCAL = (True, b)
      \<and> sf_state b = SRTP_ACTIVE \<and> keyed M ssrc_any_outbound (cp_cipher_suite p) k' (sf_send b)
      \<and> keyed M ssrc_any_inbound (cp_cipher_suite p) k (sf_recv b)"
    using SetAnswer_works [OF assms(2) offered(1) [of ps CS_REMOTE] _ assms(4,5)] assms(3) suite
    by (simp add: offered(2))
  show ?thesis using a b suite unfolding sf_IsActive_def by fastforce
qed

text \<open>A library whose sessions are the policies they were created from.\<close>

definition plain_lib :: "srtp_policy srtp_lib" where
  "plain_lib = \<lparr>lib_init = (\<lambda>_. err_status_ok), lib_install_event_handler = (\<lambda>_. err_status_ok),
     lib_create = (\<lambda>p. (err_status_ok, Some p)), lib_auth_tag_len = (\<lambda>_. 10),
     lib_protect = (\<lambda>s p n. (err_status_ok, p, n, s)), lib_protect_rtcp = (\<lambda>s p n. (err_status_ok, p, n, s)),
     lib_unprotect = (\<lambda>s p n. (err_status_ok, p, n, s)),
     lib_unprotect_rtcp = (\<lambda>s p n. (err_status_ok, p, n, s))\<rparr>"

definition sample_params :: "int \<Rightarrow> uint8 \<Rightarrow> crypto_params" where
  "sample_params tag b = \<lparr>cp_tag = tag, cp_cipher_suite = CS_AES_CM_128_HMAC_SHA1_80,
     cp_key_params = inline_prefix @ EncodeFromArray (replicate 30 b), cp_session_params = []\<rparr>"

theorem srtp_keys_agree_witness:
  "\<exists>a b. keyed plain_lib ssrc_any_outbound CS_AES_CM_128_HMAC_SHA1_80 (replicate 30 2) (sf_send a)
    \<and> keyed plain_lib ssrc_any_inbound CS_AES_CM_128_HMAC_SHA1_80 (replicate 30 2) (sf_recv b)
    \<and> sf_IsActive a \<and> sf_IsActive b"
proof -
  have "lib_works plain_lib" by (simp add: lib_works_def plain_lib_def)
  moreover have "find (cp_Matches (sample_params 2 3)) [sample_params 1 1, sample_params 2 2]
      = Some (sample_params 2 2)"
    by (simp add: cp_Matches_def sample_params_def)
  moreover have "offers_key (sample_params 2 b) (replicate 30 b)" for b
    by (simp add: offers_key_def srtp_suite_def sample_params_def SRTP_MASTER_KEY_LEN_def)
  ultimately show ?thesis
    using srtp_keys_agree [of plain_lib plain_lib "sample_params 2 3"
        "[sample_params 1 1, sample_params 2 2]" "sample_params 2 2" "replicate 30 2" "replicate 30 3"]
    by (auto simp: sample_params_def)
qed

theorem srtp_filter_safe_witness:
  "\<exists>f. srtp_run plain_lib [SrtpOffer [] CS_LOCAL, SrtpAnswer [] CS_REMOTE, SrtpProtectRtp 1 [] 0 0] SrtpFilter
    = Some f"
  using srtp_filter_safe [of plain_lib
      "[SrtpOffer [] CS_LOCAL, SrtpAnswer [] CS_REMOTE, SrtpProtectRtp 1 [] 0 0]"]
  by (simp add: sf_SetOffer_def sf_ExpectOffer_def sf_StoreParams_def SrtpFilter_def
      sf_SetAnswer_def sf_DoSetAnswer_def sf_ExpectAnswer_def ResetParams_def sf_ProtectRtp_def
      sf_IsActive_def packet_filter_def)

end
